(* ===== verification/Prelude.thy ===== *)
theory Prelude
  imports Main "HOL-Library.Char_ord"
begin

text \<open>
  What the components share: byte strings and the operations of Go's
  \<^verbatim>\<open>strings\<close> package the source calls, results as sums, and generic lemmas
  on lists, maps and sums.

  A Go string is a sequence of bytes, and \<^typ>\<open>string\<close> (a list of 8-bit
  characters) is read as exactly that: \<^verbatim>\<open>len(s)\<close> is \<^term>\<open>length s\<close>,
  \<^verbatim>\<open>s[i]\<close> is \<^term>\<open>s ! i\<close>, and non-ASCII text is its UTF-8 encoding.
\<close>

named_theorems bytes_simps \<open>facts on character classes and trimming\<close>

section \<open>Bytes\<close>

definition in_range :: "char \<Rightarrow> char \<Rightarrow> char \<Rightarrow> bool" where
  "in_range lo hi c \<longleftrightarrow> lo \<le> c \<and> c \<le> hi"

definition is_digit :: "char \<Rightarrow> bool" where
  "is_digit c \<longleftrightarrow> in_range CHR ''0'' CHR ''9'' c"

definition is_lower :: "char \<Rightarrow> bool" where
  "is_lower c \<longleftrightarrow> in_range CHR ''a'' CHR ''z'' c"

definition is_upper :: "char \<Rightarrow> bool" where
  "is_upper c \<longleftrightarrow> in_range CHR ''A'' CHR ''Z'' c"

text \<open>The printable ASCII bytes other than the blank: no whitespace rune
  begins or ends with one.\<close>

definition is_graph :: "char \<Rightarrow> bool" where
  "is_graph c \<longleftrightarrow> in_range CHR ''!'' CHR ''~'' c"

definition is_ascii :: "char \<Rightarrow> bool" where
  "is_ascii c \<longleftrightarrow> c < CHR 0x80"

definition ascii_lower :: "char \<Rightarrow> char" where
  "ascii_lower c = (if is_upper c then char_of (of_char c + 32 :: nat) else c)"

lemma of_char_ge [simp]: "of_char (c :: char) < (256 :: nat)"
  by (metis nat_of_char_less_256)

lemma ascii_lower_code:
  "(of_char (ascii_lower c) :: nat) = (if is_upper c then of_char c + 32 else of_char c)"
  by (auto simp: ascii_lower_def is_upper_def in_range_def less_eq_char_def of_char_of)

lemma ascii_lower_bit [code]:
  "ascii_lower (Char b0 b1 b2 b3 b4 b5 b6 b7) =
     (if is_upper (Char b0 b1 b2 b3 b4 b5 b6 b7) then Char b0 b1 b2 b3 b4 True b6 b7 else Char b0 b1 b2 b3 b4 b5 b6 b7)"
  by (cases b0; cases b1; cases b2; cases b3; cases b4; cases b5; cases b6; cases b7)
    (simp_all add: ascii_lower_def is_upper_def in_range_def char_of_def bit_numeral_rec of_char_def bit_0)

lemma ascii_lower_idem [simp]: "ascii_lower (ascii_lower c) = ascii_lower c"
proof -
  have "\<not> is_upper (ascii_lower c)"
    using ascii_lower_code [of c]
    by (auto simp: is_upper_def in_range_def less_eq_char_def split: if_splits)
  then show ?thesis by (simp add: ascii_lower_def [of "ascii_lower c"])
qed

lemma ascii_lower_fixes [bytes_simps]: "\<not> is_upper c \<Longrightarrow> ascii_lower c = c"
  by (simp add: ascii_lower_def)

lemma lower_not_upper [bytes_simps]: "is_lower c \<Longrightarrow> \<not> is_upper c"
  by (auto simp: is_lower_def is_upper_def in_range_def less_eq_char_def)

lemma digit_not_upper [bytes_simps]: "is_digit c \<Longrightarrow> \<not> is_upper c"
  by (auto simp: is_digit_def is_upper_def in_range_def less_eq_char_def)

lemma lower_graph [bytes_simps]: "is_lower c \<Longrightarrow> is_graph c"
  by (auto simp: is_lower_def is_graph_def in_range_def less_eq_char_def)

lemma digit_graph [bytes_simps]: "is_digit c \<Longrightarrow> is_graph c"
  by (auto simp: is_digit_def is_graph_def in_range_def less_eq_char_def)

lemma upper_graph [bytes_simps]: "is_upper c \<Longrightarrow> is_graph c"
  by (auto simp: is_upper_def is_graph_def in_range_def less_eq_char_def)

lemma graph_ascii [bytes_simps]: "is_graph c \<Longrightarrow> is_ascii c"
  by (auto simp: is_ascii_def is_graph_def in_range_def less_eq_char_def less_char_def)

section \<open>The strings package\<close>

text \<open>\<^verbatim>\<open>strings.ToLower\<close>: the ASCII fast path is exact; a string with a
  non-ASCII byte goes through Go's Unicode case table, the parameter \<open>u\<close>.\<close>

definition to_lower :: "(string \<Rightarrow> string) \<Rightarrow> string \<Rightarrow> string" where
  "to_lower u s = (if list_all is_ascii s then map ascii_lower s else u s)"

definition has_prefix :: "string \<Rightarrow> string \<Rightarrow> bool" where
  "has_prefix p s \<longleftrightarrow> take (length p) s = p"

text \<open>\<^verbatim>\<open>strings.Cut\<close> at a one-byte separator: the parts before and after its
  first occurrence, or \<^const>\<open>None\<close> when there is none.\<close>

fun cut_at :: "char \<Rightarrow> string \<Rightarrow> (string \<times> string) option" where
  "cut_at c [] = None"
| "cut_at c (x # xs) =
     (if x = c then Some ([], xs)
      else map_option (\<lambda>(a, b). (x # a, b)) (cut_at c xs))"

text \<open>\<^verbatim>\<open>strings.TrimSpace\<close> removes white-space runes at both ends. These are
  the UTF-8 encodings of the runes \<^verbatim>\<open>unicode.IsSpace\<close> accepts. A byte string
  ends in such a rune exactly when it ends in those bytes, because the scan for
  the last rune stops at the first byte that can begin one.\<close>

definition space_runes :: "string list" where
  "space_runes =
     [[CHR 0x09], [CHR 0x0A], [CHR 0x0B], [CHR 0x0C], [CHR 0x0D], [CHR 0x20],
      [CHR 0xC2, CHR 0x85], [CHR 0xC2, CHR 0xA0], [CHR 0xE1, CHR 0x9A, CHR 0x80],
      [CHR 0xE2, CHR 0x80, CHR 0x80], [CHR 0xE2, CHR 0x80, CHR 0x81],
      [CHR 0xE2, CHR 0x80, CHR 0x82], [CHR 0xE2, CHR 0x80, CHR 0x83],
      [CHR 0xE2, CHR 0x80, CHR 0x84], [CHR 0xE2, CHR 0x80, CHR 0x85],
      [CHR 0xE2, CHR 0x80, CHR 0x86], [CHR 0xE2, CHR 0x80, CHR 0x87],
      [CHR 0xE2, CHR 0x80, CHR 0x88], [CHR 0xE2, CHR 0x80, CHR 0x89],
      [CHR 0xE2, CHR 0x80, CHR 0x8A], [CHR 0xE2, CHR 0x80, CHR 0xA8],
      [CHR 0xE2, CHR 0x80, CHR 0xA9], [CHR 0xE2, CHR 0x80, CHR 0xAF],
      [CHR 0xE2, CHR 0x81, CHR 0x9F], [CHR 0xE3, CHR 0x80, CHR 0x80]]"

definition leading :: "string list \<Rightarrow> string \<Rightarrow> string option" where
  "leading W s = find (\<lambda>w. w \<noteq> [] \<and> has_prefix w s) W"

lemma leading_SomeD: "leading W s = Some w \<Longrightarrow> w \<noteq> [] \<and> w \<in> set W \<and> s = w @ drop (length w) s"
  unfolding leading_def has_prefix_def find_Some_iff
  by (metis append_take_drop_id nth_mem)

lemma leading_NoneD: "leading W s = None \<Longrightarrow> w \<in> set W \<Longrightarrow> w \<noteq> [] \<Longrightarrow> s \<noteq> w @ t"
  by (auto simp: leading_def has_prefix_def find_None_iff)

function trim_prefixes :: "string list \<Rightarrow> string \<Rightarrow> string" where
  "trim_prefixes W s =
     (case leading W s of None \<Rightarrow> s | Some w \<Rightarrow> trim_prefixes W (drop (length w) s))"
  by pat_completeness auto

termination trim_prefixes
proof (relation "measure (\<lambda>(W, s). length s)")
  fix W s w assume "leading W s = Some w"
  from leading_SomeD [OF this] show "((W, drop (length w) s), W, s) \<in> measure (\<lambda>(W, s). length s)"
    by (cases s) auto
qed simp

declare trim_prefixes.simps [simp del]

definition trim_space :: "string \<Rightarrow> string" where
  "trim_space s =
     rev (trim_prefixes (map rev space_runes) (rev (trim_prefixes space_runes s)))"

lemma trim_prefixes_suffix: "\<exists>p. s = p @ trim_prefixes W s"
proof (induction W s rule: trim_prefixes.induct)
  case (1 W s)
  show ?case
  proof (cases "leading W s")
    case None
    then show ?thesis by (simp add: trim_prefixes.simps)
  next
    case (Some w)
    with 1 obtain p where "drop (length w) s = p @ trim_prefixes W (drop (length w) s)" by blast
    with leading_SomeD [OF Some] Some have "s = (w @ p) @ trim_prefixes W s"
      by (simp add: trim_prefixes.simps [of W s])
    then show ?thesis ..
  qed
qed

lemma trim_prefixes_done: "leading W (trim_prefixes W s) = None"
proof (induction W s rule: trim_prefixes.induct)
  case (1 W s)
  then show ?case by (cases "leading W s") (simp_all add: trim_prefixes.simps [of W s])
qed

lemma trim_prefixes_id: "leading W s = None \<Longrightarrow> trim_prefixes W s = s"
  by (simp add: trim_prefixes.simps)

lemma leading_shorter: "leading W (s @ t) = None \<Longrightarrow> leading W s = None"
  by (auto simp: leading_def has_prefix_def find_None_iff)

lemma trim_space_idem [simp]: "trim_space (trim_space s) = trim_space s"
proof -
  define l where "l = trim_prefixes space_runes s"
  define r where "r = trim_prefixes (map rev space_runes) (rev l)"
  obtain p where p: "rev l = p @ r"
    using trim_prefixes_suffix [of "rev l" "map rev space_runes"] by (auto simp: r_def)
  have "l = rev r @ rev p" by (metis p rev_append rev_rev_ident)
  moreover have "leading space_runes l = None" by (simp add: l_def trim_prefixes_done)
  ultimately have "leading space_runes (rev r) = None" by (metis leading_shorter)
  then have "trim_prefixes space_runes (rev r) = rev r" by (rule trim_prefixes_id)
  moreover have "trim_prefixes (map rev space_runes) r = r"
    by (rule trim_prefixes_id) (simp add: r_def trim_prefixes_done)
  ultimately show ?thesis by (simp add: trim_space_def l_def r_def)
qed

lemma space_runes_not_graph:
  "w \<in> set space_runes \<Longrightarrow> w \<noteq> [] \<and> \<not> is_graph (hd w) \<and> \<not> is_graph (last w)"
  by (auto simp: space_runes_def is_graph_def in_range_def less_eq_char_def)

lemma trim_space_graph [bytes_simps]: "list_all is_graph s \<Longrightarrow> trim_space s = s"
proof -
  assume g: "list_all is_graph s"
  have "leading space_runes s = None"
  proof (cases "leading space_runes s")
    case (Some w)
    from leading_SomeD [OF Some] obtain t where "s = w @ t" "w \<in> set space_runes" by blast
    with space_runes_not_graph [of w] g show ?thesis by (cases w) auto
  qed
  moreover have "leading (map rev space_runes) (rev s) = None"
  proof (cases "leading (map rev space_runes) (rev s)")
    case (Some w)
    from leading_SomeD [OF Some] obtain t v where "rev s = w @ t" "w = rev v" "v \<in> set space_runes"
      by auto
    with space_runes_not_graph [of v] g show ?thesis
      by (metis hd_append2 hd_rev last_in_set last_rev list_all_iff rev_is_Nil_conv set_rev
          Nil_is_append_conv)
  qed
  ultimately show ?thesis by (simp add: trim_space_def trim_prefixes_id)
qed

lemma cut_None_iff [simp]: "cut_at c s = None \<longleftrightarrow> c \<notin> set s"
  by (induction s) (auto split: if_splits)

lemma cut_absent [simp]: "c \<notin> set s \<Longrightarrow> cut_at c s = None"
  by simp

lemma cut_append [simp]: "c \<notin> set a \<Longrightarrow> cut_at c (a @ c # b) = Some (a, b)"
  by (induction a) auto

lemma cut_SomeD: "cut_at c s = Some (a, b) \<Longrightarrow> s = a @ c # b \<and> c \<notin> set a"
  by (induction s arbitrary: a) (auto split: if_splits)

lemma has_prefix_append [simp]: "has_prefix p (p @ s)"
  by (simp add: has_prefix_def)

lemma has_prefixD: "has_prefix p s \<Longrightarrow> s = p @ drop (length p) s"
  unfolding has_prefix_def by (metis append_take_drop_id)

section \<open>Results\<close>

text \<open>A Go function returning \<^verbatim>\<open>(T, error)\<close> is a sum: \<^term>\<open>Inl e\<close> the error,
  \<^term>\<open>Inr x\<close> the value. \<open>guard\<close> is an early return.\<close>

fun bind_result :: "'e + 'a \<Rightarrow> ('a \<Rightarrow> 'e + 'b) \<Rightarrow> 'e + 'b" where
  "bind_result (Inl e) f = Inl e"
| "bind_result (Inr x) f = f x"

definition guard :: "bool \<Rightarrow> 'e \<Rightarrow> 'e + unit" where
  "guard b e = (if b then Inr () else Inl e)"

lemma bind_result_Inr_iff [simp]:
  "bind_result r f = Inr y \<longleftrightarrow> (\<exists>x. r = Inr x \<and> f x = Inr y)"
  by (cases r) auto

lemma guard_Inr_iff [simp]: "guard b e = Inr u \<longleftrightarrow> b"
  by (simp add: guard_def)

lemma bind_guard: "bind_result (guard b e) f = (if b then f () else Inl e)"
  by (simp add: guard_def)

fun is_ok :: "'e + 'a \<Rightarrow> bool" where
  "is_ok (Inl _) = False"
| "is_ok (Inr _) = True"

lemma is_ok_iff: "is_ok r \<longleftrightarrow> (\<exists>x. r = Inr x)"
  by (cases r) auto

end
