(* ===== verification/Text.thy ===== *)
theory Text
  imports Prelude
begin

text \<open>
  The parts of Go's \<^verbatim>\<open>strings\<close>, \<^verbatim>\<open>strconv\<close> and \<^verbatim>\<open>net/url\<close> packages that
  several components use: Split and TrimRight at one byte, Contains, Itoa of a
  non-negative number, and the escaping of a path segment and of a form value.
\<close>

fun split_at :: "char \<Rightarrow> string \<Rightarrow> string list" where
  "split_at c [] = [[]]"
| "split_at c (x # xs) =
     (if x = c then [] # split_at c xs
      else case split_at c xs of [] \<Rightarrow> [[x]] | p # ps \<Rightarrow> (x # p) # ps)"

lemma split_at_absent: "c \<notin> set xs \<Longrightarrow> split_at c xs = [xs]"
  by (induction xs) auto

lemma split_at_append: "c \<notin> set xs \<Longrightarrow> split_at c (xs @ c # ys) = xs # split_at c ys"
  by (induction xs) auto

definition trim_right :: "char \<Rightarrow> string \<Rightarrow> string" where
  "trim_right c s = rev (dropWhile (\<lambda>x. x = c) (rev s))"

lemma trim_right_last: "trim_right c s = [] \<or> last (trim_right c s) \<noteq> c"
proof (cases "dropWhile (\<lambda>x. x = c) (rev s)")
  case (Cons x xs)
  then have "x \<noteq> c" using hd_dropWhile [of "\<lambda>x. x = c" "rev s"] by simp
  with Cons show ?thesis by (simp add: trim_right_def)
qed (simp add: trim_right_def)

fun contains :: "string \<Rightarrow> string \<Rightarrow> bool" where
  "contains sub [] = (sub = [])"
| "contains sub (c # cs) = (has_prefix sub (c # cs) \<or> contains sub cs)"

lemma infix_Cons:
  "(\<exists>a b. c # cs = a @ sub @ b) \<longleftrightarrow> (\<exists>b. c # cs = sub @ b) \<or> (\<exists>a b. cs = a @ sub @ b)"
proof
  assume "\<exists>a b. c # cs = a @ sub @ b"
  then obtain a b where ab: "c # cs = a @ sub @ b" by blast
  then show "(\<exists>b. c # cs = sub @ b) \<or> (\<exists>a b. cs = a @ sub @ b)"
    by (cases a) auto
next
  assume "(\<exists>b. c # cs = sub @ b) \<or> (\<exists>a b. cs = a @ sub @ b)"
  then show "\<exists>a b. c # cs = a @ sub @ b"
  proof
    assume "\<exists>b. c # cs = sub @ b"
    then have "\<exists>b. c # cs = [] @ sub @ b" by simp
    then show ?thesis by blast
  next
    assume "\<exists>a b. cs = a @ sub @ b"
    then obtain a b where "c # cs = (c # a) @ sub @ b" by auto
    then show ?thesis by blast
  qed
qed

lemma has_prefix_iff: "has_prefix p s \<longleftrightarrow> (\<exists>b. s = p @ b)"
  by (auto dest: has_prefixD)

lemma contains_iff: "contains sub s \<longleftrightarrow> (\<exists>a b. s = a @ sub @ b)"
  by (induction s) (simp_all add: infix_Cons has_prefix_iff)

section \<open>Numbers\<close>

definition digit_char :: "nat \<Rightarrow> char" where "digit_char n = char_of (48 + n mod 10)"

fun Itoa :: "nat \<Rightarrow> string" where
  "Itoa n = (if n < 10 then [digit_char n] else Itoa (n div 10) @ [digit_char n])"

declare Itoa.simps [simp del]

definition digit_value :: "char \<Rightarrow> nat" where "digit_value c = of_char c - 48"

definition decimal_value :: "string \<Rightarrow> nat" where
  "decimal_value s = foldl (\<lambda>n c. 10 * n + digit_value c) 0 s"

lemma digit_char_code [simp]: "of_char (digit_char n) = 48 + n mod 10"
proof -
  have "48 + n mod 10 < (256 :: nat)" by (rule less_trans [of _ "48 + 10"]) auto
  then show ?thesis by (simp add: digit_char_def)
qed

lemma digit_value_char [simp]: "digit_value (digit_char n) = n mod 10"
  by (simp add: digit_value_def)

lemma digit_char_is_digit [simp]: "is_digit (digit_char n)"
proof -
  have "n mod 10 < 10" by simp
  then show ?thesis unfolding is_digit_def in_range_def less_eq_char_def digit_char_code by simp
qed

lemma decimal_value_snoc [simp]: "decimal_value (s @ [c]) = 10 * decimal_value s + digit_value c"
  by (simp add: decimal_value_def)

lemma Itoa_value [simp]: "decimal_value (Itoa n) = n"
proof (induction n rule: Itoa.induct)
  case (1 n)
  show ?case
  proof (cases "n < 10")
    case True
    then have "decimal_value [digit_char n] = n" by (simp add: decimal_value_def)
    with True show ?thesis by (subst Itoa.simps) simp
  next
    case False
    with 1 show ?thesis by (subst Itoa.simps) simp
  qed
qed

lemma Itoa_digits [simp]: "list_all is_digit (Itoa n)"
  by (induction n rule: Itoa.induct) (subst Itoa.simps, simp)

lemma Itoa_inject [simp]: "Itoa n = Itoa m \<longleftrightarrow> n = m"
  by (metis Itoa_value)

text \<open>Evaluation goes through integers.\<close>

definition digit_of :: "int \<Rightarrow> char" where
  "digit_of k = (if k < 5 then (if k < 3 then (if k < 1 then CHR ''0'' else if k < 2 then CHR ''1'' else CHR ''2'')
       else if k < 4 then CHR ''3'' else CHR ''4'')
     else (if k < 7 then (if k < 6 then CHR ''5'' else CHR ''6'')
       else if k < 8 then CHR ''7'' else if k < 9 then CHR ''8'' else CHR ''9''))"

function itoa_int :: "int \<Rightarrow> string" where
  "itoa_int k = (if k < 10 then [digit_of k] else itoa_int (k div 10) @ [digit_of (k mod 10)])"
  by pat_completeness auto
termination by (relation "measure nat") auto
declare itoa_int.simps [simp del]

lemma digit_of_char: "n < 10 \<Longrightarrow> digit_of (int n) = digit_char n"
proof -
  have "\<forall>n < 10. digit_of (int n) = digit_char n" by code_simp
  then show "n < 10 \<Longrightarrow> digit_of (int n) = digit_char n" by blast
qed

lemma digit_char_mod: "digit_char (n mod 10) = digit_char n"
  by (simp add: digit_char_def)

lemma Itoa_int [code]: "Itoa n = itoa_int (int n)"
proof (induction n rule: Itoa.induct)
  case (1 n)
  have d: "digit_of (int n mod 10) = digit_char n"
    using digit_of_char [of "n mod 10"] by (simp add: zmod_int digit_char_mod)
  show ?case
  proof (cases "n < 10")
    case True
    then show ?thesis by (subst Itoa.simps, subst itoa_int.simps) (simp add: digit_of_char)
  next
    case False
    with 1 show ?thesis by (subst Itoa.simps, subst itoa_int.simps) (simp add: d zdiv_int)
  qed
qed

section \<open>Times\<close>

text \<open>\<^verbatim>\<open>t.UTC().Format(time.RFC3339Nano)\<close> of a time in nanoseconds since the epoch:
  the proleptic Gregorian date of the day, the time of day, and the fraction
  without its trailing zeros.\<close>

definition pad :: "nat \<Rightarrow> nat \<Rightarrow> string" where
  "pad w n = (let s = Itoa n in replicate (w - length s) CHR ''0'' @ s)"

definition civil_from_days :: "int \<Rightarrow> int \<times> int \<times> int" where
  "civil_from_days days =
     (let z = days + 719468; era = z div 146097; doe = z mod 146097;
          yoe = (doe - doe div 1460 + doe div 36524 - doe div 146096) div 365;
          doy = doe - (365 * yoe + yoe div 4 - yoe div 100);
          mp = (5 * doy + 2) div 153;
          d = doy - (153 * mp + 2) div 5 + 1;
          m = (if mp < 10 then mp + 3 else mp - 9);
          y = yoe + era * 400 + (if m \<le> 2 then 1 else 0)
      in (y, m, d))"

definition fraction :: "nat \<Rightarrow> string" where
  "fraction ns = (if ns = 0 then [] else CHR ''.'' # trim_right CHR ''0'' (pad 9 ns))"

definition RFC3339Nano :: "int \<Rightarrow> string" where
  "RFC3339Nano t =
     (let secs = t div 1000000000; days = secs div 86400; s = nat (secs mod 86400);
          (y, m, d) = civil_from_days days
      in pad 4 (nat y) @ ''-'' @ pad 2 (nat m) @ ''-'' @ pad 2 (nat d) @ ''T'' @
         pad 2 (s div 3600) @ '':'' @ pad 2 (s div 60 mod 60) @ '':'' @ pad 2 (s mod 60) @
         fraction (nat (t mod 1000000000)) @ ''Z'')"

section \<open>Escaping\<close>

definition hex_char :: "nat \<Rightarrow> char" where
  "hex_char n = (if n < 10 then char_of (48 + n) else char_of (55 + n))"

definition escape_byte :: "char \<Rightarrow> string" where
  "escape_byte c = [CHR ''%'', hex_char (of_char c div 16), hex_char (of_char c mod 16)]"

definition url_plain :: "char \<Rightarrow> bool" where
  "url_plain c \<longleftrightarrow> is_digit c \<or> is_lower c \<or> is_upper c \<or> c \<in> set ''-_.~''"

definition path_plain :: "char \<Rightarrow> bool" where
  "path_plain c \<longleftrightarrow> url_plain c \<or> c \<in> set ''$&+:=@''"

definition PathEscape :: "string \<Rightarrow> string" where
  "PathEscape s = concat (map (\<lambda>c. if path_plain c then [c] else escape_byte c) s)"

definition QueryEscape :: "string \<Rightarrow> string" where
  "QueryEscape s =
     concat (map (\<lambda>c. if url_plain c then [c] else if c = CHR '' '' then ''+'' else escape_byte c) s)"

lemma hex_char_plain: "n < 16 \<Longrightarrow> url_plain (hex_char n)"
  by (auto simp: hex_char_def url_plain_def is_digit_def is_upper_def in_range_def less_eq_char_def)

lemma escape_byte_chars: "set (escape_byte c) \<subseteq> insert CHR ''%'' {c. url_plain c}"
proof -
  have "of_char c < (256 :: nat)" by simp
  then have "of_char c div 16 < (16 :: nat)" by (simp add: less_mult_imp_div_less)
  then show ?thesis by (auto simp: escape_byte_def hex_char_plain)
qed

text \<open>An escaped segment stays one: no slash, question mark or hash in it.\<close>

lemma PathEscape_chars: "set (PathEscape s) \<subseteq> insert CHR ''%'' {c. path_plain c}"
  using escape_byte_chars by (auto simp: PathEscape_def path_plain_def split: if_splits)

lemma not_path_plain: "\<not> path_plain CHR ''/''" "\<not> path_plain CHR ''?''" "\<not> path_plain CHR ''#''"
  by code_simp+

lemma PathEscape_segment: "CHR ''/'' \<notin> set (PathEscape s) \<and> CHR ''?'' \<notin> set (PathEscape s) \<and> CHR ''#'' \<notin> set (PathEscape s)"
  using PathEscape_chars [of s] not_path_plain by auto

end
