(* ===== verification/PublicId.thy ===== *)
theory PublicId
  imports Prelude "HOL-Library.Word"
begin

unbundle bit_operations_syntax

text \<open>
  \<^verbatim>\<open>internal/publicid/publicid.go\<close>: public identifiers \<^verbatim>\<open>ws_<uuid>\<close>,
  \<^verbatim>\<open>conn_<uuid>\<close>, \<^verbatim>\<open>prj_<uuid>\<close>, \<^verbatim>\<open>key_<uuid>\<close> (Format, Parse, normalizeUUID)
  and the version-4 generator (New), whose random bytes are an argument.

  Lemmas: the canonical form is what Parse returns and is a fixed point of it;
  formatting and parsing are inverse; two parses agree exactly when they name
  the same UUID; New yields a canonical identifier with the version and variant
  bits set.
\<close>

definition WorkspacePrefix :: string where "WorkspacePrefix = ''ws''"
definition ConnectionPrefix :: string where "ConnectionPrefix = ''conn''"
definition ProjectPrefix :: string where "ProjectPrefix = ''prj''"
definition CredentialPrefix :: string where "CredentialPrefix = ''key''"

definition id_prefixes :: "string list" where
  "id_prefixes = [WorkspacePrefix, ConnectionPrefix, ProjectPrefix, CredentialPrefix]"

definition separator :: char where "separator = CHR ''_''"

datatype id_error = ErrWrongPrefix | ErrMalformed

definition Format :: "string \<Rightarrow> string \<Rightarrow> string" where
  "Format p uuid = p @ [separator] @ uuid"

section \<open>normalizeUUID\<close>

definition hyphen_positions :: "nat list" where
  "hyphen_positions = [8, 13, 18, 23]"

definition is_hex :: "char \<Rightarrow> bool" where
  "is_hex c \<longleftrightarrow> is_digit c \<or> in_range CHR ''a'' CHR ''f'' c \<or> in_range CHR ''A'' CHR ''F'' c"

definition is_lower_hex :: "char \<Rightarrow> bool" where
  "is_lower_hex c \<longleftrightarrow> is_digit c \<or> in_range CHR ''a'' CHR ''f'' c"

definition uuid_byte_ok :: "string \<Rightarrow> nat \<Rightarrow> bool" where
  "uuid_byte_ok s i =
     (if i \<in> set hyphen_positions then s ! i = CHR ''-'' else is_hex (s ! i))"

text \<open>Every byte has been checked to be ASCII when \<^verbatim>\<open>strings.ToLower\<close> is
  applied, so its ASCII path is the one taken.\<close>

definition normalizeUUID :: "string \<Rightarrow> string option" where
  "normalizeUUID s =
     (if length s \<noteq> 36 then None
      else if list_all (uuid_byte_ok s) [0..<36] then Some (map ascii_lower s)
      else None)"

definition Parse :: "string \<Rightarrow> string \<Rightarrow> id_error + string" where
  "Parse p raw =
     (let s = trim_space raw in
      if s = [] then Inl ErrMalformed
      else bind_result
        (case cut_at separator s of
           Some (before, after) \<Rightarrow> if before \<noteq> p then Inl ErrWrongPrefix else Inr after
         | None \<Rightarrow> Inr s)
        (\<lambda>rest. case normalizeUUID rest of
            None \<Rightarrow> Inl ErrMalformed
          | Some uuid \<Rightarrow> Inr uuid))"

section \<open>New\<close>

definition hex_digit :: "nat \<Rightarrow> char" where
  "hex_digit n = ''0123456789abcdef'' ! n"

definition hex_byte :: "8 word \<Rightarrow> string" where
  "hex_byte b = [hex_digit (unat (drop_bit 4 b)), hex_digit (unat (b AND 0x0f))]"

definition hex_encode :: "8 word list \<Rightarrow> string" where
  "hex_encode bs = concat (map hex_byte bs)"

definition stamp_v4 :: "8 word list \<Rightarrow> 8 word list" where
  "stamp_v4 b = b[6 := (b ! 6 AND 0x0f) OR 0x40, 8 := (b ! 8 AND 0x3f) OR 0x80]"

definition slice :: "nat \<Rightarrow> nat \<Rightarrow> 'a list \<Rightarrow> 'a list" where
  "slice i j xs = take (j - i) (drop i xs)"

text \<open>\<open>rnd\<close> is the result of reading 16 bytes from \<^verbatim>\<open>crypto/rand\<close>: a
  read failure is an error of the caller's type.\<close>

definition New :: "'e + 8 word list \<Rightarrow> 'e + string" where
  "New rnd = bind_result rnd (\<lambda>raw.
     let b = stamp_v4 raw in
     Inr (hex_encode (slice 0 4 b) @ ''-'' @ hex_encode (slice 4 6 b) @ ''-'' @
          hex_encode (slice 6 8 b) @ ''-'' @ hex_encode (slice 8 10 b) @ ''-'' @
          hex_encode (slice 10 16 b)))"

section \<open>The canonical form\<close>

definition canonical :: "string \<Rightarrow> bool" where
  "canonical s \<longleftrightarrow> length s = 36 \<and>
     list_all (\<lambda>i. if i \<in> set hyphen_positions then s ! i = CHR ''-''
                  else is_lower_hex (s ! i)) [0..<36]"

lemma is_hex_lower: "is_hex c \<Longrightarrow> is_lower_hex (ascii_lower c)"
  using ascii_lower_code [of c]
  by (auto simp: is_hex_def is_lower_hex_def is_digit_def is_upper_def in_range_def
      less_eq_char_def split: if_splits)

lemma lower_hex_facts:
  "is_lower_hex c \<Longrightarrow> is_hex c \<and> \<not> is_upper c \<and> is_graph c \<and> c \<noteq> separator"
  by (auto simp: is_hex_def is_lower_hex_def is_digit_def is_upper_def is_graph_def in_range_def
      less_eq_char_def separator_def)

lemma hyphen_facts [simp]:
  "ascii_lower CHR ''-'' = CHR ''-''" "is_graph CHR ''-''" "CHR ''-'' \<noteq> separator"
  by (simp_all add: ascii_lower_def is_upper_def is_graph_def in_range_def less_eq_char_def
      separator_def)

lemma canonical_char:
  assumes "canonical s" and "c \<in> set s"
  shows "c = CHR ''-'' \<or> is_lower_hex c"
  using assms by (auto simp: canonical_def in_set_conv_nth list_all_iff split: if_splits)

lemma canonical_graph: "canonical s \<Longrightarrow> list_all is_graph s"
  unfolding list_all_iff using canonical_char lower_hex_facts hyphen_facts by blast

lemma canonical_no_separator: "canonical s \<Longrightarrow> separator \<notin> set s"
  using canonical_char [of s separator] lower_hex_facts [of separator] hyphen_facts(3) by metis

lemma canonical_lower: "canonical s \<Longrightarrow> map ascii_lower s = s"
  using canonical_char lower_hex_facts
  by (intro map_idI) (metis ascii_lower_fixes hyphen_facts(1))

lemma canonical_length: "canonical s \<Longrightarrow> length s = 36"
  by (simp add: canonical_def)

lemma canonical_nonempty: "canonical s \<Longrightarrow> s \<noteq> []"
  by (auto simp: canonical_def)

lemma normalizeUUID_canonical: "normalizeUUID s = Some u \<Longrightarrow> canonical u \<and> u = map ascii_lower s"
  by (auto simp: normalizeUUID_def canonical_def uuid_byte_ok_def list_all_iff Ball_def
      split: if_splits intro!: is_hex_lower)

lemma normalizeUUID_id: "canonical s \<Longrightarrow> normalizeUUID s = Some s"
proof -
  assume c: "canonical s"
  then have "list_all (uuid_byte_ok s) [0..<36]"
    using lower_hex_facts by (auto simp: canonical_def uuid_byte_ok_def list_all_iff)
  with c canonical_lower [OF c] show ?thesis by (simp add: normalizeUUID_def canonical_def)
qed

lemma Parse_canonical [simp]: "canonical u \<Longrightarrow> Parse p u = Inr u"
proof -
  assume c: "canonical u"
  then have "cut_at separator u = None" by (simp add: canonical_no_separator)
  with c show ?thesis
    by (simp add: Parse_def trim_space_graph canonical_graph canonical_nonempty normalizeUUID_id)
qed

lemma Parse_Format_aux:
  assumes "canonical u" "list_all is_graph q" "separator \<notin> set q"
  shows "Parse p (Format q u) = (if q = p then Inr u else Inl ErrWrongPrefix)"
proof -
  have "is_graph separator" by (simp add: separator_def is_graph_def in_range_def less_eq_char_def)
  with assms have "trim_space (Format q u) = q @ separator # u"
    by (simp add: Format_def trim_space_graph canonical_graph)
  with assms show ?thesis by (simp add: Parse_def normalizeUUID_id)
qed

lemma id_prefixes_ok:
  "q \<in> set id_prefixes \<Longrightarrow> list_all is_graph q \<and> separator \<notin> set q"
  by (auto simp: id_prefixes_def WorkspacePrefix_def ConnectionPrefix_def ProjectPrefix_def
      CredentialPrefix_def is_graph_def in_range_def less_eq_char_def separator_def)

lemma Parse_result:
  assumes "Parse p s = Inr u"
  shows "canonical u"
    and "\<exists>v. map ascii_lower v = u \<and> (trim_space s = v \<or> trim_space s = Format p v)"
proof -
  from assms obtain rest where
    r: "(case cut_at separator (trim_space s) of
           Some (before, after) \<Rightarrow> if before \<noteq> p then Inl ErrWrongPrefix else Inr after
         | None \<Rightarrow> Inr (trim_space s)) = Inr rest"
    and n: "normalizeUUID rest = Some u"
    by (auto simp: Parse_def Let_def split: if_splits option.splits)
  from n show "canonical u" by (simp add: normalizeUUID_canonical)
  from r have "trim_space s = rest \<or> trim_space s = Format p rest"
    by (auto simp: Format_def split: option.splits prod.splits if_splits dest: cut_SomeD)
  with n show "\<exists>v. map ascii_lower v = u \<and> (trim_space s = v \<or> trim_space s = Format p v)"
    using normalizeUUID_canonical by blast
qed

section \<open>Generated identifiers\<close>

lemma hex_digit_lower: "n < 16 \<Longrightarrow> is_lower_hex (hex_digit n)"
proof -
  assume "n < 16"
  then have "n \<in> set [0..<16]" by simp
  then show ?thesis
    by (simp add: upt_rec hex_digit_def is_lower_hex_def is_digit_def in_range_def
        less_eq_char_def) (elim disjE; simp)
qed

lemma nibbles_small:
  fixes b :: "8 word"
  shows "unat (drop_bit 4 b) < 16" and "unat (b AND 0x0f) < 16"
proof -
  have "unat (drop_bit 4 b) = unat b div 16" by (simp add: drop_bit_eq_div unat_div)
  moreover have "unat b < 256" using unsigned_less [of b] by simp
  ultimately show "unat (drop_bit 4 b) < 16" by simp
  have "b AND 0x0f \<le> 0x0f" by (rule word_and_le1)
  then show "unat (b AND 0x0f) < 16" by (simp add: word_le_nat_alt)
qed

lemma hex_byte_lower: "list_all is_lower_hex (hex_byte b)" "length (hex_byte b) = 2"
  by (simp_all add: hex_byte_def hex_digit_lower nibbles_small)

lemma length16: 
  assumes "length b = 16"
  obtains b0 b1 b2 b3 b4 b5 b6 b7 b8 b9 b10 b11 b12 b13 b14 b15
  where "b = [b0,b1,b2,b3,b4,b5,b6,b7,b8,b9,b10,b11,b12,b13,b14,b15]"
  using assms by (auto simp: numeral_eq_Suc length_Suc_conv)

definition uuid_of_bytes :: "8 word list \<Rightarrow> string" where
  "uuid_of_bytes b =
     hex_encode (slice 0 4 b) @ ''-'' @ hex_encode (slice 4 6 b) @ ''-'' @
     hex_encode (slice 6 8 b) @ ''-'' @ hex_encode (slice 8 10 b) @ ''-'' @
     hex_encode (slice 10 16 b)"

lemma New_eq: "New (Inr raw) = Inr (uuid_of_bytes (stamp_v4 raw))"
  by (simp add: New_def uuid_of_bytes_def Let_def)

lemma uuid_of_bytes_canonical:
  assumes "length b = 16" shows "canonical (uuid_of_bytes b)"
proof -
  from length16 [OF assms] obtain b0 b1 b2 b3 b4 b5 b6 b7 b8 b9 b10 b11 b12 b13 b14 b15
    where b: "b = [b0,b1,b2,b3,b4,b5,b6,b7,b8,b9,b10,b11,b12,b13,b14,b15]" .
  show ?thesis
    by (simp add: b uuid_of_bytes_def canonical_def hex_encode_def hex_byte_def slice_def
        upt_rec hyphen_positions_def hex_digit_lower nibbles_small)
qed

lemma stamped_nibbles:
  fixes x :: "8 word"
  shows "unat (drop_bit 4 ((x AND 0x0f) OR 0x40)) = 4"
    and "unat (drop_bit 4 ((x AND 0x3f) OR 0x80)) \<in> {8, 9, 10, 11}"
proof -
  have "drop_bit 4 ((x AND 0x0f) OR 0x40) = 4"
    by (simp add: drop_bit_and drop_bit_or)
  then show "unat (drop_bit 4 ((x AND 0x0f) OR 0x40)) = 4" by simp
next
  have d: "drop_bit 4 ((x AND 0x3f) OR 0x80) = (drop_bit 4 x AND 3) OR (8 :: 8 word)"
    by (simp add: drop_bit_and drop_bit_or)
  have "drop_bit 4 x AND 3 \<le> (3 :: 8 word)" by (rule word_and_le1)
  then have "unat (drop_bit 4 x AND (3 :: 8 word)) \<le> 3" by (simp add: word_le_nat_alt)
  then have "drop_bit 4 x AND (3 :: 8 word) \<in> {0, 1, 2, 3}"
    by (auto simp: word_unat_eq_iff)
  then show "unat (drop_bit 4 ((x AND 0x3f) OR 0x80)) \<in> {8, 9, 10, 11}"
    unfolding d by auto
qed

section \<open>Properties\<close>

text \<open>A formatted identifier parses back to its UUID under its own prefix, is
  refused as a wrong-typed id under every other one, and the bare UUID is
  accepted under all of them.\<close>

theorem Parse_Format:
  assumes "q \<in> set id_prefixes" and "canonical u"
  shows "Parse p (Format q u) = (if q = p then Inr u else Inl ErrWrongPrefix) \<and> Parse p u = Inr u"
  using assms Parse_Format_aux [of u q p] id_prefixes_ok [of q] by simp

theorem Parse_Format_witness:
  "Parse ProjectPrefix (Format WorkspacePrefix ''0f8fad5b-d9cb-469f-a165-70867728950e'') = Inl ErrWrongPrefix"
  using Parse_Format [of WorkspacePrefix "''0f8fad5b-d9cb-469f-a165-70867728950e''" ProjectPrefix]
  by (simp add: id_prefixes_def WorkspacePrefix_def ProjectPrefix_def canonical_def upt_rec
      hyphen_positions_def is_lower_hex_def is_digit_def in_range_def less_eq_char_def)

text \<open>Whatever Parse accepts, it returns a canonical lowercase UUID, which is
  a fixed point of Parse and which the trimmed input spelled either bare or
  after the expected prefix; nothing else is accepted.\<close>

theorem Parse_sound:
  assumes "Parse p s = Inr u"
  shows "canonical u \<and> Parse p u = Inr u \<and>
         (\<exists>v. map ascii_lower v = u \<and> (trim_space s = v \<or> trim_space s = Format p v))"
  using Parse_result [OF assms] by simp

theorem Parse_sound_witness:
  "\<exists>u. Parse WorkspacePrefix '' ws_0F8FAD5B-D9CB-469F-A165-70867728950E'' = Inr u \<and> canonical u"
proof -
  have "Parse WorkspacePrefix '' ws_0F8FAD5B-D9CB-469F-A165-70867728950E'' =
          Inr ''0f8fad5b-d9cb-469f-a165-70867728950e''"
    by code_simp
  from Parse_sound [OF this] this show ?thesis by blast
qed

text \<open>On any 16 random bytes New returns a canonical identifier whose version
  digit is 4 and whose variant digit is one of 8, 9, a, b; a failed read of the
  random source is returned, never papered over.\<close>

theorem New_canonical_v4:
  assumes "length raw = 16"
  shows "(\<exists>u. New (Inr raw) = Inr u \<and> canonical u \<and> u ! 14 = CHR ''4'' \<and>
             u ! 19 \<in> set ''89ab'') \<and> New (Inl e) = Inl e"
proof -
  have l: "length (stamp_v4 raw) = 16" using assms by (simp add: stamp_v4_def)
  from length16 [OF assms] obtain b0 b1 b2 b3 b4 b5 b6 b7 b8 b9 b10 b11 b12 b13 b14 b15
    where raw: "raw = [b0,b1,b2,b3,b4,b5,b6,b7,b8,b9,b10,b11,b12,b13,b14,b15]" .
  let ?u = "uuid_of_bytes (stamp_v4 raw)"
  have "?u ! 14 = hex_digit (unat (drop_bit 4 ((b6 AND 0x0f) OR 0x40)))"
    by (simp add: raw stamp_v4_def uuid_of_bytes_def slice_def hex_encode_def hex_byte_def)
  then have "?u ! 14 = CHR ''4''" by (simp only: stamped_nibbles) (simp add: hex_digit_def)
  moreover have "?u ! 19 = hex_digit (unat (drop_bit 4 ((b8 AND 0x3f) OR 0x80)))"
    by (simp add: raw stamp_v4_def uuid_of_bytes_def slice_def hex_encode_def hex_byte_def)
  then have "?u ! 19 \<in> set ''89ab''"
    using stamped_nibbles(2) [of b8] by (auto simp: hex_digit_def simp del: One_nat_def)
  ultimately show ?thesis
    using uuid_of_bytes_canonical [OF l] by (simp add: New_eq) (simp add: New_def)
qed

theorem New_canonical_v4_witness:
  "\<exists>u. New (Inr (replicate 16 0xff) :: unit + 8 word list) = Inr u \<and> canonical u"
  using New_canonical_v4 [of "replicate 16 0xff" "()"] by auto

end
