(* ===== verification/Store.thy ===== *)
theory Store
  imports PublicId
begin

text \<open>
  The PostgreSQL side of the program: the rows of the tables
  (\<^verbatim>\<open>internal/workspace/model.go\<close>, \<^verbatim>\<open>internal/project/model.go\<close>,
  \<^verbatim>\<open>internal/connection/model.go\<close>, \<^verbatim>\<open>internal/auditlog/model.go\<close>), one
  statement at a time against them, and the transaction runner of
  \<^verbatim>\<open>internal/database/tx.go\<close>.

  A table is the list of its rows in insertion order; the SQL constraints the
  code relies on (primary keys, unique and partial unique indexes) are checked
  by the statement that inserts or updates. A statement may also fail in the
  driver: \<open>w_faults\<close> is the schedule of those failures, consumed one entry per
  statement (and per COMMIT), so a theorem for all worlds covers a failure at
  every point. Times are nanoseconds.
\<close>

section \<open>Rows\<close>

datatype archive_status = StatusActive | StatusArchived

record workspace =
  ws_ID :: string
  ws_Slug :: string
  ws_Name :: string
  ws_Status :: archive_status
  ws_CreatedAt :: int
  ws_UpdatedAt :: int
  ws_ArchivedAt :: "int option"

record project =
  pj_ID :: string
  pj_WorkspaceID :: string
  pj_Name :: string
  pj_Status :: archive_status
  pj_CreatedAt :: int
  pj_UpdatedAt :: int
  pj_ArchivedAt :: "int option"

record credential =
  cr_ID :: string
  cr_ProjectID :: string
  cr_Label :: string
  cr_KeyPrefix :: string
  cr_KeyHash :: "8 word list"
  cr_KeyHashAlg :: string
  cr_Scopes :: "string list"
  cr_ExpiresAt :: "int option"
  cr_RevokedAt :: "int option"
  cr_CreatedBy :: string
  cr_RevokedBy :: "string option"
  cr_CreatedAt :: int
  cr_LastUsedAt :: "int option"

datatype connection_status = StatusDraft | StatusLive | StatusRetired

datatype health = HealthUnknown | HealthHealthy | HealthUnhealthy

datatype access_mode = AccessModeUnknown | AccessModeFull | AccessModeReadOnly | AccessModeLimited

text \<open>\<open>StatusLive\<close> is the connection status \<^verbatim>\<open>active\<close>.\<close>

record connection =
  cn_ID :: string
  cn_WorkspaceID :: string
  cn_Name :: string
  cn_Provider :: string
  cn_Status :: connection_status
  cn_BaseURL :: string
  cn_Realm :: string
  cn_ClientID :: string
  cn_Health :: health
  cn_HealthMessage :: string
  cn_AccessMode :: access_mode
  cn_LastVerifiedAt :: "int option"
  cn_CreatedAt :: int
  cn_UpdatedAt :: int
  cn_ActivatedAt :: "int option"
  cn_RetiredAt :: "int option"

record sealed =
  sl_Ciphertext :: "8 word list"
  sl_Nonce :: "8 word list"
  sl_KeyVersion :: int
  sl_Alg :: string

text \<open>The row holds the sealed secret; the domain value does not.\<close>

record connection_row = connection +
  cn_Sealed :: sealed

datatype actor_type = ActorOperator | ActorProject

datatype outcome = OutcomeSuccess | OutcomeFailure

text \<open>What an event's \<^verbatim>\<open>Extra\<close> map may hold: a string, a scalar (by its
  rendering), a list of strings, or anything else (a nested value).\<close>

datatype meta = MString string | MScalar string | MStrings "string list" | MNested

record audit_record =
  au_ID :: string
  au_WorkspaceID :: string
  au_EventType :: string
  au_Outcome :: outcome
  au_ActorType :: actor_type
  au_ActorSubject :: string
  au_ActorEmail :: string
  au_ActorProjectID :: string
  au_ActorCredentialID :: string
  au_ResourceType :: string
  au_ResourceID :: string
  au_RequestID :: string
  au_SourceIP :: string
  au_ReasonCode :: string
  au_Metadata :: "(string \<times> meta) list"
  au_OccurredAt :: int

record db =
  db_workspaces :: "workspace list"
  db_projects :: "project list"
  db_credentials :: "credential list"
  db_connections :: "connection_row list"
  db_audit :: "audit_record list"

section \<open>Statements\<close>

text \<open>Go's \<^verbatim>\<open>error\<close> values: the client-facing errors of the domains (code,
  message, HTTP status) and the internal ones they are told apart from; \<open>ErrSecret\<close>
  carries the class of a sealing failure.\<close>

datatype go_error =
    AppError string string nat
  | ErrDuplicatedKey
  | ErrDriver
  | ErrNotRecorded
  | ErrRandom
  | ErrSecret string

record world =
  w_db :: db
  w_faults :: "bool list"

type_synonym 'a act = "world \<Rightarrow> (go_error + 'a) \<times> world"

definition ret :: "'a \<Rightarrow> 'a act" where
  "ret x w = (Inr x, w)"

definition fail :: "go_error \<Rightarrow> 'a act" where
  "fail e w = (Inl e, w)"

definition andThen :: "'a act \<Rightarrow> ('a \<Rightarrow> 'b act) \<Rightarrow> 'b act" where
  "andThen m f w = (case m w of (Inl e, w') \<Rightarrow> (Inl e, w') | (Inr x, w') \<Rightarrow> f x w')"

text \<open>\<open>catch m h\<close> is \<^verbatim>\<open>if err := m; err != nil { return h(err) }\<close>.\<close>

definition catch :: "'a act \<Rightarrow> (go_error \<Rightarrow> go_error) \<Rightarrow> 'a act" where
  "catch m h w = (case m w of (Inl e, w') \<Rightarrow> (Inl (h e), w') | (Inr x, w') \<Rightarrow> (Inr x, w'))"

definition lift_result :: "go_error + 'a \<Rightarrow> 'a act" where
  "lift_result r w = (r, w)"

definition require :: "bool \<Rightarrow> go_error \<Rightarrow> unit act" where
  "require b e = (if b then ret () else fail e)"

definition next_fault :: "world \<Rightarrow> bool \<times> world" where
  "next_fault w =
     (case w_faults w of
        [] \<Rightarrow> (False, w)
      | b # bs \<Rightarrow> (b, w\<lparr> w_faults := bs \<rparr>))"

definition stmt :: "(db \<Rightarrow> go_error + ('a \<times> db)) \<Rightarrow> 'a act" where
  "stmt f w =
     (case next_fault w of
        (True, w') \<Rightarrow> (Inl ErrDriver, w')
      | (False, w') \<Rightarrow>
          (case f (w_db w') of
             Inl e \<Rightarrow> (Inl e, w')
           | Inr (x, d) \<Rightarrow> (Inr x, w'\<lparr> w_db := d \<rparr>)))"

definition query :: "(db \<Rightarrow> 'a) \<Rightarrow> 'a act" where
  "query f = stmt (\<lambda>d. Inr (f d, d))"

definition commit :: "unit act" where
  "commit = stmt (\<lambda>d. Inr ((), d))"

text \<open>\<^verbatim>\<open>TxRunner.InTx\<close>: the body's error rolls everything back and is returned
  unwrapped; a failed COMMIT does the same. A transaction opened inside another
  is a savepoint and behaves alike.\<close>

definition InTx :: "'a act \<Rightarrow> 'a act" where
  "InTx body w =
     (case body w of
        (Inl e, w') \<Rightarrow> (Inl e, w'\<lparr> w_db := w_db w \<rparr>)
      | (Inr x, w') \<Rightarrow>
          (case commit w' of
             (Inl e, w'') \<Rightarrow> (Inl e, w''\<lparr> w_db := w_db w \<rparr>)
           | (Inr _, w'') \<Rightarrow> (Inr x, w'')))"

text \<open>\<^verbatim>\<open>UPDATE ... WHERE\<close>: the new rows and how many were affected.\<close>

definition update_where :: "('r \<Rightarrow> bool) \<Rightarrow> ('r \<Rightarrow> 'r) \<Rightarrow> 'r list \<Rightarrow> 'r list \<times> nat" where
  "update_where P f rows =
     (map (\<lambda>r. if P r then f r else r) rows, length (filter P rows))"

section \<open>Reasoning about statements\<close>

named_theorems act_simps \<open>unfolding of statement sequencing\<close>

lemma ret_eq [act_simps]: "ret x w = (Inr x, w)" by (simp add: ret_def)
lemma fail_eq [act_simps]: "fail e w = (Inl e, w)" by (simp add: fail_def)
lemma lift_result_eq [act_simps]: "lift_result r w = (r, w)" by (simp add: lift_result_def)

lemma andThen_Inr [simp]:
  "andThen m f w = (Inr y, w') \<longleftrightarrow> (\<exists>x w1. m w = (Inr x, w1) \<and> f x w1 = (Inr y, w'))"
  by (auto simp: andThen_def split: prod.splits sum.splits)

lemma andThen_Inl:
  "andThen m f w = (Inl e, w') \<longleftrightarrow>
     m w = (Inl e, w') \<or> (\<exists>x w1. m w = (Inr x, w1) \<and> f x w1 = (Inl e, w'))"
  by (auto simp: andThen_def split: prod.splits sum.splits)

lemma catch_Inr [simp]: "catch m h w = (Inr x, w') \<longleftrightarrow> m w = (Inr x, w')"
  by (auto simp: catch_def split: prod.splits sum.splits)

lemma ret_Inr [simp]: "ret x w = (Inr y, w') \<longleftrightarrow> y = x \<and> w' = w"
  by (auto simp: ret_def)

lemma fail_Inr [simp]: "fail e w \<noteq> (Inr y, w')"
  by (simp add: fail_def)

lemma lift_result_Inr [simp]: "lift_result r w = (Inr y, w') \<longleftrightarrow> r = Inr y \<and> w' = w"
  by (auto simp: lift_result_def)

lemma require_Inr [simp]: "require b e w = (Inr u, w') \<longleftrightarrow> b \<and> w' = w"
  by (auto simp: require_def ret_def fail_def)

text \<open>The branches the services take on a result, when the whole succeeds.\<close>

lemma option_fail_Inr:
  "(case r of None \<Rightarrow> fail e | Some x \<Rightarrow> f x) w = (Inr y, w') \<longleftrightarrow> (\<exists>x. r = Some x \<and> f x w = (Inr y, w'))"
  by (cases r) auto

lemma option_none_Inr:
  "(case r of None \<Rightarrow> ret None | Some x \<Rightarrow> f x) w = (Inr (Some y), w') \<longleftrightarrow>
     (\<exists>x. r = Some x \<and> f x w = (Inr (Some y), w'))"
  by (cases r) auto

lemma sum_fail_Inr:
  "(case r of Inl _ \<Rightarrow> fail e | Inr x \<Rightarrow> f x) w = (Inr y, w') \<longleftrightarrow> (\<exists>x. r = Inr x \<and> f x w = (Inr y, w'))"
  by (cases r) auto

lemma if_fail_Inr:
  "(if b then fail e else m) w = (Inr y, w') \<longleftrightarrow> \<not> b \<and> m w = (Inr y, w')"
  by simp

lemmas act_cases = option_fail_Inr option_none_Inr sum_fail_Inr if_fail_Inr

lemma andThen_err: "m w = (Inl e, w') \<Longrightarrow> andThen m f w = (Inl e, w')"
  by (simp add: andThen_def)

lemma InTx_err: "body w = (Inl e, w') \<Longrightarrow> InTx body w = (Inl e, w'\<lparr> w_db := w_db w \<rparr>)"
  by (simp add: InTx_def)

lemma require_if [act_simps]: "andThen (require b e) f w = (if b then f () w else (Inl e, w))"
  by (simp add: andThen_def require_def ret_def fail_def)

lemma lift_result_case [act_simps]:
  "andThen (lift_result r) f w = (case r of Inl e \<Rightarrow> (Inl e, w) | Inr x \<Rightarrow> f x w)"
  by (simp add: andThen_def lift_result_def split: sum.splits)

lemma next_fault_db [simp]: "next_fault w = (b, w') \<Longrightarrow> w_db w' = w_db w"
  by (auto simp: next_fault_def split: list.splits)

lemma stmt_Inr:
  "stmt f w = (Inr x, w') \<Longrightarrow> f (w_db w) = Inr (x, w_db w')"
  by (auto simp: stmt_def split: prod.splits bool.splits sum.splits)

lemma stmt_Inl:
  "stmt f w = (Inl e, w') \<Longrightarrow> w_db w' = w_db w \<and> (e = ErrDriver \<or> f (w_db w) = Inl e)"
  by (auto simp: stmt_def split: prod.splits bool.splits sum.splits)

lemma query_Inr: "query f w = (Inr x, w') \<Longrightarrow> x = f (w_db w) \<and> w_db w' = w_db w"
  unfolding query_def by (drule stmt_Inr) auto

lemma query_db: "query f w = (r, w') \<Longrightarrow> w_db w' = w_db w"
proof (cases r)
  case (Inl e)
  then show "query f w = (r, w') \<Longrightarrow> w_db w' = w_db w"
    unfolding query_def by (blast dest: stmt_Inl)
qed (blast dest: query_Inr)

lemma stmt_no_faults:
  "w_faults w = [] \<Longrightarrow> stmt f w =
     (case f (w_db w) of Inl e \<Rightarrow> (Inl e, w) | Inr (x, d) \<Rightarrow> (Inr x, w\<lparr> w_db := d \<rparr>))"
  by (simp add: stmt_def next_fault_def)

lemma InTx_Inl: "InTx body w = (Inl e, w') \<Longrightarrow> w_db w' = w_db w"
  by (auto simp: InTx_def split: prod.splits sum.splits)

lemma InTx_Inr:
  assumes "InTx body w = (Inr x, w')"
  obtains w1 where "body w = (Inr x, w1)" and "w_db w' = w_db w1"
proof -
  from assms obtain w1 u where "body w = (Inr x, w1)" "commit w1 = (Inr u, w')"
    by (auto simp: InTx_def split: prod.splits sum.splits)
  moreover from this(2) have "w_db w' = w_db w1"
    using stmt_Inr [of "\<lambda>d. Inr ((), d)" w1 u w'] by (simp add: commit_def)
  ultimately show ?thesis using that by blast
qed

lemma InTx_no_faults:
  "body w = (Inr x, w1) \<Longrightarrow> w_faults w1 = [] \<Longrightarrow> InTx body w = (Inr x, w1)"
  by (simp add: InTx_def commit_def stmt_no_faults)

section \<open>Steps that only read\<close>

definition read_only :: "'a act \<Rightarrow> bool" where
  "read_only m \<longleftrightarrow> (\<forall>w. w_db (snd (m w)) = w_db w)"

lemma read_onlyD: "read_only m \<Longrightarrow> m w = (r, w') \<Longrightarrow> w_db w' = w_db w"
  unfolding read_only_def by (metis snd_conv)

named_theorems reads \<open>actions that leave the database alone\<close>

lemma read_only_ret [reads]: "read_only (ret x)" by (simp add: read_only_def ret_def)
lemma read_only_fail [reads]: "read_only (fail e)" by (simp add: read_only_def fail_def)
lemma read_only_lift [reads]: "read_only (lift_result r)" by (simp add: read_only_def lift_result_def)
lemma read_only_require [reads]: "read_only (require b e)"
  by (simp add: read_only_def require_def ret_def fail_def)

lemma read_only_query [reads]: "read_only (query f)"
  unfolding read_only_def by (metis query_db prod.collapse)

lemma read_only_catch [reads]: "read_only m \<Longrightarrow> read_only (catch m h)"
  by (auto simp: read_only_def catch_def split: prod.splits sum.splits) (metis snd_conv)+

lemma read_only_andThen [reads]:
  assumes "read_only m" and "\<And>x. read_only (f x)" shows "read_only (andThen m f)"
  unfolding read_only_def
proof
  fix w
  show "w_db (snd (andThen m f w)) = w_db w"
  proof (cases "m w")
    case (Pair r w1)
    with read_onlyD [OF assms(1) Pair] assms(2) show ?thesis
      by (cases r) (auto simp: andThen_def read_only_def)
  qed
qed

section \<open>The contract of a transaction with its audit row\<close>

text \<open>What a domain service relies on: a transaction runner (\<^verbatim>\<open>database.Runner\<close>)
  and an audit writer (\<^verbatim>\<open>AuditWriter\<close>). The runner either keeps the database
  or publishes what the body left; the writer, when it succeeds, appends exactly
  one row, which describes the event, and touches nothing else.\<close>

locale audited_store =
  fixes in_tx :: "'a act \<Rightarrow> 'a act"
    and record_tx :: "'ev \<Rightarrow> unit act"
    and describes :: "audit_record \<Rightarrow> 'ev \<Rightarrow> bool"
  assumes rollback: "in_tx body w = (Inl e, w') \<Longrightarrow> w_db w' = w_db w"
    and publish: "in_tx body w = (Inr x, w') \<Longrightarrow> \<exists>w1. body w = (Inr x, w1) \<and> w_db w' = w_db w1"
    and appends: "record_tx ev w = (Inr u, w') \<Longrightarrow>
      \<exists>row. describes row ev \<and> w_db w' = w_db w\<lparr> db_audit := db_audit (w_db w) @ [row] \<rparr>"
begin

lemma audited_atomic:
  assumes "in_tx (andThen mutation (\<lambda>x. andThen (record_tx (event x)) (\<lambda>_. ret x))) w = (r, w')"
  shows "(case r of
       Inl _ \<Rightarrow> w_db w' = w_db w
     | Inr x \<Rightarrow> \<exists>w1 row. mutation w = (Inr x, w1) \<and> describes row (event x) \<and>
         w_db w' = w_db w1\<lparr> db_audit := db_audit (w_db w1) @ [row] \<rparr>)"
proof (cases r)
  case (Inl e)
  with assms rollback show ?thesis by auto
next
  case (Inr x)
  with assms publish obtain w2 where
    "andThen mutation (\<lambda>x. andThen (record_tx (event x)) (\<lambda>_. ret x)) w = (Inr x, w2)"
    and d: "w_db w' = w_db w2"
    by blast
  then obtain w1 u where "mutation w = (Inr x, w1)" "record_tx (event x) w1 = (Inr u, w2)" by auto
  with appends d Inr show ?thesis by fastforce
qed

end

section \<open>Tables that only grow\<close>

text \<open>A table changes by rewriting rows in place and appending: the old rows, in
  order, are related to the first rows of the new table.\<close>

definition grows :: "('r \<Rightarrow> 'r \<Rightarrow> bool) \<Rightarrow> 'r list \<Rightarrow> 'r list \<Rightarrow> bool" where
  "grows evolves rows rows' \<longleftrightarrow> list_all2 evolves rows (take (length rows) rows')"

text \<open>The contract of a row relation: what one row may become, over any number of
  steps.\<close>

locale evolving =
  fixes evolves :: "'r \<Rightarrow> 'r \<Rightarrow> bool"
  assumes evolves_refl: "evolves a a"
    and evolves_trans: "evolves a b \<Longrightarrow> evolves b c \<Longrightarrow> evolves a c"
begin

lemma grows_refl: "grows evolves rows rows"
  by (simp add: grows_def list_all2_refl evolves_refl)

lemma grows_append: "grows evolves rows (rows @ new)"
  by (simp add: grows_def list_all2_refl evolves_refl)

lemma grows_trans:
  assumes "grows evolves a b" and "grows evolves b c" shows "grows evolves a c"
proof -
  from assms have la: "length a \<le> length b" and lb: "length b \<le> length c"
    by (auto simp: grows_def dest!: list_all2_lengthD)
  have "evolves (a ! i) (c ! i)" if "i < length a" for i
    using assms that la lb evolves_trans by (fastforce simp: grows_def list_all2_conv_all_nth)
  with la lb show ?thesis by (simp add: grows_def list_all2_conv_all_nth)
qed

lemma grows_map:
  assumes "\<And>r. r \<in> set rows \<Longrightarrow> evolves r (f r)" shows "grows evolves rows (map f rows)"
  using assms by (simp add: grows_def list_all2_conv_all_nth)

lemma grows_row:
  assumes "grows evolves rows rows'" and "r \<in> set rows"
  shows "\<exists>r' \<in> set rows'. evolves r r'"
proof -
  from assms obtain i where i: "i < length rows" "rows ! i = r" by (auto simp: in_set_conv_nth)
  from assms(1) have "length rows \<le> length rows'" by (auto simp: grows_def dest!: list_all2_lengthD)
  with assms(1) i have "evolves r (rows' ! i)" "rows' ! i \<in> set rows'"
    by (auto simp: grows_def list_all2_conv_all_nth)
  then show ?thesis by blast
qed

end

end
