(* ===== verification/AuditLog.thy ===== *)
theory AuditLog
  imports Text Store "HOL-Library.AList"
begin

text \<open>
  The write side of the durable audit trail: the event model of
  \<^verbatim>\<open>internal/audit/event.go\<close>, the redaction rules of
  \<^verbatim>\<open>internal/auditlog/redaction.go\<close>, and \<^verbatim>\<open>recorder.go\<close> (toRecord,
  Record, RecordTx) with the insert of \<^verbatim>\<open>repository.go\<close>.

  Parameters: \<open>u\<close> the Unicode case table of \<^verbatim>\<open>strings.ToLower\<close>, \<open>is_ip\<close>
  whether \<^verbatim>\<open>net.ParseIP\<close> accepts a string, the random bytes of the row id
  and the clock. Logging and metrics are left out.
\<close>

section \<open>Events\<close>

record audit_actor =
  at_Type :: "actor_type option"
  at_Subject :: string
  at_Email :: string
  at_Username :: string
  at_ProjectID :: string
  at_CredentialID :: string

record audit_target =
  tg_Kind :: string
  tg_ID :: string
  tg_Name :: string

record audit_event =
  ea_Action :: string
  ea_Actor :: audit_actor
  ea_Target :: audit_target
  ea_Workspace :: string
  ea_IP :: string
  ea_RequestID :: string
  ea_UserAgent :: string
  ea_Timestamp :: "int option"
  ea_Reason :: string
  ea_Extra :: "(string \<times> meta) list"
  ea_Persisted :: bool

section \<open>Redaction\<close>

definition reasonCodeUnclassified :: string where
  "reasonCodeUnclassified = ''unclassified_error''"

definition knownReasonCodes :: "string list" where
  "knownReasonCodes =
     [''workspace_mismatch'', ''insufficient_scope'', ''operator_only'', ''role_privileged'',
      ''forbidden'',
      ''provider_forbidden'', ''provider_unavailable'', ''provider_credentials_unavailable'',
      ''connection_read_only'', ''workspace_connection_missing'', ''workspace_connection_unusable'',
      ''workspace_not_found'', ''workspace_archived'', ''user_not_found'', ''role_not_found'',
      ''session_not_found'', ''invitation_not_found'', ''project_not_found'', ''project_archived'',
      ''credential_not_found'', ''credential_already_revoked'', ''credential_limit_reached'',
      ''role_already_exists'', ''role_reserved'', ''project_name_taken'', ''workspace_slug_taken'',
      ''invalid_request'', ''invalid_scope'', ''invalid_workspace_id'', ''invalid_user_id'',
      ''invalid_role_name'', ''invalid_session_id'',
      ''internal_error'']"

fun first_code :: "string list \<Rightarrow> string \<Rightarrow> string" where
  "first_code [] lowered = reasonCodeUnclassified"
| "first_code (code # codes) lowered =
     (if contains code lowered then code else first_code codes lowered)"

definition reasonCodeFor :: "(string \<Rightarrow> string) \<Rightarrow> string \<Rightarrow> string" where
  "reasonCodeFor u reason =
     (if reason = [] then [] else first_code knownReasonCodes (to_lower u reason))"

definition metadataAllowlist :: "string \<Rightarrow> string list" where
  "metadataAllowlist event_type =
     (if event_type = ''project_credential.created'' then [''scopes''] else [])"

definition maxMetadataValues :: nat where "maxMetadataValues = 8"
definition maxMetadataStringLength :: nat where "maxMetadataStringLength = 256"

definition isUTF8Start :: "char \<Rightarrow> bool" where
  "isUTF8Start b \<longleftrightarrow> (of_char b :: 8 word) AND 0xC0 \<noteq> 0x80"

fun cut_back :: "string \<Rightarrow> nat \<Rightarrow> nat" where
  "cut_back s 0 = 0"
| "cut_back s (Suc n) = (if \<not> isUTF8Start (s ! Suc n) then cut_back s n else Suc n)"

definition truncate_utf8 :: "string \<Rightarrow> nat \<Rightarrow> string" where
  "truncate_utf8 s n = (if length s \<le> n then s else take (cut_back s n) s)"

fun safeMetadataValue :: "meta \<Rightarrow> meta option" where
  "safeMetadataValue (MString s) = Some (MString (truncate_utf8 s maxMetadataStringLength))"
| "safeMetadataValue (MScalar s) = Some (MScalar s)"
| "safeMetadataValue (MStrings ss) =
     Some (MStrings (map (\<lambda>s. truncate_utf8 s maxMetadataStringLength) (take maxMetadataValues ss)))"
| "safeMetadataValue MNested = None"

text \<open>The loop over \<^verbatim>\<open>extra\<close>: a Go map, so the list gives one iteration order and
  every statement holds for all of them.\<close>

fun allowlist_loop ::
  "string list \<Rightarrow> (string \<times> meta) list \<Rightarrow> (string \<times> meta) list \<Rightarrow> (string \<times> meta) list" where
  "allowlist_loop allowed [] out = out"
| "allowlist_loop allowed ((k, v) # kvs) out =
     (if k \<notin> set allowed then allowlist_loop allowed kvs out
      else case safeMetadataValue v of
        None \<Rightarrow> allowlist_loop allowed kvs out
      | Some safe \<Rightarrow>
          (let out' = AList.update k safe out in
           if length out' \<ge> maxMetadataValues then out' else allowlist_loop allowed kvs out'))"

definition allowlistMetadata :: "string \<Rightarrow> (string \<times> meta) list \<Rightarrow> (string \<times> meta) list" where
  "allowlistMetadata event_type extra =
     (if extra = [] then []
      else let allowed = metadataAllowlist event_type in
        if allowed = [] then [] else allowlist_loop allowed extra [])"

definition validIP :: "(string \<Rightarrow> bool) \<Rightarrow> string \<Rightarrow> string" where
  "validIP is_ip s = (if \<not> is_ip (trim_space s) then [] else s)"

section \<open>The recorder\<close>

definition AllResourceTypes :: "string list" where
  "AllResourceTypes =
     [''workspace'', ''connection'', ''project'', ''project_credential'',
      ''user'', ''role'', ''session'', ''invitation'']"

fun known_in :: "string list \<Rightarrow> string \<Rightarrow> bool" where
  "known_in [] t = False"
| "known_in (k # ks) t = (if k = t then True else known_in ks t)"

definition IsKnownResourceType :: "string \<Rightarrow> bool" where
  "IsKnownResourceType t = known_in AllResourceTypes t"

definition outcomeOf :: "audit_event \<Rightarrow> outcome" where
  "outcomeOf e = (if ea_Reason e \<noteq> [] then OutcomeFailure else OutcomeSuccess)"

text \<open>The workspace id of the row: empty for a global event, \<^const>\<open>None\<close> when it
  cannot be parsed.\<close>

definition record_workspace :: "audit_event \<Rightarrow> string option" where
  "record_workspace e =
     (if ea_Workspace e = [] then Some []
      else case Parse WorkspacePrefix (ea_Workspace e) of
        Inl _ \<Rightarrow> None
      | Inr uuid \<Rightarrow> Some uuid)"

text \<open>The four actor columns (subject, email, project, credential), disjoint by
  type.\<close>

definition record_actor ::
  "audit_actor \<Rightarrow> (actor_type \<times> string \<times> string \<times> string \<times> string) option" where
  "record_actor a =
     (case at_Type a of
        Some ActorOperator \<Rightarrow> Some (ActorOperator, at_Subject a, at_Email a, [], [])
      | Some ActorProject \<Rightarrow>
          if at_ProjectID a = [] then None
          else Some (ActorProject, [], [], at_ProjectID a, at_CredentialID a)
      | None \<Rightarrow> None)"

definition record_resource :: "audit_target \<Rightarrow> string \<times> string" where
  "record_resource t =
     (if tg_Kind t \<noteq> [] then
        (if IsKnownResourceType (tg_Kind t) then (tg_Kind t, tg_ID t) else ([], tg_ID t))
      else ([], []))"

definition toRecord ::
  "(string \<Rightarrow> string) \<Rightarrow> (string \<Rightarrow> bool) \<Rightarrow> go_error + 8 word list \<Rightarrow> int \<Rightarrow> audit_event \<Rightarrow>
   audit_record option" where
  "toRecord u is_ip rnd now e =
     (case New rnd of
        Inl _ \<Rightarrow> None
      | Inr rid \<Rightarrow>
          (case record_workspace e of
             None \<Rightarrow> None
           | Some ws \<Rightarrow>
               (case record_actor (ea_Actor e) of
                  None \<Rightarrow> None
                | Some (ty, subject, email, proj, cred) \<Rightarrow>
                    Some \<lparr> au_ID = rid, au_WorkspaceID = ws, au_EventType = ea_Action e,
                       au_Outcome = outcomeOf e, au_ActorType = ty, au_ActorSubject = subject,
                       au_ActorEmail = email, au_ActorProjectID = proj,
                       au_ActorCredentialID = cred,
                       au_ResourceType = fst (record_resource (ea_Target e)),
                       au_ResourceID = snd (record_resource (ea_Target e)),
                       au_RequestID = ea_RequestID e, au_SourceIP = validIP is_ip (ea_IP e),
                       au_ReasonCode =
                         (if outcomeOf e = OutcomeFailure then reasonCodeFor u (ea_Reason e) else []),
                       au_Metadata = allowlistMetadata (ea_Action e) (ea_Extra e),
                       au_OccurredAt = (case ea_Timestamp e of None \<Rightarrow> now | Some t \<Rightarrow> t) \<rparr>)))"

text \<open>The insert, with the constraints of migration 000006 (empty means NULL).\<close>

definition actor_shape_ok :: "audit_record \<Rightarrow> bool" where
  "actor_shape_ok r =
     (case au_ActorType r of
        ActorOperator \<Rightarrow> au_ActorProjectID r = [] \<and> au_ActorCredentialID r = []
      | ActorProject \<Rightarrow> au_ActorSubject r = [] \<and> au_ActorEmail r = [] \<and> au_ActorProjectID r \<noteq> [])"

definition audit_constraints :: "db \<Rightarrow> audit_record \<Rightarrow> bool" where
  "audit_constraints d r \<longleftrightarrow>
     au_ID r \<notin> au_ID ` set (db_audit d) \<and>
     (au_WorkspaceID r = [] \<or> au_WorkspaceID r \<in> ws_ID ` set (db_workspaces d)) \<and>
     actor_shape_ok r \<and>
     (au_ResourceType r = [] \<or> IsKnownResourceType (au_ResourceType r)) \<and>
     \<not> list_all (\<lambda>c. c = CHR '' '') (au_EventType r)"

definition insert_audit :: "audit_record \<Rightarrow> unit act" where
  "insert_audit r = stmt (\<lambda>d.
     if audit_constraints d r then Inr ((), d\<lparr> db_audit := db_audit d @ [r] \<rparr>) else Inl ErrDriver)"

text \<open>What the recorder draws from its surroundings on one call.\<close>

record audit_env =
  en_u :: "string \<Rightarrow> string"
  en_is_ip :: "string \<Rightarrow> bool"
  en_rnd :: "go_error + 8 word list"
  en_now :: int

definition RecordTx :: "audit_env \<Rightarrow> audit_event \<Rightarrow> unit act" where
  "RecordTx en e =
     (case toRecord (en_u en) (en_is_ip en) (en_rnd en) (en_now en) e of
        None \<Rightarrow> fail ErrNotRecorded
      | Some r \<Rightarrow> catch (insert_audit r) (\<lambda>_. ErrNotRecorded))"

text \<open>Record absorbs every failure: its result is only the world it leaves.\<close>

definition Record :: "audit_env \<Rightarrow> audit_event \<Rightarrow> world \<Rightarrow> world" where
  "Record en e w =
     (if ea_Persisted e then w
      else case toRecord (en_u en) (en_is_ip en) (en_rnd en) (en_now en) e of
        None \<Rightarrow> w
      | Some r \<Rightarrow> snd (insert_audit r w))"

section \<open>Lemmas\<close>

lemma known_in_iff [simp]: "known_in ks t \<longleftrightarrow> t \<in> set ks"
  by (induction ks) auto

lemma outcomeOf_workspace [simp]: "outcomeOf (e\<lparr> ea_Workspace := x \<rparr>) = outcomeOf e"
  by (simp add: outcomeOf_def)

lemma contains_trans: "contains a b \<Longrightarrow> contains b c \<Longrightarrow> contains a c"
  unfolding contains_iff by (metis append_assoc)

lemma contains_refl [simp]: "contains s s"
  unfolding contains_iff by (metis append_Nil append_Nil2)

lemma first_code_in: "first_code cs x \<in> insert reasonCodeUnclassified (set cs)"
  by (induction cs) auto

lemma first_code_append:
  "first_code (as @ bs) x =
     (if list_all (\<lambda>a. \<not> contains a x) as then first_code bs x else first_code as x)"
  by (induction as) auto

text \<open>A code that contains an earlier code is never the first match.\<close>

lemma first_code_shadowed:
  assumes "cs = as @ c # bs" and "a \<in> set as" and "contains a c" and "c \<notin> set as \<union> set bs"
    and "c \<noteq> reasonCodeUnclassified"
  shows "first_code cs x \<noteq> c"
proof (cases "contains a x")
  case True
  with assms(2) have "\<not> list_all (\<lambda>a. \<not> contains a x) as" by (auto simp: list_all_iff)
  then have "first_code cs x = first_code as x" by (simp add: assms(1) first_code_append)
  with first_code_in [of as x] assms(4,5) show ?thesis by auto
next
  case False
  then have "\<not> contains c x" using assms(3) contains_trans by blast
  then have "first_code cs x = first_code (as @ bs) x"
    by (simp add: assms(1) first_code_append)
  with first_code_in [of "as @ bs" x] assms(4,5) show ?thesis by auto
qed

lemma cut_back_le: "cut_back s n \<le> n"
  by (induction n) auto

lemma cut_back_start: "cut_back s n \<noteq> 0 \<Longrightarrow> isUTF8Start (s ! cut_back s n)"
  by (induction n) (auto split: if_splits)

lemma insert_audit_Inr:
  "insert_audit r w = (Inr x, w') \<Longrightarrow>
     w_db w' = w_db w\<lparr> db_audit := db_audit (w_db w) @ [r] \<rparr> \<and> audit_constraints (w_db w) r"
  unfolding insert_audit_def by (drule stmt_Inr) (auto split: if_splits)

lemma insert_audit_Inl: "insert_audit r w = (Inl e, w') \<Longrightarrow> w_db w' = w_db w \<and> e = ErrDriver"
  unfolding insert_audit_def by (drule stmt_Inl) (auto split: if_splits)

lemma RecordTx_Inr:
  "RecordTx en e w = (Inr x, w') \<Longrightarrow>
     \<exists>r. toRecord (en_u en) (en_is_ip en) (en_rnd en) (en_now en) e = Some r \<and>
         w_db w' = w_db w\<lparr> db_audit := db_audit (w_db w) @ [r] \<rparr>"
  by (auto simp: RecordTx_def split: option.splits dest: insert_audit_Inr)

lemma RecordTx_Inl: "RecordTx en e w = (Inl err, w') \<Longrightarrow> err = ErrNotRecorded \<and> w_db w' = w_db w"
  by (auto simp: RecordTx_def fail_def catch_def split: option.splits prod.splits sum.splits
      dest: insert_audit_Inl)

text \<open>The runner and the recorder meet the contract the services are proved against.\<close>

definition describes :: "audit_env \<Rightarrow> audit_record \<Rightarrow> audit_event \<Rightarrow> bool" where
  "describes en r e \<longleftrightarrow> toRecord (en_u en) (en_is_ip en) (en_rnd en) (en_now en) e = Some r"

interpretation pg: audited_store InTx "RecordTx en" "describes en" for en
proof
  fix body :: "'a act" and w e w'
  assume "InTx body w = (Inl e, w')" then show "w_db w' = w_db w" by (rule InTx_Inl)
next
  fix body :: "'a act" and w x w'
  assume "InTx body w = (Inr x, w')"
  then show "\<exists>w1. body w = (Inr x, w1) \<and> w_db w' = w_db w1" by (rule InTx_Inr) blast
next
  fix ev w u w'
  assume "RecordTx en ev w = (Inr u, w')"
  from RecordTx_Inr [OF this] show "\<exists>row. describes en row ev \<and> w_db w' = w_db w\<lparr> db_audit := db_audit (w_db w) @ [row] \<rparr>"
    by (auto simp: describes_def)
qed

section \<open>Atomic outcomes\<close>

definition with_audit :: "audit_record \<Rightarrow> db \<Rightarrow> db" where
  "with_audit row d = d\<lparr> db_audit := db_audit d @ [row] \<rparr>"

text \<open>The outcome every audited mutation has: nothing, or its effect and one row.\<close>

definition atomic_outcome ::
  "('a \<Rightarrow> db \<Rightarrow> audit_record \<Rightarrow> bool) \<Rightarrow> db \<Rightarrow> go_error + 'a \<Rightarrow> db \<Rightarrow> bool" where
  "atomic_outcome effect d r d' \<longleftrightarrow>
     (case r of Inl _ \<Rightarrow> d' = d | Inr x \<Rightarrow> \<exists>d1 row. effect x d1 row \<and> d' = with_audit row d1)"

lemma atomic_InTx:
  assumes "InTx (andThen m (\<lambda>x. andThen (RecordTx en (event x)) (\<lambda>_. ret x))) w = (r, w')"
    and "\<And>x w1 row. describes en row (event x) \<Longrightarrow> m w = (Inr x, w1) \<Longrightarrow> effect x (w_db w1) row"
  shows "atomic_outcome effect (w_db w) r (w_db w')"
proof (cases r)
  case (Inr x)
  with pg.audited_atomic [OF assms(1)] obtain w1 row where
    "m w = (Inr x, w1)" "describes en row (event x)"
    "w_db w' = with_audit row (w_db w1)"
    by (auto simp: with_audit_def)
  with assms(2) Inr show ?thesis by (auto simp: atomic_outcome_def)
next
  case (Inl e)
  with pg.audited_atomic [OF assms(1)] show ?thesis by (simp add: atomic_outcome_def)
qed

lemma atomic_fail: "atomic_outcome effect d (Inl e) d"
  by (simp add: atomic_outcome_def)

text \<open>The same, as a predicate on an action in a world, with a rule for each way the
  services build one.\<close>

definition audited :: "('a \<Rightarrow> db \<Rightarrow> audit_record \<Rightarrow> bool) \<Rightarrow> 'a act \<Rightarrow> world \<Rightarrow> bool" where
  "audited effect m w \<longleftrightarrow>
     atomic_outcome effect (w_db w) (fst (m w)) (w_db (snd (m w)))"

lemma audited_fail [intro]: "audited effect (fail e) w"
  by (simp add: audited_def fail_def atomic_fail)

lemma audited_andThen:
  assumes "read_only m"
    and "\<And>x w1. m w = (Inr x, w1) \<Longrightarrow> w_db w1 = w_db w \<Longrightarrow> audited effect (f x) w1"
  shows "audited effect (andThen m f) w"
proof (cases "m w")
  case (Pair r w1)
  note db = read_onlyD [OF assms(1) Pair]
  show ?thesis
  proof (cases r)
    case (Inl e)
    with Pair db show ?thesis by (simp add: audited_def andThen_def atomic_fail)
  next
    case (Inr x)
    with assms(2) [of x w1] Pair db show ?thesis by (simp add: audited_def andThen_def)
  qed
qed

lemma audited_require:
  assumes "b \<Longrightarrow> audited effect (f ()) w"
  shows "audited effect (andThen (require b e) f) w"
  using assms by (auto simp: audited_def act_simps atomic_fail)

lemma audited_InTx:
  assumes "\<And>x w1 row. describes en row (event x) \<Longrightarrow> m w = (Inr x, w1) \<Longrightarrow> effect x (w_db w1) row"
  shows "audited effect (InTx (andThen m (\<lambda>x. andThen (RecordTx en (event x)) (\<lambda>_. ret x)))) w"
  (is "audited effect ?act w")
  unfolding audited_def by (rule atomic_InTx [where w = w and r = "fst (?act w)"]) (auto intro: assms)

lemma audited_map:
  assumes "audited effect m w" and "\<And>x d row. effect x d row \<Longrightarrow> effect' (g x) d row"
  shows "audited effect' (andThen m (\<lambda>x. ret (g x))) w"
proof (cases "m w")
  case (Pair r w1)
  with assms show ?thesis
    by (cases r) (fastforce simp: audited_def andThen_def atomic_outcome_def ret_def)+
qed

lemma audited_weaken:
  assumes "audited effect m w" and "\<And>x d row. effect x d row \<Longrightarrow> effect' x d row"
  shows "audited effect' m w"
  using assms by (auto simp: audited_def atomic_outcome_def split: sum.splits) blast

lemma allowlist_loop_keys:
  "fst ` set (allowlist_loop allowed kvs out) \<subseteq> fst ` set out \<union> (set allowed \<inter> fst ` set kvs)"
proof (induction allowed kvs out rule: allowlist_loop.induct)
  case (2 allowed k v kvs out)
  have d: "fst ` set (AList.update k x out) = insert k (fst ` set out)" for x
    using dom_update [of k x out] by (simp add: dom_map_of_conv_image_fst)
  show ?case using 2 d by (auto simp: Let_def split: option.splits)
qed auto

lemma safe_not_nested: "safeMetadataValue v = Some v' \<Longrightarrow> v' \<noteq> MNested"
  by (cases v) auto

lemma update_values: "snd ` set (AList.update k x out) \<subseteq> insert x (snd ` set out)"
  by (induction out) auto

lemma allowlist_loop_flat:
  "MNested \<notin> snd ` set out \<Longrightarrow> MNested \<notin> snd ` set (allowlist_loop allowed kvs out)"
proof (induction allowed kvs out rule: allowlist_loop.induct)
  case (2 allowed k v kvs out)
  show ?case
  proof (cases "k \<in> set allowed \<and> safeMetadataValue v \<noteq> None")
    case True
    then obtain x where x: "safeMetadataValue v = Some x" "k \<in> set allowed" by auto
    with update_values [of k x out] 2(4) safe_not_nested [of v x]
    have "MNested \<notin> snd ` set (AList.update k x out)" by blast
    with x 2(3) show ?thesis by (simp add: Let_def)
  next
    case False
    with 2 show ?thesis by (auto split: option.splits)
  qed
qed auto

lemma reasonCodeFor_empty: "(reasonCodeFor u reason = []) = (reason = [])"
proof -
  have "[] \<notin> insert reasonCodeUnclassified (set knownReasonCodes)"
    by (simp add: reasonCodeUnclassified_def knownReasonCodes_def)
  with first_code_in [of knownReasonCodes "to_lower u reason"] show ?thesis
    unfolding reasonCodeFor_def by auto
qed

lemma toRecord_Some:
  assumes "toRecord u is_ip rnd now e = Some r"
  shows "au_Metadata r = allowlistMetadata (ea_Action e) (ea_Extra e)"
    and "au_Outcome r = outcomeOf e"
    and "au_ReasonCode r = (if outcomeOf e = OutcomeFailure then reasonCodeFor u (ea_Reason e) else [])"
    and "au_ResourceType r = fst (record_resource (ea_Target e))"
    and "record_actor (ea_Actor e) = Some (au_ActorType r, au_ActorSubject r, au_ActorEmail r,
           au_ActorProjectID r, au_ActorCredentialID r)"
    and "record_workspace e = Some (au_WorkspaceID r)"
    and "au_EventType r = ea_Action e"
  using assms by (auto simp: toRecord_def split: sum.splits option.splits)

lemma toRecord_resource:
  "toRecord u is_ip rnd now e = Some r \<Longrightarrow> au_ResourceID r = snd (record_resource (ea_Target e))"
  by (auto simp: toRecord_def split: sum.splits option.splits)

lemma toRecord_actor_shape: "toRecord u is_ip rnd now e = Some r \<Longrightarrow> actor_shape_ok r"
  by (drule toRecord_Some(5))
    (auto simp: record_actor_def actor_shape_ok_def split: option.splits actor_type.splits if_splits)

lemma allowlistMetadata_safe:
  "fst ` set (allowlistMetadata t x) \<subseteq> set (metadataAllowlist t)"
  "MNested \<notin> snd ` set (allowlistMetadata t x)"
  using allowlist_loop_keys [of "metadataAllowlist t" x "[]"]
    allowlist_loop_flat [of "[]" "metadataAllowlist t" x]
  by (simp_all add: allowlistMetadata_def Let_def)

section \<open>Properties\<close>

text \<open>Whatever the error text, the stored reason is empty exactly for a success
  and otherwise a constant of the closed vocabulary, never text of the input;
  provider_forbidden is listed but can never be stored, since forbidden is
  listed before it and matches every text it matches.\<close>

theorem reason_code_closed:
  "reasonCodeFor u reason \<in> insert [] (insert reasonCodeUnclassified
      (set knownReasonCodes - {''provider_forbidden''})) \<and>
   (reasonCodeFor u reason = []) = (reason = [])"
proof -
  have split: "knownReasonCodes = take 5 knownReasonCodes @ ''provider_forbidden'' # drop 6 knownReasonCodes"
    by (simp add: knownReasonCodes_def)
  have "first_code knownReasonCodes x \<noteq> ''provider_forbidden''" for x
  proof (rule first_code_shadowed [OF split])
    show "''forbidden'' \<in> set (take 5 knownReasonCodes)" by (simp add: knownReasonCodes_def)
    show "contains ''forbidden'' ''provider_forbidden''" by (simp add: has_prefix_def)
    show "''provider_forbidden'' \<notin> set (take 5 knownReasonCodes) \<union> set (drop 6 knownReasonCodes)"
      by (simp add: knownReasonCodes_def)
  qed (simp add: reasonCodeUnclassified_def)
  then show ?thesis
    using first_code_in [of knownReasonCodes "to_lower u reason"] reasonCodeFor_empty [of u reason]
    by (auto simp: reasonCodeFor_def)
qed

text \<open>A row never depends on the caller's free text: the target's display name,
  the user agent and the actor's username do not reach it at all, its metadata
  holds only keys the event type allows and no nested value, its actor columns
  are disjoint by type as the database demands, and its reason is empty exactly
  for a success.\<close>

theorem record_redacts:
  "toRecord u is_ip rnd now (e\<lparr> ea_Target := (ea_Target e)\<lparr> tg_Name := name \<rparr>, ea_UserAgent := agent,
      ea_Actor := (ea_Actor e)\<lparr> at_Username := username \<rparr> \<rparr>) = toRecord u is_ip rnd now e \<and>
   (case toRecord u is_ip rnd now e of
      None \<Rightarrow> True
    | Some r \<Rightarrow> fst ` set (au_Metadata r) \<subseteq> set (metadataAllowlist (ea_Action e)) \<and>
        MNested \<notin> snd ` set (au_Metadata r) \<and> actor_shape_ok r \<and>
        (au_ReasonCode r = []) = (au_Outcome r = OutcomeSuccess) \<and>
        au_ResourceType r \<in> insert [] (set AllResourceTypes))"
proof (rule conjI)
  let ?e = "e\<lparr> ea_Target := (ea_Target e)\<lparr> tg_Name := name \<rparr>, ea_UserAgent := agent,
      ea_Actor := (ea_Actor e)\<lparr> at_Username := username \<rparr> \<rparr>"
  have parts: "record_workspace ?e = record_workspace e"
    "record_actor (ea_Actor ?e) = record_actor (ea_Actor e)"
    "record_resource (ea_Target ?e) = record_resource (ea_Target e)" "outcomeOf ?e = outcomeOf e"
    by (simp_all add: record_workspace_def record_actor_def record_resource_def outcomeOf_def
        split: option.split actor_type.split)
  have fields: "ea_Action ?e = ea_Action e" "ea_RequestID ?e = ea_RequestID e" "ea_IP ?e = ea_IP e"
    "ea_Reason ?e = ea_Reason e" "ea_Extra ?e = ea_Extra e" "ea_Timestamp ?e = ea_Timestamp e"
    by simp_all
  show "toRecord u is_ip rnd now ?e = toRecord u is_ip rnd now e"
    unfolding toRecord_def parts fields by (rule refl)
next
  have "(au_ReasonCode r = []) = (au_Outcome r = OutcomeSuccess)"
    if "toRecord u is_ip rnd now e = Some r" for r
    using toRecord_Some(2,3) [OF that] by (simp add: reasonCodeFor_empty outcomeOf_def)
  moreover have "au_ResourceType r \<in> insert [] (set AllResourceTypes)"
    if "toRecord u is_ip rnd now e = Some r" for r
    using toRecord_Some(4) [OF that]
    by (simp add: record_resource_def IsKnownResourceType_def split: if_splits)
  ultimately show "case toRecord u is_ip rnd now e of None \<Rightarrow> True
    | Some r \<Rightarrow> fst ` set (au_Metadata r) \<subseteq> set (metadataAllowlist (ea_Action e)) \<and>
        MNested \<notin> snd ` set (au_Metadata r) \<and> actor_shape_ok r \<and>
        (au_ReasonCode r = []) = (au_Outcome r = OutcomeSuccess) \<and>
        au_ResourceType r \<in> insert [] (set AllResourceTypes)"
    using allowlistMetadata_safe toRecord_Some(1) toRecord_actor_shape
    by (cases "toRecord u is_ip rnd now e") simp_all
qed

text \<open>A stored string is a prefix of the value, at most the bound long, and cut
  only where a UTF-8 sequence begins (or entirely).\<close>

theorem truncate_on_boundary:
  "let t = truncate_utf8 s n in
     t = take (length t) s \<and> length t \<le> n \<and>
     (t = s \<or> t = [] \<or> isUTF8Start (s ! length t))"
  using cut_back_le [of s n] cut_back_start [of s n]
  by (auto simp: truncate_utf8_def Let_def min_def)

end
