(* ===== verification/Encoding.thy ===== *)
theory Encoding
  imports Text "HOL-Library.Monad_Syntax"
begin

text \<open>
  More of Go's standard library, for the components that read what a client
  sends: \<^verbatim>\<open>strconv\<close> on signed 64-bit integers, the unpadded base64url coding of
  \<^verbatim>\<open>encoding/base64\<close> and \<^verbatim>\<open>time.Parse\<close> with the layout \<^verbatim>\<open>time.RFC3339\<close>. The
  lemmas are the round trips: an integer of the range is read back from its
  decimal form, and every byte string from its coding.
\<close>

section \<open>Signed integers\<close>

definition FormatInt :: "int \<Rightarrow> string" where
  "FormatInt n = (if n < 0 then CHR ''-'' # Itoa (nat (- n)) else Itoa (nat n))"

fun sign_of :: "string \<Rightarrow> bool \<times> string" where
  "sign_of [] = (False, [])"
| "sign_of (c # s) =
     (if c = CHR ''-'' then (True, s) else if c = CHR ''+'' then (False, s) else (False, c # s))"

text \<open>\<^verbatim>\<open>ParseInt(s, 10, 64)\<close>, which is also what \<^verbatim>\<open>Atoi\<close> accepts and returns on a
  64-bit machine: an optional sign, at least one digit, a value in range.\<close>

definition ParseInt :: "string \<Rightarrow> int option" where
  "ParseInt s =
     (let (neg, ds) = sign_of s; n = int (decimal_value ds) in
      if ds = [] \<or> \<not> list_all is_digit ds then None
      else if neg then (if n \<le> 2 ^ 63 then Some (- n) else None)
      else (if n < 2 ^ 63 then Some n else None))"

text \<open>What a 64-bit addition or multiplication leaves of a mathematical integer.\<close>

definition wrap64 :: "int \<Rightarrow> int" where
  "wrap64 n = (n + 2 ^ 63) mod 2 ^ 64 - 2 ^ 63"

lemma wrap64_id [simp]: "- (2 ^ 63) \<le> n \<Longrightarrow> n < 2 ^ 63 \<Longrightarrow> wrap64 n = n"
  by (simp add: wrap64_def)

lemma Itoa_Nil [simp]: "Itoa n \<noteq> []"
  by (subst Itoa.simps) simp

lemma sign_of_digits: "list_all is_digit s \<Longrightarrow> sign_of s = (False, s)"
proof (cases s)
  case (Cons c r)
  moreover have "\<not> is_digit CHR ''-''" "\<not> is_digit CHR ''+''"
    by (simp_all add: is_digit_def in_range_def less_eq_char_def)
  ultimately show "list_all is_digit s \<Longrightarrow> sign_of s = (False, s)" by auto
qed simp

theorem ParseInt_FormatInt:
  assumes "- (2 ^ 63) \<le> n" and "n < 2 ^ 63"
  shows "ParseInt (FormatInt n) = Some n"
proof (cases "n < 0")
  case True
  with assms(1) show ?thesis by (simp add: ParseInt_def FormatInt_def)
next
  case False
  with assms(2) show ?thesis
    by (simp add: ParseInt_def FormatInt_def sign_of_digits [OF Itoa_digits])
qed

lemma FormatInt_no_dot: "CHR ''.'' \<notin> set (FormatInt n)"
proof -
  have "CHR ''.'' \<notin> set (Itoa k)" for k
  proof
    assume "CHR ''.'' \<in> set (Itoa k)"
    with Itoa_digits [of k] have "is_digit CHR ''.''" by (metis list_all_iff)
    then show False by (simp add: is_digit_def in_range_def less_eq_char_def)
  qed
  then show ?thesis by (simp add: FormatInt_def)
qed

section \<open>base64url\<close>

definition b64_alphabet :: string where
  "b64_alphabet = ''ABCDEFGHIJKLMNOPQRSTUVWXYZabcdefghijklmnopqrstuvwxyz0123456789-_''"

definition b64_char :: "nat \<Rightarrow> char" where "b64_char n = b64_alphabet ! (n mod 64)"

definition b64_value :: "char \<Rightarrow> nat option" where
  "b64_value c =
     (let n = of_char c :: nat in
      if is_upper c then Some (n - 65)
      else if is_lower c then Some (n - 71)
      else if is_digit c then Some (n + 4)
      else if c = CHR ''-'' then Some 62
      else if c = CHR ''_'' then Some 63
      else None)"

fun b64_digits :: "nat list \<Rightarrow> nat list" where
  "b64_digits [] = []"
| "b64_digits [a] = [a div 4, a mod 4 * 16]"
| "b64_digits [a, b] = [a div 4, a mod 4 * 16 + b div 16, b mod 16 * 4]"
| "b64_digits (a # b # c # bs) =
     a div 4 # (a mod 4 * 16 + b div 16) # (b mod 16 * 4 + c div 64) # c mod 64 # b64_digits bs"

text \<open>Four digits are three bytes; the spare bits of a short last group are not
  looked at, and a single digit is no byte.\<close>

fun b64_bytes :: "nat list \<Rightarrow> nat list option" where
  "b64_bytes [] = Some []"
| "b64_bytes [_] = None"
| "b64_bytes [a, b] = Some [a * 4 + b div 16]"
| "b64_bytes [a, b, c] = Some [a * 4 + b div 16, b mod 16 * 16 + c div 4]"
| "b64_bytes (a # b # c # d # ds) =
     map_option (\<lambda>bs. (a * 4 + b div 16) # (b mod 16 * 16 + c div 4) # (c mod 4 * 64 + d) # bs)
       (b64_bytes ds)"

definition RawURLEncode :: "string \<Rightarrow> string" where
  "RawURLEncode s = map b64_char (b64_digits (map of_char s))"

text \<open>Line breaks are skipped wherever they stand; anything else outside the
  alphabet, the padding character included, is an error.\<close>

definition RawURLDecode :: "string \<Rightarrow> string option" where
  "RawURLDecode s = do {
     ds \<leftarrow> those (map b64_value (filter (\<lambda>c. c \<noteq> CHR 0x0A \<and> c \<noteq> CHR 0x0D) s));
     bs \<leftarrow> b64_bytes ds;
     Some (map char_of bs) }"

lemma b64_alphabet_facts:
  "\<forall>n \<in> set [0..<64]. b64_value (b64_char n) = Some n \<and> b64_char n \<noteq> CHR 0x0A \<and> b64_char n \<noteq> CHR 0x0D"
  by (simp add: upt_rec b64_char_def b64_alphabet_def b64_value_def is_upper_def is_lower_def is_digit_def
      in_range_def less_eq_char_def)

lemma b64_char_facts [simp]:
  "n < 64 \<Longrightarrow> b64_value (b64_char n) = Some n"
  "n < 64 \<Longrightarrow> b64_char n \<noteq> CHR 0x0A \<and> b64_char n \<noteq> CHR 0x0D"
  using b64_alphabet_facts by simp_all

lemma b64_digits_lt: "list_all (\<lambda>b. b < 256) bs \<Longrightarrow> list_all (\<lambda>d. d < 64) (b64_digits bs)"
proof (induction bs rule: b64_digits.induct)
  case (4 a b c bs)
  have "a mod 4 * 16 + b div 16 < 64" if "b < 256" for a b :: nat
  proof -
    have "a mod 4 \<le> 3" by simp
    moreover have "b div 16 < 16" using that by (simp add: less_mult_imp_div_less)
    ultimately show ?thesis by linarith
  qed
  moreover have "b mod 16 * 4 + c div 64 < 64" if "c < 256" for b c :: nat
  proof -
    have "b mod 16 \<le> 15" by simp
    moreover have "c div 64 < 4" using that by (simp add: less_mult_imp_div_less)
    ultimately show ?thesis by linarith
  qed
  ultimately show ?case using 4 by (auto simp: less_mult_imp_div_less)
next
  case (3 a b)
  have "a mod 4 \<le> 3" by simp
  moreover have "b div 16 < 16" using 3 by (simp add: less_mult_imp_div_less)
  ultimately have "a mod 4 * 16 + b div 16 < 64" by linarith
  moreover have "b mod 16 * 4 < 64"
  proof -
    have "b mod 16 \<le> 15" by simp
    then show ?thesis by linarith
  qed
  ultimately show ?case using 3 by (auto simp: less_mult_imp_div_less)
next
  case (2 a)
  have "a mod 4 * 16 < 64"
  proof -
    have "a mod 4 \<le> 3" by simp
    then show ?thesis by linarith
  qed
  with 2 show ?case by (auto simp: less_mult_imp_div_less)
qed simp

lemma b64_group: "(a :: nat) div 4 * 4 + (a mod 4 * 16 + b div 16) div 16 = a" if "b < 256"
proof -
  from that have "b div 16 < 16" by (simp add: less_mult_imp_div_less)
  then have "(a mod 4 * 16 + b div 16) div 16 = a mod 4" by simp
  then show ?thesis by simp
qed

lemma b64_bytes_digits: "list_all (\<lambda>b. b < 256) bs \<Longrightarrow> b64_bytes (b64_digits bs) = Some bs"
proof (induction bs rule: b64_digits.induct)
  case (4 a b c bs)
  from 4 have "b div 16 < 16" "c div 64 < 4" by (simp_all add: less_mult_imp_div_less)
  with 4 show ?case by simp
next
  case (3 a b)
  then have "b div 16 < 16" by (simp add: less_mult_imp_div_less)
  with 3 show ?case by (simp add: b64_group)
qed simp_all

lemma those_map_Some: "list_all (\<lambda>x. f x = Some (g x)) xs \<Longrightarrow> those (map f xs) = Some (map g xs)"
  by (induction xs) auto

theorem RawURL_round_trip: "RawURLDecode (RawURLEncode s) = Some s"
proof -
  define ds where "ds = b64_digits (map of_char s)"
  have bytes: "list_all (\<lambda>b. b < 256) (map of_char s :: nat list)" by (simp add: list_all_iff)
  from b64_digits_lt [OF bytes] have lt: "list_all (\<lambda>d. d < 64) ds" by (simp add: ds_def)
  then have "filter (\<lambda>c. c \<noteq> CHR 0x0A \<and> c \<noteq> CHR 0x0D) (map b64_char ds) = map b64_char ds"
    by (simp add: filter_id_conv list_all_iff)
  moreover have "those (map b64_value (map b64_char ds)) = Some ds"
    using those_map_Some [of "\<lambda>d. b64_value (b64_char d)" id ds] lt
    by (simp add: list_all_iff comp_def)
  ultimately show ?thesis
    using b64_bytes_digits [OF bytes]
    by (simp add: RawURLDecode_def RawURLEncode_def ds_def [symmetric] comp_def)
qed

lemma RawURLEncode_Nil [simp]: "RawURLEncode s = [] \<longleftrightarrow> s = []"
proof
  assume "RawURLEncode s = []"
  with RawURL_round_trip [of s] show "s = []" by (simp add: RawURLDecode_def)
qed (simp add: RawURLEncode_def)

section \<open>RFC 3339 times\<close>

text \<open>\<^verbatim>\<open>time.Parse(time.RFC3339, s)\<close>, as nanoseconds since the epoch. The hour
  may have one digit, the seconds a fraction after a point or comma (digits past
  the ninth are dropped), and an offset may say 24 hours or 60 minutes.\<close>

definition literal :: "char \<Rightarrow> string \<Rightarrow> string option" where
  "literal c s = (case s of [] \<Rightarrow> None | x # r \<Rightarrow> if x = c then Some r else None)"

definition getnum :: "bool \<Rightarrow> string \<Rightarrow> (nat \<times> string) option" where
  "getnum two s =
     (case s of
        [] \<Rightarrow> None
      | a # r \<Rightarrow>
          if \<not> is_digit a then None
          else if r \<noteq> [] \<and> is_digit (hd r)
          then Some (10 * digit_value a + digit_value (hd r), tl r)
          else if two then None else Some (digit_value a, r))"

definition get_year :: "string \<Rightarrow> (nat \<times> string) option" where
  "get_year s =
     (if length s \<ge> 4 \<and> list_all is_digit (take 4 s) then Some (decimal_value (take 4 s), drop 4 s)
      else None)"

definition get_fraction :: "string \<Rightarrow> nat \<times> string" where
  "get_fraction s =
     (if length s \<ge> 2 \<and> (s ! 0 = CHR ''.'' \<or> s ! 0 = CHR '','') \<and> is_digit (s ! 1)
      then let ds = takeWhile is_digit (tl s); kept = take 9 ds
           in (decimal_value kept * 10 ^ (9 - length kept), drop (length ds) (tl s))
      else (0, s))"

text \<open>The offset in seconds east of UTC.\<close>

definition get_zone :: "string \<Rightarrow> (int \<times> string) option" where
  "get_zone s =
     (case s of
        [] \<Rightarrow> None
      | c # r \<Rightarrow>
          if c = CHR ''Z'' then Some (0, r)
          else if length s < 6 \<or> s ! 3 \<noteq> CHR '':'' then None
          else do {
            (hr, _) \<leftarrow> getnum True (take 2 r);
            (mm, _) \<leftarrow> getnum True (take 2 (drop 4 s));
            if hr > 24 \<or> mm > 60 then None
            else if c = CHR ''+'' then Some (int ((hr * 60 + mm) * 60), drop 6 s)
            else if c = CHR ''-'' then Some (- int ((hr * 60 + mm) * 60), drop 6 s)
            else None })"

definition leap_year :: "nat \<Rightarrow> bool" where
  "leap_year y \<longleftrightarrow> y mod 4 = 0 \<and> (y mod 100 \<noteq> 0 \<or> y mod 400 = 0)"

definition days_in :: "nat \<Rightarrow> nat \<Rightarrow> nat" where
  "days_in m y =
     (if m = 2 then (if leap_year y then 29 else 28)
      else if m = 4 \<or> m = 6 \<or> m = 9 \<or> m = 11 then 30 else 31)"

definition days_from_civil :: "int \<Rightarrow> int \<Rightarrow> int \<Rightarrow> int" where
  "days_from_civil y m d =
     (let y' = (if m \<le> 2 then y - 1 else y); era = y' div 400; yoe = y' mod 400;
          doy = (153 * ((m + 9) mod 12) + 2) div 5 + d - 1;
          doe = yoe * 365 + yoe div 4 - yoe div 100 + doy
      in era * 146097 + doe - 719468)"

definition ParseRFC3339 :: "string \<Rightarrow> int option" where
  "ParseRFC3339 s = do {
     (year, s) \<leftarrow> get_year s;
     s \<leftarrow> literal CHR ''-'' s;
     (month, s) \<leftarrow> getnum True s;
     if month = 0 \<or> month > 12 then None else do {
     s \<leftarrow> literal CHR ''-'' s;
     (day, s) \<leftarrow> getnum True s;
     s \<leftarrow> literal CHR ''T'' s;
     (hour, s) \<leftarrow> getnum False s;
     if hour \<ge> 24 then None else do {
     s \<leftarrow> literal CHR '':'' s;
     (minute, s) \<leftarrow> getnum True s;
     if minute \<ge> 60 then None else do {
     s \<leftarrow> literal CHR '':'' s;
     (sec, s) \<leftarrow> getnum True s;
     if sec \<ge> 60 then None else do {
     let (ns, s) = get_fraction s;
     (zone, s) \<leftarrow> get_zone s;
     if s \<noteq> [] \<or> day < 1 \<or> day > days_in month year then None
     else Some (((days_from_civil (int year) (int month) (int day) * 24 + int hour) * 3600
                   + int minute * 60 + int sec - zone) * 1000000000 + int ns) }}}}}"

text \<open>\<^verbatim>\<open>time.Time{}\<close>, the first instant of the year 1.\<close>

definition zero_time :: int where "zero_time = -62135596800000000000"

lemmas time_simps = ParseRFC3339_def get_year_def literal_def getnum_def get_fraction_def get_zone_def
  days_in_def leap_year_def days_from_civil_def decimal_value_def digit_value_def is_digit_def
  in_range_def less_eq_char_def zero_time_def Let_def

lemma ParseRFC3339_zero: "ParseRFC3339 ''0001-01-01T00:00:00Z'' = Some zero_time"
  by (simp add: time_simps)

lemma ParseRFC3339_offset:
  "ParseRFC3339 ''2024-02-29T5:06:07.25+01:30'' = Some 1709177767250000000"
  by (simp add: time_simps)

lemma ParseRFC3339_no_leap_day: "ParseRFC3339 ''2023-02-29T00:00:00Z'' = None"
  by (simp add: time_simps)

end
