(* ===== verification/AuditMemory.thy ===== *)
theory AuditMemory
  imports AuditLog Encoding
begin

text \<open>
  The in-process side of auditing (\<^verbatim>\<open>internal/audit/memory.go\<close>, \<^verbatim>\<open>multi.go\<close>,
  \<^verbatim>\<open>recorder.go\<close>) and the endpoint that reads it
  (\<^verbatim>\<open>internal/server/audit_handler.go\<close>). The ring buffer is shown to be the list
  of the last events, newest first, whatever was recorded; the fan-out reaches
  every recorder. The clock is an argument; a recorder is a function on a state
  that also says whether it panicked.
\<close>

section \<open>The ring buffer\<close>

record memory_recorder =
  mr_buf :: "audit_event list"
  mr_head :: nat
  mr_full :: bool
  mr_dropped :: "64 word"
  mr_capacity :: nat

definition zero_event :: audit_event where
  "zero_event =
     \<lparr> ea_Action = [], ea_Actor = \<lparr> at_Type = None, at_Subject = [], at_Email = [], at_Username = [],
                                   at_ProjectID = [], at_CredentialID = [] \<rparr>,
       ea_Target = \<lparr> tg_Kind = [], tg_ID = [], tg_Name = [] \<rparr>, ea_Workspace = [], ea_IP = [],
       ea_RequestID = [], ea_UserAgent = [], ea_Timestamp = None, ea_Reason = [], ea_Extra = [],
       ea_Persisted = False \<rparr>"

definition NewMemoryRecorder :: "int \<Rightarrow> memory_recorder" where
  "NewMemoryRecorder capacity =
     (let c = nat (if capacity < 1 then 1 else capacity) in
      \<lparr> mr_buf = replicate c zero_event, mr_head = 0, mr_full = False, mr_dropped = 0, mr_capacity = c \<rparr>)"

definition stamp :: "int \<Rightarrow> audit_event \<Rightarrow> audit_event" where
  "stamp now e = (if ea_Timestamp e = None then e\<lparr> ea_Timestamp := Some now \<rparr> else e)"

definition RecordMemory :: "int \<Rightarrow> audit_event \<Rightarrow> memory_recorder \<Rightarrow> memory_recorder" where
  "RecordMemory now e m =
     (let m = (if mr_full m then m\<lparr> mr_dropped := mr_dropped m + 1 \<rparr> else m);
          m = m\<lparr> mr_buf := (mr_buf m)[mr_head m := stamp now e], mr_head := mr_head m + 1 \<rparr>
      in if mr_head m \<ge> mr_capacity m then m\<lparr> mr_head := 0, mr_full := True \<rparr> else m)"

definition at_after :: "audit_event \<Rightarrow> int \<Rightarrow> bool" where
  "at_after e since = (case ea_Timestamp e of None \<Rightarrow> False | Some t \<Rightarrow> t > since)"

text \<open>The slot \<open>i\<close> writes before the most recent one.\<close>

definition ring_slot :: "memory_recorder \<Rightarrow> nat \<Rightarrow> audit_event" where
  "ring_slot m i = mr_buf m ! ((mr_head m + mr_capacity m - 1 - i) mod mr_capacity m)"

text \<open>The walk backwards from the most recent write; \<open>since\<close> is \<^const>\<open>None\<close> when it
  is the zero time.\<close>

fun snapshot_loop ::
  "memory_recorder \<Rightarrow> int \<Rightarrow> int option \<Rightarrow> nat list \<Rightarrow> audit_event list \<Rightarrow> audit_event list" where
  "snapshot_loop m limit since [] out = out"
| "snapshot_loop m limit since (i # is) out =
     (let e = ring_slot m i in
      if (case since of None \<Rightarrow> False | Some s \<Rightarrow> \<not> at_after e s) then out
      else let out = out @ [e] in
        if limit > 0 \<and> int (length out) \<ge> limit then out else snapshot_loop m limit since is out)"

definition Snapshot :: "int \<Rightarrow> int option \<Rightarrow> memory_recorder \<Rightarrow> audit_event list \<times> 64 word" where
  "Snapshot limit since m =
     (let count = (if mr_full m then mr_capacity m else mr_head m) in
      if count = 0 then ([], mr_dropped m)
      else (snapshot_loop m limit since [0..<count] [], mr_dropped m))"

section \<open>Fan-out and the default recorder\<close>

type_synonym 's recorder = "audit_event \<Rightarrow> 's \<Rightarrow> 's \<times> bool"

text \<open>A panic ends the recorder that raised it and nothing else.\<close>

fun MultiRecord :: "'s recorder option list \<Rightarrow> audit_event \<Rightarrow> 's \<Rightarrow> 's" where
  "MultiRecord [] e s = s"
| "MultiRecord (None # rs) e s = MultiRecord rs e s"
| "MultiRecord (Some r # rs) e s = MultiRecord rs e (fst (r e s))"

definition noop :: "'s recorder" where "noop e s = (s, False)"

definition SetDefault :: "'s recorder option \<Rightarrow> 's recorder \<Rightarrow> 's recorder \<times> 's recorder" where
  "SetDefault r def = (def, case r of None \<Rightarrow> noop | Some r \<Rightarrow> r)"

definition RecordDefault :: "'s recorder \<Rightarrow> int \<Rightarrow> audit_event \<Rightarrow> 's \<Rightarrow> 's \<times> bool" where
  "RecordDefault def now e s = def (stamp now e) s"

section \<open>The endpoint\<close>

record audit_event_dto =
  dt_Action :: string
  dt_Actor :: audit_actor
  dt_Target :: audit_target
  dt_IP :: string
  dt_Timestamp :: string
  dt_Reason :: string
  dt_Extra :: "(string \<times> meta) list"

record ring_response =
  rr_Events :: "audit_event_dto list"
  rr_Count :: nat
  rr_Capacity :: nat
  rr_Dropped :: "64 word"

definition event_dto :: "audit_event \<Rightarrow> audit_event_dto" where
  "event_dto e =
     \<lparr> dt_Action = ea_Action e, dt_Actor = ea_Actor e, dt_Target = ea_Target e, dt_IP = ea_IP e,
       dt_Timestamp = RFC3339Nano (case ea_Timestamp e of None \<Rightarrow> zero_time | Some t \<Rightarrow> t),
       dt_Reason = ea_Reason e, dt_Extra = ea_Extra e \<rparr>"

definition ring_limit :: "string \<Rightarrow> int" where
  "ring_limit v =
     (if v = [] then 0 else case ParseInt v of None \<Rightarrow> 0 | Some n \<Rightarrow> if n > 0 then n else 0)"

definition ListEvents :: "string \<Rightarrow> memory_recorder \<Rightarrow> ring_response" where
  "ListEvents limit m =
     (let (events, dropped) = Snapshot (ring_limit limit) None m in
      \<lparr> rr_Events = map event_dto events, rr_Count = length events, rr_Capacity = mr_capacity m,
        rr_Dropped = dropped \<rparr>)"

section \<open>The ring is the list of the last events\<close>

text \<open>\<open>holds m es n\<close>: the ring holds \<open>es\<close>, newest first, and \<open>n\<close> events were
  recorded.\<close>

definition ring_count :: "memory_recorder \<Rightarrow> nat" where
  "ring_count m = (if mr_full m then mr_capacity m else mr_head m)"

definition ring_list :: "memory_recorder \<Rightarrow> audit_event list" where
  "ring_list m = map (ring_slot m) [0..<ring_count m]"

definition ring_ok :: "memory_recorder \<Rightarrow> bool" where
  "ring_ok m \<longleftrightarrow> 0 < mr_capacity m \<and> length (mr_buf m) = mr_capacity m \<and> mr_head m < mr_capacity m"

lemma ring_ok_new [simp]: "ring_ok (NewMemoryRecorder c)"
  by (simp add: ring_ok_def NewMemoryRecorder_def Let_def)

lemma ring_list_new [simp]: "ring_list (NewMemoryRecorder c) = []"
  by (simp add: ring_list_def ring_count_def NewMemoryRecorder_def Let_def)

lemma ring_ok_record [simp]: "ring_ok m \<Longrightarrow> ring_ok (RecordMemory now e m)"
  by (auto simp: ring_ok_def RecordMemory_def Let_def)

lemma RecordMemory_fields:
  assumes "ring_ok m"
  shows "mr_capacity (RecordMemory now e m) = mr_capacity m"
    "mr_head (RecordMemory now e m) = (mr_head m + 1) mod mr_capacity m"
    "mr_buf (RecordMemory now e m) = (mr_buf m)[mr_head m := stamp now e]"
    "mr_dropped (RecordMemory now e m) = mr_dropped m + (if mr_full m then 1 else 0)"
    "mr_full (RecordMemory now e m) \<longleftrightarrow> mr_full m \<or> mr_head m + 1 = mr_capacity m"
  using assms by (auto simp: RecordMemory_def ring_ok_def Let_def le_Suc_eq)

text \<open>The \<open>i\<close>-th slot back from the head, over an update of the head slot.\<close>

lemma slot_back:
  assumes "h < c" and "i < (c :: nat)"
  shows "((h + 1) mod c + c - 1 - i) mod c = (if i = 0 then h else (h + c - 1 - (i - 1)) mod c)"
proof (cases "h + 1 = c")
  case True
  then show ?thesis using assms by (cases i) (auto simp: mod_if)
next
  case False
  with assms have "(h + 1) mod c = h + 1" by simp
  with assms show ?thesis by (cases i) (auto simp: mod_if)
qed

lemma slot_not_head:
  assumes "h < c" and "i + 1 < (c :: nat)"
  shows "(h + c - 1 - i) mod c \<noteq> h"
  using assms by (cases "i < h") (auto simp: mod_if)

lemma ring_list_record:
  assumes "ring_ok m"
  shows "ring_list (RecordMemory now e m) = take (mr_capacity m) (stamp now e # ring_list m)"
proof (rule nth_equalityI)
  note f = RecordMemory_fields [OF assms]
  from assms have c: "0 < mr_capacity m" "length (mr_buf m) = mr_capacity m" "mr_head m < mr_capacity m"
    by (auto simp: ring_ok_def)
  have count: "ring_count (RecordMemory now e m) = min (mr_capacity m) (ring_count m + 1)"
    using c unfolding ring_count_def f by (auto simp: min_def mod_if)
  then show "length (ring_list (RecordMemory now e m)) = length (take (mr_capacity m) (stamp now e # ring_list m))"
    by (simp add: ring_list_def)
  fix i assume "i < length (ring_list (RecordMemory now e m))"
  with count have i: "i < mr_capacity m" "i < ring_count m + 1" by (auto simp: ring_list_def)
  have "ring_list (RecordMemory now e m) ! i =
      (mr_buf m)[mr_head m := stamp now e] ! (if i = 0 then mr_head m else (mr_head m + mr_capacity m - 1 - (i - 1)) mod mr_capacity m)"
    using i count slot_back [OF c(3) i(1)] by (simp add: ring_list_def ring_slot_def f)
  also have "\<dots> = take (mr_capacity m) (stamp now e # ring_list m) ! i"
  proof (cases i)
    case (Suc j)
    with i slot_not_head [OF c(3), of j]
    show ?thesis by (simp add: ring_list_def ring_slot_def)
  qed (use c in simp)
  finally show "ring_list (RecordMemory now e m) ! i = take (mr_capacity m) (stamp now e # ring_list m) ! i" .
qed

definition record_all :: "(int \<times> audit_event) list \<Rightarrow> memory_recorder \<Rightarrow> memory_recorder" where
  "record_all es m = fold (\<lambda>(now, e). RecordMemory now e) es m"

lemma record_all_snoc: "record_all (es @ [(now, e)]) m = RecordMemory now e (record_all es m)"
  by (simp add: record_all_def)

text \<open>Where the head stands and what was dropped after \<open>n\<close> events.\<close>

definition ring_after :: "nat \<Rightarrow> nat \<Rightarrow> memory_recorder \<Rightarrow> bool" where
  "ring_after c n m \<longleftrightarrow> ring_ok m \<and> mr_capacity m = c \<and> mr_head m = n mod c \<and> (mr_full m \<longleftrightarrow> c \<le> n) \<and>
     mr_dropped m = of_nat (n - c)"

lemma ring_after_new: "ring_after (nat (max 1 c)) 0 (NewMemoryRecorder c)"
  by (simp add: ring_after_def NewMemoryRecorder_def ring_ok_def Let_def max_def)

lemma ring_after_record:
  assumes "ring_after c n m" shows "ring_after c (Suc n) (RecordMemory now e m)"
proof -
  from assms have ok: "ring_ok m" and c: "mr_capacity m = c" "mr_head m = n mod c" "mr_full m \<longleftrightarrow> c \<le> n"
    "mr_dropped m = of_nat (n - c)" by (auto simp: ring_after_def)
  note f = RecordMemory_fields [OF ok, of now e]
  have "0 < c" using ok c by (simp add: ring_ok_def)
  have "c \<le> n \<or> n mod c + 1 = c \<longleftrightarrow> c \<le> Suc n"
    using \<open>0 < c\<close> by (cases "n < c") auto
  moreover have "(of_nat (n - c) + (if c \<le> n then 1 else 0) :: 64 word) = of_nat (Suc n - c)"
    by (simp add: Suc_diff_le)
  ultimately show ?thesis
    using ok f c by (simp add: ring_after_def mod_Suc_eq)
qed

lemma record_all_spec:
  "ring_after (nat (max 1 c)) (length es) (record_all es (NewMemoryRecorder c)) \<and>
   ring_list (record_all es (NewMemoryRecorder c)) =
     take (nat (max 1 c)) (rev (map (\<lambda>(now, e). stamp now e) es))"
proof (induction es rule: rev_induct)
  case Nil
  show ?case by (simp add: record_all_def ring_after_new)
next
  case (snoc x es)
  obtain now e where x: "x = (now, e)" by fastforce
  from snoc have "ring_ok (record_all es (NewMemoryRecorder c))"
    and "mr_capacity (record_all es (NewMemoryRecorder c)) = nat (max 1 c)"
    by (auto simp: ring_after_def)
  moreover have "take k (a # take k xs) = take k (a # xs)" for k and a :: audit_event and xs
    by (cases k) (simp_all add: min_def)
  ultimately show ?case
    using snoc ring_after_record [of "nat (max 1 c)" "length es" _ now e]
    by (simp add: x record_all_snoc ring_list_record)
qed

definition newer_than :: "int option \<Rightarrow> audit_event \<Rightarrow> bool" where
  "newer_than since e \<longleftrightarrow> (case since of None \<Rightarrow> True | Some s \<Rightarrow> at_after e s)"

lemma takeWhile_newer_None [simp]: "takeWhile (newer_than None) xs = xs"
  by (simp add: takeWhile_eq_all_conv newer_than_def)

definition at_most :: "int \<Rightarrow> 'a list \<Rightarrow> 'a list" where
  "at_most limit xs = (if limit > 0 then take (nat limit) xs else xs)"

lemma snapshot_loop_spec:
  assumes "limit > 0 \<Longrightarrow> int (length out) < limit"
  shows "snapshot_loop m limit since is out =
    out @ at_most (if limit > 0 then limit - int (length out) else 0) (takeWhile (newer_than since) (map (ring_slot m) is))"
  using assms
proof (induction "is" arbitrary: out)
  case (Cons i "is")
  define e where "e = ring_slot m i"
  show ?case
  proof (cases "newer_than since e")
    case False
    then show ?thesis by (simp add: newer_than_def e_def [symmetric] at_most_def split: option.splits)
  next
    case True
    then have loop: "snapshot_loop m limit since (i # is) out =
        (if limit > 0 \<and> int (length (out @ [e])) \<ge> limit then out @ [e] else snapshot_loop m limit since is (out @ [e]))"
      by (simp add: newer_than_def e_def [symmetric] Let_def split: option.splits)
    show ?thesis
    proof (cases "limit > 0")
      case False
      with Cons.IH [of "out @ [e]"] True loop show ?thesis
        by (simp add: e_def [symmetric] at_most_def)
    next
      case limit: True
      have n: "nat (limit - int (length out)) = Suc (nat (limit - (1 + int (length out))))"
        using limit Cons.prems by simp
      show ?thesis
      proof (cases "int (length (out @ [e])) \<ge> limit")
        case True
        then have "limit - int (length out) = 1" using Cons.prems [OF limit] by simp
        with True limit loop \<open>newer_than since e\<close> show ?thesis
          by (simp add: e_def [symmetric] at_most_def)
      next
        case False
        with Cons.IH [of "out @ [e]"] limit loop \<open>newer_than since e\<close> n show ?thesis
          by (simp add: e_def [symmetric] at_most_def)
      qed
    qed
  qed
qed (simp add: at_most_def)

lemma Snapshot_spec:
  "Snapshot limit since m = (at_most limit (takeWhile (newer_than since) (ring_list m)), mr_dropped m)"
  using snapshot_loop_spec [of limit "[]" m since]
  by (auto simp: Snapshot_def ring_list_def ring_count_def Let_def at_most_def)

section \<open>Properties\<close>

text \<open>C16: After any sequence of events the ring buffer answers as the list of the last
  events, newest first, as many as its capacity (a capacity below one is one): a
  snapshot is its longest prefix newer than the given time, cut at the limit, with
  the number of evicted events modulo 2^64, and the endpoint renders the whole of
  it up to its limit, ignoring a limit that is not a positive number.\<close>

theorem memory_ring_refines_log:
  fixes c :: int and es :: "(int \<times> audit_event) list"
  defines "cap \<equiv> nat (max 1 c)" and "m \<equiv> record_all es (NewMemoryRecorder c)"
    and "log \<equiv> rev (map (\<lambda>(now, e). stamp now e) es)"
  shows "Snapshot limit since m =
      (at_most limit (takeWhile (newer_than since) (take cap log)), of_nat (length es - cap)) \<and>
    ListEvents v m =
      \<lparr> rr_Events = map event_dto (at_most (ring_limit v) (take cap log)),
        rr_Count = length (at_most (ring_limit v) (take cap log)), rr_Capacity = cap,
        rr_Dropped = of_nat (length es - cap) \<rparr>"
proof -
  note spec = record_all_spec [of c es]
  then have r: "ring_list m = take cap log" "mr_dropped m = of_nat (length es - cap)" "mr_capacity m = cap"
    unfolding cap_def m_def log_def ring_after_def by simp_all
  then show ?thesis by (simp add: Snapshot_spec ListEvents_def)
qed

text \<open>The prefix is not the set of newer events when a producer stamps its event
  itself: the walk stops at the first older one.\<close>

lemma snapshot_misses_newer:
  "Snapshot 0 (Some 5) (record_all [(0, zero_event\<lparr> ea_Timestamp := Some 9 \<rparr>), (0, zero_event\<lparr> ea_Timestamp := Some 3 \<rparr>)]
     (NewMemoryRecorder 4)) = ([], 0)"
  by (simp add: Snapshot_spec ring_list_def ring_slot_def ring_count_def record_all_def RecordMemory_def
      NewMemoryRecorder_def Let_def newer_than_def at_after_def stamp_def zero_event_def at_most_def upt_rec)

text \<open>Every recorder of a fan-out is called with the event, whatever the others do.\<close>

lemma MultiRecord_all:
  "MultiRecord rs e s = fold (\<lambda>r s. fst (r e s)) (List.map_filter id rs) s"
  by (induction rs e s rule: MultiRecord.induct) (simp_all add: List.map_filter_simps)

end
