(* ===== verification/Workspace.thy ===== *)
theory Workspace
  imports AuditLog "HOL-Library.List_Lexorder"
begin

text \<open>
  \<^verbatim>\<open>internal/workspace\<close>: slugs (\<^verbatim>\<open>slug.go\<close>), the error catalogue
  (\<^verbatim>\<open>errors.go\<close>), the statements of \<^verbatim>\<open>repository.go\<close> and the service
  operations of \<^verbatim>\<open>service.go\<close>, each mutation in one transaction with its
  audit row.

  Lemmas: a derived slug satisfies the pattern the database checks; every
  mutation is atomic with its record; the table's invariant (unique ids and
  slugs, valid unreserved slugs, status and timestamp in agreement) and its
  one-way life cycle are preserved by every operation.
\<close>

section \<open>Errors\<close>

definition WsErrNotFound :: go_error where
  "WsErrNotFound = AppError ''workspace_not_found'' ''Workspace not found'' 404"
definition WsErrSlugTaken :: go_error where
  "WsErrSlugTaken = AppError ''workspace_slug_taken'' ''A workspace with this slug already exists'' 409"
definition WsErrSlugReserved :: go_error where
  "WsErrSlugReserved = AppError ''workspace_slug_reserved'' ''This slug is reserved by the platform'' 400"
definition WsErrSlugInvalid :: go_error where
  "WsErrSlugInvalid = AppError ''workspace_slug_invalid'' ''Slug must be lowercase alphanumeric groups separated by single hyphens, at most 63 characters'' 400"
definition WsErrNameRequired :: go_error where
  "WsErrNameRequired = AppError ''workspace_name_required'' ''Name is required'' 400"
definition WsErrArchived :: go_error where
  "WsErrArchived = AppError ''workspace_archived'' ''Workspace is archived and cannot be modified'' 409"
definition WsErrInvalidID :: go_error where
  "WsErrInvalidID = AppError ''invalid_workspace_id'' ''Workspace id must be in the form ws_<uuid>'' 400"
definition WsErrInvalidStatusFilter :: go_error where
  "WsErrInvalidStatusFilter = AppError ''invalid_status_filter'' ''status must be one of: active, archived, all'' 400"
definition WsErrInvalidRequest :: go_error where
  "WsErrInvalidRequest = AppError ''invalid_request'' ''Request body is invalid'' 400"

section \<open>Slugs\<close>

definition maxSlugLength :: nat where "maxSlugLength = 63"
definition maxNameLength :: nat where "maxNameLength = 200"

definition is_alnum :: "char \<Rightarrow> bool" where
  "is_alnum c \<longleftrightarrow> is_lower c \<or> is_digit c"

text \<open>The pattern \<^verbatim>\<open>^[a-z0-9]+(-[a-z0-9]+)*$\<close> as its automaton: the state says
  whether a group is about to start, \<^const>\<open>None\<close> is the dead state.\<close>

fun slug_step :: "bool option \<Rightarrow> char \<Rightarrow> bool option" where
  "slug_step None c = None"
| "slug_step (Some fresh) c =
     (if is_alnum c then Some False
      else if c = CHR ''-'' \<and> \<not> fresh then Some True
      else None)"

definition slugPattern :: "string \<Rightarrow> bool" where
  "slugPattern s \<longleftrightarrow> foldl slug_step (Some True) s = Some False"

definition reservedSlugs :: "string list" where
  "reservedSlugs =
     [''admin'', ''api'', ''system'', ''health'', ''static'', ''docs'', ''swagger'', ''v1'']"

definition NormalizeSlug :: "(string \<Rightarrow> string) \<Rightarrow> string \<Rightarrow> string" where
  "NormalizeSlug u s = to_lower u (trim_space s)"

definition trim_hyphen :: "string \<Rightarrow> string" where
  "trim_hyphen s = (if s \<noteq> [] \<and> last s = CHR ''-'' then butlast s else s)"

text \<open>The loop of SlugFromName ranges over runes; a rune outside ASCII is two to
  four bytes, none of them alphanumeric, which collapse to the same single
  hyphen, so ranging over bytes writes the same string.\<close>

fun slug_loop :: "string \<Rightarrow> bool \<Rightarrow> string \<Rightarrow> string" where
  "slug_loop [] lastWasHyphen b = b"
| "slug_loop (c # cs) lastWasHyphen b =
     (if is_alnum c then slug_loop cs False (b @ [c])
      else if \<not> lastWasHyphen then slug_loop cs True (b @ ''-'')
      else slug_loop cs lastWasHyphen b)"

definition SlugFromName :: "(string \<Rightarrow> string) \<Rightarrow> string \<Rightarrow> string" where
  "SlugFromName u name =
     (let out = trim_hyphen (slug_loop (to_lower u (trim_space name)) True []) in
      if length out > maxSlugLength then trim_hyphen (take maxSlugLength out) else out)"

definition ValidateSlug :: "string \<Rightarrow> go_error + unit" where
  "ValidateSlug slug =
     (if slug = [] \<or> length slug > maxSlugLength \<or> \<not> slugPattern slug then Inl WsErrSlugInvalid
      else if slug \<in> set reservedSlugs then Inl WsErrSlugReserved
      else Inr ())"

definition IsReservedSlug :: "(string \<Rightarrow> string) \<Rightarrow> string \<Rightarrow> bool" where
  "IsReservedSlug u slug \<longleftrightarrow> NormalizeSlug u slug \<in> set reservedSlugs"

definition ws_normalizeName :: "string \<Rightarrow> string" where
  "ws_normalizeName name = trim_space name"

section \<open>The domain value\<close>

definition ws_PublicID :: "workspace \<Rightarrow> string" where
  "ws_PublicID w = Format WorkspacePrefix (ws_ID w)"

definition ws_IsArchived :: "workspace \<Rightarrow> bool" where
  "ws_IsArchived w \<longleftrightarrow> ws_Status w = StatusArchived"

section \<open>The repository\<close>

datatype status_filter = FilterActive | FilterArchived | FilterAll

definition ParseStatusFilter :: "string \<Rightarrow> go_error + status_filter" where
  "ParseStatusFilter raw =
     (if raw = [] then Inr FilterActive
      else if raw = ''active'' then Inr FilterActive
      else if raw = ''archived'' then Inr FilterArchived
      else if raw = ''all'' then Inr FilterAll
      else Inl WsErrInvalidStatusFilter)"

text \<open>PostgreSQL's \<^verbatim>\<open>btrim\<close> removes blanks only.\<close>

definition sql_blank :: "string \<Rightarrow> bool" where
  "sql_blank s \<longleftrightarrow> list_all (\<lambda>c. c = CHR '' '') s"

definition ws_constraints :: "workspace \<Rightarrow> bool" where
  "ws_constraints w \<longleftrightarrow>
     (ws_Status w = StatusArchived) = (ws_ArchivedAt w \<noteq> None) \<and>
     slugPattern (ws_Slug w) \<and> length (ws_Slug w) \<le> 63 \<and> \<not> sql_blank (ws_Name w)"

definition ws_insert :: "workspace \<Rightarrow> db \<Rightarrow> go_error + unit \<times> db" where
  "ws_insert w d =
     (if \<not> ws_constraints w then Inl ErrDriver
      else if ws_ID w \<in> ws_ID ` set (db_workspaces d) \<or> ws_Slug w \<in> ws_Slug ` set (db_workspaces d)
      then Inl ErrDuplicatedKey
      else Inr ((), d\<lparr> db_workspaces := db_workspaces d @ [w] \<rparr>))"

definition wsr_Create :: "workspace \<Rightarrow> unit act" where
  "wsr_Create w = catch (stmt (ws_insert w)) (\<lambda>e. if e = ErrDuplicatedKey then WsErrSlugTaken else e)"

definition wsr_GetByID :: "string \<Rightarrow> workspace option act" where
  "wsr_GetByID i = query (\<lambda>d. find (\<lambda>w. ws_ID w = i) (db_workspaces d))"

definition filter_accepts :: "status_filter \<Rightarrow> workspace \<Rightarrow> bool" where
  "filter_accepts f w =
     (case f of FilterAll \<Rightarrow> True
      | FilterActive \<Rightarrow> ws_Status w = StatusActive
      | FilterArchived \<Rightarrow> ws_Status w = StatusArchived)"

text \<open>ORDER BY name, id: a sort by id and then, stably, by name. The order on names is
  the byte order; a database with another collation orders them by that.\<close>

definition wsr_List :: "status_filter \<Rightarrow> workspace list act" where
  "wsr_List f = query (\<lambda>d.
     sort_key ws_Name (sort_key ws_ID (filter (filter_accepts f) (db_workspaces d))))"

definition ws_active_row :: "string \<Rightarrow> workspace \<Rightarrow> bool" where
  "ws_active_row i w \<longleftrightarrow> ws_ID w = i \<and> ws_Status w = StatusActive"

definition ws_update :: "string \<Rightarrow> (workspace \<Rightarrow> workspace) \<Rightarrow> nat act" where
  "ws_update i f = stmt (\<lambda>d.
     let (rows, n) = update_where (ws_active_row i) f (db_workspaces d) in
     if list_all ws_constraints (map f (filter (ws_active_row i) (db_workspaces d)))
     then Inr (n, d\<lparr> db_workspaces := rows \<rparr>) else Inl ErrDriver)"

definition wsr_UpdateName :: "string \<Rightarrow> string \<Rightarrow> int \<Rightarrow> workspace option act" where
  "wsr_UpdateName i name now = InTx
     (andThen (ws_update i (\<lambda>w. w\<lparr> ws_Name := name, ws_UpdatedAt := now \<rparr>)) (\<lambda>affected.
      andThen (wsr_GetByID i) (\<lambda>current.
        case current of
          None \<Rightarrow> ret None
        | Some row \<Rightarrow>
            if affected = 0 \<and> ws_Status row = StatusArchived then fail WsErrArchived
            else ret (Some row))))"

definition wsr_Archive :: "string \<Rightarrow> int \<Rightarrow> workspace option act" where
  "wsr_Archive i now = InTx
     (andThen (ws_update i (\<lambda>w. w\<lparr> ws_Status := StatusArchived, ws_ArchivedAt := Some now,
         ws_UpdatedAt := now \<rparr>)) (\<lambda>_. wsr_GetByID i))"

section \<open>The service\<close>

definition ws_event :: "workspace \<Rightarrow> audit_event \<Rightarrow> audit_event" where
  "ws_event w ev = ev\<lparr> ea_Workspace := ws_PublicID w,
     ea_Target := \<lparr> tg_Kind = ''workspace'', tg_ID = ws_PublicID w, tg_Name = [] \<rparr> \<rparr>"

definition ws_resolveID :: "string \<Rightarrow> go_error + string" where
  "ws_resolveID public_id =
     (case Parse WorkspacePrefix public_id of Inl _ \<Rightarrow> Inl WsErrInvalidID | Inr i \<Rightarrow> Inr i)"

definition ws_chosen_slug :: "(string \<Rightarrow> string) \<Rightarrow> string \<Rightarrow> string \<Rightarrow> string" where
  "ws_chosen_slug u name raw =
     (let slug = NormalizeSlug u raw in if slug = [] then SlugFromName u name else slug)"

text \<open>The arguments after the input are the random bytes of the new id, the clock and
  what the recorder draws.\<close>

definition ws_Create ::
  "string \<Rightarrow> string \<Rightarrow> audit_event \<Rightarrow> go_error + 8 word list \<Rightarrow> int \<Rightarrow> audit_env \<Rightarrow> workspace act" where
  "ws_Create in_name in_slug ev rnd now en =
     (let name = ws_normalizeName in_name; slug = ws_chosen_slug (en_u en) name in_slug in
      andThen (require (name \<noteq> []) WsErrNameRequired) (\<lambda>_.
      andThen (require (length name \<le> maxNameLength) WsErrInvalidRequest) (\<lambda>_.
      andThen (lift_result (ValidateSlug slug)) (\<lambda>_.
      andThen (lift_result (New rnd)) (\<lambda>i.
        let w = \<lparr> ws_ID = i, ws_Slug = slug, ws_Name = name, ws_Status = StatusActive,
                  ws_CreatedAt = now, ws_UpdatedAt = now, ws_ArchivedAt = None \<rparr>
        in InTx (andThen (andThen (wsr_Create w) (\<lambda>_. ret w)) (\<lambda>w.
             andThen (RecordTx en (ws_event w ev)) (\<lambda>_. ret w))))))))"

definition found :: "'a option act \<Rightarrow> go_error \<Rightarrow> 'a act" where
  "found m e = andThen m (\<lambda>r. case r of None \<Rightarrow> fail e | Some x \<Rightarrow> ret x)"

definition ws_Get :: "string \<Rightarrow> workspace act" where
  "ws_Get public_id = andThen (lift_result (ws_resolveID public_id)) (\<lambda>i.
     found (wsr_GetByID i) WsErrNotFound)"

definition ws_List :: "string \<Rightarrow> workspace list act" where
  "ws_List raw = andThen (lift_result (ParseStatusFilter raw)) wsr_List"

definition ws_UpdateName ::
  "string \<Rightarrow> string \<Rightarrow> audit_event \<Rightarrow> int \<Rightarrow> audit_env \<Rightarrow> workspace act" where
  "ws_UpdateName public_id in_name ev now en =
     andThen (lift_result (ws_resolveID public_id)) (\<lambda>i.
       let name = ws_normalizeName in_name in
       andThen (require (name \<noteq> []) WsErrNameRequired) (\<lambda>_.
       andThen (require (length name \<le> maxNameLength) WsErrInvalidRequest) (\<lambda>_.
         InTx (andThen (found (wsr_UpdateName i name now) WsErrNotFound) (\<lambda>w.
           andThen (RecordTx en (ws_event w ev)) (\<lambda>_. ret w))))))"

definition ws_Archive :: "string \<Rightarrow> audit_event \<Rightarrow> int \<Rightarrow> audit_env \<Rightarrow> workspace act" where
  "ws_Archive public_id ev now en =
     andThen (lift_result (ws_resolveID public_id)) (\<lambda>i.
       InTx (andThen (found (wsr_Archive i now) WsErrNotFound) (\<lambda>w.
         andThen (RecordTx en (ws_event w ev)) (\<lambda>_. ret w))))"

section \<open>Slug lemmas\<close>

lemma slug_dead [simp]: "foldl slug_step None s = None"
  by (induction s) auto

lemma hyphen_not_alnum [simp]: "\<not> is_alnum CHR ''-''"
  by (simp add: is_alnum_def is_lower_def is_digit_def in_range_def less_eq_char_def)

lemma slug_loop_state:
  "foldl slug_step (Some True) b = Some l \<Longrightarrow>
     \<exists>l'. foldl slug_step (Some True) (slug_loop cs l b) = Some l'"
  by (induction cs l b rule: slug_loop.induct) auto

lemma slug_state_prefix:
  assumes "foldl slug_step (Some True) s = Some l"
  shows "\<exists>l'. foldl slug_step (Some True) (take n s) = Some l'"
proof -
  have "foldl slug_step (foldl slug_step (Some True) (take n s)) (drop n s) = Some l"
    using assms by (metis append_take_drop_id foldl_append)
  then show ?thesis by (cases "foldl slug_step (Some True) (take n s)") auto
qed

lemma trim_hyphen_pattern:
  assumes "foldl slug_step (Some True) s = Some l"
  shows "trim_hyphen s = [] \<or> slugPattern (trim_hyphen s)"
proof (cases s rule: rev_cases)
  case (snoc t c)
  with assms obtain m where m: "foldl slug_step (Some True) t = Some m"
    by (cases "foldl slug_step (Some True) t") auto
  with assms snoc show ?thesis
    by (auto simp: trim_hyphen_def slugPattern_def split: if_splits)
qed (simp add: trim_hyphen_def)

lemma trim_hyphen_length: "length (trim_hyphen s) \<le> length s"
  by (simp add: trim_hyphen_def)

text \<open>A slug derived from any display name, in any script, is either empty (the
  caller must then choose one) or satisfies the pattern and the length the
  database checks, so it is never refused later as malformed.\<close>

theorem SlugFromName_valid:
  "SlugFromName u name = [] \<or>
   (slugPattern (SlugFromName u name) \<and> length (SlugFromName u name) \<le> 63)"
proof -
  let ?b = "slug_loop (to_lower u (trim_space name)) True []"
  obtain l where l: "foldl slug_step (Some True) ?b = Some l"
    using slug_loop_state [of "[]" True] by auto
  let ?o = "trim_hyphen ?b"
  have o: "?o = [] \<or> slugPattern ?o" by (rule trim_hyphen_pattern [OF l])
  show ?thesis
  proof (cases "length ?o > 63")
    case True
    with o have "foldl slug_step (Some True) ?o = Some False" by (auto simp: slugPattern_def)
    then obtain l' where "foldl slug_step (Some True) (take 63 ?o) = Some l'"
      using slug_state_prefix by blast
    from trim_hyphen_pattern [OF this] trim_hyphen_length [of "take 63 ?o"] True
    show ?thesis by (auto simp: SlugFromName_def Let_def maxSlugLength_def)
  next
    case False
    with o show ?thesis by (auto simp: SlugFromName_def Let_def maxSlugLength_def)
  qed
qed

section \<open>Statement lemmas\<close>

lemma ws_insert_Inr:
  "ws_insert w d = Inr (x, d') \<Longrightarrow> d' = d\<lparr> db_workspaces := db_workspaces d @ [w] \<rparr> \<and>
     ws_constraints w \<and> ws_ID w \<notin> ws_ID ` set (db_workspaces d) \<and>
     ws_Slug w \<notin> ws_Slug ` set (db_workspaces d)"
  by (auto simp: ws_insert_def split: if_splits)

lemma wsr_Create_Inr:
  "wsr_Create w s = (Inr x, s') \<Longrightarrow>
     w_db s' = (w_db s)\<lparr> db_workspaces := db_workspaces (w_db s) @ [w] \<rparr> \<and>
     ws_constraints w \<and> ws_ID w \<notin> ws_ID ` set (db_workspaces (w_db s)) \<and>
     ws_Slug w \<notin> ws_Slug ` set (db_workspaces (w_db s))"
  by (auto simp: wsr_Create_def dest!: stmt_Inr ws_insert_Inr)

lemma ws_update_Inr:
  "ws_update i f s = (Inr n, s') \<Longrightarrow>
     w_db s' = (w_db s)\<lparr> db_workspaces :=
       map (\<lambda>r. if ws_active_row i r then f r else r) (db_workspaces (w_db s)) \<rparr> \<and>
     n = length (filter (ws_active_row i) (db_workspaces (w_db s))) \<and>
     list_all ws_constraints (map f (filter (ws_active_row i) (db_workspaces (w_db s))))"
  unfolding ws_update_def by (drule stmt_Inr) (auto simp: update_where_def split: if_splits)

lemma wsr_GetByID_Inr:
  "wsr_GetByID i s = (Inr r, s') \<Longrightarrow>
     r = find (\<lambda>w. ws_ID w = i) (db_workspaces (w_db s)) \<and> w_db s' = w_db s"
  unfolding wsr_GetByID_def by (rule query_Inr)

lemma found_Inr [simp]: "found m e s = (Inr x, s') \<longleftrightarrow> m s = (Inr (Some x), s')"
  by (auto simp: found_def split: option.splits)

lemma find_by_id: "find (\<lambda>w. ws_ID w = i) ws = Some w \<Longrightarrow> w \<in> set ws \<and> ws_ID w = i"
  by (metis (mono_tags, lifting) find_Some_iff nth_mem)

lemma read_only_found [reads]: "read_only m \<Longrightarrow> read_only (found m e)"
  unfolding found_def by (intro reads) (auto split: option.split intro: reads)

lemma read_only_wsr_GetByID [reads]: "read_only (wsr_GetByID i)"
  unfolding wsr_GetByID_def by (rule reads)

lemma find_Some: "find P xs = Some x \<Longrightarrow> x \<in> set xs \<and> P x"
  by (metis find_Some_iff nth_mem)

lemma find_Some_sym: "Some x = find P xs \<Longrightarrow> x \<in> set xs \<and> P x"
  by (rule find_Some) simp

lemmas find_dests = find_Some find_Some_sym

text \<open>The effect of the guarded update, as the two operations that use it see it.\<close>

definition ws_rewrite :: "string \<Rightarrow> (workspace \<Rightarrow> workspace) \<Rightarrow> workspace list \<Rightarrow> workspace list" where
  "ws_rewrite i f rows = map (\<lambda>r. if ws_active_row i r then f r else r) rows"

abbreviation rename_row :: "string \<Rightarrow> int \<Rightarrow> workspace \<Rightarrow> workspace" where
  "rename_row name now w \<equiv> w\<lparr> ws_Name := name, ws_UpdatedAt := now \<rparr>"

abbreviation archive_row :: "int \<Rightarrow> workspace \<Rightarrow> workspace" where
  "archive_row now w \<equiv>
     w\<lparr> ws_Status := StatusArchived, ws_ArchivedAt := Some now, ws_UpdatedAt := now \<rparr>"

lemma wsr_UpdateName_Inr:
  assumes "wsr_UpdateName i name now s = (Inr (Some row), s')"
  shows "w_db s' = (w_db s)\<lparr> db_workspaces := ws_rewrite i (rename_row name now) (db_workspaces (w_db s)) \<rparr>"
    and "list_all ws_constraints (map (rename_row name now) (filter (ws_active_row i) (db_workspaces (w_db s))))"
    and "row \<in> set (db_workspaces (w_db s')) \<and> ws_ID row = i"
proof -
  from assms obtain s1 n s2 cur where
    u: "ws_update i (rename_row name now) s = (Inr n, s1)" and
    g: "wsr_GetByID i s1 = (Inr (Some row), s2)" and d: "w_db s' = w_db s2"
    unfolding wsr_UpdateName_def
    by (elim InTx_Inr) (auto split: option.splits if_splits)
  from ws_update_Inr [OF u] wsr_GetByID_Inr [OF g] d
  show "w_db s' = (w_db s)\<lparr> db_workspaces := ws_rewrite i (rename_row name now) (db_workspaces (w_db s)) \<rparr>"
    "list_all ws_constraints (map (rename_row name now) (filter (ws_active_row i) (db_workspaces (w_db s))))"
    by (auto simp: ws_rewrite_def)
  from wsr_GetByID_Inr [OF g] d find_by_id show "row \<in> set (db_workspaces (w_db s')) \<and> ws_ID row = i"
    by metis
qed

lemma wsr_Archive_Inr:
  assumes "wsr_Archive i now s = (Inr (Some row), s')"
  shows "w_db s' = (w_db s)\<lparr> db_workspaces := ws_rewrite i (archive_row now) (db_workspaces (w_db s)) \<rparr>"
    and "list_all ws_constraints (map (archive_row now) (filter (ws_active_row i) (db_workspaces (w_db s))))"
    and "row \<in> set (db_workspaces (w_db s')) \<and> ws_ID row = i"
proof -
  from assms obtain s1 n s2 where
    u: "ws_update i (archive_row now) s = (Inr n, s1)" and
    g: "wsr_GetByID i s1 = (Inr (Some row), s2)" and d: "w_db s' = w_db s2"
    unfolding wsr_Archive_def by (elim InTx_Inr) auto
  from ws_update_Inr [OF u] wsr_GetByID_Inr [OF g] d
  show "w_db s' = (w_db s)\<lparr> db_workspaces := ws_rewrite i (archive_row now) (db_workspaces (w_db s)) \<rparr>"
    "list_all ws_constraints (map (archive_row now) (filter (ws_active_row i) (db_workspaces (w_db s))))"
    by (auto simp: ws_rewrite_def)
  from wsr_GetByID_Inr [OF g] d find_by_id show "row \<in> set (db_workspaces (w_db s')) \<and> ws_ID row = i"
    by metis
qed

section \<open>The mutations together\<close>

text \<open>The three mutating requests, with the values each draws; the audit event's actor
  and free text are arbitrary.\<close>

datatype ws_op =
    WsCreate string string "go_error + 8 word list"
  | WsRename string string
  | WsArchive string

fun ws_run_op :: "ws_op \<Rightarrow> audit_event \<Rightarrow> int \<Rightarrow> audit_env \<Rightarrow> workspace act" where
  "ws_run_op (WsCreate name slug rnd) ev now en = ws_Create name slug ev rnd now en"
| "ws_run_op (WsRename pid name) ev now en = ws_UpdateName pid name ev now en"
| "ws_run_op (WsArchive pid) ev now en = ws_Archive pid ev now en"

text \<open>The database effect of a successful mutation before its audit row.\<close>

inductive ws_effect :: "ws_op \<Rightarrow> workspace \<Rightarrow> workspace list \<Rightarrow> workspace list \<Rightarrow> bool" where
  created: "New rnd = Inr (ws_ID w) \<Longrightarrow> ws_constraints w \<Longrightarrow> ws_Status w = StatusActive \<Longrightarrow>
    ws_Slug w \<notin> set reservedSlugs \<Longrightarrow> ws_ID w \<notin> ws_ID ` set rows \<Longrightarrow>
    ws_Slug w \<notin> ws_Slug ` set rows \<Longrightarrow>
    ws_effect (WsCreate name slug rnd) w rows (rows @ [w])"
| renamed: "Parse WorkspacePrefix pid = Inr i \<Longrightarrow> w \<in> set (ws_rewrite i (rename_row n now) rows) \<Longrightarrow>
    ws_ID w = i \<Longrightarrow> list_all ws_constraints (map (rename_row n now) (filter (ws_active_row i) rows)) \<Longrightarrow>
    ws_effect (WsRename pid name) w rows (ws_rewrite i (rename_row n now) rows)"
| archived: "Parse WorkspacePrefix pid = Inr i \<Longrightarrow> w \<in> set (ws_rewrite i (archive_row now) rows) \<Longrightarrow>
    ws_ID w = i \<Longrightarrow> list_all ws_constraints (map (archive_row now) (filter (ws_active_row i) rows)) \<Longrightarrow>
    ws_effect (WsArchive pid) w rows (ws_rewrite i (archive_row now) rows)"

lemma resolveID_Inr: "ws_resolveID pid = Inr i \<longleftrightarrow> Parse WorkspacePrefix pid = Inr i"
  by (simp add: ws_resolveID_def split: sum.splits)

lemma ValidateSlug_Inr: "ValidateSlug s = Inr u \<longleftrightarrow>
    s \<noteq> [] \<and> length s \<le> 63 \<and> slugPattern s \<and> s \<notin> set reservedSlugs"
  by (auto simp: ValidateSlug_def maxSlugLength_def)

lemma ws_Create_atomic:
  assumes "ws_Create name slug ev rnd now en w = (r, w')"
  shows "atomic_outcome (\<lambda>x d1 row. describes en row (ws_event x ev) \<and> d1 = (w_db w)\<lparr> db_workspaces := db_workspaces d1 \<rparr> \<and>
      ws_effect (WsCreate name slug rnd) x (db_workspaces (w_db w)) (db_workspaces d1))
    (w_db w) r (w_db w')"
proof -
  let ?name = "ws_normalizeName name" and ?slug = "ws_chosen_slug (en_u en) (ws_normalizeName name) slug"
  show ?thesis
  proof (cases "?name \<noteq> [] \<and> length ?name \<le> maxNameLength \<and> ValidateSlug ?slug = Inr ()
      \<and> (\<exists>i. New rnd = Inr i)")
    case False
    with assms have "\<exists>e. r = Inl e \<and> w' = w"
      by (auto simp: ws_Create_def Let_def act_simps split: sum.splits if_splits)
    then show ?thesis using atomic_fail by auto
  next
    case True
    then obtain i where i: "New rnd = Inr i" by blast
    define row where "row = \<lparr> ws_ID = i, ws_Slug = ?slug, ws_Name = ?name, ws_Status = StatusActive,
      ws_CreatedAt = now, ws_UpdatedAt = now, ws_ArchivedAt = None \<rparr>"
    have "InTx (andThen (andThen (wsr_Create row) (\<lambda>_. ret row)) (\<lambda>x.
        andThen (RecordTx en (ws_event x ev)) (\<lambda>_. ret x))) w = (r, w')"
      using assms True i by (simp add: ws_Create_def Let_def act_simps row_def)
    then show ?thesis
    proof (rule atomic_InTx)
      fix x w1 arow assume d: "describes en arow (ws_event x ev)" and "andThen (wsr_Create row) (\<lambda>_. ret row) w = (Inr x, w1)"
      then obtain u where m: "wsr_Create row w = (Inr u, w1)" and x: "x = row" by auto
      from wsr_Create_Inr [OF m] True i
      d show "describes en arow (ws_event x ev) \<and>
        w_db w1 = (w_db w)\<lparr> db_workspaces := db_workspaces (w_db w1) \<rparr> \<and>
        ws_effect (WsCreate name slug rnd) x (db_workspaces (w_db w)) (db_workspaces (w_db w1))"
        by (auto simp: x ValidateSlug_Inr row_def intro!: ws_effect.created)
    qed
  qed
qed

lemma ws_UpdateName_atomic:
  assumes "ws_UpdateName pid name ev now en w = (r, w')"
  shows "atomic_outcome (\<lambda>x d1 row. describes en row (ws_event x ev) \<and> d1 = (w_db w)\<lparr> db_workspaces := db_workspaces d1 \<rparr> \<and>
      ws_effect (WsRename pid name) x (db_workspaces (w_db w)) (db_workspaces d1))
    (w_db w) r (w_db w')"
proof (cases "ws_resolveID pid")
  case (Inr i)
  let ?n = "ws_normalizeName name"
  show ?thesis
  proof (cases "?n \<noteq> [] \<and> length ?n \<le> maxNameLength")
    case True
    with assms Inr have "InTx (andThen (found (wsr_UpdateName i ?n now) WsErrNotFound) (\<lambda>x.
        andThen (RecordTx en (ws_event x ev)) (\<lambda>_. ret x))) w = (r, w')"
      by (simp add: ws_UpdateName_def Let_def act_simps)
    then show ?thesis
    proof (rule atomic_InTx)
      fix x w1 arow assume d: "describes en arow (ws_event x ev)" and "found (wsr_UpdateName i ?n now) WsErrNotFound w = (Inr x, w1)"
      then have m: "wsr_UpdateName i ?n now w = (Inr (Some x), w1)" by simp
      from wsr_UpdateName_Inr [OF m] Inr
      d show "describes en arow (ws_event x ev) \<and>
        w_db w1 = (w_db w)\<lparr> db_workspaces := db_workspaces (w_db w1) \<rparr> \<and>
        ws_effect (WsRename pid name) x (db_workspaces (w_db w)) (db_workspaces (w_db w1))"
        by (auto simp: resolveID_Inr intro!: ws_effect.renamed)
    qed
  next
    case False
    with assms Inr have "\<exists>e. r = Inl e \<and> w' = w"
      by (auto simp: ws_UpdateName_def Let_def act_simps split: if_splits)
    then show ?thesis using atomic_fail by auto
  qed
next
  case (Inl e)
  with assms show ?thesis by (auto simp: ws_UpdateName_def act_simps atomic_fail)
qed

lemma ws_Archive_atomic:
  assumes "ws_Archive pid ev now en w = (r, w')"
  shows "atomic_outcome (\<lambda>x d1 row. describes en row (ws_event x ev) \<and> d1 = (w_db w)\<lparr> db_workspaces := db_workspaces d1 \<rparr> \<and>
      ws_effect (WsArchive pid) x (db_workspaces (w_db w)) (db_workspaces d1))
    (w_db w) r (w_db w')"
proof (cases "ws_resolveID pid")
  case (Inr i)
  with assms have "InTx (andThen (found (wsr_Archive i now) WsErrNotFound) (\<lambda>x.
      andThen (RecordTx en (ws_event x ev)) (\<lambda>_. ret x))) w = (r, w')"
    by (simp add: ws_Archive_def act_simps)
  then show ?thesis
  proof (rule atomic_InTx)
    fix x w1 arow assume d: "describes en arow (ws_event x ev)" and "found (wsr_Archive i now) WsErrNotFound w = (Inr x, w1)"
    then have m: "wsr_Archive i now w = (Inr (Some x), w1)" by simp
    from wsr_Archive_Inr [OF m] Inr
    d show "describes en arow (ws_event x ev) \<and>
        w_db w1 = (w_db w)\<lparr> db_workspaces := db_workspaces (w_db w1) \<rparr> \<and>
      ws_effect (WsArchive pid) x (db_workspaces (w_db w)) (db_workspaces (w_db w1))"
      by (auto simp: resolveID_Inr intro!: ws_effect.archived)
  qed
next
  case (Inl e)
  with assms show ?thesis by (auto simp: ws_Archive_def act_simps atomic_fail)
qed

lemma ws_run_op_atomic:
  assumes "ws_run_op op ev now en w = (r, w')"
  shows "atomic_outcome (\<lambda>x d1 row. describes en row (ws_event x ev) \<and> d1 = (w_db w)\<lparr> db_workspaces := db_workspaces d1 \<rparr> \<and>
      ws_effect op x (db_workspaces (w_db w)) (db_workspaces d1)) (w_db w) r (w_db w')"
  using assms ws_Create_atomic ws_UpdateName_atomic ws_Archive_atomic by (cases op) auto

section \<open>The invariant and the life cycle\<close>

definition ws_table_ok :: "workspace list \<Rightarrow> bool" where
  "ws_table_ok rows \<longleftrightarrow>
     distinct (map ws_ID rows) \<and> distinct (map ws_Slug rows) \<and> list_all ws_constraints rows \<and>
     list_all (\<lambda>w. ws_Slug w \<notin> set reservedSlugs) rows"

text \<open>What may happen to one row: its identity, slug and creation time never change,
  and once archived nothing changes.\<close>

definition ws_row_evolves :: "workspace \<Rightarrow> workspace \<Rightarrow> bool" where
  "ws_row_evolves a b \<longleftrightarrow>
     ws_ID b = ws_ID a \<and> ws_Slug b = ws_Slug a \<and> ws_CreatedAt b = ws_CreatedAt a \<and>
     (if ws_IsArchived a then b = a else True)"

interpretation ws_row: evolving ws_row_evolves
  by unfold_locales (auto simp: ws_row_evolves_def split: if_splits)

abbreviation ws_evolves :: "workspace list \<Rightarrow> workspace list \<Rightarrow> bool" where
  "ws_evolves \<equiv> grows ws_row_evolves"

lemma ws_rewrite_evolves:
  assumes "\<And>w. ws_IsArchived w \<or> ws_row_evolves w (f w)"
  shows "ws_evolves rows (ws_rewrite i f rows)"
proof -
  have "ws_row_evolves r (if ws_active_row i r then f r else r)" for r
    using assms [of r] by (auto simp: ws_active_row_def ws_IsArchived_def ws_row.evolves_refl)
  then show ?thesis unfolding ws_rewrite_def by (rule ws_row.grows_map)
qed

lemma ws_rewrite_ok:
  assumes "ws_table_ok rows" and "list_all ws_constraints (map f (filter (ws_active_row i) rows))"
    and "\<And>w. ws_ID (f w) = ws_ID w \<and> ws_Slug (f w) = ws_Slug w"
  shows "ws_table_ok (ws_rewrite i f rows)"
proof -
  have keys: "map ws_ID (ws_rewrite i f rows) = map ws_ID rows"
    "map ws_Slug (ws_rewrite i f rows) = map ws_Slug rows"
    using assms(3) by (auto simp: ws_rewrite_def)
  have "list_all ws_constraints (ws_rewrite i f rows) \<and>
      list_all (\<lambda>w. ws_Slug w \<notin> set reservedSlugs) (ws_rewrite i f rows)"
    using assms by (auto simp: ws_table_ok_def list_all_iff ws_rewrite_def)
  with assms(1) show ?thesis by (simp add: ws_table_ok_def keys)
qed

lemma ws_effect_keeps:
  assumes "ws_effect op w rows rows'" and "ws_table_ok rows"
  shows "ws_table_ok rows' \<and> ws_evolves rows rows' \<and> w \<in> set rows'"
  using assms
proof (cases rule: ws_effect.cases)
  case created
  with assms show ?thesis
    by (auto simp: ws_table_ok_def ws_row.grows_append)
next
  case (renamed pid i n now name)
  with assms show ?thesis
    by (auto intro!: ws_rewrite_ok ws_rewrite_evolves simp: ws_row_evolves_def split: if_splits)
next
  case (archived pid i now)
  with assms show ?thesis
    by (auto intro!: ws_rewrite_ok ws_rewrite_evolves simp: ws_row_evolves_def split: if_splits)
qed

fun ws_run_all :: "(ws_op \<times> audit_event \<times> int \<times> audit_env) list \<Rightarrow> world \<Rightarrow> world" where
  "ws_run_all [] w = w"
| "ws_run_all ((op, ev, now, en) # ops) w = ws_run_all ops (snd (ws_run_op op ev now en w))"

lemma ws_run_op_keeps:
  assumes "ws_table_ok (db_workspaces (w_db w))"
  shows "ws_table_ok (db_workspaces (w_db (snd (ws_run_op op ev now en w)))) \<and>
     ws_evolves (db_workspaces (w_db w)) (db_workspaces (w_db (snd (ws_run_op op ev now en w))))"
proof -
  obtain r w' where r: "ws_run_op op ev now en w = (r, w')" by (cases "ws_run_op op ev now en w")
  from ws_run_op_atomic [OF r] assms ws_effect_keeps show ?thesis
    by (cases r) (fastforce simp: r atomic_outcome_def with_audit_def ws_row.grows_refl)+
qed

section \<open>Properties\<close>

text \<open>Every workspace mutation, whichever statement fails and wherever, either
  leaves the whole database untouched or changes only the workspace table and
  appends exactly one audit row, and that row names the workspace it returned.\<close>

theorem workspace_mutation_atomic:
  assumes "ws_run_op op ev now en w = (r, w')"
  shows "case r of
       Inl _ \<Rightarrow> w_db w' = w_db w
     | Inr x \<Rightarrow> \<exists>row. w_db w' = (w_db w)\<lparr> db_workspaces := db_workspaces (w_db w'),
           db_audit := db_audit (w_db w) @ [row] \<rparr> \<and>
         ws_effect op x (db_workspaces (w_db w)) (db_workspaces (w_db w')) \<and>
         au_ResourceType row = ''workspace'' \<and> au_ResourceID row = ws_PublicID x \<and>
         au_EventType row = ea_Action ev"
proof (cases r)
  case (Inl e)
  with ws_run_op_atomic [OF assms] show ?thesis by (simp add: atomic_outcome_def)
next
  case (Inr x)
  with ws_run_op_atomic [OF assms] obtain d1 row where d:
    "describes en row (ws_event x ev)" "d1 = (w_db w)\<lparr> db_workspaces := db_workspaces d1 \<rparr>"
    "ws_effect op x (db_workspaces (w_db w)) (db_workspaces d1)" "w_db w' = with_audit row d1"
    by (auto simp: atomic_outcome_def)
  have ne: "ws_PublicID x \<noteq> []" by (simp add: ws_PublicID_def Format_def)
  from d(1) have "au_ResourceType row = ''workspace''" "au_ResourceID row = ws_PublicID x"
    "au_EventType row = ea_Action ev"
    using toRecord_Some(4,7) toRecord_resource unfolding describes_def
    by (fastforce simp: ws_event_def record_resource_def IsKnownResourceType_def
        AllResourceTypes_def)+
  moreover from d(2) have "db_audit d1 = db_audit (w_db w)" by (metis (no_types, lifting) db.ext_inject db.surjective db.update_convs(1))
  ultimately show ?thesis using Inr d by (auto simp: with_audit_def)
qed

text \<open>C30: over any sequence of creations, renames and archivings, failing or not, the
  workspace table keeps unique ids and unique, well-formed, unreserved slugs with
  status and timestamp in agreement; no row is ever removed, no id or slug
  changes or is released, and an archived workspace never changes again.\<close>

theorem workspace_lifecycle:
  assumes "ws_table_ok (db_workspaces (w_db w))"
  shows "ws_table_ok (db_workspaces (w_db (ws_run_all ops w))) \<and>
     ws_evolves (db_workspaces (w_db w)) (db_workspaces (w_db (ws_run_all ops w)))"
  using assms
proof (induction ops w rule: ws_run_all.induct)
  case (2 op ev now en ops w)
  from ws_run_op_keeps [OF 2(2), of op ev now en] 2(1) ws_row.grows_trans show ?case by auto
qed (simp add: ws_row.grows_refl)

definition demo_ws_id :: string where
  "demo_ws_id = ''0f8fad5b-d9cb-469f-a165-70867728950e''"

definition demo_workspace :: workspace where
  "demo_workspace = \<lparr> ws_ID = demo_ws_id, ws_Slug = ''acme'', ws_Name = ''Acme'',
     ws_Status = StatusArchived, ws_CreatedAt = 1, ws_UpdatedAt = 2, ws_ArchivedAt = Some 2 \<rparr>"

definition demo_world :: world where
  "demo_world = \<lparr> w_db = \<lparr> db_workspaces = [demo_workspace], db_projects = [], db_credentials = [],
     db_connections = [], db_audit = [] \<rparr>, w_faults = [] \<rparr>"

definition demo_event :: audit_event where
  "demo_event = \<lparr> ea_Action = ''workspace.archived'', ea_Actor = \<lparr> at_Type = Some ActorOperator,
     at_Subject = ''u1'', at_Email = [], at_Username = [], at_ProjectID = [], at_CredentialID = [] \<rparr>,
     ea_Target = \<lparr> tg_Kind = [], tg_ID = [], tg_Name = [] \<rparr>, ea_Workspace = [], ea_IP = [],
     ea_RequestID = [], ea_UserAgent = [], ea_Timestamp = None, ea_Reason = [], ea_Extra = [],
     ea_Persisted = False \<rparr>"

definition demo_env :: audit_env where
  "demo_env = \<lparr> en_u = id, en_is_ip = (\<lambda>_. False), en_rnd = Inr (replicate 16 7), en_now = 9 \<rparr>"

theorem workspace_mutation_atomic_witness:
  "\<exists>w' x row. ws_run_op (WsArchive demo_ws_id) demo_event 3 demo_env demo_world = (Inr x, w') \<and>
     w_db w' = (w_db demo_world)\<lparr> db_workspaces := db_workspaces (w_db w'), db_audit := [row] \<rparr> \<and>
     au_ResourceID row = ws_PublicID x"
proof -
  obtain r w' where r: "ws_run_op (WsArchive demo_ws_id) demo_event 3 demo_env demo_world = (r, w')"
    by (cases "ws_run_op (WsArchive demo_ws_id) demo_event 3 demo_env demo_world")
  have "is_ok (fst (ws_run_op (WsArchive demo_ws_id) demo_event 3 demo_env demo_world))" by code_simp
  with r obtain x where x: "r = Inr x" by (auto simp: is_ok_iff)
  have "db_audit (w_db demo_world) = []" by (simp add: demo_world_def)
  with workspace_mutation_atomic [OF r] x r show ?thesis by auto
qed

theorem workspace_lifecycle_witness:
  "ws_evolves [demo_workspace] (db_workspaces (w_db
     (ws_run_all [(WsRename demo_ws_id ''New'', demo_event, 3, demo_env),
                  (WsCreate ''Beta'' [] (Inr (replicate 16 1)), demo_event, 4, demo_env)] demo_world)))"
proof -
  have "ws_table_ok (db_workspaces (w_db demo_world))" by code_simp
  moreover have "db_workspaces (w_db demo_world) = [demo_workspace]" by (simp add: demo_world_def)
  ultimately show ?thesis
    using workspace_lifecycle [of demo_world] by metis
qed

lemma ws_update_archived:
  assumes "ws_table_ok (db_workspaces (w_db w))" and "w_faults w = []"
    and "find (\<lambda>x. ws_ID x = i) (db_workspaces (w_db w)) = Some x" and "ws_IsArchived x"
  shows "ws_update i f w = (Inr 0, w)"
proof -
  have no: "\<not> ws_active_row i y" if "y \<in> set (db_workspaces (w_db w))" for y
  proof -
    from find_by_id [OF assms(3)] have "x \<in> set (db_workspaces (w_db w))" "ws_ID x = i" by auto
    with assms(1) that have "ws_ID y = i \<Longrightarrow> y = x"
      by (auto simp: ws_table_ok_def distinct_map inj_on_def)
    with assms(4) show ?thesis by (auto simp: ws_active_row_def ws_IsArchived_def)
  qed
  then have "filter (ws_active_row i) (db_workspaces (w_db w)) = []"
    "map (\<lambda>r. if ws_active_row i r then f r else r) (db_workspaces (w_db w)) = db_workspaces (w_db w)"
    by (auto simp: filter_empty_conv intro: map_idI)
  with assms(2) show ?thesis by (simp add: ws_update_def stmt_no_faults update_where_def)
qed

lemma wsr_GetByID_no_faults:
  "w_faults w = [] \<Longrightarrow> wsr_GetByID i w = (Inr (find (\<lambda>x. ws_ID x = i) (db_workspaces (w_db w))), w)"
  by (simp add: wsr_GetByID_def query_def stmt_no_faults)

text \<open>Once a workspace is archived, archiving it again succeeds and returns the
  stored row with nothing changed but one more audit row, and renaming it is
  refused as archived with nothing changed at all.\<close>

theorem archived_workspace_frozen:
  assumes "ws_table_ok (db_workspaces (w_db w))" and "w_faults w = []"
    and "Parse WorkspacePrefix pid = Inr i"
    and "find (\<lambda>x. ws_ID x = i) (db_workspaces (w_db w)) = Some x" and "ws_IsArchived x"
    and "RecordTx en (ws_event x ev) w = (Inr (), w1)" and "w_faults w1 = []"
    and "trim_space name \<noteq> []" and "length (trim_space name) \<le> 200"
  shows "ws_Archive pid ev now en w = (Inr x, w1) \<and>
         ws_UpdateName pid name ev now en w = (Inl WsErrArchived, w)"
proof
  note upd = ws_update_archived [OF assms(1,2,4,5)] and get = wsr_GetByID_no_faults [OF assms(2), of i]
  have "wsr_Archive i now w = (Inr (Some x), w)"
    unfolding wsr_Archive_def
    by (rule InTx_no_faults) (simp_all add: andThen_def upd get assms(2,4))
  then show "ws_Archive pid ev now en w = (Inr x, w1)"
    using assms(3,6,7)
    by (simp add: ws_Archive_def act_simps resolveID_Inr [THEN iffD2])
      (rule InTx_no_faults, simp_all)
  have "wsr_UpdateName i (trim_space name) now w = (Inl WsErrArchived, w)"
    using assms(5)
    by (simp add: wsr_UpdateName_def InTx_def andThen_def upd get assms(4) fail_def ws_IsArchived_def)
  then have f: "found (wsr_UpdateName i (trim_space name) now) WsErrNotFound w = (Inl WsErrArchived, w)"
    unfolding found_def by (rule andThen_err)
  have "InTx (andThen (found (wsr_UpdateName i (trim_space name) now) WsErrNotFound) g) w =
      (Inl WsErrArchived, w)" for g :: "workspace \<Rightarrow> workspace act"
    by (simp add: InTx_def andThen_def f)
  then show "ws_UpdateName pid name ev now en w = (Inl WsErrArchived, w)"
    using assms(3,8,9)
    by (simp add: ws_UpdateName_def act_simps resolveID_Inr [THEN iffD2] ws_normalizeName_def
        maxNameLength_def Let_def)
qed

theorem archived_workspace_frozen_witness:
  "ws_UpdateName demo_ws_id ''New'' demo_event 3 demo_env demo_world = (Inl WsErrArchived, demo_world)"
proof -
  have "is_ok (fst (RecordTx demo_env (ws_event demo_workspace demo_event) demo_world))" by code_simp
  then obtain w1 where r: "RecordTx demo_env (ws_event demo_workspace demo_event) demo_world = (Inr (), w1)"
    by (cases "RecordTx demo_env (ws_event demo_workspace demo_event) demo_world") (auto simp: is_ok_iff)
  have "w_faults (snd (RecordTx demo_env (ws_event demo_workspace demo_event) demo_world)) = []"
    by code_simp
  with r have f: "w_faults w1 = []" by simp
  have "ws_table_ok (db_workspaces (w_db demo_world))" "w_faults demo_world = []"
    "Parse WorkspacePrefix demo_ws_id = Inr demo_ws_id"
    "find (\<lambda>x. ws_ID x = demo_ws_id) (db_workspaces (w_db demo_world)) = Some demo_workspace"
    "ws_IsArchived demo_workspace" "trim_space ''New'' \<noteq> []" "length (trim_space ''New'') \<le> 200"
    by code_simp+
  from archived_workspace_frozen [OF this(1-5) r f this(6,7)] show ?thesis by simp
qed

end
