(* ===== verification/Secrets.thy ===== *)
theory Secrets
  imports Store
begin

text \<open>
  \<^verbatim>\<open>internal/secrets\<close>: the sealed value and its associated data
  (\<^verbatim>\<open>aesgcm.go\<close>) and the keyring that chooses the key
  (\<^verbatim>\<open>keyring.go\<close>). AES-256-GCM itself is the record \<open>aead\<close> of its two
  functions; what is relied on is \<open>aead_ok\<close>: with one key, nonce and associated
  data, Open accepts exactly what Seal makes of a plaintext. The four base64
  alphabets of DecodeKey and the nonce bytes are arguments too.

  Lemmas: the keyring seals under the current key only, opens under the key the
  value names and no other, and is never built with a duplicate, a missing current
  key or a key of the wrong size.
\<close>

type_synonym bytes = "8 word list"

record aead =
  ag_Seal :: "bytes \<Rightarrow> bytes \<Rightarrow> bytes \<Rightarrow> string \<Rightarrow> bytes"
  ag_Open :: "bytes \<Rightarrow> bytes \<Rightarrow> bytes \<Rightarrow> string \<Rightarrow> bytes option"
  ag_NonceSize :: nat

definition aead_ok :: "aead \<Rightarrow> bool" where
  "aead_ok g \<longleftrightarrow>
     (\<forall>k n p a. ag_Seal g k n p a \<noteq> []) \<and>
     (\<forall>k n c a p. (ag_Open g k n c a = Some p) = (c = ag_Seal g k n p a))"

section \<open>The cipher\<close>

definition KeySize :: nat where "KeySize = 32"
definition AlgorithmAESGCM :: string where "AlgorithmAESGCM = ''aes-256-gcm''"

text \<open>\<open>ErrKeySize\<close> carries the size the value decodes to, or \<^const>\<open>None\<close> for a value
  that no base64 alphabet decodes.\<close>

datatype secret_error =
    ErrKeySize "nat option"
  | ErrNoKey
  | ErrOpen
  | ErrUnsupportedAlgorithm string
  | ErrUnknownKeyVersion int "int list"
  | ErrInvalidKeyVersion int
  | ErrDuplicateKeyVersion int
  | ErrNoCurrentKey int "int list"
  | ErrEmptyKeyring
  | ErrEmptyPlaintext
  | ErrNonce

record key =
  ky_version :: int
  ky_material :: bytes

definition newKey :: "int \<Rightarrow> bytes \<Rightarrow> secret_error + key" where
  "newKey version material =
     (if version < 1 then Inl (ErrInvalidKeyVersion version)
      else if length material = 0 then Inl ErrNoKey
      else if length material \<noteq> KeySize then Inl (ErrKeySize (Some (length material)))
      else Inr \<lparr> ky_version = version, ky_material = material \<rparr>)"

definition key_seal :: "aead \<Rightarrow> key \<Rightarrow> bytes option \<Rightarrow> bytes \<Rightarrow> string \<Rightarrow> secret_error + sealed" where
  "key_seal g k rnd plaintext aad =
     (if length plaintext = 0 then Inl ErrEmptyPlaintext
      else case rnd of
        None \<Rightarrow> Inl ErrNonce
      | Some nonce \<Rightarrow> Inr \<lparr> sl_Ciphertext = ag_Seal g (ky_material k) nonce plaintext aad,
          sl_Nonce = nonce, sl_KeyVersion = ky_version k, sl_Alg = AlgorithmAESGCM \<rparr>)"

definition key_open :: "aead \<Rightarrow> key \<Rightarrow> sealed \<Rightarrow> string \<Rightarrow> secret_error + bytes" where
  "key_open g k s aad =
     (if sl_KeyVersion s \<noteq> ky_version k then Inl ErrOpen
      else if length (sl_Nonce s) \<noteq> ag_NonceSize g \<or> length (sl_Ciphertext s) = 0 then Inl ErrOpen
      else case ag_Open g (ky_material k) (sl_Nonce s) (sl_Ciphertext s) aad of
        None \<Rightarrow> Inl ErrOpen
      | Some plaintext \<Rightarrow> Inr plaintext)"

definition AAD :: "string \<Rightarrow> string \<Rightarrow> string \<Rightarrow> string" where
  "AAD kind i field = kind @ '':'' @ i @ '':'' @ field"

text \<open>\<open>decoders\<close> are the four base64 decoders in the order they are tried.\<close>

fun decode_loop :: "(string \<Rightarrow> bytes option) list \<Rightarrow> string \<Rightarrow> secret_error + bytes" where
  "decode_loop [] encoded = Inl (ErrKeySize None)"
| "decode_loop (dec # decs) encoded =
     (case dec encoded of
        None \<Rightarrow> decode_loop decs encoded
      | Some out \<Rightarrow> if length out \<noteq> KeySize then Inl (ErrKeySize (Some (length out))) else Inr out)"

definition DecodeKey :: "(string \<Rightarrow> bytes option) list \<Rightarrow> string \<Rightarrow> secret_error + bytes" where
  "DecodeKey decoders encoded = (if encoded = [] then Inl ErrNoKey else decode_loop decoders encoded)"

section \<open>The keyring\<close>

record keyring =
  kr_keys :: "(int \<times> key) list"
  kr_current :: int
  kr_versions :: "int list"

fun keyring_loop ::
  "(int \<times> bytes) list \<Rightarrow> (int \<times> key) list \<Rightarrow> int list \<Rightarrow> secret_error + (int \<times> key) list \<times> int list" where
  "keyring_loop [] keys versions = Inr (keys, versions)"
| "keyring_loop ((v, material) # ms) keys versions =
     (if map_of keys v \<noteq> None then Inl (ErrDuplicateKeyVersion v)
      else bind_result (newKey v material)
        (\<lambda>k. keyring_loop ms ((v, k) # keys) (versions @ [v])))"

definition NewKeyring :: "(int \<times> bytes) list \<Rightarrow> int \<Rightarrow> secret_error + keyring" where
  "NewKeyring materials current =
     (if materials = [] then Inl ErrEmptyKeyring
      else bind_result (keyring_loop materials [] []) (\<lambda>(keys, versions).
        if map_of keys current = None then Inl (ErrNoCurrentKey current (sort versions))
        else Inr \<lparr> kr_keys = keys, kr_current = current, kr_versions = sort versions \<rparr>))"

definition NewSingleVersionKeyring :: "int \<Rightarrow> bytes \<Rightarrow> secret_error + keyring" where
  "NewSingleVersionKeyring version material = NewKeyring [(version, material)] version"

fun decode_materials ::
  "(string \<Rightarrow> bytes option) list \<Rightarrow> (int \<times> string) list \<Rightarrow> secret_error + (int \<times> bytes) list" where
  "decode_materials decs [] = Inr []"
| "decode_materials decs ((v, e) # es) =
     bind_result (DecodeKey decs e) (\<lambda>raw.
       bind_result (decode_materials decs es) (\<lambda>ms. Inr ((v, raw) # ms)))"

definition NewKeyringFromBase64 ::
  "(string \<Rightarrow> bytes option) list \<Rightarrow> (int \<times> string) list \<Rightarrow> int \<Rightarrow> secret_error + keyring" where
  "NewKeyringFromBase64 decs encoded current =
     bind_result (decode_materials decs encoded) (\<lambda>materials. NewKeyring materials current)"

definition kr_Has :: "keyring \<Rightarrow> int \<Rightarrow> bool" where
  "kr_Has r version \<longleftrightarrow> map_of (kr_keys r) version \<noteq> None"

definition kr_Seal :: "aead \<Rightarrow> keyring \<Rightarrow> bytes option \<Rightarrow> bytes \<Rightarrow> string \<Rightarrow> secret_error + sealed" where
  "kr_Seal g r rnd plaintext aad = key_seal g (the (map_of (kr_keys r) (kr_current r))) rnd plaintext aad"

definition kr_Open :: "aead \<Rightarrow> keyring \<Rightarrow> sealed \<Rightarrow> string \<Rightarrow> secret_error + bytes" where
  "kr_Open g r s aad =
     (if sl_Alg s \<noteq> [] \<and> sl_Alg s \<noteq> AlgorithmAESGCM then Inl (ErrUnsupportedAlgorithm (sl_Alg s))
      else case map_of (kr_keys r) (sl_KeyVersion s) of
        None \<Rightarrow> Inl (ErrUnknownKeyVersion (sl_KeyVersion s) (kr_versions r))
      | Some k \<Rightarrow> key_open g k s aad)"

definition OpenFailureReason :: "secret_error option \<Rightarrow> string" where
  "OpenFailureReason e =
     (case e of
        None \<Rightarrow> []
      | Some (ErrUnknownKeyVersion _ _) \<Rightarrow> ''unknown_key_version''
      | Some (ErrUnsupportedAlgorithm _) \<Rightarrow> ''unsupported_algorithm''
      | Some ErrOpen \<Rightarrow> ''authentication_failed''
      | Some _ \<Rightarrow> ''other'')"

section \<open>Lemmas\<close>

definition keyring_ok :: "keyring \<Rightarrow> bool" where
  "keyring_ok r \<longleftrightarrow>
     kr_Has r (kr_current r) \<and> sorted (kr_versions r) \<and> distinct (kr_versions r) \<and>
     set (kr_versions r) = fst ` set (kr_keys r) \<and> distinct (map fst (kr_keys r)) \<and>
     list_all (\<lambda>(v, k). 1 \<le> v \<and> ky_version k = v \<and> length (ky_material k) = KeySize) (kr_keys r)"

lemma newKey_Inr: "newKey v m = Inr k \<longleftrightarrow>
    1 \<le> v \<and> length m = KeySize \<and> k = \<lparr> ky_version = v, ky_material = m \<rparr>"
  by (auto simp: newKey_def KeySize_def)

lemma bind_result_Inr [simp]: "bind_result r f = Inr y \<longleftrightarrow> (\<exists>x. r = Inr x \<and> f x = Inr y)"
  by (cases r) auto

lemma keyring_loop_Inr:
  assumes "keyring_loop ms keys versions = Inr (keys', versions')"
  shows "distinct (map fst ms) \<and> fst ` set ms \<inter> fst ` set keys = {} \<and>
    list_all (\<lambda>(v, m). 1 \<le> v \<and> length m = KeySize) ms \<and>
    keys' = rev (map (\<lambda>(v, m). (v, \<lparr> ky_version = v, ky_material = m \<rparr>)) ms) @ keys \<and>
    versions' = versions @ map fst ms"
  using assms
proof (induction ms keys versions rule: keyring_loop.induct)
  case (2 v m ms keys versions)
  then obtain k where k: "map_of keys v = None" "newKey v m = Inr k"
    "keyring_loop ms ((v, k) # keys) (versions @ [v]) = Inr (keys', versions')"
    by (auto split: if_splits)
  with 2(1) [OF _ k(3)] show ?case
    by (auto simp: newKey_Inr map_of_eq_None_iff)
qed simp

text \<open>A keyring that could be built is well formed, and holds exactly the materials
  given.\<close>

lemma NewKeyring_Inr:
  assumes "NewKeyring ms current = Inr r"
  shows "keyring_ok r" and "kr_current r = current" and "map_of (kr_keys r) v =
      map_option (\<lambda>m. \<lparr> ky_version = v, ky_material = m \<rparr>) (map_of ms v)"
    and "distinct (map fst ms)" and "kr_versions r = sort (map fst ms)"
proof -
  let ?f = "\<lambda>(v, m). (v, \<lparr> ky_version = v, ky_material = m \<rparr>)"
  from assms obtain keys versions where l: "keyring_loop ms [] [] = Inr (keys, versions)"
    and r: "r = \<lparr> kr_keys = keys, kr_current = current, kr_versions = sort versions \<rparr>"
    and c: "map_of keys current \<noteq> None"
    by (auto simp: NewKeyring_def split: if_splits)
  from keyring_loop_Inr [OF l] have d: "distinct (map fst ms)"
    and a: "list_all (\<lambda>(v, m). 1 \<le> v \<and> length m = KeySize) ms"
    and k: "keys = rev (map ?f ms)" and v: "versions = map fst ms" by auto
  have f: "map fst (map ?f ms) = map fst ms" by (auto simp: split_def)
  show "kr_current r = current" "distinct (map fst ms)" "kr_versions r = sort (map fst ms)"
    using r d v by auto
  have "map fst keys = rev (map fst ms)" unfolding k rev_map [symmetric] f ..
  then have dk: "distinct (map fst keys)" using d by simp
  have fk: "fst ` set keys = fst ` set ms" unfolding k by force
  show "keyring_ok r"
    using r c d a k v dk fk by (auto simp: keyring_ok_def kr_Has_def list_all_iff split_def)
  have "map_of keys v = map_of (map ?f ms) v" for v
    unfolding k using d f
    by (intro map_of_inject_set [THEN iffD2, THEN fun_cong])
      (simp_all add: rev_map [symmetric] del: map_map)
  also have "map_of (map ?f ms) v = map_option (\<lambda>m. \<lparr> ky_version = v, ky_material = m \<rparr>) (map_of ms v)" for v
    by (induction ms) auto
  finally show "map_of (kr_keys r) v = map_option (\<lambda>m. \<lparr> ky_version = v, ky_material = m \<rparr>) (map_of ms v)"
    by (simp add: r)
qed

lemma keyring_ok_current:
  assumes "keyring_ok r"
  obtains k where "map_of (kr_keys r) (kr_current r) = Some k" and "ky_version k = kr_current r"
  using assms unfolding keyring_ok_def kr_Has_def
  by (fastforce simp: list_all_iff dest: map_of_SomeD)

lemma keyring_ok_key:
  "keyring_ok r \<Longrightarrow> map_of (kr_keys r) v = Some k \<Longrightarrow> ky_version k = v"
  unfolding keyring_ok_def by (fastforce simp: list_all_iff dest: map_of_SomeD)

text \<open>What Seal makes: the current version's ciphertext.\<close>

lemma kr_Seal_Inr:
  assumes "keyring_ok r" and "kr_Seal g r rnd p a = Inr s"
  obtains k n where "map_of (kr_keys r) (kr_current r) = Some k" and "rnd = Some n" and "p \<noteq> []"
    and "s = \<lparr> sl_Ciphertext = ag_Seal g (ky_material k) n p a, sl_Nonce = n,
      sl_KeyVersion = kr_current r, sl_Alg = AlgorithmAESGCM \<rparr>"
proof -
  obtain k where k: "map_of (kr_keys r) (kr_current r) = Some k" "ky_version k = kr_current r"
    by (rule keyring_ok_current [OF assms(1)])
  with assms(2) obtain n where "rnd = Some n" "p \<noteq> []" "s = \<lparr> sl_Ciphertext = ag_Seal g (ky_material k) n p a,
      sl_Nonce = n, sl_KeyVersion = kr_current r, sl_Alg = AlgorithmAESGCM \<rparr>"
    by (auto simp: kr_Seal_def key_seal_def split: if_splits option.splits)
  with k(1) that show ?thesis by blast
qed

lemma kr_Open_iff:
  assumes "aead_ok g" and "keyring_ok r"
  shows "kr_Open g r s a = Inr p \<longleftrightarrow>
    (sl_Alg s = [] \<or> sl_Alg s = AlgorithmAESGCM) \<and> length (sl_Nonce s) = ag_NonceSize g \<and>
    (\<exists>k. map_of (kr_keys r) (sl_KeyVersion s) = Some k \<and>
         sl_Ciphertext s = ag_Seal g (ky_material k) (sl_Nonce s) p a)"
proof -
  from assms(1) have g: "ag_Seal g k n p a \<noteq> []" "[] \<noteq> ag_Seal g k n p a"
    "(ag_Open g k n c a = Some p) = (c = ag_Seal g k n p a)" for k n p a c
    by (auto simp: aead_ok_def) (metis list.distinct(1))
  show ?thesis
  proof (cases "map_of (kr_keys r) (sl_KeyVersion s)")
    case (Some k)
    with keyring_ok_key [OF assms(2) Some] g(3) [of "ky_material k" "sl_Nonce s" "sl_Ciphertext s" a p] g(2)
    show ?thesis by (auto simp: kr_Open_def key_open_def split: option.splits)
  qed (simp add: kr_Open_def)
qed

section \<open>Properties\<close>

text \<open>C27: whatever a keyring seals is stamped with its current version, and is opened
  again, to the same plaintext under the same associated data, by every keyring
  that still holds that version's material, whichever version is current there by
  then; a keyring without that version reports the missing version (not a
  decryption failure) and never tries another key.\<close>

theorem seal_open_round_trip:
  assumes "aead_ok g" and "NewKeyring ms cur = Inr r" and "NewKeyring ms' cur' = Inr r'"
    and "kr_Seal g r (Some n) p a = Inr s" and "length n = ag_NonceSize g"
  shows "sl_KeyVersion s = cur \<and> sl_Alg s = AlgorithmAESGCM \<and>
     (if map_of ms' cur = None then kr_Open g r' s a = Inl (ErrUnknownKeyVersion cur (sort (map fst ms')))
      else if map_of ms' cur = map_of ms cur then kr_Open g r' s a = Inr p else True)"
proof -
  note R = NewKeyring_Inr [OF assms(2)] and R' = NewKeyring_Inr [OF assms(3)]
  from kr_Seal_Inr [OF R(1) assms(4)] obtain k where
    k: "map_of (kr_keys r) cur = Some k" and
    s: "s = \<lparr> sl_Ciphertext = ag_Seal g (ky_material k) n p a, sl_Nonce = n,
      sl_KeyVersion = cur, sl_Alg = AlgorithmAESGCM \<rparr>"
    using R(2) by (metis option.inject)
  from k R(3) [of cur] obtain m where m: "map_of ms cur = Some m" "ky_material k = m" by auto
  have "kr_Open g r' s a = Inr p" if "map_of ms' cur = map_of ms cur"
    using that m assms(5) R'(3) [of cur] by (simp add: kr_Open_iff [OF assms(1) R'(1)] s)
  moreover have "kr_Open g r' s a = Inl (ErrUnknownKeyVersion cur (sort (map fst ms')))" if "map_of ms' cur = None"
    using that R'(3) [of cur] R'(5) by (simp add: kr_Open_def s)
  ultimately show ?thesis by (simp add: s)
qed

text \<open>Opening uses the key the value's own version names: the answer is the same
  in every keyring with the same material for that version, whatever other keys it
  holds and whichever is current; and it is a plaintext only for a ciphertext made
  under that very key, nonce and associated data.\<close>

theorem open_only_named_version:
  assumes "aead_ok g" and "NewKeyring ms cur = Inr r" and "NewKeyring ms' cur' = Inr r'"
    and "map_of ms' (sl_KeyVersion s) = map_of ms (sl_KeyVersion s)"
  shows "(case kr_Open g r s a of
       Inr p \<Rightarrow> kr_Open g r' s a = Inr p \<and>
         (\<exists>m. map_of ms (sl_KeyVersion s) = Some m \<and> sl_Ciphertext s = ag_Seal g m (sl_Nonce s) p a)
     | Inl e \<Rightarrow> OpenFailureReason (Some e) \<in>
           {''unknown_key_version'', ''unsupported_algorithm'', ''authentication_failed''} \<and>
         (case kr_Open g r' s a of Inr _ \<Rightarrow> False
          | Inl e' \<Rightarrow> OpenFailureReason (Some e') = OpenFailureReason (Some e)))"
proof -
  note R = NewKeyring_Inr [OF assms(2)] and R' = NewKeyring_Inr [OF assms(3)]
  have same: "map_of (kr_keys r') (sl_KeyVersion s) = map_of (kr_keys r) (sl_KeyVersion s)"
    using R(3) R'(3) assms(4) by simp
  have reason: "OpenFailureReason (Some e) \<in>
      {''unknown_key_version'', ''unsupported_algorithm'', ''authentication_failed''} \<and>
      (case kr_Open g r' s a of Inr _ \<Rightarrow> False
       | Inl e' \<Rightarrow> OpenFailureReason (Some e') = OpenFailureReason (Some e))"
    if e: "kr_Open g r s a = Inl e" for e
  proof (cases "sl_Alg s \<noteq> [] \<and> sl_Alg s \<noteq> AlgorithmAESGCM")
    case True
    with e have "e = ErrUnsupportedAlgorithm (sl_Alg s)" "kr_Open g r' s a = Inl e"
      by (simp_all add: kr_Open_def)
    then show ?thesis by (simp add: OpenFailureReason_def)
  next
    case alg: False
    show ?thesis
    proof (cases "map_of (kr_keys r) (sl_KeyVersion s)")
      case None
      with e alg have "e = ErrUnknownKeyVersion (sl_KeyVersion s) (kr_versions r)"
        "kr_Open g r' s a = Inl (ErrUnknownKeyVersion (sl_KeyVersion s) (kr_versions r'))"
        by (simp_all add: kr_Open_def same)
      then show ?thesis by (simp add: OpenFailureReason_def)
    next
      case (Some k)
      with e alg have "kr_Open g r' s a = Inl e" "key_open g k s a = Inl e"
        by (auto simp: kr_Open_def same)
      moreover from this(2) have "e = ErrOpen" by (auto simp: key_open_def split: if_splits option.splits)
      ultimately show ?thesis by (simp add: OpenFailureReason_def)
    qed
  qed
  show ?thesis
  proof (cases "kr_Open g r s a")
    case (Inl e)
    with reason show ?thesis by simp
  next
    case (Inr p)
    then obtain k where
      k: "map_of (kr_keys r) (sl_KeyVersion s) = Some k"
        "sl_Ciphertext s = ag_Seal g (ky_material k) (sl_Nonce s) p a"
      unfolding kr_Open_iff [OF assms(1) R(1)] by blast
    from k(1) R(3) [of "sl_KeyVersion s"] have "map_of ms (sl_KeyVersion s) = Some (ky_material k)"
      by auto
    moreover have "kr_Open g r' s a = Inr p"
      using Inr by (simp add: kr_Open_iff [OF assms(1) R(1)] kr_Open_iff [OF assms(1) R'(1)] same)
    ultimately show ?thesis using Inr k(2) by auto
  qed
qed

text \<open>A toy cipher that meets the law, with which the witnesses compute: the sealed
  text is the key, the nonce, the data and the plaintext in clear.\<close>

definition toy_frame :: "bytes \<Rightarrow> bytes \<Rightarrow> string \<Rightarrow> bytes" where
  "toy_frame k n a = 0 # k @ n @ map of_char a"

definition toy_aead :: aead where
  "toy_aead = \<lparr> ag_Seal = (\<lambda>k n p a. toy_frame k n a @ p),
     ag_Open = (\<lambda>k n c a. let f = toy_frame k n a in
       if take (length f) c = f then Some (drop (length f) c) else None),
     ag_NonceSize = 12 \<rparr>"

lemma toy_aead_ok: "aead_ok toy_aead"
proof -
  have "(take (length f) c = f \<and> drop (length f) c = p) = (c = f @ p)" for f c p :: bytes
    by (metis append_eq_conv_conj append_take_drop_id)
  then show ?thesis by (auto simp: aead_ok_def toy_aead_def Let_def) (simp add: toy_frame_def)
qed

abbreviation toy_key :: "nat \<Rightarrow> bytes" where
  "toy_key n \<equiv> replicate 32 (of_nat n)"

definition demo_keyring :: keyring where
  "demo_keyring = (case NewKeyring [(2, toy_key 2), (1, toy_key 1)] 1 of Inr r \<Rightarrow> r)"

definition demo_keyring' :: keyring where
  "demo_keyring' = (case NewKeyring [(1, toy_key 1), (2, toy_key 2)] 2 of Inr r \<Rightarrow> r)"

lemma demo_keyrings:
  "NewKeyring [(2, toy_key 2), (1, toy_key 1)] 1 = Inr demo_keyring"
  "NewKeyring [(1, toy_key 1), (2, toy_key 2)] 2 = Inr demo_keyring'"
  by (simp_all add: demo_keyring_def demo_keyring'_def NewKeyring_def newKey_def KeySize_def)

definition demo_sealed :: sealed where
  "demo_sealed = (case kr_Seal toy_aead demo_keyring (Some (replicate 12 9)) [65] ''a'' of Inr s \<Rightarrow> s)"

lemma demo_sealed: "kr_Seal toy_aead demo_keyring (Some (replicate 12 9)) [65] ''a'' = Inr demo_sealed"
  by (simp add: demo_sealed_def kr_Seal_def key_seal_def)

theorem seal_open_round_trip_witness:
  "kr_Open toy_aead demo_keyring' demo_sealed ''a'' = Inr [65]"
  using seal_open_round_trip [OF toy_aead_ok demo_keyrings demo_sealed]
  by (simp add: toy_aead_def)

theorem open_only_named_version_witness:
  "kr_Open toy_aead demo_keyring demo_sealed ''b'' \<noteq> Inr [65]"
proof
  assume o: "kr_Open toy_aead demo_keyring demo_sealed ''b'' = Inr [65]"
  have v: "sl_KeyVersion demo_sealed = 1" by code_simp
  from open_only_named_version [OF toy_aead_ok demo_keyrings, of demo_sealed "''b''"] o
  have "sl_Ciphertext demo_sealed = ag_Seal toy_aead (toy_key 1) (sl_Nonce demo_sealed) [65] ''b''"
    by (simp add: v)
  moreover have "sl_Ciphertext demo_sealed \<noteq> ag_Seal toy_aead (toy_key 1) (sl_Nonce demo_sealed) [65] ''b''"
    by code_simp
  ultimately show False by blast
qed

end
