(* ===== verification/Connection.thy ===== *)
theory Connection
  imports Workspace Secrets
begin

text \<open>
  \<^verbatim>\<open>internal/connection\<close>: a workspace's configured access to an identity
  provider. The predicates of \<^verbatim>\<open>model.go\<close>, the error catalogue, the
  statements of \<^verbatim>\<open>repository.go\<close> with the constraints of migrations 000003
  and 000004 (one active connection per workspace is a partial unique index), and
  the service operations of \<^verbatim>\<open>service.go\<close>.

  What an operation draws from its surroundings is \<open>conn_env\<close>: the clock, the
  random bytes, the cipher and keyring, \<^verbatim>\<open>url.Parse\<close> (scheme and host), the
  probe of the provider, and what the audit recorder draws.
\<close>

section \<open>Errors\<close>

definition CnErrNotFound :: go_error where
  "CnErrNotFound = AppError ''connection_not_found'' ''Connection not found'' 404"
definition CnErrInvalidID :: go_error where
  "CnErrInvalidID = AppError ''invalid_connection_id'' ''Connection id must be in the form conn_<uuid>'' 400"
definition CnErrNotVerified :: go_error where
  "CnErrNotVerified = AppError ''connection_not_verified'' ''Connection must pass verification before it can be activated'' 409"
definition CnErrVerificationExpired :: go_error where
  "CnErrVerificationExpired = AppError ''connection_verification_expired'' ''Verification has expired; verify the connection again before activating'' 409"
definition CnErrAlreadyActive :: go_error where
  "CnErrAlreadyActive = AppError ''connection_already_active'' ''Connection is already active'' 409"
definition CnErrWorkspaceHasActive :: go_error where
  "CnErrWorkspaceHasActive = AppError ''workspace_has_active_connection'' ''Another connection in this workspace was activated concurrently; retry'' 409"
definition CnErrRetired :: go_error where
  "CnErrRetired = AppError ''connection_retired'' ''Connection is retired and cannot be modified or reactivated'' 409"
definition CnErrActiveCannotDelete :: go_error where
  "CnErrActiveCannotDelete = AppError ''connection_active_cannot_delete'' ''Active connection cannot be deleted; retire it first'' 409"
definition CnErrNotDraft :: go_error where
  "CnErrNotDraft = AppError ''connection_not_draft'' ''Only a draft connection's configuration can be changed'' 409"
definition CnErrNameRequired :: go_error where
  "CnErrNameRequired = AppError ''connection_name_required'' ''Name is required'' 400"
definition CnErrBaseURLInvalid :: go_error where
  "CnErrBaseURLInvalid = AppError ''connection_base_url_invalid'' ''base_url must be an absolute http or https URL'' 400"
definition CnErrRealmRequired :: go_error where
  "CnErrRealmRequired = AppError ''connection_realm_required'' ''realm is required'' 400"
definition CnErrClientIDRequired :: go_error where
  "CnErrClientIDRequired = AppError ''connection_client_id_required'' ''client_id is required'' 400"
definition CnErrClientSecretRequired :: go_error where
  "CnErrClientSecretRequired = AppError ''connection_client_secret_required'' ''client_secret is required'' 400"
definition CnErrProviderUnsupported :: go_error where
  "CnErrProviderUnsupported = AppError ''connection_provider_unsupported'' ''provider must be one of: keycloak'' 400"
definition CnErrInvalidStatusFilter :: go_error where
  "CnErrInvalidStatusFilter = AppError ''invalid_status_filter'' ''status must be one of: draft, active, retired, all'' 400"
definition CnErrWorkspaceNotFound :: go_error where
  "CnErrWorkspaceNotFound = AppError ''workspace_not_found'' ''Workspace not found'' 404"
definition CnErrWorkspaceArchived :: go_error where
  "CnErrWorkspaceArchived = AppError ''workspace_archived'' ''Workspace is archived and cannot be modified'' 409"
definition CnErrInvalidWorkspaceID :: go_error where
  "CnErrInvalidWorkspaceID = AppError ''invalid_workspace_id'' ''Workspace id must be in the form ws_<uuid>'' 400"
definition CnErrInvalidRequest :: go_error where
  "CnErrInvalidRequest = AppError ''invalid_request'' ''Request body is invalid'' 400"

section \<open>The domain values\<close>

definition ProviderKeycloak :: string where "ProviderKeycloak = ''keycloak''"

definition CanWrite :: "access_mode \<Rightarrow> bool" where
  "CanWrite m \<longleftrightarrow> m \<noteq> AccessModeLimited \<and> m \<noteq> AccessModeReadOnly"

definition VerifyValidity :: int where "VerifyValidity = 3600000000000"

definition cn_PublicID :: "'a connection_scheme \<Rightarrow> string" where
  "cn_PublicID c = Format ConnectionPrefix (cn_ID c)"

definition cn_WorkspacePublicID :: "'a connection_scheme \<Rightarrow> string" where
  "cn_WorkspacePublicID c = Format WorkspacePrefix (cn_WorkspaceID c)"

definition IsVerified :: "int \<Rightarrow> 'a connection_scheme \<Rightarrow> bool" where
  "IsVerified now c =
     (if cn_Health c \<noteq> HealthHealthy then False
      else case cn_LastVerifiedAt c of
        None \<Rightarrow> False
      | Some t \<Rightarrow> now - t \<le> VerifyValidity)"

definition CanActivate :: "int \<Rightarrow> 'a connection_scheme \<Rightarrow> go_error + unit" where
  "CanActivate now c =
     (case cn_Status c of
        StatusLive \<Rightarrow> Inl CnErrAlreadyActive
      | StatusRetired \<Rightarrow> Inl CnErrRetired
      | StatusDraft \<Rightarrow>
          if cn_Health c \<noteq> HealthHealthy then Inl CnErrNotVerified
          else if \<not> IsVerified now c then Inl CnErrVerificationExpired
          else Inr ())"

definition CanRetire :: "'a connection_scheme \<Rightarrow> go_error + unit" where
  "CanRetire c = guard (cn_Status c \<noteq> StatusRetired) CnErrRetired"

definition CanDelete :: "'a connection_scheme \<Rightarrow> go_error + unit" where
  "CanDelete c = guard (cn_Status c \<noteq> StatusLive) CnErrActiveCannotDelete"

definition CanUpdate :: "'a connection_scheme \<Rightarrow> go_error + unit" where
  "CanUpdate c =
     (case cn_Status c of
        StatusLive \<Rightarrow> Inl CnErrNotDraft
      | StatusRetired \<Rightarrow> Inl CnErrRetired
      | StatusDraft \<Rightarrow> Inr ())"

section \<open>The repository\<close>

definition toDomain :: "connection_row \<Rightarrow> connection" where
  "toDomain r = connection.truncate r"

definition rowFrom :: "connection \<Rightarrow> sealed \<Rightarrow> connection_row" where
  "rowFrom c s = connection.extend c (connection_row.fields s)"

text \<open>The CHECK constraints of the table.\<close>

definition cn_constraints :: "connection_row \<Rightarrow> bool" where
  "cn_constraints r \<longleftrightarrow>
     cn_Provider r = ProviderKeycloak \<and>
     (cn_Status r = StatusRetired) = (cn_RetiredAt r \<noteq> None) \<and>
     (case cn_Status r of
        StatusDraft \<Rightarrow> cn_ActivatedAt r = None
      | StatusLive \<Rightarrow> cn_ActivatedAt r \<noteq> None
      | StatusRetired \<Rightarrow> True) \<and>
     (cn_Health r = HealthUnknown) = (cn_LastVerifiedAt r = None) \<and>
     \<not> sql_blank (cn_Name r) \<and> \<not> sql_blank (cn_BaseURL r) \<and> \<not> sql_blank (cn_Realm r) \<and>
     \<not> sql_blank (cn_ClientID r) \<and>
     sl_Ciphertext (cn_Sealed r) \<noteq> [] \<and> sl_Nonce (cn_Sealed r) \<noteq> [] \<and>
     1 \<le> sl_KeyVersion (cn_Sealed r)"

text \<open>The partial unique index on \<^verbatim>\<open>(workspace_id) WHERE status = 'active'\<close>.\<close>

definition one_active :: "connection_row list \<Rightarrow> bool" where
  "one_active rows \<longleftrightarrow>
     distinct (map cn_WorkspaceID (filter (\<lambda>r. cn_Status r = StatusLive) rows))"

definition cn_insert :: "connection_row \<Rightarrow> db \<Rightarrow> go_error + unit \<times> db" where
  "cn_insert r d =
     (if \<not> cn_constraints r then Inl ErrDriver
      else if cn_ID r \<in> cn_ID ` set (db_connections d) \<or> \<not> one_active (db_connections d @ [r])
      then Inl ErrDuplicatedKey
      else if cn_WorkspaceID r \<notin> ws_ID ` set (db_workspaces d) then Inl ErrDriver
      else Inr ((), d\<lparr> db_connections := db_connections d @ [r] \<rparr>))"

definition cnr_Create :: "connection \<Rightarrow> sealed \<Rightarrow> unit act" where
  "cnr_Create c s = stmt (cn_insert (rowFrom c s))"

definition cnr_loadRow :: "string \<Rightarrow> connection_row option act" where
  "cnr_loadRow i = query (\<lambda>d. find (\<lambda>r. cn_ID r = i) (db_connections d))"

definition cnr_GetByID :: "string \<Rightarrow> connection option act" where
  "cnr_GetByID i = andThen (cnr_loadRow i) (\<lambda>r. ret (map_option toDomain r))"

datatype conn_filter = CnFilterAll | CnFilterDraft | CnFilterActive | CnFilterRetired

definition cn_ParseStatusFilter :: "string \<Rightarrow> go_error + conn_filter" where
  "cn_ParseStatusFilter raw =
     (if raw = [] then Inr CnFilterAll
      else if raw = ''all'' then Inr CnFilterAll
      else if raw = ''draft'' then Inr CnFilterDraft
      else if raw = ''active'' then Inr CnFilterActive
      else if raw = ''retired'' then Inr CnFilterRetired
      else Inl CnErrInvalidStatusFilter)"

fun cn_filter_accepts :: "conn_filter \<Rightarrow> connection_status \<Rightarrow> bool" where
  "cn_filter_accepts CnFilterAll s = True"
| "cn_filter_accepts CnFilterDraft s = (s = StatusDraft)"
| "cn_filter_accepts CnFilterActive s = (s = StatusLive)"
| "cn_filter_accepts CnFilterRetired s = (s = StatusRetired)"

definition cnr_List :: "string \<Rightarrow> conn_filter \<Rightarrow> connection list act" where
  "cnr_List wid f = query (\<lambda>d. map toDomain
     (sort_key cn_Name (sort_key cn_ID
       (filter (\<lambda>r. cn_WorkspaceID r = wid \<and> cn_filter_accepts f (cn_Status r)) (db_connections d)))))"

definition active_in :: "string \<Rightarrow> connection_row \<Rightarrow> bool" where
  "active_in wid r \<longleftrightarrow> cn_WorkspaceID r = wid \<and> cn_Status r = StatusLive"

definition cnr_GetActiveByWorkspace :: "string \<Rightarrow> connection option act" where
  "cnr_GetActiveByWorkspace wid = query (\<lambda>d.
     (case sort_key cn_ID (filter (active_in wid) (db_connections d)) of
        [] \<Rightarrow> None
      | r # _ \<Rightarrow> Some (toDomain r)))"

definition cnr_OpenSecret :: "string \<Rightarrow> sealed option act" where
  "cnr_OpenSecret i =
     query (\<lambda>d. map_option cn_Sealed (find (\<lambda>r. cn_ID r = i) (db_connections d)))"

text \<open>A guarded UPDATE: CHECK constraints of the rows it writes, then the index.\<close>

definition cn_update ::
  "(connection_row \<Rightarrow> bool) \<Rightarrow> (connection_row \<Rightarrow> connection_row) \<Rightarrow> nat act" where
  "cn_update P f = stmt (\<lambda>d.
     let (rows, n) = update_where P f (db_connections d) in
     if \<not> list_all cn_constraints (map f (filter P (db_connections d))) then Inl ErrDriver
     else if \<not> one_active rows then Inl ErrDuplicatedKey
     else Inr (n, d\<lparr> db_connections := rows \<rparr>))"

record config_patch =
  pt_Name :: "string option"
  pt_BaseURL :: "string option"
  pt_Realm :: "string option"
  pt_ClientID :: "string option"

definition or_keep :: "'a option \<Rightarrow> 'a \<Rightarrow> 'a" where
  "or_keep new old = (case new of None \<Rightarrow> old | Some x \<Rightarrow> x)"

definition reprobes :: "config_patch \<Rightarrow> sealed option \<Rightarrow> bool" where
  "reprobes p s \<longleftrightarrow>
     pt_BaseURL p \<noteq> None \<or> pt_Realm p \<noteq> None \<or> pt_ClientID p \<noteq> None \<or> s \<noteq> None"

definition apply_patch :: "config_patch \<Rightarrow> sealed option \<Rightarrow> int \<Rightarrow> connection_row \<Rightarrow> connection_row" where
  "apply_patch p s now r =
     (let r1 = r\<lparr> cn_UpdatedAt := now, cn_Name := or_keep (pt_Name p) (cn_Name r),
            cn_BaseURL := or_keep (pt_BaseURL p) (cn_BaseURL r),
            cn_Realm := or_keep (pt_Realm p) (cn_Realm r),
            cn_ClientID := or_keep (pt_ClientID p) (cn_ClientID r),
            cn_Sealed := or_keep s (cn_Sealed r) \<rparr> in
      if reprobes p s
      then r1\<lparr> cn_Health := HealthUnknown, cn_HealthMessage := [],
             cn_AccessMode := AccessModeUnknown, cn_LastVerifiedAt := None \<rparr>
      else r1)"

definition is_draft_row :: "string \<Rightarrow> connection_row \<Rightarrow> bool" where
  "is_draft_row i r \<longleftrightarrow> cn_ID r = i \<and> cn_Status r = StatusDraft"

definition cnr_UpdateConfig ::
  "string \<Rightarrow> config_patch \<Rightarrow> sealed option \<Rightarrow> int \<Rightarrow> connection option act" where
  "cnr_UpdateConfig i patch s now = InTx
     (andThen (cn_update (is_draft_row i) (apply_patch patch s now)) (\<lambda>affected.
      andThen (cnr_loadRow i) (\<lambda>current.
        case current of
          None \<Rightarrow> ret None
        | Some row \<Rightarrow>
            if affected = 0
            then if cn_Status row = StatusRetired then fail CnErrRetired else fail CnErrNotDraft
            else ret (Some (toDomain row)))))"

text \<open>What a probe reports (the per-check list is in Verifier).\<close>

record verify_report =
  vr_OK :: bool
  vr_AccessMode :: access_mode
  vr_Summary :: string
  vr_CheckedAt :: int

record verify_target =
  vt_BaseURL :: string
  vt_Realm :: string
  vt_ClientID :: string
  vt_ClientSecret :: string

definition record_verdict :: "verify_report \<Rightarrow> connection_row \<Rightarrow> connection_row" where
  "record_verdict rep r = r\<lparr>
     cn_Health := (if vr_OK rep then HealthHealthy else HealthUnhealthy),
     cn_HealthMessage := vr_Summary rep, cn_AccessMode := vr_AccessMode rep,
     cn_LastVerifiedAt := Some (vr_CheckedAt rep), cn_UpdatedAt := vr_CheckedAt rep \<rparr>"

definition cnr_SaveVerification :: "string \<Rightarrow> verify_report \<Rightarrow> connection option act" where
  "cnr_SaveVerification i rep = InTx
     (andThen (cn_update (\<lambda>r. cn_ID r = i) (record_verdict rep)) (\<lambda>_.
      andThen (cnr_loadRow i) (\<lambda>current.
        case current of None \<Rightarrow> ret None | Some row \<Rightarrow> ret (Some (toDomain row)))))"

definition retire_row :: "int \<Rightarrow> connection_row \<Rightarrow> connection_row" where
  "retire_row now r =
     r\<lparr> cn_Status := StatusRetired, cn_RetiredAt := Some now, cn_UpdatedAt := now \<rparr>"

definition activate_row :: "int \<Rightarrow> connection_row \<Rightarrow> connection_row" where
  "activate_row now r =
     r\<lparr> cn_Status := StatusLive, cn_ActivatedAt := Some now, cn_UpdatedAt := now \<rparr>"

definition cnr_Activate :: "string \<Rightarrow> string \<Rightarrow> int \<Rightarrow> connection option act" where
  "cnr_Activate i wid now = InTx
     (andThen (cn_update (\<lambda>r. active_in wid r \<and> cn_ID r \<noteq> i) (retire_row now)) (\<lambda>_.
      andThen (catch (cn_update (is_draft_row i) (activate_row now))
                 (\<lambda>e. if e = ErrDuplicatedKey then CnErrWorkspaceHasActive else e)) (\<lambda>affected.
      andThen (cnr_loadRow i) (\<lambda>current.
        case current of
          None \<Rightarrow> ret None
        | Some row \<Rightarrow>
            if affected = 0
            then (case cn_Status row of
                    StatusLive \<Rightarrow> fail CnErrAlreadyActive
                  | StatusRetired \<Rightarrow> fail CnErrRetired
                  | StatusDraft \<Rightarrow> fail CnErrNotVerified)
            else ret (Some (toDomain row))))))"

definition cnr_Retire :: "string \<Rightarrow> int \<Rightarrow> connection option act" where
  "cnr_Retire i now = InTx
     (andThen (cn_update (\<lambda>r. cn_ID r = i \<and> cn_Status r \<noteq> StatusRetired) (retire_row now)) (\<lambda>affected.
      andThen (cnr_loadRow i) (\<lambda>current.
        case current of
          None \<Rightarrow> ret None
        | Some row \<Rightarrow> if affected = 0 then fail CnErrRetired else ret (Some (toDomain row)))))"

definition cnr_Delete :: "string \<Rightarrow> unit act" where
  "cnr_Delete i = andThen (stmt (\<lambda>d.
       let P = (\<lambda>r. cn_ID r = i \<and> cn_Status r \<noteq> StatusLive) in
       Inr (length (filter P (db_connections d)),
            d\<lparr> db_connections := filter (\<lambda>r. \<not> P r) (db_connections d) \<rparr>)))
     (\<lambda>affected. require (affected \<noteq> 0) CnErrActiveCannotDelete)"

end
