(* ===== verification/ConnectionService.thy ===== *)
theory ConnectionService
  imports Text Connection
begin

text \<open>
  \<^verbatim>\<open>internal/connection/service.go\<close>: the operations on connections, each with
  its audit row in one transaction. Verify is composed of its two halves, the
  probe and the recording of the verdict, and Activate of its check and its
  commit, because other requests may run between them.
\<close>

record conn_env =
  cv_now :: int
  cv_rnd_id :: "go_error + 8 word list"
  cv_nonce :: "bytes option"
  cv_aead :: aead
  cv_ring :: keyring
  cv_url :: "string \<Rightarrow> (string \<times> string) option"
  cv_verify :: "verify_target \<Rightarrow> verify_report"
  cv_audit :: audit_env

definition cn_maxNameLength :: nat where "cn_maxNameLength = 200"

definition secretAAD :: "string \<Rightarrow> string" where
  "secretAAD i = AAD ''connection'' i ''client_secret''"

text \<open>Strings are byte lists; \<^verbatim>\<open>[]byte(s)\<close> and \<^verbatim>\<open>string(b)\<close> convert.\<close>

definition to_bytes :: "string \<Rightarrow> bytes" where "to_bytes s = map of_char s"

definition of_bytes :: "bytes \<Rightarrow> string" where "of_bytes b = map (\<lambda>x. char_of (unat x)) b"

definition lift_secret :: "secret_error + 'a \<Rightarrow> 'a act" where
  "lift_secret r = lift_result (case r of
     Inl e \<Rightarrow> Inl (ErrSecret (OpenFailureReason (Some e))) | Inr x \<Rightarrow> Inr x)"

definition cn_requireWorkspace :: "string \<Rightarrow> workspace act" where
  "cn_requireWorkspace wid =
     (case Parse WorkspacePrefix wid of
        Inl _ \<Rightarrow> fail CnErrInvalidWorkspaceID
      | Inr i \<Rightarrow> found (wsr_GetByID i) CnErrWorkspaceNotFound)"

definition cn_requireWritableWorkspace :: "string \<Rightarrow> workspace act" where
  "cn_requireWritableWorkspace wid = andThen (cn_requireWorkspace wid) (\<lambda>ws.
     if ws_IsArchived ws then fail CnErrWorkspaceArchived else ret ws)"

definition cn_resolve :: "string \<Rightarrow> string \<Rightarrow> (workspace \<times> connection) act" where
  "cn_resolve wid cid = andThen (cn_requireWorkspace wid) (\<lambda>ws.
     case Parse ConnectionPrefix cid of
       Inl _ \<Rightarrow> fail CnErrInvalidID
     | Inr i \<Rightarrow> andThen (cnr_GetByID i) (\<lambda>r.
         case r of
           None \<Rightarrow> fail CnErrNotFound
         | Some c \<Rightarrow> if cn_WorkspaceID c \<noteq> ws_ID ws then fail CnErrNotFound else ret (ws, c)))"

definition parseProvider :: "string \<Rightarrow> go_error + string" where
  "parseProvider raw =
     (let p = trim_space raw in
      if p = [] \<or> p = ProviderKeycloak then Inr ProviderKeycloak else Inl CnErrProviderUnsupported)"

definition normalizeBaseURL :: "(string \<Rightarrow> (string \<times> string) option) \<Rightarrow> string \<Rightarrow> go_error + string" where
  "normalizeBaseURL url raw =
     (let trimmed = trim_space raw in
      if trimmed = [] then Inl CnErrBaseURLInvalid
      else case url trimmed of
        None \<Rightarrow> Inl CnErrBaseURLInvalid
      | Some (scheme, host) \<Rightarrow>
          if scheme \<noteq> ''http'' \<and> scheme \<noteq> ''https'' then Inl CnErrBaseURLInvalid
          else if host = [] then Inl CnErrBaseURLInvalid
          else Inr (trim_right CHR ''/'' trimmed))"

definition cn_checkName :: "string \<Rightarrow> go_error + string" where
  "cn_checkName raw =
     (let name = trim_space raw in
      if name = [] then Inl CnErrNameRequired
      else if length name > cn_maxNameLength then Inl CnErrInvalidRequest
      else Inr name)"

definition required :: "go_error \<Rightarrow> string \<Rightarrow> go_error + string" where
  "required e raw = (let s = trim_space raw in if s = [] then Inl e else Inr s)"

text \<open>\<^verbatim>\<open>ev.Target = audit.Target{...}\<close> and the record of it.\<close>

definition cn_event :: "string \<Rightarrow> audit_event \<Rightarrow> audit_event" where
  "cn_event i ev = ev\<lparr> ea_Target := \<lparr> tg_Kind = ''connection'', tg_ID = Format ConnectionPrefix i,
     tg_Name = [] \<rparr> \<rparr>"

record create_input =
  in_Name :: string
  in_Provider :: string
  in_BaseURL :: string
  in_Realm :: string
  in_ClientID :: string
  in_ClientSecret :: string

definition new_connection ::
  "string \<Rightarrow> string \<Rightarrow> string \<Rightarrow> string \<Rightarrow> string \<Rightarrow> string \<Rightarrow> string \<Rightarrow> int \<Rightarrow> connection" where
  "new_connection i wid name prov baseURL realm clientID now =
     \<lparr> cn_ID = i, cn_WorkspaceID = wid, cn_Name = name, cn_Provider = prov, cn_Status = StatusDraft,
       cn_BaseURL = baseURL, cn_Realm = realm, cn_ClientID = clientID, cn_Health = HealthUnknown,
       cn_HealthMessage = [], cn_AccessMode = AccessModeUnknown, cn_LastVerifiedAt = None,
       cn_CreatedAt = now, cn_UpdatedAt = now, cn_ActivatedAt = None, cn_RetiredAt = None \<rparr>"

definition cn_Create :: "string \<Rightarrow> create_input \<Rightarrow> audit_event \<Rightarrow> conn_env \<Rightarrow> connection act" where
  "cn_Create wid inp ev ce =
     andThen (cn_requireWritableWorkspace wid) (\<lambda>ws.
     andThen (lift_result (cn_checkName (in_Name inp))) (\<lambda>name.
     andThen (lift_result (parseProvider (in_Provider inp))) (\<lambda>prov.
     andThen (lift_result (normalizeBaseURL (cv_url ce) (in_BaseURL inp))) (\<lambda>baseURL.
     andThen (lift_result (required CnErrRealmRequired (in_Realm inp))) (\<lambda>realm.
     andThen (lift_result (required CnErrClientIDRequired (in_ClientID inp))) (\<lambda>clientID.
     andThen (require (in_ClientSecret inp \<noteq> []) CnErrClientSecretRequired) (\<lambda>_.
     andThen (lift_result (New (cv_rnd_id ce))) (\<lambda>i.
     andThen (lift_secret (kr_Seal (cv_aead ce) (cv_ring ce) (cv_nonce ce)
                (to_bytes (in_ClientSecret inp)) (secretAAD i))) (\<lambda>sealed.
       let c = new_connection i (ws_ID ws) name prov baseURL realm clientID (cv_now ce) in
       InTx (andThen (andThen (cnr_Create c sealed) (\<lambda>_. ret c)) (\<lambda>c.
         andThen (RecordTx (cv_audit ce) (cn_event (cn_ID c) (ev\<lparr> ea_Workspace := ws_PublicID ws \<rparr>)))
           (\<lambda>_. ret c))))))))))))"

definition cn_Get :: "string \<Rightarrow> string \<Rightarrow> connection act" where
  "cn_Get wid cid = andThen (cn_resolve wid cid) (\<lambda>(ws, c). ret c)"

definition cn_List :: "string \<Rightarrow> string \<Rightarrow> connection list act" where
  "cn_List wid rawStatus = andThen (cn_requireWorkspace wid) (\<lambda>ws.
     andThen (lift_result (cn_ParseStatusFilter rawStatus)) (\<lambda>f. cnr_List (ws_ID ws) f))"

record update_input =
  up_Name :: "string option"
  up_BaseURL :: "string option"
  up_Realm :: "string option"
  up_ClientID :: "string option"
  up_ClientSecret :: "string option"

definition optional :: "(string \<Rightarrow> go_error + 'a) \<Rightarrow> string option \<Rightarrow> go_error + 'a option" where
  "optional chk v =
     (case v of None \<Rightarrow> Inr None
      | Some raw \<Rightarrow> (case chk raw of Inl e \<Rightarrow> Inl e | Inr x \<Rightarrow> Inr (Some x)))"

definition seal_update :: "conn_env \<Rightarrow> string \<Rightarrow> string option \<Rightarrow> sealed option act" where
  "seal_update ce i v =
     (case v of
        None \<Rightarrow> ret None
      | Some secret \<Rightarrow>
          if secret = [] then fail CnErrClientSecretRequired
          else andThen (lift_secret (kr_Seal (cv_aead ce) (cv_ring ce) (cv_nonce ce)
                 (to_bytes secret) (secretAAD i))) (\<lambda>s. ret (Some s)))"

definition cn_Update ::
  "string \<Rightarrow> string \<Rightarrow> update_input \<Rightarrow> audit_event \<Rightarrow> conn_env \<Rightarrow> connection act" where
  "cn_Update wid cid inp ev ce =
     andThen (cn_resolve wid cid) (\<lambda>(ws, c).
     andThen (lift_result (CanUpdate c)) (\<lambda>_.
     andThen (lift_result (optional cn_checkName (up_Name inp))) (\<lambda>name.
     andThen (lift_result (optional (normalizeBaseURL (cv_url ce)) (up_BaseURL inp))) (\<lambda>baseURL.
     andThen (lift_result (optional (required CnErrRealmRequired) (up_Realm inp))) (\<lambda>realm.
     andThen (lift_result (optional (required CnErrClientIDRequired) (up_ClientID inp))) (\<lambda>clientID.
     andThen (seal_update ce (cn_ID c) (up_ClientSecret inp)) (\<lambda>sealed.
       let patch = \<lparr> pt_Name = name, pt_BaseURL = baseURL, pt_Realm = realm, pt_ClientID = clientID \<rparr> in
       InTx (andThen (found (cnr_UpdateConfig (cn_ID c) patch sealed (cv_now ce)) CnErrNotFound) (\<lambda>updated.
         andThen (RecordTx (cv_audit ce) (cn_event (cn_ID updated) ev)) (\<lambda>_. ret updated)))))))))) "

text \<open>Verify: everything up to the probe's answer, then the recording of it.\<close>

definition cn_probe :: "string \<Rightarrow> string \<Rightarrow> conn_env \<Rightarrow> (connection \<times> verify_target \<times> verify_report) act" where
  "cn_probe wid cid ce =
     andThen (cn_resolve wid cid) (\<lambda>(ws, c).
     andThen (found (cnr_OpenSecret (cn_ID c)) CnErrNotFound) (\<lambda>sealed.
     andThen (lift_secret (kr_Open (cv_aead ce) (cv_ring ce) sealed (secretAAD (cn_ID c)))) (\<lambda>plaintext.
       let target = \<lparr> vt_BaseURL = cn_BaseURL c, vt_Realm = cn_Realm c, vt_ClientID = cn_ClientID c,
             vt_ClientSecret = of_bytes plaintext \<rparr>
       in ret (c, target, cv_verify ce target))))"

definition cn_record_verdict :: "connection \<Rightarrow> verify_report \<Rightarrow> audit_event \<Rightarrow> conn_env \<Rightarrow> connection act" where
  "cn_record_verdict c rep ev ce =
     InTx (andThen (found (cnr_SaveVerification (cn_ID c) rep) CnErrNotFound) (\<lambda>updated.
       andThen (RecordTx (cv_audit ce) (cn_event (cn_ID updated) ev)) (\<lambda>_. ret updated)))"

definition cn_Verify ::
  "string \<Rightarrow> string \<Rightarrow> audit_event \<Rightarrow> conn_env \<Rightarrow> (connection \<times> verify_report) act" where
  "cn_Verify wid cid ev ce =
     andThen (cn_probe wid cid ce) (\<lambda>(c, target, rep).
       andThen (cn_record_verdict c rep ev ce) (\<lambda>updated. ret (updated, rep)))"

definition cn_activation_check :: "string \<Rightarrow> string \<Rightarrow> conn_env \<Rightarrow> connection act" where
  "cn_activation_check wid cid ce =
     andThen (cn_resolve wid cid) (\<lambda>(ws, c).
     andThen (require (\<not> ws_IsArchived ws) CnErrWorkspaceArchived) (\<lambda>_.
     andThen (lift_result (CanActivate (cv_now ce) c)) (\<lambda>_. ret c)))"

definition cn_activation_commit :: "connection \<Rightarrow> audit_event \<Rightarrow> conn_env \<Rightarrow> connection act" where
  "cn_activation_commit c ev ce =
     InTx (andThen (found (cnr_Activate (cn_ID c) (cn_WorkspaceID c) (cv_now ce)) CnErrNotFound) (\<lambda>activated.
       andThen (RecordTx (cv_audit ce) (cn_event (cn_ID activated) ev)) (\<lambda>_. ret activated)))"

definition cn_Activate :: "string \<Rightarrow> string \<Rightarrow> audit_event \<Rightarrow> conn_env \<Rightarrow> connection act" where
  "cn_Activate wid cid ev ce =
     andThen (cn_activation_check wid cid ce) (\<lambda>c. cn_activation_commit c ev ce)"

definition cn_Retire :: "string \<Rightarrow> string \<Rightarrow> audit_event \<Rightarrow> conn_env \<Rightarrow> connection act" where
  "cn_Retire wid cid ev ce =
     andThen (cn_resolve wid cid) (\<lambda>(ws, c).
     andThen (lift_result (CanRetire c)) (\<lambda>_.
       InTx (andThen (found (cnr_Retire (cn_ID c) (cv_now ce)) CnErrNotFound) (\<lambda>retired.
         andThen (RecordTx (cv_audit ce) (cn_event (cn_ID retired) ev)) (\<lambda>_. ret retired)))))"

text \<open>Delete returns nothing; the connection it read is kept as the result, for the
  statement of its effect.\<close>

definition cn_Delete :: "string \<Rightarrow> string \<Rightarrow> audit_event \<Rightarrow> conn_env \<Rightarrow> connection act" where
  "cn_Delete wid cid ev ce =
     andThen (cn_resolve wid cid) (\<lambda>(ws, c).
     andThen (lift_result (CanDelete c)) (\<lambda>_.
       InTx (andThen (andThen (cnr_Delete (cn_ID c)) (\<lambda>_. ret c)) (\<lambda>c.
         andThen (RecordTx (cv_audit ce) (cn_event (cn_ID c) ev)) (\<lambda>_. ret c)))))"

end
