(* ===== verification/Verifier.thy ===== *)
theory Verifier
  imports Text ConnectionService
begin

text \<open>
  \<^verbatim>\<open>internal/connection/verifier.go\<close>: the read-only probe of a Keycloak realm.
  What it asks is a \<open>request\<close>; what answers is the record \<open>net\<close>: whether a
  request can be built (\<^verbatim>\<open>http.NewRequest\<close>), the transport with its status and
  body or the text of its error, the base64url decoder and the two JSON decoders.
  A panic of \<^verbatim>\<open>itoa\<close> (its buffer holds eight digits) is \<^const>\<open>None\<close>.

  Lemmas: the verdict is OK exactly when discovery and authentication succeeded,
  the access mode is never better than what was proven, no status of an HTTP
  response makes the probe panic, and the realm stays one segment of every URL.
\<close>

record request =
  hr_method :: string
  hr_url :: string
  hr_bearer :: string
  hr_form :: string

record net =
  nt_build :: "request \<Rightarrow> string option"
  nt_do :: "request \<Rightarrow> string + int \<times> string"
  nt_base64 :: "string \<Rightarrow> string option"
  nt_access_token :: "string \<Rightarrow> string option"
  nt_claims :: "string \<Rightarrow> (string \<times> string list) list option"

definition CheckReachable :: string where "CheckReachable = ''reachable''"
definition CheckRealmExists :: string where "CheckRealmExists = ''realm_exists''"
definition CheckClientAuth :: string where "CheckClientAuth = ''client_authenticated''"
definition CheckRealmRead :: string where "CheckRealmRead = ''realm_readable''"
definition CheckUsersListing :: string where "CheckUsersListing = ''users_listable''"
definition CheckWriteCapable :: string where "CheckWriteCapable = ''write_capable''"

record check =
  ck_Name :: string
  ck_OK :: bool
  ck_Detail :: string

record full_report = verify_report +
  vr_Checks :: "check list"

definition mk_check :: "string \<Rightarrow> bool \<Rightarrow> string \<Rightarrow> check" where
  "mk_check name ok detail = \<lparr> ck_Name = name, ck_OK = ok, ck_Detail = detail \<rparr>"

text \<open>\<^verbatim>\<open>buf\<close> has eight bytes; \<open>i\<close> is the index written next plus one.\<close>

fun itoa_loop :: "nat \<Rightarrow> nat \<Rightarrow> string \<Rightarrow> string option" where
  "itoa_loop i n out =
     (if n = 0 then Some out
      else if i = 0 then None
      else itoa_loop (i - 1) (n div 10) (digit_char n # out))"

declare itoa_loop.simps [simp del]

definition itoa :: "int \<Rightarrow> string option" where
  "itoa n = (if n = 0 then Some ''0'' else if n < 0 then Some [] else itoa_loop 8 (nat n) [])"

definition transportReason :: "string \<Rightarrow> string" where
  "transportReason msg =
     (if contains ''context deadline exceeded'' msg \<or> contains ''Timeout'' msg then ''timed out''
      else if contains ''no such host'' msg then ''host does not resolve''
      else if contains ''connection refused'' msg then ''connection refused''
      else if contains ''certificate'' msg \<or> contains ''tls:'' msg \<or> contains ''x509'' msg
      then ''TLS handshake failed''
      else if contains ''unsupported protocol scheme'' msg then ''base_url is not a valid http or https URL''
      else ''network error'')"

definition get :: "net \<Rightarrow> string \<Rightarrow> string \<Rightarrow> string + int \<times> string" where
  "get nt endpoint token =
     (let rq = \<lparr> hr_method = ''GET'', hr_url = endpoint, hr_bearer = token, hr_form = [] \<rparr> in
      case nt_build nt rq of
        Some msg \<Rightarrow> Inl msg
      | None \<Rightarrow> (case nt_do nt rq of
            Inl msg \<Rightarrow> Inl msg
          | Inr (status, body) \<Rightarrow> Inr (status, take 8192 body)))"

definition probeRead :: "net \<Rightarrow> string \<Rightarrow> string \<Rightarrow> string \<Rightarrow> (bool \<times> string) option" where
  "probeRead nt endpoint token what =
     (case get nt endpoint token of
        Inl msg \<Rightarrow> Some (False, ''could not read '' @ what @ '': '' @ transportReason msg)
      | Inr (status, _) \<Rightarrow>
          if status = 200 then Some (True, ''read '' @ what)
          else if status = 403 then Some (False, ''service account is not permitted to read '' @ what @
            '' (grant it realm-management roles)'')
          else if status = 401 then Some (False, ''token was rejected when reading '' @ what)
          else map_option (\<lambda>n. (False, ''reading '' @ what @ '' returned HTTP '' @ n)) (itoa status))"

definition form_Encode :: "verify_target \<Rightarrow> string" where
  "form_Encode t =
     ''client_id='' @ QueryEscape (vt_ClientID t) @ ''&client_secret='' @ QueryEscape (vt_ClientSecret t) @
     ''&grant_type=client_credentials''"

definition token_request :: "string \<Rightarrow> verify_target \<Rightarrow> request" where
  "token_request base t = \<lparr> hr_method = ''POST'', hr_url = base @ ''/realms/'' @ PathEscape (vt_Realm t) @
     ''/protocol/openid-connect/token'', hr_bearer = [], hr_form = form_Encode t \<rparr>"

definition authenticate :: "net \<Rightarrow> string \<Rightarrow> verify_target \<Rightarrow> (string \<times> string \<times> bool) option" where
  "authenticate nt base t =
     (let rq = token_request base t in
      case nt_build nt rq of
        Some _ \<Rightarrow> Some ([], ''could not build the token request'', False)
      | None \<Rightarrow> (case nt_do nt rq of
            Inl msg \<Rightarrow> Some ([], ''token endpoint unreachable: '' @ transportReason msg, False)
          | Inr (status, raw) \<Rightarrow>
              let body = take 8192 raw in
              if status = 200 then
                (case nt_access_token nt body of
                   None \<Rightarrow> Some ([], ''token endpoint returned no access token'', False)
                 | Some token \<Rightarrow>
                     if token = [] then Some ([], ''token endpoint returned no access token'', False)
                     else Some (token, ''authenticated as service account'', True))
              else if status = 401 then Some ([], ''client id or client secret was rejected'', False)
              else if status = 400 then Some ([], ''provider rejected the grant; check that the client is confidential and has service accounts enabled'', False)
              else map_option (\<lambda>n. ([], ''token endpoint returned HTTP '' @ n, False)) (itoa status)))"

definition writeGrantRoles :: "string list" where
  "writeGrantRoles = [''realm-admin'', ''manage-users'']"

definition realmManagementClient :: string where "realmManagementClient = ''realm-management''"

definition decodeJWTClaims :: "net \<Rightarrow> string \<Rightarrow> (string \<times> string list) list option" where
  "decodeJWTClaims nt token =
     (let parts = split_at CHR ''.'' token in
      if length parts \<noteq> 3 \<or> parts ! 1 = [] then None
      else if length (parts ! 1) > 64 * 1024 then None
      else case nt_base64 nt (trim_right CHR ''='' (parts ! 1)) of
        None \<Rightarrow> None
      | Some payload \<Rightarrow> nt_claims nt payload)"

definition inspectWriteGrant :: "net \<Rightarrow> string \<Rightarrow> bool \<times> bool \<times> string" where
  "inspectWriteGrant nt token =
     (case decodeJWTClaims nt token of
        None \<Rightarrow> (False, False, ''could not read the granted roles from the provider's token; write capability is unproven'')
      | Some access \<Rightarrow>
          (case map_of access realmManagementClient of
             None \<Rightarrow> (False, False, ''the provider's token does not list realm-management roles (client scope), so write capability is unproven'')
           | Some roles \<Rightarrow>
               (case find (\<lambda>want. want \<in> set roles) writeGrantRoles of
                  Some want \<Rightarrow> (True, True, ''service account holds realm-management/'' @ want @ '', so writes are permitted'')
                | None \<Rightarrow> (False, True, ''service account holds realm-management roles but none that permit writes (grant it manage-users and re-verify)''))))"

definition report :: "bool \<Rightarrow> access_mode \<Rightarrow> string \<Rightarrow> int \<Rightarrow> check list \<Rightarrow> full_report" where
  "report ok mode summary now checks = \<lparr> vr_OK = ok, vr_AccessMode = mode, vr_Summary = summary,
     vr_CheckedAt = now, vr_Checks = checks \<rparr>"

text \<open>Steps four to six: an authenticated connection is graded.\<close>

definition grade :: "net \<Rightarrow> int \<Rightarrow> string \<Rightarrow> string \<Rightarrow> check list \<Rightarrow> full_report option" where
  "grade nt now adminBase token checks =
     Option.bind (probeRead nt adminBase token ''realm settings'') (\<lambda>(realmOK, realmDetail).
     Option.bind (probeRead nt (adminBase @ ''/users?max=1'') token ''user listing'') (\<lambda>(usersOK, usersDetail).
       let checks = checks @ [mk_check CheckRealmRead realmOK realmDetail,
             mk_check CheckUsersListing usersOK usersDetail] in
       Some
         (if \<not> realmOK \<or> \<not> usersOK
          then report True AccessModeLimited ''provider reachable and client authenticated, but the service account lacks realm-management privileges'' now checks
          else
            let (writeOK, writeProven, writeDetail) = inspectWriteGrant nt token;
                checks = checks @ [mk_check CheckWriteCapable writeOK writeDetail] in
            if writeOK then report True AccessModeFull ''provider reachable, realm found, client authenticated, full admin access'' now checks
            else if writeProven then report True AccessModeReadOnly ''provider reachable and readable, but the service account has no write privileges'' now checks
            else report True AccessModeUnknown ''provider reachable and readable; write capability could not be determined'' now checks)))"

definition discoveryURL :: "verify_target \<Rightarrow> string" where
  "discoveryURL t = trim_right CHR ''/'' (vt_BaseURL t) @ ''/realms/'' @ PathEscape (vt_Realm t) @
     ''/.well-known/openid-configuration''"

definition Verify :: "net \<Rightarrow> int \<Rightarrow> verify_target \<Rightarrow> full_report option" where
  "Verify nt now t =
     (let base = trim_right CHR ''/'' (vt_BaseURL t) in
      case get nt (discoveryURL t) [] of
        Inl msg \<Rightarrow> Some (report False AccessModeUnknown ''provider unreachable'' now
          [mk_check CheckReachable False (''could not reach the provider: '' @ transportReason msg)])
      | Inr (status, _) \<Rightarrow>
          if status = 404 then Some (report False AccessModeUnknown ''realm not found'' now
            [mk_check CheckReachable True ''provider responded'',
             mk_check CheckRealmExists False ''realm not found at this provider''])
          else if status \<noteq> 200 then
            map_option (\<lambda>n. report False AccessModeUnknown ''realm discovery failed'' now
              [mk_check CheckReachable True ''provider responded'',
               mk_check CheckRealmExists False (''realm discovery returned HTTP '' @ n)]) (itoa status)
          else
            let checks = [mk_check CheckReachable True ''provider responded'',
                  mk_check CheckRealmExists True ''realm discovery document found''] in
            Option.bind (authenticate nt base t) (\<lambda>(token, authDetail, ok).
              let checks = checks @ [mk_check CheckClientAuth ok authDetail] in
              if \<not> ok then Some (report False AccessModeUnknown ''admin client authentication failed'' now checks)
              else grade nt now (base @ ''/admin/realms/'' @ PathEscape (vt_Realm t)) token checks))"

section \<open>Lemmas\<close>

text \<open>The loop writes the digits \<open>Itoa\<close> does while its buffer lasts.\<close>

lemma itoa_loop_fits: "0 < n \<Longrightarrow> n < 10 ^ i \<Longrightarrow> itoa_loop i n out = Some (Itoa n @ out)"
proof (induction i arbitrary: n out)
  case (Suc i)
  show ?case
  proof (cases "n < 10")
    case True
    with Suc.prems show ?thesis
      by (subst itoa_loop.simps, subst itoa_loop.simps, subst Itoa.simps) simp
  next
    case False
    then have "0 < n div 10" "n div 10 < 10 ^ i" using Suc.prems by (auto simp: div_less_iff_less_mult mult.commute)
    note IH = Suc.IH [OF this]
    have "itoa_loop (Suc i) n out = itoa_loop i (n div 10) (digit_char n # out)"
      using Suc.prems by (subst itoa_loop.simps) simp
    moreover have "Itoa n = Itoa (n div 10) @ [digit_char n]" using False by (subst Itoa.simps) simp
    ultimately show ?thesis by (simp add: IH)
  qed
qed simp

lemma itoa_loop_full: "10 ^ i \<le> n \<Longrightarrow> itoa_loop i n out = None"
proof (induction i arbitrary: n out)
  case 0
  then show ?case by (subst itoa_loop.simps) simp
next
  case (Suc i)
  then have "10 ^ i \<le> n div 10" by (auto simp: less_eq_div_iff_mult_less_eq)
  from Suc.IH [OF this] have "itoa_loop (Suc i - 1) (n div 10) (digit_char n # out) = None" by simp
  moreover have "n \<noteq> 0" using Suc.prems by (metis not_one_le_zero one_le_power order_trans one_le_numeral)
  ultimately show ?case by (subst itoa_loop.simps) simp
qed

lemma itoa_eq: "itoa n = (if n < 0 then Some [] else if n < 10 ^ 8 then Some (Itoa (nat n)) else None)"
proof (cases "n \<le> 0")
  case True
  moreover have "Itoa 0 = ''0''" by code_simp
  ultimately show ?thesis by (auto simp: itoa_def)
next
  case False
  then have "0 < nat n" by simp
  with False itoa_loop_fits [OF this, of 8 "[]"] itoa_loop_full [of 8 "nat n" "[]"] show ?thesis
    by (cases "n < 10 ^ 8") (auto simp: itoa_def)
qed

section \<open>What the probe found\<close>

abbreviation realm_base :: "verify_target \<Rightarrow> string" where
  "realm_base t \<equiv> trim_right CHR ''/'' (vt_BaseURL t)"

definition answers_ok :: "net \<Rightarrow> string \<Rightarrow> string \<Rightarrow> bool" where
  "answers_ok nt endpoint token \<longleftrightarrow> (case get nt endpoint token of Inl _ \<Rightarrow> False | Inr (status, _) \<Rightarrow> status = 200)"

definition authenticated :: "net \<Rightarrow> verify_target \<Rightarrow> string \<Rightarrow> bool" where
  "authenticated nt t token \<longleftrightarrow> (\<exists>detail. authenticate nt (realm_base t) t = Some (token, detail, True))"

definition admin_url :: "verify_target \<Rightarrow> string" where
  "admin_url t = realm_base t @ ''/admin/realms/'' @ PathEscape (vt_Realm t)"

definition reads_ok :: "net \<Rightarrow> verify_target \<Rightarrow> string \<Rightarrow> bool" where
  "reads_ok nt t token \<longleftrightarrow> answers_ok nt (admin_url t) token \<and> answers_ok nt (admin_url t @ ''/users?max=1'') token"

definition granted_roles :: "net \<Rightarrow> string \<Rightarrow> string list option" where
  "granted_roles nt token = Option.bind (decodeJWTClaims nt token) (\<lambda>access. map_of access realmManagementClient)"

definition proven_mode :: "net \<Rightarrow> verify_target \<Rightarrow> string \<Rightarrow> access_mode" where
  "proven_mode nt t token =
     (if \<not> reads_ok nt t token then AccessModeLimited
      else case granted_roles nt token of
        None \<Rightarrow> AccessModeUnknown
      | Some roles \<Rightarrow> if set writeGrantRoles \<inter> set roles = {} then AccessModeReadOnly else AccessModeFull)"

lemma probeRead_ok: "probeRead nt endpoint token what = Some (ok, detail) \<Longrightarrow> ok = answers_ok nt endpoint token"
  by (auto simp: probeRead_def answers_ok_def split: sum.splits if_splits)

lemma inspectWriteGrant_eq:
  "(case inspectWriteGrant nt token of (capable, proven, _) \<Rightarrow> (capable, proven)) =
     (case granted_roles nt token of None \<Rightarrow> (False, False)
      | Some roles \<Rightarrow> (set writeGrantRoles \<inter> set roles \<noteq> {}, True))"
  by (auto simp: inspectWriteGrant_def granted_roles_def writeGrantRoles_def split: option.split)

lemma grade_mode:
  assumes "grade nt now (admin_url t) token checks = Some r"
  shows "vr_OK r \<and> vr_AccessMode r = proven_mode nt t token"
proof -
  from assms obtain realmOK rd usersOK ud where
    p: "probeRead nt (admin_url t) token ''realm settings'' = Some (realmOK, rd)"
      "probeRead nt (admin_url t @ ''/users?max=1'') token ''user listing'' = Some (usersOK, ud)"
    by (auto simp: grade_def bind_eq_Some_conv)
  have ok: "reads_ok nt t token \<longleftrightarrow> realmOK \<and> usersOK"
    using probeRead_ok [OF p(1)] probeRead_ok [OF p(2)] by (simp add: reads_ok_def)
  obtain c v d where i: "inspectWriteGrant nt token = (c, v, d)" by (cases "inspectWriteGrant nt token") auto
  have "(c, v) = (case granted_roles nt token of None \<Rightarrow> (False, False)
      | Some roles \<Rightarrow> (set writeGrantRoles \<inter> set roles \<noteq> {}, True))"
    using inspectWriteGrant_eq [of nt token] i by simp
  with assms p ok i show ?thesis
    by (cases "granted_roles nt token") (auto simp: grade_def report_def proven_mode_def Let_def split: if_splits)
qed

lemma authenticate_token: "authenticate nt base t = Some (token, detail, True) \<Longrightarrow> token \<noteq> []"
  by (auto simp: authenticate_def Let_def split: option.splits sum.splits if_splits)

section \<open>Properties\<close>

text \<open>C28: a verification that returns says the connection is OK exactly when the
  realm's discovery document was served and the client authenticated; the access
  mode of an OK connection is exactly what was proven (limited when a read was
  refused, full only with a write role in the token's own grants, read-only when
  the grants are listed without one, unknown otherwise), and otherwise unknown.\<close>

theorem verify_verdict:
  assumes "Verify nt now t = Some r"
  shows "(vr_OK r \<longleftrightarrow> answers_ok nt (discoveryURL t) [] \<and> (\<exists>token. authenticated nt t token)) \<and>
    (\<not> vr_OK r \<longrightarrow> vr_AccessMode r = AccessModeUnknown) \<and>
    (\<forall>token. vr_OK r \<and> authenticated nt t token \<longrightarrow> vr_AccessMode r = proven_mode nt t token)"
proof (cases "answers_ok nt (discoveryURL t) []")
  case False
  with assms have "\<not> vr_OK r \<and> vr_AccessMode r = AccessModeUnknown"
    by (auto simp: Verify_def answers_ok_def report_def Let_def split: sum.splits if_splits)
  with False show ?thesis by blast
next
  case True
  then obtain b where g: "get nt (discoveryURL t) [] = Inr (200, b)"
    by (auto simp: answers_ok_def split: sum.splits)
  with assms obtain token detail ok where a: "authenticate nt (realm_base t) t = Some (token, detail, ok)"
    by (auto simp: Verify_def Let_def bind_eq_Some_conv)
  show ?thesis
  proof (cases ok)
    case True
    from assms g a True obtain checks where "grade nt now (admin_url t) token checks = Some r"
      by (auto simp: Verify_def Let_def admin_url_def)
    from grade_mode [OF this] \<open>answers_ok nt (discoveryURL t) []\<close> a True show ?thesis
      by (auto simp: authenticated_def)
  next
    case False
    with assms g a show ?thesis by (auto simp: Verify_def Let_def report_def authenticated_def)
  qed
qed

text \<open>C24: \<^verbatim>\<open>itoa\<close> writes what \<^verbatim>\<open>strconv.Itoa\<close> does up to eight digits, runs
  past its buffer beyond that and writes nothing for a negative number; the
  statuses an HTTP response can carry have three digits, so with them the probe
  always returns a report.\<close>

theorem verify_total:
  assumes "\<And>rq status body. nt_do nt rq = Inr (status, body) \<Longrightarrow> 0 \<le> status \<and> status < 1000"
  shows "(\<exists>r. Verify nt now t = Some r) \<and>
    itoa n = (if n < 0 then Some [] else if n < 10 ^ 8 then Some (Itoa (nat n)) else None)"
proof -
  have g: "itoa status \<noteq> None" if "get nt endpoint token = Inr (status, body)" for endpoint token status body
    using that assms by (auto simp: get_def itoa_eq Let_def split: option.splits sum.splits prod.splits dest!: assms)
  have p: "probeRead nt endpoint token what \<noteq> None" for endpoint token what
    using g [of endpoint token] by (auto simp: probeRead_def split: sum.split)
  have gr: "grade nt now adminBase token checks \<noteq> None" for adminBase token checks
    using p [of adminBase token "''realm settings''"] p [of "adminBase @ ''/users?max=1''" token "''user listing''"]
    by (auto simp: grade_def Let_def)
  have i: "itoa status \<noteq> None" if "0 \<le> status \<and> status < 1000" for status
    using that by (simp add: itoa_eq)
  have a: "authenticate nt base t \<noteq> None" for base
    using i [OF assms] by (auto simp: authenticate_def Let_def split: option.split sum.split)
  obtain token detail ok where "authenticate nt (realm_base t) t = Some (token, detail, ok)"
    using a [of "realm_base t"] by (cases "authenticate nt (realm_base t) t") auto
  then have "Verify nt now t \<noteq> None"
    using g [of "discoveryURL t" "[]"] gr by (auto simp: Verify_def Let_def split: sum.split)
  then show ?thesis using itoa_eq by blast
qed

text \<open>The requests a probe may send: reads, and the one grant at the token
  endpoint, the only one that carries the secret.\<close>

definition read_request :: "verify_target \<Rightarrow> request \<Rightarrow> bool" where
  "read_request t rq \<longleftrightarrow> hr_method rq = ''GET'' \<and> hr_form rq = [] \<and>
     ((hr_url rq = discoveryURL t \<and> hr_bearer rq = []) \<or>
      hr_url rq \<in> {admin_url t, admin_url t @ ''/users?max=1''})"

definition agree_on :: "(request \<Rightarrow> bool) \<Rightarrow> net \<Rightarrow> net \<Rightarrow> bool" where
  "agree_on P nt nt' \<longleftrightarrow> (\<forall>rq. P rq \<longrightarrow> nt_build nt' rq = nt_build nt rq \<and> nt_do nt' rq = nt_do nt rq) \<and>
     nt_base64 nt' = nt_base64 nt \<and> nt_access_token nt' = nt_access_token nt \<and> nt_claims nt' = nt_claims nt"

lemma get_agree:
  "agree_on P nt nt' \<Longrightarrow> P \<lparr> hr_method = ''GET'', hr_url = endpoint, hr_bearer = token, hr_form = [] \<rparr> \<Longrightarrow>
     get nt' endpoint token = get nt endpoint token"
  unfolding get_def Let_def agree_on_def by metis

text \<open>The probe is read-only: nothing it reports depends on any request but the
  three GETs of the realm and the one POST at its token endpoint, where alone the
  client secret is sent; whatever the realm is called, it is one segment of those
  URLs.\<close>

theorem verify_read_only:
  assumes "agree_on (\<lambda>rq. read_request t rq \<or> rq = token_request (realm_base t) t) nt nt'"
  shows "Verify nt' now t = Verify nt now t \<and>
    CHR ''/'' \<notin> set (PathEscape (vt_Realm t)) \<and> CHR ''?'' \<notin> set (PathEscape (vt_Realm t))"
proof -
  have g: "get nt' (discoveryURL t) [] = get nt (discoveryURL t) []"
    by (rule get_agree [OF assms]) (simp add: read_request_def)
  have p: "probeRead nt' e token what = probeRead nt e token what"
    if "e \<in> {admin_url t, admin_url t @ ''/users?max=1''}" for e token what
  proof -
    have "get nt' e token = get nt e token"
      by (rule get_agree [OF assms]) (use that in \<open>simp add: read_request_def\<close>)
    then show ?thesis unfolding probeRead_def by (simp only:)
  qed
  have "nt_build nt' (token_request (realm_base t) t) = nt_build nt (token_request (realm_base t) t)"
    "nt_do nt' (token_request (realm_base t) t) = nt_do nt (token_request (realm_base t) t)" and b: "nt_base64 nt' = nt_base64 nt"
    "nt_access_token nt' = nt_access_token nt" "nt_claims nt' = nt_claims nt"
    using assms by (auto simp: agree_on_def)
  note same = this
  have a: "authenticate nt' (realm_base t) t = authenticate nt (realm_base t) t"
    unfolding authenticate_def Let_def same ..
  have i: "inspectWriteGrant nt' token = inspectWriteGrant nt token" for token
    unfolding inspectWriteGrant_def decodeJWTClaims_def b ..
  have gr: "grade nt' now (admin_url t) token checks = grade nt now (admin_url t) token checks" for token checks
    unfolding grade_def i by (simp add: p)
  have "Verify nt' now t = Verify nt now t"
    unfolding Verify_def Let_def g a admin_url_def [symmetric] gr ..
  then show ?thesis using PathEscape_segment by blast
qed

definition demo_net :: net where
  "demo_net = \<lparr> nt_build = (\<lambda>_. None), nt_do = (\<lambda>rq. if contains ''/users'' (hr_url rq) then Inr (403, []) else Inr (200, [])),
     nt_base64 = (\<lambda>_. None), nt_access_token = (\<lambda>_. Some ''t''), nt_claims = (\<lambda>_. None) \<rparr>"

definition demo_target :: verify_target where
  "demo_target = \<lparr> vt_BaseURL = ''http://kc/'', vt_Realm = ''a/b'', vt_ClientID = ''c'', vt_ClientSecret = ''s'' \<rparr>"

definition demo_report :: "full_report option" where
  "demo_report = Verify demo_net 5 demo_target"

lemma demo_report: "\<exists>r. demo_report = Some r \<and> vr_OK r \<and> vr_AccessMode r = AccessModeLimited"
proof -
  have "(case demo_report of None \<Rightarrow> False | Some r \<Rightarrow> vr_OK r \<and> vr_AccessMode r = AccessModeLimited)"
    by code_simp
  then show ?thesis by (auto split: option.splits)
qed

theorem verify_verdict_witness:
  "\<exists>token. authenticated demo_net demo_target token \<and> proven_mode demo_net demo_target token = AccessModeLimited"
proof -
  obtain r where r: "Verify demo_net 5 demo_target = Some r" "vr_OK r" "vr_AccessMode r = AccessModeLimited"
    using demo_report unfolding demo_report_def by blast
  with verify_verdict [OF r(1)] show ?thesis by force
qed

theorem verify_total_witness: "(\<exists>r. Verify demo_net 5 demo_target = Some r) \<and> itoa 404 = Some (Itoa 404)"
proof -
  have "0 \<le> status \<and> status < 1000" if "nt_do demo_net rq = Inr (status, body)" for rq status body
    using that by (auto simp: demo_net_def split: if_splits)
  from verify_total [of demo_net, OF this] show ?thesis by simp
qed

definition other_net :: net where
  "other_net = demo_net\<lparr> nt_do := (\<lambda>rq. if hr_method rq = ''PUT'' then Inr (500, []) else nt_do demo_net rq) \<rparr>"

theorem verify_read_only_witness: "Verify other_net 5 demo_target = Verify demo_net 5 demo_target"
proof -
  have "agree_on (\<lambda>rq. read_request demo_target rq \<or> rq = token_request (realm_base demo_target) demo_target) demo_net other_net"
    by (auto simp: agree_on_def other_net_def read_request_def token_request_def)
  from verify_read_only [OF this] show ?thesis by blast
qed

end
