(* ===== verification/KeycloakClient.thy ===== *)
theory KeycloakClient
  imports Verifier Encoding
begin

text \<open>
  \<^verbatim>\<open>internal/identity/keycloak/admin.go\<close>: the client of Keycloak's Admin REST
  API that owns the service account's token, and the sentinel errors of
  \<^verbatim>\<open>internal/identity/errors.go\<close>. Its state is the cached token, the clock, the
  answers the transport will give (in the order of the requests; none left is a
  transport error) and the log of the requests sent. A response carries the time it
  is received at. Bodies are sent as the JSON text they are marshalled to.

  Lemmas: a call sends at most two admin requests, the second only after a 401 and
  with a token minted after it; the answer's status alone decides the error.
\<close>

datatype provider_error =
    IdNotFound
  | IdBadRequest string
  | IdForbidden string
  | IdProviderForbidden
  | IdConflict
  | IdNotConfigured
  | IdUnavailable string
  | IdRoleReserved
  | IdRoleProtected string
  | IdField string provider_error
  | IdOther string

record admin_config =
  ac_BaseURL :: string
  ac_Realm :: string
  ac_ClientID :: string
  ac_ClientSecret :: string

record admin_client =
  kc_cfg :: admin_config
  kc_tokenURL :: string
  kc_adminBase :: string

record cached_token =
  ct_value :: string
  ct_expiresAt :: int

definition NewAdminClient :: "admin_config \<Rightarrow> provider_error + admin_client" where
  "NewAdminClient cfg =
     (if ac_BaseURL cfg = [] \<or> ac_Realm cfg = [] \<or> ac_ClientID cfg = [] \<or> ac_ClientSecret cfg = []
      then Inl IdNotConfigured
      else
        let base = trim_right CHR ''/'' (ac_BaseURL cfg) in
        Inr \<lparr> kc_cfg = cfg,
          kc_tokenURL = base @ ''/realms/'' @ ac_Realm cfg @ ''/protocol/openid-connect/token'',
          kc_adminBase = base @ ''/admin/realms/'' @ ac_Realm cfg \<rparr>)"

record response =
  rs_status :: int
  rs_body :: string
  rs_location :: string
  rs_at :: int

record client_world =
  cw_token :: "cached_token option"
  cw_now :: int
  cw_answers :: "(string + response) list"
  cw_sent :: "request list"

type_synonym 'a call = "client_world \<Rightarrow> (provider_error + 'a) \<times> client_world"

text \<open>\<^verbatim>\<open>http.NewRequest\<close> refuses what does not parse as a URL; \<open>dec\<close> decodes the
  token endpoint's JSON.\<close>

record client_env =
  ev_build :: "request \<Rightarrow> string option"
  ev_token :: "string \<Rightarrow> (string \<times> int) option"

definition http_Do :: "request \<Rightarrow> client_world \<Rightarrow> (string + response) \<times> client_world" where
  "http_Do rq w =
     (let w1 = w\<lparr> cw_sent := cw_sent w @ [rq] \<rparr> in
      case cw_answers w of
        [] \<Rightarrow> (Inl ''no answer'', w1)
      | Inl msg # as \<Rightarrow> (Inl msg, w1\<lparr> cw_answers := as \<rparr>)
      | Inr rs # as \<Rightarrow> (Inr rs, w1\<lparr> cw_answers := as, cw_now := rs_at rs \<rparr>))"

definition tokenRefreshSkew :: int where "tokenRefreshSkew = 10 * 1000000000"

definition mint_request :: "admin_client \<Rightarrow> request" where
  "mint_request c = \<lparr> hr_method = ''POST'', hr_url = kc_tokenURL c, hr_bearer = [],
     hr_form = ''client_id='' @ QueryEscape (ac_ClientID (kc_cfg c)) @ ''&client_secret='' @
       QueryEscape (ac_ClientSecret (kc_cfg c)) @ ''&grant_type=client_credentials'' \<rparr>"

definition mint_token :: "client_env \<Rightarrow> admin_client \<Rightarrow> string call" where
  "mint_token ev c w =
     (case ev_build ev (mint_request c) of
        Some msg \<Rightarrow> (Inl (IdOther msg), w)
      | None \<Rightarrow>
          (case http_Do (mint_request c) w of
             (Inl msg, w1) \<Rightarrow> (Inl (IdUnavailable (''token endpoint: '' @ msg)), w1)
           | (Inr rs, w1) \<Rightarrow>
               if rs_status rs \<noteq> 200 then (Inl (IdUnavailable (take 4096 (rs_body rs))), w1)
               else (case ev_token ev (rs_body rs) of
                   None \<Rightarrow> (Inl (IdUnavailable ''decode token response''), w1)
                 | Some (token, expiresIn) \<Rightarrow>
                     if token = [] then (Inl (IdUnavailable ''empty access_token in response''), w1)
                     else (Inr token, w1\<lparr> cw_token := Some \<lparr> ct_value = token,
                       ct_expiresAt = cw_now w1 + wrap64 (expiresIn * 1000000000) \<rparr> \<rparr>))))"

definition acquireToken :: "client_env \<Rightarrow> admin_client \<Rightarrow> string call" where
  "acquireToken ev c w =
     (case cw_token w of
        Some t \<Rightarrow>
          if ct_expiresAt t - cw_now w > tokenRefreshSkew then (Inr (ct_value t), w) else mint_token ev c w
      | None \<Rightarrow> mint_token ev c w)"

text \<open>The steps \<^verbatim>\<open>doOnce\<close>, \<^verbatim>\<open>doCreateOnce\<close> and \<^verbatim>\<open>doTextOnce\<close> share: the token,
  the request, and the one retry after a 401. \<open>body\<close> is what is sent.\<close>

definition admin_request :: "admin_client \<Rightarrow> string \<Rightarrow> string \<Rightarrow> string \<Rightarrow> string \<Rightarrow> request" where
  "admin_request c meth path token body =
     \<lparr> hr_method = meth, hr_url = kc_adminBase c @ path, hr_bearer = token, hr_form = body \<rparr>"

function send_once ::
  "client_env \<Rightarrow> admin_client \<Rightarrow> string \<Rightarrow> string \<Rightarrow> string \<Rightarrow> bool \<Rightarrow> response call" where
  "send_once ev c meth path body allowRetry w =
     (case acquireToken ev c w of
        (Inl e, w1) \<Rightarrow> (Inl e, w1)
      | (Inr token, w1) \<Rightarrow>
          let rq = admin_request c meth path token body in
          (case ev_build ev rq of
             Some msg \<Rightarrow> (Inl (IdOther msg), w1)
           | None \<Rightarrow>
               (case http_Do rq w1 of
                  (Inl msg, w2) \<Rightarrow> (Inl (IdUnavailable msg), w2)
                | (Inr rs, w2) \<Rightarrow>
                    if rs_status rs = 401 \<and> allowRetry
                    then send_once ev c meth path body False (w2\<lparr> cw_token := None \<rparr>)
                    else (Inr rs, w2))))"
  by pat_completeness auto

termination send_once
  by (relation "measure (\<lambda>(ev, c, meth, path, body, allowRetry, w). if allowRetry then 1 else 0)") auto

declare send_once.simps [simp del]

definition upstream :: "int \<Rightarrow> string" where
  "upstream status = ''upstream HTTP '' @ Itoa (nat status)"

definition admin_status_error :: "response \<Rightarrow> provider_error option" where
  "admin_status_error rs =
     (let s = rs_status rs in
      if s = 404 then Some IdNotFound
      else if s = 403 then Some IdProviderForbidden
      else if s = 400 then Some (IdBadRequest (take 1024 (rs_body rs)))
      else if s = 409 then Some IdConflict
      else if s \<ge> 500 then Some (IdUnavailable (upstream s))
      else if s \<ge> 400 then Some (IdOther (take 1024 (rs_body rs)))
      else None)"

text \<open>\<open>out\<close> is the decoder of the value asked for, if any.\<close>

definition doJSON ::
  "client_env \<Rightarrow> admin_client \<Rightarrow> string \<Rightarrow> string \<Rightarrow> string \<Rightarrow> string \<Rightarrow> (string \<Rightarrow> 'a option) option \<Rightarrow>
     'a option call" where
  "doJSON ev c meth path params body out w =
     (case send_once ev c meth (path @ (if params = [] then [] else ''?'' @ params)) body True w of
        (Inl e, w1) \<Rightarrow> (Inl e, w1)
      | (Inr rs, w1) \<Rightarrow>
          (case admin_status_error rs of
             Some e \<Rightarrow> (Inl e, w1)
           | None \<Rightarrow>
               (case out of
                  None \<Rightarrow> (Inr None, w1)
                | Some dec \<Rightarrow>
                    if rs_status rs = 204 then (Inr None, w1)
                    else (case dec (rs_body rs) of
                        None \<Rightarrow> (Inl (IdUnavailable ''decode response''), w1)
                      | Some x \<Rightarrow> (Inr (Some x), w1)))))"

definition create_status_error :: "response \<Rightarrow> provider_error option" where
  "create_status_error rs =
     (let s = rs_status rs in
      if s = 201 then None
      else if s = 409 then Some IdConflict
      else if s = 400 then Some (IdBadRequest (take 1024 (rs_body rs)))
      else if s = 404 then Some IdNotFound
      else if s = 403 then Some IdProviderForbidden
      else if s \<ge> 500 then Some (IdUnavailable (upstream s))
      else Some (IdOther (take 1024 (rs_body rs))))"

text \<open>The segment after the last slash, unless the slash is last.\<close>

definition trailing_segment :: "string \<Rightarrow> string" where
  "trailing_segment loc =
     (if CHR ''/'' \<in> set loc \<and> last loc \<noteq> CHR ''/''
      then rev (takeWhile (\<lambda>x. x \<noteq> CHR ''/'') (rev loc)) else loc)"

definition doCreate ::
  "client_env \<Rightarrow> admin_client \<Rightarrow> string \<Rightarrow> string \<Rightarrow> string call" where
  "doCreate ev c path body w =
     (case send_once ev c ''POST'' path body True w of
        (Inl e, w1) \<Rightarrow> (Inl e, w1)
      | (Inr rs, w1) \<Rightarrow>
          (case create_status_error rs of
             Some e \<Rightarrow> (Inl e, w1)
           | None \<Rightarrow>
               if rs_location rs = [] then (Inl (IdUnavailable (''201 without Location header on POST '' @ path)), w1)
               else (Inr (trailing_segment (rs_location rs)), w1)))"

definition text_status_error :: "response \<Rightarrow> provider_error option" where
  "text_status_error rs =
     (let s = rs_status rs in
      if s = 404 then Some IdNotFound
      else if s = 403 then Some IdProviderForbidden
      else if s \<ge> 500 then Some (IdUnavailable (upstream s))
      else if s \<ge> 400 then Some (IdOther (take 1024 (rs_body rs)))
      else None)"

definition doText :: "client_env \<Rightarrow> admin_client \<Rightarrow> string \<Rightarrow> string \<Rightarrow> string \<Rightarrow> unit call" where
  "doText ev c meth path val w =
     (case send_once ev c meth path val True w of
        (Inl e, w1) \<Rightarrow> (Inl e, w1)
      | (Inr rs, w1) \<Rightarrow>
          (case text_status_error rs of Some e \<Rightarrow> (Inl e, w1) | None \<Rightarrow> (Inr (), w1)))"

section \<open>What one call sends\<close>

text \<open>The requests a call adds to the log, in order.\<close>

definition sends :: "client_world \<Rightarrow> client_world \<Rightarrow> request list \<Rightarrow> bool" where
  "sends w w' rqs \<longleftrightarrow> cw_sent w' = cw_sent w @ rqs"

lemma http_Do_sends: "http_Do rq w = (r, w') \<Longrightarrow> sends w w' [rq] \<and> cw_token w' = cw_token w"
  by (auto simp: http_Do_def sends_def Let_def split: list.splits sum.splits)

lemma mint_sends:
  assumes "mint_token ev c w = (r, w')"
  shows "\<exists>rqs. sends w w' rqs \<and> (rqs = [] \<or> rqs = [mint_request c]) \<and>
    (\<forall>token. r = Inr token \<longrightarrow> rqs = [mint_request c] \<and> map_option ct_value (cw_token w') = Some token)"
proof (cases "ev_build ev (mint_request c)")
  case (Some msg)
  with assms show ?thesis by (auto simp: mint_token_def sends_def)
next
  case None
  obtain x w1 where d: "http_Do (mint_request c) w = (x, w1)" by (cases "http_Do (mint_request c) w")
  from http_Do_sends [OF d] assms None d show ?thesis
    by (auto simp: mint_token_def sends_def split: sum.splits if_splits option.splits)
qed

lemma acquire_sends:
  assumes "acquireToken ev c w = (r, w')"
  shows "\<exists>rqs. sends w w' rqs \<and> (rqs = [] \<or> rqs = [mint_request c]) \<and>
    (\<forall>token. r = Inr token \<longrightarrow> map_option ct_value (cw_token w') = Some token \<and>
       (cw_token w = None \<longrightarrow> rqs = [mint_request c]))"
proof (cases "cw_token w")
  case None
  with assms mint_sends [of ev c w r w'] show ?thesis by (auto simp: acquireToken_def)
next
  case (Some t)
  show ?thesis
  proof (cases "ct_expiresAt t - cw_now w > tokenRefreshSkew")
    case True
    with Some assms show ?thesis by (auto simp: acquireToken_def sends_def)
  next
    case False
    with Some assms mint_sends [of ev c w r w'] show ?thesis by (auto simp: acquireToken_def)
  qed
qed

definition traffic :: "admin_client \<Rightarrow> string \<Rightarrow> string \<Rightarrow> string \<Rightarrow> request list \<Rightarrow> bool" where
  "traffic c meth path body rqs \<longleftrightarrow> (\<exists>pre1 adm1 pre2 adm2.
     rqs = pre1 @ adm1 @ pre2 @ adm2 \<and>
     set pre1 \<union> set pre2 \<subseteq> {mint_request c} \<and> length pre1 \<le> 1 \<and> length pre2 \<le> 1 \<and>
     (adm1 = [] \<or> (\<exists>token. adm1 = [admin_request c meth path token body])) \<and>
     (adm2 = [] \<or> (\<exists>token. adm2 = [admin_request c meth path token body]) \<and> adm1 \<noteq> [] \<and> pre2 = [mint_request c]))"

lemma trafficI:
  assumes "pre1 = [] \<or> pre1 = [mint_request c]" and "pre2 = [] \<or> pre2 = [mint_request c]"
    and "adm1 = [] \<or> (\<exists>token. adm1 = [admin_request c meth path token body])"
    and "adm2 = [] \<or> (\<exists>token. adm2 = [admin_request c meth path token body]) \<and> adm1 \<noteq> [] \<and> pre2 = [mint_request c]"
  shows "traffic c meth path body (pre1 @ adm1 @ pre2 @ adm2)"
  unfolding traffic_def
  by (rule exI [of _ pre1], rule exI [of _ adm1], rule exI [of _ pre2], rule exI [of _ adm2]) (use assms in auto)

text \<open>One attempt.\<close>

lemma attempt:
  assumes "send_once ev c meth path body allow w = (r, w')"
  shows "\<exists>pre adm w2. sends w w2 (pre @ adm) \<and> (pre = [] \<or> pre = [mint_request c]) \<and>
    (adm = [] \<or> (\<exists>token. adm = [admin_request c meth path token body])) \<and>
    (adm \<noteq> [] \<and> cw_token w = None \<longrightarrow> pre = [mint_request c]) \<and>
    (w' = w2 \<and> (\<forall>rs. r = Inr rs \<longrightarrow> adm \<noteq> [] \<and> (allow \<longrightarrow> rs_status rs \<noteq> 401)) \<or>
     allow \<and> adm \<noteq> [] \<and> send_once ev c meth path body False (w2\<lparr> cw_token := None \<rparr>) = (r, w'))"
proof -
  obtain x w1 where a: "acquireToken ev c w = (x, w1)" by (cases "acquireToken ev c w")
  from acquire_sends [OF a] obtain pre where pre: "sends w w1 pre" "pre = [] \<or> pre = [mint_request c]"
    "\<And>token. x = Inr token \<Longrightarrow> cw_token w = None \<Longrightarrow> pre = [mint_request c]" by blast
  show ?thesis
  proof (cases x)
    case (Inl e)
    with assms a have "r = Inl e" "w' = w1" by (auto simp: send_once.simps [of ev c meth path body allow])
    with pre show ?thesis by (intro exI [of _ pre] exI [of _ "[]"] exI [of _ w1]) auto
  next
    case token: (Inr token)
    let ?rq = "admin_request c meth path token body"
    show ?thesis
    proof (cases "ev_build ev ?rq")
      case (Some msg)
      with assms a token have "r = Inl (IdOther msg)" "w' = w1"
        by (auto simp: send_once.simps [of ev c meth path body allow] Let_def)
      with pre show ?thesis by (intro exI [of _ pre] exI [of _ "[]"] exI [of _ w1]) auto
    next
      case None
      obtain y w2 where d: "http_Do ?rq w1 = (y, w2)" by (cases "http_Do ?rq w1")
      have s: "sends w w2 (pre @ [?rq])" using pre(1) http_Do_sends [OF d] by (simp add: sends_def)
      have "w' = w2 \<and> (\<forall>rs. r = Inr rs \<longrightarrow> (allow \<longrightarrow> rs_status rs \<noteq> 401)) \<or>
          allow \<and> send_once ev c meth path body False (w2\<lparr> cw_token := None \<rparr>) = (r, w')"
        using assms a token None d
        by (auto simp: send_once.simps [of ev c meth path body allow] Let_def split: sum.splits if_splits)
      with s pre(2) pre(3) [OF token] show ?thesis
        by (intro exI [of _ pre] exI [of _ "[?rq]"] exI [of _ w2]) auto
    qed
  qed
qed

lemma send_traffic:
  assumes "send_once ev c meth path body True w = (r, w')"
  shows "\<exists>rqs. sends w w' rqs \<and> traffic c meth path body rqs"
proof -
  from attempt [OF assms] obtain pre adm w2 where
    one: "sends w w2 (pre @ adm)" "pre = [] \<or> pre = [mint_request c]"
      "adm = [] \<or> (\<exists>token. adm = [admin_request c meth path token body])"
    and k: "w' = w2 \<or> adm \<noteq> [] \<and> send_once ev c meth path body False (w2\<lparr> cw_token := None \<rparr>) = (r, w')"
    by blast
  from k show ?thesis
  proof (elim disjE conjE)
    assume "w' = w2"
    moreover have "traffic c meth path body (pre @ adm)"
      using trafficI [OF one(2) _ one(3), of "[]" "[]"] by simp
    ultimately show ?thesis using one(1) by blast
  next
    assume adm: "adm \<noteq> []"
      and again: "send_once ev c meth path body False (w2\<lparr> cw_token := None \<rparr>) = (r, w')"
    from attempt [OF again] obtain pre2 adm2 where
      two: "sends (w2\<lparr> cw_token := None \<rparr>) w' (pre2 @ adm2)" "pre2 = [] \<or> pre2 = [mint_request c]"
        "adm2 = [] \<or> (\<exists>token. adm2 = [admin_request c meth path token body])"
        "adm2 \<noteq> [] \<longrightarrow> pre2 = [mint_request c]" by auto
    have "sends w w' (pre @ adm @ pre2 @ adm2)" using one(1) two(1) by (simp add: sends_def)
    moreover have "traffic c meth path body (pre @ adm @ pre2 @ adm2)"
      by (rule trafficI [OF one(2) two(2) one(3)]) (use two(3,4) adm in blast)
    ultimately show ?thesis by blast
  qed
qed

lemma doJSON_sends: "\<exists>r1. send_once ev c meth (path @ (if params = [] then [] else ''?'' @ params)) body True w =
    (r1, snd (doJSON ev c meth path params body out w))"
  by (auto simp: doJSON_def split: prod.splits sum.splits option.splits)

section \<open>Properties\<close>

text \<open>An admin call sends at most two admin requests, identical but for their
  token, and the second only after a token was minted anew; at most two mints and
  four requests in all, nothing else, whatever the provider answers.\<close>

theorem admin_call_traffic:
  assumes "doJSON ev c meth path params body out w = (r, w')"
  shows "\<exists>rqs. cw_sent w' = cw_sent w @ rqs \<and>
    traffic c meth (path @ (if params = [] then [] else ''?'' @ params)) body rqs \<and> length rqs \<le> 4"
proof -
  obtain r1 where "send_once ev c meth (path @ (if params = [] then [] else ''?'' @ params)) body True w = (r1, w')"
    using doJSON_sends [of ev c meth path params body w out] assms by auto
  from send_traffic [OF this] obtain rqs where
    "sends w w' rqs" and t: "traffic c meth (path @ (if params = [] then [] else ''?'' @ params)) body rqs" by blast
  moreover from t have "length rqs \<le> 4"
    unfolding traffic_def by (elim exE conjE disjE) auto
  ultimately show ?thesis unfolding sends_def by blast
qed

definition demo_client :: admin_client where
  "demo_client = (case NewAdminClient \<lparr> ac_BaseURL = ''http://kc'', ac_Realm = ''r'', ac_ClientID = ''c'',
     ac_ClientSecret = ''s'' \<rparr> of Inr c \<Rightarrow> c)"

definition demo_client_env :: client_env where
  "demo_client_env = \<lparr> ev_build = (\<lambda>_. None), ev_token = (\<lambda>b. Some (b, 60)) \<rparr>"

definition demo_answer :: "int \<Rightarrow> string \<Rightarrow> string + response" where
  "demo_answer s b = Inr \<lparr> rs_status = s, rs_body = b, rs_location = [], rs_at = 1 \<rparr>"

text \<open>A cached token the provider no longer accepts: the call mints and repeats.\<close>

definition demo_client_world :: client_world where
  "demo_client_world = \<lparr> cw_token = Some \<lparr> ct_value = ''old'', ct_expiresAt = 10 ^ 12 \<rparr>, cw_now = 0,
     cw_answers = [demo_answer 401 [], demo_answer 200 ''new'', demo_answer 200 ''x''], cw_sent = [] \<rparr>"

theorem admin_call_traffic_witness:
  "\<exists>rqs w'. doJSON demo_client_env demo_client ''GET'' ''/users'' [] [] (Some Some) demo_client_world = (Inr (Some ''x''), w') \<and>
     map hr_bearer (cw_sent w') = [''old'', [], ''new''] \<and> traffic demo_client ''GET'' ''/users'' [] rqs \<and> cw_sent w' = rqs"
proof -
  have e: "(case doJSON demo_client_env demo_client ''GET'' ''/users'' [] [] (Some Some) demo_client_world of
      (Inr (Some x), w') \<Rightarrow> x = ''x'' \<and> map hr_bearer (cw_sent w') = [''old'', [], ''new''] | _ \<Rightarrow> False)" by code_simp
  then obtain w' where d: "doJSON demo_client_env demo_client ''GET'' ''/users'' [] [] (Some Some) demo_client_world = (Inr (Some ''x''), w')"
    and b: "map hr_bearer (cw_sent w') = [''old'', [], ''new'']"
    by (auto split: prod.splits sum.splits option.splits)
  have "cw_sent demo_client_world = []" by (simp add: demo_client_world_def)
  with admin_call_traffic [OF d] d b show ?thesis by auto
qed

text \<open>The realm the runtime sends requests to is the one the verifier probed only
  when every byte of its name is left alone by path escaping: the verifier escapes
  the name, the client pastes it into its URLs as it is.\<close>

theorem probe_and_runtime_realm:
  assumes "NewAdminClient \<lparr> ac_BaseURL = vt_BaseURL t, ac_Realm = vt_Realm t, ac_ClientID = vt_ClientID t,
      ac_ClientSecret = vt_ClientSecret t \<rparr> = Inr c"
  shows "(kc_adminBase c = admin_url t \<longleftrightarrow> list_all path_plain (vt_Realm t)) \<and>
    (kc_tokenURL c = hr_url (token_request (realm_base t) t) \<longleftrightarrow> list_all path_plain (vt_Realm t))"
proof -
  have "PathEscape s = s \<longleftrightarrow> list_all path_plain s" for s
  proof
    assume eq: "PathEscape s = s"
    have "length (PathEscape s) = length s + 2 * length (filter (\<lambda>c. \<not> path_plain c) s)"
      by (induction s) (auto simp: PathEscape_def escape_byte_def)
    with eq show "list_all path_plain s" by (auto simp: list_all_iff filter_empty_conv)
  qed (induction s; auto simp: PathEscape_def)
  moreover have "s = PathEscape s \<longleftrightarrow> PathEscape s = s" for s by auto
  ultimately show ?thesis
    using assms by (simp add: NewAdminClient_def Let_def admin_url_def token_request_def split: if_splits) force
qed

theorem probe_and_runtime_realm_witness:
  "\<exists>c. NewAdminClient \<lparr> ac_BaseURL = vt_BaseURL demo_target, ac_Realm = vt_Realm demo_target,
      ac_ClientID = vt_ClientID demo_target, ac_ClientSecret = vt_ClientSecret demo_target \<rparr> = Inr c \<and>
    kc_adminBase c \<noteq> admin_url demo_target"
proof -
  obtain c where c: "NewAdminClient \<lparr> ac_BaseURL = vt_BaseURL demo_target, ac_Realm = vt_Realm demo_target,
      ac_ClientID = vt_ClientID demo_target, ac_ClientSecret = vt_ClientSecret demo_target \<rparr> = Inr c"
    by (simp add: NewAdminClient_def demo_target_def Let_def)
  have "\<not> list_all path_plain (vt_Realm demo_target)" by code_simp
  with probe_and_runtime_realm [OF c] c show ?thesis by blast
qed

end
