(* ===== verification/IdentityService.thy ===== *)
theory IdentityService
  imports KeycloakClient Encoding
begin

text \<open>
  \<^verbatim>\<open>internal/identity\<close>: the domain types and the provider interface
  (\<^verbatim>\<open>provider.go\<close>), the field errors (\<^verbatim>\<open>errors.go\<close>) and the service
  between the handlers and a provider (\<^verbatim>\<open>service.go\<close>).

  A provider is a record of operations on a state of its own (the realm). What
  theorems need of it is the hypothesis \<open>realm_contract\<close>. Further parameters: the
  Unicode case table and \<^verbatim>\<open>strconv.Quote\<close>, which only shapes messages.
\<close>

section \<open>Domain types\<close>

record idp_user =
  us_ID :: string
  us_Username :: string
  us_Email :: string
  us_FirstName :: string
  us_LastName :: string
  us_Enabled :: bool
  us_EmailVerified :: bool
  us_CreatedAt :: int
  us_Attributes :: "(string \<times> string list) list"

record users_query =
  uq_Search :: string
  uq_First :: int
  uq_Max :: int

record idp_role =
  ir_ID :: string
  ir_Name :: string
  ir_Description :: string
  ir_Composite :: bool
  ir_Builtin :: bool

record idp_session =
  sn_ID :: string
  sn_UserID :: string
  sn_Username :: string
  sn_IPAddress :: string
  sn_UserAgent :: string
  sn_StartedAt :: int
  sn_LastAccess :: int
  sn_Clients :: "(string \<times> string) list"

record idp_invitation =
  iv_ID :: string
  iv_Email :: string
  iv_Username :: string
  iv_RequiredActions :: "string list"
  iv_InvitedBy :: string
  iv_ExpiresAt :: string
  iv_CreatedAt :: int
  iv_Status :: string

record create_role_request =
  crr_Name :: string
  crr_Description :: string

record update_user_request =
  uur_FirstName :: "string option"
  uur_LastName :: "string option"
  uur_Email :: "string option"
  uur_Enabled :: "bool option"
  uur_EmailVerified :: "bool option"

record update_role_request =
  urr_Description :: "string option"

record create_user_request =
  cur_Email :: string
  cur_FirstName :: string
  cur_LastName :: string
  cur_TemporaryPassword :: string
  cur_Roles :: "string list"

record create_invitation_request =
  cir_Email :: string
  cir_FirstName :: string
  cir_LastName :: string
  cir_Roles :: "string list"
  cir_ExpiresAt :: string
  cir_InvitedBy :: string

type_synonym ('s, 'a) idp_call = "'s \<Rightarrow> (provider_error + 'a) \<times> 's"

record 's identity_provider =
  ip_ListUsers :: "users_query \<Rightarrow> ('s, idp_user list) idp_call"
  ip_GetUser :: "string \<Rightarrow> ('s, idp_user) idp_call"
  ip_ListRoles :: "('s, idp_role list) idp_call"
  ip_GetRole :: "string \<Rightarrow> ('s, idp_role) idp_call"
  ip_ListUsersByRole :: "string \<Rightarrow> ('s, idp_user list) idp_call"
  ip_ListUserRoles :: "string \<Rightarrow> ('s, idp_role list) idp_call"
  ip_ListUserSessions :: "string \<Rightarrow> ('s, idp_session list) idp_call"
  ip_ListSessions :: "('s, idp_session list) idp_call"
  ip_ListInvitations :: "('s, idp_invitation list) idp_call"
  ip_CreateUser :: "create_user_request \<Rightarrow> ('s, idp_user) idp_call"
  ip_CreateRole :: "create_role_request \<Rightarrow> ('s, idp_role) idp_call"
  ip_CreateInvitation :: "create_invitation_request \<Rightarrow> ('s, idp_invitation) idp_call"
  ip_UpdateUser :: "string \<Rightarrow> update_user_request \<Rightarrow> ('s, idp_user) idp_call"
  ip_UpdateRole :: "string \<Rightarrow> update_role_request \<Rightarrow> ('s, idp_role) idp_call"
  ip_AssignRolesToUser :: "string \<Rightarrow> string list \<Rightarrow> ('s, unit) idp_call"
  ip_UnassignRolesFromUser :: "string \<Rightarrow> string list \<Rightarrow> ('s, unit) idp_call"
  ip_SendResetPasswordEmail :: "string \<Rightarrow> ('s, unit) idp_call"
  ip_SetUserPassword :: "string \<Rightarrow> string \<Rightarrow> bool \<Rightarrow> ('s, unit) idp_call"
  ip_ResendInvitation :: "string \<Rightarrow> ('s, idp_invitation) idp_call"
  ip_DeleteUser :: "string \<Rightarrow> ('s, unit) idp_call"
  ip_DeleteRole :: "string \<Rightarrow> ('s, unit) idp_call"
  ip_DeleteSession :: "string \<Rightarrow> ('s, unit) idp_call"
  ip_LogoutUserSessions :: "string \<Rightarrow> ('s, unit) idp_call"

definition invalidField :: "string \<Rightarrow> string \<Rightarrow> provider_error" where
  "invalidField field reason = IdField field (IdBadRequest (field @ '' '' @ reason))"

fun FieldOf :: "provider_error \<Rightarrow> string" where
  "FieldOf (IdField field _) = field"
| "FieldOf _ = []"

section \<open>Shapes\<close>

definition uuidPattern :: "string \<Rightarrow> bool" where
  "uuidPattern s \<longleftrightarrow> length s = 36 \<and> list_all (uuid_byte_ok s) [0..<36]"

definition role_char :: "char \<Rightarrow> bool" where
  "role_char c \<longleftrightarrow> is_lower c \<or> is_upper c \<or> is_digit c \<or> c \<in> set ''_-.:''"

text \<open>A first word of 1 to 31 bytes that starts with a letter or digit, then words
  of 1 to 30, each after one blank.\<close>

definition roleNamePattern :: "string \<Rightarrow> bool" where
  "roleNamePattern s =
     (case split_at CHR '' '' s of
        [] \<Rightarrow> False
      | w # ws \<Rightarrow>
          w \<noteq> [] \<and> length w \<le> 31 \<and> (is_lower (hd w) \<or> is_upper (hd w) \<or> is_digit (hd w)) \<and>
          list_all role_char w \<and>
          list_all (\<lambda>w. w \<noteq> [] \<and> length w \<le> 30 \<and> list_all role_char w) ws)"

definition roleCreatePattern :: "string \<Rightarrow> bool" where
  "roleCreatePattern s \<longleftrightarrow>
     s \<noteq> [] \<and> length s \<le> 255 \<and> (is_lower (hd s) \<or> is_digit (hd s)) \<and>
     list_all (\<lambda>c. is_lower c \<or> is_digit c \<or> c \<in> set ''_-.:'') s"

definition regex_space :: "char \<Rightarrow> bool" where
  "regex_space c \<longleftrightarrow> c \<in> {CHR 0x09, CHR 0x0A, CHR 0x0C, CHR 0x0D, CHR '' ''}"

definition emailPattern :: "string \<Rightarrow> bool" where
  "emailPattern s =
     (case split_at CHR ''@'' s of
        [local, domain] \<Rightarrow>
          local \<noteq> [] \<and> length domain \<ge> 3 \<and> CHR ''.'' \<in> set (butlast (tl domain)) \<and>
          \<not> list_ex regex_space s
      | _ \<Rightarrow> False)"

definition IsValidUserID :: "string \<Rightarrow> bool" where "IsValidUserID i = uuidPattern i"
definition IsValidRoleName :: "string \<Rightarrow> bool" where "IsValidRoleName n = roleNamePattern n"

definition reservedRoleNames :: "string list" where
  "reservedRoleNames = [''admin'', ''user'', ''offline_access'', ''uma_authorization'']"

definition maxRoleNameLen :: nat where "maxRoleNameLen = 255"
definition minPasswordLength :: nat where "minPasswordLength = 8"
definition adminRoleName :: string where "adminRoleName = ''admin''"

definition isProtectedRoleName :: "string \<Rightarrow> bool" where
  "isProtectedRoleName n \<longleftrightarrow> n \<in> set reservedRoleNames \<or> has_prefix ''default-roles-'' n"

definition IsProtectedRoleName :: "(string \<Rightarrow> string) \<Rightarrow> string \<Rightarrow> bool" where
  "IsProtectedRoleName u n = isProtectedRoleName (to_lower u (trim_space n))"

definition id_defaultPageSize :: int where "id_defaultPageSize = 20"
definition id_maxPageSize :: int where "id_maxPageSize = 100"

definition ClampListUsersQuery :: "users_query \<Rightarrow> users_query" where
  "ClampListUsersQuery q =
     (let q = (if uq_First q < 0 then q\<lparr> uq_First := 0 \<rparr> else q);
          q = (if uq_Max q \<le> 0 then q\<lparr> uq_Max := id_defaultPageSize \<rparr> else q)
      in if uq_Max q > id_maxPageSize then q\<lparr> uq_Max := id_maxPageSize \<rparr> else q)"

section \<open>The service\<close>

record service_env =
  sv_u :: "string \<Rightarrow> string"
  sv_quote :: "string \<Rightarrow> string"
  sv_now :: int

definition refuse :: "provider_error \<Rightarrow> ('s, 'a) idp_call" where
  "refuse e s = (Inl e, s)"

text \<open>\<open>needs b e m\<close> is \<^verbatim>\<open>if !b { return e }\<close> before \<open>m\<close>; \<open>after m f\<close> goes on when
  \<open>m\<close> did not fail.\<close>

definition needs :: "bool \<Rightarrow> provider_error \<Rightarrow> ('s, 'a) idp_call \<Rightarrow> ('s, 'a) idp_call" where
  "needs b e m = (if b then m else refuse e)"

definition after :: "('s, 'b) idp_call \<Rightarrow> ('b \<Rightarrow> ('s, 'a) idp_call) \<Rightarrow> ('s, 'a) idp_call" where
  "after m f s = (case m s of (Inl e, s') \<Rightarrow> (Inl e, s') | (Inr x, s') \<Rightarrow> f x s')"

definition from_result :: "provider_error + 'a \<Rightarrow> ('s, 'a) idp_call" where
  "from_result r s = (r, s)"

definition must_be_uuid :: provider_error where
  "must_be_uuid = IdBadRequest ''id must be a UUID''"

definition sv_ListUsers :: "'s identity_provider \<Rightarrow> users_query \<Rightarrow> ('s, idp_user list) idp_call" where
  "sv_ListUsers P q = ip_ListUsers P (ClampListUsersQuery q)"

definition sv_GetUser :: "'s identity_provider \<Rightarrow> string \<Rightarrow> ('s, idp_user) idp_call" where
  "sv_GetUser P i = needs (uuidPattern i) (IdBadRequest []) (ip_GetUser P i)"

definition sv_ListRoles :: "'s identity_provider \<Rightarrow> ('s, idp_role list) idp_call" where
  "sv_ListRoles P = ip_ListRoles P"

definition sv_GetRole :: "'s identity_provider \<Rightarrow> string \<Rightarrow> ('s, idp_role) idp_call" where
  "sv_GetRole P n = needs (roleNamePattern n) (IdBadRequest []) (ip_GetRole P n)"

definition sv_ListUsersByRole :: "'s identity_provider \<Rightarrow> string \<Rightarrow> ('s, idp_user list) idp_call" where
  "sv_ListUsersByRole P n = needs (roleNamePattern n) (IdBadRequest []) (ip_ListUsersByRole P n)"

definition sv_ListUserRoles :: "'s identity_provider \<Rightarrow> string \<Rightarrow> ('s, idp_role list) idp_call" where
  "sv_ListUserRoles P i = needs (uuidPattern i) (IdBadRequest []) (ip_ListUserRoles P i)"

definition sv_ListUserSessions :: "'s identity_provider \<Rightarrow> string \<Rightarrow> ('s, idp_session list) idp_call" where
  "sv_ListUserSessions P i = needs (uuidPattern i) (IdBadRequest []) (ip_ListUserSessions P i)"

definition sv_ListSessions :: "'s identity_provider \<Rightarrow> ('s, idp_session list) idp_call" where
  "sv_ListSessions P = ip_ListSessions P"

definition sv_ListInvitations :: "'s identity_provider \<Rightarrow> ('s, idp_invitation list) idp_call" where
  "sv_ListInvitations P = ip_ListInvitations P"

definition sv_CreateRole ::
  "service_env \<Rightarrow> 's identity_provider \<Rightarrow> create_role_request \<Rightarrow> ('s, idp_role) idp_call" where
  "sv_CreateRole en P req =
     (let name = to_lower (sv_u en) (trim_space (crr_Name req));
          req = req\<lparr> crr_Name := name, crr_Description := trim_space (crr_Description req) \<rparr> in
      needs (name \<noteq> []) (invalidField ''name'' ''is required'')
      (needs (length name \<le> maxRoleNameLen)
         (IdBadRequest (''role name exceeds '' @ Itoa maxRoleNameLen @ '' characters''))
      (needs (name \<notin> set reservedRoleNames) IdRoleReserved
      (needs (\<not> has_prefix ''default-roles-'' name) IdRoleReserved
      (needs (roleCreatePattern name) (invalidField ''name'' ''must match [a-z0-9_.:-]+'')
      (ip_CreateRole P req))))))"

text \<open>The loop over role names, from index \<open>i\<close>.\<close>

fun normalize_roles :: "service_env \<Rightarrow> nat \<Rightarrow> string list \<Rightarrow> provider_error + string list" where
  "normalize_roles en i [] = Inr []"
| "normalize_roles en i (r # rs) =
     (let v = to_lower (sv_u en) (trim_space r) in
      if v = [] then Inl (IdBadRequest (''role at index '' @ Itoa i @ '' is empty''))
      else bind_result (normalize_roles en (Suc i) rs) (\<lambda>vs. Inr (v # vs)))"

definition normalizeRoleList :: "service_env \<Rightarrow> string list \<Rightarrow> provider_error + string list" where
  "normalizeRoleList en roles =
     (if roles = [] then Inl (invalidField ''roles'' ''must contain at least one role'')
      else normalize_roles en 0 roles)"

text \<open>\<^verbatim>\<open>t.UTC().Format(time.RFC3339)\<close>: whole seconds. The two layouts
  \<^verbatim>\<open>parseExpiresAt\<close> tries accept the same texts.\<close>

definition FormatRFC3339 :: "int \<Rightarrow> string" where
  "FormatRFC3339 t = RFC3339Nano (t div 1000000000 * 1000000000)"

definition parseExpiresAt :: "string \<Rightarrow> int option" where
  "parseExpiresAt s = ParseRFC3339 s"

definition invitation_expiry :: "service_env \<Rightarrow> string \<Rightarrow> provider_error + string" where
  "invitation_expiry en s =
     (if s = [] then Inr []
      else case parseExpiresAt s of
        None \<Rightarrow> Inl (IdBadRequest (''expires_at must be RFC3339 (got '' @ sv_quote en s @ '')''))
      | Some t \<Rightarrow>
          if \<not> t > sv_now en then Inl (invalidField ''expires_at'' ''must be in the future'')
          else Inr (FormatRFC3339 t))"

definition sv_CreateInvitation ::
  "service_env \<Rightarrow> 's identity_provider \<Rightarrow> create_invitation_request \<Rightarrow> string \<Rightarrow> ('s, idp_invitation) idp_call" where
  "sv_CreateInvitation en P req defaultInvitedBy =
     (let email = to_lower (sv_u en) (trim_space (cir_Email req));
          invitedBy = trim_space (cir_InvitedBy req) in
      needs (email \<noteq> []) (invalidField ''email'' ''is required'')
      (needs (emailPattern email) (IdBadRequest (''email '' @ sv_quote en email @ '' is malformed''))
      (after (from_result (normalizeRoleList en (cir_Roles req))) (\<lambda>roles.
       after (from_result (invitation_expiry en (trim_space (cir_ExpiresAt req)))) (\<lambda>expires.
       ip_CreateInvitation P
         \<lparr> cir_Email = email, cir_FirstName = trim_space (cir_FirstName req),
           cir_LastName = trim_space (cir_LastName req), cir_Roles = roles, cir_ExpiresAt = expires,
           cir_InvitedBy = (if invitedBy = [] then defaultInvitedBy else invitedBy) \<rparr>)))))"

definition sv_CreateUser ::
  "service_env \<Rightarrow> 's identity_provider \<Rightarrow> create_user_request \<Rightarrow> ('s, idp_user) idp_call" where
  "sv_CreateUser en P req =
     (let email = to_lower (sv_u en) (trim_space (cur_Email req)) in
      needs (email \<noteq> []) (invalidField ''email'' ''is required'')
      (needs (emailPattern email) (invalidField ''email'' ''is malformed'')
      (needs (cur_TemporaryPassword req \<noteq> []) (invalidField ''temporary_password'' ''is required'')
      (needs (length (cur_TemporaryPassword req) \<ge> minPasswordLength)
         (invalidField ''temporary_password'' (''must be at least '' @ Itoa minPasswordLength @ '' characters''))
      (after (from_result (if cur_Roles req = [] then Inr [] else normalizeRoleList en (cur_Roles req))) (\<lambda>roles.
       ip_CreateUser P
         (req\<lparr> cur_Email := email, cur_FirstName := trim_space (cur_FirstName req),
              cur_LastName := trim_space (cur_LastName req), cur_Roles := roles \<rparr>)))))))"

text \<open>A realm without the role has no last admin to protect; any other failure to
  enumerate refuses.\<close>

definition assertNotLastAdmin :: "'s identity_provider \<Rightarrow> string \<Rightarrow> ('s, unit) idp_call" where
  "assertNotLastAdmin P target s =
     (case ip_ListUsersByRole P adminRoleName s of
        (Inl e, s') \<Rightarrow> if e = IdNotFound then (Inr (), s') else (Inl e, s')
      | (Inr admins, s') \<Rightarrow>
          (let enabled = filter us_Enabled admins in
           if list_ex (\<lambda>u. us_ID u = target) enabled \<and> length enabled \<le> 1
           then (Inl (IdForbidden ''cannot remove the last enabled admin from the realm''), s')
           else (Inr (), s')))"

definition is_self :: "string \<Rightarrow> string \<Rightarrow> bool" where
  "is_self caller target \<longleftrightarrow> caller \<noteq> [] \<and> caller = target"

definition patched_email :: "service_env \<Rightarrow> update_user_request \<Rightarrow> provider_error + string option" where
  "patched_email en req =
     (case uur_Email req of
        None \<Rightarrow> Inr None
      | Some raw \<Rightarrow>
          (let e = to_lower (sv_u en) (trim_space raw) in
           if e = [] \<or> \<not> emailPattern e then Inl (invalidField ''email'' ''is malformed'') else Inr (Some e)))"

definition sv_UpdateUser ::
  "service_env \<Rightarrow> 's identity_provider \<Rightarrow> string \<Rightarrow> string \<Rightarrow> update_user_request \<Rightarrow> ('s, idp_user) idp_call" where
  "sv_UpdateUser en P caller target req =
     needs (uuidPattern target) must_be_uuid
     (after (from_result (patched_email en req)) (\<lambda>email.
      let req = req\<lparr> uur_Email := email, uur_FirstName := map_option trim_space (uur_FirstName req),
                    uur_LastName := map_option trim_space (uur_LastName req) \<rparr> in
      if uur_Enabled req = Some False
      then needs (\<not> is_self caller target) (IdForbidden ''cannot disable your own account'')
        (after (assertNotLastAdmin P target) (\<lambda>_. ip_UpdateUser P target req))
      else ip_UpdateUser P target req))"

definition sv_UpdateRole ::
  "service_env \<Rightarrow> 's identity_provider \<Rightarrow> string \<Rightarrow> update_role_request \<Rightarrow> ('s, idp_role) idp_call" where
  "sv_UpdateRole en P name req =
     needs (roleNamePattern name) (invalidField ''name'' ''is malformed'')
     (let norm = to_lower (sv_u en) (trim_space name) in
      needs (\<not> isProtectedRoleName norm)
        (IdRoleProtected (''role '' @ sv_quote en norm @ '' is protected and cannot be modified''))
      (ip_UpdateRole P name (req\<lparr> urr_Description := map_option trim_space (urr_Description req) \<rparr>)))"

definition sv_AssignRolesToUser ::
  "service_env \<Rightarrow> 's identity_provider \<Rightarrow> string \<Rightarrow> string list \<Rightarrow> ('s, unit) idp_call" where
  "sv_AssignRolesToUser en P target roles =
     needs (uuidPattern target) must_be_uuid
     (after (from_result (normalizeRoleList en roles)) (\<lambda>normalized.
      ip_AssignRolesToUser P target normalized))"

definition sv_UnassignRolesFromUser ::
  "service_env \<Rightarrow> 's identity_provider \<Rightarrow> string \<Rightarrow> string \<Rightarrow> string list \<Rightarrow> ('s, unit) idp_call" where
  "sv_UnassignRolesFromUser en P caller target roles =
     needs (uuidPattern target) must_be_uuid
     (after (from_result (normalizeRoleList en roles)) (\<lambda>normalized.
      if adminRoleName \<in> set normalized
      then needs (\<not> is_self caller target) (IdForbidden ''cannot remove your own admin role'')
        (after (assertNotLastAdmin P target) (\<lambda>_. ip_UnassignRolesFromUser P target normalized))
      else ip_UnassignRolesFromUser P target normalized))"

definition sv_SendResetPasswordEmail :: "'s identity_provider \<Rightarrow> string \<Rightarrow> ('s, unit) idp_call" where
  "sv_SendResetPasswordEmail P target =
     needs (uuidPattern target) must_be_uuid (ip_SendResetPasswordEmail P target)"

definition sv_SetUserPassword :: "'s identity_provider \<Rightarrow> string \<Rightarrow> string \<Rightarrow> bool \<Rightarrow> ('s, unit) idp_call" where
  "sv_SetUserPassword P target password temporary =
     needs (uuidPattern target) must_be_uuid
     (needs (length password \<ge> 8) (invalidField ''password'' ''must be at least 8 characters'')
     (ip_SetUserPassword P target password temporary))"

definition sv_ResendInvitation :: "'s identity_provider \<Rightarrow> string \<Rightarrow> ('s, idp_invitation) idp_call" where
  "sv_ResendInvitation P target =
     needs (uuidPattern target) must_be_uuid (ip_ResendInvitation P target)"

definition sv_DeleteUser :: "'s identity_provider \<Rightarrow> string \<Rightarrow> string \<Rightarrow> ('s, unit) idp_call" where
  "sv_DeleteUser P caller target =
     needs (uuidPattern target) must_be_uuid
     (needs (\<not> is_self caller target) (IdForbidden ''cannot delete your own account'')
     (after (assertNotLastAdmin P target) (\<lambda>_. ip_DeleteUser P target)))"

definition sv_DeleteInvitation :: "'s identity_provider \<Rightarrow> string \<Rightarrow> string \<Rightarrow> ('s, unit) idp_call" where
  "sv_DeleteInvitation P caller target =
     needs (uuidPattern target) must_be_uuid
     (needs (\<not> is_self caller target) (IdForbidden ''cannot delete your own invitation'')
     (ip_DeleteUser P target))"

definition sv_DeleteRole :: "service_env \<Rightarrow> 's identity_provider \<Rightarrow> string \<Rightarrow> ('s, unit) idp_call" where
  "sv_DeleteRole en P name =
     needs (roleNamePattern name) (invalidField ''name'' ''is malformed'')
     (let norm = to_lower (sv_u en) (trim_space name) in
      needs (\<not> isProtectedRoleName norm)
        (IdRoleProtected (''role '' @ sv_quote en norm @ '' is protected and cannot be deleted''))
      (ip_DeleteRole P name))"

definition sv_DeleteSession :: "'s identity_provider \<Rightarrow> string \<Rightarrow> ('s, unit) idp_call" where
  "sv_DeleteSession P i =
     needs (uuidPattern i) (IdBadRequest ''session id must be a UUID'') (ip_DeleteSession P i)"

definition sv_LogoutUserSessions :: "'s identity_provider \<Rightarrow> string \<Rightarrow> ('s, unit) idp_call" where
  "sv_LogoutUserSessions P target =
     needs (uuidPattern target) must_be_uuid (ip_LogoutUserSessions P target)"

end
