(* ===== verification/ProviderCache.thy ===== *)
theory ProviderCache
  imports Prelude
begin

text \<open>
  \<^verbatim>\<open>internal/identityruntime/cache.go\<close>: the bounded LRU of providers. The Go
  code keeps a linked list of elements and a map from key to element; here the
  list is a list of addresses, the elements' values a function of the address, and
  the map a function from keys to addresses.

  The abstract cache is the list of entries, most recently used first. Lemmas: the
  linked structure stays consistent, every operation acts on it as the abstract
  operation does on the list, and the list never exceeds its bound nor holds two
  providers of one connection.
\<close>

record 'p entry =
  en_key :: string
  en_connectionID :: string
  en_provider :: 'p

record 'p cache =
  pc_enabled :: bool
  pc_max :: nat
  pc_elems :: "nat \<Rightarrow> 'p entry"
  pc_order :: "nat list"
  pc_index :: "string \<Rightarrow> nat option"
  pc_next :: nat

definition defaultCacheSize :: int where "defaultCacheSize = 64"

definition no_entry :: "'p \<Rightarrow> 'p entry" where
  "no_entry p = \<lparr> en_key = [], en_connectionID = [], en_provider = p \<rparr>"

text \<open>\<open>nil\<close> fills the addresses not allocated.\<close>

definition newProviderCache :: "'p \<Rightarrow> int \<Rightarrow> 'p cache" where
  "newProviderCache nil n =
     \<lparr> pc_enabled = (0 \<le> n),
       pc_max = (if n < 0 then 0 else nat (if n = 0 then defaultCacheSize else n)),
       pc_elems = (\<lambda>_. no_entry nil), pc_order = [], pc_index = (\<lambda>_. None), pc_next = 0 \<rparr>"

definition MoveToFront :: "nat \<Rightarrow> nat list \<Rightarrow> nat list" where
  "MoveToFront el order = el # removeAll el order"

definition pc_get :: "string \<Rightarrow> 'p cache \<Rightarrow> 'p option \<times> 'p cache" where
  "pc_get key c =
     (if \<not> pc_enabled c then (None, c)
      else case pc_index c key of
        None \<Rightarrow> (None, c)
      | Some el \<Rightarrow> (Some (en_provider (pc_elems c el)), c\<lparr> pc_order := MoveToFront el (pc_order c) \<rparr>))"

definition pc_remove :: "nat \<Rightarrow> 'p cache \<Rightarrow> 'p cache" where
  "pc_remove el c = c\<lparr> pc_index := (pc_index c)(en_key (pc_elems c el) := None),
     pc_order := removeAll el (pc_order c) \<rparr>"

text \<open>The loop over the list from its front; \<open>els\<close> are the elements still ahead.\<close>

fun drop_connection :: "string \<Rightarrow> nat list \<Rightarrow> 'p cache \<Rightarrow> 'p cache" where
  "drop_connection cid [] c = c"
| "drop_connection cid (el # els) c =
     drop_connection cid els (if en_connectionID (pc_elems c el) = cid then pc_remove el c else c)"

function (sequential) evict :: "'p cache \<Rightarrow> 'p cache" where
  "evict c =
     (if length (pc_order c) \<le> pc_max c then c
      else if pc_order c = [] then c
      else evict (pc_remove (last (pc_order c)) c))"
  by pat_completeness auto

termination evict
proof (relation "measure (\<lambda>c. length (pc_order c))")
  fix c :: "'p cache"
  assume "pc_order c \<noteq> []"
  then have "last (pc_order c) \<in> set (pc_order c)" by simp
  then have "length (removeAll (last (pc_order c)) (pc_order c)) < length (pc_order c)"
    by (rule length_removeAll_less)
  then show "(pc_remove (last (pc_order c)) c, c) \<in> measure (\<lambda>c. length (pc_order c))"
    by (simp add: pc_remove_def)
qed simp

declare evict.simps [simp del]

definition pc_put :: "string \<Rightarrow> string \<Rightarrow> 'p \<Rightarrow> 'p cache \<Rightarrow> 'p cache" where
  "pc_put cid key p c =
     (if \<not> pc_enabled c then c
      else case pc_index c key of
        Some el \<Rightarrow> c\<lparr> pc_elems := (pc_elems c)(el := (pc_elems c el)\<lparr> en_provider := p \<rparr>),
            pc_order := MoveToFront el (pc_order c) \<rparr>
      | None \<Rightarrow>
          let c1 = drop_connection cid (pc_order c) c;
              el = pc_next c1;
              c2 = c1\<lparr> pc_elems := (pc_elems c1)(el := \<lparr> en_key = key, en_connectionID = cid, en_provider = p \<rparr>),
                pc_index := (pc_index c1)(key := Some el), pc_order := el # pc_order c1, pc_next := el + 1 \<rparr>
          in evict c2)"

definition pc_len :: "'p cache \<Rightarrow> nat" where
  "pc_len c = (if \<not> pc_enabled c then 0 else length (pc_order c))"

section \<open>The abstract cache\<close>

definition lru_get :: "string \<Rightarrow> 'p entry list \<Rightarrow> 'p option \<times> 'p entry list" where
  "lru_get key es =
     (case find (\<lambda>e. en_key e = key) es of
        None \<Rightarrow> (None, es)
      | Some e \<Rightarrow> (Some (en_provider e), e # filter (\<lambda>x. en_key x \<noteq> key) es))"

definition lru_put :: "nat \<Rightarrow> string \<Rightarrow> string \<Rightarrow> 'p \<Rightarrow> 'p entry list \<Rightarrow> 'p entry list" where
  "lru_put n cid key p es =
     (case find (\<lambda>e. en_key e = key) es of
        Some e \<Rightarrow> e\<lparr> en_provider := p \<rparr> # filter (\<lambda>x. en_key x \<noteq> key) es
      | None \<Rightarrow> take n (\<lparr> en_key = key, en_connectionID = cid, en_provider = p \<rparr> #
          filter (\<lambda>e. en_connectionID e \<noteq> cid) es))"

definition entries :: "'p cache \<Rightarrow> 'p entry list" where
  "entries c = map (pc_elems c) (pc_order c)"

definition cache_wf :: "'p cache \<Rightarrow> bool" where
  "cache_wf c \<longleftrightarrow>
     distinct (pc_order c) \<and> distinct (map en_key (entries c)) \<and>
     (\<forall>el \<in> set (pc_order c). el < pc_next c) \<and>
     (\<forall>key el. pc_index c key = Some el \<longleftrightarrow> el \<in> set (pc_order c) \<and> en_key (pc_elems c el) = key)"

definition cache_ok :: "'p cache \<Rightarrow> bool" where
  "cache_ok c \<longleftrightarrow> cache_wf c \<and> 0 < pc_max c \<and> length (pc_order c) \<le> pc_max c \<and>
     distinct (map en_connectionID (entries c))"

lemma new_wf: "cache_wf (newProviderCache nil n)"
  by (simp add: newProviderCache_def cache_wf_def entries_def)

lemma wf_index:
  "cache_wf c \<Longrightarrow> pc_index c key = Some el \<longleftrightarrow> el \<in> set (pc_order c) \<and> en_key (pc_elems c el) = key"
  by (simp add: cache_wf_def)

lemma wf_same_key:
  assumes "cache_wf c" and "x \<in> set (pc_order c)" and "el \<in> set (pc_order c)"
    and "en_key (pc_elems c x) = en_key (pc_elems c el)"
  shows "x = el"
proof -
  have "pc_index c (en_key (pc_elems c el)) = Some x" "pc_index c (en_key (pc_elems c el)) = Some el"
    using assms by (auto simp: cache_wf_def)
  then show ?thesis by simp
qed

text \<open>An indexed element is the list's only entry of its key.\<close>

lemma wf_find:
  assumes "cache_wf c"
  shows "find (\<lambda>e. en_key e = key) (entries c) = map_option (pc_elems c) (pc_index c key)"
proof (cases "pc_index c key")
  case None
  then have "el \<in> set (pc_order c) \<Longrightarrow> en_key (pc_elems c el) \<noteq> key" for el
    using wf_index [OF assms, of key el] by auto
  with None show ?thesis by (auto simp: find_None_iff entries_def)
next
  case (Some el)
  with assms have el: "el \<in> set (pc_order c)" "en_key (pc_elems c el) = key" by (auto simp: cache_wf_def)
  obtain e where e: "find (\<lambda>e. en_key e = key) (entries c) = Some e"
    using el by (cases "find (\<lambda>e. en_key e = key) (entries c)") (auto simp: find_None_iff entries_def)
  then have "e \<in> set (entries c)" "en_key e = key" by (auto simp: find_Some_iff)
  then obtain x where "x \<in> set (pc_order c)" "e = pc_elems c x" "en_key (pc_elems c x) = key"
    by (auto simp: entries_def)
  with wf_same_key [OF assms _ el(1)] el(2) have "e = pc_elems c el" by metis
  with e Some show ?thesis by simp
qed

lemma map_removeAll:
  assumes "cache_wf c" and "el \<in> set (pc_order c)"
  shows "map (pc_elems c) (removeAll el (pc_order c)) = filter (\<lambda>e. en_key e \<noteq> en_key (pc_elems c el)) (entries c)"
proof -
  have "removeAll el (pc_order c) = filter (\<lambda>x. en_key (pc_elems c x) \<noteq> en_key (pc_elems c el)) (pc_order c)"
    unfolding removeAll_filter_not_eq using wf_same_key [OF assms(1)] assms(2)
    by (auto intro!: filter_cong)
  then show ?thesis by (simp add: entries_def filter_map comp_def)
qed

lemma remove_wf:
  assumes "cache_wf c" and "el \<in> set (pc_order c)"
  shows "cache_wf (pc_remove el c)"
    and "entries (pc_remove el c) = filter (\<lambda>e. en_key e \<noteq> en_key (pc_elems c el)) (entries c)"
proof -
  show e: "entries (pc_remove el c) = filter (\<lambda>e. en_key e \<noteq> en_key (pc_elems c el)) (entries c)"
    using map_removeAll [OF assms] by (simp add: pc_remove_def entries_def)
  have "distinct (map en_key (entries (pc_remove el c)))"
    unfolding e using assms(1) by (simp add: cache_wf_def distinct_map_filter)
  then show "cache_wf (pc_remove el c)"
    using assms wf_same_key [OF assms(1) _ assms(2)]
    by (auto simp: cache_wf_def pc_remove_def distinct_removeAll)
qed

lemma get_refines:
  assumes "cache_wf c" and "pc_enabled c"
  shows "fst (pc_get key c) = fst (lru_get key (entries c))"
    and "entries (snd (pc_get key c)) = snd (lru_get key (entries c))"
    and "cache_wf (snd (pc_get key c))"
proof -
  have "entries (c\<lparr> pc_order := MoveToFront el (pc_order c) \<rparr>) =
      pc_elems c el # filter (\<lambda>e. en_key e \<noteq> key) (entries c) \<and>
      cache_wf (c\<lparr> pc_order := MoveToFront el (pc_order c) \<rparr>)" if el: "pc_index c key = Some el" for el
  proof -
    from assms(1) el have m: "el \<in> set (pc_order c)" "en_key (pc_elems c el) = key" by (auto simp: cache_wf_def)
    have e: "entries (c\<lparr> pc_order := MoveToFront el (pc_order c) \<rparr>) =
        pc_elems c el # filter (\<lambda>e. en_key e \<noteq> key) (entries c)"
      using map_removeAll [OF assms(1) m(1)] m(2) by (simp add: entries_def MoveToFront_def)
    have "distinct (map en_key (entries (c\<lparr> pc_order := MoveToFront el (pc_order c) \<rparr>)))"
      unfolding e using assms(1) m(2) by (auto simp: cache_wf_def distinct_map_filter)
    with assms(1) m e show ?thesis
      by (auto simp: cache_wf_def MoveToFront_def distinct_removeAll)
  qed
  then show "fst (pc_get key c) = fst (lru_get key (entries c))"
    "entries (snd (pc_get key c)) = snd (lru_get key (entries c))" "cache_wf (snd (pc_get key c))"
    using assms wf_find [OF assms(1), of key]
    by (auto simp: pc_get_def lru_get_def split: option.split)
qed

lemma drop_wf:
  assumes "cache_wf c" and "distinct els" and "set els \<subseteq> set (pc_order c)"
  shows "cache_wf (drop_connection cid els c) \<and>
     pc_order (drop_connection cid els c) =
       filter (\<lambda>x. \<not> (x \<in> set els \<and> en_connectionID (pc_elems c x) = cid)) (pc_order c) \<and>
     pc_elems (drop_connection cid els c) = pc_elems c \<and> pc_max (drop_connection cid els c) = pc_max c \<and>
     pc_next (drop_connection cid els c) = pc_next c \<and> pc_enabled (drop_connection cid els c) = pc_enabled c \<and>
     (pc_index c key = None \<longrightarrow> pc_index (drop_connection cid els c) key = None)"
  using assms
proof (induction cid els c rule: drop_connection.induct)
  case (1 cid c)
  then show ?case by simp
next
  case (2 cid el els c)
  show ?case
  proof (cases "en_connectionID (pc_elems c el) = cid")
    case True
    have w: "cache_wf (pc_remove el c)" using remove_wf(1) [OF 2(2)] 2(4) by simp
    have s: "set els \<subseteq> set (pc_order (pc_remove el c))" using 2(3,4) by (auto simp: pc_remove_def)
    have "(if en_connectionID (pc_elems c el) = cid then pc_remove el c else c) = pc_remove el c" using True by simp
    note IH = 2(1) [unfolded this, OF w _ s]
    have f: "filter P (removeAll el (pc_order c)) = filter (\<lambda>x. P x \<and> x \<noteq> el) (pc_order c)" for P
      unfolding removeAll_filter_not_eq by (auto intro!: filter_cong)
    show ?thesis using IH 2(3) True
      by (auto simp: pc_remove_def f intro!: filter_cong)
  next
    case False
    with 2 show ?thesis by (auto intro!: filter_cong)
  qed
qed

lemma evict_wf:
  assumes "cache_wf c"
  shows "cache_wf (evict c) \<and> entries (evict c) = take (pc_max c) (entries c) \<and>
    pc_max (evict c) = pc_max c \<and> pc_enabled (evict c) = pc_enabled c"
  using assms
proof (induction c rule: evict.induct)
  case (1 c)
  show ?case
  proof (cases "length (pc_order c) \<le> pc_max c \<or> pc_order c = []")
    case True
    with 1(2) show ?thesis by (subst (1 2 3 4) evict.simps) (auto simp: entries_def)
  next
    case False
    let ?l = "last (pc_order c)"
    have l: "?l \<in> set (pc_order c)" using False by simp
    note w = remove_wf(1) [OF 1(2) l]
    have ev: "evict c = evict (pc_remove ?l c)" using False by (subst evict.simps) simp
    have d: "distinct (pc_order c)" using 1(2) by (simp add: cache_wf_def)
    have o: "pc_order c = butlast (pc_order c) @ [?l]" using False by simp
    have "?l \<notin> set (butlast (pc_order c))" using d o by (metis distinct_append distinct_singleton disjoint_insert(2) list.simps(15))
    then have r: "removeAll ?l (pc_order c) = butlast (pc_order c)"
      by (subst o) (simp add: removeAll_id)
    have "take (pc_max c) (butlast (entries c)) = take (pc_max c) (entries c)"
      using False by (simp add: take_butlast entries_def)
    with 1(1) [OF _ _ w] False r show ?thesis
      unfolding ev by (simp add: pc_remove_def entries_def map_butlast)
  qed
qed

lemma put_refines:
  assumes "cache_wf c" and "pc_enabled c"
  shows "cache_wf (pc_put cid key p c)"
    and "entries (pc_put cid key p c) = lru_put (pc_max c) cid key p (entries c)"
    and "pc_max (pc_put cid key p c) = pc_max c" and "pc_enabled (pc_put cid key p c)"
proof -
  have "cache_wf (pc_put cid key p c) \<and>
      entries (pc_put cid key p c) = lru_put (pc_max c) cid key p (entries c) \<and>
      pc_max (pc_put cid key p c) = pc_max c \<and> pc_enabled (pc_put cid key p c)"
  proof (cases "pc_index c key")
    case (Some el)
    with wf_index [OF assms(1)] have m: "el \<in> set (pc_order c)" "en_key (pc_elems c el) = key" by auto
    let ?c = "c\<lparr> pc_elems := (pc_elems c)(el := (pc_elems c el)\<lparr> en_provider := p \<rparr>),
            pc_order := MoveToFront el (pc_order c) \<rparr>"
    have e: "entries ?c = (pc_elems c el)\<lparr> en_provider := p \<rparr> # filter (\<lambda>e. en_key e \<noteq> key) (entries c)"
      using map_removeAll [OF assms(1) m(1)] m(2)
      by (auto simp: entries_def MoveToFront_def intro!: map_cong)
    have "distinct (map en_key (entries ?c))"
      unfolding e using assms(1) m(2) by (auto simp: cache_wf_def distinct_map_filter)
    with assms(1) m have "cache_wf ?c"
      by (auto simp: cache_wf_def MoveToFront_def distinct_removeAll)
    with Some e assms wf_find [OF assms(1), of key] show ?thesis
      by (simp add: pc_put_def lru_put_def)
  next
    case None
    let ?c1 = "drop_connection cid (pc_order c) c"
    let ?new = "\<lparr> en_key = key, en_connectionID = cid, en_provider = p \<rparr>"
    let ?c2 = "?c1\<lparr> pc_elems := (pc_elems ?c1)(pc_next ?c1 := ?new),
                pc_index := (pc_index ?c1)(key := Some (pc_next ?c1)), pc_order := pc_next ?c1 # pc_order ?c1,
                pc_next := pc_next ?c1 + 1 \<rparr>"
    note d = drop_wf [OF assms(1), of "pc_order c" cid key]
    have w1: "cache_wf ?c1" and o1: "pc_order ?c1 = filter (\<lambda>x. en_connectionID (pc_elems c x) \<noteq> cid) (pc_order c)"
      and same: "pc_elems ?c1 = pc_elems c" "pc_max ?c1 = pc_max c" "pc_enabled ?c1" "pc_index ?c1 key = None"
      using d assms None by (auto simp: cache_wf_def intro!: filter_cong)
    have fresh: "pc_next ?c1 \<notin> set (pc_order ?c1)" using w1 by (auto simp: cache_wf_def)
    have e1: "entries ?c1 = filter (\<lambda>e. en_connectionID e \<noteq> cid) (entries c)"
      by (simp add: entries_def o1 same(1) filter_map comp_def)
    have e2: "entries ?c2 = ?new # entries ?c1"
      using fresh by (auto simp: entries_def intro!: map_cong)
    have nokey: "\<And>el. el \<in> set (pc_order ?c1) \<Longrightarrow> en_key (pc_elems ?c1 el) \<noteq> key"
      using wf_index [OF w1] same(4) by (metis option.distinct(1))
    have "distinct (map en_key (entries ?c2))"
      unfolding e2 using w1 nokey by (auto simp: cache_wf_def entries_def)
    with w1 fresh nokey have w2: "cache_wf ?c2"
      by (auto simp: cache_wf_def less_Suc_eq)
    have "pc_put cid key p c = evict ?c2"
      using None assms(2) by (simp add: pc_put_def Let_def)
    with evict_wf [OF w2] same e1 e2 None wf_find [OF assms(1), of key] show ?thesis
      by (simp add: lru_put_def)
  qed
  then show "cache_wf (pc_put cid key p c)" "entries (pc_put cid key p c) = lru_put (pc_max c) cid key p (entries c)"
    "pc_max (pc_put cid key p c) = pc_max c" "pc_enabled (pc_put cid key p c)" by blast+
qed

section \<open>Properties\<close>

datatype 'p cache_op = Get string | Put string string 'p

text \<open>The calls of the cache and the answers of its gets, on the linked structure and
  on the list.\<close>

fun run_cache :: "'p cache_op list \<Rightarrow> 'p cache \<Rightarrow> 'p option list \<times> 'p cache" where
  "run_cache [] c = ([], c)"
| "run_cache (Get key # ops) c =
     (let (a, c1) = pc_get key c; (as, c2) = run_cache ops c1 in (a # as, c2))"
| "run_cache (Put cid key p # ops) c = run_cache ops (pc_put cid key p c)"

fun run_lru :: "nat \<Rightarrow> 'p cache_op list \<Rightarrow> 'p entry list \<Rightarrow> 'p option list \<times> 'p entry list" where
  "run_lru n [] es = ([], es)"
| "run_lru n (Get key # ops) es =
     (let (a, es1) = lru_get key es; (as, es2) = run_lru n ops es1 in (a # as, es2))"
| "run_lru n (Put cid key p # ops) es = run_lru n ops (lru_put n cid key p es)"

lemma get_frame [simp]: "pc_max (snd (pc_get key c)) = pc_max c" "pc_enabled (snd (pc_get key c)) = pc_enabled c"
  by (simp_all add: pc_get_def split: option.split)

lemma run_refines:
  assumes "cache_wf c" and "pc_enabled c"
  shows "fst (run_cache ops c) = fst (run_lru (pc_max c) ops (entries c)) \<and>
    entries (snd (run_cache ops c)) = snd (run_lru (pc_max c) ops (entries c)) \<and>
    cache_wf (snd (run_cache ops c)) \<and> pc_enabled (snd (run_cache ops c))"
  using assms
proof (induction ops c rule: run_cache.induct)
  case (2 key ops c)
  note g = get_refines [OF 2(2,3), of key]
  obtain a c1 where c1: "pc_get key c = (a, c1)" by (cases "pc_get key c")
  have "pc_max c1 = pc_max c" "pc_enabled c1" using get_frame [of key c] c1 2(3) by auto
  with 2(1) [OF c1 [symmetric] refl] g c1 show ?case
    by (simp add: split_def Let_def)
next
  case (3 cid key p ops c)
  with put_refines [OF 3(2,3), of cid key p] show ?case by simp
qed simp

text \<open>What the list never does: exceed its bound, or hold two entries of a key or of a
  connection.\<close>

definition lru_ok :: "nat \<Rightarrow> 'p entry list \<Rightarrow> bool" where
  "lru_ok n es \<longleftrightarrow> length es \<le> n \<and> distinct (map en_key es) \<and> distinct (map en_connectionID es)"

lemma lru_front_ok:
  assumes "lru_ok n es" and "find (\<lambda>e. en_key e = key) es = Some e"
    and "en_key e' = key" and "en_connectionID e' = en_connectionID e"
  shows "lru_ok n (e' # filter (\<lambda>x. en_key x \<noteq> key) es)"
proof -
  from assms(2) have e: "e \<in> set es" "en_key e = key" by (auto simp: find_Some_iff)
  then have "length (filter (\<lambda>x. en_key x \<noteq> key) es) < length es"
    by (intro length_filter_less) auto
  have other: "en_connectionID x \<noteq> en_connectionID e" if "x \<in> set es" "en_key x \<noteq> key" for x
    using assms(1) that e by (auto simp: lru_ok_def distinct_map dest: inj_onD)
  have "en_connectionID e' \<notin> en_connectionID ` set (filter (\<lambda>x. en_key x \<noteq> key) es)"
  proof
    assume "en_connectionID e' \<in> en_connectionID ` set (filter (\<lambda>x. en_key x \<noteq> key) es)"
    then obtain x where "x \<in> set es" "en_key x \<noteq> key" "en_connectionID e' = en_connectionID x" by auto
    with other [of x] assms(4) show False by simp
  qed
  then show ?thesis using assms(1,3) \<open>length _ < _\<close> by (auto simp: lru_ok_def distinct_map_filter)
qed

lemma lru_keeps:
  assumes "lru_ok n es"
  shows "lru_ok n (snd (lru_get key es))" and "lru_ok n (lru_put n cid key p es)"
proof -
  show "lru_ok n (snd (lru_get key es))"
  proof (cases "find (\<lambda>e. en_key e = key) es")
    case (Some e)
    then have "en_key e = key" by (auto simp: find_Some_iff)
    with Some lru_front_ok [OF assms Some this refl] show ?thesis by (simp add: lru_get_def)
  qed (use assms in \<open>simp add: lru_get_def\<close>)
  show "lru_ok n (lru_put n cid key p es)"
  proof (cases "find (\<lambda>e. en_key e = key) es")
    case (Some e)
    then have "en_key e = key" by (auto simp: find_Some_iff)
    with Some lru_front_ok [OF assms Some, of "e\<lparr> en_provider := p \<rparr>"] show ?thesis
      by (simp add: lru_put_def)
  next
    case None
    let ?es = "\<lparr> en_key = key, en_connectionID = cid, en_provider = p \<rparr> # filter (\<lambda>e. en_connectionID e \<noteq> cid) es"
    have "distinct (map en_key ?es)" "distinct (map en_connectionID ?es)"
      using assms None by (auto simp: lru_ok_def distinct_map_filter find_None_iff)
    then show ?thesis using None
      by (simp add: lru_put_def lru_ok_def take_map [symmetric] del: list.map take.simps)
  qed
qed

lemma run_lru_ok: "lru_ok n es \<Longrightarrow> lru_ok n (snd (run_lru n ops es))"
proof (induction n ops es rule: run_lru.induct)
  case (2 n key ops es)
  obtain a es1 where e: "lru_get key es = (a, es1)" by (cases "lru_get key es")
  have "lru_ok n es1" using lru_keeps(1) [OF 2(2), of key] e by simp
  from 2(1) [OF e [symmetric] refl this] e show ?case by (simp add: split_def Let_def)
next
  case (3 n cid key p ops es)
  from 3(1) [OF lru_keeps(2) [OF 3(2)]] show ?case by simp
qed simp

text \<open>C19: any sequence of gets and puts on the linked list and its index answers as
  the plain most-recently-used list does and leaves the same entries in the same
  order; the cache never holds more providers than its bound (64 when none is
  configured), nor two of one key or one connection. A negative size caches
  nothing.\<close>

theorem provider_cache_refines_lru:
  assumes "run_cache ops (newProviderCache nil n) = (as, c)"
  shows "(if n < 0 then list_all (\<lambda>a. a = None) as \<and> pc_len c = 0
     else
       let bound = nat (if n = 0 then 64 else n) in
       (as, entries c) = run_lru bound ops [] \<and> pc_len c \<le> bound \<and>
       distinct (map en_key (entries c)) \<and> distinct (map en_connectionID (entries c)))"
proof (cases "n < 0")
  case True
  have "list_all (\<lambda>a. a = None) (fst (run_cache ops c0)) \<and> snd (run_cache ops c0) = c0"
    if "\<not> pc_enabled c0" for c0 :: "'a cache"
    using that by (induction ops c0 rule: run_cache.induct) (auto simp: pc_get_def pc_put_def split_def Let_def)
  from this [of "newProviderCache nil n"] assms True show ?thesis
    by (simp add: newProviderCache_def pc_len_def)
next
  case False
  let ?c = "newProviderCache nil n" and ?b = "nat (if n = 0 then 64 else n)"
  have new: "pc_enabled ?c" "pc_max ?c = ?b" "entries ?c = []"
    using False by (simp_all add: newProviderCache_def entries_def defaultCacheSize_def)
  note r = run_refines [OF new_wf [of nil n] new(1), of ops, unfolded assms new(2,3) fst_conv snd_conv]
  have "lru_ok ?b (snd (run_lru ?b ops ([] :: 'a entry list)))" by (rule run_lru_ok) (simp add: lru_ok_def)
  then have "lru_ok ?b (entries c)" using r by simp
  moreover have "pc_enabled c" using r by blast
  then have "pc_len c = length (entries c)" by (simp add: pc_len_def entries_def)
  ultimately show ?thesis using r False by (simp add: lru_ok_def Let_def prod_eq_iff)
qed

theorem provider_cache_refines_lru_witness:
  "let ops = [Put ''a'' ''a1'' (1 :: nat), Put ''b'' ''b1'' 2, Get ''a1'', Put ''c'' ''c1'' 3, Get ''b1''];
       (as, c) = run_cache ops (newProviderCache 0 2)
   in (as, entries c) = run_lru 2 ops [] \<and> as = [Some 1, None]"
proof -
  define ops where "ops = [Put ''a'' ''a1'' (1 :: nat), Put ''b'' ''b1'' 2, Get ''a1'', Put ''c'' ''c1'' 3, Get ''b1'']"
  obtain as c where r: "run_cache ops (newProviderCache 0 2) = (as, c)" by (cases "run_cache ops (newProviderCache 0 2)")
  have "fst (run_lru 2 ops []) = [Some 1, None]" by (simp add: ops_def lru_get_def lru_put_def)
  with provider_cache_refines_lru [OF r] have "(as, entries c) = run_lru 2 ops []" "as = [Some 1, None]"
    by (auto simp: Let_def prod_eq_iff)
  with r show ?thesis unfolding ops_def by (simp add: Let_def)
qed

end
