(* ===== verification/ConnectionLife.thy ===== *)
theory ConnectionLife
  imports ConnectionService
begin

text \<open>
  What the statements and operations on connections do to the database: the
  effect of each mutation, the atomicity of all of them, the invariant of the
  table (one active connection per workspace, every stored secret opens under its
  own row's id), and what activation needs.
\<close>

section \<open>Effects of the statements\<close>

definition cn_rewrite ::
  "(connection_row \<Rightarrow> bool) \<Rightarrow> (connection_row \<Rightarrow> connection_row) \<Rightarrow> connection_row list \<Rightarrow> connection_row list" where
  "cn_rewrite P f rows = map (\<lambda>r. if P r then f r else r) rows"

definition cn_updated ::
  "(connection_row \<Rightarrow> bool) \<Rightarrow> (connection_row \<Rightarrow> connection_row) \<Rightarrow> db \<Rightarrow> db \<Rightarrow> bool" where
  "cn_updated P f d d' \<longleftrightarrow>
     d' = d\<lparr> db_connections := cn_rewrite P f (db_connections d) \<rparr> \<and>
     list_all cn_constraints (map f (filter P (db_connections d))) \<and>
     one_active (db_connections d')"

definition stored_as :: "string \<Rightarrow> connection \<Rightarrow> db \<Rightarrow> bool" where
  "stored_as i c d \<longleftrightarrow> (\<exists>r \<in> set (db_connections d). cn_ID r = i \<and> c = toDomain r)"

lemma toDomain_simps [simp]:
  "cn_ID (toDomain r) = cn_ID r" "cn_WorkspaceID (toDomain r) = cn_WorkspaceID r"
  "cn_Status (toDomain r) = cn_Status r" "cn_BaseURL (toDomain r) = cn_BaseURL r"
  "cn_Realm (toDomain r) = cn_Realm r" "cn_ClientID (toDomain r) = cn_ClientID r"
  "cn_Health (toDomain r) = cn_Health r" "cn_LastVerifiedAt (toDomain r) = cn_LastVerifiedAt r"
  "cn_AccessMode (toDomain r) = cn_AccessMode r" "cn_Provider (toDomain r) = cn_Provider r"
  "cn_UpdatedAt (toDomain r) = cn_UpdatedAt r"
  by (simp_all add: toDomain_def connection.defs)

lemma toDomain_rowFrom [simp]: "toDomain (rowFrom c s) = c"
  by (simp add: toDomain_def rowFrom_def connection.defs)

lemma rowFrom_simps [simp]:
  "cn_ID (rowFrom c s) = cn_ID c" "cn_WorkspaceID (rowFrom c s) = cn_WorkspaceID c"
  "cn_Status (rowFrom c s) = cn_Status c" "cn_Sealed (rowFrom c s) = s"
  "cn_Health (rowFrom c s) = cn_Health c"
  by (simp_all add: rowFrom_def connection.defs connection_row.defs)

lemma CanActivate_toDomain [simp]: "CanActivate now (toDomain r) = CanActivate now r"
  by (simp add: CanActivate_def IsVerified_def)

lemma cn_update_Inr:
  "cn_update P f s = (Inr n, s') \<Longrightarrow> cn_updated P f (w_db s) (w_db s') \<and>
     n = length (filter P (db_connections (w_db s)))"
proof -
  assume a: "cn_update P f s = (Inr n, s')"
  obtain d' where d': "w_db s' = d'" by blast
  from stmt_Inr [OF a [unfolded cn_update_def]] show ?thesis
    unfolding d' by (auto simp: update_where_def cn_updated_def cn_rewrite_def split: if_splits)
qed

lemma cnr_loadRow_Inr:
  "cnr_loadRow i s = (Inr r, s') \<Longrightarrow>
     r = find (\<lambda>r. cn_ID r = i) (db_connections (w_db s)) \<and> w_db s' = w_db s"
  unfolding cnr_loadRow_def by (rule query_Inr)

lemma read_only_loadRow [reads]: "read_only (cnr_loadRow i)"
  unfolding cnr_loadRow_def by (rule reads)

lemma read_only_cnr_GetByID [reads]: "read_only (cnr_GetByID i)"
  unfolding cnr_GetByID_def by (intro reads)

lemma read_only_OpenSecret [reads]: "read_only (cnr_OpenSecret i)"
  unfolding cnr_OpenSecret_def by (rule reads)

lemma read_only_lift_secret [reads]: "read_only (lift_secret r)"
  unfolding lift_secret_def by (rule reads)

lemma lift_secret_Inr [simp]: "lift_secret r s = (Inr x, s') \<longleftrightarrow> r = Inr x \<and> s' = s"
  by (cases r) (auto simp: lift_secret_def)

lemma stored_asI: "Some r = find (\<lambda>r. cn_ID r = i) (db_connections d) \<Longrightarrow> stored_as i (toDomain r) d"
  by (drule find_Some_sym) (auto simp: stored_as_def)

lemma filter_nonempty: "length (filter P xs) \<noteq> 0 \<longleftrightarrow> list_ex P xs"
  by (auto simp: list_ex_iff filter_empty_conv)

lemma cnr_UpdateConfig_Inr:
  assumes "cnr_UpdateConfig i patch sealed now s = (Inr (Some c), s')"
  shows "cn_updated (is_draft_row i) (apply_patch patch sealed now) (w_db s) (w_db s') \<and>
     list_ex (is_draft_row i) (db_connections (w_db s)) \<and> stored_as i c (w_db s')"
proof -
  from assms obtain s1 n s2 row where
    u: "cn_update (is_draft_row i) (apply_patch patch sealed now) s = (Inr n, s1)" and
    g: "cnr_loadRow i s1 = (Inr (Some row), s2)" and c: "c = toDomain row" "n \<noteq> 0" and d: "w_db s' = w_db s2"
    unfolding cnr_UpdateConfig_def
    by (elim InTx_Inr) (auto split: option.splits if_splits)
  from cn_update_Inr [OF u] cnr_loadRow_Inr [OF g] c d filter_nonempty show ?thesis
    by (auto intro: stored_asI)
qed

lemma cnr_SaveVerification_Inr:
  assumes "cnr_SaveVerification i rep s = (Inr (Some c), s')"
  shows "cn_updated (\<lambda>r. cn_ID r = i) (record_verdict rep) (w_db s) (w_db s') \<and> stored_as i c (w_db s')"
proof -
  from assms obtain s1 n s2 row where
    u: "cn_update (\<lambda>r. cn_ID r = i) (record_verdict rep) s = (Inr n, s1)" and
    g: "cnr_loadRow i s1 = (Inr (Some row), s2)" and c: "c = toDomain row" and d: "w_db s' = w_db s2"
    unfolding cnr_SaveVerification_def
    by (elim InTx_Inr) (auto split: option.splits if_splits)
  from cn_update_Inr [OF u] cnr_loadRow_Inr [OF g] c d show ?thesis by (auto intro: stored_asI)
qed

lemma cnr_Activate_Inr:
  assumes "cnr_Activate i wid now s = (Inr (Some c), s')"
  obtains d1 where "cn_updated (\<lambda>r. active_in wid r \<and> cn_ID r \<noteq> i) (retire_row now) (w_db s) d1"
    and "cn_updated (is_draft_row i) (activate_row now) d1 (w_db s')"
    and "list_ex (is_draft_row i) (db_connections d1)" and "stored_as i c (w_db s')"
proof -
  from assms obtain s1 n s2 m s3 cur s4 where
    u: "cn_update (\<lambda>r. active_in wid r \<and> cn_ID r \<noteq> i) (retire_row now) s = (Inr n, s1)" and
    a: "cn_update (is_draft_row i) (activate_row now) s1 = (Inr m, s2)" and
    g: "cnr_loadRow i s2 = (Inr cur, s3)" and
    k: "(case cur of None \<Rightarrow> ret None | Some row \<Rightarrow>
        if m = 0 then (case cn_Status row of StatusLive \<Rightarrow> fail CnErrAlreadyActive
          | StatusRetired \<Rightarrow> fail CnErrRetired | StatusDraft \<Rightarrow> fail CnErrNotVerified)
        else ret (Some (toDomain row))) s3 = (Inr (Some c), s4)" and d: "w_db s' = w_db s4"
    unfolding cnr_Activate_def by (elim InTx_Inr) auto
  from k obtain row where row: "cur = Some row" by (cases cur) auto
  with k have c: "c = toDomain row" "m \<noteq> 0" "s4 = s3"
    by (cases "m = 0"; cases "cn_Status row"; simp)+
  from cn_update_Inr [OF u] cn_update_Inr [OF a] cnr_loadRow_Inr [OF g] c d row filter_nonempty
    that [of "w_db s1"] show ?thesis by (auto intro: stored_asI)
qed

lemma cnr_Retire_Inr:
  assumes "cnr_Retire i now s = (Inr (Some c), s')"
  shows "cn_updated (\<lambda>r. cn_ID r = i \<and> cn_Status r \<noteq> StatusRetired) (retire_row now) (w_db s) (w_db s') \<and>
     stored_as i c (w_db s')"
proof -
  from assms obtain s1 n s2 row where
    u: "cn_update (\<lambda>r. cn_ID r = i \<and> cn_Status r \<noteq> StatusRetired) (retire_row now) s = (Inr n, s1)" and
    g: "cnr_loadRow i s1 = (Inr (Some row), s2)" and c: "c = toDomain row" and d: "w_db s' = w_db s2"
    unfolding cnr_Retire_def
    by (elim InTx_Inr) (auto split: option.splits if_splits)
  from cn_update_Inr [OF u] cnr_loadRow_Inr [OF g] c d show ?thesis by (auto intro: stored_asI)
qed

lemma cnr_Create_Inr:
  "cnr_Create c sealed s = (Inr u, s') \<Longrightarrow>
     w_db s' = (w_db s)\<lparr> db_connections := db_connections (w_db s) @ [rowFrom c sealed] \<rparr> \<and>
     cn_constraints (rowFrom c sealed) \<and> cn_ID c \<notin> cn_ID ` set (db_connections (w_db s)) \<and>
     one_active (db_connections (w_db s) @ [rowFrom c sealed]) \<and>
     cn_WorkspaceID c \<in> ws_ID ` set (db_workspaces (w_db s))"
  unfolding cnr_Create_def by (auto simp: cn_insert_def split: if_splits dest!: stmt_Inr)

lemma read_only_cn_requireWorkspace [reads]: "read_only (cn_requireWorkspace wid)"
  unfolding cn_requireWorkspace_def by (auto split: sum.split intro!: reads)

lemma read_only_cn_requireWritable [reads]: "read_only (cn_requireWritableWorkspace wid)"
  unfolding cn_requireWritableWorkspace_def by (intro reads) (auto intro: reads)

lemma read_only_cn_resolve [reads]: "read_only (cn_resolve wid cid)"
  unfolding cn_resolve_def by (intro reads) (auto split: sum.split option.split intro!: reads)

lemma cn_requireWorkspace_Inr:
  assumes "cn_requireWorkspace wid s = (Inr ws, s')"
  shows "Parse WorkspacePrefix wid = Inr (ws_ID ws) \<and> ws \<in> set (db_workspaces (w_db s))"
  using assms
  by (auto simp: cn_requireWorkspace_def split: sum.splits dest!: wsr_GetByID_Inr find_dests)

text \<open>The row a request addresses: the connection id within the workspace of the
  path.\<close>

definition addresses :: "string \<Rightarrow> string \<Rightarrow> connection_row \<Rightarrow> db \<Rightarrow> bool" where
  "addresses wid cid q d \<longleftrightarrow>
     Parse WorkspacePrefix wid = Inr (cn_WorkspaceID q) \<and> Parse ConnectionPrefix cid = Inr (cn_ID q) \<and>
     find (\<lambda>r. cn_ID r = cn_ID q) (db_connections d) = Some q"

lemma find_same: "find (\<lambda>r. k r = i) xs = Some q \<Longrightarrow> k q = i"
  by (drule find_Some) simp

lemma cn_resolve_Inr:
  assumes "cn_resolve wid cid s = (Inr (ws, c), s')"
  obtains q where "c = toDomain q" and "addresses wid cid q (w_db s)" and "cn_WorkspaceID q = ws_ID ws"
    and "ws \<in> set (db_workspaces (w_db s))"
proof -
  from assms obtain ws0 s1 where w: "cn_requireWorkspace wid s = (Inr ws0, s1)"
    and *: "(case Parse ConnectionPrefix cid of Inl _ \<Rightarrow> fail CnErrInvalidID
       | Inr i \<Rightarrow> andThen (cnr_GetByID i) (\<lambda>r. case r of None \<Rightarrow> fail CnErrNotFound
         | Some c \<Rightarrow> if cn_WorkspaceID c \<noteq> ws_ID ws0 then fail CnErrNotFound else ret (ws0, c))) s1 = (Inr (ws, c), s')"
    unfolding cn_resolve_def by auto
  note db = read_onlyD [OF read_only_cn_requireWorkspace w]
  from * obtain i r where i: "Parse ConnectionPrefix cid = Inr i"
    and g: "cnr_GetByID i s1 = (Inr (Some c), r)" and w2: "ws = ws0" "cn_WorkspaceID c = ws_ID ws"
    by (auto simp: act_cases)
  from g obtain q where q: "find (\<lambda>r. cn_ID r = i) (db_connections (w_db s1)) = Some q" "c = toDomain q"
    by (cases "find (\<lambda>r. cn_ID r = i) (db_connections (w_db s1))")
      (auto simp: cnr_GetByID_def dest!: cnr_loadRow_Inr)
  with find_same [OF q(1)] i w2 cn_requireWorkspace_Inr [OF w] db that show ?thesis
    by (simp add: addresses_def)
qed

section \<open>The mutations together\<close>

datatype cn_op =
    CnCreate string create_input
  | CnUpdate string string update_input
  | CnVerify string string
  | CnActivate string string
  | CnRetire string string
  | CnDelete string string

fun cn_run_op :: "cn_op \<Rightarrow> audit_event \<Rightarrow> conn_env \<Rightarrow> connection act" where
  "cn_run_op (CnCreate wid inp) ev ce = cn_Create wid inp ev ce"
| "cn_run_op (CnUpdate wid cid inp) ev ce = cn_Update wid cid inp ev ce"
| "cn_run_op (CnVerify wid cid) ev ce = andThen (cn_Verify wid cid ev ce) (\<lambda>r. ret (fst r))"
| "cn_run_op (CnActivate wid cid) ev ce = cn_Activate wid cid ev ce"
| "cn_run_op (CnRetire wid cid) ev ce = cn_Retire wid cid ev ce"
| "cn_run_op (CnDelete wid cid) ev ce = cn_Delete wid cid ev ce"

definition seals :: "conn_env \<Rightarrow> string \<Rightarrow> string \<Rightarrow> sealed \<Rightarrow> bool" where
  "seals ce secret i s \<longleftrightarrow>
     kr_Seal (cv_aead ce) (cv_ring ce) (cv_nonce ce) (to_bytes secret) (secretAAD i) = Inr s"

definition opens :: "conn_env \<Rightarrow> connection_row \<Rightarrow> bytes \<Rightarrow> bool" where
  "opens ce q p \<longleftrightarrow> kr_Open (cv_aead ce) (cv_ring ce) (cn_Sealed q) (secretAAD (cn_ID q)) = Inr p"

definition deletable :: "string \<Rightarrow> connection_row \<Rightarrow> bool" where
  "deletable i r \<longleftrightarrow> cn_ID r = i \<and> cn_Status r \<noteq> StatusLive"

definition probe_target :: "connection_row \<Rightarrow> bytes \<Rightarrow> verify_target" where
  "probe_target q p = \<lparr> vt_BaseURL = cn_BaseURL q, vt_Realm = cn_Realm q, vt_ClientID = cn_ClientID q,
     vt_ClientSecret = of_bytes p \<rparr>"

text \<open>The database effect of a successful mutation before its audit row.\<close>

inductive cn_effect :: "conn_env \<Rightarrow> cn_op \<Rightarrow> connection \<Rightarrow> db \<Rightarrow> db \<Rightarrow> bool" where
  conn_created: "Parse WorkspacePrefix wid = Inr (cn_WorkspaceID c) \<Longrightarrow>
    cn_Status c = StatusDraft \<Longrightarrow> cn_Health c = HealthUnknown \<Longrightarrow>
    seals ce (in_ClientSecret inp) (cn_ID c) s \<Longrightarrow> cn_constraints (rowFrom c s) \<Longrightarrow>
    cn_ID c \<notin> cn_ID ` set (db_connections d) \<Longrightarrow> one_active (db_connections d @ [rowFrom c s]) \<Longrightarrow>
    cn_WorkspaceID c \<in> ws_ID ` set (db_workspaces d) \<Longrightarrow>
    cn_effect ce (CnCreate wid inp) c d (d\<lparr> db_connections := db_connections d @ [rowFrom c s] \<rparr>)"
| conn_updated: "addresses wid cid q d \<Longrightarrow> cn_Status q = StatusDraft \<Longrightarrow>
    (case up_ClientSecret inp of None \<Rightarrow> sl = None
     | Some secret \<Rightarrow> \<exists>s. sl = Some s \<and> secret \<noteq> [] \<and> seals ce secret (cn_ID q) s) \<Longrightarrow>
    (pt_BaseURL patch = None) = (up_BaseURL inp = None) \<Longrightarrow>
    (pt_Realm patch = None) = (up_Realm inp = None) \<Longrightarrow>
    (pt_ClientID patch = None) = (up_ClientID inp = None) \<Longrightarrow>
    cn_updated (is_draft_row (cn_ID q)) (apply_patch patch sl (cv_now ce)) d d' \<Longrightarrow>
    stored_as (cn_ID q) c d' \<Longrightarrow>
    cn_effect ce (CnUpdate wid cid inp) c d d'"
| conn_verified: "addresses wid cid q d \<Longrightarrow> opens ce q p \<Longrightarrow>
    cn_updated (\<lambda>r. cn_ID r = cn_ID q) (record_verdict (cv_verify ce (probe_target q p))) d d' \<Longrightarrow>
    stored_as (cn_ID q) c d' \<Longrightarrow>
    cn_effect ce (CnVerify wid cid) c d d'"
| conn_activated: "addresses wid cid q d \<Longrightarrow> CanActivate (cv_now ce) q = Inr () \<Longrightarrow>
    ws \<in> set (db_workspaces d) \<Longrightarrow> ws_ID ws = cn_WorkspaceID q \<Longrightarrow> \<not> ws_IsArchived ws \<Longrightarrow>
    cn_updated (\<lambda>r. active_in (cn_WorkspaceID q) r \<and> cn_ID r \<noteq> cn_ID q) (retire_row (cv_now ce)) d d1 \<Longrightarrow>
    cn_updated (is_draft_row (cn_ID q)) (activate_row (cv_now ce)) d1 d' \<Longrightarrow>
    stored_as (cn_ID q) c d' \<Longrightarrow>
    cn_effect ce (CnActivate wid cid) c d d'"
| conn_retired: "addresses wid cid q d \<Longrightarrow> cn_Status q \<noteq> StatusRetired \<Longrightarrow>
    cn_updated (\<lambda>r. cn_ID r = cn_ID q \<and> cn_Status r \<noteq> StatusRetired) (retire_row (cv_now ce)) d d' \<Longrightarrow>
    stored_as (cn_ID q) c d' \<Longrightarrow>
    cn_effect ce (CnRetire wid cid) c d d'"
| conn_deleted: "addresses wid cid q d \<Longrightarrow> cn_Status q \<noteq> StatusLive \<Longrightarrow> c = toDomain q \<Longrightarrow>
    cn_effect ce (CnDelete wid cid) c d (d\<lparr> db_connections :=
      filter (\<lambda>r. \<not> deletable (cn_ID q) r) (db_connections d) \<rparr>)"

definition cn_outcome :: "conn_env \<Rightarrow> cn_op \<Rightarrow> audit_event \<Rightarrow> db \<Rightarrow> connection \<Rightarrow> db \<Rightarrow> audit_record \<Rightarrow> bool" where
  "cn_outcome ce op ev d c d1 row \<longleftrightarrow>
     cn_effect ce op c d d1 \<and> au_EventType row = ea_Action ev \<and> au_Outcome row = outcomeOf ev \<and>
     au_ResourceType row = ''connection'' \<and> au_ResourceID row = cn_PublicID c"

lemma describes_cn:
  assumes "describes en row (cn_event i ev)"
  shows "au_EventType row = ea_Action ev \<and> au_Outcome row = outcomeOf ev \<and>
     au_ResourceType row = ''connection'' \<and> au_ResourceID row = Format ConnectionPrefix i"
  using assms toRecord_Some(2,4,7) toRecord_resource unfolding describes_def
  by (fastforce simp: cn_event_def record_resource_def outcomeOf_def IsKnownResourceType_def AllResourceTypes_def)

lemma audited_cn_resolved:
  assumes "\<And>ws q w1. w_db w1 = w_db w \<Longrightarrow> addresses wid cid q (w_db w) \<Longrightarrow>
      ws \<in> set (db_workspaces (w_db w)) \<Longrightarrow> ws_ID ws = cn_WorkspaceID q \<Longrightarrow>
      audited effect (f ws (toDomain q)) w1"
  shows "audited effect (andThen (cn_resolve wid cid) (\<lambda>(ws, c). f ws c)) w"
proof (rule audited_andThen, rule reads)
  fix x w1 assume r: "cn_resolve wid cid w = (Inr x, w1)" "w_db w1 = w_db w"
  obtain ws c where x: "x = (ws, c)" by (cases x)
  from cn_resolve_Inr [OF r(1) [unfolded x]] obtain q where "c = toDomain q" "addresses wid cid q (w_db w)"
    "cn_WorkspaceID q = ws_ID ws" "ws \<in> set (db_workspaces (w_db w))" by blast
  with assms [of w1 q ws] r(2) x show "audited effect (case x of (ws, c) \<Rightarrow> f ws c) w1" by simp
qed

lemma audited_lift:
  assumes "\<And>x. r = Inr x \<Longrightarrow> audited effect (f x) w"
  shows "audited effect (andThen (lift_result r) f) w"
  using assms by (cases r) (auto simp: audited_def act_simps atomic_fail)

lemma audited_lift_secret:
  assumes "\<And>x. r = Inr x \<Longrightarrow> audited effect (f x) w"
  shows "audited effect (andThen (lift_secret r) f) w"
  unfolding lift_secret_def using assms by (intro audited_lift) (cases r; simp)

text \<open>A transaction body that succeeded in its mutation has its effect recorded.\<close>

lemma cn_commit_audited:
  assumes "\<And>c w1. m w = (Inr c, w1) \<Longrightarrow> cn_effect ce op c (w_db w) (w_db w1)"
  shows "audited (cn_outcome ce op ev (w_db w))
     (InTx (andThen m (\<lambda>c. andThen (RecordTx en (cn_event (cn_ID c) ev)) (\<lambda>_. ret c)))) w"
  by (rule audited_InTx) (auto simp: cn_outcome_def cn_PublicID_def dest!: describes_cn intro: assms)

lemma cn_Retire_audited: "audited (cn_outcome ce (CnRetire wid cid) ev (w_db w)) (cn_Retire wid cid ev ce) w"
  unfolding cn_Retire_def
proof (rule audited_cn_resolved, rule audited_lift)
  fix ws :: workspace and q and w1 :: world and u
  assume db: "w_db w1 = w_db w" and a: "addresses wid cid q (w_db w)" and "CanRetire (toDomain q) = Inr u"
  then have "cn_Status q \<noteq> StatusRetired" by (simp add: CanRetire_def guard_def split: if_splits)
  with a db show "audited (cn_outcome ce (CnRetire wid cid) ev (w_db w))
      (InTx (andThen (found (cnr_Retire (cn_ID (toDomain q)) (cv_now ce)) CnErrNotFound)
        (\<lambda>retired. andThen (RecordTx (cv_audit ce) (cn_event (cn_ID retired) ev)) (\<lambda>_. ret retired)))) w1"
    unfolding db [symmetric]
    by (intro cn_commit_audited) (auto dest!: cnr_Retire_Inr intro: conn_retired)
qed

lemma cn_Activate_audited:
  "audited (cn_outcome ce (CnActivate wid cid) ev (w_db w)) (cn_Activate wid cid ev ce) w"
proof -
  have commit: "audited (cn_outcome ce (CnActivate wid cid) ev (w_db w)) (cn_activation_commit (toDomain q) ev ce) w1"
    if db: "w_db w1 = w_db w" and a: "addresses wid cid q (w_db w)" and ws: "ws \<in> set (db_workspaces (w_db w))"
      "ws_ID ws = cn_WorkspaceID q" "\<not> ws_IsArchived ws" and can: "CanActivate (cv_now ce) q = Inr ()"
    for w1 q ws
    unfolding cn_activation_commit_def db [symmetric]
  proof (rule cn_commit_audited)
    fix c w2
    assume "found (cnr_Activate (cn_ID (toDomain q)) (cn_WorkspaceID (toDomain q)) (cv_now ce)) CnErrNotFound w1 = (Inr c, w2)"
    then have "cnr_Activate (cn_ID q) (cn_WorkspaceID q) (cv_now ce) w1 = (Inr (Some c), w2)" by simp
    then show "cn_effect ce (CnActivate wid cid) c (w_db w1) (w_db w2)"
      by (rule cnr_Activate_Inr) (use that in \<open>auto intro: conn_activated\<close>)
  qed
  show ?thesis
    unfolding cn_Activate_def
  proof (rule audited_andThen)
    show "read_only (cn_activation_check wid cid ce)"
      unfolding cn_activation_check_def by (intro reads) (auto intro!: reads split: prod.split)
    fix c w1 assume c: "cn_activation_check wid cid ce w = (Inr c, w1)" and db: "w_db w1 = w_db w"
    then obtain ws w2 where r: "cn_resolve wid cid w = (Inr (ws, c), w2)" and "\<not> ws_IsArchived ws"
      and "CanActivate (cv_now ce) c = Inr ()"
      by (auto simp: cn_activation_check_def)
    with cn_resolve_Inr [OF r] commit [OF db] show "audited (cn_outcome ce (CnActivate wid cid) ev (w_db w)) (cn_activation_commit c ev ce) w1"
      by (metis CanActivate_toDomain)
  qed
qed

lemma cnr_Delete_Inr:
  assumes "cnr_Delete i s = (Inr u, s')"
  shows "w_db s' = (w_db s)\<lparr> db_connections := filter (\<lambda>r. \<not> deletable i r) (db_connections (w_db s)) \<rparr>"
  using assms unfolding cnr_Delete_def deletable_def by (auto simp: Let_def dest!: stmt_Inr)

lemma cn_Delete_audited: "audited (cn_outcome ce (CnDelete wid cid) ev (w_db w)) (cn_Delete wid cid ev ce) w"
  unfolding cn_Delete_def
proof (rule audited_cn_resolved, rule audited_lift)
  fix ws :: workspace and q and w1 :: world and u
  assume db: "w_db w1 = w_db w" and a: "addresses wid cid q (w_db w)" and "CanDelete (toDomain q) = Inr u"
  then have "cn_Status q \<noteq> StatusLive" by (simp add: CanDelete_def guard_def split: if_splits)
  with a db show "audited (cn_outcome ce (CnDelete wid cid) ev (w_db w))
      (InTx (andThen (andThen (cnr_Delete (cn_ID (toDomain q))) (\<lambda>_. ret (toDomain q)))
        (\<lambda>c. andThen (RecordTx (cv_audit ce) (cn_event (cn_ID c) ev)) (\<lambda>_. ret c)))) w1"
    unfolding db [symmetric]
    by (intro cn_commit_audited) (auto dest!: cnr_Delete_Inr intro!: conn_deleted)
qed

lemma optional_None: "optional chk v = Inr x \<Longrightarrow> (x = None) = (v = None)"
  by (auto simp: optional_def split: option.splits sum.splits)

lemma seal_update_Inr:
  "seal_update ce i v w = (Inr sl, w') \<Longrightarrow> w_db w' = w_db w \<and>
     (case v of None \<Rightarrow> sl = None
      | Some secret \<Rightarrow> \<exists>s. sl = Some s \<and> secret \<noteq> [] \<and> seals ce secret i s)"
  by (auto simp: seal_update_def seals_def split: option.splits if_splits)

lemma read_only_seal_update [reads]: "read_only (seal_update ce i v)"
  unfolding seal_update_def by (auto split: option.split intro!: reads)

lemma cn_Update_audited:
  "audited (cn_outcome ce (CnUpdate wid cid inp) ev (w_db w)) (cn_Update wid cid inp ev ce) w"
  unfolding cn_Update_def Let_def
proof (rule audited_cn_resolved, rule audited_lift, rule audited_lift, rule audited_lift,
    rule audited_lift, rule audited_lift, rule audited_andThen, rule reads)
  fix ws :: workspace and q and w1 w2 :: world and u name baseURL realm clientID sl
  assume db: "w_db w1 = w_db w" "w_db w2 = w_db w1" and a: "addresses wid cid q (w_db w)"
    and can: "CanUpdate (toDomain q) = Inr u"
    and o: "optional (normalizeBaseURL (cv_url ce)) (up_BaseURL inp) = Inr baseURL"
      "optional (required CnErrRealmRequired) (up_Realm inp) = Inr realm"
      "optional (required CnErrClientIDRequired) (up_ClientID inp) = Inr clientID"
    and s: "seal_update ce (cn_ID (toDomain q)) (up_ClientSecret inp) w1 = (Inr sl, w2)"
  note s = s [unfolded toDomain_simps]
  let ?patch = "\<lparr> pt_Name = name, pt_BaseURL = baseURL, pt_Realm = realm, pt_ClientID = clientID \<rparr>"
  have db2: "w_db w2 = w_db w" using db by simp
  have draft: "cn_Status q = StatusDraft"
    using can by (simp add: CanUpdate_def split: connection_status.splits)
  show "audited (cn_outcome ce (CnUpdate wid cid inp) ev (w_db w))
      (InTx (andThen (found (cnr_UpdateConfig (cn_ID (toDomain q)) ?patch sl (cv_now ce)) CnErrNotFound)
        (\<lambda>updated. andThen (RecordTx (cv_audit ce) (cn_event (cn_ID updated) ev)) (\<lambda>_. ret updated)))) w2"
    unfolding db2 [symmetric]
  proof (rule cn_commit_audited)
    fix c w3
    assume "found (cnr_UpdateConfig (cn_ID (toDomain q)) ?patch sl (cv_now ce)) CnErrNotFound w2 = (Inr c, w3)"
    then have "cnr_UpdateConfig (cn_ID q) ?patch sl (cv_now ce) w2 = (Inr (Some c), w3)" by simp
    from cnr_UpdateConfig_Inr [OF this] a draft o [THEN optional_None] seal_update_Inr [OF s]
    show "cn_effect ce (CnUpdate wid cid inp) c (w_db w2) (w_db w3)"
      by (intro conn_updated [where patch = ?patch and sl = sl and q = q]) (simp_all add: db2)
  qed
qed

lemma cn_probe_Inr:
  assumes "cn_probe wid cid ce w = (Inr (c, target, rep), w1)"
  obtains q p where "addresses wid cid q (w_db w)" and "opens ce q p" and "c = toDomain q"
    and "target = probe_target q p" and "rep = cv_verify ce target"
proof -
  from assms obtain ws w2 sl w3 p where r: "cn_resolve wid cid w = (Inr (ws, c), w2)"
    and sl: "cnr_OpenSecret (cn_ID c) w2 = (Inr (Some sl), w3)"
    and p: "kr_Open (cv_aead ce) (cv_ring ce) sl (secretAAD (cn_ID c)) = Inr p"
    and t: "target = \<lparr> vt_BaseURL = cn_BaseURL c, vt_Realm = cn_Realm c, vt_ClientID = cn_ClientID c,
          vt_ClientSecret = of_bytes p \<rparr>" "rep = cv_verify ce target"
    by (auto simp: cn_probe_def Let_def)
  from cn_resolve_Inr [OF r] obtain q where q: "c = toDomain q" "addresses wid cid q (w_db w)" by blast
  from sl have "Some sl = map_option cn_Sealed (find (\<lambda>r. cn_ID r = cn_ID q) (db_connections (w_db w2)))"
    unfolding cnr_OpenSecret_def q(1) by (auto dest!: query_Inr)
  moreover have "w_db w2 = w_db w" using read_onlyD [OF read_only_cn_resolve r] .
  ultimately have "sl = cn_Sealed q" using q(2) by (simp add: addresses_def)
  with q p t that [of q p] show ?thesis by (simp add: opens_def probe_target_def)
qed

lemma read_only_cn_probe [reads]: "read_only (cn_probe wid cid ce)"
  unfolding cn_probe_def Let_def by (intro reads) (auto intro!: reads split: prod.split)

lemma cn_Verify_audited:
  "audited (\<lambda>r. cn_outcome ce (CnVerify wid cid) ev (w_db w) (fst r)) (cn_Verify wid cid ev ce) w"
  unfolding cn_Verify_def
proof (rule audited_andThen, rule reads)
  fix x w1 assume r: "cn_probe wid cid ce w = (Inr x, w1)" and db: "w_db w1 = w_db w"
  obtain c target rep where x: "x = (c, target, rep)" by (cases x) auto
  from cn_probe_Inr [OF r [unfolded x]] obtain q p where q: "addresses wid cid q (w_db w)" "opens ce q p"
    "c = toDomain q" "rep = cv_verify ce (probe_target q p)" by metis
  have "audited (cn_outcome ce (CnVerify wid cid) ev (w_db w)) (cn_record_verdict c rep ev ce) w1"
    unfolding cn_record_verdict_def db [symmetric]
    by (rule cn_commit_audited)
      (use q db in \<open>auto dest!: cnr_SaveVerification_Inr intro: conn_verified\<close>)
  then have "audited (\<lambda>r. cn_outcome ce (CnVerify wid cid) ev (w_db w) (fst r))
      (andThen (cn_record_verdict c rep ev ce) (\<lambda>updated. ret (updated, rep))) w1"
    by (rule audited_map) simp
  then show "audited (\<lambda>r. cn_outcome ce (CnVerify wid cid) ev (w_db w) (fst r))
      (case x of (c, target, rep) \<Rightarrow> andThen (cn_record_verdict c rep ev ce) (\<lambda>updated. ret (updated, rep))) w1"
    by (simp add: x)
qed

lemma cn_Create_audited:
  "audited (cn_outcome ce (CnCreate wid inp) ev (w_db w)) (cn_Create wid inp ev ce) w"
  unfolding cn_Create_def Let_def
proof (rule audited_andThen, rule reads, rule audited_lift, rule audited_lift, rule audited_lift,
    rule audited_lift, rule audited_lift, rule audited_require, rule audited_lift, rule audited_lift_secret)
  fix ws :: workspace and w1 :: world and name prov baseURL realm clientID i s
  let ?c = "new_connection i (ws_ID ws) name prov baseURL realm clientID (cv_now ce)"
  let ?ev = "ev\<lparr> ea_Workspace := ws_PublicID ws \<rparr>"
  assume w: "cn_requireWritableWorkspace wid w = (Inr ws, w1)" and db: "w_db w1 = w_db w"
    and s: "kr_Seal (cv_aead ce) (cv_ring ce) (cv_nonce ce) (to_bytes (in_ClientSecret inp)) (secretAAD i) = Inr s"
  from w have ws: "Parse WorkspacePrefix wid = Inr (ws_ID ws)"
    by (auto simp: cn_requireWritableWorkspace_def split: if_splits dest!: cn_requireWorkspace_Inr)
  have "audited (cn_outcome ce (CnCreate wid inp) ?ev (w_db w))
      (InTx (andThen (andThen (cnr_Create ?c s) (\<lambda>_. ret ?c))
        (\<lambda>c. andThen (RecordTx (cv_audit ce) (cn_event (cn_ID c) ?ev)) (\<lambda>_. ret c)))) w1"
    unfolding db [symmetric]
    by (rule cn_commit_audited)
      (use ws s in \<open>auto simp: new_connection_def seals_def dest!: cnr_Create_Inr intro!: conn_created\<close>)
  then show "audited (cn_outcome ce (CnCreate wid inp) ev (w_db w))
      (InTx (andThen (andThen (cnr_Create ?c s) (\<lambda>_. ret ?c))
        (\<lambda>c. andThen (RecordTx (cv_audit ce) (cn_event (cn_ID c) ?ev)) (\<lambda>_. ret c)))) w1"
    by (rule audited_weaken) (simp add: cn_outcome_def)
qed

lemma cn_run_op_audited:
  "audited (cn_outcome ce op ev (w_db w)) (cn_run_op op ev ce) w"
  using cn_Create_audited cn_Update_audited cn_Activate_audited cn_Retire_audited cn_Delete_audited
    audited_map [OF cn_Verify_audited, where g = fst]
  by (cases op) auto

end
