(* ===== verification/ConnectionInvariant.thy ===== *)
theory ConnectionInvariant
  imports ConnectionLife
begin

text \<open>
  What holds of the connection table over any sequence of requests, what
  activation needs and does, and what an interleaved update does to it. The part
  of the invariant that speaks of one row at a time is the interface \<open>row_law\<close>,
  interpreted twice: every stored secret opens under its own row's id, and every
  healthy row was probed with the coordinates it holds.
\<close>

section \<open>The invariant of the table\<close>

definition cn_table_ok :: "(connection_row \<Rightarrow> bool) \<Rightarrow> connection_row list \<Rightarrow> bool" where
  "cn_table_ok G rows \<longleftrightarrow>
     distinct (map cn_ID rows) \<and> list_all cn_constraints rows \<and> one_active rows \<and> list_all G rows"

lemma cn_updated_rows: "cn_updated P f d d' \<Longrightarrow> db_connections d' = cn_rewrite P f (db_connections d)"
  by (simp add: cn_updated_def)

lemma cn_updated_keeps:
  assumes u: "cn_updated P f d d'" and ok: "cn_table_ok G (db_connections d)"
    and i: "\<And>r. cn_ID (f r) = cn_ID r"
    and g: "\<And>r. r \<in> set (db_connections d) \<Longrightarrow> P r \<Longrightarrow> G r \<Longrightarrow> G (f r)"
  shows "cn_table_ok G (db_connections d')"
proof -
  note rows = cn_updated_rows [OF u]
  have "map cn_ID (cn_rewrite P f xs) = map cn_ID xs" for xs
    by (simp add: cn_rewrite_def i)
  moreover have "list_all cn_constraints (db_connections d')"
    using u ok unfolding rows by (auto simp: cn_updated_def cn_table_ok_def cn_rewrite_def list_all_iff)
  moreover have "list_all G (db_connections d')"
    using g ok unfolding rows by (auto simp: cn_table_ok_def cn_rewrite_def list_all_iff)
  moreover have "one_active (db_connections d')" using u unfolding cn_updated_def by blast
  ultimately show ?thesis using ok unfolding cn_table_ok_def by (simp add: rows)
qed

lemma one_active_filter: "one_active rows \<Longrightarrow> one_active (filter P rows)"
proof -
  have "map k (filter A (filter P xs)) = map k (filter P (filter A xs))" for k :: "connection_row \<Rightarrow> string" and A xs
    by (simp add: conj_commute)
  then show "one_active rows \<Longrightarrow> one_active (filter P rows)"
    unfolding one_active_def by (simp only: distinct_map_filter)
qed

lemma cn_table_ok_filter: "cn_table_ok G rows \<Longrightarrow> cn_table_ok G (filter P rows)"
  by (auto simp: cn_table_ok_def list_all_iff distinct_map_filter intro: one_active_filter)

lemma row_ids [simp]:
  "cn_ID (apply_patch patch sl now r) = cn_ID r" "cn_ID (record_verdict rep r) = cn_ID r"
  "cn_ID (retire_row now r) = cn_ID r" "cn_ID (activate_row now r) = cn_ID r"
  by (simp_all add: apply_patch_def Let_def record_verdict_def retire_row_def activate_row_def)

text \<open>A property of one row that every operation of the service keeps, run in the
  environments of \<open>E\<close>.\<close>

locale row_law =
  fixes E :: "conn_env \<Rightarrow> bool" and G :: "connection_row \<Rightarrow> bool"
  assumes created: "E ce \<Longrightarrow> cn_Health c = HealthUnknown \<Longrightarrow> seals ce x (cn_ID c) s \<Longrightarrow> G (rowFrom c s)"
    and patched: "E ce \<Longrightarrow> G r \<Longrightarrow> (\<And>s. sl = Some s \<Longrightarrow> \<exists>x. seals ce x (cn_ID r) s) \<Longrightarrow>
      G (apply_patch patch sl now r)"
    and verified: "E ce \<Longrightarrow> G r \<Longrightarrow> opens ce r p \<Longrightarrow> G (record_verdict (cv_verify ce (probe_target r p)) r)"
    and retired: "G r \<Longrightarrow> G (retire_row now r)"
    and activated: "G r \<Longrightarrow> G (activate_row now r)"
begin

lemma effect_keeps:
  assumes "cn_effect ce op c d d'" and "E ce" and "cn_table_ok G (db_connections d)"
  shows "cn_table_ok G (db_connections d')"
  using assms
proof (induction rule: cn_effect.induct)
  case (conn_created wid c ce inp s d)
  then show ?case
    by (auto simp: cn_table_ok_def intro: created)
next
  case (conn_updated wid cid q d inp sl ce patch d' c)
  have "\<exists>x. seals ce x (cn_ID q) s" if "sl = Some s" for s
    using conn_updated.hyps(3) that by (cases "up_ClientSecret inp") auto
  then show ?case
    by (intro cn_updated_keeps [OF conn_updated.hyps(7) conn_updated.prems(2)])
      (auto simp: is_draft_row_def intro: patched [OF conn_updated.prems(1)])
next
  case (conn_verified wid cid q d ce p d' c)
  have "r = q" if "r \<in> set (db_connections d)" "cn_ID r = cn_ID q" for r
    using that conn_verified.hyps(1) conn_verified.prems(2)
    by (auto simp: addresses_def cn_table_ok_def distinct_map dest!: find_Some dest: inj_onD)
  then show ?case
    by (intro cn_updated_keeps [OF conn_verified.hyps(3) conn_verified.prems(2)])
      (use conn_verified.prems(1) conn_verified.hyps(2) in \<open>auto intro: verified\<close>)
next
  case (conn_activated wid cid q d ce ws d1 d' c)
  have "cn_table_ok G (db_connections d1)"
    by (rule cn_updated_keeps [OF conn_activated.hyps(6) conn_activated.prems(2)]) (auto intro: retired)
  then show ?case by (rule cn_updated_keeps [OF conn_activated.hyps(7)]) (auto intro: activated)
next
  case (conn_retired wid cid q d ce d' c)
  then show ?case by (auto intro: cn_updated_keeps [OF conn_retired.hyps(3)] retired)
next
  case (conn_deleted wid cid q d c ce)
  then show ?case by (simp add: cn_table_ok_filter)
qed

end

text \<open>A sequence of requests, failing or not.\<close>

fun cn_requests :: "(cn_op \<times> audit_event \<times> conn_env) list \<Rightarrow> world \<Rightarrow> world" where
  "cn_requests [] w = w"
| "cn_requests ((op, ev, ce) # rs) w = cn_requests rs (snd (cn_run_op op ev ce w))"

lemma connections_with_audit [simp]: "db_connections (with_audit row d) = db_connections d"
  by (simp add: with_audit_def)

lemma cn_run_op_cases:
  obtains "db_connections (w_db (snd (cn_run_op op ev ce w))) = db_connections (w_db w)"
  | c d1 where "cn_effect ce op c (w_db w) d1"
      and "db_connections (w_db (snd (cn_run_op op ev ce w))) = db_connections d1"
  using cn_run_op_audited [of ce op ev w]
  by (auto simp: audited_def atomic_outcome_def cn_outcome_def split: sum.splits)

context row_law begin

lemma requests_keep:
  assumes "cn_table_ok G (db_connections (w_db w))" and "list_all (\<lambda>(op, ev, ce). E ce) rs"
  shows "cn_table_ok G (db_connections (w_db (cn_requests rs w)))"
  using assms
proof (induction rs w rule: cn_requests.induct)
  case (2 op ev ce rs w)
  have "cn_table_ok G (db_connections (w_db (snd (cn_run_op op ev ce w))))"
    by (rule cn_run_op_cases [of op ev ce w]) (use 2(2,3) in \<open>auto dest: effect_keeps\<close>)
  with 2 show ?case by simp
qed simp

end

section \<open>The two laws of a row\<close>

text \<open>The row's secret opens, under the row's own id, with the keyring of the process
  (whose cipher is lawful and whose random source gives nonces of its size).\<close>

definition same_ring :: "aead \<Rightarrow> keyring \<Rightarrow> conn_env \<Rightarrow> bool" where
  "same_ring g ring ce \<longleftrightarrow> cv_aead ce = g \<and> cv_ring ce = ring \<and> aead_ok g \<and> keyring_ok ring \<and>
     (case cv_nonce ce of None \<Rightarrow> True | Some n \<Rightarrow> length n = ag_NonceSize g)"

definition secret_opens :: "aead \<Rightarrow> keyring \<Rightarrow> connection_row \<Rightarrow> bool" where
  "secret_opens g ring r \<longleftrightarrow> is_ok (kr_Open g ring (cn_Sealed r) (secretAAD (cn_ID r)))"

lemma seals_opens:
  assumes "same_ring g ring ce" and "seals ce x i s"
  shows "kr_Open g ring s (secretAAD i) = Inr (to_bytes x)"
proof -
  from assms obtain k n where "map_of (kr_keys ring) (kr_current ring) = Some k" "cv_nonce ce = Some n"
    "s = \<lparr> sl_Ciphertext = ag_Seal g (ky_material k) n (to_bytes x) (secretAAD i), sl_Nonce = n,
      sl_KeyVersion = kr_current ring, sl_Alg = AlgorithmAESGCM \<rparr>"
    by (auto simp: same_ring_def seals_def elim: kr_Seal_Inr)
  with assms(1) show ?thesis by (simp add: same_ring_def kr_Open_iff)
qed

lemma row_secrets [simp]:
  "cn_Sealed (apply_patch patch sl now r) = or_keep sl (cn_Sealed r)"
  "cn_Sealed (record_verdict rep r) = cn_Sealed r"
  "cn_Sealed (retire_row now r) = cn_Sealed r" "cn_Sealed (activate_row now r) = cn_Sealed r"
  by (simp_all add: apply_patch_def Let_def record_verdict_def retire_row_def activate_row_def)

interpretation openable: row_law "same_ring g ring" "secret_opens g ring" for g ring
proof
  fix ce r patch sl now
  assume E: "same_ring g ring ce" and G: "secret_opens g ring r"
    and s: "\<And>s. sl = Some s \<Longrightarrow> \<exists>x. seals ce x (cn_ID r) s"
  show "secret_opens g ring (apply_patch patch sl now r)"
  proof (cases sl)
    case (Some s)
    with s obtain x where "seals ce x (cn_ID r) s" by blast
    from seals_opens [OF E this] Some show ?thesis by (simp add: secret_opens_def or_keep_def)
  qed (use G in \<open>simp add: secret_opens_def or_keep_def\<close>)
qed (auto simp: secret_opens_def seals_opens)

text \<open>A healthy row was probed, by one of the requests' environments, with the
  coordinates and the secret it holds now, at the time it says.\<close>

definition probed :: "(conn_env \<Rightarrow> bool) \<Rightarrow> connection_row \<Rightarrow> bool" where
  "probed E r \<longleftrightarrow> (cn_Health r = HealthHealthy \<longrightarrow> (\<exists>ce p. E ce \<and> opens ce r p \<and>
     vr_OK (cv_verify ce (probe_target r p)) \<and>
     cn_LastVerifiedAt r = Some (vr_CheckedAt (cv_verify ce (probe_target r p)))))"

lemma probed_same:
  assumes "probed E r" and "cn_Health r' = cn_Health r" and "cn_LastVerifiedAt r' = cn_LastVerifiedAt r"
    and "cn_ID r' = cn_ID r" and "cn_Sealed r' = cn_Sealed r" and "cn_BaseURL r' = cn_BaseURL r"
    and "cn_Realm r' = cn_Realm r" and "cn_ClientID r' = cn_ClientID r"
  shows "probed E r'"
  using assms by (auto simp: probed_def opens_def probe_target_def)

lemma record_verdict_simps [simp]:
  "cn_Health (record_verdict rep r) = (if vr_OK rep then HealthHealthy else HealthUnhealthy)"
  "cn_LastVerifiedAt (record_verdict rep r) = Some (vr_CheckedAt rep)"
  "probe_target (record_verdict rep r) p = probe_target r p"
  "opens ce (record_verdict rep r) p = opens ce r p"
  "cn_Status (record_verdict rep r) = cn_Status r"
  by (simp_all add: record_verdict_def probe_target_def opens_def)

interpretation probed: row_law E "probed E" for E
proof
  fix ce r patch sl now
  assume "probed E r"
  then show "probed E (apply_patch patch sl now r)"
    by (cases "reprobes patch sl")
      (auto simp: apply_patch_def Let_def reprobes_def or_keep_def probed_def opens_def probe_target_def)
next
  fix ce r p
  assume "E ce" "opens ce r p"
  then show "probed E (record_verdict (cv_verify ce (probe_target r p)) r)"
    by (auto simp: probed_def split: if_splits)
qed (auto simp: probed_def retire_row_def activate_row_def opens_def probe_target_def)

section \<open>What happens to one row\<close>

fun status_step :: "connection_status \<Rightarrow> connection_status \<Rightarrow> bool" where
  "status_step StatusDraft s = True"
| "status_step StatusLive s = (s \<noteq> StatusDraft)"
| "status_step StatusRetired s = (s = StatusRetired)"

definition cn_row_evolves :: "connection_row \<Rightarrow> connection_row \<Rightarrow> bool" where
  "cn_row_evolves r r' \<longleftrightarrow>
     cn_ID r' = cn_ID r \<and> cn_WorkspaceID r' = cn_WorkspaceID r \<and> cn_Provider r' = cn_Provider r \<and>
     cn_CreatedAt r' = cn_CreatedAt r \<and> status_step (cn_Status r) (cn_Status r') \<and>
     (cn_Status r \<noteq> StatusDraft \<longrightarrow> cn_Name r' = cn_Name r \<and> cn_BaseURL r' = cn_BaseURL r \<and>
        cn_Realm r' = cn_Realm r \<and> cn_ClientID r' = cn_ClientID r \<and> cn_Sealed r' = cn_Sealed r) \<and>
     (cn_ActivatedAt r \<noteq> None \<longrightarrow> cn_ActivatedAt r' = cn_ActivatedAt r) \<and>
     (cn_RetiredAt r \<noteq> None \<longrightarrow> cn_RetiredAt r' = cn_RetiredAt r)"

lemma evolves_refl: "cn_row_evolves r r"
  by (cases "cn_Status r") (auto simp: cn_row_evolves_def)

lemma evolves_trans: "cn_row_evolves a b \<Longrightarrow> cn_row_evolves b c \<Longrightarrow> cn_row_evolves a c"
  by (cases "cn_Status a"; cases "cn_Status b"; cases "cn_Status c") (auto simp: cn_row_evolves_def)

lemma all_evolve_trans:
  "list_all2 cn_row_evolves xs ys \<Longrightarrow> list_all2 cn_row_evolves ys zs \<Longrightarrow> list_all2 cn_row_evolves xs zs"
  by (auto simp: list_all2_conv_all_nth dest!: spec) (blast intro: evolves_trans)

lemma cn_updated_evolves:
  assumes "cn_updated P f d d'"
    and "\<And>r. r \<in> set (db_connections d) \<Longrightarrow> P r \<Longrightarrow> cn_row_evolves r (f r)"
  shows "list_all2 cn_row_evolves (db_connections d) (db_connections d')"
  unfolding cn_updated_rows [OF assms(1)] cn_rewrite_def
  by (auto simp: list_all2_conv_all_nth evolves_refl assms(2))

lemma retire_evolves:
  "cn_constraints r \<Longrightarrow> cn_Status r \<noteq> StatusRetired \<Longrightarrow> cn_row_evolves r (retire_row now r)"
  by (cases "cn_Status r") (auto simp: cn_row_evolves_def retire_row_def cn_constraints_def)

lemma activate_evolves:
  "cn_constraints r \<Longrightarrow> cn_Status r = StatusDraft \<Longrightarrow> cn_row_evolves r (activate_row now r)"
  by (auto simp: cn_row_evolves_def activate_row_def cn_constraints_def)

lemma verdict_evolves: "cn_row_evolves r (record_verdict rep r)"
  by (cases "cn_Status r") (auto simp: cn_row_evolves_def record_verdict_def)

lemma patch_evolves: "cn_Status r = StatusDraft \<Longrightarrow> cn_row_evolves r (apply_patch p sl now r)"
  by (auto simp: cn_row_evolves_def apply_patch_def Let_def)

text \<open>One request: the rows evolve in place, or one draft is added, or those of an id
  that is not active are deleted.\<close>

definition rows_step :: "cn_op \<Rightarrow> connection_row list \<Rightarrow> connection_row list \<Rightarrow> bool" where
  "rows_step op rows rows' \<longleftrightarrow>
     list_all2 cn_row_evolves rows rows' \<or>
     (\<exists>r. rows' = rows @ [r] \<and> cn_Status r = StatusDraft \<and> cn_ID r \<notin> cn_ID ` set rows) \<or>
     (\<exists>i wid cid. op = CnDelete wid cid \<and> rows' = filter (\<lambda>r. \<not> deletable i r) rows)"

lemma rows_stepI: "list_all2 cn_row_evolves rows rows' \<Longrightarrow> rows_step op rows rows'"
  by (simp add: rows_step_def)

lemma effect_rows:
  assumes "cn_effect ce op c d d'" and "cn_table_ok G (db_connections d)"
  shows "rows_step op (db_connections d) (db_connections d')"
  using assms
proof (induction rule: cn_effect.induct)
  case (conn_activated wid cid q d ce ws d1 d' c)
  have c: "list_all cn_constraints (db_connections d)" using conn_activated.prems by (simp add: cn_table_ok_def)
  have "cn_table_ok (\<lambda>_. True) (db_connections d1)"
    by (rule cn_updated_keeps [OF conn_activated.hyps(6)])
      (use conn_activated.prems in \<open>auto simp: cn_table_ok_def list_all_iff\<close>)
  then have c1: "list_all cn_constraints (db_connections d1)" by (simp add: cn_table_ok_def)
  have "list_all2 cn_row_evolves (db_connections d) (db_connections d1)"
    by (rule cn_updated_evolves [OF conn_activated.hyps(6)])
      (use c in \<open>auto simp: list_all_iff active_in_def intro!: retire_evolves\<close>)
  moreover have "list_all2 cn_row_evolves (db_connections d1) (db_connections d')"
    by (rule cn_updated_evolves [OF conn_activated.hyps(7)])
      (use c1 in \<open>auto simp: list_all_iff is_draft_row_def intro!: activate_evolves\<close>)
  ultimately show ?case by (rule rows_stepI [OF all_evolve_trans])
next
  case (conn_updated wid cid q d inp sl ce patch d' c)
  then show ?case
    by (intro rows_stepI cn_updated_evolves [OF conn_updated.hyps(7)]) (auto simp: is_draft_row_def patch_evolves)
next
  case (conn_verified wid cid q d ce p d' c)
  then show ?case by (intro rows_stepI cn_updated_evolves [OF conn_verified.hyps(3)] verdict_evolves)
next
  case (conn_retired wid cid q d ce d' c)
  then show ?case
    by (intro rows_stepI cn_updated_evolves [OF conn_retired.hyps(3)])
      (auto simp: cn_table_ok_def list_all_iff intro: retire_evolves)
qed (auto simp: rows_step_def)

lemma run_op_rows:
  assumes "cn_table_ok G (db_connections (w_db w))"
  shows "rows_step op (db_connections (w_db w)) (db_connections (w_db (snd (cn_run_op op ev ce w))))"
  by (rule cn_run_op_cases [of op ev ce w])
    (use assms in \<open>auto dest: effect_rows intro: rows_stepI simp: list_all2_refl evolves_refl\<close>)

lemma rows_step_evolves:
  assumes "rows_step op rows rows'" and "distinct (map cn_ID rows)"
    and "r \<in> set rows" and "r' \<in> set rows'" and "cn_ID r' = cn_ID r"
  shows "cn_row_evolves r r'"
proof -
  have inj: "a = b" if "a \<in> set rows" "b \<in> set rows" "cn_ID a = cn_ID b" for a b
    using that assms(2) by (auto simp: distinct_map dest: inj_onD)
  have "cn_ID r' \<in> cn_ID ` set rows" using assms(3,5) by simp
  moreover have "r' \<in> set rows" if "rows' = rows @ [x]" "cn_ID x \<notin> cn_ID ` set rows" for x
    using that assms(4) calculation by auto
  moreover have "r' \<in> set rows" if "rows' = filter P rows" for P
    using that assms(4) by simp
  ultimately consider (evolve) "list_all2 cn_row_evolves rows rows'" | (old) "r' \<in> set rows"
    using assms(1) unfolding rows_step_def by metis
  then show ?thesis
  proof cases
    case evolve
    with assms(4) obtain n where n: "n < length rows" "cn_row_evolves (rows ! n) r'"
      by (auto simp: list_all2_conv_all_nth in_set_conv_nth)
    have "cn_ID r' = cn_ID (rows ! n)" using n(2) by (simp add: cn_row_evolves_def)
    then have "rows ! n = r" using inj [OF nth_mem [OF n(1)] assms(3)] assms(5) by metis
    with n(2) show ?thesis by simp
  next
    case old
    with inj [of r r'] assms(3,5) show ?thesis by (simp add: evolves_refl)
  qed
qed

lemma evolve_ids: "list_all2 cn_row_evolves rows rows' \<Longrightarrow> map cn_ID rows' = map cn_ID rows"
  by (induction rule: list_all2_induct) (auto simp: cn_row_evolves_def)

lemma rows_step_gone:
  assumes "rows_step op rows rows'" and "r \<in> set rows" and "cn_ID r \<notin> cn_ID ` set rows'"
  shows "cn_Status r \<noteq> StatusLive \<and> (\<exists>wid cid. op = CnDelete wid cid)"
proof -
  have "cn_ID r \<in> set (map cn_ID rows)" using assms(2) by simp
  with assms(3) have "\<not> list_all2 cn_row_evolves rows rows'"
    by (metis evolve_ids list.set_map)
  with assms show ?thesis by (auto simp: rows_step_def deletable_def)
qed

section \<open>Activation\<close>

inductive_cases activate_effectE: "cn_effect ce (CnActivate wid cid) c d d'"

lemma cn_Activate_effect:
  assumes "cn_Activate wid cid ev ce w = (Inr c, w')"
  obtains d1 where "cn_effect ce (CnActivate wid cid) c (w_db w) d1"
    and "db_connections (w_db w') = db_connections d1"
  using cn_Activate_audited [of ce wid cid ev w] assms
  by (auto simp: audited_def atomic_outcome_def cn_outcome_def)

lemma cn_updated_status:
  "cn_updated P f d d' \<Longrightarrow> r \<in> set (db_connections d) \<Longrightarrow> P r \<Longrightarrow> f r \<in> set (db_connections d')"
  "cn_updated P f d d' \<Longrightarrow> r \<in> set (db_connections d) \<Longrightarrow> \<not> P r \<Longrightarrow> r \<in> set (db_connections d')"
  by (auto simp: cn_updated_rows cn_rewrite_def)

lemma one_active_same:
  assumes "one_active rows" and "r \<in> set rows" and "r' \<in> set rows" and "cn_Status r = StatusLive"
    and "cn_Status r' = StatusLive" and "cn_WorkspaceID r = cn_WorkspaceID r'"
  shows "r = r'"
  using assms by (auto simp: one_active_def distinct_map dest: inj_onD)

lemma activate_row_simps [simp]:
  "cn_Status (activate_row now r) = StatusLive" "cn_WorkspaceID (activate_row now r) = cn_WorkspaceID r"
  by (simp_all add: activate_row_def)

text \<open>After a successful activation the connection is the active one of its
  workspace, and no other is.\<close>

lemma activated_alone:
  assumes "cn_effect ce (CnActivate wid cid) c d d'" and "cn_table_ok G (db_connections d)"
  obtains q where "addresses wid cid q d" and "q \<in> set (db_connections d)"
    and "CanActivate (cv_now ce) q = Inr ()"
    and "\<And>r. r \<in> set (db_connections d') \<Longrightarrow> cn_WorkspaceID r = cn_WorkspaceID q \<Longrightarrow>
      (cn_Status r = StatusLive) = (cn_ID r = cn_ID q)"
  using assms(1)
proof (rule activate_effectE)
  fix q ws d1
  assume a: "addresses wid cid q d" and can: "CanActivate (cv_now ce) q = Inr ()"
    and u1: "cn_updated (\<lambda>r. active_in (cn_WorkspaceID q) r \<and> cn_ID r \<noteq> cn_ID q) (retire_row (cv_now ce)) d d1"
    and u2: "cn_updated (is_draft_row (cn_ID q)) (activate_row (cv_now ce)) d1 d'"
  have q: "q \<in> set (db_connections d)" using a by (auto simp: addresses_def dest: find_Some)
  have draft: "cn_Status q = StatusDraft" using can by (simp add: CanActivate_def split: connection_status.splits)
  have "q \<in> set (db_connections d1)" by (rule cn_updated_status(2) [OF u1 q]) simp
  from cn_updated_status(1) [OF u2 this] draft
  have q': "activate_row (cv_now ce) q \<in> set (db_connections d')" by (simp add: is_draft_row_def)
  have ok1: "cn_table_ok (\<lambda>_. True) (db_connections d1)"
    by (rule cn_updated_keeps [OF u1]) (use assms(2) in \<open>auto simp: cn_table_ok_def list_all_iff\<close>)
  have ok2: "cn_table_ok (\<lambda>_. True) (db_connections d')"
    by (rule cn_updated_keeps [OF u2 ok1]) simp_all
  then have one: "one_active (db_connections d')" and inj: "inj_on cn_ID (set (db_connections d'))"
    by (auto simp: cn_table_ok_def distinct_map)
  have "(cn_Status r = StatusLive) = (cn_ID r = cn_ID q)"
    if r: "r \<in> set (db_connections d')" "cn_WorkspaceID r = cn_WorkspaceID q" for r
    using one_active_same [OF one r(1) q'] inj_onD [OF inj _ r(1) q'] r(2) by fastforce
  with that [OF a q can] show thesis by blast
qed

section \<open>Properties\<close>

text \<open>Every connection mutation (create, update, verify, activate, retire,
  delete), whichever statement fails and wherever, either leaves the whole database
  untouched or has exactly its own effect under the checks the service makes, plus
  one audit row of the request's action about the connection returned.\<close>

theorem connection_mutation_atomic:
  assumes "cn_run_op op ev ce w = (r, w')"
  shows "case r of
       Inl _ \<Rightarrow> w_db w' = w_db w
     | Inr c \<Rightarrow> \<exists>d1 row. cn_effect ce op c (w_db w) d1 \<and> w_db w' = with_audit row d1 \<and>
         au_EventType row = ea_Action ev \<and> au_ResourceType row = ''connection'' \<and>
         au_ResourceID row = cn_PublicID c"
  using cn_run_op_audited [of ce op ev w] assms
  by (auto simp: audited_def atomic_outcome_def cn_outcome_def split: sum.splits)

text \<open>C17: over any sequence of connection requests, failing or not, in a process with
  one keyring, the table keeps unique ids, its constraints and at most one active
  connection per workspace, and every stored secret opens with that keyring under
  its own row's id.\<close>

theorem connection_table_invariant:
  assumes "cn_table_ok (secret_opens g ring) (db_connections (w_db w))"
    and "list_all (\<lambda>(op, ev, ce). same_ring g ring ce) rs"
  shows "cn_table_ok (secret_opens g ring) (db_connections (w_db (cn_requests rs w)))"
  using assms by (rule openable.requests_keep)

text \<open>A request changes a connection only along its life cycle: its identity,
  workspace, provider and creation time never change, its status only moves from
  draft to active to retired, its configuration and secret change only while it is
  a draft, and its activation and retirement times are written once; a connection
  disappears only by deletion and never while it is active.\<close>

theorem connection_evolution:
  assumes "cn_table_ok (\<lambda>_. True) (db_connections (w_db w))" and "cn_run_op op ev ce w = (res, w')"
  shows "(\<forall>r \<in> set (db_connections (w_db w)). \<forall>r' \<in> set (db_connections (w_db w')).
       cn_ID r' = cn_ID r \<longrightarrow> cn_row_evolves r r') \<and>
    (\<forall>r \<in> set (db_connections (w_db w)). cn_ID r \<notin> cn_ID ` set (db_connections (w_db w')) \<longrightarrow>
       cn_Status r \<noteq> StatusLive \<and> (\<exists>wid cid. op = CnDelete wid cid))"
  using assms(1) run_op_rows [OF assms(1), of op ev ce] assms(2)
  by (auto simp: cn_table_ok_def dest: rows_step_evolves rows_step_gone)

text \<open>C9: run one after another, requests only let a connection be activated when it
  is a draft in a workspace that is not archived and some earlier request probed
  the provider with exactly the coordinates and secret the connection has when it
  is activated, found it healthy, and did so within the last hour; afterwards it is
  the active connection of its workspace and no other connection there is.\<close>

theorem activation_verified:
  assumes "cn_table_ok (\<lambda>r. cn_Health r \<noteq> HealthHealthy) (db_connections (w_db w))"
    and "cn_Activate wid cid ev ce (cn_requests rs w) = (Inr c, w')"
  shows "\<exists>q. addresses wid cid q (w_db (cn_requests rs w)) \<and> cn_Status q = StatusDraft \<and>
    (\<exists>op ev0 ce0 p. (op, ev0, ce0) \<in> set rs \<and> opens ce0 q p \<and>
       vr_OK (cv_verify ce0 (probe_target q p)) \<and>
       cv_now ce - vr_CheckedAt (cv_verify ce0 (probe_target q p)) \<le> VerifyValidity) \<and>
    (\<forall>r \<in> set (db_connections (w_db w')). cn_WorkspaceID r = cn_WorkspaceID q \<longrightarrow>
       (cn_Status r = StatusLive \<longleftrightarrow> cn_ID r = cn_ID q))"
proof -
  let ?E = "\<lambda>ce0. \<exists>op ev0. (op, ev0, ce0) \<in> set rs" and ?d = "w_db (cn_requests rs w)"
  have "cn_table_ok (probed ?E) (db_connections (w_db w))"
    using assms(1) by (auto simp: cn_table_ok_def list_all_iff probed_def)
  then have ok: "cn_table_ok (probed ?E) (db_connections ?d)"
    by (rule probed.requests_keep) (auto simp: list_all_iff)
  obtain d1 where "cn_effect ce (CnActivate wid cid) c ?d d1"
    and d1: "db_connections (w_db w') = db_connections d1"
    using cn_Activate_effect [OF assms(2)] by blast
  from activated_alone [OF this(1) ok] obtain q where q: "addresses wid cid q ?d" "q \<in> set (db_connections ?d)"
    "CanActivate (cv_now ce) q = Inr ()" and alone: "\<And>r. r \<in> set (db_connections d1) \<Longrightarrow>
      cn_WorkspaceID r = cn_WorkspaceID q \<Longrightarrow> (cn_Status r = StatusLive) = (cn_ID r = cn_ID q)" by metis
  from q(3) obtain t where "cn_Status q = StatusDraft" "cn_Health q = HealthHealthy"
    "cn_LastVerifiedAt q = Some t" "cv_now ce - t \<le> VerifyValidity"
    by (auto simp: CanActivate_def IsVerified_def split: connection_status.splits if_splits option.splits)
  moreover have "probed ?E q" using ok q(2) by (auto simp: cn_table_ok_def list_all_iff)
  ultimately show ?thesis using q(1) alone unfolding d1 probed_def by fastforce
qed

text \<open>A draft whose provider answers at \<^verbatim>\<open>https://a\<close> only.\<close>

definition demo_cn_row :: connection_row where
  "demo_cn_row = rowFrom (new_connection demo_ws_id demo_ws_id ''idp'' ProviderKeycloak ''https://a'' ''r'' ''c'' 1)
     (case kr_Seal toy_aead demo_keyring (Some (replicate 12 9)) [115] (secretAAD demo_ws_id) of Inr s \<Rightarrow> s)"

definition demo_cn_world :: world where
  "demo_cn_world = \<lparr> w_db = \<lparr> db_workspaces = [demo_workspace\<lparr> ws_Status := StatusActive, ws_ArchivedAt := None \<rparr>],
     db_projects = [], db_credentials = [], db_connections = [demo_cn_row], db_audit = [] \<rparr>, w_faults = [] \<rparr>"

definition demo_verify :: "int \<Rightarrow> verify_target \<Rightarrow> verify_report" where
  "demo_verify now t = \<lparr> vr_OK = (vt_BaseURL t = ''https://a''), vr_AccessMode = AccessModeFull,
     vr_Summary = [], vr_CheckedAt = now \<rparr>"

definition demo_cn_env :: "nat \<Rightarrow> conn_env" where
  "demo_cn_env n = \<lparr> cv_now = 5, cv_rnd_id = Inr (replicate 16 3), cv_nonce = Some (replicate 12 8),
     cv_aead = toy_aead, cv_ring = demo_keyring, cv_url = (\<lambda>_. Some (''https'', ''h'')),
     cv_verify = demo_verify 4, cv_audit = demo_env\<lparr> en_rnd := Inr (replicate 16 (of_nat n)) \<rparr> \<rparr>"

abbreviation demo_wid :: string where "demo_wid \<equiv> ''ws_'' @ demo_ws_id"
abbreviation demo_cid :: string where "demo_cid \<equiv> ''conn_'' @ demo_ws_id"

definition demo_move :: update_input where
  "demo_move = \<lparr> up_Name = None, up_BaseURL = Some ''https://b'', up_Realm = None, up_ClientID = None,
     up_ClientSecret = None \<rparr>"

text \<open>Another request's update between the probe and the recording of its verdict, and
  an activation after them.\<close>

definition update_during_verify :: "string \<Rightarrow> string \<Rightarrow> update_input \<Rightarrow> audit_event \<Rightarrow>
    conn_env \<Rightarrow> conn_env \<Rightarrow> conn_env \<Rightarrow> world \<Rightarrow> (verify_target \<times> connection) option" where
  "update_during_verify wid cid inp ev ce1 ce2 ce3 w =
     (case cn_probe wid cid ce1 w of
        (Inr (c, target, rep), w1) \<Rightarrow>
          (case cn_Update wid cid inp ev ce2 w1 of
             (Inr _, w2) \<Rightarrow>
               (case cn_record_verdict c rep ev ce1 w2 of
                  (Inr _, w3) \<Rightarrow>
                    (case cn_Activate wid cid ev ce3 w3 of
                       (Inr a, _) \<Rightarrow> Some (target, a)
                     | _ \<Rightarrow> None)
                | _ \<Rightarrow> None)
           | _ \<Rightarrow> None)
      | _ \<Rightarrow> None)"

definition demo_race :: "(verify_target \<times> connection) option" where
  "demo_race = update_during_verify demo_wid demo_cid demo_move demo_event
     (demo_cn_env 1) (demo_cn_env 2) (demo_cn_env 3) demo_cn_world"

text \<open>The guarantee needs the requests not to interleave: an update that commits
  between a verification's probe and the recording of its verdict leaves the new
  coordinates marked healthy by the probe of the old ones, and the connection is
  activated although the provider it now names has never answered a probe.\<close>

theorem update_during_verify_activates_unprobed:
  "\<exists>target c. demo_race = Some (target, c) \<and>
     cn_Status c = StatusLive \<and> cn_Health c = HealthHealthy \<and>
     vt_BaseURL target = ''https://a'' \<and> cn_BaseURL c = ''https://b'' \<and>
     \<not> vr_OK (demo_verify 4 (target\<lparr> vt_BaseURL := cn_BaseURL c \<rparr>))"
proof -
  have "(case demo_race of
      None \<Rightarrow> False | Some (target, c) \<Rightarrow> cn_Status c = StatusLive \<and> cn_Health c = HealthHealthy \<and>
        vt_BaseURL target = ''https://a'' \<and> cn_BaseURL c = ''https://b'' \<and>
        \<not> vr_OK (demo_verify 4 (target\<lparr> vt_BaseURL := cn_BaseURL c \<rparr>)))"
    by code_simp
  then show ?thesis by (auto split: option.splits)
qed

lemma demo_rows: "db_connections (w_db demo_cn_world) = [demo_cn_row]"
  by (simp add: demo_cn_world_def)

lemma demo_table_ok:
  "cn_table_ok (\<lambda>r. cn_Health r \<noteq> HealthHealthy) [demo_cn_row]"
  "cn_table_ok (secret_opens toy_aead demo_keyring) [demo_cn_row]"
  "cn_table_ok (\<lambda>_. True) [demo_cn_row]"
  by code_simp+

definition demo_verify_rq :: "cn_op \<times> audit_event \<times> conn_env" where
  "demo_verify_rq = (CnVerify demo_wid demo_cid, demo_event, demo_cn_env 1)"

definition demo_activate :: "go_error + connection" where
  "demo_activate = fst (cn_Activate demo_wid demo_cid demo_event (demo_cn_env 2) (cn_requests [demo_verify_rq] demo_cn_world))"

theorem connection_mutation_atomic_witness:
  "\<exists>c row d1. cn_effect (demo_cn_env 2) (CnRetire demo_wid demo_cid) c (w_db demo_cn_world) d1 \<and>
     w_db (snd (cn_run_op (CnRetire demo_wid demo_cid) demo_event (demo_cn_env 2) demo_cn_world)) = with_audit row d1 \<and>
     au_ResourceID row = cn_PublicID c"
proof -
  obtain r w' where r: "cn_run_op (CnRetire demo_wid demo_cid) demo_event (demo_cn_env 2) demo_cn_world = (r, w')"
    by (cases "cn_run_op (CnRetire demo_wid demo_cid) demo_event (demo_cn_env 2) demo_cn_world")
  have "is_ok (fst (cn_run_op (CnRetire demo_wid demo_cid) demo_event (demo_cn_env 2) demo_cn_world))" by code_simp
  with r obtain c where x: "r = Inr c" by (auto simp: is_ok_iff)
  from connection_mutation_atomic [OF r] show ?thesis unfolding r x by auto
qed

theorem connection_table_invariant_witness:
  "cn_table_ok (secret_opens toy_aead demo_keyring) (db_connections (w_db (cn_requests
     [(CnRetire demo_wid demo_cid, demo_event, demo_cn_env 2)] demo_cn_world)))"
proof (rule connection_table_invariant)
  have "keyring_ok demo_keyring" by (rule NewKeyring_Inr(1) [OF demo_keyrings(1)])
  then show "list_all (\<lambda>(op, ev, ce). same_ring toy_aead demo_keyring ce)
      [(CnRetire demo_wid demo_cid, demo_event, demo_cn_env 2)]"
    by (simp add: same_ring_def demo_cn_env_def toy_aead_ok) (simp add: toy_aead_def)
qed (simp add: demo_rows demo_table_ok)

theorem connection_evolution_witness:
  "\<exists>r'. r' \<in> set (db_connections (w_db (snd (cn_run_op (CnRetire demo_wid demo_cid) demo_event (demo_cn_env 2) demo_cn_world)))) \<and>
     cn_ID r' = cn_ID demo_cn_row \<and> cn_row_evolves demo_cn_row r'"
proof -
  have "list_ex (\<lambda>r'. cn_ID r' = cn_ID demo_cn_row)
      (db_connections (w_db (snd (cn_run_op (CnRetire demo_wid demo_cid) demo_event (demo_cn_env 2) demo_cn_world))))"
    by code_simp
  moreover obtain r w' where r: "cn_run_op (CnRetire demo_wid demo_cid) demo_event (demo_cn_env 2) demo_cn_world = (r, w')"
    by (cases "cn_run_op (CnRetire demo_wid demo_cid) demo_event (demo_cn_env 2) demo_cn_world")
  ultimately show ?thesis
    using connection_evolution [OF _ r] demo_table_ok(3) unfolding r demo_rows by (auto simp: list_ex_iff)
qed

theorem activation_verified_witness:
  "\<exists>op ev0 ce0 p q. (op, ev0, ce0) \<in> set [demo_verify_rq] \<and> opens ce0 q p \<and> vr_OK (cv_verify ce0 (probe_target q p))"
proof -
  have "is_ok demo_activate" by code_simp
  then obtain c where c: "fst (cn_Activate demo_wid demo_cid demo_event (demo_cn_env 2)
      (cn_requests [demo_verify_rq] demo_cn_world)) = Inr c"
    unfolding is_ok_iff demo_activate_def by blast
  obtain w' where "cn_Activate demo_wid demo_cid demo_event (demo_cn_env 2)
      (cn_requests [demo_verify_rq] demo_cn_world) = (Inr c, w')"
    using c by (cases "cn_Activate demo_wid demo_cid demo_event (demo_cn_env 2)
      (cn_requests [demo_verify_rq] demo_cn_world)") simp
  from activation_verified [OF _ this] demo_table_ok(1) show ?thesis unfolding demo_rows by blast
qed

end
