(* ===== verification/Rotation.thy ===== *)
theory Rotation
  imports ConnectionInvariant
begin

text \<open>
  \<^verbatim>\<open>internal/connection/rotate.go\<close>: re-sealing the stored secrets under the
  keyring's current version. A row is rotated in a transaction of its own; what the
  closure of \<^verbatim>\<open>rotateOne\<close> leaves in the variables it captures (outcome,
  failure, observed version) is \<open>rot_vars\<close>, returned beside the transaction's
  result. The BEGIN may fail like any statement. The nonce and the cancellation of
  the context at each row are arguments.

  Lemmas: a run changes nothing but the four columns of the secret and keeps every
  secret's plaintext; a run without failures leaves every row under the current
  version; what the census says may be removed from the keyring may be.
\<close>

section \<open>The census\<close>

type_synonym census = "(int \<times> nat) list"

definition row_version :: "connection_row \<Rightarrow> int" where
  "row_version r = sl_KeyVersion (cn_Sealed r)"

text \<open>\<^verbatim>\<open>SELECT secret_key_version, count(*) ... GROUP BY\<close>, as the Go map it is
  scanned into.\<close>

definition group_versions :: "connection_row list \<Rightarrow> census" where
  "group_versions rows =
     map (\<lambda>v. (v, length (filter (\<lambda>r. row_version r = v) rows))) (remdups (map row_version rows))"

definition Census :: "census act" where
  "Census = query (\<lambda>d. group_versions (db_connections d))"

definition census_rows :: "census \<Rightarrow> int \<Rightarrow> nat" where
  "census_rows c v = (case map_of c v of None \<Rightarrow> 0 | Some n \<Rightarrow> n)"

definition Versions :: "census \<Rightarrow> int list" where "Versions c = sort (map fst c)"

definition census_total :: "census \<Rightarrow> nat" where "census_total c = sum_list (map snd c)"

definition Unopenable :: "census \<Rightarrow> keyring \<Rightarrow> int list" where
  "Unopenable c ring = filter (\<lambda>v. \<not> kr_Has ring v) (Versions c)"

definition SafeToRemove :: "census \<Rightarrow> keyring \<Rightarrow> int list" where
  "SafeToRemove c ring =
     filter (\<lambda>v. v \<noteq> kr_current ring \<and> census_rows c v = 0) (kr_versions ring)"

record rotation_plan =
  pl_Census :: census
  pl_Current :: int
  pl_NeedRotation :: nat
  pl_AlreadyCurrent :: nat
  pl_MissingVersions :: "int list"
  pl_Blocked :: nat

fun plan_loop :: "census \<Rightarrow> keyring \<Rightarrow> int list \<Rightarrow> rotation_plan \<Rightarrow> rotation_plan" where
  "plan_loop c ring [] plan = plan"
| "plan_loop c ring (v # vs) plan =
     (if v = pl_Current plan then plan_loop c ring vs plan
      else
        let plan1 = plan\<lparr> pl_NeedRotation := pl_NeedRotation plan + census_rows c v \<rparr>;
            plan2 = if \<not> kr_Has ring v
              then plan1\<lparr> pl_Blocked := pl_Blocked plan1 + census_rows c v \<rparr> else plan1
        in plan_loop c ring vs plan2)"

definition PlanFrom :: "census \<Rightarrow> keyring \<Rightarrow> rotation_plan" where
  "PlanFrom c ring = plan_loop c ring (Versions c)
     \<lparr> pl_Census = c, pl_Current = kr_current ring, pl_NeedRotation = 0,
       pl_AlreadyCurrent = census_rows c (kr_current ring),
       pl_MissingVersions = Unopenable c ring, pl_Blocked = 0 \<rparr>"

definition Plan :: "keyring \<Rightarrow> rotation_plan act" where
  "Plan ring = andThen Census (\<lambda>c. ret (PlanFrom c ring))"

section \<open>Rotation\<close>

datatype rotation_outcome = OutcomeRotated | OutcomeAlreadyCurrent | OutcomeFailed

record rotation_failure =
  rf_ConnectionPublicID :: string
  rf_KeyVersion :: int
  rf_Reason :: string

record rotation_report =
  rp_Total :: nat
  rp_AlreadyCurrent :: nat
  rp_Rotated :: nat
  rp_Failures :: "rotation_failure list"

definition rp_Complete :: "rotation_report \<Rightarrow> bool" where
  "rp_Complete r \<longleftrightarrow> length (rp_Failures r) = 0"

record rot_env =
  ro_aead :: aead
  ro_ring :: keyring
  ro_nonce :: "nat \<Rightarrow> bytes option"
  ro_cancelled :: "nat \<Rightarrow> bool"

record rot_vars =
  rv_outcome :: rotation_outcome
  rv_failure :: rotation_failure
  rv_observed :: int

definition no_failure :: rotation_failure where
  "no_failure = \<lparr> rf_ConnectionPublicID = [], rf_KeyVersion = 0, rf_Reason = [] \<rparr>"

definition rot_failed :: "string \<Rightarrow> int \<Rightarrow> string \<Rightarrow> rotation_failure" where
  "rot_failed i v reason = \<lparr> rf_ConnectionPublicID = Format ConnectionPrefix i, rf_KeyVersion = v,
     rf_Reason = reason \<rparr>"

definition vars_failed :: "string \<Rightarrow> int \<Rightarrow> int \<Rightarrow> string \<Rightarrow> rot_vars" where
  "vars_failed i observed v reason =
     \<lparr> rv_outcome = OutcomeFailed, rv_failure = rot_failed i v reason, rv_observed = observed \<rparr>"

definition vars_done :: "rotation_outcome \<Rightarrow> int \<Rightarrow> rot_vars" where
  "vars_done out observed = \<lparr> rv_outcome = out, rv_failure = no_failure, rv_observed = observed \<rparr>"

definition open_failure :: "secret_error \<Rightarrow> string" where
  "open_failure e = (case e of ErrUnknownKeyVersion _ _ \<Rightarrow> ''missing_key_version'' | _ \<Rightarrow> ''cannot_open'')"

text \<open>The write of the four secret columns, guarded by the version that was read.\<close>

definition has_version :: "string \<Rightarrow> int \<Rightarrow> connection_row \<Rightarrow> bool" where
  "has_version i v r \<longleftrightarrow> cn_ID r = i \<and> row_version r = v"

definition reseal_row :: "sealed \<Rightarrow> connection_row \<Rightarrow> connection_row" where
  "reseal_row s r = r\<lparr> cn_Sealed := s \<rparr>"

text \<open>The closure of the transaction: the captured variables and its result.\<close>

definition rotate_body ::
  "rot_env \<Rightarrow> nat \<Rightarrow> string \<Rightarrow> world \<Rightarrow> rot_vars \<times> ((go_error + unit) \<times> world)" where
  "rotate_body ro n i w =
     (case cnr_OpenSecret i w of
        (Inl e, w1) \<Rightarrow> (vars_failed i 0 0 ''read_failed'', Inr (), w1)
      | (Inr None, w1) \<Rightarrow> (vars_done OutcomeAlreadyCurrent 0, Inr (), w1)
      | (Inr (Some s), w1) \<Rightarrow>
          let v = sl_KeyVersion s in
          if v = kr_current (ro_ring ro) then (vars_done OutcomeAlreadyCurrent v, Inr (), w1)
          else case kr_Open (ro_aead ro) (ro_ring ro) s (secretAAD i) of
            Inl e \<Rightarrow> (vars_failed i v v (open_failure e), Inr (), w1)
          | Inr plaintext \<Rightarrow>
              case kr_Seal (ro_aead ro) (ro_ring ro) (ro_nonce ro n) plaintext (secretAAD i) of
                Inl e \<Rightarrow> (vars_failed i v v ''seal_failed'', Inr (), w1)
              | Inr reSealed \<Rightarrow>
                  case cn_update (has_version i v) (reseal_row reSealed) w1 of
                    (Inl e, w2) \<Rightarrow> (vars_failed i v v ''write_failed'', Inl e, w2)
                  | (Inr affected, w2) \<Rightarrow>
                      if affected \<noteq> 1 then (vars_failed i v v ''write_lost'', Inl ErrDriver, w2)
                      else (vars_done OutcomeRotated v, Inr (), w2))"

definition rotateOne ::
  "rot_env \<Rightarrow> nat \<Rightarrow> string \<Rightarrow> world \<Rightarrow> (rotation_outcome \<times> rotation_failure) \<times> world" where
  "rotateOne ro n i w =
     (case query (\<lambda>_. ()) w of
        (Inl e, w0) \<Rightarrow> ((OutcomeFailed, no_failure), w0)
      | (Inr _, w0) \<Rightarrow>
          let vars = fst (rotate_body ro n i w0) in
          case InTx (\<lambda>w. snd (rotate_body ro n i w)) w0 of
            (Inr _, w1) \<Rightarrow> ((rv_outcome vars, rv_failure vars), w1)
          | (Inl e, w1) \<Rightarrow>
              if rv_outcome vars \<noteq> OutcomeFailed
              then ((OutcomeFailed, rot_failed i (rv_observed vars) ''write_failed''), w1)
              else ((rv_outcome vars, rv_failure vars), w1))"

definition count_outcome ::
  "rotation_outcome \<Rightarrow> rotation_failure \<Rightarrow> rotation_report \<Rightarrow> rotation_report" where
  "count_outcome out f rep =
     (case out of
        OutcomeRotated \<Rightarrow> rep\<lparr> rp_Rotated := rp_Rotated rep + 1 \<rparr>
      | OutcomeAlreadyCurrent \<Rightarrow> rep\<lparr> rp_AlreadyCurrent := rp_AlreadyCurrent rep + 1 \<rparr>
      | OutcomeFailed \<Rightarrow> rep\<lparr> rp_Failures := rp_Failures rep @ [f] \<rparr>)"

datatype run_error = RunStore go_error | RunCancelled

fun rotate_loop ::
  "rot_env \<Rightarrow> nat \<Rightarrow> string list \<Rightarrow> rotation_report \<Rightarrow> world \<Rightarrow> (rotation_report \<times> run_error option) \<times> world" where
  "rotate_loop ro n [] rep w = ((rep, None), w)"
| "rotate_loop ro n (i # ids) rep w =
     (if ro_cancelled ro n then ((rep, Some RunCancelled), w)
      else case rotateOne ro n i w of
        ((out, f), w1) \<Rightarrow> rotate_loop ro (n + 1) ids (count_outcome out f rep) w1)"

definition not_current :: "int \<Rightarrow> connection_row list \<Rightarrow> string list" where
  "not_current current rows = sort (map cn_ID (filter (\<lambda>r. row_version r \<noteq> current) rows))"

definition empty_report :: rotation_report where
  "empty_report = \<lparr> rp_Total = 0, rp_AlreadyCurrent = 0, rp_Rotated = 0, rp_Failures = [] \<rparr>"

definition Rotate :: "rot_env \<Rightarrow> world \<Rightarrow> (rotation_report \<times> run_error option) \<times> world" where
  "Rotate ro w =
     (let current = kr_current (ro_ring ro) in
      case query (\<lambda>d. not_current current (db_connections d)) w of
        (Inl e, w1) \<Rightarrow> ((empty_report, Some (RunStore e)), w1)
      | (Inr ids, w1) \<Rightarrow>
          (case Census w1 of
             (Inl e, w2) \<Rightarrow> ((empty_report, Some (RunStore e)), w2)
           | (Inr c, w2) \<Rightarrow>
               rotate_loop ro 0 ids \<lparr> rp_Total = census_total c, rp_AlreadyCurrent = census_rows c current,
                 rp_Rotated = 0, rp_Failures = [] \<rparr> w2))"

section \<open>What a run does to a row\<close>

text \<open>The row after: the same but for its secret, which opens to what it did; a
  current row is not written at all.\<close>

definition resealed :: "aead \<Rightarrow> keyring \<Rightarrow> connection_row \<Rightarrow> connection_row \<Rightarrow> bool" where
  "resealed g ring r r' \<longleftrightarrow>
     toDomain r' = toDomain r \<and>
     kr_Open g ring (cn_Sealed r') (secretAAD (cn_ID r')) = kr_Open g ring (cn_Sealed r) (secretAAD (cn_ID r)) \<and>
     (row_version r' \<noteq> row_version r \<longrightarrow> row_version r' = kr_current ring \<and>
        is_ok (kr_Open g ring (cn_Sealed r) (secretAAD (cn_ID r)))) \<and>
     (row_version r' = row_version r \<longrightarrow> r' = r)"

lemma resealed_refl: "resealed g ring r r" by (simp add: resealed_def)

lemma resealed_id: "resealed g ring r r' \<Longrightarrow> cn_ID r' = cn_ID r"
  by (metis resealed_def toDomain_simps(1))

lemma resealed_trans: "resealed g ring a b \<Longrightarrow> resealed g ring b c \<Longrightarrow> resealed g ring a c"
  unfolding resealed_def by metis

definition rot_env_ok :: "rot_env \<Rightarrow> bool" where
  "rot_env_ok ro \<longleftrightarrow> aead_ok (ro_aead ro) \<and> keyring_ok (ro_ring ro)"

abbreviation ro_resealed :: "rot_env \<Rightarrow> connection_row list \<Rightarrow> connection_row list \<Rightarrow> bool" where
  "ro_resealed ro \<equiv> list_all2 (resealed (ro_aead ro) (ro_ring ro))"

lemma reseal_row_simps [simp]:
  "cn_ID (reseal_row s r) = cn_ID r" "cn_Sealed (reseal_row s r) = s" "toDomain (reseal_row s r) = toDomain r"
  "row_version (reseal_row s r) = sl_KeyVersion s"
  by (simp_all add: reseal_row_def toDomain_def connection.defs row_version_def)

lemma cnr_OpenSecret_Inr:
  "cnr_OpenSecret i w = (Inr x, w') \<Longrightarrow>
     x = map_option cn_Sealed (find (\<lambda>r. cn_ID r = i) (db_connections (w_db w))) \<and> w_db w' = w_db w"
  unfolding cnr_OpenSecret_def by (rule query_Inr)

text \<open>A secret opened and sealed again, under a nonce of the cipher's size, opens to
  the same plaintext.\<close>

lemma reseal_opens:
  assumes "rot_env_ok ro" and "kr_Open (ro_aead ro) (ro_ring ro) s a = Inr p"
    and "kr_Seal (ro_aead ro) (ro_ring ro) nonce p a = Inr s'" and "\<And>k. nonce = Some k \<Longrightarrow> length k = ag_NonceSize (ro_aead ro)"
  shows "kr_Open (ro_aead ro) (ro_ring ro) s' a = Inr p \<and> sl_KeyVersion s' = kr_current (ro_ring ro)"
proof -
  have ok: "aead_ok (ro_aead ro)" "keyring_ok (ro_ring ro)" using assms(1) by (simp_all add: rot_env_ok_def)
  from kr_Seal_Inr [OF ok(2) assms(3)] obtain k n where
    "map_of (kr_keys (ro_ring ro)) (kr_current (ro_ring ro)) = Some k" "nonce = Some n"
    "s' = \<lparr> sl_Ciphertext = ag_Seal (ro_aead ro) (ky_material k) n p a, sl_Nonce = n,
      sl_KeyVersion = kr_current (ro_ring ro), sl_Alg = AlgorithmAESGCM \<rparr>" by metis
  with assms(4) show ?thesis by (simp add: kr_Open_iff [OF ok])
qed

text \<open>The transaction's body, by the outcome it leaves.\<close>

definition nonces_ok :: "rot_env \<Rightarrow> bool" where
  "nonces_ok ro \<longleftrightarrow> rot_env_ok ro \<and>
     (\<forall>n. case ro_nonce ro n of None \<Rightarrow> True | Some k \<Rightarrow> length k = ag_NonceSize (ro_aead ro))"

lemma nonces_okD: "nonces_ok ro \<Longrightarrow> rot_env_ok ro" "nonces_ok ro \<Longrightarrow> ro_nonce ro n = Some k \<Longrightarrow> length k = ag_NonceSize (ro_aead ro)"
  by (auto simp: nonces_ok_def split: option.splits dest: spec [of _ n])

definition current_rows :: "int \<Rightarrow> string \<Rightarrow> connection_row list \<Rightarrow> bool" where
  "current_rows current i rows \<longleftrightarrow> list_all (\<lambda>r. cn_ID r = i \<longrightarrow> row_version r = current) rows"

definition distinct_ids :: "world \<Rightarrow> bool" where
  "distinct_ids w \<longleftrightarrow> distinct (map cn_ID (db_connections (w_db w)))"

lemma find_unique:
  assumes "distinct (map k xs)" and "find (\<lambda>r. k r = i) xs = x"
  shows "list_all (\<lambda>r. k r = i \<longrightarrow> x = Some r) xs"
proof (cases x)
  case None
  with assms(2) show ?thesis by (auto simp: find_None_iff list_all_iff)
next
  case (Some y)
  with find_Some assms(2) have "y \<in> set xs" "k y = i" by fastforce+
  with assms(1) Some show ?thesis by (auto simp: list_all_iff distinct_map dest: inj_onD)
qed

text \<open>The guarded write, when the row is the one that was read.\<close>

lemma reseal_write:
  assumes ok: "nonces_ok ro" and d: "distinct_ids w"
    and q: "find (\<lambda>r. cn_ID r = i) (db_connections (w_db w)) = Some q"
    and v: "row_version q \<noteq> kr_current (ro_ring ro)"
    and p: "kr_Open (ro_aead ro) (ro_ring ro) (cn_Sealed q) (secretAAD i) = Inr p"
    and s: "kr_Seal (ro_aead ro) (ro_ring ro) (ro_nonce ro n) p (secretAAD i) = Inr s"
    and u: "cn_updated (has_version i (row_version q)) (reseal_row s) (w_db w) d'"
  shows "ro_resealed ro (db_connections (w_db w)) (db_connections d') \<and>
    current_rows (kr_current (ro_ring ro)) i (db_connections d')"
proof -
  have s': "kr_Open (ro_aead ro) (ro_ring ro) s (secretAAD i) = Inr p" "sl_KeyVersion s = kr_current (ro_ring ro)"
    using reseal_opens [OF nonces_okD(1) [OF ok] p s] nonces_okD(2) [OF ok] by blast+
  have only: "r = q" if "r \<in> set (db_connections (w_db w))" "cn_ID r = i" for r
    using find_unique [OF d [unfolded distinct_ids_def] q] that by (auto simp: list_all_iff)
  have i: "cn_ID q = i" using q by (rule find_same)
  have "resealed (ro_aead ro) (ro_ring ro) q (reseal_row s q)"
    using s' v p i by (simp add: resealed_def)
  then have "resealed (ro_aead ro) (ro_ring ro) r (if has_version i (row_version q) r then reseal_row s r else r)"
    if "r \<in> set (db_connections (w_db w))" for r
    using only [OF that] by (cases "cn_ID r = i") (simp_all add: has_version_def resealed_refl)
  then have "ro_resealed ro (db_connections (w_db w)) (db_connections d')"
    unfolding cn_updated_rows [OF u] cn_rewrite_def by (simp add: list_all2_conv_all_nth)
  moreover have "cn_ID r = i \<longrightarrow> has_version i (row_version q) r" if "r \<in> set (db_connections (w_db w))" for r
    using only [OF that] by (auto simp: has_version_def)
  ultimately show ?thesis
    unfolding cn_updated_rows [OF u] cn_rewrite_def current_rows_def
    using s'(2) by (auto simp: list_all_iff)
qed

definition rotation_step :: "rot_env \<Rightarrow> string \<Rightarrow> rotation_outcome \<Rightarrow> db \<Rightarrow> db \<Rightarrow> bool" where
  "rotation_step ro i out d d' \<longleftrightarrow>
     (out \<noteq> OutcomeRotated \<longrightarrow> d' = d) \<and>
     (out = OutcomeRotated \<longrightarrow> ro_resealed ro (db_connections d) (db_connections d') \<and>
        d' = d\<lparr> db_connections := db_connections d' \<rparr>) \<and>
     (cn_table_ok (\<lambda>_. True) (db_connections d) \<longrightarrow> cn_table_ok (\<lambda>_. True) (db_connections d')) \<and>
     (out \<noteq> OutcomeFailed \<longrightarrow> current_rows (kr_current (ro_ring ro)) i (db_connections d'))"

lemma rotation_step_idle:
  "out \<noteq> OutcomeRotated \<Longrightarrow> d' = d \<Longrightarrow>
     (out = OutcomeAlreadyCurrent \<Longrightarrow> current_rows (kr_current (ro_ring ro)) i (db_connections d)) \<Longrightarrow>
     rotation_step ro i out d d'"
  by (cases out) (auto simp: rotation_step_def)

lemma vars_simps [simp]:
  "rv_outcome (vars_failed i o' v why) = OutcomeFailed" "rv_outcome (vars_done out o') = out"
  "rv_failure (vars_done out o') = no_failure"
  by (simp_all add: vars_failed_def vars_done_def)

text \<open>What the closure does once the row is found.\<close>

lemma rotate_body_found:
  assumes "cnr_OpenSecret i w = (Inr (Some (cn_Sealed q)), w1)"
  shows "rotate_body ro n i w =
     (let v = row_version q in
      if v = kr_current (ro_ring ro) then (vars_done OutcomeAlreadyCurrent v, Inr (), w1)
      else case kr_Open (ro_aead ro) (ro_ring ro) (cn_Sealed q) (secretAAD i) of
        Inl e \<Rightarrow> (vars_failed i v v (open_failure e), Inr (), w1)
      | Inr p \<Rightarrow> case kr_Seal (ro_aead ro) (ro_ring ro) (ro_nonce ro n) p (secretAAD i) of
          Inl e \<Rightarrow> (vars_failed i v v ''seal_failed'', Inr (), w1)
        | Inr s \<Rightarrow> case cn_update (has_version i v) (reseal_row s) w1 of
            (Inl e, w2) \<Rightarrow> (vars_failed i v v ''write_failed'', Inl e, w2)
          | (Inr a, w2) \<Rightarrow> if a \<noteq> 1 then (vars_failed i v v ''write_lost'', Inl ErrDriver, w2)
              else (vars_done OutcomeRotated v, Inr (), w2))"
  using assms by (simp add: rotate_body_def row_version_def)

definition body_spec :: "rot_env \<Rightarrow> string \<Rightarrow> db \<Rightarrow> rot_vars \<times> ((go_error + unit) \<times> world) \<Rightarrow> bool" where
  "body_spec ro i d b \<longleftrightarrow> (case b of (vars, r, w') \<Rightarrow>
     (r = Inr () \<longrightarrow> rotation_step ro i (rv_outcome vars) d (w_db w')) \<and>
     (rv_outcome vars \<noteq> OutcomeFailed \<longrightarrow> r = Inr ()))"

lemma body_failed: "w_db w1 = d \<Longrightarrow> body_spec ro i d (vars_failed i a b why, r, w1)"
  "body_spec ro i d (vars_failed i a b why, Inl e, w1)"
  by (auto simp: body_spec_def rotation_step_def)

lemma body_current:
  "w_db w1 = d \<Longrightarrow> current_rows (kr_current (ro_ring ro)) i (db_connections d) \<Longrightarrow>
     body_spec ro i d (vars_done OutcomeAlreadyCurrent v, Inr (), w1)"
  by (simp add: body_spec_def rotation_step_idle)

lemma rotate_body_write:
  assumes ok: "nonces_ok ro" and d: "distinct_ids w" and w1: "w_db w1 = w_db w"
    and q: "find (\<lambda>r. cn_ID r = i) (db_connections (w_db w)) = Some q"
    and v: "row_version q \<noteq> kr_current (ro_ring ro)"
    and p: "kr_Open (ro_aead ro) (ro_ring ro) (cn_Sealed q) (secretAAD i) = Inr p"
    and s: "kr_Seal (ro_aead ro) (ro_ring ro) (ro_nonce ro n) p (secretAAD i) = Inr s"
    and u: "cn_update (has_version i (row_version q)) (reseal_row s) w1 = (Inr a, w2)"
  shows "body_spec ro i (w_db w) (vars_done OutcomeRotated (row_version q), Inr (), w2)"
proof -
  from cn_update_Inr [OF u] w1
  have u': "cn_updated (has_version i (row_version q)) (reseal_row s) (w_db w) (w_db w2)" by simp
  from reseal_write [OF ok d q v p s u'] have "rotation_step ro i OutcomeRotated (w_db w) (w_db w2)"
    using u' cn_updated_keeps [OF u', of "\<lambda>_. True"] by (simp add: rotation_step_def cn_updated_def)
  then show ?thesis by (simp add: body_spec_def)
qed

lemma rotate_body_step:
  assumes ok: "nonces_ok ro" and d: "distinct_ids w"
  shows "body_spec ro i (w_db w) (rotate_body ro n i w)"
proof -
  obtain x w1 where o: "cnr_OpenSecret i w = (x, w1)" by (cases "cnr_OpenSecret i w")
  have w1: "w_db w1 = w_db w" using read_onlyD [OF read_only_OpenSecret o] .
  note found = find_unique [OF d [unfolded distinct_ids_def] refl, of i]
  consider (err) e where "x = Inl e" | (gone) "x = Inr None" "find (\<lambda>r. cn_ID r = i) (db_connections (w_db w)) = None"
    | (row) q where "x = Inr (Some (cn_Sealed q))" "find (\<lambda>r. cn_ID r = i) (db_connections (w_db w)) = Some q"
    using cnr_OpenSecret_Inr [of i w _ w1] o by (cases x; cases "find (\<lambda>r. cn_ID r = i) (db_connections (w_db w))") auto
  then show ?thesis
  proof cases
    case err
    with o w1 show ?thesis by (simp add: rotate_body_def body_failed)
  next
    case gone
    with o w1 found show ?thesis
      by (auto simp: rotate_body_def current_rows_def list_all_iff intro!: body_current)
  next
    case (row q)
    note body = rotate_body_found [OF o [unfolded row(1)], of ro n, unfolded Let_def]
    have "current_rows (kr_current (ro_ring ro)) i (db_connections (w_db w))"
      if "row_version q = kr_current (ro_ring ro)"
      using that found row(2) by (auto simp: current_rows_def list_all_iff)
    then show ?thesis
      unfolding body using rotate_body_write [OF ok d w1 row(2)]
      by (auto simp: w1 body_failed body_current split: sum.split prod.split)
  qed
qed

lemma query_unit: "query (\<lambda>_. ()) w = (r, w') \<Longrightarrow> w_db w' = w_db w" by (rule query_db)

lemma rotateOne_step:
  assumes ok: "nonces_ok ro" and d: "distinct_ids w" and r: "rotateOne ro n i w = ((out, f), w')"
  shows "rotation_step ro i out (w_db w) (w_db w')"
proof -
  obtain b w0 where q: "query (\<lambda>_. ()) w = (b, w0)" by (cases "query (\<lambda>_. ()) w")
  note w0 = query_unit [OF q]
  show ?thesis
  proof (cases b)
    case (Inl e)
    with r q w0 show ?thesis by (auto simp: rotateOne_def rotation_step_def)
  next
    case (Inr u)
    obtain vars x w1 where body: "rotate_body ro n i w0 = (vars, x, w1)" by (cases "rotate_body ro n i w0") auto
    have spec: "body_spec ro i (w_db w) (vars, x, w1)"
      using rotate_body_step [OF ok, of w0 i n] d body w0 by (simp add: distinct_ids_def)
    obtain y w2 where tx: "InTx (\<lambda>w. snd (rotate_body ro n i w)) w0 = (y, w2)"
      by (cases "InTx (\<lambda>w. snd (rotate_body ro n i w)) w0")
    have eq: "rotateOne ro n i w = (case y of
        Inr _ \<Rightarrow> ((rv_outcome vars, rv_failure vars), w2)
      | Inl e \<Rightarrow> if rv_outcome vars \<noteq> OutcomeFailed
          then ((OutcomeFailed, rot_failed i (rv_observed vars) ''write_failed''), w2)
          else ((rv_outcome vars, rv_failure vars), w2))"
      by (simp add: rotateOne_def q Inr body tx split: sum.split)
    show ?thesis
    proof (cases y)
      case y: (Inl e)
      from InTx_Inl [OF tx [unfolded y]] w0 eq r y show ?thesis
        by (auto simp: rotation_step_def split: if_splits)
    next
      case y: (Inr v)
      from InTx_Inr [OF tx [unfolded y]] body have "x = Inr ()" "w_db w2 = w_db w1" by auto
      with spec eq r y show ?thesis by (auto simp: body_spec_def)
    qed
  qed
qed

lemma rotation_step_resealed:
  "rotation_step ro i out d d' \<Longrightarrow> ro_resealed ro (db_connections d) (db_connections d')"
  by (cases "out = OutcomeRotated") (auto simp: rotation_step_def list_all2_refl resealed_refl)

lemma resealed_ids: "ro_resealed ro rows rows' \<Longrightarrow> map cn_ID rows' = map cn_ID rows"
  by (induction rule: list_all2_induct) (auto simp: resealed_id)

lemma resealed_keeps_current:
  assumes "ro_resealed ro rows rows'" and "current_rows (kr_current (ro_ring ro)) i rows"
  shows "current_rows (kr_current (ro_ring ro)) i rows'"
  using assms
  by (induction rule: list_all2_induct) (auto simp: current_rows_def resealed_def)

lemma ro_resealed_trans:
  "ro_resealed ro xs ys \<Longrightarrow> ro_resealed ro ys zs \<Longrightarrow> ro_resealed ro xs zs"
  by (auto simp: list_all2_conv_all_nth dest!: spec) (blast intro: resealed_trans)

definition report_sum :: "rotation_report \<Rightarrow> nat" where
  "report_sum rep = rp_AlreadyCurrent rep + rp_Rotated rep + length (rp_Failures rep)"

lemma count_outcome_simps [simp]:
  "rp_Total (count_outcome out f rep) = rp_Total rep"
  "report_sum (count_outcome out f rep) = report_sum rep + 1"
  "rp_Failures (count_outcome out f rep) = rp_Failures rep @ (if out = OutcomeFailed then [f] else [])"
  by (cases out; simp add: count_outcome_def report_sum_def)+

lemma rotate_loop_step:
  assumes "nonces_ok ro" and "distinct_ids w" and "rotate_loop ro n ids rep w = ((rep', err), w')"
  shows "ro_resealed ro (db_connections (w_db w)) (db_connections (w_db w')) \<and>
    w_db w' = (w_db w)\<lparr> db_connections := db_connections (w_db w') \<rparr> \<and>
    (cn_table_ok (\<lambda>_. True) (db_connections (w_db w)) \<longrightarrow> cn_table_ok (\<lambda>_. True) (db_connections (w_db w'))) \<and>
    rp_Total rep' = rp_Total rep \<and> length (rp_Failures rep) \<le> length (rp_Failures rep') \<and>
    report_sum rep' \<le> report_sum rep + length ids \<and>
    (err = None \<longrightarrow> report_sum rep' = report_sum rep + length ids) \<and>
    (err = None \<and> length (rp_Failures rep') = length (rp_Failures rep) \<longrightarrow>
       (\<forall>i \<in> set ids. current_rows (kr_current (ro_ring ro)) i (db_connections (w_db w'))))"
  using assms
proof (induction ro n ids rep w rule: rotate_loop.induct)
  case (1 ro n rep w)
  then show ?case by (simp add: list_all2_refl resealed_refl)
next
  case (2 ro n i ids rep w)
  note ok = 2(2)
  show ?case
  proof (cases "ro_cancelled ro n")
    case True
    with 2(4) show ?thesis by (auto simp: list_all2_refl resealed_refl)
  next
    case False
    obtain out f w1 where o: "rotateOne ro n i w = ((out, f), w1)" by (cases "rotateOne ro n i w") auto
    note step = rotateOne_step [OF ok 2(3) o]
    note res = rotation_step_resealed [OF step]
    have "distinct_ids w1" using 2(3) resealed_ids [OF res] by (simp add: distinct_ids_def)
    moreover have "rotate_loop ro (n + 1) ids (count_outcome out f rep) w1 = ((rep', err), w')"
      using 2(4) False o by simp
    ultimately have IH: "ro_resealed ro (db_connections (w_db w1)) (db_connections (w_db w'))"
      "w_db w' = (w_db w1)\<lparr> db_connections := db_connections (w_db w') \<rparr>"
      "cn_table_ok (\<lambda>_. True) (db_connections (w_db w1)) \<Longrightarrow> cn_table_ok (\<lambda>_. True) (db_connections (w_db w'))"
      "rp_Total rep' = rp_Total rep" "length (rp_Failures (count_outcome out f rep)) \<le> length (rp_Failures rep')"
      "report_sum rep' \<le> report_sum rep + 1 + length ids"
      "err = None \<Longrightarrow> report_sum rep' = report_sum rep + 1 + length ids"
      "err = None \<Longrightarrow> length (rp_Failures rep') = length (rp_Failures (count_outcome out f rep)) \<Longrightarrow>
         \<forall>i \<in> set ids. current_rows (kr_current (ro_ring ro)) i (db_connections (w_db w'))"
      using 2(1) [OF False o [symmetric] refl ok] by auto
    have d: "w_db w1 = (w_db w)\<lparr> db_connections := db_connections (w_db w1) \<rparr>"
      using step by (cases "out = OutcomeRotated") (auto simp: rotation_step_def)
    have "w_db w' = (w_db w)\<lparr> db_connections := db_connections (w_db w') \<rparr>"
      by (subst IH(2), subst d) simp
    moreover have "current_rows (kr_current (ro_ring ro)) i (db_connections (w_db w'))" if "out \<noteq> OutcomeFailed"
      using step that by (intro resealed_keeps_current [OF IH(1)]) (auto simp: rotation_step_def)
    ultimately show ?thesis using ro_resealed_trans [OF res IH(1)] IH(3-8) step
      by (cases "out = OutcomeFailed") (auto simp: rotation_step_def)
  qed
qed

section \<open>The census\<close>

lemma count_list_map: "count_list (map f xs) v = length (filter (\<lambda>x. f x = v) xs)"
  by (induction xs) auto

lemma group_versions_def':
  "group_versions rows = map (\<lambda>v. (v, count_list (map row_version rows) v)) (remdups (map row_version rows))"
  by (simp add: group_versions_def count_list_map)

lemma census_rows_group [simp]:
  "census_rows (group_versions rows) v = length (filter (\<lambda>r. row_version r = v) rows)"
proof -
  have "map_of (map (\<lambda>v. (v, f v)) vs) v = (if v \<in> set vs then Some (f v) else None)" for f :: "int \<Rightarrow> nat" and vs
    by (induction vs) auto
  moreover have "v \<notin> row_version ` set rows \<Longrightarrow> length (filter (\<lambda>r. row_version r = v) rows) = 0"
    by (induction rows) auto
  ultimately show ?thesis by (simp add: census_rows_def group_versions_def)
qed

lemma census_total_group [simp]: "census_total (group_versions rows) = length rows"
proof -
  let ?vs = "map row_version rows"
  have "census_total (group_versions rows) = sum (count_list ?vs) (set ?vs)"
    unfolding census_total_def group_versions_def' map_map comp_def snd_conv
    by (simp add: sum_list_distinct_conv_sum_set)
  also have "\<dots> = length rows" using sum_count_set [of ?vs "set ?vs"] by simp
  finally show ?thesis .
qed

lemma fst_group_versions: "map fst (group_versions rows) = remdups (map row_version rows)"
  by (simp add: group_versions_def comp_def)

lemma Versions_group: "set (Versions (group_versions rows)) = row_version ` set rows"
  "distinct (Versions (group_versions rows))"
  by (simp_all add: Versions_def fst_group_versions)

section \<open>A whole run\<close>

lemma Census_Inr: "Census w = (Inr c, w') \<Longrightarrow> c = group_versions (db_connections (w_db w)) \<and> w_db w' = w_db w"
  unfolding Census_def by (rule query_Inr)

lemma not_current_simps:
  "set (not_current current rows) = cn_ID ` {r \<in> set rows. row_version r \<noteq> current}"
  "length (not_current current rows) = length (filter (\<lambda>r. row_version r \<noteq> current) rows)"
  by (auto simp: not_current_def)

lemma Rotate_cases:
  assumes "Rotate ro w = ((rep, err), w')"
  obtains e where "err = Some (RunStore e)" and "w_db w' = w_db w" and "rep = empty_report"
  | w2 where "w_db w2 = w_db w" and
    "rotate_loop ro 0 (not_current (kr_current (ro_ring ro)) (db_connections (w_db w)))
       \<lparr> rp_Total = length (db_connections (w_db w)),
         rp_AlreadyCurrent = length (filter (\<lambda>r. row_version r = kr_current (ro_ring ro)) (db_connections (w_db w))),
         rp_Rotated = 0, rp_Failures = [] \<rparr> w2 = ((rep, err), w')"
proof -
  let ?q = "query (\<lambda>d. not_current (kr_current (ro_ring ro)) (db_connections d))"
  obtain x w1 where q: "?q w = (x, w1)" by (cases "?q w")
  note w1 = query_db [OF q]
  obtain y w2 where c: "Census w1 = (y, w2)" by (cases "Census w1")
  have w2: "w_db w2 = w_db w" using query_db [OF c [unfolded Census_def]] w1 by simp
  show thesis
  proof (cases x)
    case (Inl e)
    with assms q w1 that(1) show thesis by (auto simp: Rotate_def Let_def)
  next
    case ids: (Inr ids)
    show thesis
    proof (cases y)
      case (Inl e)
      with assms q c w2 ids that(1) show thesis by (auto simp: Rotate_def Let_def)
    next
      case (Inr cs)
      with Census_Inr [OF c [unfolded Inr]] query_Inr [OF q [unfolded ids]] w1
      have "ids = not_current (kr_current (ro_ring ro)) (db_connections (w_db w))"
        "cs = group_versions (db_connections (w_db w))" by simp_all
      with assms q c w2 ids Inr that(2) show thesis by (simp add: Rotate_def Let_def)
    qed
  qed
qed

lemma Rotate_step:
  assumes "nonces_ok ro" and "distinct_ids w" and "Rotate ro w = ((rep, err), w')"
  shows "ro_resealed ro (db_connections (w_db w)) (db_connections (w_db w')) \<and>
    w_db w' = (w_db w)\<lparr> db_connections := db_connections (w_db w') \<rparr> \<and>
    (cn_table_ok (\<lambda>_. True) (db_connections (w_db w)) \<longrightarrow> cn_table_ok (\<lambda>_. True) (db_connections (w_db w')))"
  using assms(3)
proof (cases rule: Rotate_cases)
  case (1 e)
  then show ?thesis by (simp add: list_all2_refl resealed_refl)
next
  case (2 w2)
  have "distinct_ids w2" using assms(2) 2(1) by (simp add: distinct_ids_def)
  from rotate_loop_step [OF assms(1) this 2(2)] 2(1) show ?thesis by simp
qed

lemma partition_length: "length (filter P xs) + length (filter (\<lambda>x. \<not> P x) xs) = length xs"
  by (induction xs) auto

lemma filter_length_mono: "(\<And>x. P x \<Longrightarrow> Q x) \<Longrightarrow> length (filter P xs) \<le> length (filter Q xs)"
  by (induction xs) auto

section \<open>Properties\<close>

text \<open>C20: a rotation, whichever statement of it fails and wherever it is cancelled,
  writes nothing but the secrets' own columns: every row keeps every other column
  (its updated_at with them, so no cached provider is evicted), every secret that
  opened before opens to the same plaintext after and every one that did not is
  left as it was, and a secret that moved is under the current version.\<close>

theorem rotation_preserves_secrets:
  assumes "nonces_ok ro" and "distinct_ids w" and "Rotate ro w = ((rep, err), w')"
  shows "list_all2 (resealed (ro_aead ro) (ro_ring ro)) (db_connections (w_db w)) (db_connections (w_db w')) \<and>
    w_db w' = (w_db w)\<lparr> db_connections := db_connections (w_db w') \<rparr>"
  using Rotate_step [OF assms] by blast

text \<open>A run that returns no error accounts for every stored secret (already
  current, rotated or failed, adding up to the total), and when it reports no
  failure every row is under the current version, so that a further run, whatever
  happens to it, writes nothing and reports nothing rotated.\<close>

theorem rotation_complete:
  assumes "nonces_ok ro" and "distinct_ids w" and "Rotate ro w = ((rep, None), w')"
  shows "rp_AlreadyCurrent rep + rp_Rotated rep + length (rp_Failures rep) = rp_Total rep \<and>
    rp_Total rep = length (db_connections (w_db w)) \<and>
    (rp_Complete rep \<longrightarrow>
       list_all (\<lambda>r. row_version r = kr_current (ro_ring ro)) (db_connections (w_db w')) \<and>
       (\<forall>ro2 rep2 err w2. ro_ring ro2 = ro_ring ro \<and> Rotate ro2 w' = ((rep2, err), w2) \<longrightarrow>
          w_db w2 = w_db w' \<and> rp_Rotated rep2 = 0 \<and> rp_Failures rep2 = []))"
  using assms(3)
proof (cases rule: Rotate_cases)
  case (2 w2)
  let ?rows = "db_connections (w_db w)" and ?rows' = "db_connections (w_db w')"
  let ?c = "kr_current (ro_ring ro)"
  have "distinct_ids w2" using assms(2) 2(1) by (simp add: distinct_ids_def)
  note loop = rotate_loop_step [OF assms(1) this 2(2)]
  have sum: "report_sum rep = length ?rows" "rp_Total rep = length ?rows"
    using loop partition_length [of "\<lambda>r. row_version r = ?c" ?rows]
    by (simp_all add: report_sum_def not_current_simps)
  have cur: "list_all (\<lambda>r. row_version r = ?c) ?rows'" if "rp_Complete rep"
  proof -
    have res: "ro_resealed ro ?rows ?rows'" using loop 2(1) by simp
    have all: "current_rows ?c i ?rows'" if "i \<in> set (not_current ?c ?rows)" for i
      using loop that \<open>rp_Complete rep\<close> by (simp add: rp_Complete_def)
    have "row_version (?rows' ! n) = ?c" if n: "n < length ?rows'" for n
    proof (cases "row_version (?rows ! n) = ?c")
      case True
      have "resealed (ro_aead ro) (ro_ring ro) (?rows ! n) (?rows' ! n)"
        using res n by (simp add: list_all2_conv_all_nth)
      with True show ?thesis unfolding resealed_def by metis
    next
      case False
      from res n have l: "n < length ?rows" by (simp add: list_all2_conv_all_nth)
      with res n have "cn_ID (?rows' ! n) = cn_ID (?rows ! n)"
        using arg_cong [OF resealed_ids [OF res], of "\<lambda>xs. xs ! n"] by simp
      with False l have "cn_ID (?rows' ! n) \<in> set (not_current ?c ?rows)"
        by (auto simp: not_current_simps)
      from all [OF this] n show ?thesis by (simp add: current_rows_def list_all_iff)
    qed
    then show ?thesis by (simp add: list_all_length)
  qed
  have rerun: "w_db w3 = w_db w' \<and> rp_Rotated rep2 = 0 \<and> rp_Failures rep2 = []"
    if cur: "list_all (\<lambda>r. row_version r = ?c) ?rows'" and ro2: "ro_ring ro2 = ro_ring ro"
      and r2: "Rotate ro2 w' = ((rep2, err), w3)" for ro2 rep2 err w3
    using r2
  proof (cases rule: Rotate_cases)
    case (2 w4)
    have "not_current (kr_current (ro_ring ro2)) ?rows' = []"
      using cur ro2 by (auto simp: not_current_def list_all_iff filter_empty_conv)
    with 2 show ?thesis by auto
  qed (simp add: empty_report_def)
  show ?thesis
  proof (intro conjI impI)
    assume c: "rp_Complete rep"
    show "list_all (\<lambda>r. row_version r = ?c) ?rows'" by (rule cur [OF c])
    show "\<forall>ro2 rep2 err w2. ro_ring ro2 = ro_ring ro \<and> Rotate ro2 w' = ((rep2, err), w2) \<longrightarrow>
        w_db w2 = w_db w' \<and> rp_Rotated rep2 = 0 \<and> rp_Failures rep2 = []"
      using rerun [OF cur [OF c]] by blast
  qed (use sum in \<open>simp_all add: report_sum_def\<close>)
qed simp

text \<open>C23: the keyring versions the census calls safe to remove are: none of them is
  the current one, and a keyring rebuilt without any of them opens every stored
  secret exactly as before.\<close>

theorem safe_to_remove_sound:
  assumes "NewKeyring ms cur = Inr ring" and "Census w = (Inr c, w')"
    and "set vs \<subseteq> set (SafeToRemove c ring)"
    and "NewKeyring (filter (\<lambda>m. fst m \<notin> set vs) ms) cur = Inr ring'"
  shows "kr_current ring \<notin> set vs \<and> set vs \<subseteq> fst ` set ms \<and>
    list_all (\<lambda>r. kr_Open g ring' (cn_Sealed r) a = kr_Open g ring (cn_Sealed r) a \<or>
      (kr_Open g ring (cn_Sealed r) a = Inl (ErrUnknownKeyVersion (row_version r) (kr_versions ring)) \<and>
       kr_Open g ring' (cn_Sealed r) a = Inl (ErrUnknownKeyVersion (row_version r) (kr_versions ring'))))
      (db_connections (w_db w))"
proof -
  note R = NewKeyring_Inr [OF assms(1)] and R' = NewKeyring_Inr [OF assms(4)]
  have c: "c = group_versions (db_connections (w_db w))" using Census_Inr [OF assms(2)] by simp
  have unused: "row_version r \<notin> set vs" if "r \<in> set (db_connections (w_db w))" for r
  proof
    assume "row_version r \<in> set vs"
    with assms(3) c have "filter (\<lambda>q. row_version q = row_version r) (db_connections (w_db w)) = []"
      by (auto simp: SafeToRemove_def)
    with that show False by (auto simp: filter_empty_conv)
  qed
  have same: "map_of (kr_keys ring') v = map_of (kr_keys ring) v" if "v \<notin> set vs" for v
  proof -
    have "map_of (filter (\<lambda>m. fst m \<notin> set vs) ms) v = map_of ms v" using that by (induction ms) auto
    then show ?thesis unfolding R(3) R'(3) by simp
  qed
  have "kr_Open g ring' (cn_Sealed r) a = kr_Open g ring (cn_Sealed r) a \<or>
      (kr_Open g ring (cn_Sealed r) a = Inl (ErrUnknownKeyVersion (row_version r) (kr_versions ring)) \<and>
       kr_Open g ring' (cn_Sealed r) a = Inl (ErrUnknownKeyVersion (row_version r) (kr_versions ring')))"
    if "r \<in> set (db_connections (w_db w))" for r
    using same [OF unused [OF that]] by (auto simp: kr_Open_def row_version_def split: option.split)
  moreover have "set (SafeToRemove c ring) \<subseteq> fst ` set ms - {kr_current ring}"
    by (auto simp: SafeToRemove_def R(5))
  ultimately show ?thesis using assms(3) by (auto simp: list_all_iff)
qed

lemma plan_loop_sums:
  "pl_NeedRotation (plan_loop c ring vs p) = pl_NeedRotation p +
      sum_list (map (census_rows c) (filter (\<lambda>v. v \<noteq> pl_Current p) vs)) \<and>
   pl_Blocked (plan_loop c ring vs p) = pl_Blocked p +
      sum_list (map (census_rows c) (filter (\<lambda>v. v \<noteq> pl_Current p \<and> \<not> kr_Has ring v) vs)) \<and>
   pl_Current (plan_loop c ring vs p) = pl_Current p \<and>
   pl_AlreadyCurrent (plan_loop c ring vs p) = pl_AlreadyCurrent p \<and>
   pl_MissingVersions (plan_loop c ring vs p) = pl_MissingVersions p"
  by (induction c ring vs p rule: plan_loop.induct) (auto simp: Let_def)

lemma count_versions:
  assumes "distinct vs" and "set vs = row_version ` set rows"
  shows "sum_list (map (census_rows (group_versions rows)) (filter P vs)) =
     length (filter (\<lambda>r. P (row_version r)) rows)"
proof -
  let ?xs = "map row_version (filter (\<lambda>r. P (row_version r)) rows)"
  have "sum_list (map (census_rows (group_versions rows)) (filter P vs)) = sum_list (map (count_list ?xs) (filter P vs))"
    by (rule arg_cong [where f = sum_list])
      (auto simp: count_list_map simp del: count_list.simps intro!: arg_cong [where f = length] filter_cong)
  also have "\<dots> = sum (count_list ?xs) (set (filter P vs))"
    using assms(1) by (simp add: sum_list_distinct_conv_sum_set)
  also have "\<dots> = length ?xs"
    using assms(2) by (intro sum_count_set) auto
  finally show ?thesis by simp
qed

text \<open>The plan an operator reads before rotating is exact: the rows to move and
  those already current add up to all of them, and the blocked ones are those whose
  version the keyring does not hold; there is one exactly when a version is
  missing.\<close>

theorem plan_exact:
  assumes "NewKeyring ms cur = Inr ring" and "Plan ring w = (Inr p, w')"
  shows "pl_AlreadyCurrent p + pl_NeedRotation p = length (db_connections (w_db w)) \<and>
    pl_Blocked p = length (filter (\<lambda>r. map_of ms (row_version r) = None) (db_connections (w_db w))) \<and>
    pl_Blocked p \<le> pl_NeedRotation p \<and> (pl_Blocked p = 0 \<longleftrightarrow> pl_MissingVersions p = [])"
proof -
  note R = NewKeyring_Inr [OF assms(1)]
  let ?rows = "db_connections (w_db w)"
  from assms(2) have p: "p = PlanFrom (group_versions ?rows) ring"
    by (auto simp: Plan_def dest: Census_Inr)
  note V = Versions_group [of ?rows]
  have has: "kr_Has ring v \<longleftrightarrow> map_of ms v \<noteq> None" for v by (simp add: kr_Has_def R(3))
  have cur: "map_of ms cur \<noteq> None"
    using keyring_ok_current [OF R(1)] R(2,3) by (metis option.simps(8) option.distinct(1))
  have need: "pl_NeedRotation p = length (filter (\<lambda>r. row_version r \<noteq> cur) ?rows)"
    and already: "pl_AlreadyCurrent p = length (filter (\<lambda>r. row_version r = cur) ?rows)"
    and blocked: "pl_Blocked p = length (filter (\<lambda>r. row_version r \<noteq> cur \<and> map_of ms (row_version r) = None) ?rows)"
    unfolding p PlanFrom_def
    using plan_loop_sums count_versions [OF V(2,1)] R(2) by (simp_all add: has)
  have b: "row_version r \<noteq> cur \<and> map_of ms (row_version r) = None \<longleftrightarrow> map_of ms (row_version r) = None" for r
    using cur by auto
  have "pl_MissingVersions p = filter (\<lambda>v. map_of ms v = None) (Versions (group_versions ?rows))"
    unfolding p PlanFrom_def using plan_loop_sums by (simp add: Unopenable_def has)
  then have "pl_MissingVersions p = [] \<longleftrightarrow> (\<forall>r \<in> set ?rows. map_of ms (row_version r) \<noteq> None)"
    using V(1) by (auto simp: filter_empty_conv)
  moreover have "pl_Blocked p \<le> pl_NeedRotation p"
    unfolding blocked need by (rule filter_length_mono) simp
  ultimately show ?thesis
    using partition_length [of "\<lambda>r. row_version r = cur" ?rows] need already blocked
    unfolding b by (auto simp: filter_empty_conv)
qed

definition demo_rot_env :: rot_env where
  "demo_rot_env = \<lparr> ro_aead = toy_aead, ro_ring = demo_keyring', ro_nonce = (\<lambda>_. Some (replicate 12 1)),
     ro_cancelled = (\<lambda>_. False) \<rparr>"

lemma demo_rot_ok: "nonces_ok demo_rot_env" "distinct_ids demo_cn_world"
proof -
  have "keyring_ok demo_keyring'" by (rule NewKeyring_Inr(1) [OF demo_keyrings(2)])
  then show "nonces_ok demo_rot_env"
    by (simp add: nonces_ok_def rot_env_ok_def demo_rot_env_def toy_aead_ok) (simp add: toy_aead_def)
  show "distinct_ids demo_cn_world" by (simp add: distinct_ids_def demo_rows)
qed

definition demo_rotated :: "(rotation_report \<times> run_error option) \<times> world" where
  "demo_rotated = Rotate demo_rot_env demo_cn_world"

theorem rotation_preserves_secrets_witness:
  "list_all2 (resealed toy_aead demo_keyring') [demo_cn_row] (db_connections (w_db (snd demo_rotated)))"
proof -
  obtain rep err w' where r: "Rotate demo_rot_env demo_cn_world = ((rep, err), w')"
    by (cases "Rotate demo_rot_env demo_cn_world") auto
  have "ro_aead demo_rot_env = toy_aead" "ro_ring demo_rot_env = demo_keyring'" by (simp_all add: demo_rot_env_def)
  with rotation_preserves_secrets [OF demo_rot_ok r] show ?thesis by (simp add: demo_rotated_def r demo_rows)
qed

lemma demo_rotated: "fst demo_rotated = (\<lparr> rp_Total = 1, rp_AlreadyCurrent = 0, rp_Rotated = 1, rp_Failures = [] \<rparr>, None)"
  by code_simp

theorem rotation_complete_witness:
  "list_all (\<lambda>r. row_version r = 2) (db_connections (w_db (snd demo_rotated)))"
proof -
  have "Rotate demo_rot_env demo_cn_world =
      ((\<lparr> rp_Total = 1, rp_AlreadyCurrent = 0, rp_Rotated = 1, rp_Failures = [] \<rparr>, None), snd demo_rotated)"
    using demo_rotated by (simp add: demo_rotated_def prod_eq_iff)
  from rotation_complete [OF demo_rot_ok this] show ?thesis
    by (simp add: rp_Complete_def demo_rot_env_def NewKeyring_Inr(2) [OF demo_keyrings(2)])
qed

definition demo_small_ring :: keyring where
  "demo_small_ring = (case NewKeyring [(1, toy_key 1)] 1 of Inr r \<Rightarrow> r)"

lemma demo_small_ring: "NewKeyring (filter (\<lambda>m. fst m \<notin> set [2]) [(2, toy_key 2), (1, toy_key 1)]) 1 = Inr demo_small_ring"
  by (simp add: demo_small_ring_def NewKeyring_def newKey_def KeySize_def)

lemma demo_census: "Census demo_cn_world = (Inr [(1, 1)], demo_cn_world)"
proof -
  have "group_versions [demo_cn_row] = [(1, 1)]" by code_simp
  moreover have "w_faults demo_cn_world = []" by (simp add: demo_cn_world_def)
  ultimately show ?thesis by (simp add: Census_def query_def stmt_no_faults demo_rows)
qed

theorem safe_to_remove_sound_witness:
  "kr_Open toy_aead demo_small_ring (cn_Sealed demo_cn_row) (secretAAD demo_ws_id) =
   kr_Open toy_aead demo_keyring (cn_Sealed demo_cn_row) (secretAAD demo_ws_id)"
proof -
  have "set [2] \<subseteq> set (SafeToRemove [(1, 1)] demo_keyring)" by code_simp
  note safe = safe_to_remove_sound [OF demo_keyrings(1) demo_census this demo_small_ring,
      where g = toy_aead and a = "secretAAD demo_ws_id"]
  have "is_ok (kr_Open toy_aead demo_keyring (cn_Sealed demo_cn_row) (secretAAD demo_ws_id))" by code_simp
  with safe show ?thesis by (auto simp: demo_rows is_ok_iff)
qed

theorem plan_exact_witness:
  "\<exists>p. Plan demo_keyring' demo_cn_world = (Inr p, demo_cn_world) \<and> pl_AlreadyCurrent p + pl_NeedRotation p = 1"
proof -
  have "Plan demo_keyring' demo_cn_world = (Inr (PlanFrom [(1, 1)] demo_keyring'), demo_cn_world)"
    by (simp add: Plan_def andThen_def demo_census ret_def)
  with plan_exact [OF demo_keyrings(2) this] show ?thesis by (simp add: demo_rows)
qed

end
