(* ===== verification/Resolver.thy ===== *)
theory Resolver
  imports ProviderCache KeycloakClient Rotation
begin

text \<open>
  \<^verbatim>\<open>internal/identityruntime/resolver.go\<close>: from a workspace to the provider its
  active connection describes, through the cache. The state is the cache beside the
  database. A provider is what NewProvider builds (its token is its own state, see
  KeycloakClient); the workspace and connection stores are the repositories.

  The cache is an optimisation: over any sequence of connection requests, rotations
  and resolutions, what is resolved with it is what is resolved without it, and is
  always built from the coordinates and the secret the active connection has now.
\<close>

section \<open>Errors\<close>

definition RtErrInvalidWorkspaceID :: go_error where
  "RtErrInvalidWorkspaceID = AppError ''invalid_workspace_id'' ''Workspace id must be in the form ws_<uuid>'' 400"
definition RtErrWorkspaceNotFound :: go_error where
  "RtErrWorkspaceNotFound = AppError ''workspace_not_found'' ''Workspace not found'' 404"
definition RtErrWorkspaceArchived :: go_error where
  "RtErrWorkspaceArchived = AppError ''workspace_archived'' ''Workspace is archived and cannot be modified'' 409"
definition RtErrConnectionMissing :: go_error where
  "RtErrConnectionMissing = AppError ''workspace_connection_missing'' ''Workspace has no active connection; activate one before performing identity operations'' 409"
definition RtErrConnectionUnusable :: go_error where
  "RtErrConnectionUnusable = AppError ''workspace_connection_unusable'' ''Workspace's active connection is not usable; re-verify its configuration'' 409"
definition RtErrCredentialsUnavailable :: go_error where
  "RtErrCredentialsUnavailable = AppError ''provider_credentials_unavailable'' ''Provider credentials could not be loaded'' 500"
definition RtErrInternal :: go_error where
  "RtErrInternal = AppError ''internal_error'' ''Internal error'' 500"

section \<open>The resolver\<close>

record resolved =
  rd_Provider :: admin_client
  rd_WorkspacePublicID :: string
  rd_ConnectionPublicID :: string
  rd_AccessMode :: access_mode

definition rd_CanWrite :: "resolved \<Rightarrow> bool" where "rd_CanWrite r \<longleftrightarrow> CanWrite (rd_AccessMode r)"

record resolver_env =
  re_aead :: aead
  re_ring :: keyring

definition usable :: "connection \<Rightarrow> go_error + unit" where
  "usable c =
     (if cn_Status c \<noteq> StatusLive then Inl RtErrConnectionUnusable
      else if cn_Provider c \<noteq> ProviderKeycloak then Inl RtErrConnectionUnusable
      else if cn_BaseURL c = [] \<or> cn_Realm c = [] \<or> cn_ClientID c = [] then Inl RtErrConnectionUnusable
      else Inr ())"

definition cacheKey :: "connection \<Rightarrow> string" where
  "cacheKey c = cn_ID c @ ''@'' @ RFC3339Nano (cn_UpdatedAt c)"

definition keycloakBuilder :: "connection \<Rightarrow> string \<Rightarrow> provider_error + admin_client" where
  "keycloakBuilder c clientSecret =
     (if cn_Provider c \<noteq> ProviderKeycloak then Inl IdNotConfigured
      else NewAdminClient \<lparr> ac_BaseURL = cn_BaseURL c, ac_Realm = cn_Realm c, ac_ClientID = cn_ClientID c,
        ac_ClientSecret = clientSecret \<rparr>)"

text \<open>A failing statement of a store becomes the internal error.\<close>

definition internal_on_error :: "'a act \<Rightarrow> 'a act" where
  "internal_on_error m = catch m (\<lambda>_. RtErrInternal)"

definition requireLiveWorkspace :: "string \<Rightarrow> workspace act" where
  "requireLiveWorkspace wid =
     (case Parse WorkspacePrefix wid of
        Inl _ \<Rightarrow> fail RtErrInvalidWorkspaceID
      | Inr i \<Rightarrow> andThen (internal_on_error (wsr_GetByID i)) (\<lambda>r.
          case r of
            None \<Rightarrow> fail RtErrWorkspaceNotFound
          | Some ws \<Rightarrow> if ws_IsArchived ws then fail RtErrWorkspaceArchived else ret ws))"

definition buildProvider :: "resolver_env \<Rightarrow> connection \<Rightarrow> admin_client act" where
  "buildProvider re c = andThen (internal_on_error (cnr_OpenSecret (cn_ID c))) (\<lambda>s.
     case s of
       None \<Rightarrow> fail RtErrCredentialsUnavailable
     | Some sealed \<Rightarrow>
         (case kr_Open (re_aead re) (re_ring re) sealed (secretAAD (cn_ID c)) of
            Inl _ \<Rightarrow> fail RtErrCredentialsUnavailable
          | Inr plaintext \<Rightarrow>
              (case keycloakBuilder c (of_bytes plaintext) of
                 Inl e \<Rightarrow> if e = IdNotConfigured then fail RtErrConnectionUnusable else fail RtErrInternal
               | Inr p \<Rightarrow> ret p)))"

text \<open>Everything before the cache: the active connection of a live workspace.\<close>

definition live_connection :: "string \<Rightarrow> (workspace \<times> connection) act" where
  "live_connection wid =
     andThen (requireLiveWorkspace wid) (\<lambda>ws.
     andThen (internal_on_error (cnr_GetActiveByWorkspace (ws_ID ws))) (\<lambda>r.
       case r of
         None \<Rightarrow> fail RtErrConnectionMissing
       | Some c \<Rightarrow> andThen (lift_result (usable c)) (\<lambda>_. ret (ws, c))))"

definition resolved_with :: "workspace \<Rightarrow> connection \<Rightarrow> admin_client \<Rightarrow> resolved" where
  "resolved_with ws c p = \<lparr> rd_Provider = p, rd_WorkspacePublicID = ws_PublicID ws,
     rd_ConnectionPublicID = cn_PublicID c, rd_AccessMode = cn_AccessMode c \<rparr>"

definition ForWorkspace ::
  "resolver_env \<Rightarrow> string \<Rightarrow> admin_client cache \<Rightarrow> world \<Rightarrow> (go_error + resolved) \<times> admin_client cache \<times> world" where
  "ForWorkspace re wid c w =
     (case live_connection wid w of
        (Inl e, w1) \<Rightarrow> (Inl e, c, w1)
      | (Inr (ws, conn), w1) \<Rightarrow>
          (case pc_get (cacheKey conn) c of
             (Some p, c1) \<Rightarrow> (Inr (resolved_with ws conn p), c1, w1)
           | (None, c1) \<Rightarrow>
               (case buildProvider re conn w1 of
                  (Inl e, w2) \<Rightarrow> (Inl e, c1, w2)
                | (Inr p, w2) \<Rightarrow>
                    (Inr (resolved_with ws conn p), pc_put (cn_ID conn) (cacheKey conn) p c1, w2))))"

section \<open>What the store answers\<close>

lemma read_only_internal_error [reads]: "read_only m \<Longrightarrow> read_only (internal_on_error m)"
  unfolding internal_on_error_def by (rule reads)

lemma internal_error_Inr [simp]: "internal_on_error m w = (Inr x, w') \<longleftrightarrow> m w = (Inr x, w')"
  by (simp add: internal_on_error_def)

lemma read_only_GetActive [reads]: "read_only (cnr_GetActiveByWorkspace i)"
  unfolding cnr_GetActiveByWorkspace_def by (rule reads)

lemma read_only_live_connection [reads]: "read_only (live_connection wid)"
  unfolding live_connection_def requireLiveWorkspace_def
  by (intro reads) (auto split: sum.split option.split intro!: reads)

lemma read_only_buildProvider [reads]: "read_only (buildProvider re c)"
  unfolding buildProvider_def by (intro reads) (auto split: sum.split option.split intro!: reads)

lemma GetActive_Inr:
  assumes "cnr_GetActiveByWorkspace i w = (Inr (Some c), w')"
  obtains r where "r \<in> set (db_connections (w_db w))" and "c = toDomain r" and "active_in i r"
proof -
  let ?l = "sort_key cn_ID (filter (active_in i) (db_connections (w_db w)))"
  from query_Inr [OF assms [unfolded cnr_GetActiveByWorkspace_def]]
  have "Some c = (case ?l of [] \<Rightarrow> None | r # _ \<Rightarrow> Some (toDomain r))" by simp
  then obtain r rs where "?l = r # rs" "c = toDomain r" by (cases ?l) auto
  moreover from this(1) have "r \<in> set ?l" by simp
  then have "r \<in> set (db_connections (w_db w))" "active_in i r" by simp_all
  ultimately show ?thesis using that by blast
qed

lemma live_connection_Inr:
  assumes "live_connection wid w = (Inr (ws, c), w')"
  obtains r where "r \<in> set (db_connections (w_db w))" and "c = toDomain r" and "cn_Status r = StatusLive"
    and "cn_WorkspaceID r = ws_ID ws" and "Parse WorkspacePrefix wid = Inr (ws_ID ws)" and "\<not> ws_IsArchived ws"
    and "ws \<in> set (db_workspaces (w_db w))"
proof -
  from assms obtain w1 where l: "requireLiveWorkspace wid w = (Inr ws, w1)"
    and g: "\<exists>w2. cnr_GetActiveByWorkspace (ws_ID ws) w1 = (Inr (Some c), w2)"
    unfolding live_connection_def by (auto simp: act_cases)
  from l obtain i where i: "Parse WorkspacePrefix wid = Inr i" "\<not> ws_IsArchived ws"
    and w: "wsr_GetByID i w = (Inr (Some ws), w1)"
    unfolding requireLiveWorkspace_def by (auto simp: act_cases)
  have "w_db w1 = w_db w" "ws \<in> set (db_workspaces (w_db w))" "ws_ID ws = i"
    using wsr_GetByID_Inr [OF w] by (auto dest!: find_dests)
  with g i that show ?thesis by (metis GetActive_Inr active_in_def)
qed

lemma buildProvider_Inr:
  assumes "buildProvider re (toDomain r) w = (Inr p, w')" and "distinct_ids w" and "r \<in> set (db_connections (w_db w))"
  obtains pt where "kr_Open (re_aead re) (re_ring re) (cn_Sealed r) (secretAAD (cn_ID r)) = Inr pt"
    and "keycloakBuilder (toDomain r) (of_bytes pt) = Inr p"
proof -
  from assms(1) obtain s w1 where s: "cnr_OpenSecret (cn_ID r) w = (Inr (Some s), w1)"
    and b: "(case kr_Open (re_aead re) (re_ring re) s (secretAAD (cn_ID r)) of
            Inl _ \<Rightarrow> fail RtErrCredentialsUnavailable
          | Inr plaintext \<Rightarrow>
              (case keycloakBuilder (toDomain r) (of_bytes plaintext) of
                 Inl e \<Rightarrow> if e = IdNotConfigured then fail RtErrConnectionUnusable else fail RtErrInternal
               | Inr p \<Rightarrow> ret p)) w1 = (Inr p, w')"
    unfolding buildProvider_def by (auto simp: act_cases)
  have "list_all (\<lambda>q. cn_ID q = cn_ID r \<longrightarrow> find (\<lambda>q. cn_ID q = cn_ID r) (db_connections (w_db w)) = Some q)
      (db_connections (w_db w))"
    by (rule find_unique [OF assms(2) [unfolded distinct_ids_def] refl])
  with assms(3) cnr_OpenSecret_Inr [OF s] have "s = cn_Sealed r" by (auto simp: list_all_iff)
  with b that show ?thesis
    by (cases "kr_Open (re_aead re) (re_ring re) s (secretAAD (cn_ID r))")
      (auto split: sum.splits if_splits)
qed

section \<open>The invariant of the cache\<close>

text \<open>A provider is the row's when the row has left draft and its secret, whenever it
  opens, builds it.\<close>

definition serves :: "resolver_env \<Rightarrow> admin_client \<Rightarrow> connection_row \<Rightarrow> bool" where
  "serves re p r \<longleftrightarrow> cn_Status r \<noteq> StatusDraft \<and>
     (\<forall>pt. kr_Open (re_aead re) (re_ring re) (cn_Sealed r) (secretAAD (cn_ID r)) = Inr pt \<longrightarrow>
        keycloakBuilder (toDomain r) (of_bytes pt) = Inr p)"

definition plain_id :: "string \<Rightarrow> bool" where "plain_id i \<longleftrightarrow> CHR ''@'' \<notin> set i"

definition entry_ok :: "resolver_env \<Rightarrow> connection_row list \<Rightarrow> admin_client entry \<Rightarrow> bool" where
  "entry_ok re rows e \<longleftrightarrow> plain_id (en_connectionID e) \<and>
     (\<exists>x. en_key e = en_connectionID e @ CHR ''@'' # x) \<and>
     (\<forall>r \<in> set rows. cn_ID r = en_connectionID e \<longrightarrow> serves re (en_provider e) r)"

definition rows_ok :: "connection_row list \<Rightarrow> bool" where
  "rows_ok rows \<longleftrightarrow> cn_table_ok (\<lambda>r. plain_id (cn_ID r)) rows"

definition cache_inv :: "resolver_env \<Rightarrow> connection_row list \<Rightarrow> admin_client cache \<Rightarrow> bool" where
  "cache_inv re rows c \<longleftrightarrow> cache_wf c \<and> (\<forall>e \<in> set (entries c). entry_ok re rows e)"

lemma rows_okD: "rows_ok (db_connections (w_db w)) \<Longrightarrow> distinct_ids w"
  "rows_ok rows \<Longrightarrow> r \<in> set rows \<Longrightarrow> plain_id (cn_ID r)"
  by (auto simp: rows_ok_def cn_table_ok_def distinct_ids_def list_all_iff)

lemma cacheKey_row: "cacheKey (toDomain r) = cn_ID r @ CHR ''@'' # RFC3339Nano (cn_UpdatedAt r)"
  by (simp add: cacheKey_def)

lemma same_key_same_id:
  assumes "plain_id i" and "plain_id j" and "i @ CHR ''@'' # x = j @ CHR ''@'' # y"
  shows "i = j"
proof -
  have "cut_at CHR ''@'' (i @ CHR ''@'' # x) = Some (i, x)" "cut_at CHR ''@'' (j @ CHR ''@'' # y) = Some (j, y)"
    by (rule cut_append, rule assms(1,2) [unfolded plain_id_def])+
  then show ?thesis unfolding assms(3) by (metis option.inject prod.inject)
qed

lemma lru_get_entries:
  "set (snd (lru_get key es)) \<subseteq> set es"
  "fst (lru_get key es) = Some p \<Longrightarrow> \<exists>e \<in> set es. en_key e = key \<and> en_provider e = p"
  by (auto simp: lru_get_def dest: find_Some split: option.splits)

lemma lru_put_entries:
  assumes "e \<in> set (lru_put n cid key p es)"
  shows "e \<in> set es \<or> en_key e = key \<and> en_provider e = p \<and>
    (en_connectionID e = cid \<or> (\<exists>e' \<in> set es. en_key e' = key \<and> en_connectionID e' = en_connectionID e))"
  using assms by (auto simp: lru_put_def find_Some_iff dest: in_set_takeD split: option.splits)

lemma get_inv:
  assumes "cache_inv re rows c" and "pc_get key c = (a, c1)"
  shows "cache_inv re rows c1"
    and "a = Some p \<Longrightarrow> \<exists>e \<in> set (entries c). en_key e = key \<and> en_provider e = p"
proof -
  have wf: "cache_wf c" using assms(1) by (simp add: cache_inv_def)
  show "cache_inv re rows c1"
  proof (cases "pc_enabled c")
    case True
    from get_refines [OF wf True, of key] assms lru_get_entries(1) [of key "entries c"] show ?thesis
      by (auto simp: cache_inv_def)
  qed (use assms in \<open>simp add: pc_get_def\<close>)
  assume "a = Some p"
  then have "pc_enabled c" using assms(2) by (auto simp: pc_get_def split: if_splits)
  from get_refines(1) [OF wf this, of key] assms(2) \<open>a = Some p\<close> lru_get_entries(2)
  show "\<exists>e \<in> set (entries c). en_key e = key \<and> en_provider e = p" by (metis fst_conv)
qed

lemma put_inv:
  assumes "cache_inv re rows c" and "distinct (map cn_ID rows)" and r: "r \<in> set rows" "plain_id (cn_ID r)"
    and "serves re p r"
  shows "cache_inv re rows (pc_put (cn_ID r) (cacheKey (toDomain r)) p c)"
proof (cases "pc_enabled c")
  case True
  have wf: "cache_wf c" using assms(1) by (simp add: cache_inv_def)
  let ?key = "cacheKey (toDomain r)"
  have "entry_ok re rows e" if e: "e \<in> set (lru_put (pc_max c) (cn_ID r) ?key p (entries c))" for e
    using lru_put_entries [OF e]
  proof (elim disjE conjE bexE)
    assume "e \<in> set (entries c)" then show ?thesis using assms(1) by (simp add: cache_inv_def)
  next
    have serve: "serves re p q" if "q \<in> set rows" "cn_ID q = cn_ID r" for q
      using that r(1) assms(2,5) by (auto simp: distinct_map dest: inj_onD)
    { assume k: "en_key e = ?key" "en_provider e = p" "en_connectionID e = cn_ID r"
      then show ?thesis using serve r(2) by (auto simp: entry_ok_def cacheKey_row) }
    fix e'
    assume k: "en_key e = ?key" "en_provider e = p" "e' \<in> set (entries c)" "en_key e' = ?key"
      "en_connectionID e' = en_connectionID e"
    then have "entry_ok re rows e'" using assms(1) by (simp add: cache_inv_def)
    then obtain x where "plain_id (en_connectionID e)" "en_key e' = en_connectionID e @ CHR ''@'' # x"
      using k(5) by (auto simp: entry_ok_def)
    with k(4) r(2) same_key_same_id have "en_connectionID e = cn_ID r"
      by (metis cacheKey_row)
    with k serve r(2) show ?thesis by (auto simp: entry_ok_def cacheKey_row)
  qed
  with put_refines [OF wf True] show ?thesis by (simp add: cache_inv_def)
qed (use assms in \<open>simp add: pc_put_def\<close>)

lemma hit_serves:
  assumes "cache_inv re rows c" and "r \<in> set rows" and "plain_id (cn_ID r)"
    and "pc_get (cacheKey (toDomain r)) c = (Some p, c1)"
  shows "serves re p r"
proof -
  from get_inv(2) [OF assms(1,4) refl] obtain e where
    e: "e \<in> set (entries c)" "en_key e = cacheKey (toDomain r)" "en_provider e = p" by blast
  then have ok: "entry_ok re rows e" using assms(1) by (simp add: cache_inv_def)
  then obtain x where "plain_id (en_connectionID e)" "en_key e = en_connectionID e @ CHR ''@'' # x"
    by (auto simp: entry_ok_def)
  with e(2) assms(3) same_key_same_id have "en_connectionID e = cn_ID r"
    by (metis cacheKey_row)
  with ok assms(2) e(3) show ?thesis by (auto simp: entry_ok_def)
qed

section \<open>Runs\<close>

datatype rt_step =
    Mutation cn_op audit_event conn_env
  | Rotation rot_env
  | Resolution string

fun rt_run :: "resolver_env \<Rightarrow> rt_step list \<Rightarrow> admin_client cache \<times> world \<Rightarrow> admin_client cache \<times> world" where
  "rt_run re [] cw = cw"
| "rt_run re (Mutation op ev ce # ss) (c, w) = rt_run re ss (c, snd (cn_run_op op ev ce w))"
| "rt_run re (Rotation ro # ss) (c, w) = rt_run re ss (c, snd (Rotate ro w))"
| "rt_run re (Resolution wid # ss) (c, w) = rt_run re ss (snd (ForWorkspace re wid c w))"

text \<open>A new row's id is a fresh UUID: without \<^verbatim>\<open>@\<close>, and not one of a connection
  that was cached and has since been deleted. A rotation runs with this process's
  keyring.\<close>

definition fresh_id :: "admin_client cache \<Rightarrow> connection_row list \<Rightarrow> connection_row \<Rightarrow> bool" where
  "fresh_id c rows r \<longleftrightarrow> cn_ID r \<in> cn_ID ` set rows \<or>
     plain_id (cn_ID r) \<and> cn_ID r \<notin> en_connectionID ` set (entries c)"

fun step_allowed :: "resolver_env \<Rightarrow> rt_step \<Rightarrow> admin_client cache \<times> world \<Rightarrow> bool" where
  "step_allowed re (Mutation op ev ce) (c, w) =
     list_all (fresh_id c (db_connections (w_db w))) (db_connections (w_db (snd (cn_run_op op ev ce w))))"
| "step_allowed re (Rotation ro) cw = (ro_aead ro = re_aead re \<and> ro_ring ro = re_ring re \<and> nonces_ok ro)"
| "step_allowed re (Resolution wid) cw = True"

fun run_allowed :: "resolver_env \<Rightarrow> rt_step list \<Rightarrow> admin_client cache \<times> world \<Rightarrow> bool" where
  "run_allowed re [] cw = True"
| "run_allowed re (s # ss) cw = (step_allowed re s cw \<and> run_allowed re ss (rt_run re [s] cw))"

interpretation any_row: row_law "\<lambda>_. True" "\<lambda>_. True"
  by unfold_locales simp_all

lemma rows_ok_iff: "rows_ok rows \<longleftrightarrow> cn_table_ok (\<lambda>_. True) rows \<and> (\<forall>r \<in> set rows. plain_id (cn_ID r))"
  by (auto simp: rows_ok_def cn_table_ok_def list_all_iff)

lemma evolves_serves: "cn_row_evolves r r' \<Longrightarrow> serves re p r \<Longrightarrow> serves re p r'"
  by (cases "cn_Status r"; cases "cn_Status r'")
    (auto simp: cn_row_evolves_def serves_def keycloakBuilder_def)

lemma resealed_serves: "resealed (re_aead re) (re_ring re) r r' \<Longrightarrow> serves re p r \<Longrightarrow> serves re p r'"
  by (metis resealed_def serves_def toDomain_simps(3))

text \<open>The cache survives a change of the rows that keeps what each of them is served by.\<close>

lemma rows_change:
  assumes "cache_inv re rows c"
    and "\<And>r r' p. r \<in> set rows \<Longrightarrow> r' \<in> set rows' \<Longrightarrow> cn_ID r' = cn_ID r \<Longrightarrow> serves re p r \<Longrightarrow> serves re p r'"
    and "\<And>r'. r' \<in> set rows' \<Longrightarrow> cn_ID r' \<in> cn_ID ` set rows \<or> cn_ID r' \<notin> en_connectionID ` set (entries c)"
  shows "cache_inv re rows' c"
proof -
  have "entry_ok re rows' e" if e: "e \<in> set (entries c)" for e
  proof -
    have ok: "entry_ok re rows e" using assms(1) e by (simp add: cache_inv_def)
    have "serves re (en_provider e) r'" if r': "r' \<in> set rows'" "cn_ID r' = en_connectionID e" for r'
    proof -
      from assms(3) [OF r'(1)] r'(2) e obtain r where "r \<in> set rows" "cn_ID r' = cn_ID r" by auto
      with ok r' assms(2) show ?thesis by (auto simp: entry_ok_def)
    qed
    with ok show ?thesis by (auto simp: entry_ok_def)
  qed
  with assms(1) show ?thesis by (simp add: cache_inv_def)
qed

definition rt_inv :: "resolver_env \<Rightarrow> admin_client cache \<times> world \<Rightarrow> bool" where
  "rt_inv re cw \<longleftrightarrow> (case cw of (c, w) \<Rightarrow> rows_ok (db_connections (w_db w)) \<and> cache_inv re (db_connections (w_db w)) c)"

lemma mutation_keeps:
  assumes inv: "rt_inv re (c, w)" and allowed: "step_allowed re (Mutation op ev ce) (c, w)"
  shows "rt_inv re (c, snd (cn_run_op op ev ce w))"
proof -
  let ?rows = "db_connections (w_db w)" and ?rows' = "db_connections (w_db (snd (cn_run_op op ev ce w)))"
  have ok: "cn_table_ok (\<lambda>_. True) ?rows" and plain: "\<forall>r \<in> set ?rows. plain_id (cn_ID r)"
    and ci: "cache_inv re ?rows c" using inv by (auto simp: rt_inv_def rows_ok_iff)
  have ok': "cn_table_ok (\<lambda>_. True) ?rows'"
    using any_row.requests_keep [OF ok, of "[(op, ev, ce)]"] by simp
  have fresh: "\<forall>r \<in> set ?rows'. fresh_id c ?rows r" using allowed by (simp add: list_all_iff)
  then have "\<forall>r \<in> set ?rows'. plain_id (cn_ID r)" using plain by (auto simp: fresh_id_def)
  moreover have "cache_inv re ?rows' c"
  proof (rule rows_change [OF ci])
    fix r r' p assume "r \<in> set ?rows" "r' \<in> set ?rows'" "cn_ID r' = cn_ID r" "serves re p r"
    moreover have "distinct (map cn_ID ?rows)" using ok by (simp add: cn_table_ok_def)
    ultimately show "serves re p r'"
      using rows_step_evolves [OF run_op_rows [OF ok]] evolves_serves by blast
  qed (use fresh in \<open>auto simp: fresh_id_def\<close>)
  ultimately show ?thesis using ok' by (simp add: rt_inv_def rows_ok_iff)
qed

lemma rotation_keeps:
  assumes inv: "rt_inv re (c, w)" and allowed: "step_allowed re (Rotation ro) (c, w)"
  shows "rt_inv re (c, snd (Rotate ro w))"
proof -
  let ?rows = "db_connections (w_db w)" and ?rows' = "db_connections (w_db (snd (Rotate ro w)))"
  have ok: "cn_table_ok (\<lambda>_. True) ?rows" and plain: "\<forall>r \<in> set ?rows. plain_id (cn_ID r)"
    and ci: "cache_inv re ?rows c" using inv by (auto simp: rt_inv_def rows_ok_iff)
  have d: "distinct_ids w" using ok by (simp add: distinct_ids_def cn_table_ok_def)
  have ro: "ro_aead ro = re_aead re" "ro_ring ro = re_ring re" "nonces_ok ro" using allowed by auto
  obtain rep err w' where r: "Rotate ro w = ((rep, err), w')" by (cases "Rotate ro w") auto
  note step = Rotate_step [OF ro(3) d r]
  have res: "list_all2 (resealed (re_aead re) (re_ring re)) ?rows ?rows'" and ok': "cn_table_ok (\<lambda>_. True) ?rows'"
    using step ok ro by (simp_all add: r)
  have ids: "map cn_ID ?rows' = map cn_ID ?rows"
    using res by (induction rule: list_all2_induct) (auto simp: resealed_id)
  have inj: "a = b" if "a \<in> set ?rows" "b \<in> set ?rows" "cn_ID a = cn_ID b" for a b
    using that d by (auto simp: distinct_ids_def distinct_map dest: inj_onD)
  have set_ids: "cn_ID ` set ?rows' = cn_ID ` set ?rows" by (metis ids list.set_map)
  have "cache_inv re ?rows' c"
  proof (rule rows_change [OF ci])
    fix q r' p assume q: "q \<in> set ?rows" "r' \<in> set ?rows'" "cn_ID r' = cn_ID q" "serves re p q"
    from res q(2) obtain n where n: "n < length ?rows" "resealed (re_aead re) (re_ring re) (?rows ! n) r'"
      by (auto simp: list_all2_conv_all_nth in_set_conv_nth)
    have "?rows ! n = q" using inj [OF nth_mem [OF n(1)] q(1)] resealed_id [OF n(2)] q(3) by metis
    with n(2) q(4) show "serves re p r'" by (auto intro: resealed_serves)
  qed (use set_ids in auto)
  moreover have "plain_id (cn_ID r)" if "r \<in> set ?rows'" for r
  proof -
    have "cn_ID r \<in> cn_ID ` set ?rows" unfolding set_ids [symmetric] using that by (rule imageI)
    then show ?thesis using plain by auto
  qed
  ultimately show ?thesis using ok' by (simp add: rt_inv_def rows_ok_iff)
qed

lemma resolution_keeps:
  assumes "rt_inv re (c, w)"
  shows "rt_inv re (snd (ForWorkspace re wid c w)) \<and> w_db (snd (snd (ForWorkspace re wid c w))) = w_db w"
proof -
  let ?rows = "db_connections (w_db w)"
  have ok: "rows_ok ?rows" and ci: "cache_inv re ?rows c" using assms by (auto simp: rt_inv_def)
  obtain x w1 where l: "live_connection wid w = (x, w1)" by (cases "live_connection wid w")
  have w1: "w_db w1 = w_db w" using read_onlyD [OF read_only_live_connection l] .
  show ?thesis
  proof (cases x)
    case (Inl e)
    with l w1 assms show ?thesis by (simp add: ForWorkspace_def rt_inv_def)
  next
    case (Inr wc)
    obtain ws conn where wc: "wc = (ws, conn)" by (cases wc)
    from l Inr wc have l': "live_connection wid w = (Inr (ws, conn), w1)" by simp
    from live_connection_Inr [OF l'] obtain r where
      r: "r \<in> set ?rows" "conn = toDomain r" "cn_Status r = StatusLive" by metis
    obtain a c1 where g: "pc_get (cacheKey conn) c = (a, c1)" by (cases "pc_get (cacheKey conn) c")
    note c1 = get_inv(1) [OF ci g]
    show ?thesis
    proof (cases a)
      case (Some p)
      with l' g w1 c1 ok show ?thesis by (simp add: ForWorkspace_def rt_inv_def)
    next
      case None
      obtain y w2 where b: "buildProvider re conn w1 = (y, w2)" by (cases "buildProvider re conn w1")
      have w2: "w_db w2 = w_db w" using read_onlyD [OF read_only_buildProvider b] w1 by simp
      show ?thesis
      proof (cases y)
        case (Inl e)
        with l' g None b w2 c1 ok show ?thesis by (simp add: ForWorkspace_def rt_inv_def)
      next
        case (Inr p)
        have "distinct_ids w1" using rows_okD(1) [OF ok] w1 by (simp add: distinct_ids_def)
        from buildProvider_Inr [OF b [unfolded Inr r(2)] this] r(1) w1 obtain pt where
          "kr_Open (re_aead re) (re_ring re) (cn_Sealed r) (secretAAD (cn_ID r)) = Inr pt"
          "keycloakBuilder (toDomain r) (of_bytes pt) = Inr p" by metis
        with r(3) have "serves re p r" by (simp add: serves_def)
        moreover have "distinct (map cn_ID ?rows)" using rows_okD(1) [OF ok] by (simp add: distinct_ids_def)
        ultimately have "cache_inv re ?rows (pc_put (cn_ID r) (cacheKey (toDomain r)) p c1)"
          using put_inv [OF c1 _ r(1) rows_okD(2) [OF ok r(1)]] by blast
        with l' g None b w2 ok Inr r(2) show ?thesis by (simp add: ForWorkspace_def rt_inv_def)
      qed
    qed
  qed
qed

lemma rt_run_Cons: "rt_run re (s # ss) cw = rt_run re ss (rt_run re [s] cw)"
  by (cases s; cases cw) auto

lemma rt_run_inv:
  assumes "rt_inv re cw" and "run_allowed re ss cw"
  shows "rt_inv re (rt_run re ss cw)"
  using assms
proof (induction ss arbitrary: cw)
  case (Cons s ss)
  obtain c w where cw: "cw = (c, w)" by (cases cw)
  have "rt_inv re (rt_run re [s] cw)"
    using Cons.prems mutation_keeps rotation_keeps resolution_keeps unfolding cw by (cases s) auto
  with Cons show ?case by (subst rt_run_Cons) simp
qed simp

section \<open>Properties\<close>

lemma stmt_keeps_no_faults: "w_faults w = [] \<Longrightarrow> w_faults (snd (stmt f w)) = []"
  by (auto simp: stmt_no_faults split: sum.splits prod.splits)

text \<open>Without faults a read answers from the database alone.\<close>

lemma build_same:
  assumes "serves re p r" and "r \<in> set (db_connections (w_db w))" and "distinct_ids w"
    and "buildProvider re (toDomain r) w = (Inr p', w')"
  shows "p' = p"
  using buildProvider_Inr [OF assms(4,3,2)] assms(1) by (auto simp: serves_def)

text \<open>One resolution, with any cache that satisfies the invariant.\<close>

lemma ForWorkspace_Inr:
  assumes f: "ForWorkspace re wid c w = (Inr x, cw)" and ok: "rows_ok (db_connections (w_db w))"
    and ci: "cache_inv re (db_connections (w_db w)) c"
  obtains ws r w1 p where "live_connection wid w = (Inr (ws, toDomain r), w1)" and "w_db w1 = w_db w"
    and "ws \<in> set (db_workspaces (w_db w))" and "\<not> ws_IsArchived ws" and "Parse WorkspacePrefix wid = Inr (ws_ID ws)"
    and "r \<in> set (db_connections (w_db w))" and "active_in (ws_ID ws) r"
    and "x = resolved_with ws (toDomain r) p" and "serves re p r"
    and "fst (pc_get (cacheKey (toDomain r)) c) = None \<Longrightarrow> \<exists>w2. buildProvider re (toDomain r) w1 = (Inr p, w2)"
proof -
  from f obtain ws conn w1 where l: "live_connection wid w = (Inr (ws, conn), w1)"
    by (auto simp: ForWorkspace_def split: prod.splits sum.splits)
  have w1: "w_db w1 = w_db w" using read_onlyD [OF read_only_live_connection l] .
  from live_connection_Inr [OF l] obtain r where r: "r \<in> set (db_connections (w_db w))" "conn = toDomain r"
    "active_in (ws_ID ws) r" and ws: "ws \<in> set (db_workspaces (w_db w))" "\<not> ws_IsArchived ws"
      "Parse WorkspacePrefix wid = Inr (ws_ID ws)" by (metis active_in_def)
  obtain a c1 where g: "pc_get (cacheKey conn) c = (a, c1)" by (cases "pc_get (cacheKey conn) c")
  show thesis
  proof (cases a)
    case (Some p)
    with f l g have x: "x = resolved_with ws conn p" by (simp add: ForWorkspace_def)
    have "serves re p r" using hit_serves [OF ci r(1) rows_okD(2) [OF ok r(1)]] g Some r(2) by simp
    with that [of ws r w1 p] l w1 ws r x g Some show thesis by simp
  next
    case None
    with f l g obtain p w2 where b: "buildProvider re conn w1 = (Inr p, w2)" and x: "x = resolved_with ws conn p"
      by (auto simp: ForWorkspace_def split: prod.splits sum.splits)
    have "distinct_ids w1" using rows_okD(1) [OF ok] w1 by (simp add: distinct_ids_def)
    from buildProvider_Inr [OF b [unfolded r(2)] this] r(1) w1 obtain pt where
      "kr_Open (re_aead re) (re_ring re) (cn_Sealed r) (secretAAD (cn_ID r)) = Inr pt"
      "keycloakBuilder (toDomain r) (of_bytes pt) = Inr p" by metis
    with r(3) have "serves re p r" by (simp add: serves_def active_in_def)
    with that [of ws r w1 p] l w1 ws r x b show thesis by simp
  qed
qed

text \<open>C18: over any sequence of connection mutations, rotations with the process's own
  keyring and resolutions (ids of new connections being fresh), a workspace that
  resolves without the cache resolves to the same answer with it, and whatever is
  resolved with the cache goes to an active connection of that live workspace,
  through the provider its own coordinates and secret build whenever that secret
  opens: no provider of an edited, retired or deleted connection is ever served.\<close>

theorem resolver_cache_transparent:
  assumes "rows_ok (db_connections (w_db w0))"
    and "run_allowed re ss (newProviderCache nil n, w0)"
    and "rt_run re ss (newProviderCache nil n, w0) = (c, w)"
  shows "(\<forall>x c1 w1. ForWorkspace re wid (newProviderCache nil (- 1)) w = (Inr x, c1, w1) \<longrightarrow>
       fst (ForWorkspace re wid c w) = Inr x) \<and>
     (\<forall>x c1 w1. ForWorkspace re wid c w = (Inr x, c1, w1) \<longrightarrow>
       (\<exists>ws r. ws \<in> set (db_workspaces (w_db w)) \<and> \<not> ws_IsArchived ws \<and> Parse WorkspacePrefix wid = Inr (ws_ID ws) \<and>
          r \<in> set (db_connections (w_db w)) \<and> active_in (ws_ID ws) r \<and>
          rd_ConnectionPublicID x = cn_PublicID r \<and> rd_AccessMode x = cn_AccessMode r \<and>
          serves re (rd_Provider x) r))"
proof -
  have "rt_inv re (newProviderCache nil n, w0)"
    using assms(1) new_wf [of nil n] by (simp add: rt_inv_def cache_inv_def entries_def newProviderCache_def)
  from rt_run_inv [OF this assms(2)] have ok: "rows_ok (db_connections (w_db w))"
    and ci: "cache_inv re (db_connections (w_db w)) c" unfolding assms(3) by (auto simp: rt_inv_def)
  have miss: "fst (pc_get key (newProviderCache nil (- 1))) = None" for key
    by (simp add: newProviderCache_def pc_get_def)
  have none: "cache_inv re (db_connections (w_db w)) (newProviderCache nil (- 1))"
    using new_wf [of nil "- 1"] by (simp add: cache_inv_def entries_def newProviderCache_def)
  show ?thesis
  proof (intro conjI allI impI)
    fix x c1 w1 assume f: "ForWorkspace re wid (newProviderCache nil (- 1)) w = (Inr x, c1, w1)"
    show "fst (ForWorkspace re wid c w) = Inr x"
    proof (rule ForWorkspace_Inr [OF f ok none])
      fix ws r w2 p
      assume l: "live_connection wid w = (Inr (ws, toDomain r), w2)" "w_db w2 = w_db w"
        and r: "r \<in> set (db_connections (w_db w))" and x: "x = resolved_with ws (toDomain r) p"
        and b: "fst (pc_get (cacheKey (toDomain r)) (newProviderCache nil (- 1))) = None \<Longrightarrow>
          \<exists>w3. buildProvider re (toDomain r) w2 = (Inr p, w3)"
      from b [OF miss] obtain w3 where b: "buildProvider re (toDomain r) w2 = (Inr p, w3)" by blast
      obtain a c2 where g: "pc_get (cacheKey (toDomain r)) c = (a, c2)" by (cases "pc_get (cacheKey (toDomain r)) c")
      show "fst (ForWorkspace re wid c w) = Inr x"
      proof (cases a)
        case (Some q)
        have "serves re q r" using hit_serves [OF ci r rows_okD(2) [OF ok r]] g Some by simp
        then have "p = q"
          by (rule build_same [where w = w2]) (use r l(2) rows_okD(1) [OF ok] b in \<open>simp_all add: distinct_ids_def\<close>)
        with l g Some x show ?thesis by (simp add: ForWorkspace_def)
      next
        case None
        with l g b x show ?thesis by (simp add: ForWorkspace_def)
      qed
    qed
  next
    fix x c1 w1 assume "ForWorkspace re wid c w = (Inr x, c1, w1)"
    from ForWorkspace_Inr [OF this ok ci] obtain ws r p where
      "ws \<in> set (db_workspaces (w_db w))" "\<not> ws_IsArchived ws" "Parse WorkspacePrefix wid = Inr (ws_ID ws)"
      "r \<in> set (db_connections (w_db w))" "active_in (ws_ID ws) r" "x = resolved_with ws (toDomain r) p"
      "serves re p r" by metis
    then show "\<exists>ws r. ws \<in> set (db_workspaces (w_db w)) \<and> \<not> ws_IsArchived ws \<and> Parse WorkspacePrefix wid = Inr (ws_ID ws) \<and>
        r \<in> set (db_connections (w_db w)) \<and> active_in (ws_ID ws) r \<and>
        rd_ConnectionPublicID x = cn_PublicID r \<and> rd_AccessMode x = cn_AccessMode r \<and> serves re (rd_Provider x) r"
      by (intro exI [of _ ws] exI [of _ r]) (simp add: resolved_with_def cn_PublicID_def)
  qed
qed

text \<open>A live connection, resolved twice with a retirement in between.\<close>

definition demo_live_row :: connection_row where
  "demo_live_row = demo_cn_row\<lparr> cn_Status := StatusLive, cn_ActivatedAt := Some 1 \<rparr>"

definition demo_live_world :: world where
  "demo_live_world = demo_cn_world\<lparr> w_db := (w_db demo_cn_world)\<lparr> db_connections := [demo_live_row] \<rparr> \<rparr>"

definition demo_resolver_env :: resolver_env where
  "demo_resolver_env = \<lparr> re_aead = toy_aead, re_ring = demo_keyring' \<rparr>"

definition demo_resolved :: "go_error + resolved" where
  "demo_resolved = fst (ForWorkspace demo_resolver_env demo_wid (newProviderCache demo_client (- 1)) demo_live_world)"

definition demo_run :: "admin_client cache \<times> world" where
  "demo_run = rt_run demo_resolver_env [Resolution demo_wid, Rotation demo_rot_env] (newProviderCache demo_client 0, demo_live_world)"

theorem resolver_cache_transparent_witness:
  "\<exists>x r. fst (ForWorkspace demo_resolver_env demo_wid (fst demo_run) (snd demo_run)) = Inr x \<and>
     r \<in> set (db_connections (w_db (snd demo_run))) \<and> serves demo_resolver_env (rd_Provider x) r"
proof -
  obtain c w where cw: "demo_run = (c, w)" by (cases demo_run)
  have ok: "rows_ok (db_connections (w_db demo_live_world))" by code_simp
  have allowed: "run_allowed demo_resolver_env [Resolution demo_wid, Rotation demo_rot_env]
      (newProviderCache demo_client 0, demo_live_world)"
    using demo_rot_ok(1) by (simp add: demo_resolver_env_def demo_rot_env_def)
  have "is_ok (fst (ForWorkspace demo_resolver_env demo_wid (newProviderCache demo_client (- 1)) (snd demo_run)))"
    by code_simp
  then obtain x c1 w1 where u: "ForWorkspace demo_resolver_env demo_wid (newProviderCache demo_client (- 1)) w = (Inr x, c1, w1)"
    unfolding cw snd_conv is_ok_iff by (metis prod_cases3 fst_conv)
  note t = resolver_cache_transparent [OF ok allowed cw [unfolded demo_run_def], of demo_wid]
  from t u have f: "fst (ForWorkspace demo_resolver_env demo_wid c w) = Inr x" by blast
  then obtain c2 w2 where "ForWorkspace demo_resolver_env demo_wid c w = (Inr x, c2, w2)" by (metis prod_cases3 fst_conv)
  with t f show ?thesis unfolding cw fst_conv snd_conv by blast
qed

end
