(* ===== verification/HttpContext.thy ===== *)
theory HttpContext
  imports PublicId
begin

text \<open>
  The request context the middleware chain works on, and
  \<^verbatim>\<open>internal/requestid/requestid.go\<close>.

  \<open>http_ctx\<close> is the part of \<^verbatim>\<open>*gin.Context\<close> the code under \<^verbatim>\<open>internal/auth\<close>,
  \<^verbatim>\<open>internal/authz\<close> and \<^verbatim>\<open>internal/server\<close> reads and writes: request line,
  path parameters, headers, the values middleware stores under its context keys,
  the response written by an abort, and the security events emitted
  (\<^verbatim>\<open>internal/auth/events.go\<close>, without the clock fields). A middleware
  is a function on contexts paired with the state it owns; \<open>run_chain\<close> is gin's
  chain: the next function runs only when none before it has aborted. No
  modelled middleware does anything after \<^verbatim>\<open>c.Next()\<close>, so calling it is
  returning without an abort.
\<close>

section \<open>Identities and principals (internal/auth)\<close>

record identity =
  id_Subject :: string
  id_Email :: string
  id_Username :: string
  id_Roles :: "string list"
  id_ExpiresAt :: int

record project_principal =
  pp_ProjectID :: string
  pp_ProjectName :: string
  pp_CredentialID :: string
  pp_WorkspaceID :: string
  pp_Scopes :: "string list"

datatype principal_type = PrincipalOperator | PrincipalProject

record principal =
  pr_Type :: principal_type
  pr_Operator :: "identity option"
  pr_Project :: "project_principal option"

definition NewOperatorPrincipal :: "identity \<Rightarrow> principal" where
  "NewOperatorPrincipal i =
     \<lparr> pr_Type = PrincipalOperator, pr_Operator = Some i, pr_Project = None \<rparr>"

definition NewProjectPrincipal :: "project_principal \<Rightarrow> principal" where
  "NewProjectPrincipal p =
     \<lparr> pr_Type = PrincipalProject, pr_Operator = None, pr_Project = Some p \<rparr>"

definition IsOperator :: "principal \<Rightarrow> bool" where
  "IsOperator p \<longleftrightarrow> pr_Type p = PrincipalOperator \<and> pr_Operator p \<noteq> None"

definition IsProject :: "principal \<Rightarrow> bool" where
  "IsProject p \<longleftrightarrow> pr_Type p = PrincipalProject \<and> pr_Project p \<noteq> None"

fun has_role_in :: "string list \<Rightarrow> string \<Rightarrow> bool" where
  "has_role_in [] role = False"
| "has_role_in (r # rs) role = (if r = role then True else has_role_in rs role)"

definition HasRole :: "identity \<Rightarrow> string \<Rightarrow> bool" where
  "HasRole i role = has_role_in (id_Roles i) role"

section \<open>The context\<close>

datatype auth_event_kind =
    EventTokenValidated
  | EventValidationFailed
  | EventMissingHeader
  | EventMalformedHeader
  | EventForbidden

record auth_event =
  ev_Kind :: auth_event_kind
  ev_Subject :: string
  ev_Reason :: string
  ev_Path :: string
  ev_Method :: string

text \<open>The two response shapes: the \<^verbatim>\<open>/v1\<close> envelope with a code, a message and
  the request id, and the bare \<^verbatim>\<open>{"error": ...}\<close> of the older surface.\<close>

datatype body = Envelope string string string | Legacy string

record http_ctx =
  rq_method :: string
  rq_path :: string
  rq_route :: string
  rq_params :: "(string \<times> string) list"
  rq_headers :: "(string \<times> string) list"
  cx_request_id :: "string option"
  cx_identity :: "identity option"
  cx_principal :: "principal option"
  rs_headers :: "(string \<times> string) list"
  rs_abort :: "(nat \<times> body) option"
  cx_events :: "auth_event list"

definition lookup_or_empty :: "(string \<times> string) list \<Rightarrow> string \<Rightarrow> string" where
  "lookup_or_empty kvs k = (case map_of kvs k of None \<Rightarrow> [] | Some v \<Rightarrow> v)"

definition GetHeader :: "http_ctx \<Rightarrow> string \<Rightarrow> string" where
  "GetHeader c h = lookup_or_empty (rq_headers c) h"

definition Param :: "http_ctx \<Rightarrow> string \<Rightarrow> string" where
  "Param c k = lookup_or_empty (rq_params c) k"

definition set_header :: "string \<Rightarrow> string \<Rightarrow> http_ctx \<Rightarrow> http_ctx" where
  "set_header h v c = c\<lparr> rs_headers := (h, v) # rs_headers c \<rparr>"

definition abort_with :: "nat \<Rightarrow> body \<Rightarrow> http_ctx \<Rightarrow> http_ctx" where
  "abort_with status b c = c\<lparr> rs_abort := Some (status, b) \<rparr>"

definition EmitEvent :: "auth_event_kind \<Rightarrow> string \<Rightarrow> string \<Rightarrow> http_ctx \<Rightarrow> http_ctx" where
  "EmitEvent k subject reason c =
     c\<lparr> cx_events := cx_events c @
          [\<lparr> ev_Kind = k, ev_Subject = subject, ev_Reason = reason,
             ev_Path = rq_path c, ev_Method = rq_method c \<rparr>] \<rparr>"

definition StoreIdentity :: "identity \<Rightarrow> http_ctx \<Rightarrow> http_ctx" where
  "StoreIdentity i c = c\<lparr> cx_identity := Some i \<rparr>"

definition StorePrincipal :: "principal \<Rightarrow> http_ctx \<Rightarrow> http_ctx" where
  "StorePrincipal p c = c\<lparr> cx_principal := Some p \<rparr>"

definition IdentityFrom :: "http_ctx \<Rightarrow> identity option" where
  "IdentityFrom c = cx_identity c"

definition PrincipalFrom :: "http_ctx \<Rightarrow> principal option" where
  "PrincipalFrom c = cx_principal c"

type_synonym 's middleware = "'s \<times> http_ctx \<Rightarrow> 's \<times> http_ctx"

fun run_chain :: "'s middleware list \<Rightarrow> 's middleware" where
  "run_chain [] sc = sc"
| "run_chain (m # ms) sc =
     (let sc' = m sc in
      if rs_abort (snd sc') \<noteq> None then sc' else run_chain ms sc')"

section \<open>Request ids\<close>

definition RequestIdHeader :: string where "RequestIdHeader = ''X-Request-Id''"

definition maxInboundLength :: nat where "maxInboundLength = 64"

definition unreserved :: "char \<Rightarrow> bool" where
  "unreserved c \<longleftrightarrow>
     is_lower c \<or> is_upper c \<or> is_digit c \<or>
     c = CHR ''-'' \<or> c = CHR ''_'' \<or> c = CHR ''.'' \<or> c = CHR '':''"

definition valid_request_id :: "string \<Rightarrow> bool" where
  "valid_request_id s =
     (if s = [] \<or> length s > maxInboundLength then False else list_all unreserved s)"

definition generate_request_id :: "'e + 8 word list \<Rightarrow> string" where
  "generate_request_id rnd = (case New rnd of Inl _ \<Rightarrow> [] | Inr u \<Rightarrow> u)"

definition RequestIdMiddleware :: "'e + 8 word list \<Rightarrow> http_ctx \<Rightarrow> http_ctx" where
  "RequestIdMiddleware rnd c =
     (let inbound = GetHeader c RequestIdHeader;
          rid = (if valid_request_id inbound then inbound else generate_request_id rnd)
      in set_header RequestIdHeader rid (c\<lparr> cx_request_id := Some rid \<rparr>))"

definition FromContext :: "http_ctx \<Rightarrow> string" where
  "FromContext c = (case cx_request_id c of None \<Rightarrow> [] | Some r \<Rightarrow> r)"

section \<open>Lemmas\<close>

lemmas ctx_defs = set_header_def abort_with_def EmitEvent_def StoreIdentity_def
  StorePrincipal_def IdentityFrom_def PrincipalFrom_def

lemma abort_rs [simp]: "rs_abort (abort_with st b c) = Some (st, b)"
  by (simp add: abort_with_def)

lemma emit_rs [simp]: "rs_abort (EmitEvent k s r c) = rs_abort c"
  by (simp add: EmitEvent_def)

lemma HasRole_iff [simp]: "HasRole i role \<longleftrightarrow> role \<in> set (id_Roles i)"
proof -
  have "has_role_in rs role \<longleftrightarrow> role \<in> set rs" for rs by (induction rs) auto
  then show ?thesis by (simp add: HasRole_def)
qed

lemma principal_cases [simp]:
  "IsOperator (NewOperatorPrincipal i)" "\<not> IsProject (NewOperatorPrincipal i)"
  "IsProject (NewProjectPrincipal p)" "\<not> IsOperator (NewProjectPrincipal p)"
  "pr_Operator (NewOperatorPrincipal i) = Some i" "pr_Project (NewProjectPrincipal p) = Some p"
  "pr_Type (NewOperatorPrincipal i) = PrincipalOperator"
  "pr_Type (NewProjectPrincipal p) = PrincipalProject"
  by (simp_all add: IsOperator_def IsProject_def NewOperatorPrincipal_def NewProjectPrincipal_def)

lemma run_chain_append:
  "run_chain (ms @ ns) sc =
     (let sc' = run_chain ms sc in
      if ms \<noteq> [] \<and> rs_abort (snd sc') \<noteq> None then sc' else run_chain ns sc')"
  by (induction ms arbitrary: sc) (auto simp: Let_def)

lemma canonical_unreserved: "canonical u \<Longrightarrow> list_all unreserved u"
proof -
  assume "canonical u"
  have "unreserved c" if "c \<in> set u" for c
    using canonical_char [OF \<open>canonical u\<close> that]
    by (auto simp: unreserved_def is_lower_hex_def is_digit_def is_lower_def in_range_def
        less_eq_char_def)
  then show ?thesis by (simp add: list_all_iff)
qed

text \<open>The correlation id echoed in the response header is never longer than 64
  bytes and holds only letters, digits and \<^verbatim>\<open>- _ . :\<close> (no CR, LF or
  non-ASCII byte reaches the header or a log line); a valid inbound id is kept
  as it is and handlers read the same value.\<close>

theorem request_id_safe:
  assumes "\<And>raw. rnd = Inr raw \<Longrightarrow> length raw = 16"
  shows "let c' = RequestIdMiddleware rnd c; rid = lookup_or_empty (rs_headers c') RequestIdHeader in
    length rid \<le> 64 \<and> list_all unreserved rid \<and> FromContext c' = rid \<and>
    (if valid_request_id (GetHeader c RequestIdHeader) then rid = GetHeader c RequestIdHeader
     else rid = generate_request_id rnd)"
proof -
  define rid where "rid = (if valid_request_id (GetHeader c RequestIdHeader)
    then GetHeader c RequestIdHeader else generate_request_id rnd)"
  have g: "generate_request_id rnd = [] \<or> canonical (generate_request_id rnd)"
  proof (cases rnd)
    case (Inr raw)
    with assms have "canonical (uuid_of_bytes (stamp_v4 raw))"
      by (simp add: uuid_of_bytes_canonical stamp_v4_def)
    with Inr show ?thesis by (simp add: generate_request_id_def New_eq)
  qed (simp add: generate_request_id_def New_def)
  have "length rid \<le> 64 \<and> list_all unreserved rid"
    using g canonical_unreserved
    by (auto simp: rid_def valid_request_id_def maxInboundLength_def canonical_length split: if_splits)
  moreover have "lookup_or_empty (rs_headers (RequestIdMiddleware rnd c)) RequestIdHeader = rid"
    "FromContext (RequestIdMiddleware rnd c) = rid"
    by (simp_all add: RequestIdMiddleware_def Let_def rid_def set_header_def lookup_or_empty_def
        FromContext_def)
  ultimately show ?thesis by (simp add: rid_def)
qed

definition empty_ctx :: http_ctx where
  "empty_ctx = \<lparr> rq_method = [], rq_path = [], rq_route = [], rq_params = [], rq_headers = [],
     cx_request_id = None, cx_identity = None, cx_principal = None, rs_headers = [],
     rs_abort = None, cx_events = [] \<rparr>"

theorem request_id_safe_witness:
  "let c' = RequestIdMiddleware (Inl () :: unit + 8 word list)
              (empty_ctx\<lparr> rq_headers := [(''X-Request-Id'', ''trace:42'')] \<rparr>)
   in lookup_or_empty (rs_headers c') RequestIdHeader = ''trace:42''"
proof -
  have "valid_request_id ''trace:42''" by code_simp
  then show ?thesis
    using request_id_safe [of "Inl () :: unit + 8 word list"
        "empty_ctx\<lparr> rq_headers := [(''X-Request-Id'', ''trace:42'')] \<rparr>"]
    by (simp add: GetHeader_def RequestIdHeader_def lookup_or_empty_def Let_def)
qed

end
