(* ===== verification/IdentityRuntime.thy ===== *)
theory IdentityRuntime
  imports IdentityService Resolver AuditLog HttpContext
begin

text \<open>
  \<^verbatim>\<open>internal/identityruntime\<close>: the workspace-scoped identity API
  (\<^verbatim>\<open>handler.go\<close>, \<^verbatim>\<open>handler_roles.go\<close>, \<^verbatim>\<open>handler_invitations.go\<close>,
  \<^verbatim>\<open>handler_sessions.go\<close>, \<^verbatim>\<open>role_guard.go\<close>, \<^verbatim>\<open>errors.go\<close>, \<^verbatim>\<open>dto.go\<close>), the
  wire types of \<^verbatim>\<open>internal/identity/dto.go\<close> and the audit helpers of
  \<^verbatim>\<open>internal/logging/gin_helpers.go\<close>.

  A handler takes the request and a state of four parts: the resolver's cache, the
  database, the realms (whatever the providers act on) and the audit events handed to
  the recorder. Parameters: how a client of a realm acts (\<open>he_remote\<close>), the text of an
  identity error (\<open>he_text\<close>), the client address and the query parameters. A body has
  been decoded: \<open>Inl None\<close> is malformed JSON, \<open>Inl (Some f)\<close> a value of the wrong type
  in field \<open>f\<close>.
\<close>

section \<open>Errors\<close>

definition RtErrConnectionReadOnly :: go_error where
  "RtErrConnectionReadOnly = AppError ''connection_read_only'' ''Workspace's active connection does not have write access; grant its service account realm-management roles and re-verify'' 409"
definition RtErrProviderUnavailable :: go_error where
  "RtErrProviderUnavailable = AppError ''provider_unavailable'' ''Identity provider is unavailable'' 502"
definition RtErrRolePrivileged :: go_error where
  "RtErrRolePrivileged = AppError ''role_privileged'' ''Project credentials cannot grant or revoke administrative roles'' 403"
definition RtErrInvalidRequest :: go_error where
  "RtErrInvalidRequest = AppError ''invalid_request'' ''Request is invalid'' 400"
definition RtErrInvalidUserID :: go_error where
  "RtErrInvalidUserID = AppError ''invalid_user_id'' ''User id must be a UUID'' 400"
definition RtErrInvalidRoleName :: go_error where
  "RtErrInvalidRoleName = AppError ''invalid_role_name'' ''Role name is malformed'' 400"
definition RtErrInvalidSessionID :: go_error where
  "RtErrInvalidSessionID = AppError ''invalid_session_id'' ''Session id must be a UUID'' 400"
definition RtErrUserNotFound :: go_error where
  "RtErrUserNotFound = AppError ''user_not_found'' ''User not found in this workspace'' 404"
definition RtErrRoleNotFound :: go_error where
  "RtErrRoleNotFound = AppError ''role_not_found'' ''Role not found in this workspace'' 404"
definition RtErrSessionNotFound :: go_error where
  "RtErrSessionNotFound = AppError ''session_not_found'' ''Session not found in this workspace'' 404"
definition RtErrInvitationNotFound :: go_error where
  "RtErrInvitationNotFound = AppError ''invitation_not_found'' ''Invitation not found in this workspace'' 404"
definition RtErrRoleAlreadyExists :: go_error where
  "RtErrRoleAlreadyExists = AppError ''role_already_exists'' ''A role with that name already exists in this workspace'' 409"
definition RtErrRoleReserved :: go_error where
  "RtErrRoleReserved = AppError ''role_reserved'' ''That role name is reserved and cannot be created, modified or deleted'' 409"
definition RtErrConflict :: go_error where
  "RtErrConflict = AppError ''conflict'' ''The request conflicts with the current state of this workspace'' 409"
definition RtErrCallerForbidden :: go_error where
  "RtErrCallerForbidden = AppError ''caller_forbidden'' ''This operation is not permitted'' 403"
definition RtErrProviderForbidden :: go_error where
  "RtErrProviderForbidden = AppError ''provider_forbidden'' ''Workspace's identity provider refused the operation; its service account is missing realm-management roles'' 409"

text \<open>An error on its way to the client: the entry of the catalogue (or an error
  outside it) and the field it is about.\<close>

type_synonym rt_failure = "go_error \<times> string"

definition isKnownFieldName :: "string \<Rightarrow> bool" where
  "isKnownFieldName field \<longleftrightarrow>
     field \<noteq> [] \<and> length field \<le> 40 \<and> is_lower (hd field) \<and>
     list_all (\<lambda>c. is_lower c \<or> is_digit c \<or> c = CHR ''_'') field"

definition rt_WithField :: "go_error \<Rightarrow> string \<Rightarrow> rt_failure" where
  "rt_WithField e field = (if \<not> isKnownFieldName field then (e, []) else (e, field))"

record error_body =
  eb_Code :: string
  eb_Message :: string
  eb_Field :: string
  eb_RequestID :: string

datatype resource_kind = kindUser | kindRole | kindSession | kindInvitation

definition notFoundFor :: "resource_kind \<Rightarrow> go_error" where
  "notFoundFor k = (case k of kindRole \<Rightarrow> RtErrRoleNotFound | kindSession \<Rightarrow> RtErrSessionNotFound
     | kindInvitation \<Rightarrow> RtErrInvitationNotFound | kindUser \<Rightarrow> RtErrUserNotFound)"

definition conflictFor :: "resource_kind \<Rightarrow> go_error" where
  "conflictFor k = (if k = kindRole then RtErrRoleAlreadyExists else RtErrConflict)"

text \<open>\<^verbatim>\<open>errors.Is\<close> against the sentinels, with what wraps what.\<close>

datatype sentinel = SNotFound | SBadRequest | SForbidden | SConflict | SNotConfigured | SUnavailable
  | SProviderForbidden | SRoleReserved | SRoleProtected

fun errors_Is :: "provider_error \<Rightarrow> sentinel \<Rightarrow> bool" where
  "errors_Is IdNotFound t \<longleftrightarrow> t = SNotFound"
| "errors_Is (IdBadRequest _) t \<longleftrightarrow> t = SBadRequest"
| "errors_Is (IdForbidden _) t \<longleftrightarrow> t = SForbidden"
| "errors_Is IdProviderForbidden t \<longleftrightarrow> t = SProviderForbidden \<or> t = SForbidden"
| "errors_Is IdConflict t \<longleftrightarrow> t = SConflict"
| "errors_Is IdNotConfigured t \<longleftrightarrow> t = SNotConfigured"
| "errors_Is (IdUnavailable _) t \<longleftrightarrow> t = SUnavailable"
| "errors_Is IdRoleReserved t \<longleftrightarrow> t = SRoleReserved \<or> t = SBadRequest"
| "errors_Is (IdRoleProtected _) t \<longleftrightarrow> t = SRoleProtected \<or> t = SForbidden"
| "errors_Is (IdField _ e) t \<longleftrightarrow> errors_Is e t"
| "errors_Is (IdOther _) t \<longleftrightarrow> False"

definition translateIdentityError :: "resource_kind \<Rightarrow> provider_error \<Rightarrow> rt_failure" where
  "translateIdentityError k err =
     (if errors_Is err SProviderForbidden then (RtErrProviderForbidden, [])
      else if errors_Is err SRoleProtected then (RtErrRoleReserved, [])
      else if errors_Is err SRoleReserved then (RtErrRoleReserved, [])
      else if errors_Is err SNotFound then (notFoundFor k, [])
      else if errors_Is err SConflict then (conflictFor k, [])
      else if errors_Is err SForbidden then (RtErrCallerForbidden, [])
      else if errors_Is err SBadRequest then rt_WithField RtErrInvalidRequest (FieldOf err)
      else if errors_Is err SNotConfigured then (RtErrConnectionUnusable, [])
      else if errors_Is err SUnavailable then (RtErrProviderUnavailable, [])
      else (ErrDriver, []))"

section \<open>Wire types\<close>

record user_response =
  ur_ID :: string
  ur_Username :: string
  ur_Email :: string
  ur_FirstName :: string
  ur_LastName :: string
  ur_Enabled :: bool
  ur_EmailVerified :: bool
  ur_CreatedAt :: int
  ur_Attributes :: "(string \<times> string list) list"

definition NewUserResponse :: "idp_user \<Rightarrow> user_response" where
  "NewUserResponse u =
     \<lparr> ur_ID = us_ID u, ur_Username = us_Username u, ur_Email = us_Email u, ur_FirstName = us_FirstName u,
       ur_LastName = us_LastName u, ur_Enabled = us_Enabled u, ur_EmailVerified = us_EmailVerified u,
       ur_CreatedAt = us_CreatedAt u, ur_Attributes = us_Attributes u \<rparr>"

record role_response =
  rr_ID :: string
  rr_Name :: string
  rr_Description :: string
  rr_Composite :: bool
  rr_Builtin :: bool

definition NewRoleResponse :: "idp_role \<Rightarrow> role_response" where
  "NewRoleResponse r =
     \<lparr> rr_ID = ir_ID r, rr_Name = ir_Name r, rr_Description = ir_Description r,
       rr_Composite = ir_Composite r, rr_Builtin = ir_Builtin r \<rparr>"

record session_response =
  sr_ID :: string
  sr_UserID :: string
  sr_Username :: string
  sr_IPAddress :: string
  sr_UserAgent :: string
  sr_StartedAt :: int
  sr_LastAccess :: int
  sr_Clients :: "(string \<times> string) list"

definition NewSessionResponse :: "idp_session \<Rightarrow> session_response" where
  "NewSessionResponse s =
     \<lparr> sr_ID = sn_ID s, sr_UserID = sn_UserID s, sr_Username = sn_Username s, sr_IPAddress = sn_IPAddress s,
       sr_UserAgent = sn_UserAgent s, sr_StartedAt = sn_StartedAt s, sr_LastAccess = sn_LastAccess s,
       sr_Clients = sn_Clients s \<rparr>"

record invitation_response =
  ivr_ID :: string
  ivr_Email :: string
  ivr_Username :: string
  ivr_RequiredActions :: "string list"
  ivr_InvitedBy :: string
  ivr_ExpiresAt :: string
  ivr_CreatedAt :: int
  ivr_Status :: string

definition NewInvitationResponse :: "idp_invitation \<Rightarrow> invitation_response" where
  "NewInvitationResponse i =
     \<lparr> ivr_ID = iv_ID i, ivr_Email = iv_Email i, ivr_Username = iv_Username i,
       ivr_RequiredActions = iv_RequiredActions i, ivr_InvitedBy = iv_InvitedBy i,
       ivr_ExpiresAt = iv_ExpiresAt i, ivr_CreatedAt = iv_CreatedAt i, ivr_Status = iv_Status i \<rparr>"

datatype payload =
    PlUsers "user_response list" int int nat
  | PlUser user_response
  | PlRoles "role_response list" nat
  | PlRole role_response
  | PlSessions "session_response list" nat
  | PlInvitations "invitation_response list" nat
  | PlInvitation invitation_response

datatype reply = RpError nat error_body | RpJSON nat payload | RpStatus nat

definition respondError :: "http_ctx \<Rightarrow> rt_failure \<Rightarrow> reply" where
  "respondError c f =
     (case (case fst f of AppError code msg st \<Rightarrow> (code, msg, st, snd f)
              | _ \<Rightarrow> (''internal_error'', ''Internal error'', 500, [])) of
        (code, msg, st, field) \<Rightarrow>
          RpError st \<lparr> eb_Code = code, eb_Message = msg, eb_Field = field, eb_RequestID = FromContext c \<rparr>)"

section \<open>Attribution\<close>

definition operatorActor :: "identity \<Rightarrow> audit_actor" where
  "operatorActor i = \<lparr> at_Type = Some ActorOperator, at_Subject = id_Subject i, at_Email = id_Email i,
     at_Username = id_Username i, at_ProjectID = [], at_CredentialID = [] \<rparr>"

definition no_actor :: audit_actor where
  "no_actor = \<lparr> at_Type = None, at_Subject = [], at_Email = [], at_Username = [], at_ProjectID = [],
     at_CredentialID = [] \<rparr>"

definition ActorFromGin :: "http_ctx \<Rightarrow> audit_actor" where
  "ActorFromGin c =
     (case PrincipalFrom c of
        Some p \<Rightarrow>
          (if IsProject p
           then no_actor\<lparr> at_Type := Some ActorProject, at_ProjectID := pp_ProjectID (the (pr_Project p)),
                          at_CredentialID := pp_CredentialID (the (pr_Project p)) \<rparr>
           else if IsOperator p then operatorActor (the (pr_Operator p))
           else (case IdentityFrom c of None \<Rightarrow> no_actor | Some i \<Rightarrow> operatorActor i))
      | None \<Rightarrow> (case IdentityFrom c of None \<Rightarrow> no_actor | Some i \<Rightarrow> operatorActor i))"

definition maxUserAgentLength :: nat where "maxUserAgentLength = 256"

definition UserAgentFromGin :: "http_ctx \<Rightarrow> string" where
  "UserAgentFromGin c = take maxUserAgentLength (GetHeader c ''User-Agent'')"

definition EventFromGin :: "string \<Rightarrow> http_ctx \<Rightarrow> audit_event \<Rightarrow> audit_event" where
  "EventFromGin ip c base =
     (let base = (if ea_Actor base = no_actor then base\<lparr> ea_Actor := ActorFromGin c \<rparr> else base);
          base = (if ea_IP base = [] then base\<lparr> ea_IP := ip \<rparr> else base);
          base = (if ea_RequestID base = [] then base\<lparr> ea_RequestID := FromContext c \<rparr> else base)
      in if ea_UserAgent base = [] then base\<lparr> ea_UserAgent := UserAgentFromGin c \<rparr> else base)"

definition RecordWorkspaceMutation ::
  "string \<Rightarrow> http_ctx \<Rightarrow> string \<Rightarrow> string \<Rightarrow> audit_target \<Rightarrow> string option \<Rightarrow> audit_event" where
  "RecordWorkspaceMutation ip c workspace action target err =
     (let e = EventFromGin ip c
        \<lparr> ea_Action = action, ea_Actor = no_actor, ea_Target = target, ea_Workspace = workspace, ea_IP = [],
          ea_RequestID = [], ea_UserAgent = [], ea_Timestamp = None, ea_Reason = [], ea_Extra = [],
          ea_Persisted = False \<rparr>
      in case err of None \<Rightarrow> e | Some msg \<Rightarrow> e\<lparr> ea_Reason := msg \<rparr>)"

section \<open>The seams\<close>

record 's rt_state =
  rt_cache :: "admin_client cache"
  rt_db :: world
  rt_realm :: 's
  rt_events :: "audit_event list"

record 's handler_env =
  he_resolver :: resolver_env
  he_service :: service_env
  he_remote :: "admin_client \<Rightarrow> 's identity_provider"
  he_text :: "provider_error \<Rightarrow> string"
  he_ip :: string
  he_query :: "string \<Rightarrow> string"

type_synonym ('s, 'a) hd = "'s rt_state \<Rightarrow> (rt_failure + 'a) \<times> 's rt_state"
type_synonym 'q decoded = "string option + 'q"

definition hd_ret :: "'a \<Rightarrow> ('s, 'a) hd" where "hd_ret x s = (Inr x, s)"
definition hd_fail :: "rt_failure \<Rightarrow> ('s, 'a) hd" where "hd_fail e s = (Inl e, s)"

definition hd_then :: "('s, 'b) hd \<Rightarrow> ('b \<Rightarrow> ('s, 'a) hd) \<Rightarrow> ('s, 'a) hd" where
  "hd_then m f s = (case m s of (Inl e, s') \<Rightarrow> (Inl e, s') | (Inr x, s') \<Rightarrow> f x s')"

text \<open>A handler answers what its steps answered, or the error that stopped them.\<close>

definition respond_with :: "http_ctx \<Rightarrow> ('s, reply) hd \<Rightarrow> 's rt_state \<Rightarrow> reply \<times> 's rt_state" where
  "respond_with c m s = (case m s of (Inl e, s') \<Rightarrow> (respondError c e, s') | (Inr r, s') \<Rightarrow> (r, s'))"

definition rt_read :: "'s handler_env \<Rightarrow> http_ctx \<Rightarrow> ('s, resolved) hd" where
  "rt_read h c s =
     (case ForWorkspace (he_resolver h) (Param c ''workspace_id'') (rt_cache s) (rt_db s) of
        (r, cache, w) \<Rightarrow>
          (case r of Inl e \<Rightarrow> Inl (e, []) | Inr rd \<Rightarrow> Inr rd, s\<lparr> rt_cache := cache, rt_db := w \<rparr>))"

definition rt_write :: "'s handler_env \<Rightarrow> http_ctx \<Rightarrow> ('s, resolved) hd" where
  "rt_write h c = hd_then (rt_read h c) (\<lambda>sc.
     if \<not> rd_CanWrite sc then hd_fail (RtErrConnectionReadOnly, []) else hd_ret sc)"

definition callerSubject :: "http_ctx \<Rightarrow> string" where
  "callerSubject c = (case IdentityFrom c of None \<Rightarrow> [] | Some i \<Rightarrow> id_Subject i)"

definition callerLabel :: "http_ctx \<Rightarrow> string" where
  "callerLabel c =
     (case IdentityFrom c of None \<Rightarrow> [] | Some i \<Rightarrow> if id_Email i \<noteq> [] then id_Email i else id_Subject i)"

definition leaf_field :: "string \<Rightarrow> string" where
  "leaf_field f = rev (takeWhile (\<lambda>x. x \<noteq> CHR ''.'') (rev f))"

definition rt_bind :: "'q decoded \<Rightarrow> ('s, 'q) hd" where
  "rt_bind b =
     (case b of
        Inr q \<Rightarrow> hd_ret q
      | Inl None \<Rightarrow> hd_fail (RtErrInvalidRequest, [])
      | Inl (Some f) \<Rightarrow>
          if f \<noteq> [] then hd_fail (rt_WithField RtErrInvalidRequest (leaf_field f))
          else hd_fail (RtErrInvalidRequest, []))"

definition path_checked :: "(string \<Rightarrow> bool) \<Rightarrow> go_error \<Rightarrow> string \<Rightarrow> ('s, string) hd" where
  "path_checked ok e v = (if \<not> ok v then hd_fail (e, []) else hd_ret v)"

definition pathUserID :: "http_ctx \<Rightarrow> ('s, string) hd" where
  "pathUserID c = path_checked IsValidUserID RtErrInvalidUserID (Param c ''user_id'')"
definition pathRoleName :: "http_ctx \<Rightarrow> ('s, string) hd" where
  "pathRoleName c = path_checked IsValidRoleName RtErrInvalidRoleName (Param c ''role_name'')"
definition pathSessionID :: "http_ctx \<Rightarrow> ('s, string) hd" where
  "pathSessionID c = path_checked IsValidUserID RtErrInvalidSessionID (Param c ''session_id'')"
definition pathInvitationID :: "http_ctx \<Rightarrow> ('s, string) hd" where
  "pathInvitationID c = path_checked IsValidUserID RtErrInvitationNotFound (Param c ''invitation_id'')"

definition guardPrivilegedRoles :: "'s handler_env \<Rightarrow> http_ctx \<Rightarrow> string list \<Rightarrow> ('s, unit) hd" where
  "guardPrivilegedRoles h c names =
     (case PrincipalFrom c of
        None \<Rightarrow> hd_ret ()
      | Some p \<Rightarrow>
          if \<not> IsProject p then hd_ret ()
          else if list_ex (IsProtectedRoleName (sv_u (he_service h))) names
          then hd_fail (RtErrRolePrivileged, []) else hd_ret ())"

text \<open>A service call on the resolved provider; a mutation then records its events,
  which may name what the call returned (nothing on an error).\<close>

definition rt_call ::
  "'s handler_env \<Rightarrow> resolved \<Rightarrow> resource_kind \<Rightarrow> ('s identity_provider \<Rightarrow> ('s, 'a) idp_call) \<Rightarrow> ('s, 'a) hd" where
  "rt_call h sc k svc s =
     (case svc (he_remote h (rd_Provider sc)) (rt_realm s) of
        (Inl e, realm) \<Rightarrow> (Inl (translateIdentityError k e), s\<lparr> rt_realm := realm \<rparr>)
      | (Inr x, realm) \<Rightarrow> (Inr x, s\<lparr> rt_realm := realm \<rparr>))"

definition rt_mutate ::
  "'s handler_env \<Rightarrow> http_ctx \<Rightarrow> resolved \<Rightarrow> resource_kind \<Rightarrow> ('a option \<Rightarrow> (string \<times> audit_target) list) \<Rightarrow>
     ('s identity_provider \<Rightarrow> ('s, 'a) idp_call) \<Rightarrow> ('s, 'a) hd" where
  "rt_mutate h c sc k evs svc s =
     (let record = \<lambda>x err. map (\<lambda>(action, target).
            RecordWorkspaceMutation (he_ip h) c (rd_WorkspacePublicID sc) action target err) (evs x) in
      case svc (he_remote h (rd_Provider sc)) (rt_realm s) of
        (Inl e, realm) \<Rightarrow>
          (Inl (translateIdentityError k e),
           s\<lparr> rt_realm := realm, rt_events := rt_events s @ record None (Some (he_text h e)) \<rparr>)
      | (Inr x, realm) \<Rightarrow>
          (Inr x, s\<lparr> rt_realm := realm, rt_events := rt_events s @ record (Some x) None \<rparr>))"

definition target_of :: "string \<Rightarrow> string \<Rightarrow> string \<Rightarrow> audit_target" where
  "target_of kind i name = \<lparr> tg_Kind = kind, tg_ID = i, tg_Name = name \<rparr>"

section \<open>The handlers\<close>

definition query_int :: "string \<Rightarrow> int" where
  "query_int v = (if v = [] then 0 else case ParseInt v of None \<Rightarrow> 0 | Some n \<Rightarrow> n)"

definition users_reply :: "int \<Rightarrow> int \<Rightarrow> idp_user list \<Rightarrow> reply" where
  "users_reply first mx us = RpJSON 200 (PlUsers (map NewUserResponse us) first mx (length us))"

definition roles_reply :: "idp_role list \<Rightarrow> reply" where
  "roles_reply rs = RpJSON 200 (PlRoles (map NewRoleResponse rs) (length rs))"

definition sessionsResponse :: "idp_session list \<Rightarrow> reply" where
  "sessionsResponse ss = RpJSON 200 (PlSessions (map NewSessionResponse ss) (length ss))"

definition hd_ListUsers :: "'s handler_env \<Rightarrow> http_ctx \<Rightarrow> ('s, reply) hd" where
  "hd_ListUsers h c = hd_then (rt_read h c) (\<lambda>sc.
     let q = ClampListUsersQuery \<lparr> uq_Search = he_query h ''search'', uq_First = query_int (he_query h ''first''),
                                   uq_Max = query_int (he_query h ''max'') \<rparr> in
     hd_then (rt_call h sc kindUser (\<lambda>P. sv_ListUsers P q)) (\<lambda>us. hd_ret (users_reply (uq_First q) (uq_Max q) us)))"

definition hd_CreateUser :: "'s handler_env \<Rightarrow> http_ctx \<Rightarrow> create_user_request decoded \<Rightarrow> ('s, reply) hd" where
  "hd_CreateUser h c body = hd_then (rt_write h c) (\<lambda>sc. hd_then (rt_bind body) (\<lambda>req.
     hd_then (rt_mutate h c sc kindUser
         (\<lambda>u. [(''user.created'', target_of ''user'' (case u of None \<Rightarrow> [] | Some u \<Rightarrow> us_ID u) (cur_Email req))])
         (\<lambda>P. sv_CreateUser (he_service h) P req))
       (\<lambda>u. hd_ret (RpJSON 201 (PlUser (NewUserResponse u))))))"

definition hd_GetUser :: "'s handler_env \<Rightarrow> http_ctx \<Rightarrow> ('s, reply) hd" where
  "hd_GetUser h c = hd_then (rt_read h c) (\<lambda>sc. hd_then (pathUserID c) (\<lambda>i.
     hd_then (rt_call h sc kindUser (\<lambda>P. sv_GetUser P i)) (\<lambda>u. hd_ret (RpJSON 200 (PlUser (NewUserResponse u))))))"

definition hd_UpdateUser :: "'s handler_env \<Rightarrow> http_ctx \<Rightarrow> update_user_request decoded \<Rightarrow> ('s, reply) hd" where
  "hd_UpdateUser h c body = hd_then (rt_write h c) (\<lambda>sc. hd_then (pathUserID c) (\<lambda>i. hd_then (rt_bind body) (\<lambda>req.
     hd_then (rt_mutate h c sc kindUser
         (\<lambda>u. [(''user.updated'', target_of ''user'' i (case u of None \<Rightarrow> [] | Some u \<Rightarrow> us_Email u))])
         (\<lambda>P. sv_UpdateUser (he_service h) P (callerSubject c) i req))
       (\<lambda>u. hd_ret (RpJSON 200 (PlUser (NewUserResponse u)))))))"

definition hd_DeleteUser :: "'s handler_env \<Rightarrow> http_ctx \<Rightarrow> ('s, reply) hd" where
  "hd_DeleteUser h c = hd_then (rt_write h c) (\<lambda>sc. hd_then (pathUserID c) (\<lambda>i.
     hd_then (rt_mutate h c sc kindUser (\<lambda>_. [(''user.deleted'', target_of ''user'' i [])])
         (\<lambda>P. sv_DeleteUser P (callerSubject c) i)) (\<lambda>_. hd_ret (RpStatus 204))))"

definition hd_ListRoles :: "'s handler_env \<Rightarrow> http_ctx \<Rightarrow> ('s, reply) hd" where
  "hd_ListRoles h c = hd_then (rt_read h c) (\<lambda>sc.
     hd_then (rt_call h sc kindRole sv_ListRoles) (\<lambda>rs. hd_ret (roles_reply rs)))"

definition hd_CreateRole :: "'s handler_env \<Rightarrow> http_ctx \<Rightarrow> create_role_request decoded \<Rightarrow> ('s, reply) hd" where
  "hd_CreateRole h c body = hd_then (rt_write h c) (\<lambda>sc. hd_then (rt_bind body) (\<lambda>req.
     hd_then (rt_mutate h c sc kindRole (\<lambda>_. [(''role.created'', target_of ''role'' (crr_Name req) (crr_Name req))])
         (\<lambda>P. sv_CreateRole (he_service h) P req))
       (\<lambda>r. hd_ret (RpJSON 201 (PlRole (NewRoleResponse r))))))"

definition hd_GetRole :: "'s handler_env \<Rightarrow> http_ctx \<Rightarrow> ('s, reply) hd" where
  "hd_GetRole h c = hd_then (rt_read h c) (\<lambda>sc. hd_then (pathRoleName c) (\<lambda>n.
     hd_then (rt_call h sc kindRole (\<lambda>P. sv_GetRole P n)) (\<lambda>r. hd_ret (RpJSON 200 (PlRole (NewRoleResponse r))))))"

definition hd_UpdateRole :: "'s handler_env \<Rightarrow> http_ctx \<Rightarrow> update_role_request decoded \<Rightarrow> ('s, reply) hd" where
  "hd_UpdateRole h c body = hd_then (rt_write h c) (\<lambda>sc. hd_then (pathRoleName c) (\<lambda>n. hd_then (rt_bind body) (\<lambda>req.
     hd_then (rt_mutate h c sc kindRole (\<lambda>_. [(''role.updated'', target_of ''role'' n n)])
         (\<lambda>P. sv_UpdateRole (he_service h) P n req))
       (\<lambda>r. hd_ret (RpJSON 200 (PlRole (NewRoleResponse r)))))))"

definition hd_DeleteRole :: "'s handler_env \<Rightarrow> http_ctx \<Rightarrow> ('s, reply) hd" where
  "hd_DeleteRole h c = hd_then (rt_write h c) (\<lambda>sc. hd_then (pathRoleName c) (\<lambda>n.
     hd_then (rt_mutate h c sc kindRole (\<lambda>_. [(''role.deleted'', target_of ''role'' n n)])
         (\<lambda>P. sv_DeleteRole (he_service h) P n)) (\<lambda>_. hd_ret (RpStatus 204))))"

definition hd_ListRoleUsers :: "'s handler_env \<Rightarrow> http_ctx \<Rightarrow> ('s, reply) hd" where
  "hd_ListRoleUsers h c = hd_then (rt_read h c) (\<lambda>sc. hd_then (pathRoleName c) (\<lambda>n.
     hd_then (rt_call h sc kindRole (\<lambda>P. sv_ListUsersByRole P n)) (\<lambda>us. hd_ret (users_reply 0 0 us))))"

definition hd_ListUserRoles :: "'s handler_env \<Rightarrow> http_ctx \<Rightarrow> ('s, reply) hd" where
  "hd_ListUserRoles h c = hd_then (rt_read h c) (\<lambda>sc. hd_then (pathUserID c) (\<lambda>i.
     hd_then (rt_call h sc kindUser (\<lambda>P. sv_ListUserRoles P i)) (\<lambda>rs. hd_ret (roles_reply rs))))"

definition hd_AssignRolesToUser :: "'s handler_env \<Rightarrow> http_ctx \<Rightarrow> string list decoded \<Rightarrow> ('s, reply) hd" where
  "hd_AssignRolesToUser h c body = hd_then (rt_write h c) (\<lambda>sc. hd_then (pathUserID c) (\<lambda>i.
     hd_then (rt_bind body) (\<lambda>roles. hd_then (guardPrivilegedRoles h c roles) (\<lambda>_.
     hd_then (rt_mutate h c sc kindUser (\<lambda>_. [(''user.roles_granted'', target_of ''user'' i [])])
         (\<lambda>P. sv_AssignRolesToUser (he_service h) P i roles)) (\<lambda>_. hd_ret (RpStatus 204))))))"

definition hd_UnassignRoleFromUser :: "'s handler_env \<Rightarrow> http_ctx \<Rightarrow> ('s, reply) hd" where
  "hd_UnassignRoleFromUser h c = hd_then (rt_write h c) (\<lambda>sc. hd_then (pathUserID c) (\<lambda>i.
     hd_then (pathRoleName c) (\<lambda>n. hd_then (guardPrivilegedRoles h c [n]) (\<lambda>_.
     hd_then (rt_mutate h c sc kindUser (\<lambda>_. [(''user.role_revoked'', target_of ''user'' i n)])
         (\<lambda>P. sv_UnassignRolesFromUser (he_service h) P (callerSubject c) i [n])) (\<lambda>_. hd_ret (RpStatus 204))))))"

definition hd_ListInvitations :: "'s handler_env \<Rightarrow> http_ctx \<Rightarrow> ('s, reply) hd" where
  "hd_ListInvitations h c = hd_then (rt_read h c) (\<lambda>sc.
     hd_then (rt_call h sc kindInvitation sv_ListInvitations) (\<lambda>is.
       hd_ret (RpJSON 200 (PlInvitations (map NewInvitationResponse is) (length is)))))"

definition hd_CreateInvitation ::
  "'s handler_env \<Rightarrow> http_ctx \<Rightarrow> create_invitation_request decoded \<Rightarrow> ('s, reply) hd" where
  "hd_CreateInvitation h c body = hd_then (rt_write h c) (\<lambda>sc. hd_then (rt_bind body) (\<lambda>req.
     hd_then (rt_mutate h c sc kindInvitation
         (\<lambda>i. let iid = (case i of None \<Rightarrow> [] | Some i \<Rightarrow> iv_ID i) in
            [(''invitation.created'', target_of ''invitation'' iid (cir_Email req)),
             (''user.created'', target_of ''user'' iid (cir_Email req))])
         (\<lambda>P. sv_CreateInvitation (he_service h) P req (callerLabel c)))
       (\<lambda>i. hd_ret (RpJSON 201 (PlInvitation (NewInvitationResponse i))))))"

definition hd_ResendInvitation :: "'s handler_env \<Rightarrow> http_ctx \<Rightarrow> ('s, reply) hd" where
  "hd_ResendInvitation h c = hd_then (rt_write h c) (\<lambda>sc. hd_then (pathInvitationID c) (\<lambda>i.
     hd_then (rt_mutate h c sc kindInvitation (\<lambda>_. [(''invitation.resent'', target_of ''invitation'' i [])])
         (\<lambda>P. sv_ResendInvitation P i))
       (\<lambda>iv. hd_ret (RpJSON 200 (PlInvitation (NewInvitationResponse iv))))))"

definition hd_DeleteInvitation :: "'s handler_env \<Rightarrow> http_ctx \<Rightarrow> ('s, reply) hd" where
  "hd_DeleteInvitation h c = hd_then (rt_write h c) (\<lambda>sc. hd_then (pathInvitationID c) (\<lambda>i.
     hd_then (rt_mutate h c sc kindInvitation (\<lambda>_. [(''invitation.revoked'', target_of ''invitation'' i [])])
         (\<lambda>P. sv_DeleteInvitation P (callerSubject c) i)) (\<lambda>_. hd_ret (RpStatus 204))))"

definition hd_ListSessions :: "'s handler_env \<Rightarrow> http_ctx \<Rightarrow> ('s, reply) hd" where
  "hd_ListSessions h c = hd_then (rt_read h c) (\<lambda>sc.
     hd_then (rt_call h sc kindSession sv_ListSessions) (\<lambda>ss. hd_ret (sessionsResponse ss)))"

definition hd_DeleteSession :: "'s handler_env \<Rightarrow> http_ctx \<Rightarrow> ('s, reply) hd" where
  "hd_DeleteSession h c = hd_then (rt_write h c) (\<lambda>sc. hd_then (pathSessionID c) (\<lambda>i.
     hd_then (rt_mutate h c sc kindSession (\<lambda>_. [(''session.revoked'', target_of ''session'' i [])])
         (\<lambda>P. sv_DeleteSession P i)) (\<lambda>_. hd_ret (RpStatus 204))))"

definition hd_ListUserSessions :: "'s handler_env \<Rightarrow> http_ctx \<Rightarrow> ('s, reply) hd" where
  "hd_ListUserSessions h c = hd_then (rt_read h c) (\<lambda>sc. hd_then (pathUserID c) (\<lambda>i.
     hd_then (rt_call h sc kindUser (\<lambda>P. sv_ListUserSessions P i)) (\<lambda>ss. hd_ret (sessionsResponse ss))))"

definition hd_LogoutUserSessions :: "'s handler_env \<Rightarrow> http_ctx \<Rightarrow> ('s, reply) hd" where
  "hd_LogoutUserSessions h c = hd_then (rt_write h c) (\<lambda>sc. hd_then (pathUserID c) (\<lambda>i.
     hd_then (rt_mutate h c sc kindUser (\<lambda>_. [(''user.sessions_logged_out'', target_of ''user'' i [])])
         (\<lambda>P. sv_LogoutUserSessions P i)) (\<lambda>_. hd_ret (RpStatus 204))))"

definition hd_ResetUserPassword :: "'s handler_env \<Rightarrow> http_ctx \<Rightarrow> ('s, reply) hd" where
  "hd_ResetUserPassword h c = hd_then (rt_write h c) (\<lambda>sc. hd_then (pathUserID c) (\<lambda>i.
     hd_then (rt_mutate h c sc kindUser (\<lambda>_. [(''user.password_reset'', target_of ''user'' i [])])
         (\<lambda>P. sv_SendResetPasswordEmail P i)) (\<lambda>_. hd_ret (RpStatus 202))))"

definition hd_SetUserPassword :: "'s handler_env \<Rightarrow> http_ctx \<Rightarrow> (string \<times> bool) decoded \<Rightarrow> ('s, reply) hd" where
  "hd_SetUserPassword h c body = hd_then (rt_write h c) (\<lambda>sc. hd_then (pathUserID c) (\<lambda>i.
     hd_then (rt_bind body) (\<lambda>(password, temporary).
     hd_then (rt_mutate h c sc kindUser (\<lambda>_. [(''user.password_reset'', target_of ''user'' i [])])
         (\<lambda>P. sv_SetUserPassword P i password temporary)) (\<lambda>_. hd_ret (RpStatus 204)))))"

text \<open>The route table.\<close>

datatype rt_request =
    GetUsers
  | PostUser "create_user_request decoded"
  | GetUser
  | PatchUser "update_user_request decoded"
  | DeleteUser
  | GetRoles
  | PostRole "create_role_request decoded"
  | GetRole
  | PatchRole "update_role_request decoded"
  | DeleteRole
  | GetRoleUsers
  | GetUserRoles
  | PostUserRoles "string list decoded"
  | DeleteUserRole
  | GetInvitations
  | PostInvitation "create_invitation_request decoded"
  | PostResend
  | DeleteInvitation
  | GetSessions
  | DeleteSession
  | GetUserSessions
  | DeleteUserSessions
  | PostResetPassword
  | PutPassword "(string \<times> bool) decoded"

fun handler_of :: "'s handler_env \<Rightarrow> http_ctx \<Rightarrow> rt_request \<Rightarrow> ('s, reply) hd" where
  "handler_of h c GetUsers = hd_ListUsers h c"
| "handler_of h c (PostUser b) = hd_CreateUser h c b"
| "handler_of h c GetUser = hd_GetUser h c"
| "handler_of h c (PatchUser b) = hd_UpdateUser h c b"
| "handler_of h c DeleteUser = hd_DeleteUser h c"
| "handler_of h c GetRoles = hd_ListRoles h c"
| "handler_of h c (PostRole b) = hd_CreateRole h c b"
| "handler_of h c GetRole = hd_GetRole h c"
| "handler_of h c (PatchRole b) = hd_UpdateRole h c b"
| "handler_of h c DeleteRole = hd_DeleteRole h c"
| "handler_of h c GetRoleUsers = hd_ListRoleUsers h c"
| "handler_of h c GetUserRoles = hd_ListUserRoles h c"
| "handler_of h c (PostUserRoles b) = hd_AssignRolesToUser h c b"
| "handler_of h c DeleteUserRole = hd_UnassignRoleFromUser h c"
| "handler_of h c GetInvitations = hd_ListInvitations h c"
| "handler_of h c (PostInvitation b) = hd_CreateInvitation h c b"
| "handler_of h c PostResend = hd_ResendInvitation h c"
| "handler_of h c DeleteInvitation = hd_DeleteInvitation h c"
| "handler_of h c GetSessions = hd_ListSessions h c"
| "handler_of h c DeleteSession = hd_DeleteSession h c"
| "handler_of h c GetUserSessions = hd_ListUserSessions h c"
| "handler_of h c DeleteUserSessions = hd_LogoutUserSessions h c"
| "handler_of h c PostResetPassword = hd_ResetUserPassword h c"
| "handler_of h c (PutPassword b) = hd_SetUserPassword h c b"

definition rt_handle :: "'s handler_env \<Rightarrow> http_ctx \<Rightarrow> rt_request \<Rightarrow> 's rt_state \<Rightarrow> reply \<times> 's rt_state" where
  "rt_handle h c rq = respond_with c (handler_of h c rq)"

definition mutating :: "rt_request \<Rightarrow> bool" where
  "mutating rq \<longleftrightarrow>
     (case rq of GetUsers \<Rightarrow> False | GetUser \<Rightarrow> False | GetRoles \<Rightarrow> False | GetRole \<Rightarrow> False | GetRoleUsers \<Rightarrow> False
      | GetUserRoles \<Rightarrow> False | GetInvitations \<Rightarrow> False | GetSessions \<Rightarrow> False | GetUserSessions \<Rightarrow> False
      | _ \<Rightarrow> True)"

end
