(* ===== verification/Authn.thy ===== *)
theory Authn
  imports HttpContext
begin

text \<open>
  \<^verbatim>\<open>internal/auth\<close>: who the caller is. Bearer extraction and the
  authentication middlewares of \<^verbatim>\<open>middleware.go\<close> and \<^verbatim>\<open>principal.go\<close>,
  the role gates, and RequireLiveAdmin of \<^verbatim>\<open>admin_check.go\<close>.

  The OIDC provider, the project authenticator and the live-admin checker are
  interfaces of the source (AuthProvider, ProjectAuthenticator, AdminChecker):
  here functions over an abstract state \<open>'s\<close>, the arguments of every
  middleware that calls them. A statement for all such functions and states
  therefore says when they are called: a result that keeps the state for every
  checker is one that never called it.
\<close>

type_synonym 's auth_provider = "string \<Rightarrow> 's \<Rightarrow> (string + identity) \<times> 's"
type_synonym 's project_authenticator =
  "string \<Rightarrow> 's \<Rightarrow> (string + project_principal option) \<times> 's"
type_synonym 's admin_checker = "string \<Rightarrow> 's \<Rightarrow> (string + bool) \<times> 's"

definition ProjectTokenPrefix :: string where "ProjectTokenPrefix = ''lw_sk_''"

section \<open>extractBearer\<close>

definition extractBearer :: "http_ctx \<Rightarrow> auth_event_kind + string" where
  "extractBearer c =
     (let h = GetHeader c ''Authorization'' in
      if h = [] then Inl EventMissingHeader
      else if \<not> has_prefix ''Bearer '' h then Inl EventMalformedHeader
      else let tok = trim_space (drop (length ''Bearer '') h) in
        if tok = [] then Inl EventMalformedHeader else Inr tok)"

section \<open>AuthenticatePrincipal\<close>

definition writeAuthError :: "nat \<Rightarrow> string \<Rightarrow> string \<Rightarrow> http_ctx \<Rightarrow> http_ctx" where
  "writeAuthError status code message c =
     abort_with status (Envelope code message (FromContext c)) c"

definition abortUnauthorized :: "http_ctx \<Rightarrow> http_ctx" where
  "abortUnauthorized c =
     writeAuthError 401 ''credential_invalid'' ''The provided credential is not valid''
       (set_header ''WWW-Authenticate'' ''Bearer error=\"invalid_token\"'' c)"

record 's principal_config =
  cfg_Provider :: "'s auth_provider option"
  cfg_Projects :: "'s project_authenticator option"

definition authenticateOperator ::
  "'s auth_provider option \<Rightarrow> string \<Rightarrow> 's middleware" where
  "authenticateOperator p raw sc =
     (let (s, c) = sc in
      case p of
        None \<Rightarrow> (s, abortUnauthorized c)
      | Some validate \<Rightarrow>
          (case validate raw s of
             (Inl err, s') \<Rightarrow> (s', abortUnauthorized (EmitEvent EventValidationFailed [] err c))
           | (Inr i, s') \<Rightarrow>
               (s', EmitEvent EventTokenValidated (id_Subject i) []
                      (StorePrincipal (NewOperatorPrincipal i) (StoreIdentity i c)))))"

definition authenticateProject ::
  "'s project_authenticator option \<Rightarrow> string \<Rightarrow> 's middleware" where
  "authenticateProject pa raw sc =
     (let (s, c) = sc in
      case pa of
        None \<Rightarrow> (s, abortUnauthorized c)
      | Some authenticate \<Rightarrow>
          (case authenticate raw s of
             (Inl err, s') \<Rightarrow>
               (s', writeAuthError 503 ''authorization_unavailable''
                      ''Credential verification is temporarily unavailable''
                      (EmitEvent EventValidationFailed []
                        (''project credential lookup failed: '' @ err) c))
           | (Inr None, s') \<Rightarrow>
               (s', abortUnauthorized
                      (EmitEvent EventValidationFailed [] ''project credential rejected'' c))
           | (Inr (Some pp), s') \<Rightarrow>
               (s', EmitEvent EventTokenValidated (pp_ProjectID pp) []
                      (StorePrincipal (NewProjectPrincipal pp) c))))"

definition AuthenticatePrincipal :: "'s principal_config \<Rightarrow> 's middleware" where
  "AuthenticatePrincipal cfg sc =
     (case extractBearer (snd sc) of
        Inl kind \<Rightarrow>
          (fst sc, abortUnauthorized
             (EmitEvent kind [] ''missing or malformed Authorization header'' (snd sc)))
      | Inr raw \<Rightarrow>
          if has_prefix ProjectTokenPrefix raw
          then authenticateProject (cfg_Projects cfg) raw sc
          else authenticateOperator (cfg_Provider cfg) raw sc)"

section \<open>The gates of the older surface\<close>

definition RequireAuth :: "'s auth_provider \<Rightarrow> 's middleware" where
  "RequireAuth validate sc =
     (let (s, c) = sc in
      case extractBearer c of
        Inl kind \<Rightarrow>
          (s, abort_with 401 (Legacy ''unauthorized'')
                (EmitEvent kind [] ''missing or malformed Authorization header'' c))
      | Inr raw \<Rightarrow>
          (case validate raw s of
             (Inl err, s') \<Rightarrow>
               (s', abort_with 401 (Legacy ''unauthorized'')
                      (EmitEvent EventValidationFailed [] err c))
           | (Inr i, s') \<Rightarrow>
               (s', EmitEvent EventTokenValidated (id_Subject i) [] (StoreIdentity i c))))"

definition RequireRole :: "string \<Rightarrow> 's middleware" where
  "RequireRole role sc =
     (let (s, c) = sc in
      case IdentityFrom c of
        None \<Rightarrow> (s, abort_with 401 (Legacy ''unauthorized'') c)
      | Some i \<Rightarrow>
          if \<not> HasRole i role
          then (s, abort_with 403 (Legacy ''forbidden'')
                     (EmitEvent EventForbidden (id_Subject i) (''missing role: '' @ role) c))
          else (s, c))"

fun join :: "string \<Rightarrow> string list \<Rightarrow> string" where
  "join sep [] = []"
| "join sep [x] = x"
| "join sep (x # y # xs) = x @ sep @ join sep (y # xs)"

fun any_role :: "identity \<Rightarrow> string list \<Rightarrow> bool" where
  "any_role i [] = False"
| "any_role i (r # rs) = (if HasRole i r then True else any_role i rs)"

definition RequireAnyRole :: "string list \<Rightarrow> 's middleware" where
  "RequireAnyRole roles sc =
     (let (s, c) = sc in
      case IdentityFrom c of
        None \<Rightarrow> (s, abort_with 401 (Legacy ''unauthorized'') c)
      | Some i \<Rightarrow>
          if any_role i roles then (s, c)
          else (s, abort_with 403 (Legacy ''forbidden'')
                     (EmitEvent EventForbidden (id_Subject i)
                       (''missing any of roles: '' @ join '','' roles) c)))"

definition RequireLiveAdmin :: "'s admin_checker \<Rightarrow> 's middleware" where
  "RequireLiveAdmin isAdmin sc =
     (let (s, c) = sc in
      case IdentityFrom c of
        None \<Rightarrow> (s, abort_with 401 (Legacy ''unauthorized'') c)
      | Some i \<Rightarrow>
          if id_Subject i = [] then (s, abort_with 401 (Legacy ''unauthorized'') c)
          else (case isAdmin (id_Subject i) s of
             (Inl err, s') \<Rightarrow>
               (s', abort_with 503 (Legacy ''authorization check unavailable'')
                      (EmitEvent EventForbidden (id_Subject i)
                        (''live admin check failed: '' @ err) c))
           | (Inr False, s') \<Rightarrow>
               (s', abort_with 403 (Legacy ''forbidden'')
                      (EmitEvent EventForbidden (id_Subject i)
                        ''live admin check denied: token role no longer present server-side'' c))
           | (Inr True, s') \<Rightarrow> (s', c)))"

section \<open>Lemmas\<close>

lemma any_role_iff [simp]: "any_role i rs \<longleftrightarrow> set rs \<inter> set (id_Roles i) \<noteq> {}"
  by (induction rs) auto

lemma abortUnauthorized_rs [simp]:
  "rs_abort (abortUnauthorized c) = Some (401, Envelope ''credential_invalid''
     ''The provided credential is not valid'' (FromContext c))"
  "cx_principal (abortUnauthorized c) = cx_principal c"
  "cx_identity (abortUnauthorized c) = cx_identity c"
  by (simp_all add: abortUnauthorized_def writeAuthError_def abort_with_def set_header_def
      FromContext_def)

lemma writeAuthError_rs [simp]:
  "rs_abort (writeAuthError st cd m c) = Some (st, Envelope cd m (FromContext c))"
  "cx_principal (writeAuthError st cd m c) = cx_principal c"
  "cx_identity (writeAuthError st cd m c) = cx_identity c"
  by (simp_all add: writeAuthError_def abort_with_def)

lemma EmitEvent_cx [simp]:
  "cx_principal (EmitEvent k s r c) = cx_principal c"
  "cx_identity (EmitEvent k s r c) = cx_identity c"
  by (simp_all add: EmitEvent_def)

lemma Store_cx [simp]:
  "cx_principal (StorePrincipal p c) = Some p" "cx_identity (StorePrincipal p c) = cx_identity c"
  "cx_identity (StoreIdentity i c) = Some i" "cx_principal (StoreIdentity i c) = cx_principal c"
  "rs_abort (StorePrincipal p c) = rs_abort c" "rs_abort (StoreIdentity i c) = rs_abort c"
  by (simp_all add: StorePrincipal_def StoreIdentity_def)

lemmas authn_defs = AuthenticatePrincipal_def authenticateOperator_def authenticateProject_def

lemma extractBearer_token:
  "extractBearer c = Inr tok \<Longrightarrow> tok \<noteq> [] \<and> trim_space tok = tok"
  by (auto simp: extractBearer_def Let_def split: if_splits)

text \<open>The two credential spaces never mix. For a bearer value starting with the
  project prefix the outcome does not depend on the OIDC provider, and for any
  other value (or none) it does not depend on the project authenticator, so
  neither is ever handed the other's token; without a usable header neither is
  called.\<close>

theorem credential_spaces_disjoint:
  "(case extractBearer c of
      Inl _ \<Rightarrow> fst (AuthenticatePrincipal cfg (s, c)) = s \<and>
               AuthenticatePrincipal cfg (s, c) =
                 AuthenticatePrincipal \<lparr> cfg_Provider = prov, cfg_Projects = proj \<rparr> (s, c)
    | Inr raw \<Rightarrow>
        if has_prefix ProjectTokenPrefix raw
        then AuthenticatePrincipal cfg (s, c) = AuthenticatePrincipal (cfg\<lparr> cfg_Provider := prov \<rparr>) (s, c)
        else AuthenticatePrincipal cfg (s, c) = AuthenticatePrincipal (cfg\<lparr> cfg_Projects := proj \<rparr>) (s, c))"
  by (auto simp: AuthenticatePrincipal_def split: sum.splits)

text \<open>The answer the chain acts on: an abort, or which principal was stored.\<close>

definition authenticated_as :: "'s principal_config \<Rightarrow> 's \<Rightarrow> http_ctx \<Rightarrow> principal option" where
  "authenticated_as cfg s c =
     (case extractBearer c of
        Inl _ \<Rightarrow> None
      | Inr raw \<Rightarrow>
          if has_prefix ProjectTokenPrefix raw
          then (case cfg_Projects cfg of
                  None \<Rightarrow> None
                | Some authenticate \<Rightarrow>
                    (case fst (authenticate raw s) of
                       Inr (Some pp) \<Rightarrow> Some (NewProjectPrincipal pp)
                     | _ \<Rightarrow> None))
          else (case cfg_Provider cfg of
                  None \<Rightarrow> None
                | Some validate \<Rightarrow>
                    (case fst (validate raw s) of
                       Inr i \<Rightarrow> Some (NewOperatorPrincipal i)
                     | Inl _ \<Rightarrow> None)))"

lemma AuthenticatePrincipal_outcome:
  assumes "rs_abort c = None" and "snd (AuthenticatePrincipal cfg (s, c)) = c'"
  shows "case authenticated_as cfg s c of
      None \<Rightarrow> rs_abort c' \<noteq> None \<and> cx_principal c' = cx_principal c \<and> cx_identity c' = cx_identity c
    | Some p \<Rightarrow> rs_abort c' = None \<and> cx_principal c' = Some p \<and>
        cx_identity c' = (if IsOperator p then pr_Operator p else cx_identity c)"
  using assms(1) unfolding assms(2) [symmetric]
  by (auto simp: authn_defs authenticated_as_def split: sum.splits option.splits prod.splits)

text \<open>The request continues exactly when a credential was accepted, and then the
  stored principal satisfies the union's invariant (exactly one side, matching
  the type). A machine caller never produces an Identity: what operator-shaped
  code reads is untouched by it.\<close>

theorem project_never_stores_identity:
  assumes "rs_abort c = None" and "cx_principal c = None"
    and "snd (AuthenticatePrincipal cfg (s, c)) = c'"
  shows "(rs_abort c' = None \<longleftrightarrow> cx_principal c' \<noteq> None) \<and>
    (case cx_principal c' of
       None \<Rightarrow> cx_identity c' = cx_identity c
     | Some p \<Rightarrow> IsOperator p \<noteq> IsProject p \<and>
         (pr_Operator p = None) \<noteq> (pr_Project p = None) \<and>
         cx_identity c' = (if IsProject p then cx_identity c else pr_Operator p))"
proof -
  have union: "IsOperator p \<noteq> IsProject p \<and> (pr_Operator p = None) \<noteq> (pr_Project p = None)"
    if "authenticated_as cfg s c = Some p" for p
    using that by (auto simp: authenticated_as_def NewOperatorPrincipal_def NewProjectPrincipal_def
        IsOperator_def IsProject_def split: sum.splits option.splits if_splits)
  show ?thesis
    using AuthenticatePrincipal_outcome [OF assms(1) assms(3)] assms(2) union
    by (auto split: option.splits)
qed

definition demo_project :: project_principal where
  "demo_project = \<lparr> pp_ProjectID = ''prj_1'', pp_ProjectName = ''billing'',
     pp_CredentialID = ''key_1'', pp_WorkspaceID = ''ws_0f8fad5b-d9cb-469f-a165-70867728950e'',
     pp_Scopes = [''users:read''] \<rparr>"

theorem project_never_stores_identity_witness:
  "let c' = snd (AuthenticatePrincipal
       \<lparr> cfg_Provider = None, cfg_Projects = Some (\<lambda>tok s. (Inr (Some demo_project), s)) \<rparr>
       ((), empty_ctx\<lparr> rq_headers := [(''Authorization'', ''Bearer lw_sk_a'')] \<rparr>))
   in cx_principal c' = Some (NewProjectPrincipal demo_project) \<and> cx_identity c' = None"
proof -
  let ?cfg = "\<lparr> cfg_Provider = None, cfg_Projects = Some (\<lambda>tok s. (Inr (Some demo_project), s)) \<rparr>
    :: unit principal_config"
  let ?c = "empty_ctx\<lparr> rq_headers := [(''Authorization'', ''Bearer lw_sk_a'')] \<rparr>"
  have e: "extractBearer ?c = Inr ''lw_sk_a''" by code_simp
  have "cx_principal (snd (AuthenticatePrincipal ?cfg ((), ?c))) = Some (NewProjectPrincipal demo_project)"
    by (simp add: AuthenticatePrincipal_def e has_prefix_def ProjectTokenPrefix_def
        authenticateProject_def)
  with project_never_stores_identity [of ?c ?cfg "()"] show ?thesis
    by (simp add: empty_ctx_def Let_def)
qed

end
