(* ===== verification/Token.thy ===== *)
theory Token
  imports Authn "HOL-Library.Word"
begin

unbundle bit_operations_syntax

text \<open>
  \<^verbatim>\<open>internal/project/token.go\<close>: minting a project credential, the base32
  spelling of its two segments, and the local parse that runs before any
  database work.

  Parameters: the random bytes, and \<open>sha\<close>, SHA-256.

  Lemmas: the encoding has the fixed lengths and alphabet and is injective, and
  a minted token parses back into its segments.
\<close>

definition lookupBytes :: nat where "lookupBytes = 10"
definition secretBytes :: nat where "secretBytes = 32"
definition lookupLen :: nat where "lookupLen = 16"
definition secretLen :: nat where "secretLen = 52"

section \<open>Base32\<close>

text \<open>RFC 4648 without padding: the bits of the input, most significant first, in
  groups of five; the last group is filled with zero bits.\<close>

definition tokenAlphabet :: string where
  "tokenAlphabet = ''abcdefghijklmnopqrstuvwxyz234567''"

definition byte_bits :: "8 word \<Rightarrow> bool list" where
  "byte_bits b = map (\<lambda>i. bit b (7 - i)) [0..<8]"

definition quintet :: "bool \<Rightarrow> bool \<Rightarrow> bool \<Rightarrow> bool \<Rightarrow> bool \<Rightarrow> nat" where
  "quintet a b c d e = 16 * of_bool a + 8 * of_bool b + 4 * of_bool c + 2 * of_bool d + of_bool e"

fun quintets :: "bool list \<Rightarrow> nat list" where
  "quintets (a # b # c # d # e # bs) = quintet a b c d e # quintets bs"
| "quintets [a, b, c, d] = [quintet a b c d False]"
| "quintets [a, b, c] = [quintet a b c False False]"
| "quintets [a, b] = [quintet a b False False False]"
| "quintets [a] = [quintet a False False False False]"
| "quintets [] = []"

definition EncodeToString :: "8 word list \<Rightarrow> string" where
  "EncodeToString bytes = map ((!) tokenAlphabet) (quintets (concat (map byte_bits bytes)))"

section \<open>Minting and parsing\<close>

record minted_credential =
  mc_KeyPrefix :: string
  mc_KeyHash :: "8 word list"
  mc_Token :: string

definition hashSecret :: "(string \<Rightarrow> 8 word list) \<Rightarrow> string \<Rightarrow> 8 word list" where
  "hashSecret sha secret = sha secret"

definition MintCredential ::
  "(string \<Rightarrow> 8 word list) \<Rightarrow> 'e + 8 word list \<Rightarrow> 'e + 8 word list \<Rightarrow> 'e + minted_credential" where
  "MintCredential sha lookup_rnd secret_rnd =
     bind_result lookup_rnd (\<lambda>lookupRaw.
     bind_result secret_rnd (\<lambda>secretRaw.
       let lookup = EncodeToString lookupRaw; secret = EncodeToString secretRaw in
       Inr \<lparr> mc_KeyPrefix = lookup, mc_KeyHash = hashSecret sha secret,
             mc_Token = ProjectTokenPrefix @ lookup @ ''_'' @ secret \<rparr>))"

record parsed_token =
  pt_lookup :: string
  pt_secret :: string

definition isBase32Lower :: "string \<Rightarrow> bool" where
  "isBase32Lower s = list_all (\<lambda>c. is_lower c \<or> in_range CHR ''2'' CHR ''7'' c) s"

definition parseToken :: "string \<Rightarrow> parsed_token option" where
  "parseToken raw =
     (if \<not> has_prefix ProjectTokenPrefix raw then None
      else case cut_at CHR ''_'' (drop (length ProjectTokenPrefix) raw) of
        None \<Rightarrow> None
      | Some (lookup, secret) \<Rightarrow>
          if length lookup \<noteq> lookupLen \<or> length secret \<noteq> secretLen then None
          else if \<not> isBase32Lower lookup \<or> \<not> isBase32Lower secret then None
          else Some \<lparr> pt_lookup = lookup, pt_secret = secret \<rparr>)"

definition dummyHash :: "(string \<Rightarrow> 8 word list) \<Rightarrow> 8 word list" where
  "dummyHash sha = sha ''lightweight/project-credential/absent''"

text \<open>A comparison is recorded with its operands, so that the work done can be
  stated; \<^verbatim>\<open>subtle.ConstantTimeCompare\<close> answers equality.\<close>

type_synonym comparison = "8 word list \<times> 8 word list"

definition secretMatches ::
  "(string \<Rightarrow> 8 word list) \<Rightarrow> string \<Rightarrow> 8 word list \<Rightarrow> bool \<times> comparison" where
  "secretMatches sha secret stored =
     (let computed = hashSecret sha secret in (computed = stored, (computed, stored)))"

definition compareAgainstDummy :: "(string \<Rightarrow> 8 word list) \<Rightarrow> string \<Rightarrow> comparison" where
  "compareAgainstDummy sha secret = (hashSecret sha secret, dummyHash sha)"

section \<open>Lemmas\<close>

lemma byte_bits_length [simp]: "length (byte_bits b) = 8"
  by (simp add: byte_bits_def)

lemma byte_bits_inj: "byte_bits a = byte_bits b \<Longrightarrow> a = b"
proof (rule bit_word_eqI)
  fix n assume e: "byte_bits a = byte_bits b" and "n < LENGTH(8)"
  then have n: "7 - n < 8" "n \<le> 7" by simp_all
  from e have "byte_bits a ! (7 - n) = byte_bits b ! (7 - n)" by simp
  with n show "bit a n = bit b n" by (simp add: byte_bits_def)
qed

lemma concat_bits_length: "length (concat (map byte_bits bs)) = 8 * length bs"
  by (induction bs) auto

lemma concat_bits_inj:
  "length as = length bs \<Longrightarrow> concat (map byte_bits as) = concat (map byte_bits bs) \<Longrightarrow> as = bs"
  by (induction as bs rule: list_induct2) (auto dest: byte_bits_inj)

lemma quintet_bound: "quintet a b c d e < 32"
  by (cases a; cases b; cases c; cases d; cases e) (simp_all add: quintet_def)

lemma quintet_inj [simp]:
  "quintet a b c d e = quintet a' b' c' d' e' \<longleftrightarrow> a = a' \<and> b = b' \<and> c = c' \<and> d = d' \<and> e = e'"
  by (cases a; cases b; cases c; cases d; cases e; cases a'; cases b'; cases c'; cases d'; cases e')
    (simp_all add: quintet_def)

lemma quintets_length: "length (quintets bs) = (length bs + 4) div 5"
  by (induction bs rule: quintets.induct) auto

lemma quintets_bound: "x \<in> set (quintets bs) \<Longrightarrow> x < 32"
  by (induction bs rule: quintets.induct) (auto simp: quintet_bound)

lemma quintets_inj: "length as = length bs \<Longrightarrow> quintets as = quintets bs \<Longrightarrow> as = bs"
proof (induction as arbitrary: bs rule: quintets.induct)
  case (1 a b c d e as)
  have "length bs = Suc (Suc (Suc (Suc (Suc (length as)))))" using 1(2) by simp
  then obtain a' b' c' d' e' bs' where "bs = a' # b' # c' # d' # e' # bs'"
    unfolding length_Suc_conv by blast
  with 1 show ?case by auto
qed (auto simp: Suc_length_conv length_Suc_conv)

lemma tokenAlphabet_facts:
  "length tokenAlphabet = 32" "distinct tokenAlphabet" "isBase32Lower tokenAlphabet"
  by (simp_all add: tokenAlphabet_def isBase32Lower_def is_lower_def in_range_def less_eq_char_def)

lemma Encode_length: "length (EncodeToString bs) = (8 * length bs + 4) div 5"
  by (simp add: EncodeToString_def quintets_length concat_bits_length)

lemma Encode_alphabet: "isBase32Lower (EncodeToString bs)"
proof -
  have "c \<in> set tokenAlphabet" if "c \<in> set (EncodeToString bs)" for c
    using that quintets_bound tokenAlphabet_facts(1) by (auto simp: EncodeToString_def)
  with tokenAlphabet_facts(3) show ?thesis by (auto simp: isBase32Lower_def list_all_iff)
qed

lemma Encode_inj:
  assumes "length as = length bs" and "EncodeToString as = EncodeToString bs"
  shows "as = bs"
proof -
  let ?q = "\<lambda>xs. quintets (concat (map byte_bits xs))"
  have "inj_on ((!) tokenAlphabet) {..<32}"
    using tokenAlphabet_facts(1,2) by (auto simp: inj_on_def nth_eq_iff_index_eq)
  moreover have "set (?q as) \<union> set (?q bs) \<subseteq> {..<32}" using quintets_bound by auto
  ultimately have "?q as = ?q bs"
    using assms(2) unfolding EncodeToString_def by (metis inj_on_map_eq_map inj_on_subset)
  with assms(1) have "concat (map byte_bits as) = concat (map byte_bits bs)"
    by (intro quintets_inj) (simp_all add: concat_bits_length)
  with assms(1) show ?thesis by (rule concat_bits_inj)
qed

lemma base32_no_separator: "isBase32Lower s \<Longrightarrow> CHR ''_'' \<notin> set s"
  by (auto simp: isBase32Lower_def list_all_iff is_lower_def in_range_def less_eq_char_def)

lemma parseToken_built:
  assumes "length l = 16" "length s = 52" "isBase32Lower l" "isBase32Lower s"
  shows "parseToken (ProjectTokenPrefix @ l @ ''_'' @ s) = Some \<lparr> pt_lookup = l, pt_secret = s \<rparr>"
  using assms base32_no_separator [of l]
  by (simp add: parseToken_def lookupLen_def secretLen_def)

lemma parseToken_Some:
  assumes "parseToken raw = Some p"
  shows "raw = ProjectTokenPrefix @ pt_lookup p @ ''_'' @ pt_secret p"
    and "length (pt_lookup p) = 16" "length (pt_secret p) = 52"
    and "isBase32Lower (pt_lookup p)" "isBase32Lower (pt_secret p)"
  using assms
  by (auto simp: parseToken_def lookupLen_def secretLen_def split: if_splits option.splits
      dest!: has_prefixD cut_SomeD)

section \<open>Properties\<close>

text \<open>A minted token is 75 characters, parses back into exactly the lookup stored
  in clear and the secret whose digest is stored, and carries the prefix that
  keeps it away from the JWT path; two mints give the same token only from the
  same random bytes.\<close>

theorem mint_round_trip:
  assumes "length l = 10" "length s = 32" "length l' = 10" "length s' = 32"
    and "MintCredential sha (Inr l) (Inr s) = Inr m"
    and "MintCredential sha (Inr l') (Inr s') = Inr m'"
  shows "length (mc_Token m) = 75 \<and> has_prefix ProjectTokenPrefix (mc_Token m) \<and>
    (\<exists>p. parseToken (mc_Token m) = Some p \<and> pt_lookup p = mc_KeyPrefix m \<and>
         hashSecret sha (pt_secret p) = mc_KeyHash m) \<and>
    (mc_Token m = mc_Token m') = (l = l' \<and> s = s')"
proof -
  have m: "m = \<lparr> mc_KeyPrefix = EncodeToString l, mc_KeyHash = hashSecret sha (EncodeToString s),
      mc_Token = ProjectTokenPrefix @ EncodeToString l @ ''_'' @ EncodeToString s \<rparr>"
    and m': "mc_Token m' = ProjectTokenPrefix @ EncodeToString l' @ ''_'' @ EncodeToString s'"
    using assms(5,6) by (auto simp: MintCredential_def Let_def)
  have len: "length (EncodeToString l) = 16" "length (EncodeToString s) = 52"
    "length (EncodeToString l') = 16" "length (EncodeToString s') = 52"
    using assms(1-4) by (simp_all add: Encode_length)
  have "(mc_Token m = mc_Token m') = (EncodeToString l = EncodeToString l' \<and> EncodeToString s = EncodeToString s')"
    using len by (simp add: m m')
  also have "\<dots> = (l = l' \<and> s = s')"
    using Encode_inj [of l l'] Encode_inj [of s s'] assms(1-4) by auto
  finally have "(mc_Token m = mc_Token m') = (l = l' \<and> s = s')" .
  moreover have "parseToken (mc_Token m) = Some \<lparr> pt_lookup = EncodeToString l, pt_secret = EncodeToString s \<rparr>"
    using parseToken_built [OF len(1,2) Encode_alphabet Encode_alphabet] by (simp add: m)
  ultimately show ?thesis using len by (simp add: m ProjectTokenPrefix_def has_prefix_def)
qed

theorem mint_round_trip_witness:
  "\<exists>m. MintCredential (\<lambda>_. []) (Inr (replicate 10 1) :: unit + 8 word list) (Inr (replicate 32 2)) = Inr m \<and>
     length (mc_Token m) = 75"
proof -
  obtain m where m: "MintCredential (\<lambda>_. []) (Inr (replicate 10 1) :: unit + 8 word list) (Inr (replicate 32 2)) = Inr m"
    by (simp add: MintCredential_def Let_def)
  with mint_round_trip [OF _ _ _ _ m m] show ?thesis by simp
qed

end
