(* ===== verification/Scopes.thy ===== *)
theory Scopes
  imports Prelude
begin

text \<open>
  \<^verbatim>\<open>internal/authz/scope.go\<close> and the scope derivations of
  \<^verbatim>\<open>internal/authz/matrix.go\<close>: the capability vocabulary, its
  normalisation (NormalizeScopes), membership (HasScope) and the family, verb
  and write classification read off a scope's spelling.
\<close>

definition ScopeUsersRead :: string where "ScopeUsersRead = ''users:read''"
definition ScopeUsersWrite :: string where "ScopeUsersWrite = ''users:write''"
definition ScopeRolesRead :: string where "ScopeRolesRead = ''roles:read''"
definition ScopeRolesWrite :: string where "ScopeRolesWrite = ''roles:write''"
definition ScopeSessionsRead :: string where "ScopeSessionsRead = ''sessions:read''"
definition ScopeSessionsRevoke :: string where "ScopeSessionsRevoke = ''sessions:revoke''"
definition ScopeInvitationsRead :: string where "ScopeInvitationsRead = ''invitations:read''"
definition ScopeInvitationsWrite :: string where "ScopeInvitationsWrite = ''invitations:write''"
definition ScopeAuditRead :: string where "ScopeAuditRead = ''audit:read''"

lemmas scope_defs = ScopeUsersRead_def ScopeUsersWrite_def ScopeRolesRead_def ScopeRolesWrite_def
  ScopeSessionsRead_def ScopeSessionsRevoke_def ScopeInvitationsRead_def
  ScopeInvitationsWrite_def ScopeAuditRead_def

definition AllScopes :: "string list" where
  "AllScopes =
     [ScopeUsersRead, ScopeUsersWrite, ScopeRolesRead, ScopeRolesWrite,
      ScopeSessionsRead, ScopeSessionsRevoke, ScopeInvitationsRead, ScopeInvitationsWrite,
      ScopeAuditRead]"

fun mem_linear :: "string list \<Rightarrow> string \<Rightarrow> bool" where
  "mem_linear [] s = False"
| "mem_linear (k # ks) s = (if k = s then True else mem_linear ks s)"

definition IsKnownScope :: "string \<Rightarrow> bool" where
  "IsKnownScope s = mem_linear AllScopes s"

definition HasScope :: "string list \<Rightarrow> string \<Rightarrow> bool" where
  "HasScope granted want = mem_linear granted want"

text \<open>The loop of NormalizeScopes: \<open>seen\<close> is the map of values met so far and
  \<open>out\<close> the result in the caller's order. The error carries the offending value
  (empty for a blank entry).\<close>

fun normalize_loop ::
  "(string \<Rightarrow> string) \<Rightarrow> string list \<Rightarrow> string set \<Rightarrow> string list \<Rightarrow> string + string list" where
  "normalize_loop u [] seen out = Inr out"
| "normalize_loop u (r # rs) seen out =
     (let s = to_lower u (trim_space r) in
      if s = [] then Inl []
      else if \<not> IsKnownScope s then Inl s
      else if s \<in> seen then normalize_loop u rs seen out
      else normalize_loop u rs (insert s seen) (out @ [s]))"

definition NormalizeScopes :: "(string \<Rightarrow> string) \<Rightarrow> string list \<Rightarrow> string + string list" where
  "NormalizeScopes u raw = normalize_loop u raw {} []"

section \<open>Family and verb\<close>

definition Family :: "string \<Rightarrow> string" where
  "Family s = (case cut_at CHR '':'' s of None \<Rightarrow> [] | Some (resource, _) \<Rightarrow> resource)"

definition Verb :: "string \<Rightarrow> string" where
  "Verb s = (case cut_at CHR '':'' s of None \<Rightarrow> [] | Some (_, verb) \<Rightarrow> verb)"

definition IsWrite :: "string \<Rightarrow> bool" where
  "IsWrite s \<longleftrightarrow> Verb s \<noteq> ''read''"

definition ReadScopeOf :: "string \<Rightarrow> string option" where
  "ReadScopeOf s =
     (let want = Family s @ '':read'' in if IsKnownScope want then Some want else None)"

section \<open>Lemmas\<close>

lemma mem_linear_iff [simp]: "mem_linear ks s \<longleftrightarrow> s \<in> set ks"
  by (induction ks) auto

lemma HasScope_iff [simp]: "HasScope g s \<longleftrightarrow> s \<in> set g"
  by (simp add: HasScope_def)

lemma IsKnownScope_iff: "IsKnownScope s \<longleftrightarrow> s \<in> set AllScopes"
  by (simp add: IsKnownScope_def)

lemma AllScopes_distinct: "distinct AllScopes" "length AllScopes = 9"
  by (simp_all add: AllScopes_def scope_defs)

lemma known_scope_graph: "IsKnownScope s \<Longrightarrow> list_all is_graph s"
  by (auto simp: IsKnownScope_iff AllScopes_def scope_defs is_graph_def in_range_def
      less_eq_char_def)

lemma known_scope_lower: "IsKnownScope s \<Longrightarrow> to_lower u s = s"
  by (auto simp: IsKnownScope_iff AllScopes_def scope_defs to_lower_def is_ascii_def
      less_char_def ascii_lower_def is_upper_def in_range_def less_eq_char_def)

lemma known_scope_norm [simp]:
  "IsKnownScope s \<Longrightarrow> to_lower u (trim_space s) = s" "IsKnownScope s \<Longrightarrow> s \<noteq> []"
  by (simp_all add: known_scope_graph known_scope_lower trim_space_graph)
    (auto simp: IsKnownScope_iff AllScopes_def scope_defs)

text \<open>The reference result: the first occurrence of every value, in order.\<close>

definition first_occurrences :: "'a list \<Rightarrow> 'a list" where
  "first_occurrences xs = rev (remdups (rev xs))"

lemma remdups_drop_earlier: "s \<in> set zs \<Longrightarrow> remdups (ys @ s # zs) = remdups (ys @ zs)"
  by (induction ys) auto

lemma first_occurrences_seen:
  "s \<in> set out \<Longrightarrow> first_occurrences (out @ s # xs) = first_occurrences (out @ xs)"
  by (simp add: first_occurrences_def remdups_drop_earlier)

lemma first_occurrences_distinct [simp]: "distinct xs \<Longrightarrow> first_occurrences xs = xs"
  by (simp add: first_occurrences_def distinct_remdups_id)

lemma first_occurrences_set [simp]:
  "set (first_occurrences xs) = set xs" "distinct (first_occurrences xs)"
  by (simp_all add: first_occurrences_def)

abbreviation normal_scope :: "(string \<Rightarrow> string) \<Rightarrow> string \<Rightarrow> string" where
  "normal_scope u r \<equiv> to_lower u (trim_space r)"

lemma normalize_loop_eq:
  "distinct out \<Longrightarrow> normalize_loop u raw (set out) out =
     (case find (\<lambda>s. s = [] \<or> \<not> IsKnownScope s) (map (normal_scope u) raw) of
        Some bad \<Rightarrow> Inl bad
      | None \<Rightarrow> Inr (first_occurrences (out @ map (normal_scope u) raw)))"
proof (induction raw arbitrary: out)
  case (Cons r raw)
  let ?s = "normal_scope u r"
  show ?case
  proof (cases "?s = [] \<or> \<not> IsKnownScope ?s \<or> ?s \<in> set out")
    case True
    with Cons show ?thesis
      by (auto simp: Let_def first_occurrences_seen split: option.split)
  next
    case False
    with Cons.prems have "distinct (out @ [?s])" by simp
    from Cons.IH [OF this] False show ?thesis by (simp add: Let_def split: option.split)
  qed
qed simp

text \<open>NormalizeScopes returns the first entry whose trimmed, lowercased form is
  blank or unknown, and otherwise exactly the first occurrences of those forms
  in the caller's order: nothing unknown is stored, nothing is stored twice,
  nothing granted is dropped.\<close>

theorem NormalizeScopes_spec:
  "NormalizeScopes u raw =
     (case find (\<lambda>s. s \<notin> set AllScopes) (map (\<lambda>r. to_lower u (trim_space r)) raw) of
        Some bad \<Rightarrow> Inl bad
      | None \<Rightarrow> Inr (first_occurrences (map (\<lambda>r. to_lower u (trim_space r)) raw)))"
proof -
  have "(\<lambda>s. s = [] \<or> \<not> IsKnownScope s) = (\<lambda>s. s \<notin> set AllScopes)"
    using known_scope_norm(2) [of "[]"] by (auto simp: fun_eq_iff simp flip: IsKnownScope_iff)
  then show ?thesis
    using normalize_loop_eq [of "[]" u raw] by (simp add: NormalizeScopes_def split: option.split)
qed

lemma NormalizeScopes_ok:
  assumes "NormalizeScopes u raw = Inr res"
  shows "distinct res" "list_all IsKnownScope res"
    and "set res = (\<lambda>r. to_lower u (trim_space r)) ` set raw"
proof -
  let ?n = "map (normal_scope u) raw"
  from assms normalize_loop_eq [of "[]" u raw]
  have f: "find (\<lambda>s. s = [] \<or> \<not> IsKnownScope s) ?n = None" and r: "res = first_occurrences ?n"
    by (auto simp: NormalizeScopes_def split: option.splits)
  from r show "distinct res" "set res = (\<lambda>r. to_lower u (trim_space r)) ` set raw" by simp_all
  from f r show "list_all IsKnownScope res" by (auto simp: find_None_iff list_all_iff)
qed

text \<open>Normalising a normalised list changes nothing, whatever the Unicode case
  table does, so scopes read back from storage and stored again are stable; the
  result is duplicate free and at most the nine known scopes.\<close>

theorem NormalizeScopes_idempotent:
  assumes "NormalizeScopes u raw = Inr res"
  shows "NormalizeScopes v res = Inr res \<and> distinct res \<and> set res \<subseteq> set AllScopes \<and> length res \<le> 9"
proof -
  note ok = NormalizeScopes_ok [OF assms]
  have n: "map (normal_scope v) res = res"
    using ok(2) by (intro map_idI) (auto simp: list_all_iff)
  have "find (\<lambda>s. s = [] \<or> \<not> IsKnownScope s) res = None"
    using ok(2) known_scope_norm(2) by (auto simp: find_None_iff list_all_iff)
  with n ok(1) normalize_loop_eq [of "[]" v res] have "NormalizeScopes v res = Inr res"
    by (simp add: NormalizeScopes_def)
  moreover have sub: "set res \<subseteq> set AllScopes" using ok(2) by (auto simp: list_all_iff IsKnownScope_iff)
  moreover have "length res \<le> 9"
    using card_mono [OF _ sub] ok(1) AllScopes_distinct by (simp add: distinct_card)
  ultimately show ?thesis using ok(1) by simp
qed

theorem NormalizeScopes_idempotent_witness:
  "NormalizeScopes id [''users:read'', ''roles:read''] = Inr [''users:read'', ''roles:read'']"
proof -
  have "NormalizeScopes id ['' Users:Read'', ''roles:read'', ''users:read''] =
      Inr [''users:read'', ''roles:read'']"
    by code_simp
  from NormalizeScopes_idempotent [OF this, of id] show ?thesis by simp
qed

end
