(* ===== verification/Project.thy ===== *)
theory Project
  imports Text Token Workspace Scopes
begin

text \<open>
  \<^verbatim>\<open>internal/project\<close>: the domain predicates of \<^verbatim>\<open>model.go\<close>, the error
  catalogue, the statements of \<^verbatim>\<open>repository.go\<close>, the service operations of
  \<^verbatim>\<open>service.go\<close> and the authenticator of \<^verbatim>\<open>authenticator.go\<close>.

  What an operation draws from its surroundings is one record, \<open>svc_env\<close>: the
  clock, the random bytes, SHA-256, the Unicode case table, PostgreSQL's
  \<^verbatim>\<open>lower()\<close> (it depends on the database's locale) and what the audit
  recorder draws.
\<close>

record svc_env =
  se_now :: int
  se_rnd_id :: "go_error + 8 word list"
  se_rnd_lookup :: "go_error + 8 word list"
  se_rnd_secret :: "go_error + 8 word list"
  se_sha :: "string \<Rightarrow> 8 word list"
  se_u :: "string \<Rightarrow> string"
  se_lower :: "string \<Rightarrow> string"
  se_audit :: audit_env

section \<open>Errors\<close>

definition PjErrNotFound :: go_error where
  "PjErrNotFound = AppError ''project_not_found'' ''Project not found'' 404"
definition PjErrArchived :: go_error where
  "PjErrArchived = AppError ''project_archived'' ''Project is archived and cannot be modified'' 409"
definition PjErrNameTaken :: go_error where
  "PjErrNameTaken = AppError ''project_name_taken'' ''A project with this name already exists in this workspace'' 409"
definition PjErrNameRequired :: go_error where
  "PjErrNameRequired = AppError ''project_name_required'' ''Name is required and must be at most 120 characters'' 400"
definition PjErrInvalidID :: go_error where
  "PjErrInvalidID = AppError ''invalid_project_id'' ''Project id must be in the form prj_<uuid>'' 400"
definition PjErrCredentialNotFound :: go_error where
  "PjErrCredentialNotFound = AppError ''credential_not_found'' ''Credential not found'' 404"
definition PjErrInvalidCredentialID :: go_error where
  "PjErrInvalidCredentialID = AppError ''invalid_credential_id'' ''Credential id must be in the form key_<uuid>'' 400"
definition PjErrCredentialAlreadyRevoked :: go_error where
  "PjErrCredentialAlreadyRevoked = AppError ''credential_already_revoked'' ''Credential is already revoked'' 409"
definition PjErrCredentialLimitReached :: go_error where
  "PjErrCredentialLimitReached = AppError ''credential_limit_reached'' ''This project already has the maximum number of active credentials; revoke one before creating another'' 409"
definition PjErrLabelRequired :: go_error where
  "PjErrLabelRequired = AppError ''credential_label_required'' ''Label is required and must be at most 120 characters'' 400"
definition PjErrInvalidScope :: go_error where
  "PjErrInvalidScope = AppError ''invalid_scope'' ''Scopes must be a non-empty list drawn from the supported scope vocabulary'' 400"
definition PjErrInvalidExpiry :: go_error where
  "PjErrInvalidExpiry = AppError ''invalid_request'' ''expires_at must be in the future'' 400"
definition PjErrWorkspaceNotFound :: go_error where
  "PjErrWorkspaceNotFound = AppError ''workspace_not_found'' ''Workspace not found'' 404"
definition PjErrWorkspaceArchived :: go_error where
  "PjErrWorkspaceArchived = AppError ''workspace_archived'' ''Workspace is archived and cannot be modified'' 409"
definition PjErrInvalidWorkspaceID :: go_error where
  "PjErrInvalidWorkspaceID = AppError ''invalid_workspace_id'' ''Workspace id must be in the form ws_<uuid>'' 400"
definition PjErrInternal :: go_error where
  "PjErrInternal = AppError ''internal_error'' ''Internal error'' 500"

definition invalidScopeError :: "string \<Rightarrow> go_error" where
  "invalidScopeError bad =
     (if bad = [] then PjErrInvalidScope
      else AppError ''invalid_scope'' (''Unknown scope: '' @ bad) 400)"

section \<open>The domain values\<close>

definition MaxActiveCredentials :: nat where "MaxActiveCredentials = 10"
definition MaxNameLength :: nat where "MaxNameLength = 120"
definition MaxLabelLength :: nat where "MaxLabelLength = 120"

definition pj_PublicID :: "project \<Rightarrow> string" where
  "pj_PublicID p = Format ProjectPrefix (pj_ID p)"

definition pj_WorkspacePublicID :: "project \<Rightarrow> string" where
  "pj_WorkspacePublicID p = Format WorkspacePrefix (pj_WorkspaceID p)"

definition pj_IsArchived :: "project \<Rightarrow> bool" where
  "pj_IsArchived p \<longleftrightarrow> pj_Status p = StatusArchived"

definition cr_PublicID :: "credential \<Rightarrow> string" where
  "cr_PublicID c = Format CredentialPrefix (cr_ID c)"

definition IsRevoked :: "credential \<Rightarrow> bool" where
  "IsRevoked c \<longleftrightarrow> cr_RevokedAt c \<noteq> None"

definition IsExpired :: "int \<Rightarrow> credential \<Rightarrow> bool" where
  "IsExpired now c = (case cr_ExpiresAt c of None \<Rightarrow> False | Some t \<Rightarrow> \<not> now < t)"

definition IsUsable :: "int \<Rightarrow> credential \<Rightarrow> bool" where
  "IsUsable now c \<longleftrightarrow> \<not> IsRevoked c \<and> \<not> IsExpired now c"

definition lastUsedThrottle :: int where "lastUsedThrottle = 60000000000"

definition NeedsLastUsedTouch :: "int \<Rightarrow> credential \<Rightarrow> bool" where
  "NeedsLastUsedTouch now c =
     (case cr_LastUsedAt c of None \<Rightarrow> True | Some t \<Rightarrow> now - t \<ge> lastUsedThrottle)"

section \<open>Scope lists in a column\<close>

definition isSafeArrayElement :: "string \<Rightarrow> bool" where
  "isSafeArrayElement v =
     (if v = [] then False
      else list_all (\<lambda>c. is_lower c \<or> c = CHR '':'' \<or> c = CHR ''_'' \<or> c = CHR ''-'') v)"

definition scope_Value :: "string list \<Rightarrow> go_error + string" where
  "scope_Value s =
     (if list_all isSafeArrayElement s then Inr (''{'' @ join '','' s @ ''}'') else Inl ErrDriver)"

definition scope_Scan :: "string \<Rightarrow> go_error + string list" where
  "scope_Scan src =
     (let raw = trim_space src in
      if \<not> has_prefix ''{'' raw \<or> raw = [] \<or> last raw \<noteq> CHR ''}'' then Inl ErrDriver
      else let inner = butlast (tl raw) in
        if inner = [] then Inr []
        else let parts = map trim_space (split_at CHR '','' inner) in
          if list_all isSafeArrayElement parts then Inr parts else Inl ErrDriver)"

section \<open>The repository\<close>

definition pj_constraints :: "project \<Rightarrow> bool" where
  "pj_constraints p \<longleftrightarrow>
     (pj_Status p = StatusArchived) = (pj_ArchivedAt p \<noteq> None) \<and> \<not> sql_blank (pj_Name p)"

text \<open>The unique index on \<^verbatim>\<open>(workspace_id, lower(name))\<close>.\<close>

definition pj_name_key :: "svc_env \<Rightarrow> project \<Rightarrow> string \<times> string" where
  "pj_name_key se p = (pj_WorkspaceID p, se_lower se (pj_Name p))"

definition pj_insert :: "svc_env \<Rightarrow> project \<Rightarrow> db \<Rightarrow> go_error + unit \<times> db" where
  "pj_insert se p d =
     (if \<not> pj_constraints p then Inl ErrDriver
      else if pj_ID p \<in> pj_ID ` set (db_projects d) \<or>
         pj_name_key se p \<in> pj_name_key se ` set (db_projects d)
      then Inl ErrDuplicatedKey
      else if pj_WorkspaceID p \<notin> ws_ID ` set (db_workspaces d) then Inl ErrDriver
      else Inr ((), d\<lparr> db_projects := db_projects d @ [p] \<rparr>))"

definition pjr_CreateProject :: "svc_env \<Rightarrow> project \<Rightarrow> unit act" where
  "pjr_CreateProject se p =
     catch (stmt (pj_insert se p)) (\<lambda>e. if e = ErrDuplicatedKey then PjErrNameTaken else e)"

definition pjr_GetProject :: "string \<Rightarrow> project option act" where
  "pjr_GetProject i = query (\<lambda>d. find (\<lambda>p. pj_ID p = i) (db_projects d))"

definition pjr_ListProjects :: "string \<Rightarrow> project list act" where
  "pjr_ListProjects ws = query (\<lambda>d.
     sort_key pj_Name (sort_key pj_ID (filter (\<lambda>p. pj_WorkspaceID p = ws) (db_projects d))))"

definition pj_active_row :: "string \<Rightarrow> project \<Rightarrow> bool" where
  "pj_active_row i p \<longleftrightarrow> pj_ID p = i \<and> pj_Status p = StatusActive"

definition pj_update :: "svc_env \<Rightarrow> string \<Rightarrow> (project \<Rightarrow> project) \<Rightarrow> nat act" where
  "pj_update se i f = stmt (\<lambda>d.
     let (rows, n) = update_where (pj_active_row i) f (db_projects d) in
     if \<not> list_all pj_constraints (map f (filter (pj_active_row i) (db_projects d)))
     then Inl ErrDriver
     else if \<not> distinct (map (pj_name_key se) rows) then Inl ErrDuplicatedKey
     else Inr (n, d\<lparr> db_projects := rows \<rparr>))"

definition pjr_UpdateProjectName :: "svc_env \<Rightarrow> string \<Rightarrow> string \<Rightarrow> project option act" where
  "pjr_UpdateProjectName se i name = InTx
     (andThen (catch (pj_update se i (\<lambda>p. p\<lparr> pj_Name := name, pj_UpdatedAt := se_now se \<rparr>))
                (\<lambda>e. if e = ErrDuplicatedKey then PjErrNameTaken else e)) (\<lambda>affected.
      andThen (pjr_GetProject i) (\<lambda>current.
        case current of
          None \<Rightarrow> ret None
        | Some row \<Rightarrow>
            if affected = 0 \<and> pj_Status row = StatusArchived then fail PjErrArchived
            else ret (Some row))))"

definition pjr_ArchiveProject :: "svc_env \<Rightarrow> string \<Rightarrow> project option act" where
  "pjr_ArchiveProject se i = InTx
     (andThen (pj_update se i (\<lambda>p. p\<lparr> pj_Status := StatusArchived,
         pj_ArchivedAt := Some (se_now se), pj_UpdatedAt := se_now se \<rparr>))
        (\<lambda>_. pjr_GetProject i))"

definition cr_constraints :: "credential \<Rightarrow> bool" where
  "cr_constraints c \<longleftrightarrow>
     \<not> sql_blank (cr_Label c) \<and> cr_Scopes c \<noteq> [] \<and> list_all IsKnownScope (cr_Scopes c) \<and>
     length (cr_KeyHash c) = 32 \<and> (cr_RevokedAt c = None) = (cr_RevokedBy c = None)"

definition cr_insert :: "credential \<Rightarrow> db \<Rightarrow> go_error + unit \<times> db" where
  "cr_insert c d =
     (if \<not> cr_constraints c then Inl ErrDriver
      else if cr_ID c \<in> cr_ID ` set (db_credentials d) \<or>
         cr_KeyPrefix c \<in> cr_KeyPrefix ` set (db_credentials d)
      then Inl ErrDuplicatedKey
      else if cr_ProjectID c \<notin> pj_ID ` set (db_projects d) then Inl ErrDriver
      else Inr ((), d\<lparr> db_credentials := db_credentials d @ [c] \<rparr>))"

definition pjr_CreateCredential :: "credential \<Rightarrow> unit act" where
  "pjr_CreateCredential c =
     andThen (lift_result (scope_Value (cr_Scopes c))) (\<lambda>_. stmt (cr_insert c))"

text \<open>ORDER BY created_at DESC, id ASC.\<close>

definition pjr_ListCredentials :: "string \<Rightarrow> credential list act" where
  "pjr_ListCredentials pid = query (\<lambda>d.
     sort_key (\<lambda>c. - cr_CreatedAt c)
       (sort_key cr_ID (filter (\<lambda>c. cr_ProjectID c = pid) (db_credentials d))))"

definition pjr_GetCredential :: "string \<Rightarrow> credential option act" where
  "pjr_GetCredential i = query (\<lambda>d. find (\<lambda>c. cr_ID c = i) (db_credentials d))"

definition live_of :: "string \<Rightarrow> credential \<Rightarrow> bool" where
  "live_of pid c \<longleftrightarrow> cr_ProjectID c = pid \<and> cr_RevokedAt c = None"

definition pjr_CountActiveCredentials :: "string \<Rightarrow> nat act" where
  "pjr_CountActiveCredentials pid = query (\<lambda>d. length (filter (live_of pid) (db_credentials d)))"

text \<open>Projects without live credentials are absent from the Go map, which reads as
  zero; here the count is given for every id asked for.\<close>

definition pjr_CountActiveCredentialsByProject :: "string list \<Rightarrow> (string \<times> nat) list act" where
  "pjr_CountActiveCredentialsByProject pids =
     (if pids = [] then ret []
      else query (\<lambda>d. filter (\<lambda>e. snd e \<noteq> 0)
        (map (\<lambda>p. (p, length (filter (live_of p) (db_credentials d)))) (remdups pids))))"

definition cr_unrevoked_row :: "string \<Rightarrow> credential \<Rightarrow> bool" where
  "cr_unrevoked_row i c \<longleftrightarrow> cr_ID c = i \<and> cr_RevokedAt c = None"

definition pjr_RevokeCredential :: "svc_env \<Rightarrow> string \<Rightarrow> string \<Rightarrow> credential option act" where
  "pjr_RevokeCredential se i revokedBy = InTx
     (andThen (stmt (\<lambda>d. let (rows, n) = update_where (cr_unrevoked_row i)
          (\<lambda>c. c\<lparr> cr_RevokedAt := Some (se_now se), cr_RevokedBy := Some revokedBy \<rparr>) (db_credentials d)
        in Inr (n, d\<lparr> db_credentials := rows \<rparr>))) (\<lambda>affected.
      andThen (pjr_GetCredential i) (\<lambda>current.
        case current of
          None \<Rightarrow> ret None
        | Some row \<Rightarrow>
            if affected = 0 then fail PjErrCredentialAlreadyRevoked else ret (Some row))))"

definition pjr_FindByKeyPrefix :: "string \<Rightarrow> (credential \<times> project) option act" where
  "pjr_FindByKeyPrefix prefix =
     andThen (query (\<lambda>d. find (\<lambda>c. cr_KeyPrefix c = prefix) (db_credentials d))) (\<lambda>cred.
       case cred of
         None \<Rightarrow> ret None
       | Some c \<Rightarrow>
           andThen (pjr_GetProject (cr_ProjectID c)) (\<lambda>proj.
             case proj of None \<Rightarrow> ret None | Some p \<Rightarrow> ret (Some (c, p))))"

definition pjr_TouchLastUsed :: "string \<Rightarrow> int \<Rightarrow> unit act" where
  "pjr_TouchLastUsed i now = stmt (\<lambda>d. Inr ((), d\<lparr> db_credentials :=
     fst (update_where
       (\<lambda>c. cr_ID c = i \<and> (case cr_LastUsedAt c of None \<Rightarrow> True | Some t \<Rightarrow> t < now - lastUsedThrottle))
       (\<lambda>c. c\<lparr> cr_LastUsedAt := Some now \<rparr>) (db_credentials d)) \<rparr>))"

section \<open>The service\<close>

text \<open>\<^verbatim>\<open>strings.Fields\<close> and the join: runs of white-space runes become one
  blank.\<close>

function fields :: "string \<Rightarrow> string \<Rightarrow> string list" where
  "fields cur s =
     (case s of
        [] \<Rightarrow> (if cur = [] then [] else [cur])
      | c # cs \<Rightarrow>
          (case leading space_runes s of
             Some w \<Rightarrow> (if cur = [] then [] else [cur]) @ fields [] (drop (length w) s)
           | None \<Rightarrow> fields (cur @ [c]) cs))"
  by pat_completeness auto

termination fields
proof (relation "measure (\<lambda>(cur, s). length s)")
  fix cur :: string and s c cs w
  assume "s = c # cs" "leading space_runes s = Some w"
  from leading_SomeD [OF this(2)] show "(([], drop (length w) s), cur, s) \<in> measure (\<lambda>(cur, s). length s)"
    by (cases s) auto
qed auto

declare fields.simps [simp del]

definition pj_normalizeName :: "string \<Rightarrow> string" where
  "pj_normalizeName name = join '' '' (fields [] name)"

definition internal :: "'a act \<Rightarrow> 'a act" where
  "internal m = catch m (\<lambda>_. PjErrInternal)"

definition requireWorkspace :: "string \<Rightarrow> workspace act" where
  "requireWorkspace wid =
     (case Parse WorkspacePrefix wid of
        Inl _ \<Rightarrow> fail PjErrInvalidWorkspaceID
      | Inr i \<Rightarrow> found (internal (wsr_GetByID i)) PjErrWorkspaceNotFound)"

definition requireWritableWorkspace :: "string \<Rightarrow> workspace act" where
  "requireWritableWorkspace wid = andThen (requireWorkspace wid) (\<lambda>ws.
     if ws_IsArchived ws then fail PjErrWorkspaceArchived else ret ws)"

definition pj_resolve :: "string \<Rightarrow> string \<Rightarrow> (workspace \<times> project) act" where
  "pj_resolve wid pid = andThen (requireWorkspace wid) (\<lambda>ws.
     case Parse ProjectPrefix pid of
       Inl _ \<Rightarrow> fail PjErrInvalidID
     | Inr i \<Rightarrow> andThen (internal (pjr_GetProject i)) (\<lambda>r.
         case r of
           None \<Rightarrow> fail PjErrNotFound
         | Some p \<Rightarrow> if pj_WorkspaceID p \<noteq> ws_ID ws then fail PjErrNotFound else ret (ws, p)))"

definition target_event :: "string \<Rightarrow> string \<Rightarrow> audit_event \<Rightarrow> audit_event" where
  "target_event kind tid ev = ev\<lparr> ea_Target := \<lparr> tg_Kind = kind, tg_ID = tid, tg_Name = [] \<rparr> \<rparr>"

definition pj_event :: "project \<Rightarrow> audit_event \<Rightarrow> audit_event" where
  "pj_event p = target_event ''project'' (pj_PublicID p)"

definition cr_event :: "credential \<Rightarrow> audit_event \<Rightarrow> audit_event" where
  "cr_event c = target_event ''project_credential'' (cr_PublicID c)"

definition pj_List :: "string \<Rightarrow> (project list \<times> (string \<times> nat) list) act" where
  "pj_List wid = andThen (requireWorkspace wid) (\<lambda>ws.
     andThen (internal (pjr_ListProjects (ws_ID ws))) (\<lambda>items.
     andThen (internal (pjr_CountActiveCredentialsByProject (map pj_ID items))) (\<lambda>counts.
       ret (items, counts))))"

text \<open>\<open>keep\<close> is the error translation of the transaction bodies: the listed errors
  pass, any other becomes internal.\<close>

definition keep :: "go_error list \<Rightarrow> go_error \<Rightarrow> go_error" where
  "keep es e = (if e \<in> set es then e else PjErrInternal)"

definition pj_Create :: "string \<Rightarrow> string \<Rightarrow> audit_event \<Rightarrow> svc_env \<Rightarrow> project act" where
  "pj_Create wid in_name ev se =
     andThen (requireWritableWorkspace wid) (\<lambda>ws.
       let name = pj_normalizeName in_name in
       andThen (require (name \<noteq> [] \<and> length name \<le> MaxNameLength) PjErrNameRequired) (\<lambda>_.
       andThen (internal (lift_result (New (se_rnd_id se)))) (\<lambda>i.
         let p = \<lparr> pj_ID = i, pj_WorkspaceID = ws_ID ws, pj_Name = name, pj_Status = StatusActive,
                   pj_CreatedAt = se_now se, pj_UpdatedAt = se_now se, pj_ArchivedAt = None \<rparr>
         in InTx (andThen (andThen (catch (pjr_CreateProject se p) (keep [PjErrNameTaken])) (\<lambda>_. ret p))
              (\<lambda>p. andThen (RecordTx (se_audit se) (pj_event p (ev\<lparr> ea_Workspace := ws_PublicID ws \<rparr>)))
                (\<lambda>_. ret p))))))"

definition pj_Get :: "string \<Rightarrow> string \<Rightarrow> project act" where
  "pj_Get wid pid = andThen (pj_resolve wid pid) (\<lambda>(ws, p). ret p)"

definition pj_ActiveCredentialCount :: "project \<Rightarrow> nat act" where
  "pj_ActiveCredentialCount p = internal (pjr_CountActiveCredentials (pj_ID p))"

definition pj_Rename :: "string \<Rightarrow> string \<Rightarrow> string \<Rightarrow> audit_event \<Rightarrow> svc_env \<Rightarrow> project act" where
  "pj_Rename wid pid in_name ev se =
     andThen (pj_resolve wid pid) (\<lambda>(ws, p).
       let name = pj_normalizeName in_name in
       andThen (require (name \<noteq> [] \<and> length name \<le> MaxNameLength) PjErrNameRequired) (\<lambda>_.
       andThen (require (\<not> pj_IsArchived p) PjErrArchived) (\<lambda>_.
         InTx (andThen (found (catch (pjr_UpdateProjectName se (pj_ID p) name)
                 (keep [PjErrArchived, PjErrNameTaken])) PjErrNotFound) (\<lambda>updated.
           andThen (RecordTx (se_audit se) (pj_event updated ev)) (\<lambda>_. ret updated))))))"

definition pj_Archive :: "string \<Rightarrow> string \<Rightarrow> audit_event \<Rightarrow> svc_env \<Rightarrow> project act" where
  "pj_Archive wid pid ev se =
     andThen (pj_resolve wid pid) (\<lambda>(ws, p).
       InTx (andThen (found (internal (pjr_ArchiveProject se (pj_ID p))) PjErrNotFound) (\<lambda>archived.
         andThen (RecordTx (se_audit se) (pj_event archived ev)) (\<lambda>_. ret archived))))"

record create_credential_input =
  ci_Label :: string
  ci_Scopes :: "string list"
  ci_ExpiresAt :: "int option"
  ci_CreatedBy :: string

definition cr_Create ::
  "string \<Rightarrow> string \<Rightarrow> create_credential_input \<Rightarrow> audit_event \<Rightarrow> svc_env \<Rightarrow> (credential \<times> string) act" where
  "cr_Create wid pid inp ev se =
     andThen (pj_resolve wid pid) (\<lambda>(ws, p).
       let label = trim_space (ci_Label inp) in
       andThen (require (\<not> pj_IsArchived p) PjErrArchived) (\<lambda>_.
       andThen (require (label \<noteq> [] \<and> length label \<le> MaxLabelLength) PjErrLabelRequired) (\<lambda>_.
       case NormalizeScopes (se_u se) (ci_Scopes inp) of
         Inl bad \<Rightarrow> fail (invalidScopeError bad)
       | Inr scopes \<Rightarrow>
           andThen (require (scopes \<noteq> []) PjErrInvalidScope) (\<lambda>_.
           andThen (require (case ci_ExpiresAt inp of None \<Rightarrow> True | Some t \<Rightarrow> t > se_now se)
             PjErrInvalidExpiry) (\<lambda>_.
           andThen (internal (pjr_CountActiveCredentials (pj_ID p))) (\<lambda>active.
           andThen (require (active < MaxActiveCredentials) PjErrCredentialLimitReached) (\<lambda>_.
           andThen (internal (lift_result (New (se_rnd_id se)))) (\<lambda>i.
           andThen (internal (lift_result
             (MintCredential (se_sha se) (se_rnd_lookup se) (se_rnd_secret se)))) (\<lambda>minted.
             let cred = \<lparr> cr_ID = i, cr_ProjectID = pj_ID p, cr_Label = label,
                   cr_KeyPrefix = mc_KeyPrefix minted, cr_KeyHash = mc_KeyHash minted,
                   cr_KeyHashAlg = ''sha256'', cr_Scopes = scopes, cr_ExpiresAt = ci_ExpiresAt inp,
                   cr_RevokedAt = None, cr_CreatedBy = ci_CreatedBy inp, cr_RevokedBy = None,
                   cr_CreatedAt = se_now se, cr_LastUsedAt = None \<rparr>
             in InTx (andThen (andThen (internal (pjr_CreateCredential cred)) (\<lambda>_. ret (cred, mc_Token minted)))
                  (\<lambda>r. andThen (RecordTx (se_audit se) (cr_event (fst r) ev)) (\<lambda>_. ret r))))))))))))"

definition cr_List :: "string \<Rightarrow> string \<Rightarrow> credential list act" where
  "cr_List wid pid = andThen (pj_resolve wid pid) (\<lambda>(ws, p).
     internal (pjr_ListCredentials (pj_ID p)))"

definition cr_Revoke ::
  "string \<Rightarrow> string \<Rightarrow> string \<Rightarrow> string \<Rightarrow> audit_event \<Rightarrow> svc_env \<Rightarrow> credential act" where
  "cr_Revoke wid pid cid revokedBy ev se =
     andThen (pj_resolve wid pid) (\<lambda>(ws, p).
     case Parse CredentialPrefix cid of
       Inl _ \<Rightarrow> fail PjErrInvalidCredentialID
     | Inr i \<Rightarrow>
         andThen (internal (pjr_GetCredential i)) (\<lambda>existing.
         andThen (require (case existing of None \<Rightarrow> False | Some c \<Rightarrow> cr_ProjectID c = pj_ID p)
           PjErrCredentialNotFound) (\<lambda>_.
           InTx (andThen (found (catch (pjr_RevokeCredential se i revokedBy)
                   (keep [PjErrCredentialAlreadyRevoked])) PjErrCredentialNotFound) (\<lambda>revoked.
             andThen (RecordTx (se_audit se) (cr_event revoked ev)) (\<lambda>_. ret revoked))))))"

section \<open>The authenticator\<close>

text \<open>\<open>attempt\<close> drops an error, as the refresh of \<^verbatim>\<open>last_used_at\<close> does. The result
  carries the digest comparisons that were made.\<close>

definition attempt :: "'a act \<Rightarrow> unit act" where
  "attempt m w = (Inr (), snd (m w))"

definition AuthenticateCredential ::
  "(string \<Rightarrow> 8 word list) \<Rightarrow> int \<Rightarrow> string \<Rightarrow> (project_principal option \<times> comparison list) act" where
  "AuthenticateCredential sha now token =
     (case parseToken token of
        None \<Rightarrow> ret (None, [])
      | Some parsed \<Rightarrow>
          andThen (pjr_FindByKeyPrefix (pt_lookup parsed)) (\<lambda>row.
            case row of
              None \<Rightarrow> ret (None, [compareAgainstDummy sha (pt_secret parsed)])
            | Some (cred, proj) \<Rightarrow>
                (let (matches, cmp) = secretMatches sha (pt_secret parsed) (cr_KeyHash cred) in
                 if \<not> matches then ret (None, [cmp])
                 else if \<not> IsUsable now cred then ret (None, [cmp])
                 else if pj_IsArchived proj then ret (None, [cmp])
                 else andThen
                   (if NeedsLastUsedTouch now cred then attempt (pjr_TouchLastUsed (cr_ID cred) now)
                    else ret ())
                   (\<lambda>_. ret (Some \<lparr> pp_ProjectID = pj_PublicID proj, pp_ProjectName = pj_Name proj,
                      pp_CredentialID = cr_PublicID cred, pp_WorkspaceID = pj_WorkspacePublicID proj,
                      pp_Scopes = cr_Scopes cred \<rparr>, [cmp])))))"

lemma safe_graph:
  "isSafeArrayElement v \<Longrightarrow> v \<noteq> [] \<and> list_all is_graph v \<and> CHR '','' \<notin> set v"
  by (auto simp: isSafeArrayElement_def list_all_iff is_graph_def is_lower_def in_range_def
      less_eq_char_def split: if_splits)

lemma split_join:
  "xs \<noteq> [] \<Longrightarrow> list_all (\<lambda>x. c \<notin> set x) xs \<Longrightarrow> split_at c (join [c] xs) = xs"
  by (induction "[c]" xs rule: join.induct) (auto simp: split_at_absent split_at_append)

lemma join_graph: "list_all (list_all is_graph) xs \<Longrightarrow> list_all is_graph (join '','' xs)"
  by (induction "'',''" xs rule: join.induct)
    (auto simp: is_graph_def in_range_def less_eq_char_def)

lemma join_Nil: "join sep xs = [] \<Longrightarrow> list_all (\<lambda>x. x \<noteq> []) xs \<Longrightarrow> xs = []"
  by (induction sep xs rule: join.induct) auto

section \<open>Properties\<close>

text \<open>A scope list survives its column: whatever \<^verbatim>\<open>Value\<close> agrees to write (and it
  writes every list of known scopes) \<^verbatim>\<open>Scan\<close> reads back unchanged, and it
  refuses exactly the lists with an element outside the safe alphabet instead of
  escaping them.\<close>

theorem scope_column_round_trip:
  "(case scope_Value scopes of
      Inl _ \<Rightarrow> \<not> list_all isSafeArrayElement scopes
    | Inr raw \<Rightarrow> scope_Scan raw = Inr scopes) \<and>
   list_all (\<lambda>s. is_ok (scope_Value [s])) AllScopes"
proof
  show "list_all (\<lambda>s. is_ok (scope_Value [s])) AllScopes" by code_simp
  show "case scope_Value scopes of Inl _ \<Rightarrow> \<not> list_all isSafeArrayElement scopes
    | Inr raw \<Rightarrow> scope_Scan raw = Inr scopes"
  proof (cases "list_all isSafeArrayElement scopes")
    case True
    let ?j = "join '','' scopes"
    have safe: "list_all (\<lambda>x. x \<noteq> []) scopes" "list_all (\<lambda>x. CHR '','' \<notin> set x) scopes"
      "list_all (list_all is_graph) scopes"
      using True safe_graph by (auto simp: list_all_iff)
    have "list_all is_graph (''{'' @ ?j @ ''}'')"
      using join_graph [OF safe(3)] by (simp add: is_graph_def in_range_def less_eq_char_def)
    then have t: "trim_space (CHR ''{'' # ?j @ ''}'') = CHR ''{'' # ?j @ ''}''"
      using trim_space_graph by fastforce
    have m: "map trim_space scopes = scopes"
      using safe(3) trim_space_graph by (auto simp: list_all_iff intro: map_idI)
    have "scope_Scan (''{'' @ ?j @ ''}'') = Inr scopes"
    proof (cases "scopes = []")
      case True
      with t show ?thesis by (simp add: scope_Scan_def has_prefix_def)
    next
      case False
      with join_Nil [OF _ safe(1)] have "?j \<noteq> []" by blast
      with True t m split_join [OF False safe(2)] show ?thesis
        by (simp add: scope_Scan_def Let_def has_prefix_def butlast_append)
    qed
    with True show ?thesis by (simp add: scope_Value_def)
  qed (simp add: scope_Value_def)
qed

end
