(* ===== verification/ProjectLife.thy ===== *)
theory ProjectLife
  imports Project
begin

text \<open>
  What the statements and operations of Project do to the database: the effect of
  each mutation, the atomicity of all of them, the invariant of the two tables
  and what any sequence of requests may do to a row. The sequences include the
  authentications, which refresh \<^verbatim>\<open>last_used_at\<close>.
\<close>

section \<open>Reads\<close>

lemma read_only_internal [reads]: "read_only m \<Longrightarrow> read_only (internal m)"
  unfolding internal_def by (rule reads)

lemma read_only_pjr_GetProject [reads]: "read_only (pjr_GetProject i)"
  unfolding pjr_GetProject_def by (rule reads)

lemma read_only_pjr_GetCredential [reads]: "read_only (pjr_GetCredential i)"
  unfolding pjr_GetCredential_def by (rule reads)

lemma read_only_pjr_Count [reads]: "read_only (pjr_CountActiveCredentials i)"
  unfolding pjr_CountActiveCredentials_def by (rule reads)

lemma read_only_FindByKeyPrefix [reads]: "read_only (pjr_FindByKeyPrefix k)"
  unfolding pjr_FindByKeyPrefix_def by (intro reads) (auto split: option.split intro!: reads)

lemma read_only_requireWorkspace [reads]: "read_only (requireWorkspace wid)"
  unfolding requireWorkspace_def by (auto split: sum.split intro!: reads)

lemma read_only_requireWritable [reads]: "read_only (requireWritableWorkspace wid)"
  unfolding requireWritableWorkspace_def by (intro reads) (auto intro: reads)

lemma read_only_resolve [reads]: "read_only (pj_resolve wid pid)"
  unfolding pj_resolve_def by (intro reads) (auto split: sum.split option.split intro!: reads)

lemma internal_Inr [simp]: "internal m s = (Inr x, s') \<longleftrightarrow> m s = (Inr x, s')"
  by (simp add: internal_def)

lemma pjr_GetProject_Inr:
  "pjr_GetProject i s = (Inr r, s') \<Longrightarrow>
     r = find (\<lambda>p. pj_ID p = i) (db_projects (w_db s)) \<and> w_db s' = w_db s"
  unfolding pjr_GetProject_def by (rule query_Inr)

lemma pjr_GetCredential_Inr:
  "pjr_GetCredential i s = (Inr r, s') \<Longrightarrow>
     r = find (\<lambda>c. cr_ID c = i) (db_credentials (w_db s)) \<and> w_db s' = w_db s"
  unfolding pjr_GetCredential_def by (rule query_Inr)

lemma requireWorkspace_Inr:
  assumes "requireWorkspace wid s = (Inr ws, s')"
  shows "Parse WorkspacePrefix wid = Inr (ws_ID ws) \<and> ws \<in> set (db_workspaces (w_db s))"
  using assms
  by (auto simp: requireWorkspace_def split: sum.splits dest!: wsr_GetByID_Inr find_dests)

lemma pj_resolve_Inr:
  assumes "pj_resolve wid pid s = (Inr (ws, p), s')"
  shows "Parse WorkspacePrefix wid = Inr (pj_WorkspaceID p) \<and> Parse ProjectPrefix pid = Inr (pj_ID p) \<and>
     p \<in> set (db_projects (w_db s)) \<and> pj_WorkspaceID p = ws_ID ws"
proof -
  from assms obtain ws0 s1 where w: "requireWorkspace wid s = (Inr ws0, s1)"
    and *: "(case Parse ProjectPrefix pid of Inl _ \<Rightarrow> fail PjErrInvalidID
       | Inr i \<Rightarrow> andThen (internal (pjr_GetProject i)) (\<lambda>r. case r of None \<Rightarrow> fail PjErrNotFound
         | Some p \<Rightarrow> if pj_WorkspaceID p \<noteq> ws_ID ws0 then fail PjErrNotFound else ret (ws0, p))) s1 = (Inr (ws, p), s')"
    unfolding pj_resolve_def by auto
  note db = read_onlyD [OF read_only_requireWorkspace w]
  from * have "Parse ProjectPrefix pid = Inr (pj_ID p) \<and> p \<in> set (db_projects (w_db s1)) \<and>
      ws = ws0 \<and> pj_WorkspaceID p = ws_ID ws"
    by (auto split: sum.splits option.splits if_splits dest!: pjr_GetProject_Inr find_dests)
  with requireWorkspace_Inr [OF w] db show ?thesis by auto
qed

section \<open>Effects of the statements\<close>

definition pj_rewrite :: "string \<Rightarrow> (project \<Rightarrow> project) \<Rightarrow> project list \<Rightarrow> project list" where
  "pj_rewrite i f rows = map (\<lambda>r. if pj_active_row i r then f r else r) rows"

abbreviation pj_rename_row :: "string \<Rightarrow> int \<Rightarrow> project \<Rightarrow> project" where
  "pj_rename_row name now p \<equiv> p\<lparr> pj_Name := name, pj_UpdatedAt := now \<rparr>"

abbreviation pj_archive_row :: "int \<Rightarrow> project \<Rightarrow> project" where
  "pj_archive_row now p \<equiv>
     p\<lparr> pj_Status := StatusArchived, pj_ArchivedAt := Some now, pj_UpdatedAt := now \<rparr>"

text \<open>What a guarded update of the projects table leaves.\<close>

definition pj_updated :: "svc_env \<Rightarrow> string \<Rightarrow> (project \<Rightarrow> project) \<Rightarrow> db \<Rightarrow> db \<Rightarrow> bool" where
  "pj_updated se i f d d' \<longleftrightarrow>
     d' = d\<lparr> db_projects := pj_rewrite i f (db_projects d) \<rparr> \<and>
     distinct (map (pj_name_key se) (pj_rewrite i f (db_projects d))) \<and>
     list_all pj_constraints (map f (filter (pj_active_row i) (db_projects d)))"

lemma pj_update_Inr: "pj_update se i f s = (Inr n, s') \<Longrightarrow> pj_updated se i f (w_db s) (w_db s')"
  unfolding pj_update_def
  by (drule stmt_Inr) (auto simp: update_where_def pj_updated_def pj_rewrite_def split: if_splits)

lemma pjr_UpdateProjectName_Inr:
  assumes "pjr_UpdateProjectName se i name s = (Inr (Some p), s')"
  shows "pj_updated se i (pj_rename_row name (se_now se)) (w_db s) (w_db s') \<and>
     p \<in> set (db_projects (w_db s')) \<and> pj_ID p = i"
proof -
  from assms obtain s1 n s2 where
    u: "pj_update se i (pj_rename_row name (se_now se)) s = (Inr n, s1)" and
    g: "pjr_GetProject i s1 = (Inr (Some p), s2)" and d: "w_db s' = w_db s2"
    unfolding pjr_UpdateProjectName_def
    by (elim InTx_Inr) (auto split: option.splits if_splits)
  from pj_update_Inr [OF u] pjr_GetProject_Inr [OF g] d show ?thesis by (auto dest: find_dests)
qed

lemma pjr_ArchiveProject_Inr:
  assumes "pjr_ArchiveProject se i s = (Inr (Some p), s')"
  shows "pj_updated se i (pj_archive_row (se_now se)) (w_db s) (w_db s') \<and>
     p \<in> set (db_projects (w_db s')) \<and> pj_ID p = i"
proof -
  from assms obtain s1 n s2 where
    u: "pj_update se i (pj_archive_row (se_now se)) s = (Inr n, s1)" and
    g: "pjr_GetProject i s1 = (Inr (Some p), s2)" and d: "w_db s' = w_db s2"
    unfolding pjr_ArchiveProject_def by (elim InTx_Inr) auto
  from pj_update_Inr [OF u] pjr_GetProject_Inr [OF g] d show ?thesis by (auto dest: find_dests)
qed

lemma pjr_CreateProject_Inr:
  "pjr_CreateProject se p s = (Inr u, s') \<Longrightarrow>
     w_db s' = (w_db s)\<lparr> db_projects := db_projects (w_db s) @ [p] \<rparr> \<and>
     pj_ID p \<notin> pj_ID ` set (db_projects (w_db s)) \<and>
     pj_name_key se p \<notin> pj_name_key se ` set (db_projects (w_db s)) \<and> pj_constraints p"
  unfolding pjr_CreateProject_def by (auto simp: pj_insert_def split: if_splits dest!: stmt_Inr)

lemma pjr_CreateCredential_Inr:
  "pjr_CreateCredential c s = (Inr u, s') \<Longrightarrow>
     w_db s' = (w_db s)\<lparr> db_credentials := db_credentials (w_db s) @ [c] \<rparr> \<and>
     cr_ID c \<notin> cr_ID ` set (db_credentials (w_db s)) \<and>
     cr_KeyPrefix c \<notin> cr_KeyPrefix ` set (db_credentials (w_db s)) \<and> cr_constraints c"
  unfolding pjr_CreateCredential_def by (auto simp: cr_insert_def split: if_splits dest!: stmt_Inr)

abbreviation cr_revoke_row :: "int \<Rightarrow> string \<Rightarrow> credential \<Rightarrow> credential" where
  "cr_revoke_row now by_whom c \<equiv> c\<lparr> cr_RevokedAt := Some now, cr_RevokedBy := Some by_whom \<rparr>"

definition cr_revoked_rows :: "string \<Rightarrow> int \<Rightarrow> string \<Rightarrow> credential list \<Rightarrow> credential list" where
  "cr_revoked_rows i now by_whom rows =
     map (\<lambda>c. if cr_unrevoked_row i c then cr_revoke_row now by_whom c else c) rows"

lemma pjr_RevokeCredential_Inr:
  assumes "pjr_RevokeCredential se i by_whom s = (Inr (Some c), s')"
  shows "w_db s' = (w_db s)\<lparr> db_credentials := cr_revoked_rows i (se_now se) by_whom (db_credentials (w_db s)) \<rparr> \<and>
     c \<in> set (db_credentials (w_db s')) \<and> cr_ID c = i \<and>
     list_ex (cr_unrevoked_row i) (db_credentials (w_db s))"
proof -
  let ?u = "stmt (\<lambda>d. let (rows, n) = update_where (cr_unrevoked_row i)
          (cr_revoke_row (se_now se) by_whom) (db_credentials d)
        in Inr (n, d\<lparr> db_credentials := rows \<rparr>))"
  from assms obtain s1 n s2 where u: "?u s = (Inr n, s1)" and n: "n \<noteq> 0" and
    g: "pjr_GetCredential i s1 = (Inr (Some c), s2)" and d: "w_db s' = w_db s2"
    unfolding pjr_RevokeCredential_def
    by (elim InTx_Inr) (auto split: option.splits if_splits)
  from stmt_Inr [OF u] n have "w_db s1 = (w_db s)\<lparr> db_credentials :=
      cr_revoked_rows i (se_now se) by_whom (db_credentials (w_db s)) \<rparr>"
    "list_ex (cr_unrevoked_row i) (db_credentials (w_db s))"
    by (auto simp: update_where_def cr_revoked_rows_def list_ex_iff filter_empty_conv)
  with pjr_GetCredential_Inr [OF g] d show ?thesis by (auto dest: find_dests)
qed

section \<open>The mutations together\<close>

datatype pj_op =
    PjCreate string string
  | PjRename string string string
  | PjArchive string string
  | CrCreate string string create_credential_input
  | CrRevoke string string string string

datatype pj_result = ProjectResult project | CredentialResult credential

definition pj_as_result :: "project \<Rightarrow> pj_result" where "pj_as_result p = ProjectResult p"
definition cr_as_result :: "credential \<Rightarrow> pj_result" where "cr_as_result c = CredentialResult c"
definition minted_result :: "credential \<times> string \<Rightarrow> pj_result" where
  "minted_result r = CredentialResult (fst r)"

fun pj_run_op :: "pj_op \<Rightarrow> audit_event \<Rightarrow> svc_env \<Rightarrow> pj_result act" where
  "pj_run_op (PjCreate wid name) ev se = andThen (pj_Create wid name ev se) (\<lambda>p. ret (pj_as_result p))"
| "pj_run_op (PjRename wid pid name) ev se = andThen (pj_Rename wid pid name ev se) (\<lambda>p. ret (pj_as_result p))"
| "pj_run_op (PjArchive wid pid) ev se = andThen (pj_Archive wid pid ev se) (\<lambda>p. ret (pj_as_result p))"
| "pj_run_op (CrCreate wid pid inp) ev se = andThen (cr_Create wid pid inp ev se) (\<lambda>r. ret (minted_result r))"
| "pj_run_op (CrRevoke wid pid cid by_whom) ev se =
     andThen (cr_Revoke wid pid cid by_whom ev se) (\<lambda>c. ret (cr_as_result c))"

fun result_target :: "pj_result \<Rightarrow> string \<times> string" where
  "result_target (ProjectResult p) = (''project'', pj_PublicID p)"
| "result_target (CredentialResult c) = (''project_credential'', cr_PublicID c)"

text \<open>The database effect of a successful mutation before its audit row.\<close>

inductive pj_effect :: "svc_env \<Rightarrow> pj_op \<Rightarrow> pj_result \<Rightarrow> db \<Rightarrow> db \<Rightarrow> bool" where
  project_created: "Parse WorkspacePrefix wid = Inr (pj_WorkspaceID p) \<Longrightarrow>
    ws \<in> set (db_workspaces d) \<Longrightarrow> ws_ID ws = pj_WorkspaceID p \<Longrightarrow> \<not> ws_IsArchived ws \<Longrightarrow>
    pj_ID p \<notin> pj_ID ` set (db_projects d) \<Longrightarrow>
    pj_name_key se p \<notin> pj_name_key se ` set (db_projects d) \<Longrightarrow>
    pj_constraints p \<Longrightarrow> \<not> pj_IsArchived p \<Longrightarrow>
    pj_effect se (PjCreate wid name) (ProjectResult p) d (d\<lparr> db_projects := db_projects d @ [p] \<rparr>)"
| project_renamed: "Parse WorkspacePrefix wid = Inr (pj_WorkspaceID q) \<Longrightarrow>
    Parse ProjectPrefix pid = Inr (pj_ID q) \<Longrightarrow> q \<in> set (db_projects d) \<Longrightarrow> \<not> pj_IsArchived q \<Longrightarrow>
    pj_updated se (pj_ID q) (pj_rename_row (pj_normalizeName name) (se_now se)) d d' \<Longrightarrow>
    p \<in> set (db_projects d') \<Longrightarrow> pj_ID p = pj_ID q \<Longrightarrow>
    pj_effect se (PjRename wid pid name) (ProjectResult p) d d'"
| project_archived: "Parse WorkspacePrefix wid = Inr (pj_WorkspaceID q) \<Longrightarrow>
    Parse ProjectPrefix pid = Inr (pj_ID q) \<Longrightarrow> q \<in> set (db_projects d) \<Longrightarrow>
    pj_updated se (pj_ID q) (pj_archive_row (se_now se)) d d' \<Longrightarrow>
    p \<in> set (db_projects d') \<Longrightarrow> pj_ID p = pj_ID q \<Longrightarrow>
    pj_effect se (PjArchive wid pid) (ProjectResult p) d d'"
| credential_created: "Parse WorkspacePrefix wid = Inr (pj_WorkspaceID q) \<Longrightarrow>
    Parse ProjectPrefix pid = Inr (pj_ID q) \<Longrightarrow> q \<in> set (db_projects d) \<Longrightarrow> \<not> pj_IsArchived q \<Longrightarrow>
    cr_ProjectID c = pj_ID q \<Longrightarrow> NormalizeScopes (se_u se) (ci_Scopes inp) = Inr (cr_Scopes c) \<Longrightarrow>
    IsUsable (se_now se) c \<Longrightarrow>
    length (filter (live_of (pj_ID q)) (db_credentials d)) < MaxActiveCredentials \<Longrightarrow>
    cr_ID c \<notin> cr_ID ` set (db_credentials d) \<Longrightarrow>
    cr_KeyPrefix c \<notin> cr_KeyPrefix ` set (db_credentials d) \<Longrightarrow> cr_constraints c \<Longrightarrow>
    pj_effect se (CrCreate wid pid inp) (CredentialResult c) d
      (d\<lparr> db_credentials := db_credentials d @ [c] \<rparr>)"
| credential_revoked: "Parse WorkspacePrefix wid = Inr (pj_WorkspaceID q) \<Longrightarrow>
    Parse ProjectPrefix pid = Inr (pj_ID q) \<Longrightarrow> q \<in> set (db_projects d) \<Longrightarrow>
    Parse CredentialPrefix cid = Inr (cr_ID c) \<Longrightarrow> e \<in> set (db_credentials d) \<Longrightarrow>
    cr_ID e = cr_ID c \<Longrightarrow> cr_ProjectID e = pj_ID q \<Longrightarrow>
    list_ex (cr_unrevoked_row (cr_ID c)) (db_credentials d) \<Longrightarrow>
    c \<in> set (cr_revoked_rows (cr_ID c) (se_now se) by_whom (db_credentials d)) \<Longrightarrow>
    pj_effect se (CrRevoke wid pid cid by_whom) (CredentialResult c) d
      (d\<lparr> db_credentials := cr_revoked_rows (cr_ID c) (se_now se) by_whom (db_credentials d) \<rparr>)"

definition pj_outcome :: "svc_env \<Rightarrow> pj_op \<Rightarrow> audit_event \<Rightarrow> db \<Rightarrow> pj_result \<Rightarrow> db \<Rightarrow> audit_record \<Rightarrow> bool" where
  "pj_outcome se op ev d x d1 row \<longleftrightarrow>
     pj_effect se op x d d1 \<and> au_EventType row = ea_Action ev \<and> au_Outcome row = outcomeOf ev \<and>
     (au_ResourceType row, au_ResourceID row) = result_target x"

lemma describes_target:
  assumes "describes en row (target_event kind tid ev)" and "IsKnownResourceType kind" and "kind \<noteq> []"
  shows "au_EventType row = ea_Action ev \<and> au_Outcome row = outcomeOf ev \<and>
    au_ResourceType row = kind \<and> au_ResourceID row = tid"
  using assms toRecord_Some(2,4,7) toRecord_resource unfolding describes_def
  by (fastforce simp: target_event_def record_resource_def outcomeOf_def)

lemma describes_pj:
  "describes en row (pj_event p ev) \<Longrightarrow>
     au_EventType row = ea_Action ev \<and> au_Outcome row = outcomeOf ev \<and> au_ResourceType row = ''project'' \<and>
     au_ResourceID row = pj_PublicID p"
  unfolding pj_event_def
  by (drule describes_target) (simp_all add: IsKnownResourceType_def AllResourceTypes_def)

lemma describes_cr:
  "describes en row (cr_event c ev) \<Longrightarrow>
     au_EventType row = ea_Action ev \<and> au_Outcome row = outcomeOf ev \<and>
     au_ResourceType row = ''project_credential'' \<and>
     au_ResourceID row = cr_PublicID c"
  unfolding cr_event_def
  by (drule describes_target) (simp_all add: IsKnownResourceType_def AllResourceTypes_def)

text \<open>Every operation on an existing project starts by resolving it.\<close>

lemma audited_resolved:
  assumes "\<And>ws p w1. w_db w1 = w_db w \<Longrightarrow> Parse WorkspacePrefix wid = Inr (pj_WorkspaceID p) \<Longrightarrow>
      Parse ProjectPrefix pid = Inr (pj_ID p) \<Longrightarrow> p \<in> set (db_projects (w_db w)) \<Longrightarrow>
      audited effect (f ws p) w1"
  shows "audited effect (andThen (pj_resolve wid pid) (\<lambda>(ws, p). f ws p)) w"
proof (rule audited_andThen, rule reads)
  fix x w1 assume r: "pj_resolve wid pid w = (Inr x, w1)" "w_db w1 = w_db w"
  obtain ws p where x: "x = (ws, p)" by (cases x)
  with r pj_resolve_Inr [of wid pid w ws p w1] assms [of w1 p ws]
  show "audited effect (case x of (ws, p) \<Rightarrow> f ws p) w1" by simp
qed

lemma pj_Create_audited:
  "audited (\<lambda>p d1 row. pj_outcome se (PjCreate wid name) ev (w_db w) (ProjectResult p) d1 row)
     (pj_Create wid name ev se) w"
  unfolding pj_Create_def
proof (rule audited_andThen, rule reads, unfold Let_def, rule audited_require,
    rule audited_andThen, intro reads)
  fix ws :: workspace and w1 w2 :: world and i
  let ?p = "\<lparr> pj_ID = i, pj_WorkspaceID = ws_ID ws, pj_Name = pj_normalizeName name,
    pj_Status = StatusActive, pj_CreatedAt = se_now se, pj_UpdatedAt = se_now se, pj_ArchivedAt = None \<rparr>"
  assume w: "requireWritableWorkspace wid w = (Inr ws, w1)" and db: "w_db w1 = w_db w" "w_db w2 = w_db w1"
  from w have ws: "Parse WorkspacePrefix wid = Inr (ws_ID ws)" "ws \<in> set (db_workspaces (w_db w))"
    "\<not> ws_IsArchived ws"
    by (auto simp: requireWritableWorkspace_def split: if_splits dest!: requireWorkspace_Inr)
  show "audited (\<lambda>p d1 row. pj_outcome se (PjCreate wid name) ev (w_db w) (ProjectResult p) d1 row)
     (InTx (andThen (andThen (catch (pjr_CreateProject se ?p) (keep [PjErrNameTaken])) (\<lambda>_. ret ?p))
        (\<lambda>p. andThen (RecordTx (se_audit se) (pj_event p (ev\<lparr> ea_Workspace := ws_PublicID ws \<rparr>))) (\<lambda>_. ret p)))) w2"
    by (rule audited_InTx)
      (use db ws in \<open>auto simp: pj_outcome_def pj_IsArchived_def dest!: describes_pj pjr_CreateProject_Inr
        intro!: project_created\<close>)
qed

lemma pj_Rename_audited:
  "audited (\<lambda>p d1 row. pj_outcome se (PjRename wid pid name) ev (w_db w) (ProjectResult p) d1 row)
     (pj_Rename wid pid name ev se) w"
  unfolding pj_Rename_def Let_def
proof (rule audited_resolved, rule audited_require, rule audited_require, rule audited_InTx)
  fix ws :: workspace and q :: project and w1 :: world and p w2 row
  assume db: "w_db w1 = w_db w" and q: "Parse WorkspacePrefix wid = Inr (pj_WorkspaceID q)"
      "Parse ProjectPrefix pid = Inr (pj_ID q)" "q \<in> set (db_projects (w_db w))" "\<not> pj_IsArchived q"
    and d: "describes (se_audit se) row (pj_event p ev)"
    and m: "found (catch (pjr_UpdateProjectName se (pj_ID q) (pj_normalizeName name))
      (keep [PjErrArchived, PjErrNameTaken])) PjErrNotFound w1 = (Inr p, w2)"
  from m have "pjr_UpdateProjectName se (pj_ID q) (pj_normalizeName name) w1 = (Inr (Some p), w2)"
    by simp
  from pjr_UpdateProjectName_Inr [OF this] describes_pj [OF d] q db
  show "pj_outcome se (PjRename wid pid name) ev (w_db w) (ProjectResult p) (w_db w2) row"
    by (auto simp: pj_outcome_def intro!: project_renamed)
qed

lemma pj_Archive_audited:
  "audited (\<lambda>p d1 row. pj_outcome se (PjArchive wid pid) ev (w_db w) (ProjectResult p) d1 row)
     (pj_Archive wid pid ev se) w"
  unfolding pj_Archive_def
proof (rule audited_resolved, rule audited_InTx)
  fix ws :: workspace and q :: project and w1 :: world and p w2 row
  assume db: "w_db w1 = w_db w" and q: "Parse WorkspacePrefix wid = Inr (pj_WorkspaceID q)"
      "Parse ProjectPrefix pid = Inr (pj_ID q)" "q \<in> set (db_projects (w_db w))"
    and d: "describes (se_audit se) row (pj_event p ev)"
    and m: "found (internal (pjr_ArchiveProject se (pj_ID q))) PjErrNotFound w1 = (Inr p, w2)"
  from m have "pjr_ArchiveProject se (pj_ID q) w1 = (Inr (Some p), w2)" by simp
  from pjr_ArchiveProject_Inr [OF this] describes_pj [OF d] q db
  show "pj_outcome se (PjArchive wid pid) ev (w_db w) (ProjectResult p) (w_db w2) row"
    by (auto simp: pj_outcome_def intro!: project_archived)
qed

lemma cr_Create_audited:
  "audited (\<lambda>r d1 row. pj_outcome se (CrCreate wid pid inp) ev (w_db w) (minted_result r) d1 row)
     (cr_Create wid pid inp ev se) w"
  unfolding cr_Create_def Let_def
proof (rule audited_resolved, rule audited_require, rule audited_require)
  fix ws :: workspace and q :: project and w1 :: world
  assume db: "w_db w1 = w_db w" and q: "Parse WorkspacePrefix wid = Inr (pj_WorkspaceID q)"
      "Parse ProjectPrefix pid = Inr (pj_ID q)" "q \<in> set (db_projects (w_db w))" "\<not> pj_IsArchived q"
  let ?E = "\<lambda>r d1 row. pj_outcome se (CrCreate wid pid inp) ev (w_db w) (minted_result r) d1 row"
  have body: "audited ?E (InTx (andThen (andThen (internal (pjr_CreateCredential c)) (\<lambda>_. ret (c, t)))
      (\<lambda>r. andThen (RecordTx (se_audit se) (cr_event (fst r) ev)) (\<lambda>_. ret r)))) w2"
    if "w_db w2 = w_db w" "cr_ProjectID c = pj_ID q"
      "NormalizeScopes (se_u se) (ci_Scopes inp) = Inr (cr_Scopes c)" "IsUsable (se_now se) c"
      "length (filter (live_of (pj_ID q)) (db_credentials (w_db w))) < MaxActiveCredentials"
    for w2 c t
    by (rule audited_InTx)
      (use that q in \<open>auto simp: pj_outcome_def minted_result_def dest!: describes_cr pjr_CreateCredential_Inr
        intro!: credential_created\<close>)
  let ?label = "trim_space (ci_Label inp)"
  let ?cred = "\<lambda>scopes i minted. \<lparr> cr_ID = i, cr_ProjectID = pj_ID q, cr_Label = ?label,
    cr_KeyPrefix = mc_KeyPrefix minted, cr_KeyHash = mc_KeyHash minted,
    cr_KeyHashAlg = ''sha256'', cr_Scopes = scopes, cr_ExpiresAt = ci_ExpiresAt inp,
    cr_RevokedAt = None, cr_CreatedBy = ci_CreatedBy inp, cr_RevokedBy = None,
    cr_CreatedAt = se_now se, cr_LastUsedAt = None \<rparr>"
  let ?expiry = "case ci_ExpiresAt inp of None \<Rightarrow> True | Some t \<Rightarrow> t > se_now se"
  have usable: "?expiry \<Longrightarrow> IsUsable (se_now se) (?cred scopes i minted)" for scopes i minted
    by (simp add: IsUsable_def IsRevoked_def IsExpired_def split: option.splits)
  have "audited ?E (andThen (require (scopes \<noteq> []) PjErrInvalidScope) (\<lambda>_.
      andThen (require ?expiry PjErrInvalidExpiry) (\<lambda>_.
      andThen (internal (pjr_CountActiveCredentials (pj_ID q))) (\<lambda>active.
      andThen (require (active < MaxActiveCredentials) PjErrCredentialLimitReached) (\<lambda>_.
      andThen (internal (lift_result (New (se_rnd_id se)))) (\<lambda>i.
      andThen (internal (lift_result (MintCredential (se_sha se) (se_rnd_lookup se) (se_rnd_secret se)))) (\<lambda>minted.
        InTx (andThen (andThen (internal (pjr_CreateCredential (?cred scopes i minted)))
            (\<lambda>_. ret (?cred scopes i minted, mc_Token minted)))
          (\<lambda>r. andThen (RecordTx (se_audit se) (cr_event (fst r) ev)) (\<lambda>_. ret r)))))))))) w1"
    if "NormalizeScopes (se_u se) (ci_Scopes inp) = Inr scopes" for scopes
    by (rule audited_require, rule audited_require, rule audited_andThen, intro reads,
        rule audited_require, rule audited_andThen, intro reads, rule audited_andThen, intro reads,
        rule body)
      (use db that usable in \<open>auto simp: pjr_CountActiveCredentials_def dest!: query_Inr\<close>)
  then show "audited ?E (case NormalizeScopes (se_u se) (ci_Scopes inp) of
      Inl bad \<Rightarrow> fail (invalidScopeError bad)
    | Inr scopes \<Rightarrow> andThen (require (scopes \<noteq> []) PjErrInvalidScope) (\<lambda>_.
      andThen (require ?expiry PjErrInvalidExpiry) (\<lambda>_.
      andThen (internal (pjr_CountActiveCredentials (pj_ID q))) (\<lambda>active.
      andThen (require (active < MaxActiveCredentials) PjErrCredentialLimitReached) (\<lambda>_.
      andThen (internal (lift_result (New (se_rnd_id se)))) (\<lambda>i.
      andThen (internal (lift_result (MintCredential (se_sha se) (se_rnd_lookup se) (se_rnd_secret se)))) (\<lambda>minted.
        InTx (andThen (andThen (internal (pjr_CreateCredential (?cred scopes i minted)))
            (\<lambda>_. ret (?cred scopes i minted, mc_Token minted)))
          (\<lambda>r. andThen (RecordTx (se_audit se) (cr_event (fst r) ev)) (\<lambda>_. ret r)))))))))) w1"
    by (auto split: sum.split)
qed

lemma cr_Revoke_audited:
  "audited (\<lambda>c d1 row. pj_outcome se (CrRevoke wid pid cid by_whom) ev (w_db w) (CredentialResult c) d1 row)
     (cr_Revoke wid pid cid by_whom ev se) w"
  unfolding cr_Revoke_def
proof (rule audited_resolved)
  fix ws :: workspace and q :: project and w1 :: world
  assume db: "w_db w1 = w_db w" and q: "Parse WorkspacePrefix wid = Inr (pj_WorkspaceID q)"
      "Parse ProjectPrefix pid = Inr (pj_ID q)" "q \<in> set (db_projects (w_db w))"
  let ?E = "\<lambda>c d1 row. pj_outcome se (CrRevoke wid pid cid by_whom) ev (w_db w) (CredentialResult c) d1 row"
  have body: "audited ?E (InTx (andThen (found (catch (pjr_RevokeCredential se i by_whom)
          (keep [PjErrCredentialAlreadyRevoked])) PjErrCredentialNotFound) (\<lambda>revoked.
        andThen (RecordTx (se_audit se) (cr_event revoked ev)) (\<lambda>_. ret revoked)))) w2"
    if w2: "w_db w2 = w_db w" and i: "Parse CredentialPrefix cid = Inr i" and e: "e \<in> set (db_credentials (w_db w))"
      "cr_ID e = i" "cr_ProjectID e = pj_ID q" for w2 i e
  proof (rule audited_InTx)
    fix c w3 row assume d: "describes (se_audit se) row (cr_event c ev)"
      and "found (catch (pjr_RevokeCredential se i by_whom) (keep [PjErrCredentialAlreadyRevoked]))
        PjErrCredentialNotFound w2 = (Inr c, w3)"
    then have "pjr_RevokeCredential se i by_whom w2 = (Inr (Some c), w3)" by simp
    from pjr_RevokeCredential_Inr [OF this] describes_cr [OF d] w2 i e q
      credential_revoked [of wid q pid "w_db w" cid c e se by_whom]
    show "?E c (w_db w3) row" by (auto simp: pj_outcome_def)
  qed
  have "audited ?E (andThen (internal (pjr_GetCredential i)) (\<lambda>existing.
      andThen (require (case existing of None \<Rightarrow> False | Some c \<Rightarrow> cr_ProjectID c = pj_ID q) PjErrCredentialNotFound) (\<lambda>_.
        InTx (andThen (found (catch (pjr_RevokeCredential se i by_whom)
          (keep [PjErrCredentialAlreadyRevoked])) PjErrCredentialNotFound) (\<lambda>revoked.
        andThen (RecordTx (se_audit se) (cr_event revoked ev)) (\<lambda>_. ret revoked)))))) w1"
    if "Parse CredentialPrefix cid = Inr i" for i
  proof (rule audited_andThen, intro reads, rule audited_require)
    fix x w2
    assume "internal (pjr_GetCredential i) w1 = (Inr x, w2)" "w_db w2 = w_db w1"
      and x: "case x of None \<Rightarrow> False | Some c \<Rightarrow> cr_ProjectID c = pj_ID q"
    then obtain e where "e \<in> set (db_credentials (w_db w))" "cr_ID e = i" "cr_ProjectID e = pj_ID q" "w_db w2 = w_db w"
      using db by (auto split: option.splits dest!: pjr_GetCredential_Inr find_dests)
    then show "audited ?E (InTx (andThen (found (catch (pjr_RevokeCredential se i by_whom)
          (keep [PjErrCredentialAlreadyRevoked])) PjErrCredentialNotFound) (\<lambda>revoked.
        andThen (RecordTx (se_audit se) (cr_event revoked ev)) (\<lambda>_. ret revoked)))) w2"
      using body that by blast
  qed
  then show "audited ?E (case Parse CredentialPrefix cid of Inl _ \<Rightarrow> fail PjErrInvalidCredentialID
      | Inr i \<Rightarrow> andThen (internal (pjr_GetCredential i)) (\<lambda>existing.
      andThen (require (case existing of None \<Rightarrow> False | Some c \<Rightarrow> cr_ProjectID c = pj_ID q) PjErrCredentialNotFound) (\<lambda>_.
        InTx (andThen (found (catch (pjr_RevokeCredential se i by_whom)
          (keep [PjErrCredentialAlreadyRevoked])) PjErrCredentialNotFound) (\<lambda>revoked.
        andThen (RecordTx (se_audit se) (cr_event revoked ev)) (\<lambda>_. ret revoked)))))) w1"
    by (auto split: sum.split)
qed

lemma pj_run_op_audited:
  "audited (pj_outcome se op ev (w_db w)) (pj_run_op op ev se) w"
proof (cases op)
  case (PjCreate wid name)
  from audited_map [OF pj_Create_audited] show ?thesis by (simp add: PjCreate) (simp add: pj_as_result_def)
next
  case (PjRename wid pid name)
  from audited_map [OF pj_Rename_audited] show ?thesis by (simp add: PjRename) (simp add: pj_as_result_def)
next
  case (PjArchive wid pid)
  from audited_map [OF pj_Archive_audited] show ?thesis by (simp add: PjArchive) (simp add: pj_as_result_def)
next
  case (CrCreate wid pid inp)
  from audited_map [OF cr_Create_audited] show ?thesis by (simp add: CrCreate)
next
  case (CrRevoke wid pid cid by_whom)
  from audited_map [OF cr_Revoke_audited] show ?thesis by (simp add: CrRevoke) (simp add: cr_as_result_def)
qed

section \<open>The invariant and what rows may become\<close>

definition pj_tables_ok :: "(string \<Rightarrow> string) \<Rightarrow> db \<Rightarrow> bool" where
  "pj_tables_ok lower d \<longleftrightarrow>
     distinct (map pj_ID (db_projects d)) \<and>
     distinct (map (\<lambda>p. (pj_WorkspaceID p, lower (pj_Name p))) (db_projects d)) \<and>
     list_all pj_constraints (db_projects d) \<and>
     distinct (map cr_ID (db_credentials d)) \<and> distinct (map cr_KeyPrefix (db_credentials d)) \<and>
     list_all cr_constraints (db_credentials d) \<and>
     cr_ProjectID ` set (db_credentials d) \<subseteq> pj_ID ` set (db_projects d) \<and>
     list_all (\<lambda>i. length (filter (live_of i) (db_credentials d)) \<le> MaxActiveCredentials)
       (map cr_ProjectID (db_credentials d))"

definition pj_row_evolves :: "project \<Rightarrow> project \<Rightarrow> bool" where
  "pj_row_evolves a b \<longleftrightarrow>
     pj_ID b = pj_ID a \<and> pj_WorkspaceID b = pj_WorkspaceID a \<and> pj_CreatedAt b = pj_CreatedAt a \<and>
     (if pj_IsArchived a then b = a else True)"

text \<open>Of a credential only \<^verbatim>\<open>last_used_at\<close> and, once, the revocation columns
  change.\<close>

definition cr_row_evolves :: "credential \<Rightarrow> credential \<Rightarrow> bool" where
  "cr_row_evolves a b \<longleftrightarrow>
     b = a\<lparr> cr_LastUsedAt := cr_LastUsedAt b, cr_RevokedAt := cr_RevokedAt b, cr_RevokedBy := cr_RevokedBy b \<rparr> \<and>
     (if IsRevoked a then cr_RevokedAt b = cr_RevokedAt a \<and> cr_RevokedBy b = cr_RevokedBy a else True)"

lemma cr_row_evolves_fields:
  assumes "cr_row_evolves a b"
  shows "cr_ID b = cr_ID a" "cr_KeyPrefix b = cr_KeyPrefix a" "cr_KeyHash b = cr_KeyHash a"
    "cr_ProjectID b = cr_ProjectID a" "cr_Scopes b = cr_Scopes a" "cr_ExpiresAt b = cr_ExpiresAt a"
    "IsRevoked a \<Longrightarrow> IsRevoked b"
proof -
  from assms have b: "b = a\<lparr> cr_LastUsedAt := cr_LastUsedAt b, cr_RevokedAt := cr_RevokedAt b, cr_RevokedBy := cr_RevokedBy b \<rparr>"
    by (simp add: cr_row_evolves_def)
  show "cr_ID b = cr_ID a" by (subst b) simp
  show "cr_KeyPrefix b = cr_KeyPrefix a" by (subst b) simp
  show "cr_KeyHash b = cr_KeyHash a" by (subst b) simp
  show "cr_ProjectID b = cr_ProjectID a" by (subst b) simp
  show "cr_Scopes b = cr_Scopes a" by (subst b) simp
  show "cr_ExpiresAt b = cr_ExpiresAt a" by (subst b) simp
  show "IsRevoked a \<Longrightarrow> IsRevoked b" using assms by (simp add: cr_row_evolves_def IsRevoked_def)
qed

interpretation pj_row: evolving pj_row_evolves
  by unfold_locales (auto simp: pj_row_evolves_def split: if_splits)

interpretation cr_row: evolving cr_row_evolves
proof
  show "cr_row_evolves a a" for a by (simp add: cr_row_evolves_def)
next
  fix a b c assume ab: "cr_row_evolves a b" and bc: "cr_row_evolves b c"
  show "cr_row_evolves a c"
  proof -
    have "c = a\<lparr> cr_LastUsedAt := cr_LastUsedAt c, cr_RevokedAt := cr_RevokedAt c, cr_RevokedBy := cr_RevokedBy c \<rparr>"
      using ab bc unfolding cr_row_evolves_def
      by (cases a; cases b; cases c) simp
    with ab bc show ?thesis by (auto simp: cr_row_evolves_def IsRevoked_def split: if_splits)
  qed
qed

abbreviation tables_grow :: "db \<Rightarrow> db \<Rightarrow> bool" where
  "tables_grow d d' \<equiv> grows pj_row_evolves (db_projects d) (db_projects d') \<and>
     grows cr_row_evolves (db_credentials d) (db_credentials d')"

lemma live_count_bound:
  assumes "pj_tables_ok lower d"
  shows "length (filter (live_of i) (db_credentials d)) \<le> MaxActiveCredentials"
proof (cases "i \<in> cr_ProjectID ` set (db_credentials d)")
  case True
  with assms show ?thesis by (auto simp: pj_tables_ok_def list_all_iff)
next
  case False
  then have "filter (live_of i) (db_credentials d) = []" by (auto simp: filter_empty_conv live_of_def)
  then show ?thesis by simp
qed

lemma pj_update_keeps:
  assumes u: "pj_updated se i f d d'" and ok: "pj_tables_ok (se_lower se) d"
    and f: "\<And>p. \<not> pj_IsArchived p \<Longrightarrow> pj_row_evolves p (f p)"
  shows "pj_tables_ok (se_lower se) d' \<and> tables_grow d d'"
proof -
  let ?f = "\<lambda>r. if pj_active_row i r then f r else r"
  have ev: "pj_row_evolves p (?f p)" for p
    using f [of p] by (auto simp: pj_active_row_def pj_IsArchived_def pj_row.evolves_refl)
  then have ids: "pj_ID (?f p) = pj_ID p" for p by (simp add: pj_row_evolves_def)
  have keys: "map pj_ID (pj_rewrite i f (db_projects d)) = map pj_ID (db_projects d)"
    by (simp add: pj_rewrite_def ids)
  then have "pj_ID ` set (pj_rewrite i f (db_projects d)) = pj_ID ` set (db_projects d)"
    by (metis list.set_map)
  moreover have "list_all pj_constraints (pj_rewrite i f (db_projects d))"
    using u ok by (auto simp: pj_updated_def pj_tables_ok_def list_all_iff pj_rewrite_def)
  moreover have "distinct (map (pj_name_key se) (pj_rewrite i f (db_projects d)))"
    "d' = d\<lparr> db_projects := pj_rewrite i f (db_projects d) \<rparr>"
    using u by (auto simp: pj_updated_def)
  ultimately show ?thesis
    using ok keys pj_row.grows_map [of "db_projects d" ?f, OF ev, folded pj_rewrite_def]
    by (simp add: pj_tables_ok_def pj_name_key_def [abs_def] cr_row.grows_refl)
qed

lemma filter_map_shrinks:
  "(\<And>c. P (f c) \<Longrightarrow> Q c) \<Longrightarrow> length (filter P (map f xs)) \<le> length (filter Q xs)"
  by (induction xs) (auto intro: le_SucI)

lemma cr_map_keeps:
  assumes ok: "pj_tables_ok lower d" and ev: "\<And>c. cr_row_evolves c (f c)"
    and con: "\<And>c. cr_constraints c \<Longrightarrow> cr_constraints (f c)"
  shows "pj_tables_ok lower (d\<lparr> db_credentials := map f (db_credentials d) \<rparr>) \<and>
     tables_grow d (d\<lparr> db_credentials := map f (db_credentials d) \<rparr>)"
proof -
  note fields = cr_row_evolves_fields [OF ev]
  have live: "live_of i (f c) \<Longrightarrow> live_of i c" for i c
    using ev [of c] fields(4,7) [of c] by (cases "cr_RevokedAt c") (auto simp: live_of_def IsRevoked_def)
  have "length (filter (live_of i) (map f (db_credentials d))) \<le> length (filter (live_of i) (db_credentials d))" for i
    using live by (rule filter_map_shrinks)
  with live_count_bound [OF ok] have "length (filter (live_of i) (map f (db_credentials d))) \<le> MaxActiveCredentials" for i
    using le_trans by blast
  with ok con show ?thesis
    by (auto simp: pj_tables_ok_def fields o_def list_all_iff cr_row.grows_map ev pj_row.grows_refl image_image)
qed

lemma pj_effect_keeps:
  assumes "pj_effect se op x d d'" and "pj_tables_ok (se_lower se) d"
  shows "pj_tables_ok (se_lower se) d' \<and> tables_grow d d'"
  using assms
proof (cases rule: pj_effect.cases)
  case (project_created wid p ws name)
  with assms(2) show ?thesis
    by (auto simp: pj_tables_ok_def pj_name_key_def pj_row.grows_append cr_row.grows_refl)
next
  case (project_renamed wid q pid name p)
  show ?thesis
    by (rule pj_update_keeps [OF project_renamed(7) assms(2)]) (simp add: pj_row_evolves_def)
next
  case (project_archived wid q pid p)
  show ?thesis
    by (rule pj_update_keeps [OF project_archived(6) assms(2)]) (simp add: pj_row_evolves_def)
next
  case (credential_created wid q pid c inp)
  have cap: "length (filter (live_of i) (db_credentials d @ [c])) \<le> MaxActiveCredentials" for i
    using live_count_bound [OF assms(2), of i] credential_created by (auto simp: live_of_def)
  show ?thesis
    using assms(2) cap credential_created
    by (auto simp: pj_tables_ok_def list_all_iff cr_row.grows_append pj_row.grows_refl simp del: filter_append)
next
  case (credential_revoked wid q pid cid c e by_whom)
  show ?thesis
    unfolding credential_revoked(3) cr_revoked_rows_def
    by (rule cr_map_keeps [OF assms(2)])
      (auto simp: cr_row_evolves_def IsRevoked_def cr_unrevoked_row_def cr_constraints_def)
qed

section \<open>Sequences of requests\<close>

text \<open>A request is a mutation or an authentication.\<close>

datatype pj_request =
    Mutate pj_op audit_event svc_env
  | Authenticate "string \<Rightarrow> 8 word list" int string

fun pj_request_step :: "pj_request \<Rightarrow> world \<Rightarrow> world" where
  "pj_request_step (Mutate op ev se) w = snd (pj_run_op op ev se w)"
| "pj_request_step (Authenticate sha now token) w = snd (AuthenticateCredential sha now token w)"

fun pj_requests :: "pj_request list \<Rightarrow> world \<Rightarrow> world" where
  "pj_requests [] w = w"
| "pj_requests (r # rs) w = pj_requests rs (pj_request_step r w)"

text \<open>All requests run against one database, so with one \<^verbatim>\<open>lower()\<close>.\<close>

fun same_lower :: "(string \<Rightarrow> string) \<Rightarrow> pj_request \<Rightarrow> bool" where
  "same_lower lower (Mutate op ev se) = (se_lower se = lower)"
| "same_lower lower (Authenticate sha now token) = True"

definition touch_row :: "string \<Rightarrow> int \<Rightarrow> credential \<Rightarrow> credential" where
  "touch_row i now c =
     (if cr_ID c = i \<and> (case cr_LastUsedAt c of None \<Rightarrow> True | Some t \<Rightarrow> t < now - lastUsedThrottle)
      then c\<lparr> cr_LastUsedAt := Some now \<rparr> else c)"

lemma touch_db:
  "w_db (snd (pjr_TouchLastUsed i now w)) = w_db w \<or>
   w_db (snd (pjr_TouchLastUsed i now w)) =
     (w_db w)\<lparr> db_credentials := map (touch_row i now) (db_credentials (w_db w)) \<rparr>"
  by (auto simp: pjr_TouchLastUsed_def stmt_def update_where_def touch_row_def [abs_def]
      split: prod.splits bool.splits)

lemma AuthenticateCredential_db:
  "\<exists>i. w_db (snd (AuthenticateCredential sha now token w)) \<in>
     {w_db w, (w_db w)\<lparr> db_credentials := map (touch_row i now) (db_credentials (w_db w)) \<rparr>}"
proof (cases "parseToken token")
  case (Some parsed)
  obtain r w1 where q: "pjr_FindByKeyPrefix (pt_lookup parsed) w = (r, w1)"
    by (cases "pjr_FindByKeyPrefix (pt_lookup parsed) w")
  note db = read_onlyD [OF read_only_FindByKeyPrefix q]
  show ?thesis
  proof (cases r)
    case (Inr row)
    with Some q db touch_db [where w = w1 and now = now] show ?thesis
      by (auto simp: AuthenticateCredential_def andThen_def ret_def secretMatches_def Let_def attempt_def
          split: option.splits)
  qed (use Some q db in \<open>simp add: AuthenticateCredential_def andThen_def\<close>)
qed (simp add: AuthenticateCredential_def ret_def)

lemma pj_request_keeps:
  assumes "pj_tables_ok lower (w_db w)" and "same_lower lower r"
  shows "pj_tables_ok lower (w_db (pj_request_step r w)) \<and> tables_grow (w_db w) (w_db (pj_request_step r w))"
proof (cases r)
  case (Mutate op ev se)
  with assms have l: "se_lower se = lower" by simp
  from pj_run_op_audited [of se op ev w] show ?thesis
  proof (cases "fst (pj_run_op op ev se w)")
    case (Inl e)
    with pj_run_op_audited [of se op ev w] assms Mutate show ?thesis
      by (simp add: audited_def atomic_outcome_def pj_row.grows_refl cr_row.grows_refl)
  next
    case (Inr x)
    with pj_run_op_audited [of se op ev w] obtain d1 row where
      d1: "pj_effect se op x (w_db w) d1" and d: "w_db (snd (pj_run_op op ev se w)) = with_audit row d1"
      by (auto simp: audited_def atomic_outcome_def pj_outcome_def)
    have same: "pj_tables_ok lower (with_audit row d1) = pj_tables_ok lower d1"
      "tables_grow d0 (with_audit row d1) = tables_grow d0 d1" for d0
      by (simp_all add: pj_tables_ok_def with_audit_def)
    from pj_effect_keeps [OF d1] assms(1) l show ?thesis by (simp add: Mutate d same)
  qed
next
  case (Authenticate sha now token)
  have touch: "cr_row_evolves c (touch_row i now c)" "cr_constraints c \<Longrightarrow> cr_constraints (touch_row i now c)"
    for i c by (auto simp: cr_row_evolves_def touch_row_def cr_constraints_def)
  show ?thesis
    using AuthenticateCredential_db [of sha now token w] cr_map_keeps [OF assms(1) touch] assms(1)
    by (auto simp: Authenticate pj_row.grows_refl cr_row.grows_refl)
qed

lemma pj_requests_keep:
  "pj_tables_ok lower (w_db w) \<Longrightarrow> list_all (same_lower lower) rs \<Longrightarrow>
     pj_tables_ok lower (w_db (pj_requests rs w)) \<and> tables_grow (w_db w) (w_db (pj_requests rs w))"
proof (induction rs arbitrary: w)
  case (Cons r rs)
  from Cons.prems pj_request_keeps [of lower w r] have
    step: "pj_tables_ok lower (w_db (pj_request_step r w))" "tables_grow (w_db w) (w_db (pj_request_step r w))"
    by auto
  with Cons.IH [OF step(1)] Cons.prems(2) show ?case
    by (auto intro: pj_row.grows_trans cr_row.grows_trans)
qed (simp add: pj_row.grows_refl cr_row.grows_refl)

section \<open>Properties\<close>

text \<open>C8: every project and credential mutation, whichever statement fails and wherever,
  either leaves the whole database untouched or has exactly its own effect
  (created, renamed, archived, minted, revoked, under the checks the service
  makes) plus one audit row whose event is the request's and whose resource is
  the row returned.\<close>

theorem project_mutation_atomic:
  assumes "pj_run_op op ev se w = (r, w')"
  shows "case r of
       Inl _ \<Rightarrow> w_db w' = w_db w
     | Inr x \<Rightarrow> \<exists>d1 row. pj_effect se op x (w_db w) d1 \<and> w_db w' = with_audit row d1 \<and>
         au_EventType row = ea_Action ev \<and>
         (au_ResourceType row, au_ResourceID row) = result_target x"
  using pj_run_op_audited [of se op ev w] assms
  by (auto simp: audited_def atomic_outcome_def pj_outcome_def split: sum.splits)

text \<open>Over any sequence of project and credential requests and authentications,
  failing or not, the tables keep unique ids, unique key prefixes, unique names
  per workspace, their constraints, no orphan credential and at most ten
  unrevoked credentials per project; no row is removed, an archived project never
  changes, and of a credential only the last use changes and, once, the
  revocation.\<close>

theorem project_lifecycle:
  assumes "pj_tables_ok lower (w_db w)" and "list_all (same_lower lower) rs"
  shows "pj_tables_ok lower (w_db (pj_requests rs w)) \<and>
     grows pj_row_evolves (db_projects (w_db w)) (db_projects (w_db (pj_requests rs w))) \<and>
     grows cr_row_evolves (db_credentials (w_db w)) (db_credentials (w_db (pj_requests rs w)))"
  using pj_requests_keep [OF assms] by simp

definition demo_uuid :: string where
  "demo_uuid = ''7c9e6679-7425-40de-944b-e07fc1f90ae7''"

definition demo_pj :: project where
  "demo_pj = \<lparr> pj_ID = demo_uuid, pj_WorkspaceID = demo_ws_id, pj_Name = ''api'',
     pj_Status = StatusActive, pj_CreatedAt = 1, pj_UpdatedAt = 1, pj_ArchivedAt = None \<rparr>"

definition demo_sha :: "string \<Rightarrow> 8 word list" where
  "demo_sha s = replicate 32 (of_nat (length s))"

definition demo_minted :: minted_credential where
  "demo_minted = (case MintCredential demo_sha (Inr (replicate 10 1) :: go_error + 8 word list)
     (Inr (replicate 32 2)) of Inr m \<Rightarrow> m)"

lemma demo_minted_value [code]:
  "demo_minted = \<lparr> mc_KeyPrefix = ''aeaqcaibaeaqcaib'', mc_KeyHash = replicate 32 52,
     mc_Token = ''lw_sk_aeaqcaibaeaqcaib_aibaeaqcaibaeaqcaibaeaqcaibaeaqcaibaeaqcaibaeaqcaiba'' \<rparr>"
  by code_simp

definition demo_credential :: credential where
  "demo_credential = \<lparr> cr_ID = demo_uuid, cr_ProjectID = demo_uuid, cr_Label = ''ci'',
     cr_KeyPrefix = mc_KeyPrefix demo_minted, cr_KeyHash = mc_KeyHash demo_minted,
     cr_KeyHashAlg = ''sha256'', cr_Scopes = [''users:read''], cr_ExpiresAt = Some 1000,
     cr_RevokedAt = None, cr_CreatedBy = ''op'', cr_RevokedBy = None, cr_CreatedAt = 1,
     cr_LastUsedAt = None \<rparr>"

definition demo_project_world :: world where
  "demo_project_world = \<lparr> w_db = \<lparr> db_workspaces = [demo_workspace], db_projects = [demo_pj],
     db_credentials = [demo_credential], db_connections = [], db_audit = [] \<rparr>, w_faults = [] \<rparr>"

definition demo_svc :: svc_env where
  "demo_svc = \<lparr> se_now = 5, se_rnd_id = Inr (replicate 16 3), se_rnd_lookup = Inr (replicate 10 4),
     se_rnd_secret = Inr (replicate 32 5), se_sha = demo_sha, se_u = id, se_lower = id,
     se_audit = demo_env \<rparr>"

definition demo_revoke :: pj_op where
  "demo_revoke = CrRevoke (''ws_'' @ demo_ws_id) (''prj_'' @ demo_uuid) (''key_'' @ demo_uuid) ''op2''"

theorem project_mutation_atomic_witness:
  "\<exists>w' c row d1. pj_run_op demo_revoke demo_event demo_svc demo_project_world = (Inr (CredentialResult c), w') \<and>
     w_db w' = with_audit row d1 \<and> au_ResourceID row = cr_PublicID c"
proof -
  obtain r w' where r: "pj_run_op demo_revoke demo_event demo_svc demo_project_world = (r, w')"
    by (cases "pj_run_op demo_revoke demo_event demo_svc demo_project_world")
  have "is_ok (fst (pj_run_op demo_revoke demo_event demo_svc demo_project_world))" by code_simp
  with r obtain x where x: "r = Inr x" by (auto simp: is_ok_iff)
  from r x obtain c where "x = CredentialResult c" by (auto simp: demo_revoke_def cr_as_result_def)
  with project_mutation_atomic [OF r] x r show ?thesis by auto
qed

theorem project_lifecycle_witness:
  "grows cr_row_evolves [demo_credential] (db_credentials (w_db (pj_requests
     [Mutate demo_revoke demo_event demo_svc, Authenticate demo_sha 7 (mc_Token demo_minted)] demo_project_world)))"
proof -
  have creds: "db_credentials (w_db demo_project_world) = [demo_credential]"
    by (simp add: demo_project_world_def)
  have "pj_tables_ok id (w_db demo_project_world)" by code_simp
  moreover have "list_all (same_lower id) [Mutate demo_revoke demo_event demo_svc,
      Authenticate demo_sha 7 (mc_Token demo_minted)]" by (simp add: demo_svc_def)
  ultimately show ?thesis by (rule project_lifecycle [of id demo_project_world, unfolded creds, THEN conjunct2, THEN conjunct2])
qed

end
