(* ===== verification/ControlPlane.thy ===== *)
theory ControlPlane
  imports AuditMemory IdentityRuntime ProjectLife ConnectionLife
begin

text \<open>
  What the handlers of workspaces, projects and connections share: the event a
  mutation is announced with and what becomes of it (\<^verbatim>\<open>ControlPlaneEvent\<close>,
  \<^verbatim>\<open>RecordControlPlaneOutcome\<close> of \<^verbatim>\<open>internal/logging/gin_helpers.go\<close>, over the sinks
  \<^verbatim>\<open>audit_sink.go\<close> wires), the error envelope, and the shape of a handler. Its state
  is the database, the log and the ring buffer.

  A service completes the event in place, inside its transaction. The model's
  services do not hand the event back, so the completed event is computed from the
  row they return; when only the COMMIT failed the row is the one they would have
  returned (\<open>uncommitted\<close>).
\<close>

section \<open>State\<close>

record cp_state =
  cp_world :: world
  cp_log :: "audit_event list"
  cp_ring :: memory_recorder

text \<open>What a request draws from its surroundings: the caller's address, the query, the
  text of an error that is not of the catalogue, the clock after the service, what the
  recorder draws outside a transaction, and what the services draw.\<close>

record cp_handler =
  ch_ip :: string
  ch_query :: "string \<Rightarrow> string"
  ch_text :: "go_error \<Rightarrow> string"
  ch_now :: int
  ch_late :: audit_env
  ch_svc :: svc_env
  ch_conn :: conn_env

section \<open>The sinks\<close>

text \<open>The log sink only formats: its state is the events it was given.\<close>

definition log_sink :: "cp_state recorder" where
  "log_sink e s = (s\<lparr> cp_log := cp_log s @ [e] \<rparr>, False)"

definition durable_sink :: "audit_env \<Rightarrow> cp_state recorder" where
  "durable_sink en e s = (s\<lparr> cp_world := Record en e (cp_world s) \<rparr>, False)"

definition ring_sink :: "int \<Rightarrow> cp_state recorder" where
  "ring_sink now e s = (s\<lparr> cp_ring := RecordMemory now e (cp_ring s) \<rparr>, False)"

definition WireDefaultWithMemory :: "audit_env \<Rightarrow> int \<Rightarrow> cp_state recorder" where
  "WireDefaultWithMemory en now =
     (\<lambda>e s. (MultiRecord [Some log_sink, Some (durable_sink en), Some (ring_sink now)] e s, False))"

definition audit_Record :: "cp_handler \<Rightarrow> audit_event \<Rightarrow> cp_state \<Rightarrow> cp_state" where
  "audit_Record h e s =
     fst (RecordDefault (WireDefaultWithMemory (ch_late h) (ch_now h)) (ch_now h) e s)"

lemma audit_Record_eq:
  "audit_Record h e s = s\<lparr> cp_log := cp_log s @ [stamp (ch_now h) e],
     cp_world := Record (ch_late h) (stamp (ch_now h) e) (cp_world s),
     cp_ring := RecordMemory (ch_now h) (stamp (ch_now h) e) (cp_ring s) \<rparr>"
  by (simp add: audit_Record_def RecordDefault_def WireDefaultWithMemory_def log_sink_def
      durable_sink_def ring_sink_def)

section \<open>The event of a mutation\<close>

definition ControlPlaneEvent :: "cp_handler \<Rightarrow> http_ctx \<Rightarrow> string \<Rightarrow> audit_event" where
  "ControlPlaneEvent h c action = EventFromGin (ch_ip h) c (zero_event\<lparr> ea_Action := action \<rparr>)"

text \<open>\<^verbatim>\<open>err.Error()\<close>: a catalogued error's text is its code.\<close>

fun error_text :: "cp_handler \<Rightarrow> go_error \<Rightarrow> string" where
  "error_text h (AppError code msg st) = code"
| "error_text h e = ch_text h e"

definition RecordControlPlaneOutcome ::
  "cp_handler \<Rightarrow> audit_event \<Rightarrow> go_error option \<Rightarrow> cp_state \<Rightarrow> cp_state" where
  "RecordControlPlaneOutcome h ev err s =
     (case err of
        None \<Rightarrow> audit_Record h (ev\<lparr> ea_Persisted := True \<rparr>) s
      | Some e \<Rightarrow>
          if e = ErrNotRecorded then s
          else audit_Record h (ev\<lparr> ea_Reason := error_text h e \<rparr>) s)"

text \<open>\<open>m\<close> failed in \<open>w\<close> at its \<open>n\<close>-th statement. Run again with that statement let
  through and the next one refused, it returns only if that statement was its last,
  the COMMIT.\<close>

definition uncommitted :: "'a act \<Rightarrow> world \<Rightarrow> 'a option" where
  "uncommitted m w =
     (let n = length (w_faults w) - length (w_faults (snd (m w))) in
      if n = 0 then None
      else case fst (m (w\<lparr> w_faults := take (n - 1) (w_faults w) @ [False, True] \<rparr>)) of
        Inl _ \<Rightarrow> None
      | Inr x \<Rightarrow> Some x)"

definition completed :: "('a \<Rightarrow> audit_event \<Rightarrow> audit_event) \<Rightarrow> 'a act \<Rightarrow> world \<Rightarrow> audit_event \<Rightarrow> audit_event" where
  "completed complete m w ev =
     (case (case fst (m w) of Inr x \<Rightarrow> Some x | Inl _ \<Rightarrow> uncommitted m w) of
        None \<Rightarrow> ev
      | Some x \<Rightarrow> complete x ev)"

section \<open>Replies\<close>

datatype 'p cp_reply = CpError nat string string string | CpJSON nat 'p | CpStatus nat

text \<open>The three \<^verbatim>\<open>respondError\<close> functions, each over its package's error type.\<close>

definition cp_respondError :: "http_ctx \<Rightarrow> go_error \<Rightarrow> 'p cp_reply" where
  "cp_respondError c e =
     (case e of
        AppError code msg st \<Rightarrow> CpError st code msg (FromContext c)
      | _ \<Rightarrow> CpError 500 ''internal_error'' ''Internal error'' (FromContext c))"

definition immutableFieldError :: "string \<Rightarrow> go_error" where
  "immutableFieldError field = AppError ''invalid_request'' (field @ '' is immutable and cannot be changed'') 400"

section \<open>The shape of a handler\<close>

type_synonym 'p cp_step = "cp_state \<Rightarrow> 'p cp_reply \<times> cp_state"

definition refuse_with :: "http_ctx \<Rightarrow> go_error \<Rightarrow> 'p cp_step" where
  "refuse_with c e s = (cp_respondError c e, s)"

text \<open>A body that \<^verbatim>\<open>json.Decoder\<close> does not accept is \<^const>\<open>None\<close>.\<close>

definition decodeJSON :: "http_ctx \<Rightarrow> go_error \<Rightarrow> 'q option \<Rightarrow> ('q \<Rightarrow> 'p cp_step) \<Rightarrow> 'p cp_step" where
  "decodeJSON c e body f = (case body of None \<Rightarrow> refuse_with c e | Some req \<Rightarrow> f req)"

definition cp_read :: "http_ctx \<Rightarrow> 'a act \<Rightarrow> ('a \<Rightarrow> 'p cp_step) \<Rightarrow> 'p cp_step" where
  "cp_read c m ok s =
     (let (r, w) = m (cp_world s); s = s\<lparr> cp_world := w \<rparr> in
      case r of Inl e \<Rightarrow> (cp_respondError c e, s) | Inr x \<Rightarrow> ok x s)"

definition cp_answer :: "'p cp_reply \<Rightarrow> 'p cp_step" where
  "cp_answer rep s = (rep, s)"

definition cp_mutate ::
  "cp_handler \<Rightarrow> http_ctx \<Rightarrow> ('a \<Rightarrow> audit_event \<Rightarrow> audit_event) \<Rightarrow> audit_event \<Rightarrow>
     (audit_event \<Rightarrow> 'a act) \<Rightarrow> ('a \<Rightarrow> 'p cp_step) \<Rightarrow> 'p cp_step" where
  "cp_mutate h c complete ev svc ok s =
     (let (r, w) = svc ev (cp_world s);
          ev' = completed complete (svc ev) (cp_world s) ev;
          s = RecordControlPlaneOutcome h ev' (case r of Inl e \<Rightarrow> Some e | Inr _ \<Rightarrow> None)
                (s\<lparr> cp_world := w \<rparr>)
      in case r of Inl e \<Rightarrow> (cp_respondError c e, s) | Inr x \<Rightarrow> ok x s)"

end
