(* ===== verification/ControlHandlers.thy ===== *)
theory ControlHandlers
  imports ControlPlane
begin

text \<open>
  The HTTP handlers of the control plane: \<^verbatim>\<open>handler.go\<close> and \<^verbatim>\<open>dto.go\<close> of
  \<^verbatim>\<open>internal/workspace\<close>, \<^verbatim>\<open>internal/project\<close> and \<^verbatim>\<open>internal/connection\<close>. A body has
  been decoded or is \<^const>\<open>None\<close>; a response is the record that is encoded. Instants
  stay numbers.
\<close>

section \<open>Workspaces\<close>

record workspace_response =
  wr_ID :: string
  wr_Slug :: string
  wr_Name :: string
  wr_Status :: string
  wr_CreatedAt :: int
  wr_UpdatedAt :: int
  wr_ArchivedAt :: "int option"

record create_workspace_request =
  cw_Name :: string
  cw_Slug :: string

record update_workspace_request =
  uw_Name :: "string option"
  uw_Slug :: "string option"
  uw_Status :: "string option"

fun archive_status_text :: "archive_status \<Rightarrow> string" where
  "archive_status_text StatusActive = ''active''"
| "archive_status_text StatusArchived = ''archived''"

definition ws_toResponse :: "workspace \<Rightarrow> workspace_response" where
  "ws_toResponse w = \<lparr> wr_ID = ws_PublicID w, wr_Slug = ws_Slug w, wr_Name = ws_Name w,
     wr_Status = archive_status_text (ws_Status w), wr_CreatedAt = ws_CreatedAt w,
     wr_UpdatedAt = ws_UpdatedAt w, wr_ArchivedAt = ws_ArchivedAt w \<rparr>"

section \<open>Projects and credentials\<close>

record project_response =
  pr_ID :: string
  pr_WorkspaceID :: string
  pr_Name :: string
  pr_Status :: string
  pr_ActiveCredentials :: nat
  pr_CreatedAt :: int
  pr_UpdatedAt :: int
  pr_ArchivedAt :: "int option"

record credential_response =
  cs_ID :: string
  cs_ProjectID :: string
  cs_Label :: string
  cs_KeyPrefix :: string
  cs_Scopes :: "string list"
  cs_Status :: string
  cs_ExpiresAt :: "int option"
  cs_RevokedAt :: "int option"
  cs_LastUsedAt :: "int option"
  cs_CreatedAt :: int
  cs_CreatedBy :: string
  cs_RevokedBy :: "string option"

record update_project_request =
  upj_Name :: "string option"
  upj_Status :: "string option"
  upj_WorkspaceID :: "string option"

record create_credential_request =
  cc_Label :: string
  cc_Scopes :: "string list"
  cc_ExpiresAt :: "int option"

definition credentialStatus :: "credential \<Rightarrow> int \<Rightarrow> string" where
  "credentialStatus c now =
     (if IsRevoked c then ''revoked'' else if IsExpired now c then ''expired'' else ''active'')"

definition toProjectResponse :: "project \<Rightarrow> nat \<Rightarrow> project_response" where
  "toProjectResponse p activeCredentials = \<lparr> pr_ID = pj_PublicID p, pr_WorkspaceID = pj_WorkspacePublicID p,
     pr_Name = pj_Name p, pr_Status = archive_status_text (pj_Status p),
     pr_ActiveCredentials = activeCredentials, pr_CreatedAt = pj_CreatedAt p,
     pr_UpdatedAt = pj_UpdatedAt p, pr_ArchivedAt = pj_ArchivedAt p \<rparr>"

text \<open>A project that is not in the map has the zero count.\<close>

definition count_of :: "(string \<times> nat) list \<Rightarrow> string \<Rightarrow> nat" where
  "count_of counts i = (case map_of counts i of None \<Rightarrow> 0 | Some n \<Rightarrow> n)"

definition toCredentialResponse :: "credential \<Rightarrow> string \<Rightarrow> int \<Rightarrow> credential_response" where
  "toCredentialResponse c projectPublicID now = \<lparr> cs_ID = cr_PublicID c, cs_ProjectID = projectPublicID,
     cs_Label = cr_Label c, cs_KeyPrefix = cr_KeyPrefix c, cs_Scopes = cr_Scopes c,
     cs_Status = credentialStatus c now, cs_ExpiresAt = cr_ExpiresAt c, cs_RevokedAt = cr_RevokedAt c,
     cs_LastUsedAt = cr_LastUsedAt c, cs_CreatedAt = cr_CreatedAt c, cs_CreatedBy = cr_CreatedBy c,
     cs_RevokedBy = cr_RevokedBy c \<rparr>"

section \<open>Connections\<close>

record connection_response =
  ct_ID :: string
  ct_WorkspaceID :: string
  ct_Name :: string
  ct_Provider :: string
  ct_Status :: string
  ct_BaseURL :: string
  ct_Realm :: string
  ct_ClientID :: string
  ct_HasClientSecret :: bool
  ct_Health :: string
  ct_HealthMessage :: string
  ct_AccessMode :: string
  ct_CanWrite :: bool
  ct_LastVerifiedAt :: "int option"
  ct_Verified :: bool
  ct_CreatedAt :: int
  ct_UpdatedAt :: int
  ct_ActivatedAt :: "int option"
  ct_RetiredAt :: "int option"

record update_connection_request = update_input +
  uc_Status :: "string option"
  uc_Provider :: "string option"

fun connection_status_text :: "connection_status \<Rightarrow> string" where
  "connection_status_text StatusDraft = ''draft''"
| "connection_status_text StatusLive = ''active''"
| "connection_status_text StatusRetired = ''retired''"

fun health_text :: "health \<Rightarrow> string" where
  "health_text HealthUnknown = ''unknown''"
| "health_text HealthHealthy = ''healthy''"
| "health_text HealthUnhealthy = ''unhealthy''"

fun access_mode_text :: "access_mode \<Rightarrow> string" where
  "access_mode_text AccessModeUnknown = ''unknown''"
| "access_mode_text AccessModeFull = ''full''"
| "access_mode_text AccessModeReadOnly = ''read_only''"
| "access_mode_text AccessModeLimited = ''limited''"

definition cn_toResponse :: "int \<Rightarrow> connection \<Rightarrow> connection_response" where
  "cn_toResponse now c = \<lparr> ct_ID = cn_PublicID c, ct_WorkspaceID = cn_WorkspacePublicID c,
     ct_Name = cn_Name c, ct_Provider = cn_Provider c, ct_Status = connection_status_text (cn_Status c),
     ct_BaseURL = cn_BaseURL c, ct_Realm = cn_Realm c, ct_ClientID = cn_ClientID c,
     ct_HasClientSecret = True, ct_Health = health_text (cn_Health c),
     ct_HealthMessage = cn_HealthMessage c, ct_AccessMode = access_mode_text (cn_AccessMode c),
     ct_CanWrite = CanWrite (cn_AccessMode c), ct_LastVerifiedAt = cn_LastVerifiedAt c,
     ct_Verified = IsVerified now c, ct_CreatedAt = cn_CreatedAt c, ct_UpdatedAt = cn_UpdatedAt c,
     ct_ActivatedAt = cn_ActivatedAt c, ct_RetiredAt = cn_RetiredAt c \<rparr>"

datatype cp_payload =
    CpWorkspace workspace_response
  | CpWorkspaces "workspace_response list" nat
  | CpProject project_response
  | CpProjects "project_response list" nat
  | CpCredential credential_response
  | CpCredentials "credential_response list" nat
  | CpMinted credential_response string
  | CpScopes "string list"
  | CpConnection connection_response
  | CpConnections "connection_response list" nat
  | CpVerified connection_response verify_report

section \<open>The workspace handlers\<close>

definition wh_List :: "cp_handler \<Rightarrow> http_ctx \<Rightarrow> cp_payload cp_step" where
  "wh_List h c = cp_read c (ws_List (ch_query h ''status''))
     (\<lambda>items. cp_answer (CpJSON 200 (CpWorkspaces (map ws_toResponse items) (length items))))"

definition wh_Create :: "cp_handler \<Rightarrow> http_ctx \<Rightarrow> create_workspace_request option \<Rightarrow> cp_payload cp_step" where
  "wh_Create h c body = decodeJSON c WsErrInvalidRequest body (\<lambda>req.
     cp_mutate h c ws_event (ControlPlaneEvent h c ''workspace.created'')
       (\<lambda>ev. ws_Create (cw_Name req) (cw_Slug req) ev (se_rnd_id (ch_svc h)) (se_now (ch_svc h)) (se_audit (ch_svc h)))
       (\<lambda>w. cp_answer (CpJSON 201 (CpWorkspace (ws_toResponse w)))))"

definition wh_Get :: "cp_handler \<Rightarrow> http_ctx \<Rightarrow> cp_payload cp_step" where
  "wh_Get h c = cp_read c (ws_Get (Param c ''workspace_id''))
     (\<lambda>w. cp_answer (CpJSON 200 (CpWorkspace (ws_toResponse w))))"

text \<open>The skeleton of an event on the workspace of the path.\<close>

definition workspace_event :: "cp_handler \<Rightarrow> http_ctx \<Rightarrow> string \<Rightarrow> audit_event" where
  "workspace_event h c action = (ControlPlaneEvent h c action)
     \<lparr> ea_Workspace := Param c ''workspace_id'',
       ea_Target := target_of ''workspace'' (Param c ''workspace_id'') [] \<rparr>"

definition wh_Update :: "cp_handler \<Rightarrow> http_ctx \<Rightarrow> update_workspace_request option \<Rightarrow> cp_payload cp_step" where
  "wh_Update h c body = decodeJSON c WsErrInvalidRequest body (\<lambda>req.
     if uw_Slug req \<noteq> None then refuse_with c (immutableFieldError ''slug'')
     else if uw_Status req \<noteq> None then refuse_with c (immutableFieldError ''status'')
     else case uw_Name req of
       None \<Rightarrow> refuse_with c WsErrNameRequired
     | Some name \<Rightarrow>
         cp_mutate h c ws_event (workspace_event h c ''workspace.renamed'')
           (\<lambda>ev. ws_UpdateName (Param c ''workspace_id'') name ev (se_now (ch_svc h)) (se_audit (ch_svc h)))
           (\<lambda>w. cp_answer (CpJSON 200 (CpWorkspace (ws_toResponse w)))))"

definition wh_Archive :: "cp_handler \<Rightarrow> http_ctx \<Rightarrow> cp_payload cp_step" where
  "wh_Archive h c =
     cp_mutate h c ws_event (workspace_event h c ''workspace.archived'')
       (\<lambda>ev. ws_Archive (Param c ''workspace_id'') ev (se_now (ch_svc h)) (se_audit (ch_svc h)))
       (\<lambda>w. cp_answer (CpJSON 200 (CpWorkspace (ws_toResponse w))))"

section \<open>The project handlers\<close>

definition PjErrInvalidRequest :: go_error where
  "PjErrInvalidRequest = AppError ''invalid_request'' ''Request body is invalid'' 400"

definition seeded :: "cp_handler \<Rightarrow> http_ctx \<Rightarrow> string \<Rightarrow> audit_target \<Rightarrow> audit_event" where
  "seeded h c action target = (ControlPlaneEvent h c action)
     \<lparr> ea_Workspace := Param c ''workspace_id'', ea_Target := target \<rparr>"

definition ph_List :: "cp_handler \<Rightarrow> http_ctx \<Rightarrow> cp_payload cp_step" where
  "ph_List h c = cp_read c (pj_List (Param c ''workspace_id''))
     (\<lambda>(items, counts). cp_answer (CpJSON 200
       (CpProjects (map (\<lambda>p. toProjectResponse p (count_of counts (pj_ID p))) items) (length items))))"

definition ph_Create :: "cp_handler \<Rightarrow> http_ctx \<Rightarrow> string option \<Rightarrow> cp_payload cp_step" where
  "ph_Create h c body = decodeJSON c PjErrInvalidRequest body (\<lambda>name.
     cp_mutate h c (\<lambda>p ev. pj_event p (ev\<lparr> ea_Workspace := pj_WorkspacePublicID p \<rparr>))
       (seeded h c ''project.created'' (target_of ''project'' [] name))
       (\<lambda>ev. pj_Create (Param c ''workspace_id'') name ev (ch_svc h))
       (\<lambda>p. cp_answer (CpJSON 201 (CpProject (toProjectResponse p 0)))))"

text \<open>The reply that counts the live credentials of a project after the fact.\<close>

definition counted_reply :: "http_ctx \<Rightarrow> project \<Rightarrow> cp_payload cp_step" where
  "counted_reply c p = cp_read c (pj_ActiveCredentialCount p)
     (\<lambda>active. cp_answer (CpJSON 200 (CpProject (toProjectResponse p active))))"

definition ph_Get :: "cp_handler \<Rightarrow> http_ctx \<Rightarrow> cp_payload cp_step" where
  "ph_Get h c = cp_read c (pj_Get (Param c ''workspace_id'') (Param c ''project_id'')) (counted_reply c)"

definition ph_Update :: "cp_handler \<Rightarrow> http_ctx \<Rightarrow> update_project_request option \<Rightarrow> cp_payload cp_step" where
  "ph_Update h c body = decodeJSON c PjErrInvalidRequest body (\<lambda>req.
     if upj_WorkspaceID req \<noteq> None then refuse_with c (immutableFieldError ''workspace_id'')
     else if upj_Status req \<noteq> None then refuse_with c (immutableFieldError ''status'')
     else case upj_Name req of
       None \<Rightarrow> refuse_with c PjErrNameRequired
     | Some name \<Rightarrow>
         cp_mutate h c pj_event
           (seeded h c ''project.renamed'' (target_of ''project'' (Param c ''project_id'') name))
           (\<lambda>ev. pj_Rename (Param c ''workspace_id'') (Param c ''project_id'') name ev (ch_svc h))
           (counted_reply c))"

definition ph_Archive :: "cp_handler \<Rightarrow> http_ctx \<Rightarrow> cp_payload cp_step" where
  "ph_Archive h c =
     cp_mutate h c pj_event (seeded h c ''project.archived'' (target_of ''project'' (Param c ''project_id'') []))
       (\<lambda>ev. pj_Archive (Param c ''workspace_id'') (Param c ''project_id'') ev (ch_svc h))
       (\<lambda>p. cp_answer (CpJSON 200 (CpProject (toProjectResponse p 0))))"

definition ph_ListCredentials :: "cp_handler \<Rightarrow> http_ctx \<Rightarrow> cp_payload cp_step" where
  "ph_ListCredentials h c = cp_read c (cr_List (Param c ''workspace_id'') (Param c ''project_id''))
     (\<lambda>items. cp_answer (CpJSON 200 (CpCredentials
       (map (\<lambda>cr. toCredentialResponse cr (Param c ''project_id'') (ch_now h)) items) (length items))))"

definition ph_CreateCredential ::
  "cp_handler \<Rightarrow> http_ctx \<Rightarrow> create_credential_request option \<Rightarrow> cp_payload cp_step" where
  "ph_CreateCredential h c body = decodeJSON c PjErrInvalidRequest body (\<lambda>req.
     cp_mutate h c (\<lambda>r. cr_event (fst r))
       ((seeded h c ''project_credential.created'' (target_of ''project_credential'' [] (cc_Label req)))
          \<lparr> ea_Extra := [(''scopes'', MStrings (cc_Scopes req))] \<rparr>)
       (\<lambda>ev. cr_Create (Param c ''workspace_id'') (Param c ''project_id'')
          \<lparr> ci_Label = cc_Label req, ci_Scopes = cc_Scopes req, ci_ExpiresAt = cc_ExpiresAt req,
            ci_CreatedBy = callerSubject c \<rparr> ev (ch_svc h))
       (\<lambda>(cred, secret). cp_answer (CpJSON 201
          (CpMinted (toCredentialResponse cred (Param c ''project_id'') (ch_now h)) secret))))"

definition ph_RevokeCredential :: "cp_handler \<Rightarrow> http_ctx \<Rightarrow> cp_payload cp_step" where
  "ph_RevokeCredential h c =
     cp_mutate h c cr_event
       (seeded h c ''project_credential.revoked'' (target_of ''project_credential'' (Param c ''credential_id'') []))
       (\<lambda>ev. cr_Revoke (Param c ''workspace_id'') (Param c ''project_id'') (Param c ''credential_id'')
          (callerSubject c) ev (ch_svc h))
       (\<lambda>cred. cp_answer (CpJSON 200
          (CpCredential (toCredentialResponse cred (Param c ''project_id'') (ch_now h)))))"

definition ph_Scopes :: "cp_payload cp_step" where
  "ph_Scopes = cp_answer (CpJSON 200 (CpScopes AllScopes))"

section \<open>The connection handlers\<close>

definition connectionEvent :: "cp_handler \<Rightarrow> http_ctx \<Rightarrow> string \<Rightarrow> audit_event" where
  "connectionEvent h c action = (ControlPlaneEvent h c action)
     \<lparr> ea_Workspace := Param c ''workspace_id'',
       ea_Target := target_of ''connection'' (Param c ''connection_id'') [] \<rparr>"

definition connection_reply :: "cp_handler \<Rightarrow> nat \<Rightarrow> connection \<Rightarrow> cp_payload cp_step" where
  "connection_reply h st x = cp_answer (CpJSON st (CpConnection (cn_toResponse (ch_now h) x)))"

definition xh_List :: "cp_handler \<Rightarrow> http_ctx \<Rightarrow> cp_payload cp_step" where
  "xh_List h c = cp_read c (cn_List (Param c ''workspace_id'') (ch_query h ''status''))
     (\<lambda>items. cp_answer (CpJSON 200 (CpConnections (map (cn_toResponse (ch_now h)) items) (length items))))"

definition xh_Create :: "cp_handler \<Rightarrow> http_ctx \<Rightarrow> create_input option \<Rightarrow> cp_payload cp_step" where
  "xh_Create h c body = decodeJSON c CnErrInvalidRequest body (\<lambda>req.
     cp_mutate h c (\<lambda>x ev. cn_event (cn_ID x) (ev\<lparr> ea_Workspace := cn_WorkspacePublicID x \<rparr>))
       (connectionEvent h c ''connection.created'')
       (\<lambda>ev. cn_Create (Param c ''workspace_id'') req ev (ch_conn h)) (connection_reply h 201))"

definition xh_Get :: "cp_handler \<Rightarrow> http_ctx \<Rightarrow> cp_payload cp_step" where
  "xh_Get h c = cp_read c (cn_Get (Param c ''workspace_id'') (Param c ''connection_id'')) (connection_reply h 200)"

definition xh_Update :: "cp_handler \<Rightarrow> http_ctx \<Rightarrow> update_connection_request option \<Rightarrow> cp_payload cp_step" where
  "xh_Update h c body = decodeJSON c CnErrInvalidRequest body (\<lambda>req.
     if uc_Status req \<noteq> None then refuse_with c (immutableFieldError ''status'')
     else if uc_Provider req \<noteq> None then refuse_with c (immutableFieldError ''provider'')
     else if up_Name req = None \<and> up_BaseURL req = None \<and> up_Realm req = None \<and> up_ClientID req = None \<and>
       up_ClientSecret req = None then refuse_with c CnErrInvalidRequest
     else cp_mutate h c (\<lambda>x. cn_event (cn_ID x)) (connectionEvent h c ''connection.updated'')
       (\<lambda>ev. cn_Update (Param c ''workspace_id'') (Param c ''connection_id'') (update_input.truncate req) ev (ch_conn h))
       (connection_reply h 200))"

definition xh_Delete :: "cp_handler \<Rightarrow> http_ctx \<Rightarrow> cp_payload cp_step" where
  "xh_Delete h c = cp_mutate h c (\<lambda>x. cn_event (cn_ID x)) (connectionEvent h c ''connection.deleted'')
     (\<lambda>ev. cn_Delete (Param c ''workspace_id'') (Param c ''connection_id'') ev (ch_conn h))
     (\<lambda>_. cp_answer (CpStatus 204))"

definition xh_Verify :: "cp_handler \<Rightarrow> http_ctx \<Rightarrow> cp_payload cp_step" where
  "xh_Verify h c = cp_mutate h c (\<lambda>r. cn_event (cn_ID (fst r))) (connectionEvent h c ''connection.verified'')
     (\<lambda>ev. cn_Verify (Param c ''workspace_id'') (Param c ''connection_id'') ev (ch_conn h))
     (\<lambda>(x, rep). cp_answer (CpJSON 200 (CpVerified (cn_toResponse (ch_now h) x) rep)))"

definition xh_Activate :: "cp_handler \<Rightarrow> http_ctx \<Rightarrow> cp_payload cp_step" where
  "xh_Activate h c = cp_mutate h c (\<lambda>x. cn_event (cn_ID x)) (connectionEvent h c ''connection.activated'')
     (\<lambda>ev. cn_Activate (Param c ''workspace_id'') (Param c ''connection_id'') ev (ch_conn h))
     (connection_reply h 200)"

definition xh_Retire :: "cp_handler \<Rightarrow> http_ctx \<Rightarrow> cp_payload cp_step" where
  "xh_Retire h c = cp_mutate h c (\<lambda>x. cn_event (cn_ID x)) (connectionEvent h c ''connection.retired'')
     (\<lambda>ev. cn_Retire (Param c ''workspace_id'') (Param c ''connection_id'') ev (ch_conn h))
     (connection_reply h 200)"

section \<open>The requests together\<close>

datatype cp_request =
    GetWorkspaces | PostWorkspace "create_workspace_request option" | GetWorkspace
  | PatchWorkspace "update_workspace_request option" | ArchiveWorkspace
  | GetProjects | PostProject "string option" | GetProject
  | PatchProject "update_project_request option" | ArchiveProject
  | GetCredentials | PostCredential "create_credential_request option" | RevokeCredential | GetScopes
  | GetConnections | PostConnection "create_input option" | GetConnection
  | PatchConnection "update_connection_request option" | DeleteConnection
  | VerifyConnection | ActivateConnection | RetireConnection

fun cp_handle :: "cp_handler \<Rightarrow> http_ctx \<Rightarrow> cp_request \<Rightarrow> cp_payload cp_step" where
  "cp_handle h c GetWorkspaces = wh_List h c"
| "cp_handle h c (PostWorkspace b) = wh_Create h c b"
| "cp_handle h c GetWorkspace = wh_Get h c"
| "cp_handle h c (PatchWorkspace b) = wh_Update h c b"
| "cp_handle h c ArchiveWorkspace = wh_Archive h c"
| "cp_handle h c GetProjects = ph_List h c"
| "cp_handle h c (PostProject b) = ph_Create h c b"
| "cp_handle h c GetProject = ph_Get h c"
| "cp_handle h c (PatchProject b) = ph_Update h c b"
| "cp_handle h c ArchiveProject = ph_Archive h c"
| "cp_handle h c GetCredentials = ph_ListCredentials h c"
| "cp_handle h c (PostCredential b) = ph_CreateCredential h c b"
| "cp_handle h c RevokeCredential = ph_RevokeCredential h c"
| "cp_handle h c GetScopes = ph_Scopes"
| "cp_handle h c GetConnections = xh_List h c"
| "cp_handle h c (PostConnection b) = xh_Create h c b"
| "cp_handle h c GetConnection = xh_Get h c"
| "cp_handle h c (PatchConnection b) = xh_Update h c b"
| "cp_handle h c DeleteConnection = xh_Delete h c"
| "cp_handle h c VerifyConnection = xh_Verify h c"
| "cp_handle h c ActivateConnection = xh_Activate h c"
| "cp_handle h c RetireConnection = xh_Retire h c"

end
