(* ===== verification/ControlErrors.thy ===== *)
theory ControlErrors
  imports ControlHandlers
begin

text \<open>
  Which errors the services of the control plane raise: \<open>raises P m\<close> says that every
  error of \<open>m\<close>, in whatever world, satisfies \<open>P\<close>. With the catalogue of errors as \<open>P\<close>
  this is proved operation by operation, one rule per way the services are built.
\<close>

section \<open>Rules\<close>

definition raises :: "(go_error \<Rightarrow> bool) \<Rightarrow> 'a act \<Rightarrow> bool" where
  "raises P m \<longleftrightarrow> (\<forall>w. case fst (m w) of Inl e \<Rightarrow> P e | Inr _ \<Rightarrow> True)"

lemma raisesD: "raises P m \<Longrightarrow> m w = (Inl e, w') \<Longrightarrow> P e"
  unfolding raises_def by (metis fst_conv old.sum.simps(5))

lemma raisesI: "(\<And>w e w'. m w = (Inl e, w') \<Longrightarrow> P e) \<Longrightarrow> raises P m"
  unfolding raises_def by (metis eq_fst_iff sum.case_eq_if sum.collapse(1))

named_theorems raising \<open>what the parts of a service raise\<close>

lemma raises_ret [raising]: "raises P (ret x)"
  by (simp add: raises_def ret_def)

lemma raises_fail [raising]: "P e \<Longrightarrow> raises P (fail e)"
  by (simp add: raises_def fail_def)

lemma raises_require [raising]: "P e \<Longrightarrow> raises P (require b e)"
  by (simp add: raises_def require_def ret_def fail_def)

lemma raises_lift [raising]: "(\<And>e. r = Inl e \<Longrightarrow> P e) \<Longrightarrow> raises P (lift_result r)"
  by (cases r) (simp_all add: raises_def lift_result_def)

lemma raises_andThen [raising]:
  assumes "raises P m" and "\<And>x. raises P (f x)"
  shows "raises P (andThen m f)"
  by (rule raisesI) (auto simp: andThen_Inl dest: raisesD [OF assms(1)] raisesD [OF assms(2)])

lemma raises_catch: "(\<And>e. raises Q m \<Longrightarrow> Q e \<Longrightarrow> P (h e)) \<Longrightarrow> raises Q m \<Longrightarrow> raises P (catch m h)"
  by (rule raisesI) (auto simp: catch_def split: prod.splits sum.splits dest: raisesD)

lemma raises_stmt:
  "P ErrDriver \<Longrightarrow> (\<And>d e. f d = Inl e \<Longrightarrow> P e) \<Longrightarrow> raises P (stmt f)"
  by (rule raisesI) (auto simp: stmt_def split: prod.splits bool.splits sum.splits)

lemma raises_query [raising]: "P ErrDriver \<Longrightarrow> raises P (query f)"
  unfolding query_def by (rule raises_stmt) simp_all

lemma raises_InTx [raising]: "raises P body \<Longrightarrow> P ErrDriver \<Longrightarrow> raises P (InTx body)"
  using raises_stmt [of P "\<lambda>d. Inr ((), d)"]
  by (intro raisesI) (auto simp: InTx_def commit_def split: prod.splits sum.splits dest: raisesD)

lemma raises_RecordTx [raising]: "P ErrNotRecorded \<Longrightarrow> raises P (RecordTx en e)"
  by (rule raisesI) (auto dest: RecordTx_Inl)

lemma raises_found [raising]: "raises P m \<Longrightarrow> P e \<Longrightarrow> raises P (found m e)"
  unfolding found_def by (intro raises_andThen) (auto split: option.split intro: raising)

lemma raises_internal [raising]: "P PjErrInternal \<Longrightarrow> raises P (internal m)"
  unfolding internal_def by (rule raises_catch [where Q = "\<lambda>_. True"]) (simp_all add: raises_def split: sum.split)

lemma raises_keep [raising]:
  "list_all P es \<Longrightarrow> P PjErrInternal \<Longrightarrow> raises P (catch m (keep es))"
  by (rule raises_catch [where Q = "\<lambda>_. True"])
    (auto simp: keep_def list_all_iff raises_def split: sum.split)

lemma raises_cases [raising]:
  "(b \<Longrightarrow> raises P m) \<Longrightarrow> (\<not> b \<Longrightarrow> raises P n) \<Longrightarrow> raises P (if b then m else n)"
  "(r = None \<Longrightarrow> raises P m) \<Longrightarrow> (\<And>x. r = Some x \<Longrightarrow> raises P (f x)) \<Longrightarrow>
     raises P (case r of None \<Rightarrow> m | Some x \<Rightarrow> f x)"
  "(\<And>e. s = Inl e \<Longrightarrow> raises P (g e)) \<Longrightarrow> (\<And>x. s = Inr x \<Longrightarrow> raises P (k x)) \<Longrightarrow>
     raises P (case s of Inl e \<Rightarrow> g e | Inr x \<Rightarrow> k x)"
  "(\<And>x y. p = (x, y) \<Longrightarrow> raises P (q x y)) \<Longrightarrow> raises P (case p of (x, y) \<Rightarrow> q x y)"
  by (auto split: option.split sum.split prod.split)

section \<open>The catalogue\<close>

definition cp_errors :: "go_error list" where
  "cp_errors = [
     WsErrNotFound, WsErrSlugTaken, WsErrSlugReserved, WsErrSlugInvalid, WsErrNameRequired,
     WsErrArchived, WsErrInvalidID, WsErrInvalidStatusFilter, WsErrInvalidRequest, PjErrNotFound,
     PjErrArchived, PjErrNameTaken, PjErrNameRequired, PjErrInvalidID, PjErrCredentialNotFound,
     PjErrInvalidCredentialID, PjErrCredentialAlreadyRevoked, PjErrCredentialLimitReached,
     PjErrLabelRequired, PjErrInvalidScope, PjErrInvalidExpiry, PjErrWorkspaceNotFound,
     PjErrWorkspaceArchived, PjErrInvalidWorkspaceID, PjErrInternal, PjErrInvalidRequest,
     CnErrNotFound, CnErrInvalidID, CnErrNotVerified, CnErrVerificationExpired,
     CnErrAlreadyActive, CnErrWorkspaceHasActive, CnErrRetired, CnErrActiveCannotDelete,
     CnErrNotDraft, CnErrNameRequired, CnErrBaseURLInvalid, CnErrRealmRequired,
     CnErrClientIDRequired, CnErrClientSecretRequired, CnErrProviderUnsupported,
     CnErrInvalidStatusFilter, CnErrWorkspaceNotFound, CnErrWorkspaceArchived,
     CnErrInvalidWorkspaceID, CnErrInvalidRequest]"

text \<open>Two messages have a hole: the name of an immutable field, which is one of these, and
  the scope a request names.\<close>

definition immutable_fields :: "string list" where
  "immutable_fields = [''slug'', ''status'', ''workspace_id'', ''provider'']"

definition cp_catalogued :: "string set \<Rightarrow> go_error \<Rightarrow> bool" where
  "cp_catalogued B e \<longleftrightarrow> e \<in> set cp_errors \<or> (\<exists>field \<in> set immutable_fields. e = immutableFieldError field) \<or>
     (\<exists>bad \<in> B. e = invalidScopeError bad)"

text \<open>An error is of the catalogue, with code, message and status, or is one the client is
  told nothing about; \<open>B\<close> are the texts an unknown scope may be quoted from.\<close>

definition catalogued_error :: "string set \<Rightarrow> go_error \<Rightarrow> bool" where
  "catalogued_error B e \<longleftrightarrow> (case e of AppError code msg st \<Rightarrow> cp_catalogued B e | _ \<Rightarrow> True)"

lemma catalogued_plain [simp]:
  "catalogued_error B ErrDriver" "catalogued_error B ErrNotRecorded" "catalogued_error B ErrRandom"
  "catalogued_error B ErrDuplicatedKey" "catalogued_error B (ErrSecret t)"
  by (simp_all add: catalogued_error_def)

lemma catalogued_of: "cp_catalogued B e \<Longrightarrow> catalogued_error B e"
  by (cases e) (simp_all add: catalogued_error_def)

lemma catalogued_listed: "e \<in> set cp_errors \<Longrightarrow> catalogued_error B e"
  by (rule catalogued_of) (simp add: cp_catalogued_def)

lemma catalogued_workspace [simp]:
  "catalogued_error B WsErrNotFound" "catalogued_error B WsErrSlugTaken"
  "catalogued_error B WsErrSlugReserved" "catalogued_error B WsErrSlugInvalid"
  "catalogued_error B WsErrNameRequired" "catalogued_error B WsErrArchived"
  "catalogued_error B WsErrInvalidID" "catalogued_error B WsErrInvalidStatusFilter"
  "catalogued_error B WsErrInvalidRequest"
  by (rule catalogued_listed, simp add: cp_errors_def)+

lemma catalogued_project [simp]:
  "catalogued_error B PjErrNotFound" "catalogued_error B PjErrArchived"
  "catalogued_error B PjErrNameTaken" "catalogued_error B PjErrNameRequired"
  "catalogued_error B PjErrInvalidID" "catalogued_error B PjErrCredentialNotFound"
  "catalogued_error B PjErrInvalidCredentialID"
  "catalogued_error B PjErrCredentialAlreadyRevoked"
  "catalogued_error B PjErrCredentialLimitReached" "catalogued_error B PjErrLabelRequired"
  "catalogued_error B PjErrInvalidScope" "catalogued_error B PjErrInvalidExpiry"
  "catalogued_error B PjErrWorkspaceNotFound" "catalogued_error B PjErrWorkspaceArchived"
  "catalogued_error B PjErrInvalidWorkspaceID" "catalogued_error B PjErrInternal"
  "catalogued_error B PjErrInvalidRequest"
  by (rule catalogued_listed, simp add: cp_errors_def)+

lemma catalogued_connection [simp]:
  "catalogued_error B CnErrNotFound" "catalogued_error B CnErrInvalidID"
  "catalogued_error B CnErrNotVerified" "catalogued_error B CnErrVerificationExpired"
  "catalogued_error B CnErrAlreadyActive" "catalogued_error B CnErrWorkspaceHasActive"
  "catalogued_error B CnErrRetired" "catalogued_error B CnErrActiveCannotDelete"
  "catalogued_error B CnErrNotDraft" "catalogued_error B CnErrNameRequired"
  "catalogued_error B CnErrBaseURLInvalid" "catalogued_error B CnErrRealmRequired"
  "catalogued_error B CnErrClientIDRequired" "catalogued_error B CnErrClientSecretRequired"
  "catalogued_error B CnErrProviderUnsupported" "catalogued_error B CnErrInvalidStatusFilter"
  "catalogued_error B CnErrWorkspaceNotFound" "catalogued_error B CnErrWorkspaceArchived"
  "catalogued_error B CnErrInvalidWorkspaceID" "catalogued_error B CnErrInvalidRequest"
  by (rule catalogued_listed, simp add: cp_errors_def)+

lemma catalogued_built [simp]:
  "field \<in> set immutable_fields \<Longrightarrow> catalogued_error B (immutableFieldError field)"
  "bad \<in> B \<Longrightarrow> catalogued_error B (invalidScopeError bad)"
  by (rule catalogued_of, auto simp: cp_catalogued_def)+

lemma immutable_named [simp]:
  "''slug'' \<in> set immutable_fields" "''status'' \<in> set immutable_fields" "''workspace_id'' \<in> set immutable_fields"
  "''provider'' \<in> set immutable_fields"
  by (simp_all add: immutable_fields_def)

text \<open>Every code is a text.\<close>

fun has_code :: "go_error \<Rightarrow> bool" where
  "has_code (AppError code msg st) \<longleftrightarrow> code \<noteq> []"
| "has_code e \<longleftrightarrow> True"

lemma listed_codes: "list_all has_code cp_errors"
  unfolding cp_errors_def
  by (simp add: WsErrNotFound_def WsErrSlugTaken_def WsErrSlugReserved_def WsErrSlugInvalid_def
    WsErrNameRequired_def WsErrArchived_def WsErrInvalidID_def WsErrInvalidStatusFilter_def
    WsErrInvalidRequest_def PjErrNotFound_def PjErrArchived_def PjErrNameTaken_def
    PjErrNameRequired_def PjErrInvalidID_def PjErrCredentialNotFound_def
    PjErrInvalidCredentialID_def PjErrCredentialAlreadyRevoked_def
    PjErrCredentialLimitReached_def PjErrLabelRequired_def PjErrInvalidScope_def
    PjErrInvalidExpiry_def PjErrWorkspaceNotFound_def PjErrWorkspaceArchived_def
    PjErrInvalidWorkspaceID_def PjErrInternal_def PjErrInvalidRequest_def CnErrNotFound_def
    CnErrInvalidID_def CnErrNotVerified_def CnErrVerificationExpired_def CnErrAlreadyActive_def
    CnErrWorkspaceHasActive_def CnErrRetired_def CnErrActiveCannotDelete_def CnErrNotDraft_def
    CnErrNameRequired_def CnErrBaseURLInvalid_def CnErrRealmRequired_def
    CnErrClientIDRequired_def CnErrClientSecretRequired_def CnErrProviderUnsupported_def
    CnErrInvalidStatusFilter_def CnErrWorkspaceNotFound_def CnErrWorkspaceArchived_def
    CnErrInvalidWorkspaceID_def CnErrInvalidRequest_def)

lemma catalogued_code: "catalogued_error B (AppError code msg st) \<Longrightarrow> code \<noteq> []"
  using listed_codes
  by (auto simp: catalogued_error_def cp_catalogued_def list_all_iff immutableFieldError_def invalidScopeError_def
      PjErrInvalidScope_def split: if_splits)

abbreviation known :: "string set \<Rightarrow> 'a act \<Rightarrow> bool" where "known B \<equiv> raises (catalogued_error B)"

section \<open>The statements\<close>

lemma known_stmts [raising]:
  "known B (stmt (ws_insert w))" "known B (ws_update i f)" "known B (pj_update se i g)"
  "known B (stmt (pj_insert se p))" "known B (stmt (cr_insert cr))" "known B (cn_update P k)"
  "known B (stmt (cn_insert r))"
  unfolding ws_update_def pj_update_def cn_update_def
  by (rule raises_stmt; force simp: ws_insert_def pj_insert_def cr_insert_def cn_insert_def update_where_def
      Let_def split: if_splits)+

lemma known_translated [raising]:
  "known B m \<Longrightarrow> catalogued_error B e \<Longrightarrow> known B (catch m (\<lambda>x. if x = ErrDuplicatedKey then e else x))"
  by (rule raises_catch [where Q = "catalogued_error B"]) auto

lemma known_repositories [raising]:
  "known B (wsr_Create w)" "known B (wsr_GetByID i)" "known B (wsr_List f)" "known B (wsr_UpdateName i n t)"
  "known B (wsr_Archive i t)" "known B (cnr_Create cn s)" "known B (cnr_loadRow i)" "known B (cnr_GetByID i)"
  "known B (cnr_List i cf)" "known B (cnr_OpenSecret i)" "known B (cnr_UpdateConfig i patch so t)"
  "known B (cnr_SaveVerification i rep)" "known B (cnr_Retire i t)" "known B (cnr_Delete i)"
  unfolding wsr_Create_def wsr_GetByID_def wsr_List_def wsr_UpdateName_def wsr_Archive_def cnr_Create_def
    cnr_loadRow_def cnr_GetByID_def cnr_List_def cnr_OpenSecret_def cnr_UpdateConfig_def
    cnr_SaveVerification_def cnr_Retire_def cnr_Delete_def Let_def
  by (intro raising raises_stmt; simp)+

lemma known_cnr_Activate [raising]: "known B (cnr_Activate i wid t)"
proof -
  have "known B (case cn_Status row of StatusDraft \<Rightarrow> fail CnErrNotVerified | StatusLive \<Rightarrow> fail CnErrAlreadyActive
      | StatusRetired \<Rightarrow> fail CnErrRetired)" for row :: connection_row
    by (cases "cn_Status row") (auto intro!: raising)
  then show ?thesis unfolding cnr_Activate_def by (intro raising) simp_all
qed

section \<open>The services\<close>

text \<open>Where the identifiers come from: a failing random source is not an error of the
  catalogue.\<close>

definition plain_rnd :: "go_error + 8 word list \<Rightarrow> bool" where
  "plain_rnd r = (case r of Inl e \<Rightarrow> e = ErrRandom | Inr _ \<Rightarrow> True)"

lemma New_Inl: "New r = Inl e \<Longrightarrow> plain_rnd r \<Longrightarrow> e = ErrRandom"
  by (cases r) (auto simp: New_def plain_rnd_def Let_def)

lemma known_workspaces [raising]:
  "known B (ws_List raw)" "known B (ws_Get pid)" "known B (ws_UpdateName pid n ev t en)" "known B (ws_Archive pid ev t en)"
  "plain_rnd rnd \<Longrightarrow> known B (ws_Create n slug ev rnd t en)"
  unfolding ws_List_def ws_Get_def ws_UpdateName_def ws_Archive_def ws_Create_def Let_def
  by (intro raising; force simp: ws_resolveID_def ParseStatusFilter_def ValidateSlug_def dest: New_Inl
      split: if_splits sum.splits)+

lemma known_project_parts [raising]:
  "known B (requireWorkspace wid)" "known B (requireWritableWorkspace wid)" "known B (pj_resolve wid pid)"
  "known B (pjr_UpdateProjectName se i n)" "known B (pjr_CreateProject se p)" "known B (pjr_RevokeCredential se i n)"
  unfolding requireWorkspace_def requireWritableWorkspace_def pj_resolve_def pjr_UpdateProjectName_def
    pjr_GetProject_def pjr_CreateProject_def pjr_RevokeCredential_def pjr_GetCredential_def
  by (intro raising raises_stmt; simp add: update_where_def)+

lemma known_projects [raising]:
  "known B (pj_List wid)" "known B (pj_Create wid n ev se)" "known B (pj_Get wid pid)"
  "known B (pj_ActiveCredentialCount p)" "known B (pj_Rename wid pid n ev se)" "known B (pj_Archive wid pid ev se)"
  "known B (cr_List wid pid)" "known B (cr_Revoke wid pid cid who ev se)"
  unfolding pj_List_def pj_Create_def pj_Get_def pj_ActiveCredentialCount_def pj_Rename_def pj_Archive_def
    cr_List_def cr_Revoke_def Let_def
  by (intro raising; simp)+

lemma NormalizeScopes_Inl: "NormalizeScopes u raw = Inl bad \<Longrightarrow> bad \<in> set (map (\<lambda>r. to_lower u (trim_space r)) raw)"
  using normalize_loop_eq [of "[]" u raw]
  by (auto simp: NormalizeScopes_def find_Some_iff split: option.splits) (metis (no_types, lifting) imageI nth_mem)

lemma known_cr_Create [raising]:
  assumes "set (map (\<lambda>r. to_lower (se_u se) (trim_space r)) (ci_Scopes inp)) \<subseteq> B"
  shows "known B (cr_Create wid pid inp ev se)"
  unfolding cr_Create_def Let_def
  using assms NormalizeScopes_Inl by (intro raising; fastforce)

lemma known_connection_parts [raising]:
  "known B (cn_requireWorkspace wid)" "known B (cn_requireWritableWorkspace wid)" "known B (cn_resolve wid cid)"
  "known B (seal_update ce i v)" "known B (lift_secret r)"
  unfolding cn_requireWorkspace_def cn_requireWritableWorkspace_def cn_resolve_def seal_update_def lift_secret_def
  by (intro raising; auto split: sum.splits)+

lemma known_fields:
  "cn_checkName raw = Inl e \<Longrightarrow> catalogued_error B e" "parseProvider raw = Inl e \<Longrightarrow> catalogued_error B e"
  "normalizeBaseURL url raw = Inl e \<Longrightarrow> catalogued_error B e"
  "required CnErrRealmRequired raw = Inl e \<Longrightarrow> catalogued_error B e"
  "required CnErrClientIDRequired raw = Inl e \<Longrightarrow> catalogued_error B e"
  "cn_ParseStatusFilter raw = Inl e \<Longrightarrow> catalogued_error B e" "CanUpdate c = Inl e \<Longrightarrow> catalogued_error B e"
  "CanActivate t c = Inl e \<Longrightarrow> catalogued_error B e" "CanRetire c = Inl e \<Longrightarrow> catalogued_error B e"
  "CanDelete c = Inl e \<Longrightarrow> catalogued_error B e"
  by (auto simp: cn_checkName_def parseProvider_def normalizeBaseURL_def required_def cn_ParseStatusFilter_def
      CanUpdate_def CanActivate_def CanRetire_def CanDelete_def guard_def Let_def
      split: if_splits option.splits connection_status.splits)

lemma known_optional:
  "optional chk v = Inl e \<Longrightarrow> (\<And>raw e. chk raw = Inl e \<Longrightarrow> catalogued_error B e) \<Longrightarrow> catalogued_error B e"
  by (auto simp: optional_def split: option.splits sum.splits)

lemma known_connections [raising]:
  "known B (cn_Get wid cid)" "known B (cn_List wid raw)" "known B (cn_Update wid cid up ev ce)"
  "known B (cn_Verify wid cid ev ce)" "known B (cn_Activate wid cid ev ce)" "known B (cn_Retire wid cid ev ce)"
  "known B (cn_Delete wid cid ev ce)" "plain_rnd (cv_rnd_id ce) \<Longrightarrow> known B (cn_Create wid inp ev ce)"
  unfolding cn_Get_def cn_List_def cn_Update_def cn_Verify_def cn_probe_def cn_record_verdict_def
    cn_Activate_def cn_activation_check_def cn_activation_commit_def cn_Retire_def cn_Delete_def
    cn_Create_def Let_def
  by (intro raising; (simp; fail | erule known_fields | erule known_optional; erule known_fields
      | force dest: New_Inl))+

end
