(* ===== verification/ControlTrail.thy ===== *)
theory ControlTrail
  imports ControlErrors ConnectionInvariant
begin

text \<open>
  What a request to the control plane leaves behind: a change with its audit row and
  one event for the remaining sinks, or nothing but one event that says why not. The
  services' atomicity (ProjectLife, ConnectionLife, Workspace) is carried through the
  handlers and the recorder.
\<close>

section \<open>What is promised\<close>

datatype cp_change = WsChange ws_op | PjChange pj_op | CnChange cn_op

text \<open>The change a request asks a service for, with the event its handler opens;
  \<^const>\<open>None\<close> for a read and for a body the handler refuses itself.\<close>

fun change_of :: "cp_handler \<Rightarrow> http_ctx \<Rightarrow> cp_request \<Rightarrow> (audit_event \<times> cp_change) option" where
  "change_of h c (PostWorkspace (Some q)) =
     Some (ControlPlaneEvent h c ''workspace.created'',
       WsChange (WsCreate (cw_Name q) (cw_Slug q) (se_rnd_id (ch_svc h))))"
| "change_of h c (PatchWorkspace (Some q)) =
     (case (uw_Slug q, uw_Status q, uw_Name q) of
        (None, None, Some n) \<Rightarrow>
          Some (workspace_event h c ''workspace.renamed'', WsChange (WsRename (Param c ''workspace_id'') n))
      | _ \<Rightarrow> None)"
| "change_of h c ArchiveWorkspace =
     Some (workspace_event h c ''workspace.archived'', WsChange (WsArchive (Param c ''workspace_id'')))"
| "change_of h c (PostProject (Some n)) =
     Some (seeded h c ''project.created'' (target_of ''project'' [] n),
       PjChange (PjCreate (Param c ''workspace_id'') n))"
| "change_of h c (PatchProject (Some q)) =
     (case (upj_WorkspaceID q, upj_Status q, upj_Name q) of
        (None, None, Some n) \<Rightarrow>
          Some (seeded h c ''project.renamed'' (target_of ''project'' (Param c ''project_id'') n),
            PjChange (PjRename (Param c ''workspace_id'') (Param c ''project_id'') n))
      | _ \<Rightarrow> None)"
| "change_of h c ArchiveProject =
     Some (seeded h c ''project.archived'' (target_of ''project'' (Param c ''project_id'') []),
       PjChange (PjArchive (Param c ''workspace_id'') (Param c ''project_id'')))"
| "change_of h c (PostCredential (Some q)) =
     Some ((seeded h c ''project_credential.created'' (target_of ''project_credential'' [] (cc_Label q)))
       \<lparr> ea_Extra := [(''scopes'', MStrings (cc_Scopes q))] \<rparr>,
       PjChange (CrCreate (Param c ''workspace_id'') (Param c ''project_id'')
         \<lparr> ci_Label = cc_Label q, ci_Scopes = cc_Scopes q, ci_ExpiresAt = cc_ExpiresAt q,
           ci_CreatedBy = callerSubject c \<rparr>))"
| "change_of h c RevokeCredential =
     Some (seeded h c ''project_credential.revoked''
       (target_of ''project_credential'' (Param c ''credential_id'') []),
       PjChange (CrRevoke (Param c ''workspace_id'') (Param c ''project_id'')
         (Param c ''credential_id'') (callerSubject c)))"
| "change_of h c (PostConnection (Some q)) =
     Some (connectionEvent h c ''connection.created'',
       CnChange (CnCreate (Param c ''workspace_id'') q))"
| "change_of h c (PatchConnection (Some q)) =
     (if uc_Status q \<noteq> None \<or> uc_Provider q \<noteq> None \<or> update_input.truncate q =
           \<lparr> up_Name = None, up_BaseURL = None, up_Realm = None, up_ClientID = None, up_ClientSecret = None \<rparr>
      then None
      else Some (connectionEvent h c ''connection.updated'',
        CnChange (CnUpdate (Param c ''workspace_id'') (Param c ''connection_id'') (update_input.truncate q))))"
| "change_of h c DeleteConnection =
     Some (connectionEvent h c ''connection.deleted'',
       CnChange (CnDelete (Param c ''workspace_id'') (Param c ''connection_id'')))"
| "change_of h c VerifyConnection =
     Some (connectionEvent h c ''connection.verified'',
       CnChange (CnVerify (Param c ''workspace_id'') (Param c ''connection_id'')))"
| "change_of h c ActivateConnection =
     Some (connectionEvent h c ''connection.activated'',
       CnChange (CnActivate (Param c ''workspace_id'') (Param c ''connection_id'')))"
| "change_of h c RetireConnection =
     Some (connectionEvent h c ''connection.retired'',
       CnChange (CnRetire (Param c ''workspace_id'') (Param c ''connection_id'')))"
| "change_of h c rq = None"

text \<open>The texts that the request itself names as scopes, as the service reads them.\<close>

fun quoted_scopes :: "cp_handler \<Rightarrow> cp_request \<Rightarrow> string set" where
  "quoted_scopes h (PostCredential (Some q)) =
     set (map (\<lambda>r. to_lower (se_u (ch_svc h)) (trim_space r)) (cc_Scopes q))"
| "quoted_scopes h rq = {}"

text \<open>The effect of a change on the tables, and the resource it names.\<close>

fun cp_effect :: "cp_handler \<Rightarrow> cp_change \<Rightarrow> string \<times> string \<Rightarrow> db \<Rightarrow> db \<Rightarrow> bool" where
  "cp_effect h (WsChange op) res d d1 \<longleftrightarrow>
     (\<exists>x. res = (''workspace'', ws_PublicID x) \<and> d1 = d\<lparr> db_workspaces := db_workspaces d1 \<rparr> \<and>
       ws_effect op x (db_workspaces d) (db_workspaces d1))"
| "cp_effect h (PjChange op) res d d1 \<longleftrightarrow> (\<exists>x. res = result_target x \<and> pj_effect (ch_svc h) op x d d1)"
| "cp_effect h (CnChange op) res d d1 \<longleftrightarrow>
     (\<exists>x. res = (''connection'', cn_PublicID x) \<and> cn_effect (ch_conn h) op x d d1)"

text \<open>What the service answers a change, given its event.\<close>

fun cp_service :: "cp_handler \<Rightarrow> cp_change \<Rightarrow> audit_event \<Rightarrow> unit act" where
  "cp_service h (WsChange op) ev =
     andThen (ws_run_op op ev (se_now (ch_svc h)) (se_audit (ch_svc h))) (\<lambda>_. ret ())"
| "cp_service h (PjChange op) ev = andThen (pj_run_op op ev (ch_svc h)) (\<lambda>_. ret ())"
| "cp_service h (CnChange op) ev = andThen (cn_run_op op ev (ch_conn h)) (\<lambda>_. ret ())"

definition names :: "audit_event \<Rightarrow> string \<times> string" where
  "names e = (tg_Kind (ea_Target e), tg_ID (ea_Target e))"

definition announced :: "cp_handler \<Rightarrow> http_ctx \<Rightarrow> string \<Rightarrow> audit_event \<Rightarrow> bool" where
  "announced h c action e \<longleftrightarrow> ea_Action e = action \<and> ea_Actor e = ActorFromGin c \<and>
     ea_RequestID e = FromContext c \<and> ea_IP e = ch_ip h"

text \<open>The log and the ring were given \<open>e\<close>, and nothing else.\<close>

definition witnessed :: "cp_handler \<Rightarrow> audit_event \<Rightarrow> cp_state \<Rightarrow> cp_state \<Rightarrow> bool" where
  "witnessed h e s s' \<longleftrightarrow> cp_log s' = cp_log s @ [e] \<and> cp_ring s' = RecordMemory (ch_now h) e (cp_ring s)"

text \<open>The change happened, its row says so, and the log and the ring have the same event,
  marked as already persisted.\<close>

definition committed :: "cp_handler \<Rightarrow> http_ctx \<Rightarrow> string \<Rightarrow> cp_change \<Rightarrow> cp_state \<Rightarrow> cp_state \<Rightarrow> bool" where
  "committed h c action ch s s' \<longleftrightarrow>
     (\<exists>d1 row e. cp_effect h ch (names e) (w_db (cp_world s)) d1 \<and>
        w_db (cp_world s') = with_audit row d1 \<and> witnessed h e s s' \<and>
        announced h c action e \<and> ea_Reason e = [] \<and> ea_Persisted e \<and>
        au_EventType row = action \<and> au_Outcome row = OutcomeSuccess \<and>
        (au_ResourceType row, au_ResourceID row) = names e)"

text \<open>The service gave up with \<open>err\<close> in the world \<open>w\<close>, its tables as they were. When it
  was the audit row that could not be written nothing more is attempted. Otherwise one
  event has the error as its reason, in the log, the ring and, if the store takes it, a
  row that says the action failed.\<close>

definition given_up ::
  "cp_handler \<Rightarrow> http_ctx \<Rightarrow> string \<Rightarrow> go_error \<Rightarrow> world \<Rightarrow> cp_state \<Rightarrow> cp_state \<Rightarrow> bool" where
  "given_up h c action err w s s' \<longleftrightarrow> w_db w = w_db (cp_world s) \<and>
     (if err = ErrNotRecorded then cp_world s' = w \<and> cp_log s' = cp_log s \<and> cp_ring s' = cp_ring s
      else \<exists>e. witnessed h e s s' \<and> announced h c action e \<and> ea_Reason e = error_text h err \<and>
        ea_Reason e \<noteq> [] \<and> \<not> ea_Persisted e \<and> cp_world s' = Record (ch_late h) e w \<and>
        (w_db (cp_world s') = w_db w \<or>
         (\<exists>row. w_db (cp_world s') = with_audit row (w_db w) \<and>
            au_EventType row = action \<and> au_Outcome row = OutcomeFailure)))"

fun accepted :: "'p cp_reply \<Rightarrow> bool" where
  "accepted (CpError st code msg rid) = False"
| "accepted rep = True"

definition plain_draws :: "cp_handler \<Rightarrow> bool" where
  "plain_draws h \<longleftrightarrow> plain_rnd (se_rnd_id (ch_svc h)) \<and> plain_rnd (cv_rnd_id (ch_conn h)) \<and>
     (\<forall>e. ch_text h e \<noteq> [])"

section \<open>Steps that leave nothing\<close>

definition quiet :: "'p cp_step \<Rightarrow> bool" where
  "quiet f \<longleftrightarrow> (\<forall>s. w_db (cp_world (snd (f s))) = w_db (cp_world s) \<and>
     cp_log (snd (f s)) = cp_log s \<and> cp_ring (snd (f s)) = cp_ring s)"

named_theorems quietly \<open>handler steps that leave nothing behind\<close>

lemma quiet_answer [quietly]: "quiet (cp_answer rep)"
  by (simp add: quiet_def cp_answer_def)

lemma quiet_refuse [quietly]: "quiet (refuse_with c e)"
  by (simp add: quiet_def refuse_with_def)

lemma quiet_read [quietly]:
  assumes "read_only m" and "\<And>x. quiet (ok x)"
  shows "quiet (cp_read c m ok)"
  unfolding quiet_def
proof
  fix s :: cp_state
  obtain r w where m: "m (cp_world s) = (r, w)" by fastforce
  with read_onlyD [OF assms(1)] have "w_db w = w_db (cp_world s)" by blast
  with m assms(2) show "w_db (cp_world (snd (cp_read c m ok s))) = w_db (cp_world s) \<and>
      cp_log (snd (cp_read c m ok s)) = cp_log s \<and> cp_ring (snd (cp_read c m ok s)) = cp_ring s"
    by (cases r) (simp_all add: cp_read_def quiet_def)
qed

lemma quiet_split [quietly]: "(\<And>x y. quiet (f x y)) \<Longrightarrow> quiet (case p of (x, y) \<Rightarrow> f x y)"
  by (cases p) simp

section \<open>The recorder after the service\<close>

lemma stamp_keeps [simp]:
  "announced h c action (stamp t e) = announced h c action e" "names (stamp t e) = names e"
  "ea_Reason (stamp t e) = ea_Reason e" "ea_Persisted (stamp t e) = ea_Persisted e"
  by (simp_all add: stamp_def announced_def names_def)

lemma marks_keep [simp]:
  "announced h c action (e\<lparr> ea_Persisted := b \<rparr>) = announced h c action e"
  "announced h c action (e\<lparr> ea_Reason := r \<rparr>) = announced h c action e"
  "names (e\<lparr> ea_Persisted := b \<rparr>) = names e" "names (e\<lparr> ea_Reason := r \<rparr>) = names e"
  by (simp_all add: announced_def names_def)

text \<open>An event with a reason, outside any transaction, costs at most its own row.\<close>

lemma Record_failure:
  assumes "ea_Reason e \<noteq> []" and "announced h c action e"
  shows "w_db (Record en e w) = w_db w \<or>
    (\<exists>row. w_db (Record en e w) = with_audit row (w_db w) \<and> au_EventType row = action \<and>
       au_Outcome row = OutcomeFailure)"
proof (cases "ea_Persisted e")
  case False
  show ?thesis
  proof (cases "toRecord (en_u en) (en_is_ip en) (en_rnd en) (en_now en) e")
    case (Some row)
    obtain r w' where i: "insert_audit row w = (r, w')" by fastforce
    with False Some have w': "w_db (Record en e w) = w_db w'" by (simp add: Record_def)
    show ?thesis
    proof (cases r)
      case (Inl x)
      with i w' show ?thesis by (auto dest: insert_audit_Inl)
    next
      case (Inr u)
      with i w' have "w_db (Record en e w) = with_audit row (w_db w)"
        by (auto simp: with_audit_def dest: insert_audit_Inr)
      moreover have "au_EventType row = action" "au_Outcome row = OutcomeFailure"
        using toRecord_Some(2,7) [OF Some] assms by (simp_all add: outcomeOf_def announced_def)
      ultimately show ?thesis by blast
    qed
  qed (simp add: Record_def)
qed (simp add: Record_def)

lemma error_text_nonempty: "catalogued_error B e \<Longrightarrow> \<forall>e. ch_text h e \<noteq> [] \<Longrightarrow> error_text h e \<noteq> []"
  by (cases e) (auto dest: catalogued_code)

lemma error_not_accepted [simp]: "\<not> accepted (cp_respondError c e)"
  by (cases e) (simp_all add: cp_respondError_def)

lemma given_upI:
  assumes "announced h c action ev" and "\<not> ea_Persisted ev" and "catalogued_error B e"
    and "\<forall>e. ch_text h e \<noteq> []" and "w_db w = w_db (cp_world s)"
  shows "given_up h c action e w s (RecordControlPlaneOutcome h ev (Some e) (s\<lparr> cp_world := w \<rparr>))"
proof (cases "e = ErrNotRecorded")
  case False
  let ?e = "stamp (ch_now h) (ev\<lparr> ea_Reason := error_text h e \<rparr>)"
  have e: "ea_Reason ?e \<noteq> []" "announced h c action ?e" "\<not> ea_Persisted ?e" "ea_Reason ?e = error_text h e"
    using assms error_text_nonempty [OF assms(3,4)] by simp_all
  have s': "RecordControlPlaneOutcome h ev (Some e) (s\<lparr> cp_world := w \<rparr>) =
      s\<lparr> cp_log := cp_log s @ [?e], cp_world := Record (ch_late h) ?e w, cp_ring := RecordMemory (ch_now h) ?e (cp_ring s) \<rparr>"
    using False by (simp add: RecordControlPlaneOutcome_def audit_Record_eq)
  note row = Record_failure [OF e(1,2), of "ch_late h" w]
  show ?thesis
    unfolding given_up_def s' witnessed_def if_not_P [OF False]
    by (intro conjI exI [of _ ?e] assms(5)) (use e row in simp_all)
qed (simp add: given_up_def RecordControlPlaneOutcome_def assms(5))

text \<open>What a service does to the event it completes.\<close>

definition completes :: "('a \<Rightarrow> audit_event \<Rightarrow> audit_event) \<Rightarrow> ('a \<Rightarrow> string \<times> string) \<Rightarrow> bool" where
  "completes complete res \<longleftrightarrow> (\<forall>x e. names (complete x e) = res x \<and>
     (\<forall>h c action. announced h c action (complete x e) = announced h c action e) \<and>
     ea_Reason (complete x e) = ea_Reason e \<and> ea_Persisted (complete x e) = ea_Persisted e)"

lemma completed_keeps:
  assumes "completes complete res"
  shows "announced h c action (completed complete m w ev) = announced h c action ev"
    and "ea_Reason (completed complete m w ev) = ea_Reason ev"
    and "ea_Persisted (completed complete m w ev) = ea_Persisted ev"
  using assms by (simp_all add: completed_def completes_def split: option.split)

definition trailed ::
  "cp_handler \<Rightarrow> http_ctx \<Rightarrow> audit_event \<Rightarrow> cp_change \<Rightarrow> bool \<Rightarrow> 'p cp_step \<Rightarrow> bool" where
  "trailed h c ev ch late f \<longleftrightarrow> (\<forall>s rep s' r w. f s = (rep, s') \<longrightarrow> cp_service h ch ev (cp_world s) = (r, w) \<longrightarrow>
     (case r of
        Inl e \<Rightarrow> rep = cp_respondError c e \<and> given_up h c (ea_Action ev) e w s s'
      | Inr _ \<Rightarrow> (accepted rep \<or> late) \<and> committed h c (ea_Action ev) ch s s'))"

lemma discard_Inl: "andThen m (\<lambda>_. ret ()) w = (Inl e, w') \<longleftrightarrow> m w = (Inl e, w')"
  by (auto simp: andThen_def ret_def split: prod.splits sum.splits)

lemma discard_Inr: "andThen m (\<lambda>_. ret ()) w = (Inr u, w') \<longleftrightarrow> (\<exists>x. m w = (Inr x, w'))"
  by (auto simp: andThen_def ret_def split: prod.splits sum.splits)

lemma discard_twice [simp]: "andThen (andThen m (\<lambda>x. ret (g x))) (\<lambda>_. ret ()) = andThen m (\<lambda>_. ret ())"
  by (auto simp: andThen_def ret_def fun_eq_iff split: prod.splits sum.splits)

lemma mutate_trailed:
  assumes ev: "announced h c (ea_Action ev) ev" "ea_Reason ev = []" "\<not> ea_Persisted ev"
    and effect: "\<And>w. audited (\<lambda>x d1 row. cp_effect h ch (res x) (w_db w) d1 \<and> au_EventType row = ea_Action ev \<and>
        au_Outcome row = OutcomeSuccess \<and> (au_ResourceType row, au_ResourceID row) = res x) (svc ev) w"
    and service: "cp_service h ch ev = andThen (svc ev) (\<lambda>_. ret ())"
    and known: "known B (svc ev)" and worded: "\<forall>e. ch_text h e \<noteq> []"
    and complete: "completes complete res"
    and ok: "\<And>x. quiet (ok x)" "\<And>x s. late \<or> accepted (fst (ok x s))"
  shows "trailed h c ev ch late (cp_mutate h c complete ev svc ok)"
  unfolding trailed_def
proof (intro allI impI)
  fix s rep s' r w
  assume run: "cp_mutate h c complete ev svc ok s = (rep, s')" and r: "cp_service h ch ev (cp_world s) = (r, w)"
  let ?ev = "completed complete (svc ev) (cp_world s) ev"
  note keeps = completed_keeps [OF complete, where m = "svc ev" and w = "cp_world s" and ev = ev]
  show "case r of
      Inl e \<Rightarrow> rep = cp_respondError c e \<and> given_up h c (ea_Action ev) e w s s'
    | Inr _ \<Rightarrow> (accepted rep \<or> late) \<and> committed h c (ea_Action ev) ch s s'"
  proof (cases r)
    case (Inl e)
    with r service have m: "svc ev (cp_world s) = (Inl e, w)" by (simp add: discard_Inl)
    then have "w_db w = w_db (cp_world s)"
      using effect [of "cp_world s"] by (simp add: audited_def atomic_outcome_def)
    with given_upI [of h c "ea_Action ev" ?ev B e w s] keeps ev raisesD [OF known m] worded
    have "given_up h c (ea_Action ev) e w s (RecordControlPlaneOutcome h ?ev (Some e) (s\<lparr> cp_world := w \<rparr>))" by simp
    with m Inl run show ?thesis by (simp add: cp_mutate_def)
  next
    case (Inr u)
    with r service obtain x where m: "svc ev (cp_world s) = (Inr x, w)" by (auto simp: discard_Inr)
    let ?e = "stamp (ch_now h) (?ev\<lparr> ea_Persisted := True \<rparr>)"
    let ?s = "RecordControlPlaneOutcome h ?ev None (s\<lparr> cp_world := w \<rparr>)"
    have x: "names ?e = res x" using complete m by (simp add: completed_def completes_def)
    from effect [of "cp_world s"] m obtain d1 row where
      d1: "cp_effect h ch (res x) (w_db (cp_world s)) d1" "w_db w = with_audit row d1"
        "au_EventType row = ea_Action ev" "au_Outcome row = OutcomeSuccess"
        "(au_ResourceType row, au_ResourceID row) = res x"
      by (auto simp: audited_def atomic_outcome_def)
    have s': "ok x ?s = (rep, s')" using run m by (simp add: cp_mutate_def)
    from ok(1) [of x] s' have q: "w_db (cp_world s') = w_db (cp_world ?s)" "cp_log s' = cp_log ?s" "cp_ring s' = cp_ring ?s"
      unfolding quiet_def by (metis snd_conv)+
    have seen: "witnessed h ?e s s'" and db: "w_db (cp_world s') = with_audit row d1"
      using q d1(2) by (simp_all add: witnessed_def RecordControlPlaneOutcome_def audit_Record_eq Record_def)
    have "announced h c (ea_Action ev) ?e" "ea_Reason ?e = []" "ea_Persisted ?e" using keeps ev by simp_all
    with d1 x seen db have "committed h c (ea_Action ev) ch s s'" unfolding committed_def by metis
    moreover have "accepted rep \<or> late" using ok(2) [of x ?s] s' by auto
    ultimately show ?thesis using Inr by simp
  qed
qed

section \<open>The three domains\<close>

lemma describes_ws:
  assumes "describes en row (ws_event x ev)"
  shows "au_EventType row = ea_Action ev \<and> au_Outcome row = outcomeOf ev \<and>
     au_ResourceType row = ''workspace'' \<and> au_ResourceID row = ws_PublicID x"
  using assms toRecord_Some(2,4,7) toRecord_resource unfolding describes_def
  by (fastforce simp: ws_event_def record_resource_def outcomeOf_def IsKnownResourceType_def AllResourceTypes_def)

lemma outcome_success: "ea_Reason e = [] \<Longrightarrow> outcomeOf e = OutcomeSuccess"
  by (simp add: outcomeOf_def)

lemma ws_trailed:
  assumes "announced h c (ea_Action ev) ev" and "ea_Reason ev = []" and "\<not> ea_Persisted ev" and "\<forall>e. ch_text h e \<noteq> []"
    and "svc ev = ws_run_op op ev (se_now (ch_svc h)) (se_audit (ch_svc h))" and "known B (svc ev)"
    and "\<And>x. quiet (ok x)" and "\<And>x s. accepted (fst (ok x s))"
  shows "trailed h c ev (WsChange op) late (cp_mutate h c ws_event ev svc ok)"
proof (rule mutate_trailed)
  show "completes ws_event (\<lambda>x. (''workspace'', ws_PublicID x))"
    by (simp add: completes_def names_def ws_event_def announced_def)
  show "audited (\<lambda>x d1 row. cp_effect h (WsChange op) (''workspace'', ws_PublicID x) (w_db w) d1 \<and>
      au_EventType row = ea_Action ev \<and> au_Outcome row = OutcomeSuccess \<and>
      (au_ResourceType row, au_ResourceID row) = (''workspace'', ws_PublicID x)) (svc ev) w" for w
  proof -
    have "audited (\<lambda>x d1 row. describes (se_audit (ch_svc h)) row (ws_event x ev) \<and>
        d1 = (w_db w)\<lparr> db_workspaces := db_workspaces d1 \<rparr> \<and>
        ws_effect op x (db_workspaces (w_db w)) (db_workspaces d1)) (svc ev) w"
      unfolding audited_def assms(5) by (rule ws_run_op_atomic) simp
    then show ?thesis
      by (rule audited_weaken) (use assms(1,2) outcome_success in \<open>fastforce simp: announced_def dest!: describes_ws\<close>)
  qed
qed (use assms in simp_all)

lemma pj_trailed:
  assumes "announced h c (ea_Action ev) ev" and "ea_Reason ev = []" and "\<not> ea_Persisted ev" and "\<forall>e. ch_text h e \<noteq> []"
    and "\<And>w. audited (\<lambda>x d1 row. pj_outcome (ch_svc h) op ev (w_db w) (g x) d1 row) (svc ev) w"
    and "andThen (pj_run_op op ev (ch_svc h)) (\<lambda>_. ret ()) = andThen (svc ev) (\<lambda>_. ret ())" and "known B (svc ev)" and "completes complete (\<lambda>x. result_target (g x))"
    and "\<And>x. quiet (ok x)" and "\<And>x s. late \<or> accepted (fst (ok x s))"
  shows "trailed h c ev (PjChange op) late (cp_mutate h c complete ev svc ok)"
proof (rule mutate_trailed)
  show "audited (\<lambda>x d1 row. cp_effect h (PjChange op) (result_target (g x)) (w_db w) d1 \<and>
      au_EventType row = ea_Action ev \<and> au_Outcome row = OutcomeSuccess \<and>
      (au_ResourceType row, au_ResourceID row) = result_target (g x)) (svc ev) w" for w
    by (rule audited_weaken [OF assms(5)])
      (use assms(1,2) outcome_success in \<open>auto simp: announced_def pj_outcome_def\<close>)
qed (use assms in simp_all)

lemma cn_trailed:
  assumes "announced h c (ea_Action ev) ev" and "ea_Reason ev = []" and "\<not> ea_Persisted ev" and "\<forall>e. ch_text h e \<noteq> []"
    and "\<And>w. audited (\<lambda>x d1 row. cn_outcome (ch_conn h) op ev (w_db w) (g x) d1 row) (svc ev) w"
    and "andThen (cn_run_op op ev (ch_conn h)) (\<lambda>_. ret ()) = andThen (svc ev) (\<lambda>_. ret ())" and "known B (svc ev)" and "completes complete (\<lambda>x. (''connection'', cn_PublicID (g x)))"
    and "\<And>x. quiet (ok x)" and "\<And>x s. accepted (fst (ok x s))"
  shows "trailed h c ev (CnChange op) late (cp_mutate h c complete ev svc ok)"
proof (rule mutate_trailed)
  show "audited (\<lambda>x d1 row. cp_effect h (CnChange op) (''connection'', cn_PublicID (g x)) (w_db w) d1 \<and>
      au_EventType row = ea_Action ev \<and> au_Outcome row = OutcomeSuccess \<and>
      (au_ResourceType row, au_ResourceID row) = (''connection'', cn_PublicID (g x))) (svc ev) w" for w
    by (rule audited_weaken [OF assms(5)])
      (use assms(1,2) outcome_success in \<open>auto simp: announced_def cn_outcome_def\<close>)
qed (use assms in simp_all)

section \<open>The events and the replies\<close>

lemma ControlPlaneEvent_fields:
  "announced h c action (ControlPlaneEvent h c action)" "ea_Reason (ControlPlaneEvent h c action) = []"
  "\<not> ea_Persisted (ControlPlaneEvent h c action)" "ea_Action (ControlPlaneEvent h c action) = action"
  by (simp_all add: announced_def ControlPlaneEvent_def EventFromGin_def zero_event_def no_actor_def Let_def)

lemma seeded_fields:
  "announced h c action (seeded h c action t)" "ea_Reason (seeded h c action t) = []"
  "\<not> ea_Persisted (seeded h c action t)"
  "announced h c action ((seeded h c action t)\<lparr> ea_Extra := x \<rparr>)" "ea_Action (seeded h c action t) = action"
  "ea_Action (workspace_event h c action) = action" "ea_Action (connectionEvent h c action) = action"
  "announced h c action (workspace_event h c action)" "ea_Reason (workspace_event h c action) = []"
  "\<not> ea_Persisted (workspace_event h c action)"
  "announced h c action (connectionEvent h c action)" "ea_Reason (connectionEvent h c action) = []"
  "\<not> ea_Persisted (connectionEvent h c action)"
  using ControlPlaneEvent_fields [of h c action]
  by (simp_all add: seeded_def workspace_event_def connectionEvent_def announced_def)

lemmas event_fields = ControlPlaneEvent_fields seeded_fields

lemma completes_events:
  "completes pj_event (\<lambda>p. (''project'', pj_PublicID p))"
  "completes (\<lambda>p ev. pj_event p (ev\<lparr> ea_Workspace := pj_WorkspacePublicID p \<rparr>)) (\<lambda>p. (''project'', pj_PublicID p))"
  "completes cr_event (\<lambda>x. (''project_credential'', cr_PublicID x))"
  "completes (\<lambda>r. cr_event (fst r)) (\<lambda>r. result_target (minted_result r))"
  "completes (\<lambda>x. cn_event (cn_ID x)) (\<lambda>x. (''connection'', cn_PublicID x))"
  "completes (\<lambda>r. cn_event (cn_ID (fst r))) (\<lambda>r. (''connection'', cn_PublicID (fst r)))"
  "completes (\<lambda>x ev. cn_event (cn_ID x) (ev\<lparr> ea_Workspace := cn_WorkspacePublicID x \<rparr>))
     (\<lambda>x. (''connection'', cn_PublicID x))"
  by (simp_all add: completes_def names_def pj_event_def cr_event_def target_event_def cn_event_def
      announced_def minted_result_def cn_PublicID_def)

lemma accepted_answer [simp]:
  "accepted (fst (cp_answer (CpJSON st p) s))" "accepted (fst (cp_answer (CpStatus st) s))"
  "accepted (fst (connection_reply h st x s))"
  by (simp_all add: cp_answer_def connection_reply_def)

lemma quiet_replies [quietly]: "quiet (connection_reply h st x)" "quiet (counted_reply c p)"
  unfolding connection_reply_def counted_reply_def pj_ActiveCredentialCount_def
  by (intro quietly reads)+

section \<open>The handlers\<close>

lemma reads_only [reads]:
  "read_only (ws_List raw)" "read_only (ws_Get pid)" "read_only (pj_List wid)" "read_only (pj_Get wid pid)"
  "read_only (cr_List wid pid)" "read_only (cn_List wid raw)" "read_only (cn_Get wid cid)"
proof -
  show "read_only (ws_List raw)" "read_only (ws_Get pid)"
    unfolding ws_List_def ws_Get_def wsr_List_def by (intro reads)+
  show "read_only (pj_List wid)"
    unfolding pj_List_def pjr_ListProjects_def pjr_CountActiveCredentialsByProject_def
    by (intro reads) (auto intro: reads)
  show "read_only (pj_Get wid pid)"
    unfolding pj_Get_def by (intro reads) (auto intro: reads split: prod.split)
  show "read_only (cr_List wid pid)"
    unfolding cr_List_def pjr_ListCredentials_def by (intro reads) (auto intro: reads split: prod.split)
  show "read_only (cn_List wid raw)" "read_only (cn_Get wid cid)"
    unfolding cn_List_def cnr_List_def cn_Get_def by (intro reads; auto intro: reads split: prod.split)+
qed

lemma quiet_requests:
  assumes "change_of h c rq = None"
  shows "quiet (cp_handle h c rq)"
proof -
  have r: "quiet (wh_List h c)" "quiet (wh_Get h c)" "quiet (ph_List h c)" "quiet (ph_Get h c)"
    "quiet (ph_ListCredentials h c)" "quiet ph_Scopes" "quiet (xh_List h c)" "quiet (xh_Get h c)"
    unfolding wh_List_def wh_Get_def ph_List_def ph_Get_def ph_ListCredentials_def ph_Scopes_def
      xh_List_def xh_Get_def
    by (intro quietly reads)+
  show ?thesis
  proof (cases rq)
    case (PatchWorkspace b)
    with assms show ?thesis
      by (cases b) (auto simp: wh_Update_def decodeJSON_def quiet_refuse split: option.splits)
  next
    case (PatchProject b)
    with assms show ?thesis
      by (cases b) (auto simp: ph_Update_def decodeJSON_def quiet_refuse split: option.splits)
  next
    case (PatchConnection b)
    with assms show ?thesis
      by (cases b) (auto simp: xh_Update_def decodeJSON_def quiet_refuse update_input.truncate_def split: if_splits)
  next
    case (PostWorkspace b)
    with assms show ?thesis by (cases b) (simp_all add: wh_Create_def decodeJSON_def quiet_refuse)
  next
    case (PostProject b)
    with assms show ?thesis by (cases b) (simp_all add: ph_Create_def decodeJSON_def quiet_refuse)
  next
    case (PostCredential b)
    with assms show ?thesis by (cases b) (simp_all add: ph_CreateCredential_def decodeJSON_def quiet_refuse)
  next
    case (PostConnection b)
    with assms show ?thesis by (cases b) (simp_all add: xh_Create_def decodeJSON_def quiet_refuse)
  qed (use r assms in simp_all)
qed

fun is_rename :: "cp_request \<Rightarrow> bool" where
  "is_rename (PatchProject b) = True"
| "is_rename rq = False"

lemma split_accepted [simp]:
  "accepted (fst ((case p of (x, y) \<Rightarrow> cp_answer (CpJSON st (g x y))) s))"
  by (cases p) simp

lemma trailed_workspaces:
  assumes "plain_draws h" and "change_of h c rq = Some (ev, WsChange op)"
  shows "trailed h c ev (WsChange op) (is_rename rq) (cp_handle h c rq)"
proof -
  have worded: "\<forall>e. ch_text h e \<noteq> []" "plain_rnd (se_rnd_id (ch_svc h))"
    using assms(1) by (simp_all add: plain_draws_def)
  show ?thesis
  proof (cases rq)
    case (PostWorkspace b)
    with assms(2) obtain q where q: "b = Some q" "ev = ControlPlaneEvent h c ''workspace.created''"
      "op = WsCreate (cw_Name q) (cw_Slug q) (se_rnd_id (ch_svc h))" by (cases b) auto
    show ?thesis unfolding PostWorkspace q cp_handle.simps wh_Create_def decodeJSON_def option.case
      by (rule ws_trailed [where B = "quoted_scopes h rq"])
        (simp_all add: event_fields worded known_workspaces quiet_answer)
  next
    case (PatchWorkspace b)
    with assms(2) obtain q n where q: "b = Some q" "uw_Slug q = None" "uw_Status q = None" "uw_Name q = Some n"
      "ev = workspace_event h c ''workspace.renamed''" "op = WsRename (Param c ''workspace_id'') n"
      by (cases b) (auto split: option.splits)
    have "trailed h c ev (WsChange op) (is_rename rq) (cp_mutate h c ws_event (workspace_event h c ''workspace.renamed'')
        (\<lambda>ev. ws_UpdateName (Param c ''workspace_id'') n ev (se_now (ch_svc h)) (se_audit (ch_svc h)))
        (\<lambda>w. cp_answer (CpJSON 200 (CpWorkspace (ws_toResponse w)))))"
      unfolding q by (rule ws_trailed [where B = "quoted_scopes h rq"])
        (simp_all add: event_fields worded known_workspaces quiet_answer)
    with PatchWorkspace q show ?thesis by (simp add: wh_Update_def decodeJSON_def)
  next
    case ArchiveWorkspace
    with assms(2) have q: "ev = workspace_event h c ''workspace.archived''" "op = WsArchive (Param c ''workspace_id'')" by auto
    show ?thesis unfolding ArchiveWorkspace q cp_handle.simps wh_Archive_def
      by (rule ws_trailed [where B = "quoted_scopes h rq"])
        (simp_all add: event_fields worded known_workspaces quiet_answer)
  qed (use assms(2) in \<open>auto elim!: change_of.elims split: option.splits if_splits\<close>)
qed

lemma trailed_projects:
  assumes "plain_draws h" and "change_of h c rq = Some (ev, PjChange op)"
  shows "trailed h c ev (PjChange op) (is_rename rq) (cp_handle h c rq)"
proof -
  have worded: "\<forall>e. ch_text h e \<noteq> []" using assms(1) by (simp add: plain_draws_def)
  note facts = event_fields worded known_projects quiet_answer quiet_split quiet_replies completes_events
    pj_Create_audited pj_Rename_audited pj_Archive_audited cr_Create_audited cr_Revoke_audited
  show ?thesis
  proof (cases rq)
    case (PostProject b)
    with assms(2) obtain n where q: "b = Some n" "ev = seeded h c ''project.created'' (target_of ''project'' [] n)"
      "op = PjCreate (Param c ''workspace_id'') n" by (cases b) auto
    show ?thesis unfolding PostProject q cp_handle.simps ph_Create_def decodeJSON_def option.case
      by (rule pj_trailed [where g = ProjectResult and B = "quoted_scopes h rq"]) (simp_all add: facts)
  next
    case (PatchProject b)
    with assms(2) obtain q n where q: "b = Some q" "upj_WorkspaceID q = None" "upj_Status q = None" "upj_Name q = Some n"
      "ev = seeded h c ''project.renamed'' (target_of ''project'' (Param c ''project_id'') n)" "op = PjRename (Param c ''workspace_id'') (Param c ''project_id'') n"
      by (cases b) (auto split: option.splits)
    have "trailed h c ev (PjChange op) (is_rename rq) (cp_mutate h c pj_event
        (seeded h c ''project.renamed'' (target_of ''project'' (Param c ''project_id'') n))
        (\<lambda>ev. pj_Rename (Param c ''workspace_id'') (Param c ''project_id'') n ev (ch_svc h)) (counted_reply c))"
      unfolding q PatchProject by (rule pj_trailed [where g = ProjectResult and B = "quoted_scopes h rq"]) (simp_all add: facts)
    with PatchProject q show ?thesis by (simp add: ph_Update_def decodeJSON_def)
  next
    case ArchiveProject
    with assms(2) have q: "ev = seeded h c ''project.archived'' (target_of ''project'' (Param c ''project_id'') [])"
      "op = PjArchive (Param c ''workspace_id'') (Param c ''project_id'')" by auto
    show ?thesis unfolding ArchiveProject q cp_handle.simps ph_Archive_def
      by (rule pj_trailed [where g = ProjectResult and B = "quoted_scopes h rq"]) (simp_all add: facts)
  next
    case (PostCredential b)
    with assms(2) obtain q where q: "b = Some q" "ev = (seeded h c ''project_credential.created'' (target_of ''project_credential'' [] (cc_Label q))) \<lparr> ea_Extra := [(''scopes'', MStrings (cc_Scopes q))] \<rparr>"
      "op = CrCreate (Param c ''workspace_id'') (Param c ''project_id'') \<lparr> ci_Label = cc_Label q,
         ci_Scopes = cc_Scopes q, ci_ExpiresAt = cc_ExpiresAt q, ci_CreatedBy = callerSubject c \<rparr>"
      by (cases b) auto
    show ?thesis unfolding PostCredential q cp_handle.simps ph_CreateCredential_def decodeJSON_def option.case
      by (rule pj_trailed [where g = minted_result and B = "quoted_scopes h (PostCredential (Some q))"])
        (simp_all add: facts known_cr_Create split: prod.split)
  next
    case RevokeCredential
    with assms(2) have q: "ev = seeded h c ''project_credential.revoked'' (target_of ''project_credential'' (Param c ''credential_id'') [])"
      "op = CrRevoke (Param c ''workspace_id'') (Param c ''project_id'') (Param c ''credential_id'') (callerSubject c)"
      by auto
    show ?thesis unfolding RevokeCredential q cp_handle.simps ph_RevokeCredential_def
      by (rule pj_trailed [where g = CredentialResult and B = "quoted_scopes h rq"]) (simp_all add: facts)
  qed (use assms(2) in \<open>auto elim!: change_of.elims split: option.splits if_splits\<close>)
qed

lemma trailed_connections:
  assumes "plain_draws h" and "change_of h c rq = Some (ev, CnChange op)"
  shows "trailed h c ev (CnChange op) (is_rename rq) (cp_handle h c rq)"
proof -
  have worded: "\<forall>e. ch_text h e \<noteq> []" "plain_rnd (cv_rnd_id (ch_conn h))"
    using assms(1) by (simp_all add: plain_draws_def)
  note facts = event_fields worded known_connections quiet_answer quiet_split quiet_replies completes_events
    cn_Create_audited cn_Update_audited cn_Verify_audited cn_Activate_audited cn_Retire_audited cn_Delete_audited
  show ?thesis
  proof (cases rq)
    case (PostConnection b)
    with assms(2) obtain q where q: "b = Some q" "ev = connectionEvent h c ''connection.created''"
      "op = CnCreate (Param c ''workspace_id'') q" by (cases b) auto
    show ?thesis unfolding PostConnection q cp_handle.simps xh_Create_def decodeJSON_def option.case
      by (rule cn_trailed [where g = id and B = "quoted_scopes h rq"]) (simp_all add: facts)
  next
    case (PatchConnection b)
    with assms(2) obtain q where q: "b = Some q" "uc_Status q = None" "uc_Provider q = None"
      "\<not> (up_Name q = None \<and> up_BaseURL q = None \<and> up_Realm q = None \<and> up_ClientID q = None \<and> up_ClientSecret q = None)"
      "ev = connectionEvent h c ''connection.updated''"
      "op = CnUpdate (Param c ''workspace_id'') (Param c ''connection_id'') (update_input.truncate q)"
      by (cases b) (auto simp: update_input.truncate_def split: if_splits)
    have "trailed h c ev (CnChange op) (is_rename rq) (cp_mutate h c (\<lambda>x. cn_event (cn_ID x))
        (connectionEvent h c ''connection.updated'')
        (\<lambda>ev. cn_Update (Param c ''workspace_id'') (Param c ''connection_id'') (update_input.truncate q) ev (ch_conn h))
        (connection_reply h 200))"
      unfolding q(5,6) by (rule cn_trailed [where g = id and B = "quoted_scopes h rq"]) (simp_all add: facts)
    with PatchConnection q show ?thesis by (auto simp: xh_Update_def decodeJSON_def)
  next
    case DeleteConnection
    with assms(2) have q: "ev = connectionEvent h c ''connection.deleted''"
      "op = CnDelete (Param c ''workspace_id'') (Param c ''connection_id'')" by auto
    show ?thesis unfolding DeleteConnection q cp_handle.simps xh_Delete_def
      by (rule cn_trailed [where g = id and B = "quoted_scopes h rq"]) (simp_all add: facts)
  next
    case VerifyConnection
    with assms(2) have q: "ev = connectionEvent h c ''connection.verified''"
      "op = CnVerify (Param c ''workspace_id'') (Param c ''connection_id'')" by auto
    show ?thesis unfolding VerifyConnection q cp_handle.simps xh_Verify_def
      by (rule cn_trailed [where g = fst and B = "quoted_scopes h rq"]) (simp_all add: facts)
  next
    case ActivateConnection
    with assms(2) have q: "ev = connectionEvent h c ''connection.activated''"
      "op = CnActivate (Param c ''workspace_id'') (Param c ''connection_id'')" by auto
    show ?thesis unfolding ActivateConnection q cp_handle.simps xh_Activate_def
      by (rule cn_trailed [where g = id and B = "quoted_scopes h rq"]) (simp_all add: facts)
  next
    case RetireConnection
    with assms(2) have q: "ev = connectionEvent h c ''connection.retired''"
      "op = CnRetire (Param c ''workspace_id'') (Param c ''connection_id'')" by auto
    show ?thesis unfolding RetireConnection q cp_handle.simps xh_Retire_def
      by (rule cn_trailed [where g = id and B = "quoted_scopes h rq"]) (simp_all add: facts)
  qed (use assms(2) in \<open>auto elim!: change_of.elims split: option.splits if_splits\<close>)
qed

lemma trailed_requests:
  assumes "plain_draws h" and "change_of h c rq = Some (ev, ch)"
  shows "trailed h c ev ch (is_rename rq) (cp_handle h c rq)"
  using assms trailed_workspaces trailed_projects trailed_connections by (cases ch) simp_all

section \<open>What the client is told\<close>

fun told :: "string set \<Rightarrow> http_ctx \<Rightarrow> 'p cp_reply \<Rightarrow> bool" where
  "told B c (CpError st code msg rid) \<longleftrightarrow> cp_catalogued B (AppError code msg st) \<and> rid = FromContext c"
| "told B c rep \<longleftrightarrow> True"

definition speaks :: "string set \<Rightarrow> http_ctx \<Rightarrow> 'p cp_step \<Rightarrow> bool" where
  "speaks B c f \<longleftrightarrow> (\<forall>s. told B c (fst (f s)))"

lemma told_error: "catalogued_error B e \<Longrightarrow> told B c (cp_respondError c e)"
proof -
  have "cp_catalogued B PjErrInternal" by (simp add: cp_catalogued_def cp_errors_def)
  then show "catalogued_error B e \<Longrightarrow> told B c (cp_respondError c e)"
    by (cases e) (simp_all add: cp_respondError_def catalogued_error_def PjErrInternal_def)
qed

named_theorems speaking \<open>handler steps that answer from the catalogue\<close>

lemma speaks_answer [speaking]:
  "speaks B c (cp_answer (CpJSON st p))" "speaks B c (cp_answer (CpStatus st))"
  by (simp_all add: speaks_def cp_answer_def)

lemma speaks_refuse [speaking]: "catalogued_error B e \<Longrightarrow> speaks B c (refuse_with c e)"
  by (simp add: speaks_def refuse_with_def told_error)

lemma speaks_read [speaking]:
  assumes "known B m" and "\<And>x. speaks B c (ok x)"
  shows "speaks B c (cp_read c m ok)"
  unfolding speaks_def
proof
  fix s :: cp_state
  obtain r w where m: "m (cp_world s) = (r, w)" by fastforce
  with assms(2) show "told B c (fst (cp_read c m ok s))"
    by (cases r) (auto simp: cp_read_def speaks_def intro!: told_error raisesD [OF assms(1)])
qed

lemma speaks_mutate [speaking]:
  assumes "known B (svc ev)" and "\<And>x. speaks B c (ok x)"
  shows "speaks B c (cp_mutate h c complete ev svc ok)"
  unfolding speaks_def
proof
  fix s :: cp_state
  obtain r w where m: "svc ev (cp_world s) = (r, w)" by fastforce
  with assms(2) show "told B c (fst (cp_mutate h c complete ev svc ok s))"
    by (cases r) (auto simp: cp_mutate_def speaks_def Let_def intro!: told_error raisesD [OF assms(1)])
qed

lemma speaks_decode [speaking]:
  "catalogued_error B e \<Longrightarrow> (\<And>q. body = Some q \<Longrightarrow> speaks B c (f q)) \<Longrightarrow> speaks B c (decodeJSON c e body f)"
  by (cases body) (simp_all add: decodeJSON_def speaks_refuse)

lemma speaks_cases [speaking]:
  "speaks B c m \<Longrightarrow> speaks B c n \<Longrightarrow> speaks B c (if b then m else n)"
  "speaks B c m \<Longrightarrow> (\<And>x. speaks B c (f x)) \<Longrightarrow> speaks B c (case r of None \<Rightarrow> m | Some x \<Rightarrow> f x)"
  "(\<And>x y. speaks B c (k x y)) \<Longrightarrow> speaks B c (case p of (x, y) \<Rightarrow> k x y)"
  by (simp_all split: option.split prod.split)

lemma handlers_speak:
  assumes "plain_draws h"
  shows "speaks (quoted_scopes h rq) c (cp_handle h c rq)"
proof -
  have rnd: "plain_rnd (se_rnd_id (ch_svc h))" "plain_rnd (cv_rnd_id (ch_conn h))"
    using assms by (simp_all add: plain_draws_def)
  note facts = speaking known_workspaces known_projects known_cr_Create known_connections rnd
  have w: "speaks B c (wh_List h c)" "speaks B c (wh_Create h c b1)" "speaks B c (wh_Get h c)" "speaks B c (wh_Update h c b2)"
    "speaks B c (wh_Archive h c)" for b1 b2 B
    unfolding wh_List_def wh_Create_def wh_Get_def wh_Update_def wh_Archive_def
    by (intro facts; simp)+
  have p: "speaks B c (ph_List h c)" "speaks B c (ph_Create h c b1)" "speaks B c (ph_Get h c)" "speaks B c (ph_Update h c b2)"
    "speaks B c (ph_Archive h c)" "speaks B c (ph_ListCredentials h c)" "speaks (quoted_scopes h (PostCredential b3)) c (ph_CreateCredential h c b3)"
    "speaks B c (ph_RevokeCredential h c)" "speaks B c ph_Scopes" for b1 b2 b3 B
    unfolding ph_List_def ph_Create_def ph_Get_def ph_Update_def ph_Archive_def ph_ListCredentials_def
      ph_CreateCredential_def ph_RevokeCredential_def ph_Scopes_def counted_reply_def
    by (intro facts; simp)+
  have x: "speaks B c (xh_List h c)" "speaks B c (xh_Create h c b1)" "speaks B c (xh_Get h c)" "speaks B c (xh_Update h c b2)"
    "speaks B c (xh_Delete h c)" "speaks B c (xh_Verify h c)" "speaks B c (xh_Activate h c)" "speaks B c (xh_Retire h c)" for b1 b2 B
    unfolding xh_List_def xh_Create_def xh_Get_def xh_Update_def xh_Delete_def xh_Verify_def xh_Activate_def
      xh_Retire_def connection_reply_def
    by (intro facts; simp)+
  from w p x show ?thesis by (cases rq) simp_all
qed

section \<open>Properties\<close>

text \<open>C6: what becomes of a request to the control plane that changes something is what
  its service answers. When the service succeeds the change has happened, with exactly
  one audit row, a success that names its action and its resource, and exactly one event,
  in the log and in the ring, that is marked as persisted and says the same; the client
  is told so, except that a rename may be answered with an error after it happened. When
  it fails the tables are as they were, the client is answered that error, and exactly
  one event has it as its reason, in the log, in the ring and, if the store takes it, in
  one row that says the action failed; only when the error is that the audit row could
  not be written is nothing more attempted. A read, or a body refused before the
  service, leaves nothing.\<close>

theorem control_plane_trail:
  assumes "plain_draws h" and "cp_handle h c rq s = (rep, s')"
  shows "case change_of h c rq of
      None \<Rightarrow> w_db (cp_world s') = w_db (cp_world s) \<and> cp_log s' = cp_log s \<and> cp_ring s' = cp_ring s
    | Some (ev, ch) \<Rightarrow>
        (case cp_service h ch ev (cp_world s) of
           (Inl e, w) \<Rightarrow> rep = cp_respondError c e \<and> given_up h c (ea_Action ev) e w s s'
         | (Inr _, w) \<Rightarrow> (accepted rep \<or> is_rename rq) \<and> committed h c (ea_Action ev) ch s s')"
proof (cases "change_of h c rq")
  case None
  from quiet_requests [OF None, unfolded quiet_def, rule_format, of s]
  show ?thesis unfolding None option.case assms(2) by simp
next
  case (Some p)
  obtain ev ch where p: "p = (ev, ch)" by (cases p)
  obtain r w where service: "cp_service h ch ev (cp_world s) = (r, w)" by fastforce
  note t = trailed_requests [OF assms(1) Some [unfolded p], unfolded trailed_def, rule_format, OF assms(2) service]
  show ?thesis unfolding Some p option.case prod.case service using t by (cases r) simp_all
qed

text \<open>C39: whatever fails and wherever, an error the client of the control plane sees is
  an entry of the catalogue, code, message and status, and carries the id of the request.
  The only texts that are put into a message are the name of an immutable field and a
  scope that the request itself named: no text of the database or of another package
  reaches it.\<close>

theorem control_replies_catalogued:
  assumes "plain_draws h" and "cp_handle h c rq s = (CpError st code msg rid, s')"
  shows "rid = FromContext c \<and>
    (AppError code msg st \<in> set cp_errors \<or>
     (\<exists>field \<in> set immutable_fields. AppError code msg st = immutableFieldError field) \<or>
     (\<exists>bad \<in> quoted_scopes h rq. AppError code msg st = invalidScopeError bad))"
  using handlers_speak [OF assms(1), of rq c] assms(2)
  unfolding speaks_def cp_catalogued_def by (metis cp_catalogued_def fst_conv told.simps(1))

section \<open>Witnesses\<close>

definition demo_cp_handler :: cp_handler where
  "demo_cp_handler = \<lparr> ch_ip = ''10.0.0.1'', ch_query = (\<lambda>_. []), ch_text = (\<lambda>_. ''driver failure''), ch_now = 7,
     ch_late = demo_env\<lparr> en_rnd := Inr (replicate 16 9) \<rparr>, ch_svc = demo_svc, ch_conn = demo_cn_env 6 \<rparr>"

definition demo_cp_ctx :: http_ctx where
  "demo_cp_ctx = empty_ctx\<lparr> rq_params := [(''workspace_id'', ''ws_'' @ demo_ws_id), (''project_id'', ''prj_'' @ demo_uuid),
       (''credential_id'', ''key_'' @ demo_uuid)],
     cx_request_id := Some ''r1'', cx_identity := Some \<lparr> id_Subject = ''op2'', id_Email = [], id_Username = [],
       id_Roles = [''admin''], id_ExpiresAt = 0 \<rparr> \<rparr>"

definition demo_cp_state :: "bool list \<Rightarrow> cp_state" where
  "demo_cp_state faults = \<lparr> cp_world = demo_project_world\<lparr> w_faults := faults \<rparr>, cp_log = [],
     cp_ring = NewMemoryRecorder 4 \<rparr>"

lemma demo_cp_draws: "plain_draws demo_cp_handler"
  by (simp add: plain_draws_def demo_cp_handler_def demo_svc_def demo_cn_env_def plain_rnd_def)

lemma demo_revocation_accepted:
  "accepted (fst (cp_handle demo_cp_handler demo_cp_ctx RevokeCredential (demo_cp_state [])))"
  by code_simp

theorem control_plane_trail_witness:
  "\<exists>ch. committed demo_cp_handler demo_cp_ctx ''project_credential.revoked'' ch (demo_cp_state [])
     (snd (cp_handle demo_cp_handler demo_cp_ctx RevokeCredential (demo_cp_state [])))"
proof -
  obtain rep s' where r: "cp_handle demo_cp_handler demo_cp_ctx RevokeCredential (demo_cp_state []) = (rep, s')" by fastforce
  from demo_revocation_accepted r have "accepted rep" by simp
  with control_plane_trail [OF demo_cp_draws r] r show ?thesis
    by (auto simp: event_fields split: prod.splits sum.splits)
qed

definition demo_bad_ctx :: http_ctx where
  "demo_bad_ctx = demo_cp_ctx\<lparr> rq_params := [(''workspace_id'', ''acme'')] \<rparr>"

theorem control_replies_catalogued_witness:
  "AppError ''invalid_workspace_id'' ''Workspace id must be in the form ws_<uuid>'' 400 \<in> set cp_errors \<and>
   ''r1'' = FromContext demo_bad_ctx"
proof -
  obtain rep s' where r: "cp_handle demo_cp_handler demo_bad_ctx GetWorkspace (demo_cp_state []) = (rep, s')" by fastforce
  have "fst (cp_handle demo_cp_handler demo_bad_ctx GetWorkspace (demo_cp_state [])) =
    CpError 400 ''invalid_workspace_id'' ''Workspace id must be in the form ws_<uuid>'' ''r1''" by code_simp
  with r have "cp_handle demo_cp_handler demo_bad_ctx GetWorkspace (demo_cp_state []) =
    (CpError 400 ''invalid_workspace_id'' ''Workspace id must be in the form ws_<uuid>'' ''r1'', s')" by simp
  from control_replies_catalogued [OF demo_cp_draws this] show ?thesis by (simp add: immutableFieldError_def)
qed

text \<open>The rename that happened and is answered with 500: the count of live credentials
  is read after the commit, and the reply depends on it.\<close>

lemma rename_applied_but_failed:
  defines "s \<equiv> demo_cp_state (replicate 7 False @ [True])"
  defines "r \<equiv> cp_handle demo_cp_handler demo_cp_ctx
      (PatchProject (Some \<lparr> upj_Name = Some ''Next'', upj_Status = None, upj_WorkspaceID = None \<rparr>)) s"
  shows "fst r = CpError 500 ''internal_error'' ''Internal error'' ''r1'' \<and>
    map pj_Name (db_projects (w_db (cp_world (snd r)))) = [''Next''] \<and>
    map ea_Persisted (cp_log (snd r)) = [True]"
  unfolding r_def s_def by code_simp

text \<open>A refused COMMIT leaves the event with the row the service had in hand, a refused
  statement before it does not: the two schedules of a one-statement transaction.\<close>

lemma uncommitted_commit:
  assumes "w_faults w = False # True # bs" and "f (w_db w) = Inr (x, d)"
  shows "uncommitted (InTx (andThen (stmt f) (\<lambda>x. ret (g x)))) w = Some (g x)"
  using assms by (simp add: uncommitted_def InTx_def andThen_def stmt_def next_fault_def commit_def ret_def)

lemma uncommitted_statement:
  assumes "w_faults w = True # bs"
  shows "uncommitted (InTx (andThen (stmt f) (\<lambda>x. ret (g x)))) w = None"
  using assms by (auto simp: uncommitted_def InTx_def andThen_def stmt_def next_fault_def commit_def ret_def
      split: sum.splits prod.splits)

end
