(* ===== verification/AdminCache.thy ===== *)
theory AdminCache
  imports Authn
begin

text \<open>
  The live-admin cache of \<^verbatim>\<open>internal/auth/admin_check.go\<close>:
  NewCachedAdminChecker, IsAdmin, Invalidate, InvalidateAll.

  The clock is read twice in IsAdmin, when an entry is tested and again when
  an answer is stored, so IsAdmin takes both readings. Time is in nanoseconds.
\<close>

record admin_entry =
  ae_isAdmin :: bool
  ae_expiresAt :: int

record admin_cache =
  ac_ttl :: int
  ac_entries :: "string \<Rightarrow> admin_entry option"

definition second :: int where "second = 1000000000"

definition DefaultAdminTTL :: int where "DefaultAdminTTL = 30 * second"

definition NewCachedAdminChecker :: "int \<Rightarrow> admin_cache" where
  "NewCachedAdminChecker ttl =
     \<lparr> ac_ttl = (if ttl \<le> 0 then DefaultAdminTTL else ttl), ac_entries = (\<lambda>_. None) \<rparr>"

definition cache_hit :: "admin_cache \<Rightarrow> int \<Rightarrow> string \<Rightarrow> bool option" where
  "cache_hit k now subject =
     (case ac_entries k subject of
        None \<Rightarrow> None
      | Some e \<Rightarrow> if now < ae_expiresAt e then Some (ae_isAdmin e) else None)"

definition cache_store :: "admin_cache \<Rightarrow> int \<Rightarrow> string \<Rightarrow> bool \<Rightarrow> admin_cache" where
  "cache_store k now subject b =
     k\<lparr> ac_entries := (ac_entries k)(subject \<mapsto>
          \<lparr> ae_isAdmin = b, ae_expiresAt = now + ac_ttl k \<rparr>) \<rparr>"

definition IsAdmin ::
  "'u admin_checker \<Rightarrow> int \<Rightarrow> int \<Rightarrow> (admin_cache \<times> 'u) admin_checker" where
  "IsAdmin upstream now1 now2 subject st =
     (let (k, u) = st in
      if subject = [] then (Inr False, (k, u))
      else case cache_hit k now1 subject of
        Some b \<Rightarrow> (Inr b, (k, u))
      | None \<Rightarrow>
          (case upstream subject u of
             (Inl err, u') \<Rightarrow> (Inl err, (k, u'))
           | (Inr b, u') \<Rightarrow> (Inr b, (cache_store k now2 subject b, u'))))"

definition Invalidate :: "string \<Rightarrow> admin_cache \<Rightarrow> admin_cache" where
  "Invalidate subject k =
     (if subject = [] then k else k\<lparr> ac_entries := (ac_entries k)(subject := None) \<rparr>)"

definition InvalidateAll :: "admin_cache \<Rightarrow> admin_cache" where
  "InvalidateAll k = k\<lparr> ac_entries := (\<lambda>_. None) \<rparr>"

section \<open>Lemmas\<close>

lemma cache_hit_store [simp]:
  "cache_hit (cache_store k now s b) t s' =
     (if s' = s then (if t < now + ac_ttl k then Some b else None) else cache_hit k t s')"
  by (simp add: cache_hit_def cache_store_def)

lemma cache_hit_Invalidate [simp]:
  "cache_hit (Invalidate s k) t s' = (if s' = s \<and> s \<noteq> [] then None else cache_hit k t s')"
  by (simp add: cache_hit_def Invalidate_def)

lemma cache_hit_InvalidateAll [simp]: "cache_hit (InvalidateAll k) t s = None"
  by (simp add: cache_hit_def InvalidateAll_def)

lemma cache_hit_New [simp]: "cache_hit (NewCachedAdminChecker ttl) t s = None"
  by (simp add: cache_hit_def NewCachedAdminChecker_def)

section \<open>Interleavings\<close>

text \<open>Requests overlap: IsAdmin holds the lock to look up and to store, not while
  it asks upstream. A step is one critical section or one change of the world:
  time passes (a request waits at most \<open>D\<close> for upstream), the server-side role
  changes, a miss fetches an answer, a fetched answer is stored, a hit is
  served, an entry is invalidated. \<open>as_log\<close> is a ghost: the answers upstream
  gave, with their times.\<close>

record admin_sys =
  as_now :: int
  as_cache :: admin_cache
  as_truth :: "string \<Rightarrow> bool"
  as_pending :: "(string \<times> bool \<times> int) list"
  as_log :: "(string \<times> bool \<times> int) set"

datatype admin_label = Quiet | Served string bool

inductive admin_step :: "int \<Rightarrow> admin_sys \<Rightarrow> admin_label \<Rightarrow> admin_sys \<Rightarrow> bool" for D where
  tick: "t \<ge> as_now y \<Longrightarrow> \<forall>(s, b, f) \<in> set (as_pending y). t - f \<le> D \<Longrightarrow>
    admin_step D y Quiet (y\<lparr> as_now := t \<rparr>)"
| change: "admin_step D y Quiet (y\<lparr> as_truth := (as_truth y)(s := b) \<rparr>)"
| fetch: "s \<noteq> [] \<Longrightarrow> cache_hit (as_cache y) (as_now y) s = None \<Longrightarrow>
    admin_step D y Quiet
      (y\<lparr> as_pending := (s, as_truth y s, as_now y) # as_pending y,
         as_log := insert (s, as_truth y s, as_now y) (as_log y) \<rparr>)"
| store: "as_pending y = ps @ (s, b, f) # qs \<Longrightarrow>
    admin_step D y (Served s b)
      (y\<lparr> as_pending := ps @ qs, as_cache := cache_store (as_cache y) (as_now y) s b \<rparr>)"
| hit: "s \<noteq> [] \<Longrightarrow> cache_hit (as_cache y) (as_now y) s = Some b \<Longrightarrow> admin_step D y (Served s b) y"
| invalidate: "admin_step D y Quiet (y\<lparr> as_cache := Invalidate s (as_cache y) \<rparr>)"
| invalidate_all: "admin_step D y Quiet (y\<lparr> as_cache := InvalidateAll (as_cache y) \<rparr>)"

inductive_cases admin_step_served: "admin_step D y (Served s b) y'"

inductive admin_reach :: "int \<Rightarrow> int \<Rightarrow> admin_sys \<Rightarrow> bool" for D ttl where
  init: "admin_reach D ttl \<lparr> as_now = t, as_cache = NewCachedAdminChecker ttl, as_truth = w,
           as_pending = [], as_log = {} \<rparr>"
| step: "admin_reach D ttl y \<Longrightarrow> admin_step D y l y' \<Longrightarrow> admin_reach D ttl y'"

definition effective_ttl :: "int \<Rightarrow> int" where
  "effective_ttl ttl = (if ttl \<le> 0 then DefaultAdminTTL else ttl)"

text \<open>The invariant: pending answers are young, and an entry stands for an answer
  upstream gave at most \<open>D\<close> before the entry was stored.\<close>

definition admin_inv :: "int \<Rightarrow> int \<Rightarrow> admin_sys \<Rightarrow> bool" where
  "admin_inv D ttl y \<longleftrightarrow>
     ac_ttl (as_cache y) = effective_ttl ttl \<and>
     (\<forall>(s, b, f) \<in> set (as_pending y). (s, b, f) \<in> as_log y \<and> as_now y - f \<le> D) \<and>
     (\<forall>s e. ac_entries (as_cache y) s = Some e \<longrightarrow>
        (\<exists>f. (s, ae_isAdmin e, f) \<in> as_log y \<and> ae_expiresAt e - effective_ttl ttl - f \<le> D))"

lemma ac_ttl_keeps [simp]:
  "ac_ttl (cache_store k n s b) = ac_ttl k" "ac_ttl (Invalidate s k) = ac_ttl k"
  "ac_ttl (InvalidateAll k) = ac_ttl k"
  by (simp_all add: cache_store_def Invalidate_def InvalidateAll_def)

lemma ac_entries_upd:
  "ac_entries (cache_store k n s b) = (ac_entries k)(s \<mapsto> \<lparr> ae_isAdmin = b, ae_expiresAt = n + ac_ttl k \<rparr>)"
  "ac_entries (InvalidateAll k) s' = None"
  "ac_entries (Invalidate s k) s' = (if s' = s \<and> s \<noteq> [] then None else ac_entries k s')"
  by (simp_all add: cache_store_def InvalidateAll_def Invalidate_def)

lemma admin_inv_step:
  assumes "admin_step D y l y'" and "admin_inv D ttl y" and "0 \<le> D"
  shows "admin_inv D ttl y'"
  using assms
proof (induction rule: admin_step.induct)
  case (fetch s y)
  then show ?case by (fastforce simp: admin_inv_def)
next
  case (store y ps s b f qs)
  then have p: "(s, b, f) \<in> as_log y" "as_now y - f \<le> D" by (auto simp: admin_inv_def)
  with store show ?case by (fastforce simp: admin_inv_def ac_entries_upd)
qed (fastforce simp: admin_inv_def ac_entries_upd)+

lemma admin_reach_inv:
  assumes "admin_reach D ttl y" and "0 \<le> D" shows "admin_inv D ttl y"
  using assms
proof (induction rule: admin_reach.induct)
  case (init t w)
  then show ?case by (simp add: admin_inv_def NewCachedAdminChecker_def effective_ttl_def)
qed (blast intro: admin_inv_step)

section \<open>Properties\<close>

text \<open>On a miss the upstream answer is returned and, when it is an answer,
  repeated for exactly the TTL without asking upstream again (whatever upstream
  would now say), after which upstream is asked; an upstream error is returned
  as an error, is not cached and never becomes an admission.\<close>

theorem admin_cache_contract:
  assumes "subject \<noteq> []" and "upstream subject u = (r, u')" and "cache_hit k now1 subject = None"
  shows "case r of
       Inl err \<Rightarrow> IsAdmin upstream now1 now2 subject (k, u) = (Inl err, (k, u'))
     | Inr b \<Rightarrow> \<exists>k'. IsAdmin upstream now1 now2 subject (k, u) = (Inr b, (k', u')) \<and>
         (if t < now2 + ac_ttl k
          then IsAdmin up2 t t2 subject (k', v) = (Inr b, (k', v))
          else fst (IsAdmin up2 t t2 subject (k', v)) = fst (up2 subject v))"
  using assms by (auto simp: IsAdmin_def split: sum.splits prod.splits)

theorem admin_cache_contract_witness:
  "\<exists>k'. IsAdmin (\<lambda>_ n. (Inr True, n + 1)) 0 5 ''u1'' (NewCachedAdminChecker 0, 0 :: nat) =
          (Inr True, (k', 1)) \<and>
     IsAdmin (\<lambda>_ n. (Inr False, n + 1)) (5 + 29 * second) 9 ''u1'' (k', 1 :: nat) = (Inr True, (k', 1))"
proof -
  have h: "cache_hit (NewCachedAdminChecker 0) 0 ''u1'' = None" by simp
  have t: "ac_ttl (NewCachedAdminChecker 0) = 30 * second"
    by (simp add: NewCachedAdminChecker_def DefaultAdminTTL_def)
  show ?thesis
    using admin_cache_contract [OF _ _ h, of "\<lambda>_ n. (Inr True, n + 1)" "0 :: nat" "Inr True" 1 5
        "5 + 29 * second" "\<lambda>_ n. (Inr False, n + 1)" 9 "1 :: nat"]
    by (simp add: t second_def)
qed

text \<open>C29: under every interleaving of lookups, fetches, stores and invalidations, an
  answer served is one the server gave less than the TTL plus one upstream round
  trip before: a role revoked behind the API's back admits nobody past that.\<close>

theorem admin_cache_staleness:
  assumes "admin_reach D ttl y" and "0 \<le> D" and "admin_step D y (Served s b) y'"
  shows "\<exists>f. (s, b, f) \<in> as_log y \<and> as_now y - f < effective_ttl ttl + D"
proof -
  from admin_reach_inv [OF assms(1,2)] have inv: "admin_inv D ttl y" .
  have pos: "0 < effective_ttl ttl"
    by (simp add: effective_ttl_def DefaultAdminTTL_def second_def)
  from assms(3) show ?thesis
  proof (rule admin_step_served)
    fix ps f qs assume "as_pending y = ps @ (s, b, f) # qs"
    with inv have "(s, b, f) \<in> as_log y \<and> as_now y - f \<le> D" by (auto simp: admin_inv_def)
    with pos show ?thesis by (intro exI [of _ f]) simp
  next
    assume "cache_hit (as_cache y) (as_now y) s = Some b"
    then obtain e where e: "ac_entries (as_cache y) s = Some e" "as_now y < ae_expiresAt e"
        "ae_isAdmin e = b"
      by (auto simp: cache_hit_def split: option.splits if_splits)
    with inv obtain f where "(s, b, f) \<in> as_log y" "ae_expiresAt e - effective_ttl ttl - f \<le> D"
      unfolding admin_inv_def by blast
    with e(2) show ?thesis by (intro exI [of _ f]) simp
  qed
qed

definition admin_start :: admin_sys where
  "admin_start = \<lparr> as_now = 0, as_cache = NewCachedAdminChecker 0, as_truth = (\<lambda>_. True),
     as_pending = [], as_log = {} \<rparr>"

definition admin_fetched :: admin_sys where
  "admin_fetched = admin_start\<lparr> as_pending := [(''u1'', True, 0)], as_log := {(''u1'', True, 0)} \<rparr>"

lemma admin_fetched_reach: "admin_reach D 0 admin_fetched"
proof -
  have "admin_reach D 0 admin_start" unfolding admin_start_def by (rule admin_reach.init)
  moreover have "admin_step D admin_start Quiet admin_fetched"
    using admin_step.fetch [of "''u1''" admin_start D]
    by (simp add: admin_fetched_def admin_start_def cache_hit_New)
  ultimately show ?thesis by (rule admin_reach.step)
qed

theorem admin_cache_staleness_witness:
  "\<exists>y' f. admin_step 7 admin_fetched (Served ''u1'' True) y' \<and> (''u1'', True, f) \<in> as_log admin_fetched
     \<and> as_now admin_fetched - f < effective_ttl 0 + 7"
proof -
  have "as_pending admin_fetched = [] @ (''u1'', True, 0) # []" by (simp add: admin_fetched_def)
  from admin_step.store [OF this, of 7] show ?thesis
    using admin_cache_staleness [OF admin_fetched_reach [of 7], of "''u1''" True] by fastforce
qed

text \<open>Invalidate is not enough on its own. A run exists in which the role is
  revoked, the API invalidates the subject, and the cache afterwards still
  serves the old admission, because an answer fetched before the revocation is
  stored after the invalidation.\<close>

theorem invalidate_race:
  "\<exists>y1 y2 y3. admin_reach 0 0 y1 \<and> as_truth y1 ''u1'' = False \<and>
     y2 = y1\<lparr> as_cache := Invalidate ''u1'' (as_cache y1) \<rparr> \<and>
     admin_step 0 y1 Quiet y2 \<and> admin_step 0 y2 (Served ''u1'' True) y3 \<and>
     cache_hit (as_cache y3) (as_now y3) ''u1'' = Some True"
proof -
  define y1 where "y1 = admin_fetched\<lparr> as_truth := (as_truth admin_fetched)(''u1'' := False) \<rparr>"
  define y2 where "y2 = y1\<lparr> as_cache := Invalidate ''u1'' (as_cache y1) \<rparr>"
  define y3 where "y3 = y2\<lparr> as_pending := [] @ [],
    as_cache := cache_store (as_cache y2) (as_now y2) ''u1'' True \<rparr>"
  have "admin_reach 0 0 y1"
    unfolding y1_def by (rule admin_reach.step [OF admin_fetched_reach admin_step.change])
  moreover have "admin_step 0 y1 Quiet y2" unfolding y2_def by (rule admin_step.invalidate)
  moreover have "as_pending y2 = [] @ (''u1'', True, 0) # []"
    by (simp add: y2_def y1_def admin_fetched_def)
  then have "admin_step 0 y2 (Served ''u1'' True) y3" unfolding y3_def by (rule admin_step.store)
  moreover have "cache_hit (as_cache y3) (as_now y3) ''u1'' = Some True"
    by (simp add: y3_def y2_def y1_def admin_fetched_def admin_start_def NewCachedAdminChecker_def
        DefaultAdminTTL_def second_def)
  moreover have "as_truth y1 ''u1'' = False" by (simp add: y1_def)
  ultimately show ?thesis using y2_def by blast
qed

end
