(* ===== verification/GoJson.thy ===== *)
theory GoJson
  imports Text "HOL-Library.List_Lexorder"
begin

text \<open>
  What the server's request bodies need of Go's \<^verbatim>\<open>encoding/json\<close>: values without
  numbers, rendered as \<^verbatim>\<open>json.Marshal\<close> does: no blanks, a struct's fields in the
  order of its declaration, a map's keys sorted, an empty \<^verbatim>\<open>omitempty\<close> field left
  out, and strings escaped for HTML, with a byte that begins no UTF-8 sequence
  replaced. A reader of one string literal is the reference.

  Lemmas: a rendered string is read back as it was, whatever follows it, so no
  value can end its literal early or change the shape of a body.
\<close>

datatype json =
    JString string
  | JBool bool
  | JList "json list"
  | JObject "(string \<times> json) list"

section \<open>UTF-8\<close>

definition cont :: "char \<Rightarrow> bool" where "cont c = in_range CHR 0x80 CHR 0xBF c"

text \<open>The length of the rune a string starts with, as \<^verbatim>\<open>utf8.DecodeRuneInString\<close>
  accepts it; \<open>0\<close> for none.\<close>

definition pair_ok :: "char \<Rightarrow> char \<Rightarrow> bool" where
  "pair_ok a b \<longleftrightarrow> in_range CHR 0xC2 CHR 0xDF a \<and> cont b"

definition triple_ok :: "char \<Rightarrow> char \<Rightarrow> char \<Rightarrow> bool" where
  "triple_ok a b c \<longleftrightarrow> in_range CHR 0xE0 CHR 0xEF a \<and> cont c \<and>
     in_range (if a = CHR 0xE0 then CHR 0xA0 else CHR 0x80) (if a = CHR 0xED then CHR 0x9F else CHR 0xBF) b"

definition quad_ok :: "char \<Rightarrow> char \<Rightarrow> char \<Rightarrow> char \<Rightarrow> bool" where
  "quad_ok a b c d \<longleftrightarrow> in_range CHR 0xF0 CHR 0xF4 a \<and> cont c \<and> cont d \<and>
     in_range (if a = CHR 0xF0 then CHR 0x90 else CHR 0x80) (if a = CHR 0xF4 then CHR 0x8F else CHR 0xBF) b"

definition rune_size :: "string \<Rightarrow> nat" where
  "rune_size s =
     (if s = [] then 0
      else if is_ascii (s ! 0) then 1
      else if length s \<ge> 2 \<and> pair_ok (s ! 0) (s ! 1) then 2
      else if length s \<ge> 3 \<and> triple_ok (s ! 0) (s ! 1) (s ! 2) then 3
      else if length s \<ge> 4 \<and> quad_ok (s ! 0) (s ! 1) (s ! 2) (s ! 3) then 4
      else 0)"

lemma rune_size_ascii: "is_ascii c \<Longrightarrow> rune_size (c # s) = 1"
  by (simp add: rune_size_def)

function valid_utf8 :: "string \<Rightarrow> bool" where
  "valid_utf8 s =
     (if s = [] then True
      else if rune_size s = 0 then False
      else valid_utf8 (drop (rune_size s) s))"
  by pat_completeness auto

termination valid_utf8
  by (relation "measure length") auto

declare valid_utf8.simps [simp del]

section \<open>Strings\<close>

definition lower_hex :: "nat \<Rightarrow> char" where
  "lower_hex n = (if n < 10 then char_of (48 + n) else char_of (87 + n))"

definition backslash :: char where "backslash = CHR 0x5C"
definition quote :: char where "quote = CHR 0x22"

definition unicode_escape :: "nat \<Rightarrow> string" where
  "unicode_escape n = [backslash, CHR ''u'', lower_hex (n div 4096 mod 16), lower_hex (n div 256 mod 16),
     lower_hex (n div 16 mod 16), lower_hex (n mod 16)]"

text \<open>The printable ASCII bytes \<^verbatim>\<open>htmlSafeSet\<close> lets through.\<close>

definition html_safe :: "char \<Rightarrow> bool" where
  "html_safe c \<longleftrightarrow> (of_char c :: nat) \<ge> 32 \<and> c \<noteq> quote \<and> c \<noteq> backslash \<and> c \<notin> set ''<>&''"

definition escape_ascii :: "char \<Rightarrow> string" where
  "escape_ascii c =
     (if html_safe c then [c]
      else if c = quote \<or> c = backslash then [backslash, c]
      else if c = CHR 0x08 then [backslash, CHR ''b'']
      else if c = CHR 0x0C then [backslash, CHR ''f'']
      else if c = CHR 0x0A then [backslash, CHR ''n'']
      else if c = CHR 0x0D then [backslash, CHR ''r'']
      else if c = CHR 0x09 then [backslash, CHR ''t'']
      else unicode_escape (of_char c))"

function escape_string :: "string \<Rightarrow> string" where
  "escape_string s =
     (case s of
        [] \<Rightarrow> []
      | c # t \<Rightarrow>
          if is_ascii c then escape_ascii c @ escape_string t
          else let n = rune_size s in
            if n = 0 then unicode_escape 65533 @ escape_string t
            else (if take n s = [CHR 0xE2, CHR 0x80, CHR 0xA8] then unicode_escape 8232
                  else if take n s = [CHR 0xE2, CHR 0x80, CHR 0xA9] then unicode_escape 8233
                  else take n s) @ escape_string (drop n s))"
  by pat_completeness auto

termination escape_string
  by (relation "measure length") auto

declare escape_string.simps [simp del]

definition render_string :: "string \<Rightarrow> string" where
  "render_string s = [quote] @ escape_string s @ [quote]"

section \<open>Values\<close>

fun separated :: "string list \<Rightarrow> string" where
  "separated [] = []"
| "separated [x] = x"
| "separated (x # y # xs) = x @ '','' @ separated (y # xs)"

fun render :: "json \<Rightarrow> string" where
  "render (JString s) = render_string s"
| "render (JBool b) = (if b then ''true'' else ''false'')"
| "render (JList xs) = ''['' @ separated (map render xs) @ '']''"
| "render (JObject fs) = ''{'' @ separated (map (\<lambda>(k, v). render_string k @ '':'' @ render v) fs) @ ''}''"

definition JStrings :: "string list \<Rightarrow> json" where "JStrings ss = JList (map JString ss)"

text \<open>A map, its keys sorted, and the \<^verbatim>\<open>omitempty\<close> fields.\<close>

definition JMap :: "(string \<times> json) list \<Rightarrow> json" where "JMap kvs = JObject (sort_key fst kvs)"

definition omit_string :: "string \<Rightarrow> string \<Rightarrow> (string \<times> json) list" where
  "omit_string k s = (if s = [] then [] else [(k, JString s)])"

definition omit_strings :: "string \<Rightarrow> string list \<Rightarrow> (string \<times> json) list" where
  "omit_strings k ss = (if ss = [] then [] else [(k, JStrings ss)])"

definition omit_attributes :: "(string \<times> string list) list \<Rightarrow> (string \<times> json) list" where
  "omit_attributes as =
     (if as = [] then [] else [(''attributes'', JMap (map (\<lambda>(k, vs). (k, JStrings vs)) as))])"

section \<open>Reading a string back\<close>

definition hex_value :: "char \<Rightarrow> nat option" where
  "hex_value c =
     (let n = of_char c in
      if is_digit c then Some (n - 48)
      else if in_range CHR ''a'' CHR ''f'' c then Some (n - 87)
      else if in_range CHR ''A'' CHR ''F'' c then Some (n - 55) else None)"

definition encode_rune :: "nat \<Rightarrow> string" where
  "encode_rune n =
     (if n < 128 then [char_of n]
      else if n < 2048 then [char_of (192 + n div 64), char_of (128 + n mod 64)]
      else [char_of (224 + n div 4096), char_of (128 + n div 64 mod 64), char_of (128 + n mod 64)])"

definition read_hex4 :: "string \<Rightarrow> (nat \<times> string) option" where
  "read_hex4 s =
     (case s of
        a # b # c # d # t \<Rightarrow>
          (case (hex_value a, hex_value b, hex_value c, hex_value d) of
             (Some w, Some x, Some y, Some z) \<Rightarrow> Some (w * 4096 + x * 256 + y * 16 + z, t)
           | _ \<Rightarrow> None)
      | _ \<Rightarrow> None)"

definition simple_escape :: "char \<Rightarrow> char option" where
  "simple_escape e =
     (if e = quote \<or> e = backslash \<or> e = CHR ''/'' then Some e
      else if e = CHR ''b'' then Some CHR 0x08 else if e = CHR ''f'' then Some CHR 0x0C
      else if e = CHR ''n'' then Some CHR 0x0A else if e = CHR ''r'' then Some CHR 0x0D
      else if e = CHR ''t'' then Some CHR 0x09 else None)"

definition prepend :: "string \<Rightarrow> (string \<times> string) option \<Rightarrow> (string \<times> string) option" where
  "prepend x = map_option (\<lambda>(s, rest). (x @ s, rest))"

text \<open>What follows the opening quote, up to the closing one, and the rest.
  Surrogate pairs are left out: the renderer writes none.\<close>

function read_string :: "string \<Rightarrow> (string \<times> string) option" where
  "read_string s =
     (case s of
        [] \<Rightarrow> None
      | c # t \<Rightarrow>
          if c = quote then Some ([], t)
          else if c \<noteq> backslash then prepend [c] (read_string t)
          else (case t of
              [] \<Rightarrow> None
            | e # u \<Rightarrow>
                if e = CHR ''u'' then
                  (case read_hex4 u of None \<Rightarrow> None | Some (n, v) \<Rightarrow> prepend (encode_rune n) (read_string v))
                else (case simple_escape e of None \<Rightarrow> None | Some x \<Rightarrow> prepend [x] (read_string u))))"
  by pat_completeness auto

lemma read_hex4_shorter: "read_hex4 u = Some (n, v) \<Longrightarrow> length v < length u"
  by (auto simp: read_hex4_def split: list.splits option.splits)

termination read_string
  by (relation "measure length") (auto dest: read_hex4_shorter)

declare read_string.simps [simp del]

lemmas read_Cons = read_string.simps [of "c # t" for c t, unfolded list.case]

lemma prepend_simps [simp]: "prepend x (Some (s, rest)) = Some (x @ s, rest)" "prepend x None = None"
  by (simp_all add: prepend_def)

lemma prepend_prepend: "prepend x (prepend y r) = prepend (x @ y) r"
  by (cases r) (auto simp: prepend_def)

lemma hex_lower: "n < 16 \<Longrightarrow> hex_value (lower_hex n) = Some n"
  by (cases "n < 10") (auto simp: hex_value_def lower_hex_def is_digit_def in_range_def less_eq_char_def Let_def)

lemma nibbles_sum: "(n :: nat) div 4096 * 4096 + n div 256 mod 16 * 256 + n div 16 mod 16 * 16 + n mod 16 = n"
proof -
  have sum: "c * 4096 + r2 * 256 + r1 * 16 + r0 = x"
    if "a * 16 + r0 = x" "b * 16 + r1 = a" "c * 16 + r2 = b" for a b c r0 r1 r2 x :: nat
    using that by (simp flip: that add: algebra_simps)
  have d: "n div 256 = n div 16 div 16" "n div 4096 = n div 16 div 16 div 16" by (simp_all flip: div_mult2_eq)
  show ?thesis unfolding d by (rule sum [OF div_mult_mod_eq div_mult_mod_eq div_mult_mod_eq])
qed

lemma read_unicode:
  assumes "n < 65536" shows "read_string (unicode_escape n @ t) = prepend (encode_rune n) (read_string t)"
proof -
  have "n div 4096 < 16" using assms by simp
  then have "read_hex4 (drop 2 (unicode_escape n) @ t) = Some (n, t)"
    by (simp add: unicode_escape_def read_hex4_def hex_lower nibbles_sum)
  then show ?thesis by (simp add: unicode_escape_def read_Cons quote_def backslash_def)
qed

lemma read_plain: "list_all (\<lambda>c. c \<noteq> quote \<and> c \<noteq> backslash) x \<Longrightarrow> read_string (x @ t) = prepend x (read_string t)"
proof (induction x)
  case Nil
  show ?case by (cases "read_string t") auto
next
  case (Cons c x)
  then show ?case by (simp add: read_Cons prepend_prepend)
qed

lemma read_ascii:
  assumes "is_ascii c" shows "read_string (escape_ascii c @ t) = prepend [c] (read_string t)"
proof (cases "html_safe c")
  case True
  then show ?thesis using read_plain [of "[c]"] by (simp add: escape_ascii_def html_safe_def)
next
  case unsafe: False
  have simple: "read_string (backslash # e # t) = prepend [x] (read_string t)"
    if "simple_escape e = Some x" for e x
  proof -
    have "e \<noteq> CHR ''u''" using that by (auto simp: simple_escape_def quote_def backslash_def)
    then show ?thesis using that by (simp add: read_Cons quote_def backslash_def)
  qed
  have code: "read_string (unicode_escape (of_char c) @ t) = prepend [c] (read_string t)"
    using assms read_unicode [of "of_char c" t] by (simp add: encode_rune_def is_ascii_def less_char_def)
  have esc: "simple_escape quote = Some quote" "simple_escape backslash = Some backslash"
    "simple_escape CHR ''b'' = Some CHR 0x08" "simple_escape CHR ''f'' = Some CHR 0x0C"
    "simple_escape CHR ''n'' = Some CHR 0x0A" "simple_escape CHR ''r'' = Some CHR 0x0D"
    "simple_escape CHR ''t'' = Some CHR 0x09"
    by (simp_all add: simple_escape_def quote_def backslash_def)
  show ?thesis
    using unsafe code esc [THEN simple] unfolding escape_ascii_def
    by simp
qed

text \<open>No byte of a longer rune is ASCII.\<close>

lemma high_range: "in_range lo hi x \<Longrightarrow> \<not> is_ascii lo \<Longrightarrow> \<not> is_ascii x"
  unfolding in_range_def is_ascii_def by (meson order.trans not_less)

lemma high_bytes: "\<not> is_ascii CHR 0x80" "\<not> is_ascii CHR 0x90" "\<not> is_ascii CHR 0xA0"
  by (simp_all add: is_ascii_def)

lemma high_cont: "cont c \<Longrightarrow> \<not> is_ascii c"
  using high_range high_bytes(1) unfolding cont_def by blast

lemma rune_ok_high:
  "pair_ok a b \<Longrightarrow> \<not> is_ascii b"
  "triple_ok a b c \<Longrightarrow> \<not> is_ascii b \<and> \<not> is_ascii c"
  "quad_ok a b c d \<Longrightarrow> \<not> is_ascii b \<and> \<not> is_ascii c \<and> \<not> is_ascii d"
  unfolding pair_ok_def triple_ok_def quad_ok_def
  by (auto dest!: high_cont high_range simp: high_bytes split: if_splits)

lemma high_plain: "\<not> is_ascii c \<Longrightarrow> c \<noteq> quote \<and> c \<noteq> backslash"
  by (auto simp: is_ascii_def quote_def backslash_def)

lemma rune_plain:
  assumes "\<not> is_ascii (hd s)"
  shows "list_all (\<lambda>c. c \<noteq> quote \<and> c \<noteq> backslash) (take (rune_size s) s)"
proof (cases "rune_size s = 0")
  case False
  have "\<not> is_ascii x" if x: "x \<in> set (take (rune_size s) s)" for x
  proof -
    from x obtain i where i: "i < rune_size s" "x = s ! i" by (auto simp: in_set_conv_nth)
    have "i < 4" using i(1) by (auto simp: rune_size_def split: if_splits)
    then have "i = 0 \<or> i = 1 \<or> i = 2 \<or> i = 3" by auto
    then show ?thesis using i assms False rune_ok_high
      by (auto simp: rune_size_def hd_conv_nth split: if_splits)
  qed
  then show ?thesis by (auto simp: list_all_iff dest: high_plain)
qed simp

lemma line_separators: "encode_rune 8232 = [CHR 0xE2, CHR 0x80, CHR 0xA8]" "encode_rune 8233 = [CHR 0xE2, CHR 0x80, CHR 0xA9]"
  by (simp_all add: encode_rune_def char_of_def bit_numeral_rec bit_0)

text \<open>A value's literal ends where it was ended, with every byte of it read back.\<close>

lemma read_escaped:
  assumes "valid_utf8 s" shows "read_string (escape_string s @ quote # rest) = Some (s, rest)"
  using assms
proof (induction s rule: escape_string.induct)
  case (1 s)
  show ?case
  proof (cases s)
    case Nil
    then show ?thesis by (simp add: escape_string.simps read_Cons)
  next
    case (Cons c t)
    note v = "1.prems" [unfolded valid_utf8.simps [of s]]
    show ?thesis
    proof (cases "is_ascii c")
      case True
      then have "rune_size s = 1" using Cons by (simp add: rune_size_ascii)
      with v Cons have "valid_utf8 t" by simp
      with "1.IH"(1) [OF Cons True] True Cons show ?thesis
        by (simp add: escape_string.simps [of "c # t"] read_ascii)
    next
      case False
      define n where "n = rune_size s"
      have n: "n > 0" "valid_utf8 (drop n s)" using v Cons by (auto simp: n_def split: if_splits)
      have ih: "read_string (escape_string (drop n s) @ quote # rest) = Some (drop n s, rest)"
        using "1.IH"(3) [OF Cons False n_def] n by simp
      have plain: "read_string (take n s @ x) = prepend (take n s) (read_string x)" for x
        using rune_plain [of s] False Cons n(1) by (intro read_plain) (simp add: n_def)
      have esc: "escape_string s = (if take n s = [CHR 0xE2, CHR 0x80, CHR 0xA8] then unicode_escape 8232
          else if take n s = [CHR 0xE2, CHR 0x80, CHR 0xA9] then unicode_escape 8233
          else take n s) @ escape_string (drop n s)"
        using Cons False n(1) by (subst escape_string.simps) (simp add: n_def Let_def)
      consider (ls) "take n s = encode_rune 8232" | (ps) "take n s = encode_rune 8233"
        | (other) "take n s \<noteq> encode_rune 8232" "take n s \<noteq> encode_rune 8233" by blast
      then have "read_string (escape_string s @ quote # rest) = prepend (take n s) (Some (drop n s, rest))"
      proof cases
        case ls
        with ih show ?thesis unfolding esc by (simp add: read_unicode line_separators)
      next
        case ps
        with ih show ?thesis unfolding esc by (simp add: read_unicode line_separators)
      next
        case other
        with ih show ?thesis unfolding esc by (simp add: plain line_separators)
      qed
      then show ?thesis by (simp only: prepend_simps append_take_drop_id)
    qed
  qed
qed

end
