(* ===== verification/KeycloakProvider.thy ===== *)
theory KeycloakProvider
  imports IdentityService GoJson "HOL-Library.AList"
begin

text \<open>
  \<^verbatim>\<open>internal/identity/keycloak\<close> without its HTTP client: the provider the service
  drives, method by method (\<^verbatim>\<open>provider.go\<close>, \<^verbatim>\<open>users.go\<close>, \<^verbatim>\<open>roles.go\<close>,
  \<^verbatim>\<open>sessions.go\<close>, \<^verbatim>\<open>invitations.go\<close>, \<^verbatim>\<open>realm.go\<close>). Its state is the client's.
  Request bodies are the JSON text the client sends; decoding an answer is a
  parameter, one function per type that is decoded into, and so is the order in
  which Go iterates over a map. An answer without content leaves the zero value.

  \<open>keycloak_provider\<close> is the instance of the interface the service is written
  against.
\<close>

section \<open>What Keycloak answers\<close>

record kc_user =
  ku_ID :: string
  ku_Username :: string
  ku_Email :: string
  ku_FirstName :: string
  ku_LastName :: string
  ku_Enabled :: bool
  ku_EmailVerified :: bool
  ku_CreatedTimestamp :: int
  ku_Attributes :: "(string \<times> string list) list"

record kc_user_with_actions = kc_user +
  ku_RequiredActions :: "string list"

record kc_role =
  kr_ID :: string
  kr_Name :: string
  kr_Description :: string
  kr_Composite :: bool
  kr_ClientRole :: bool
  kr_ContainerID :: string

record kc_user_session =
  ks_ID :: string
  ks_UserID :: string
  ks_Username :: string
  ks_IPAddress :: string
  ks_Start :: int
  ks_LastAccess :: int
  ks_Clients :: "(string \<times> string) list"

record kc_client_brief =
  kb_ID :: string
  kb_ClientID :: string
  kb_Enabled :: bool

record kc_role_brief =
  rb_ID :: string
  rb_Name :: string

record smtp_config =
  sm_Host :: string
  sm_Port :: string
  sm_From :: string
  sm_FromDisplayName :: string
  sm_SSL :: string
  sm_StartTLS :: string
  sm_Auth :: string
  sm_User :: string
  sm_Password :: string
  sm_ReplyTo :: string

record realm_languages =
  rl_InternationalizationEnabled :: bool
  rl_SupportedLocales :: "string list"
  rl_DefaultLocale :: string

text \<open>The zero values a decoder starts from.\<close>

definition zero_user :: kc_user where
  "zero_user = \<lparr> ku_ID = [], ku_Username = [], ku_Email = [], ku_FirstName = [], ku_LastName = [],
     ku_Enabled = False, ku_EmailVerified = False, ku_CreatedTimestamp = 0, ku_Attributes = [] \<rparr>"

definition zero_user_with_actions :: kc_user_with_actions where
  "zero_user_with_actions = kc_user.extend zero_user (kc_user_with_actions.fields [])"

definition zero_role :: kc_role where
  "zero_role = \<lparr> kr_ID = [], kr_Name = [], kr_Description = [], kr_Composite = False, kr_ClientRole = False,
     kr_ContainerID = [] \<rparr>"

definition zero_smtp :: smtp_config where
  "zero_smtp = \<lparr> sm_Host = [], sm_Port = [], sm_From = [], sm_FromDisplayName = [], sm_SSL = [],
     sm_StartTLS = [], sm_Auth = [], sm_User = [], sm_Password = [], sm_ReplyTo = [] \<rparr>"

definition zero_languages :: realm_languages where
  "zero_languages = \<lparr> rl_InternationalizationEnabled = False, rl_SupportedLocales = [], rl_DefaultLocale = [] \<rparr>"

record kc_codec =
  kd_user :: "string \<Rightarrow> kc_user option"
  kd_users :: "string \<Rightarrow> kc_user list option"
  kd_invitee :: "string \<Rightarrow> kc_user_with_actions option"
  kd_invitees :: "string \<Rightarrow> kc_user_with_actions list option"
  kd_role :: "string \<Rightarrow> kc_role option"
  kd_roles :: "string \<Rightarrow> kc_role list option"
  kd_sessions :: "string \<Rightarrow> kc_user_session list option"
  kd_clients :: "string \<Rightarrow> kc_client_brief list option"
  kd_smtp :: "string \<Rightarrow> smtp_config option"
  kd_languages :: "string \<Rightarrow> realm_languages option"
  kd_messages :: "string \<Rightarrow> (string \<times> string) list option"

record kc_provider =
  kp_env :: client_env
  kp_client :: admin_client
  kp_codec :: kc_codec
  kp_iteration :: "idp_session list \<Rightarrow> idp_session list"

section \<open>Conversions\<close>

definition unix_milli :: "int \<Rightarrow> int" where
  "unix_milli ms = (if ms > 0 then ms * 1000000 else zero_time)"

definition ku_toIdentity :: "'z kc_user_scheme \<Rightarrow> idp_user" where
  "ku_toIdentity u = \<lparr> us_ID = ku_ID u, us_Username = ku_Username u, us_Email = ku_Email u,
     us_FirstName = ku_FirstName u, us_LastName = ku_LastName u, us_Enabled = ku_Enabled u,
     us_EmailVerified = ku_EmailVerified u, us_CreatedAt = unix_milli (ku_CreatedTimestamp u),
     us_Attributes = ku_Attributes u \<rparr>"

definition builtinRoleNames :: "string list" where
  "builtinRoleNames = [''offline_access'', ''uma_authorization'', ''default-roles-saas'', ''default-roles-master'']"

definition kr_toIdentity :: "kc_role \<Rightarrow> idp_role" where
  "kr_toIdentity r = \<lparr> ir_ID = kr_ID r, ir_Name = kr_Name r, ir_Description = kr_Description r,
     ir_Composite = kr_Composite r,
     ir_Builtin = (kr_Name r \<in> set builtinRoleNames \<or>
       length (kr_Name r) > length ''default-roles-'' \<and> has_prefix ''default-roles-'' (kr_Name r)) \<rparr>"

definition ks_toIdentity :: "kc_user_session \<Rightarrow> idp_session" where
  "ks_toIdentity s = \<lparr> sn_ID = ks_ID s, sn_UserID = ks_UserID s, sn_Username = ks_Username s,
     sn_IPAddress = ks_IPAddress s, sn_UserAgent = [], sn_StartedAt = unix_milli (ks_Start s),
     sn_LastAccess = unix_milli (ks_LastAccess s), sn_Clients = ks_Clients s \<rparr>"

section \<open>Calls\<close>

text \<open>\<open>kc_get\<close> is \<^verbatim>\<open>doJSON\<close> with something to decode into, \<open>kc_send\<close> without.\<close>

definition kc_get ::
  "kc_provider \<Rightarrow> string \<Rightarrow> string \<Rightarrow> (kc_codec \<Rightarrow> string \<Rightarrow> 'a option) \<Rightarrow> 'a \<Rightarrow> 'a call" where
  "kc_get p path params dec zero w =
     (case doJSON (kp_env p) (kp_client p) ''GET'' path params [] (Some (dec (kp_codec p))) w of
        (Inl e, w1) \<Rightarrow> (Inl e, w1)
      | (Inr x, w1) \<Rightarrow> (Inr (case x of None \<Rightarrow> zero | Some v \<Rightarrow> v), w1))"

definition kc_send :: "kc_provider \<Rightarrow> string \<Rightarrow> string \<Rightarrow> json option \<Rightarrow> unit call" where
  "kc_send p meth path body w =
     (case doJSON (kp_env p) (kp_client p) meth path [] (case body of None \<Rightarrow> [] | Some j \<Rightarrow> render j)
        (None :: (string \<Rightarrow> unit option) option) w of
        (Inl e, w1) \<Rightarrow> (Inl e, w1)
      | (Inr _, w1) \<Rightarrow> (Inr (), w1))"

definition kc_create :: "kc_provider \<Rightarrow> string \<Rightarrow> json \<Rightarrow> string call" where
  "kc_create p path body = doCreate (kp_env p) (kp_client p) path (render body)"

definition kc_return :: "'a \<Rightarrow> 'a call" where "kc_return x w = (Inr x, w)"

text \<open>\<^verbatim>\<open>url.Values.Encode\<close> of pairs given in the order of their keys.\<close>

fun query_text :: "(string \<times> string) list \<Rightarrow> string" where
  "query_text [] = []"
| "query_text [(k, v)] = QueryEscape k @ ''='' @ QueryEscape v"
| "query_text ((k, v) # x # xs) = QueryEscape k @ ''='' @ QueryEscape v @ ''&'' @ query_text (x # xs)"

definition user_path :: "string \<Rightarrow> string" where "user_path i = ''/users/'' @ PathEscape i"
definition role_path :: "string \<Rightarrow> string" where "role_path n = ''/roles/'' @ PathEscape n"

section \<open>Users\<close>

definition kp_ListUsers :: "kc_provider \<Rightarrow> users_query \<Rightarrow> idp_user list call" where
  "kp_ListUsers p q =
     after (kc_get p ''/users'' (query_text
         ((if uq_First q > 0 then [(''first'', FormatInt (uq_First q))] else []) @
          (if uq_Max q > 0 then [(''max'', FormatInt (uq_Max q))] else []) @
          (if uq_Search q \<noteq> [] then [(''search'', uq_Search q)] else []))) kd_users [])
     (\<lambda>raw. kc_return (map ku_toIdentity raw))"

definition kp_GetUser :: "kc_provider \<Rightarrow> string \<Rightarrow> idp_user call" where
  "kp_GetUser p i = after (kc_get p (user_path i) [] kd_user zero_user) (\<lambda>raw. kc_return (ku_toIdentity raw))"

definition or_else :: "'a option \<Rightarrow> 'a \<Rightarrow> 'a" where
  "or_else x d = (case x of None \<Rightarrow> d | Some v \<Rightarrow> v)"

text \<open>The body \<^verbatim>\<open>UpdateUser\<close> puts: what the caller gave over what was read.\<close>

definition merged_user :: "kc_user \<Rightarrow> update_user_request \<Rightarrow> json" where
  "merged_user current req = JObject
     ([(''username'', JString (ku_Username current)),
       (''email'', JString (or_else (uur_Email req) (ku_Email current))),
       (''firstName'', JString (or_else (uur_FirstName req) (ku_FirstName current))),
       (''lastName'', JString (or_else (uur_LastName req) (ku_LastName current))),
       (''enabled'', JBool (or_else (uur_Enabled req) (ku_Enabled current))),
       (''emailVerified'', JBool (or_else (uur_EmailVerified req) (ku_EmailVerified current)))] @
      omit_attributes (ku_Attributes current))"

definition kp_UpdateUser :: "kc_provider \<Rightarrow> string \<Rightarrow> update_user_request \<Rightarrow> idp_user call" where
  "kp_UpdateUser p i req =
     after (kc_get p (user_path i) [] kd_user zero_user) (\<lambda>current.
     after (kc_send p ''PUT'' (user_path i) (Some (merged_user current req))) (\<lambda>_.
     kp_GetUser p i))"

definition kp_SendResetPasswordEmail :: "kc_provider \<Rightarrow> string \<Rightarrow> unit call" where
  "kp_SendResetPasswordEmail p i =
     kc_send p ''PUT'' (user_path i @ ''/execute-actions-email'') (Some (JStrings [''UPDATE_PASSWORD'']))"

definition kp_SetUserPassword :: "kc_provider \<Rightarrow> string \<Rightarrow> string \<Rightarrow> bool \<Rightarrow> unit call" where
  "kp_SetUserPassword p i password temporary =
     kc_send p ''PUT'' (user_path i @ ''/reset-password'')
       (Some (JObject [(''type'', JString ''password''), (''value'', JString password), (''temporary'', JBool temporary)]))"

definition kp_DeleteUser :: "kc_provider \<Rightarrow> string \<Rightarrow> unit call" where
  "kp_DeleteUser p i = kc_send p ''DELETE'' (user_path i) None"

section \<open>Pages\<close>

text \<open>The loop over pages of \<open>page\<close>, \<open>first\<close> from the start up to \<open>cap\<close>: it ends at an
  empty or a short page. \<open>emit\<close> is what the body appends for one entry, at the time
  the page was read.\<close>

function page_loop :: "(nat \<Rightarrow> 'b list call) \<Rightarrow> (int \<Rightarrow> 'b \<Rightarrow> 'c list) \<Rightarrow> nat \<Rightarrow> nat \<Rightarrow> nat \<Rightarrow> 'c list call" where
  "page_loop fetch emit page cap first w =
     (if first < cap \<and> 0 < page then
        (case fetch first w of
           (Inl e, w1) \<Rightarrow> (Inl e, w1)
         | (Inr raw, w1) \<Rightarrow>
             if raw = [] then (Inr [], w1)
             else
               let out = concat (map (emit (cw_now w1)) raw) in
               if length raw < page then (Inr out, w1)
               else (case page_loop fetch emit page cap (first + page) w1 of
                   (Inl e, w2) \<Rightarrow> (Inl e, w2)
                 | (Inr rest, w2) \<Rightarrow> (Inr (out @ rest), w2)))
      else (Inr [], w))"
  by pat_completeness auto

termination page_loop
  by (relation "measure (\<lambda>(fetch, emit, page, cap, first, w). cap - first)") auto

declare page_loop.simps [simp del]

definition page_params :: "nat \<Rightarrow> nat \<Rightarrow> string" where
  "page_params first page = query_text [(''first'', Itoa first), (''max'', Itoa page)]"

section \<open>Roles\<close>

definition usersByRolePageSize :: nat where "usersByRolePageSize = 200"
definition usersByRoleHardCap :: nat where "usersByRoleHardCap = 10000"

definition kp_ListRoles :: "kc_provider \<Rightarrow> idp_role list call" where
  "kp_ListRoles p =
     after (kc_get p ''/roles'' [] kd_roles [])
     (\<lambda>raw. kc_return (map kr_toIdentity (filter (\<lambda>r. \<not> kr_ClientRole r) raw)))"

definition kp_GetRole :: "kc_provider \<Rightarrow> string \<Rightarrow> idp_role call" where
  "kp_GetRole p n = after (kc_get p (role_path n) [] kd_role zero_role) (\<lambda>raw. kc_return (kr_toIdentity raw))"

definition kp_ListUsersByRole :: "kc_provider \<Rightarrow> string \<Rightarrow> idp_user list call" where
  "kp_ListUsersByRole p role =
     page_loop (\<lambda>first. kc_get p (role_path role @ ''/users'') (page_params first usersByRolePageSize) kd_users [])
       (\<lambda>_ u. [ku_toIdentity u]) usersByRolePageSize usersByRoleHardCap 0"

definition kp_ListUserRoles :: "kc_provider \<Rightarrow> string \<Rightarrow> idp_role list call" where
  "kp_ListUserRoles p i =
     after (kc_get p (user_path i @ ''/role-mappings/realm'') [] kd_roles [])
     (\<lambda>raw. kc_return (map kr_toIdentity raw))"

definition kp_CreateRole :: "kc_provider \<Rightarrow> create_role_request \<Rightarrow> idp_role call" where
  "kp_CreateRole p req =
     after (kc_create p ''/roles'' (JObject ((''name'', JString (crr_Name req)) #
       omit_string ''description'' (crr_Description req)))) (\<lambda>_.
     kp_GetRole p (crr_Name req))"

definition kp_UpdateRole :: "kc_provider \<Rightarrow> string \<Rightarrow> update_role_request \<Rightarrow> idp_role call" where
  "kp_UpdateRole p n req =
     after (kc_get p (role_path n) [] kd_role zero_role) (\<lambda>current.
     after (kc_send p ''PUT'' (role_path n) (Some (JObject [(''name'', JString (kr_Name current)),
       (''description'', JString (or_else (urr_Description req) (kr_Description current)))]))) (\<lambda>_.
     kp_GetRole p n))"

fun resolveRoles :: "kc_provider \<Rightarrow> string list \<Rightarrow> kc_role_brief list call" where
  "resolveRoles p [] = kc_return []"
| "resolveRoles p (n # ns) =
     after (kp_GetRole p n) (\<lambda>r.
     after (resolveRoles p ns) (\<lambda>rest. kc_return (\<lparr> rb_ID = ir_ID r, rb_Name = ir_Name r \<rparr> # rest)))"

definition role_briefs :: "kc_role_brief list \<Rightarrow> json" where
  "role_briefs rs = JList (map (\<lambda>r. JObject [(''id'', JString (rb_ID r)), (''name'', JString (rb_Name r))]) rs)"

definition kp_AssignRolesToUser :: "kc_provider \<Rightarrow> string \<Rightarrow> string list \<Rightarrow> unit call" where
  "kp_AssignRolesToUser p i roles =
     (if roles = [] then kc_return ()
      else after (resolveRoles p roles) (\<lambda>resolved.
        kc_send p ''POST'' (user_path i @ ''/role-mappings/realm'') (Some (role_briefs resolved))))"

definition kp_UnassignRolesFromUser :: "kc_provider \<Rightarrow> string \<Rightarrow> string list \<Rightarrow> unit call" where
  "kp_UnassignRolesFromUser p i roles =
     (if roles = [] then kc_return ()
      else after (resolveRoles p roles) (\<lambda>resolved.
        kc_send p ''DELETE'' (user_path i @ ''/role-mappings/realm'') (Some (role_briefs resolved))))"

definition kp_DeleteRole :: "kc_provider \<Rightarrow> string \<Rightarrow> unit call" where
  "kp_DeleteRole p n = kc_send p ''DELETE'' (role_path n) None"

section \<open>Sessions\<close>

definition kp_ListUserSessions :: "kc_provider \<Rightarrow> string \<Rightarrow> idp_session list call" where
  "kp_ListUserSessions p i =
     after (kc_get p (user_path i @ ''/sessions'') [] kd_sessions [])
     (\<lambda>raw. kc_return (map ks_toIdentity raw))"

text \<open>One session of client \<open>c\<close> entered into the map by session id.\<close>

definition see_session ::
  "kc_client_brief \<Rightarrow> kc_user_session \<Rightarrow> (string \<times> idp_session) list \<Rightarrow> (string \<times> idp_session) list" where
  "see_session c s seen =
     (let s1 = (case map_of seen (ks_ID s) of None \<Rightarrow> ks_toIdentity s | Some existing \<Rightarrow> existing)
      in AList.update (ks_ID s) (s1\<lparr> sn_Clients := AList.update (kb_ID c) (kb_ClientID c) (sn_Clients s1) \<rparr>) seen)"

fun session_loop ::
  "kc_provider \<Rightarrow> kc_client_brief list \<Rightarrow> (string \<times> idp_session) list \<Rightarrow> (string \<times> idp_session) list call" where
  "session_loop p [] seen w = (Inr seen, w)"
| "session_loop p (c # cs) seen w =
     (if \<not> kb_Enabled c then session_loop p cs seen w
      else case kc_get p (''/clients/'' @ PathEscape (kb_ID c) @ ''/user-sessions'') [] kd_sessions [] w of
          (Inl _, w1) \<Rightarrow> session_loop p cs seen w1
        | (Inr sessions, w1) \<Rightarrow> session_loop p cs (fold (see_session c) sessions seen) w1)"

definition kp_ListSessions :: "kc_provider \<Rightarrow> idp_session list call" where
  "kp_ListSessions p =
     after (kc_get p ''/clients'' [] kd_clients []) (\<lambda>clients.
     after (session_loop p clients []) (\<lambda>seen.
     kc_return (kp_iteration p (map snd seen))))"

definition kp_DeleteSession :: "kc_provider \<Rightarrow> string \<Rightarrow> unit call" where
  "kp_DeleteSession p i = kc_send p ''DELETE'' (''/sessions/'' @ PathEscape i) None"

definition kp_LogoutUserSessions :: "kc_provider \<Rightarrow> string \<Rightarrow> unit call" where
  "kp_LogoutUserSessions p i = kc_send p ''POST'' (user_path i @ ''/logout'') None"

section \<open>Realm settings\<close>

definition smtp_json :: "smtp_config \<Rightarrow> json" where
  "smtp_json c = JObject [(''host'', JString (sm_Host c)), (''port'', JString (sm_Port c)), (''from'', JString (sm_From c)),
     (''fromDisplayName'', JString (sm_FromDisplayName c)), (''ssl'', JString (sm_SSL c)),
     (''starttls'', JString (sm_StartTLS c)), (''auth'', JString (sm_Auth c)), (''user'', JString (sm_User c)),
     (''password'', JString (sm_Password c)), (''replyTo'', JString (sm_ReplyTo c))]"

definition kp_GetSMTPConfig :: "kc_provider \<Rightarrow> smtp_config call" where
  "kp_GetSMTPConfig p = kc_get p [] [] kd_smtp zero_smtp"

definition kp_UpdateSMTPConfig :: "kc_provider \<Rightarrow> smtp_config \<Rightarrow> unit call" where
  "kp_UpdateSMTPConfig p c = kc_send p ''PUT'' [] (Some (JMap [(''smtpServer'', smtp_json c)]))"

definition kp_EnableInternationalizationIfNeeded :: "kc_provider \<Rightarrow> unit call" where
  "kp_EnableInternationalizationIfNeeded p =
     after (kc_get p [] [] kd_languages zero_languages) (\<lambda>realm.
     if rl_InternationalizationEnabled realm then kc_return ()
     else kc_send p ''PUT'' [] (Some (JMap [(''internationalizationEnabled'', JBool True),
       (''supportedLocales'', JStrings [''en'']), (''defaultLocale'', JString ''en'')])))"

definition kp_GetLocalization :: "kc_provider \<Rightarrow> string \<Rightarrow> (string \<times> string) list call" where
  "kp_GetLocalization p locale w =
     (case kc_get p (''/localization/'' @ PathEscape locale) [] kd_messages [] w of
        (Inl e, w1) \<Rightarrow> if e = IdNotFound then (Inr [], w1) else (Inl e, w1)
      | (Inr out, w1) \<Rightarrow> (Inr out, w1))"

definition kp_SetLocalizationKey :: "kc_provider \<Rightarrow> string \<Rightarrow> string \<Rightarrow> string \<Rightarrow> unit call" where
  "kp_SetLocalizationKey p locale key text =
     doText (kp_env p) (kp_client p) ''PUT'' (''/localization/'' @ PathEscape locale @ ''/'' @ PathEscape key) text"

definition kp_DeleteLocalizationKey :: "kc_provider \<Rightarrow> string \<Rightarrow> string \<Rightarrow> unit call" where
  "kp_DeleteLocalizationKey p locale key =
     kc_send p ''DELETE'' (''/localization/'' @ PathEscape locale @ ''/'' @ PathEscape key) None"

section \<open>Provisioning\<close>

text \<open>\<open>on_failure m c\<close> runs \<open>c\<close> for its effect when \<open>m\<close> failed; \<open>or_instead\<close> answers
  \<open>x\<close> then.\<close>

definition on_failure :: "'a call \<Rightarrow> unit call \<Rightarrow> 'a call" where
  "on_failure m c w = (case m w of (Inl e, w1) \<Rightarrow> (Inl e, snd (c w1)) | (Inr x, w1) \<Rightarrow> (Inr x, w1))"

definition or_instead :: "'a call \<Rightarrow> (client_world \<Rightarrow> 'a) \<Rightarrow> 'a call" where
  "or_instead m x w = (case m w of (Inl e, w1) \<Rightarrow> (Inr (x w1), w1) | (Inr y, w1) \<Rightarrow> (Inr y, w1))"

definition new_user_body :: "create_user_request \<Rightarrow> json" where
  "new_user_body req = JMap
     [(''username'', JString (cur_Email req)), (''email'', JString (cur_Email req)),
      (''firstName'', JString (cur_FirstName req)), (''lastName'', JString (cur_LastName req)),
      (''enabled'', JBool True), (''emailVerified'', JBool False),
      (''requiredActions'', JStrings [''UPDATE_PASSWORD''])]"

definition password_body :: "string \<Rightarrow> json" where
  "password_body password = JMap
     [(''type'', JString ''password''), (''value'', JString password), (''temporary'', JBool True)]"

definition provisioned_user :: "string \<Rightarrow> create_user_request \<Rightarrow> idp_user" where
  "provisioned_user i req = \<lparr> us_ID = i, us_Username = cur_Email req, us_Email = cur_Email req, us_FirstName = [],
     us_LastName = [], us_Enabled = True, us_EmailVerified = False, us_CreatedAt = zero_time, us_Attributes = [] \<rparr>"

definition kp_CreateUserWithPassword :: "kc_provider \<Rightarrow> create_user_request \<Rightarrow> idp_user call" where
  "kp_CreateUserWithPassword p req =
     after (kc_create p ''/users'' (new_user_body req)) (\<lambda>i.
     after (on_failure (kc_send p ''PUT'' (user_path i @ ''/reset-password'') (Some (password_body (cur_TemporaryPassword req))))
       (kc_send p ''DELETE'' (user_path i) None)) (\<lambda>_.
     after (if cur_Roles req = [] then kc_return ()
       else on_failure (kp_AssignRolesToUser p i (cur_Roles req)) (kc_send p ''DELETE'' (user_path i) None)) (\<lambda>_.
     or_instead (kp_GetUser p i) (\<lambda>_. provisioned_user i req))))"

definition kp_CreateUser :: "kc_provider \<Rightarrow> create_user_request \<Rightarrow> idp_user call" where
  "kp_CreateUser p req = kp_CreateUserWithPassword p req"

section \<open>Invitations\<close>

definition invitationsPageSize :: nat where "invitationsPageSize = 200"
definition invitationsHardCap :: nat where "invitationsHardCap = 10000"

definition firstAttr :: "(string \<times> string list) list \<Rightarrow> string \<Rightarrow> string" where
  "firstAttr attrs key = (case map_of attrs key of Some (v # _) \<Rightarrow> v | _ \<Rightarrow> [])"

definition deriveInvitationStatus :: "bool \<Rightarrow> bool \<Rightarrow> string \<Rightarrow> int \<Rightarrow> string" where
  "deriveInvitationStatus enabled hasRequired expiresAt now =
     (if \<not> enabled then ''revoked''
      else if \<not> hasRequired then ''accepted''
      else if expiresAt \<noteq> [] \<and> (case ParseRFC3339 expiresAt of None \<Rightarrow> False | Some t \<Rightarrow> now > t) then ''expired''
      else ''pending'')"

definition to_invitation :: "int \<Rightarrow> kc_user_with_actions \<Rightarrow> idp_invitation" where
  "to_invitation now u = \<lparr> iv_ID = ku_ID u, iv_Email = ku_Email u, iv_Username = ku_Username u,
     iv_RequiredActions = ku_RequiredActions u, iv_InvitedBy = firstAttr (ku_Attributes u) ''invited_by'',
     iv_ExpiresAt = firstAttr (ku_Attributes u) ''expires_at'', iv_CreatedAt = us_CreatedAt (ku_toIdentity u),
     iv_Status = deriveInvitationStatus (ku_Enabled u) (ku_RequiredActions u \<noteq> [])
       (firstAttr (ku_Attributes u) ''expires_at'') now \<rparr>"

definition is_invitation :: "kc_user_with_actions \<Rightarrow> bool" where
  "is_invitation u \<longleftrightarrow> ku_RequiredActions u \<noteq> [] \<or> firstAttr (ku_Attributes u) ''invited_by'' \<noteq> []"

definition kp_ListInvitations :: "kc_provider \<Rightarrow> idp_invitation list call" where
  "kp_ListInvitations p =
     page_loop (\<lambda>first. kc_get p ''/users'' (page_params first invitationsPageSize) kd_invitees [])
       (\<lambda>now u. if is_invitation u then [to_invitation now u] else [])
       invitationsPageSize invitationsHardCap 0"

definition requiredActionsForInvite :: "string list" where
  "requiredActionsForInvite = [''VERIFY_EMAIL'', ''UPDATE_PASSWORD'']"

definition invite_body :: "create_invitation_request \<Rightarrow> json" where
  "invite_body req = JObject
     ([(''username'', JString (cir_Email req)), (''email'', JString (cir_Email req))] @
      omit_string ''firstName'' (cir_FirstName req) @ omit_string ''lastName'' (cir_LastName req) @
      [(''enabled'', JBool True), (''emailVerified'', JBool False)] @
      omit_strings ''requiredActions'' requiredActionsForInvite @
      omit_attributes
        ((if cir_InvitedBy req \<noteq> [] then [(''invited_by'', [cir_InvitedBy req])] else []) @
         (if cir_ExpiresAt req \<noteq> [] then [(''expires_at'', [cir_ExpiresAt req])] else [])))"

definition synthesizeFreshInvitation :: "string \<Rightarrow> create_invitation_request \<Rightarrow> idp_invitation" where
  "synthesizeFreshInvitation i req = \<lparr> iv_ID = i, iv_Email = cir_Email req, iv_Username = cir_Email req,
     iv_RequiredActions = requiredActionsForInvite, iv_InvitedBy = cir_InvitedBy req,
     iv_ExpiresAt = cir_ExpiresAt req, iv_CreatedAt = zero_time, iv_Status = ''pending'' \<rparr>"

definition compensateInvitationCreate :: "kc_provider \<Rightarrow> string \<Rightarrow> unit call" where
  "compensateInvitationCreate p i = kc_send p ''DELETE'' (user_path i) None"

text \<open>The user read back, with the clock at that moment.\<close>

definition kc_read_invitation :: "kc_provider \<Rightarrow> string \<Rightarrow> idp_invitation call" where
  "kc_read_invitation p i =
     after (kc_get p (user_path i) [] kd_invitee zero_user_with_actions) (\<lambda>u w. (Inr (to_invitation (cw_now w) u), w))"

definition kp_CreateInvitation :: "kc_provider \<Rightarrow> create_invitation_request \<Rightarrow> idp_invitation call" where
  "kp_CreateInvitation p req =
     after (resolveRoles p (cir_Roles req)) (\<lambda>roleObjects.
     after (kc_create p ''/users'' (invite_body req)) (\<lambda>i.
     after (on_failure
         (after (if roleObjects = [] then kc_return ()
           else kc_send p ''POST'' (user_path i @ ''/role-mappings/realm'') (Some (role_briefs roleObjects))) (\<lambda>_.
          kc_send p ''PUT'' (user_path i @ ''/execute-actions-email'') (Some (JStrings requiredActionsForInvite))))
         (compensateInvitationCreate p i)) (\<lambda>_.
     or_instead (kc_read_invitation p i) (\<lambda>_. synthesizeFreshInvitation i req))))"

definition intersectInviteActions :: "string list \<Rightarrow> string list" where
  "intersectInviteActions userActions = filter (\<lambda>a. a \<in> set requiredActionsForInvite) userActions"

definition kp_ResendInvitation :: "kc_provider \<Rightarrow> string \<Rightarrow> idp_invitation call" where
  "kp_ResendInvitation p i =
     after (kc_get p (user_path i) [] kd_invitee zero_user_with_actions) (\<lambda>u.
     if \<not> ku_Enabled u then refuse IdConflict
     else
       let actions = intersectInviteActions (ku_RequiredActions u) in
       if actions = [] then refuse IdConflict
       else
         after (kc_send p ''PUT'' (user_path i @ ''/execute-actions-email'') (Some (JStrings actions))) (\<lambda>_.
         or_instead (kc_read_invitation p i) (\<lambda>w. to_invitation (cw_now w) u)))"

section \<open>The instance\<close>

definition keycloak_provider :: "kc_provider \<Rightarrow> client_world identity_provider" where
  "keycloak_provider p = \<lparr>
     ip_ListUsers = kp_ListUsers p, ip_GetUser = kp_GetUser p, ip_ListRoles = kp_ListRoles p,
     ip_GetRole = kp_GetRole p, ip_ListUsersByRole = kp_ListUsersByRole p, ip_ListUserRoles = kp_ListUserRoles p,
     ip_ListUserSessions = kp_ListUserSessions p, ip_ListSessions = kp_ListSessions p,
     ip_ListInvitations = kp_ListInvitations p, ip_CreateUser = kp_CreateUser p, ip_CreateRole = kp_CreateRole p,
     ip_CreateInvitation = kp_CreateInvitation p, ip_UpdateUser = kp_UpdateUser p, ip_UpdateRole = kp_UpdateRole p,
     ip_AssignRolesToUser = kp_AssignRolesToUser p, ip_UnassignRolesFromUser = kp_UnassignRolesFromUser p,
     ip_SendResetPasswordEmail = kp_SendResetPasswordEmail p, ip_SetUserPassword = kp_SetUserPassword p,
     ip_ResendInvitation = kp_ResendInvitation p, ip_DeleteUser = kp_DeleteUser p, ip_DeleteRole = kp_DeleteRole p,
     ip_DeleteSession = kp_DeleteSession p, ip_LogoutUserSessions = kp_LogoutUserSessions p \<rparr>"

end
