(* ===== verification/AdminHandlers.thy ===== *)
theory AdminHandlers
  imports IdentityRuntime AdminCache KeycloakProvider
begin

text \<open>
  \<^verbatim>\<open>internal/identity/handler.go\<close>: the identity handlers of the \<^verbatim>\<open>/admin\<close> group, over
  the same service as the workspace-scoped API but with one realm, an error mapping of
  their own, and the hook that drops entries of the live-admin cache. The routes of the
  group that go around the service are in AdminSettings.

  A handler takes the request and a state of three parts: the realm, the live-admin
  cache of \<^verbatim>\<open>internal/auth\<close> and the audit events handed to the recorder. A body has
  been decoded; \<open>Inl msg\<close> is what the decoder complained about.
\<close>

datatype admin_reply = ArError nat string "string option" | ArJSON nat payload | ArStatus nat

definition handleError :: "provider_error \<Rightarrow> admin_reply" where
  "handleError err =
     (if errors_Is err SNotFound then ArError 404 ''not found'' None
      else if errors_Is err SBadRequest then ArError 400 ''bad request'' None
      else if errors_Is err SForbidden then ArError 403 ''forbidden'' None
      else if errors_Is err SConflict then ArError 409 ''conflict'' None
      else if errors_Is err SNotConfigured then ArError 503 ''identity management not configured'' None
      else if errors_Is err SUnavailable then ArError 502 ''upstream identity provider unavailable'' None
      else ArError 500 ''internal error'' None)"

datatype admin_invalidator = NoopAdminInvalidator | CachedInvalidator

definition invalidate_one :: "admin_invalidator \<Rightarrow> string \<Rightarrow> admin_cache \<Rightarrow> admin_cache" where
  "invalidate_one v subject k = (case v of NoopAdminInvalidator \<Rightarrow> k | CachedInvalidator \<Rightarrow> Invalidate subject k)"

definition invalidate_all_of :: "admin_invalidator \<Rightarrow> admin_cache \<Rightarrow> admin_cache" where
  "invalidate_all_of v k = (case v of NoopAdminInvalidator \<Rightarrow> k | CachedInvalidator \<Rightarrow> InvalidateAll k)"

record 's admin_handler =
  an_provider :: "'s identity_provider"
  an_invalidator :: admin_invalidator
  an_service :: service_env
  an_text :: "provider_error \<Rightarrow> string"
  an_ip :: string
  an_query :: "string \<Rightarrow> string"

text \<open>\<^verbatim>\<open>NewHandler\<close> and \<^verbatim>\<open>SetAdminInvalidator\<close>: no invalidator is the one that
  does nothing.\<close>

definition NewAdminHandler ::
  "'s identity_provider \<Rightarrow> service_env \<Rightarrow> (provider_error \<Rightarrow> string) \<Rightarrow> string \<Rightarrow> (string \<Rightarrow> string) \<Rightarrow> 's admin_handler" where
  "NewAdminHandler P en text ip qs = \<lparr> an_provider = P, an_invalidator = NoopAdminInvalidator, an_service = en,
     an_text = text, an_ip = ip, an_query = qs \<rparr>"

definition SetAdminInvalidator :: "admin_invalidator option \<Rightarrow> 's admin_handler \<Rightarrow> 's admin_handler" where
  "SetAdminInvalidator v h =
     h\<lparr> an_invalidator := (case v of None \<Rightarrow> NoopAdminInvalidator | Some v \<Rightarrow> v) \<rparr>"

record 's admin_state =
  ad_realm :: 's
  ad_cache :: admin_cache
  ad_events :: "audit_event list"

type_synonym 's legacy_step = "'s admin_state \<Rightarrow> admin_reply \<times> 's admin_state"
type_synonym 'q admin_body = "string + 'q"

text \<open>\<^verbatim>\<open>logging.RecordMutation\<close>: the event of a surface without workspaces.\<close>

definition RecordMutation :: "string \<Rightarrow> http_ctx \<Rightarrow> string \<Rightarrow> audit_target \<Rightarrow> string option \<Rightarrow> audit_event" where
  "RecordMutation ip c action target err = RecordWorkspaceMutation ip c [] action target err"

definition bind_json :: "'q admin_body \<Rightarrow> ('q \<Rightarrow> 's legacy_step) \<Rightarrow> 's legacy_step" where
  "bind_json b f s = (case b of Inl msg \<Rightarrow> (ArError 400 ''invalid request body'' (Some msg), s) | Inr q \<Rightarrow> f q s)"

text \<open>A call of the service, its error mapped.\<close>

definition admin_call :: "'s admin_handler \<Rightarrow> ('s identity_provider \<Rightarrow> ('s, 'a) idp_call) \<Rightarrow> ('a \<Rightarrow> admin_reply) \<Rightarrow> 's legacy_step" where
  "admin_call h svc ok s =
     (case svc (an_provider h) (ad_realm s) of
        (Inl e, realm) \<Rightarrow> (handleError e, s\<lparr> ad_realm := realm \<rparr>)
      | (Inr x, realm) \<Rightarrow> (ok x, s\<lparr> ad_realm := realm \<rparr>))"

text \<open>A mutation: the call, its events whatever came of it, then the reply, and the
  cache only after a success.\<close>

definition admin_mutate ::
  "'s admin_handler \<Rightarrow> ('a option \<Rightarrow> string option \<Rightarrow> audit_event list) \<Rightarrow> (admin_cache \<Rightarrow> admin_cache) \<Rightarrow>
     ('s identity_provider \<Rightarrow> ('s, 'a) idp_call) \<Rightarrow> ('a \<Rightarrow> admin_reply) \<Rightarrow> 's legacy_step" where
  "admin_mutate h evs drops svc ok s =
     (case svc (an_provider h) (ad_realm s) of
        (Inl e, realm) \<Rightarrow>
          (handleError e, s\<lparr> ad_realm := realm, ad_events := ad_events s @ evs None (Some (an_text h e)) \<rparr>)
      | (Inr x, realm) \<Rightarrow>
          (ok x, s\<lparr> ad_realm := realm, ad_events := ad_events s @ evs (Some x) None, ad_cache := drops (ad_cache s) \<rparr>))"

section \<open>Reads\<close>

definition ah_ListUsers :: "'s admin_handler \<Rightarrow> 's legacy_step" where
  "ah_ListUsers h =
     (let q = \<lparr> uq_Search = an_query h ''search'', uq_First = query_int (an_query h ''first''),
                uq_Max = query_int (an_query h ''max'') \<rparr> in
      admin_call h (\<lambda>P. sv_ListUsers P q)
        (\<lambda>us. ArJSON 200 (PlUsers (map NewUserResponse us) (uq_First q) (uq_Max q) (length us))))"

definition ah_GetUser :: "'s admin_handler \<Rightarrow> http_ctx \<Rightarrow> 's legacy_step" where
  "ah_GetUser h c = admin_call h (\<lambda>P. sv_GetUser P (Param c ''id'')) (\<lambda>u. ArJSON 200 (PlUser (NewUserResponse u)))"

definition roles_json :: "idp_role list \<Rightarrow> admin_reply" where
  "roles_json rs = ArJSON 200 (PlRoles (map NewRoleResponse rs) (length rs))"

definition sessions_json :: "idp_session list \<Rightarrow> admin_reply" where
  "sessions_json ss = ArJSON 200 (PlSessions (map NewSessionResponse ss) (length ss))"

definition ah_ListRoles :: "'s admin_handler \<Rightarrow> 's legacy_step" where
  "ah_ListRoles h = admin_call h sv_ListRoles roles_json"

definition ah_GetRole :: "'s admin_handler \<Rightarrow> http_ctx \<Rightarrow> 's legacy_step" where
  "ah_GetRole h c = admin_call h (\<lambda>P. sv_GetRole P (Param c ''name'')) (\<lambda>r. ArJSON 200 (PlRole (NewRoleResponse r)))"

definition ah_ListRoleUsers :: "'s admin_handler \<Rightarrow> http_ctx \<Rightarrow> 's legacy_step" where
  "ah_ListRoleUsers h c = admin_call h (\<lambda>P. sv_ListUsersByRole P (Param c ''name''))
     (\<lambda>us. ArJSON 200 (PlUsers (map NewUserResponse us) 0 0 (length us)))"

definition ah_ListUserRoles :: "'s admin_handler \<Rightarrow> http_ctx \<Rightarrow> 's legacy_step" where
  "ah_ListUserRoles h c = admin_call h (\<lambda>P. sv_ListUserRoles P (Param c ''id'')) roles_json"

definition ah_ListSessions :: "'s admin_handler \<Rightarrow> 's legacy_step" where
  "ah_ListSessions h = admin_call h sv_ListSessions sessions_json"

definition ah_ListUserSessions :: "'s admin_handler \<Rightarrow> http_ctx \<Rightarrow> 's legacy_step" where
  "ah_ListUserSessions h c = admin_call h (\<lambda>P. sv_ListUserSessions P (Param c ''id'')) sessions_json"

definition ah_ListInvitations :: "'s admin_handler \<Rightarrow> 's legacy_step" where
  "ah_ListInvitations h = admin_call h sv_ListInvitations
     (\<lambda>is. ArJSON 200 (PlInvitations (map NewInvitationResponse is) (length is)))"

section \<open>Mutations\<close>

definition ah_CreateRole :: "'s admin_handler \<Rightarrow> http_ctx \<Rightarrow> create_role_request admin_body \<Rightarrow> 's legacy_step" where
  "ah_CreateRole h c body = bind_json body (\<lambda>req.
     admin_mutate h
       (\<lambda>r err. let name = (case r of None \<Rightarrow> crr_Name req | Some r \<Rightarrow> ir_Name r) in
          [RecordMutation (an_ip h) c ''role.created'' (target_of ''role'' name name) err]) id
       (\<lambda>P. sv_CreateRole (an_service h) P req) (\<lambda>r. ArJSON 201 (PlRole (NewRoleResponse r))))"

definition ah_CreateInvitation :: "'s admin_handler \<Rightarrow> http_ctx \<Rightarrow> create_invitation_request admin_body \<Rightarrow> 's legacy_step" where
  "ah_CreateInvitation h c body = bind_json body (\<lambda>req.
     let defaultInvitedBy = (case IdentityFrom c of None \<Rightarrow> []
       | Some i \<Rightarrow> if id_Email i \<noteq> [] then id_Email i else id_Subject i) in
     admin_mutate h
       (\<lambda>i err. let iid = (case i of None \<Rightarrow> [] | Some i \<Rightarrow> iv_ID i) in
          [RecordMutation (an_ip h) c ''invitation.created'' (target_of ''invitation'' iid (cir_Email req)) err,
           RecordMutation (an_ip h) c ''user.created'' (target_of ''user'' iid (cir_Email req)) err]) id
       (\<lambda>P. sv_CreateInvitation (an_service h) P req defaultInvitedBy)
       (\<lambda>i. ArJSON 201 (PlInvitation (NewInvitationResponse i))))"

definition ah_UpdateUser :: "'s admin_handler \<Rightarrow> http_ctx \<Rightarrow> update_user_request admin_body \<Rightarrow> 's legacy_step" where
  "ah_UpdateUser h c body = bind_json body (\<lambda>req.
     let target = Param c ''id'' in
     admin_mutate h
       (\<lambda>u err. [RecordMutation (an_ip h) c ''user.updated''
          (target_of ''user'' target (case u of None \<Rightarrow> [] | Some u \<Rightarrow> us_Email u)) err])
       (invalidate_one (an_invalidator h) target)
       (\<lambda>P. sv_UpdateUser (an_service h) P (callerSubject c) target req)
       (\<lambda>u. ArJSON 200 (PlUser (NewUserResponse u))))"

definition ah_UpdateRole :: "'s admin_handler \<Rightarrow> http_ctx \<Rightarrow> update_role_request admin_body \<Rightarrow> 's legacy_step" where
  "ah_UpdateRole h c body = bind_json body (\<lambda>req.
     let name = Param c ''name'' in
     admin_mutate h (\<lambda>_ err. [RecordMutation (an_ip h) c ''role.updated'' (target_of ''role'' name name) err]) id
       (\<lambda>P. sv_UpdateRole (an_service h) P name req) (\<lambda>r. ArJSON 200 (PlRole (NewRoleResponse r))))"

definition granted_event :: "string \<Rightarrow> http_ctx \<Rightarrow> string \<Rightarrow> string list \<Rightarrow> string option \<Rightarrow> audit_event" where
  "granted_event ip c target roles err =
     (let e = EventFromGin ip c
        \<lparr> ea_Action = ''user.roles_granted'', ea_Actor = no_actor, ea_Target = target_of ''user'' target [],
          ea_Workspace = [], ea_IP = [], ea_RequestID = [], ea_UserAgent = [], ea_Timestamp = None, ea_Reason = [],
          ea_Extra = [(''roles'', MStrings roles)], ea_Persisted = False \<rparr>
      in case err of None \<Rightarrow> e | Some msg \<Rightarrow> e\<lparr> ea_Reason := msg \<rparr>)"

definition ah_AssignRolesToUser :: "'s admin_handler \<Rightarrow> http_ctx \<Rightarrow> string list admin_body \<Rightarrow> 's legacy_step" where
  "ah_AssignRolesToUser h c body = bind_json body (\<lambda>roles.
     let target = Param c ''id'' in
     admin_mutate h (\<lambda>_ err. [granted_event (an_ip h) c target roles err]) (invalidate_one (an_invalidator h) target)
       (\<lambda>P. sv_AssignRolesToUser (an_service h) P target roles) (\<lambda>_. ArStatus 204))"

definition ah_UnassignRoleFromUser :: "'s admin_handler \<Rightarrow> http_ctx \<Rightarrow> 's legacy_step" where
  "ah_UnassignRoleFromUser h c =
     (let target = Param c ''id''; name = Param c ''name'' in
      admin_mutate h (\<lambda>_ err. [RecordMutation (an_ip h) c ''user.role_revoked'' (target_of ''user'' target name) err])
        (invalidate_one (an_invalidator h) target)
        (\<lambda>P. sv_UnassignRolesFromUser (an_service h) P (callerSubject c) target [name]) (\<lambda>_. ArStatus 204))"

definition ah_ResetUserPassword :: "'s admin_handler \<Rightarrow> http_ctx \<Rightarrow> 's legacy_step" where
  "ah_ResetUserPassword h c =
     (let target = Param c ''id'' in
      admin_mutate h (\<lambda>_ err. [RecordMutation (an_ip h) c ''user.password_reset'' (target_of ''user'' target []) err]) id
        (\<lambda>P. sv_SendResetPasswordEmail P target) (\<lambda>_. ArStatus 204))"

text \<open>This one leaves the decoder's complaint out of its answer.\<close>

definition ah_SetUserPassword :: "'s admin_handler \<Rightarrow> http_ctx \<Rightarrow> (string \<times> bool) admin_body \<Rightarrow> 's legacy_step" where
  "ah_SetUserPassword h c body s =
     (let target = Param c ''id'' in
      case body of
        Inl _ \<Rightarrow> (ArError 400 ''invalid request body'' None, s)
      | Inr (password, temporary) \<Rightarrow>
          admin_mutate h (\<lambda>_ err. [RecordMutation (an_ip h) c ''user.password_reset'' (target_of ''user'' target []) err]) id
            (\<lambda>P. sv_SetUserPassword P target password temporary) (\<lambda>_. ArStatus 204) s)"

definition ah_ResendInvitation :: "'s admin_handler \<Rightarrow> http_ctx \<Rightarrow> 's legacy_step" where
  "ah_ResendInvitation h c =
     (let target = Param c ''id'' in
      admin_mutate h
        (\<lambda>i err. [RecordMutation (an_ip h) c ''invitation.resent''
           (target_of ''invitation'' target (case i of None \<Rightarrow> [] | Some i \<Rightarrow> iv_Email i)) err]) id
        (\<lambda>P. sv_ResendInvitation P target) (\<lambda>i. ArJSON 200 (PlInvitation (NewInvitationResponse i))))"

definition ah_DeleteUser :: "'s admin_handler \<Rightarrow> http_ctx \<Rightarrow> 's legacy_step" where
  "ah_DeleteUser h c =
     (let target = Param c ''id'' in
      admin_mutate h (\<lambda>_ err. [RecordMutation (an_ip h) c ''user.deleted'' (target_of ''user'' target []) err])
        (invalidate_one (an_invalidator h) target)
        (\<lambda>P. sv_DeleteUser P (callerSubject c) target) (\<lambda>_. ArStatus 204))"

definition ah_DeleteRole :: "'s admin_handler \<Rightarrow> http_ctx \<Rightarrow> 's legacy_step" where
  "ah_DeleteRole h c =
     (let name = Param c ''name'' in
      admin_mutate h (\<lambda>_ err. [RecordMutation (an_ip h) c ''role.deleted'' (target_of ''role'' name name) err])
        (invalidate_all_of (an_invalidator h))
        (\<lambda>P. sv_DeleteRole (an_service h) P name) (\<lambda>_. ArStatus 204))"

definition ah_DeleteSession :: "'s admin_handler \<Rightarrow> http_ctx \<Rightarrow> 's legacy_step" where
  "ah_DeleteSession h c =
     (let i = Param c ''id'' in
      admin_mutate h (\<lambda>_ err. [RecordMutation (an_ip h) c ''session.revoked'' (target_of ''session'' i []) err]) id
        (\<lambda>P. sv_DeleteSession P i) (\<lambda>_. ArStatus 204))"

definition ah_LogoutUserSessions :: "'s admin_handler \<Rightarrow> http_ctx \<Rightarrow> 's legacy_step" where
  "ah_LogoutUserSessions h c =
     (let target = Param c ''id'' in
      admin_mutate h (\<lambda>_ err. [RecordMutation (an_ip h) c ''user.sessions_logged_out'' (target_of ''user'' target []) err]) id
        (\<lambda>P. sv_LogoutUserSessions P target) (\<lambda>_. ArStatus 204))"

definition ah_DeleteInvitation :: "'s admin_handler \<Rightarrow> http_ctx \<Rightarrow> 's legacy_step" where
  "ah_DeleteInvitation h c =
     (let target = Param c ''id'' in
      admin_mutate h (\<lambda>_ err. [RecordMutation (an_ip h) c ''invitation.revoked'' (target_of ''invitation'' target []) err])
        (invalidate_one (an_invalidator h) target)
        (\<lambda>P. sv_DeleteInvitation P (callerSubject c) target) (\<lambda>_. ArStatus 204))"

text \<open>The routes of the group; \<^verbatim>\<open>POST /admin/users/invite\<close> is the second of the
  invitation's.\<close>

datatype legacy_request =
    AdGetUsers
  | AdGetUser
  | AdGetUserRoles
  | AdGetUserSessions
  | AdGetRoles
  | AdGetRole
  | AdGetRoleUsers
  | AdGetSessions
  | AdGetInvitations
  | AdPostRole "create_role_request admin_body"
  | AdPostInvitation "create_invitation_request admin_body"
  | AdPostInvite "create_invitation_request admin_body"
  | AdPatchUser "update_user_request admin_body"
  | AdPatchRole "update_role_request admin_body"
  | AdPostUserRoles "string list admin_body"
  | AdPostResetPassword
  | AdPutPassword "(string \<times> bool) admin_body"
  | AdPostResend
  | AdDeleteUser
  | AdDeleteUserRole
  | AdDeleteUserSessions
  | AdDeleteRole
  | AdDeleteSession
  | AdDeleteInvitation

fun admin_handle :: "'s admin_handler \<Rightarrow> http_ctx \<Rightarrow> legacy_request \<Rightarrow> 's legacy_step" where
  "admin_handle h c AdGetUsers = ah_ListUsers h"
| "admin_handle h c AdGetUser = ah_GetUser h c"
| "admin_handle h c AdGetUserRoles = ah_ListUserRoles h c"
| "admin_handle h c AdGetUserSessions = ah_ListUserSessions h c"
| "admin_handle h c AdGetRoles = ah_ListRoles h"
| "admin_handle h c AdGetRole = ah_GetRole h c"
| "admin_handle h c AdGetRoleUsers = ah_ListRoleUsers h c"
| "admin_handle h c AdGetSessions = ah_ListSessions h"
| "admin_handle h c AdGetInvitations = ah_ListInvitations h"
| "admin_handle h c (AdPostRole b) = ah_CreateRole h c b"
| "admin_handle h c (AdPostInvitation b) = ah_CreateInvitation h c b"
| "admin_handle h c (AdPostInvite b) = ah_CreateInvitation h c b"
| "admin_handle h c (AdPatchUser b) = ah_UpdateUser h c b"
| "admin_handle h c (AdPatchRole b) = ah_UpdateRole h c b"
| "admin_handle h c (AdPostUserRoles b) = ah_AssignRolesToUser h c b"
| "admin_handle h c AdPostResetPassword = ah_ResetUserPassword h c"
| "admin_handle h c (AdPutPassword b) = ah_SetUserPassword h c b"
| "admin_handle h c AdPostResend = ah_ResendInvitation h c"
| "admin_handle h c AdDeleteUser = ah_DeleteUser h c"
| "admin_handle h c AdDeleteUserRole = ah_UnassignRoleFromUser h c"
| "admin_handle h c AdDeleteUserSessions = ah_LogoutUserSessions h c"
| "admin_handle h c AdDeleteRole = ah_DeleteRole h c"
| "admin_handle h c AdDeleteSession = ah_DeleteSession h c"
| "admin_handle h c AdDeleteInvitation = ah_DeleteInvitation h c"

section \<open>What a request leaves behind\<close>

fun failed :: "admin_reply \<Rightarrow> bool" where
  "failed (ArError st msg d) = True"
| "failed (ArJSON st p) = False"
| "failed (ArStatus st) = False"

lemma failed_handleError [simp]: "failed (handleError e)"
  by (simp add: handleError_def)

text \<open>An event that names the caller, the address and no workspace, with a reason
  exactly when the mutation failed.\<close>

definition attributed :: "'s admin_handler \<Rightarrow> http_ctx \<Rightarrow> bool \<Rightarrow> audit_event \<Rightarrow> bool" where
  "attributed h c bad e \<longleftrightarrow> ea_Actor e = ActorFromGin c \<and> ea_IP e = an_ip h \<and> ea_Workspace e = [] \<and>
     ea_RequestID e = FromContext c \<and> (ea_Reason e \<noteq> [] \<longleftrightarrow> bad)"

definition reasoned :: "'s admin_handler \<Rightarrow> bool" where
  "reasoned h \<longleftrightarrow> (\<forall>e. an_text h e \<noteq> [])"

text \<open>\<open>leaves h c n drops m\<close>: \<open>m\<close> leaves \<open>n\<close> such events, and applies \<open>drops\<close> to the cache
  exactly when it succeeds.\<close>

definition leaves :: "'s admin_handler \<Rightarrow> http_ctx \<Rightarrow> nat \<Rightarrow> (admin_cache \<Rightarrow> admin_cache) \<Rightarrow> 's legacy_step \<Rightarrow> bool" where
  "leaves h c n drops m \<longleftrightarrow> (\<forall>s rp s'. m s = (rp, s') \<longrightarrow>
     (\<exists>evs. ad_events s' = ad_events s @ evs \<and> length evs = n \<and> list_all (attributed h c (failed rp)) evs) \<and>
     ad_cache s' = (if failed rp then ad_cache s else drops (ad_cache s)))"

lemma leaves_call: "(\<And>x. \<not> failed (ok x)) \<Longrightarrow> leaves h c 0 id (admin_call h svc ok)"
  by (auto simp: leaves_def admin_call_def split: prod.splits sum.splits)

lemma leaves_mutate:
  assumes "\<And>x. \<not> failed (ok x)" and "\<And>x. length (evs x None) = n \<and> list_all (attributed h c False) (evs x None)"
    and "\<And>msg. msg \<noteq> [] \<Longrightarrow> length (evs None (Some msg)) = n \<and> list_all (attributed h c True) (evs None (Some msg))"
    and "reasoned h"
  shows "leaves h c n drops (admin_mutate h evs drops svc ok)"
  unfolding leaves_def
proof (intro allI impI)
  fix s rp s' assume run: "admin_mutate h evs drops svc ok s = (rp, s')"
  obtain r realm where c: "svc (an_provider h) (ad_realm s) = (r, realm)"
    by (cases "svc (an_provider h) (ad_realm s)")
  show "(\<exists>evs. ad_events s' = ad_events s @ evs \<and> length evs = n \<and> list_all (attributed h c (failed rp)) evs) \<and>
      ad_cache s' = (if failed rp then ad_cache s else drops (ad_cache s))"
  proof (cases r)
    case (Inl e)
    have "an_text h e \<noteq> []" using assms(4) by (simp add: reasoned_def)
    with run c Inl assms(3) show ?thesis by (auto simp: admin_mutate_def)
  next
    case (Inr x)
    with run c assms(1,2) show ?thesis by (auto simp: admin_mutate_def)
  qed
qed

lemma attributed_Record:
  "attributed h c False (RecordMutation (an_ip h) c action target None)"
  "msg \<noteq> [] \<Longrightarrow> attributed h c True (RecordMutation (an_ip h) c action target (Some msg))"
  by (simp_all add: attributed_def RecordMutation_def RecordWorkspaceMutation_def EventFromGin_def Let_def)

lemma attributed_granted:
  "attributed h c False (granted_event (an_ip h) c target roles None)"
  "msg \<noteq> [] \<Longrightarrow> attributed h c True (granted_event (an_ip h) c target roles (Some msg))"
  by (simp_all add: attributed_def granted_event_def EventFromGin_def Let_def)

text \<open>A body that cannot be decoded is refused before anything else.\<close>

fun undecoded :: "legacy_request \<Rightarrow> bool" where
  "undecoded (AdPostRole b) = (\<not> is_ok b)"
| "undecoded (AdPostInvitation b) = (\<not> is_ok b)"
| "undecoded (AdPostInvite b) = (\<not> is_ok b)"
| "undecoded (AdPatchUser b) = (\<not> is_ok b)"
| "undecoded (AdPatchRole b) = (\<not> is_ok b)"
| "undecoded (AdPostUserRoles b) = (\<not> is_ok b)"
| "undecoded (AdPutPassword b) = (\<not> is_ok b)"
| "undecoded _ = False"

text \<open>How many events a request owes, and whose entry of the cache it drops.\<close>

fun owes :: "legacy_request \<Rightarrow> nat" where
  "owes AdGetUsers = 0" | "owes AdGetUser = 0" | "owes AdGetUserRoles = 0" | "owes AdGetUserSessions = 0"
| "owes AdGetRoles = 0" | "owes AdGetRole = 0" | "owes AdGetRoleUsers = 0" | "owes AdGetSessions = 0"
| "owes AdGetInvitations = 0" | "owes (AdPostInvitation b) = 2" | "owes (AdPostInvite b) = 2" | "owes _ = 1"

fun changes_access :: "legacy_request \<Rightarrow> bool" where
  "changes_access (AdPatchUser b) = True" | "changes_access (AdPostUserRoles b) = True"
| "changes_access AdDeleteUser = True" | "changes_access AdDeleteUserRole = True"
| "changes_access AdDeleteInvitation = True" | "changes_access _ = False"

definition drops_of :: "'s admin_handler \<Rightarrow> http_ctx \<Rightarrow> legacy_request \<Rightarrow> admin_cache \<Rightarrow> admin_cache" where
  "drops_of h c rq =
     (if rq = AdDeleteRole then invalidate_all_of (an_invalidator h)
      else if changes_access rq then invalidate_one (an_invalidator h) (Param c ''id'') else id)"

lemma admin_undecoded:
  "undecoded rq \<Longrightarrow> \<exists>d. admin_handle h c rq s = (ArError 400 ''invalid request body'' d, s)"
  by (cases rq) (auto simp: bind_json_def ah_CreateRole_def ah_CreateInvitation_def ah_UpdateUser_def ah_UpdateRole_def
      ah_AssignRolesToUser_def ah_SetUserPassword_def Let_def is_ok_iff split: sum.splits)

lemma bind_json_Inr: "bind_json (Inr q) f = f q"
  by (rule ext) (simp add: bind_json_def)

lemma admin_leaves:
  assumes "\<not> undecoded rq" and "reasoned h" shows "leaves h c (owes rq) (drops_of h c rq) (admin_handle h c rq)"
proof -
  note reads = ah_ListUsers_def ah_GetUser_def ah_ListUserRoles_def ah_ListUserSessions_def ah_ListRoles_def ah_GetRole_def
    ah_ListRoleUsers_def ah_ListSessions_def ah_ListInvitations_def roles_json_def sessions_json_def
  note writes = ah_CreateRole_def ah_CreateInvitation_def ah_UpdateUser_def ah_UpdateRole_def ah_AssignRolesToUser_def
    ah_UnassignRoleFromUser_def ah_ResetUserPassword_def ah_ResendInvitation_def ah_DeleteUser_def ah_DeleteRole_def
    ah_DeleteSession_def ah_LogoutUserSessions_def ah_DeleteInvitation_def
  have set_password: "ah_SetUserPassword h c (Inr (password, temporary)) =
      admin_mutate h (\<lambda>_ err. [RecordMutation (an_ip h) c ''user.password_reset'' (target_of ''user'' (Param c ''id'') []) err]) id
        (\<lambda>P. sv_SetUserPassword P (Param c ''id'') password temporary) (\<lambda>_. ArStatus 204)" for password temporary
    by (rule ext) (simp add: ah_SetUserPassword_def Let_def)
  have gets: "leaves h c 0 id (ah_ListUsers h)" "leaves h c 0 id (ah_GetUser h c)" "leaves h c 0 id (ah_ListUserRoles h c)"
    "leaves h c 0 id (ah_ListUserSessions h c)" "leaves h c 0 id (ah_ListRoles h)" "leaves h c 0 id (ah_GetRole h c)"
    "leaves h c 0 id (ah_ListRoleUsers h c)" "leaves h c 0 id (ah_ListSessions h)" "leaves h c 0 id (ah_ListInvitations h)"
    unfolding reads Let_def by (rule leaves_call, simp)+
  show ?thesis using assms(1)
    by (cases rq)
      (auto simp: gets drops_of_def writes bind_json_Inr set_password Let_def attributed_Record attributed_granted
        is_ok_iff intro!: leaves_mutate assms(2))
qed

section \<open>Properties\<close>

text \<open>C14: whatever is asked of the identity handlers of \<^verbatim>\<open>/admin\<close>, the trail gains
  nothing for a read or an unreadable body, and for a mutation exactly one event (two
  for an invitation, which also creates a user), each naming caller, address and
  request, with a reason exactly when the answer is an error. The mail settings, the
  templates and \<^verbatim>\<open>users/password\<close> are no part of this: their handlers (AdminSettings)
  record no event.\<close>

theorem admin_trail:
  assumes "admin_handle h c rq s = (rp, s')" and "reasoned h"
  shows "\<exists>evs. ad_events s' = ad_events s @ evs \<and> length evs = (if undecoded rq then 0 else owes rq) \<and>
    list_all (attributed h c (failed rp)) evs"
proof (cases "undecoded rq")
  case True
  with admin_undecoded [of rq h c s] assms(1) show ?thesis by auto
next
  case False
  from admin_leaves [OF False assms(2)] assms(1) False show ?thesis by (auto simp: leaves_def)
qed

text \<open>C15: once a change of a user's roles or state, or the deletion of a role, was
  answered as a success, the next privileged request asks upstream about that user
  (about everybody after a role's deletion): no cached answer is served. A request
  that was answered with an error leaves the cache as it was.\<close>

theorem admin_change_asks_again:
  assumes "admin_handle h c rq s = (rp, s')" and "reasoned h" and "an_invalidator h = CachedInvalidator"
    and "subject \<noteq> []" and "changes_access rq \<and> subject = Param c ''id'' \<or> rq = AdDeleteRole"
  shows "(if failed rp then ad_cache s' = ad_cache s
    else fst (IsAdmin checker now1 now2 subject (ad_cache s', u)) = fst (checker subject u) \<and>
      snd (snd (IsAdmin checker now1 now2 subject (ad_cache s', u))) = snd (checker subject u))"
proof (cases "undecoded rq")
  case True
  with admin_undecoded [of rq h c s] assms(1) show ?thesis by auto
next
  case False
  from admin_leaves [OF False assms(2)] assms(1)
  have "ad_cache s' = (if failed rp then ad_cache s else drops_of h c rq (ad_cache s))" by (auto simp: leaves_def)
  moreover have "cache_hit (drops_of h c rq (ad_cache s)) now1 subject = None"
    using assms(3-5) by (auto simp: drops_of_def invalidate_one_def invalidate_all_of_def)
  ultimately show ?thesis using assms(4) by (auto simp: IsAdmin_def split: prod.splits sum.splits)
qed

text \<open>What the provider applied and could not read back is answered as a failure: the
  cache keeps its entry although the user was changed.\<close>

lemma update_applied_but_failed:
  assumes "kc_get p (user_path i) [] kd_user zero_user w = (Inr current, w1)"
    and "kc_send p ''PUT'' (user_path i) (Some (merged_user current req)) w1 = (Inr (), w2)"
    and "kc_get p (user_path i) [] kd_user zero_user w2 = (Inl e, w3)"
  shows "kp_UpdateUser p i req w = (Inl e, w3)"
  using assms by (simp add: kp_UpdateUser_def kp_GetUser_def after_def)

definition demo_admin_remote :: "unit identity_provider" where
  "demo_admin_remote = \<lparr>
     ip_ListUsers = (\<lambda>_. refuse IdNotFound), ip_GetUser = (\<lambda>_. refuse IdNotFound), ip_ListRoles = refuse IdNotFound,
     ip_GetRole = (\<lambda>_. refuse IdNotFound), ip_ListUsersByRole = (\<lambda>_. refuse IdNotFound), ip_ListUserRoles = (\<lambda>_. refuse IdNotFound),
     ip_ListUserSessions = (\<lambda>_. refuse IdNotFound), ip_ListSessions = refuse IdNotFound, ip_ListInvitations = refuse IdNotFound,
     ip_CreateUser = (\<lambda>_. refuse IdNotFound), ip_CreateRole = (\<lambda>_. refuse IdNotFound), ip_CreateInvitation = (\<lambda>_. refuse IdNotFound),
     ip_UpdateUser = (\<lambda>_ _. refuse IdNotFound), ip_UpdateRole = (\<lambda>_ _. refuse IdNotFound),
     ip_AssignRolesToUser = (\<lambda>_ _ s. (Inr (), s)), ip_UnassignRolesFromUser = (\<lambda>_ _ s. (Inr (), s)),
     ip_SendResetPasswordEmail = (\<lambda>_. refuse IdNotFound), ip_SetUserPassword = (\<lambda>_ _ _. refuse IdNotFound),
     ip_ResendInvitation = (\<lambda>_. refuse IdNotFound), ip_DeleteUser = (\<lambda>_ s. (Inr (), s)), ip_DeleteRole = (\<lambda>_ s. (Inr (), s)),
     ip_DeleteSession = (\<lambda>_. refuse IdNotFound), ip_LogoutUserSessions = (\<lambda>_. refuse IdNotFound) \<rparr>"

definition demo_target_user :: string where "demo_target_user = ''0a1b2c3d-0a1b-4c2d-8e3f-0a1b2c3d4e5f''"

definition demo_admin_ctx :: http_ctx where
  "demo_admin_ctx = \<lparr> rq_method = ''DELETE'', rq_path = [], rq_route = [], rq_params = [(''id'', demo_target_user)],
     rq_headers = [], cx_request_id = None, cx_identity = None, cx_principal = None, rs_headers = [], rs_abort = None,
     cx_events = [] \<rparr>"

definition demo_admin_handler :: "unit admin_handler" where
  "demo_admin_handler = SetAdminInvalidator (Some CachedInvalidator)
     (NewAdminHandler demo_admin_remote \<lparr> sv_u = id, sv_quote = id, sv_now = 0 \<rparr> (\<lambda>_. ''failed'') ''10.0.0.1'' (\<lambda>_. []))"

definition demo_admin_state :: "unit admin_state" where
  "demo_admin_state = \<lparr> ad_realm = (), ad_cache = cache_store (NewCachedAdminChecker 0) 0 demo_target_user True, ad_events = [] \<rparr>"

lemma demo_admin_deletes:
  "admin_handle demo_admin_handler demo_admin_ctx AdDeleteUser demo_admin_state =
    (ArStatus 204, snd (admin_handle demo_admin_handler demo_admin_ctx AdDeleteUser demo_admin_state))"
proof -
  have "fst (admin_handle demo_admin_handler demo_admin_ctx AdDeleteUser demo_admin_state) = ArStatus 204" by code_simp
  then show ?thesis by (metis prod.collapse)
qed

lemma demo_reasoned: "reasoned demo_admin_handler"
  by (simp add: reasoned_def demo_admin_handler_def NewAdminHandler_def SetAdminInvalidator_def)

theorem admin_trail_witness:
  "\<exists>e. ad_events (snd (admin_handle demo_admin_handler demo_admin_ctx AdDeleteUser demo_admin_state)) = [e] \<and>
     ea_Reason e = []"
proof -
  from admin_trail [OF demo_admin_deletes demo_reasoned] obtain evs where
    "ad_events (snd (admin_handle demo_admin_handler demo_admin_ctx AdDeleteUser demo_admin_state)) = evs"
    "length evs = 1" "list_all (attributed demo_admin_handler demo_admin_ctx False) evs"
    by (auto simp: demo_admin_state_def)
  then show ?thesis by (auto simp: length_Suc_conv attributed_def)
qed

theorem admin_change_asks_again_witness:
  "fst (IsAdmin (\<lambda>_ u. (Inr False, u)) 1 1 demo_target_user (ad_cache demo_admin_state, ())) = Inr True \<and>
   fst (IsAdmin (\<lambda>_ u. (Inr False, u)) 1 1 demo_target_user
     (ad_cache (snd (admin_handle demo_admin_handler demo_admin_ctx AdDeleteUser demo_admin_state)), ())) = Inr False"
proof -
  have "an_invalidator demo_admin_handler = CachedInvalidator" "demo_target_user = Param demo_admin_ctx ''id''" "demo_target_user \<noteq> []"
    by (simp_all add: demo_admin_handler_def NewAdminHandler_def SetAdminInvalidator_def demo_admin_ctx_def Param_def
        lookup_or_empty_def demo_target_user_def)
  with admin_change_asks_again [OF demo_admin_deletes demo_reasoned, of demo_target_user "\<lambda>_ u. (Inr False, u)" 1 1 "()"]
  have "fst (IsAdmin (\<lambda>_ u. (Inr False, u)) 1 1 demo_target_user
     (ad_cache (snd (admin_handle demo_admin_handler demo_admin_ctx AdDeleteUser demo_admin_state)), ())) = Inr False"
    by simp
  moreover have "fst (IsAdmin (\<lambda>_ u. (Inr False, u)) 1 1 demo_target_user (ad_cache demo_admin_state, ())) = Inr True"
    by (simp add: IsAdmin_def demo_admin_state_def demo_target_user_def NewCachedAdminChecker_def DefaultAdminTTL_def second_def)
  ultimately show ?thesis by simp
qed

end
