(* ===== verification/Authenticator.thy ===== *)
theory Authenticator
  imports ProjectLife
begin

text \<open>
  What \<^verbatim>\<open>internal/project/authenticator.go\<close> promises: the function
  \<open>credential_for\<close> states, over the rows alone, which credential and project a
  token stands for at a time; AuthenticateCredential computes it (or reports that
  the database did not answer), does one digest comparison for every well-formed
  token, accepts a freshly minted credential and never again a revoked, expired or
  archived one.
\<close>

definition credential_for ::
  "(string \<Rightarrow> 8 word list) \<Rightarrow> int \<Rightarrow> string \<Rightarrow> db \<Rightarrow> (credential \<times> project) option" where
  "credential_for sha now token d =
     (case parseToken token of
        None \<Rightarrow> None
      | Some t \<Rightarrow>
          (case find (\<lambda>c. cr_KeyPrefix c = pt_lookup t) (db_credentials d) of
             None \<Rightarrow> None
           | Some c \<Rightarrow>
               (case find (\<lambda>p. pj_ID p = cr_ProjectID c) (db_projects d) of
                  None \<Rightarrow> None
                | Some p \<Rightarrow>
                    if cr_KeyHash c = hashSecret sha (pt_secret t) \<and> IsUsable now c \<and> \<not> pj_IsArchived p
                    then Some (c, p) else None)))"

definition principal_of :: "credential \<times> project \<Rightarrow> project_principal" where
  "principal_of = (\<lambda>(c, p). \<lparr> pp_ProjectID = pj_PublicID p, pp_ProjectName = pj_Name p,
     pp_CredentialID = cr_PublicID c, pp_WorkspaceID = pj_WorkspacePublicID p,
     pp_Scopes = cr_Scopes c \<rparr>)"

definition presented :: "(string \<Rightarrow> 8 word list) \<Rightarrow> string \<Rightarrow> 8 word list list" where
  "presented sha token =
     (case parseToken token of None \<Rightarrow> [] | Some t \<Rightarrow> [hashSecret sha (pt_secret t)])"

lemma query_Inl: "query f w = (Inl e, w') \<Longrightarrow> e = ErrDriver \<and> True \<in> set (take 1 (w_faults w))"
  by (cases "w_faults w") (simp_all add: query_def stmt_def next_fault_def split: bool.splits)

lemma query_faults: "query f w = (Inr x, w') \<Longrightarrow> w_faults w' = drop 1 (w_faults w)"
  by (cases "w_faults w") (auto simp: query_def stmt_def next_fault_def split: bool.splits)

lemma take_two: "take 2 xs = take 1 xs @ take 1 (drop 1 xs)"
  using take_add [of 1 1 xs] by (simp only: one_add_one)

lemma FindByKeyPrefix_Inl:
  assumes "pjr_FindByKeyPrefix k w = (Inl e, w')"
  shows "e = ErrDriver \<and> True \<in> set (take 2 (w_faults w))"
  using assms
  by (auto simp: pjr_FindByKeyPrefix_def andThen_Inl pjr_GetProject_def ret_def take_two
      split: option.splits dest!: query_Inl query_faults)

lemma FindByKeyPrefix_Inr:
  assumes "pjr_FindByKeyPrefix k w = (Inr r, w')"
  shows "r = (case find (\<lambda>c. cr_KeyPrefix c = k) (db_credentials (w_db w)) of
      None \<Rightarrow> None
    | Some c \<Rightarrow> map_option (Pair c) (find (\<lambda>p. pj_ID p = cr_ProjectID c) (db_projects (w_db w))))"
proof -
  from assms obtain c w1 where "query (\<lambda>d. find (\<lambda>c. cr_KeyPrefix c = k) (db_credentials d)) w = (Inr c, w1)"
    and k: "(case c of None \<Rightarrow> ret None | Some c \<Rightarrow> andThen (pjr_GetProject (cr_ProjectID c))
      (\<lambda>proj. case proj of None \<Rightarrow> ret None | Some p \<Rightarrow> ret (Some (c, p)))) w1 = (Inr r, w')"
    unfolding pjr_FindByKeyPrefix_def by auto
  from query_Inr [OF this(1)] have c: "c = find (\<lambda>c. cr_KeyPrefix c = k) (db_credentials (w_db w))"
    and d: "w_db w1 = w_db w" by auto
  show ?thesis
  proof (cases c)
    case (Some cred)
    with k obtain p w2 where p: "pjr_GetProject (cr_ProjectID cred) w1 = (Inr p, w2)"
      "(case p of None \<Rightarrow> ret None | Some p \<Rightarrow> ret (Some (cred, p))) w2 = (Inr r, w')"
      by auto
    with pjr_GetProject_Inr [OF p(1)] d have
      pp: "find (\<lambda>p. pj_ID p = cr_ProjectID cred) (db_projects (w_db w)) = p" by simp
    have "r = map_option (Pair cred) (find (\<lambda>p. pj_ID p = cr_ProjectID cred) (db_projects (w_db w)))"
      unfolding pp using p(2) by (cases p) simp_all
    then show ?thesis unfolding c [symmetric] Some by simp
  next
    case None
    with k show ?thesis unfolding c [symmetric] by simp
  qed
qed

lemma attempt_never_fails [simp]: "attempt m w = (Inr (), snd (m w))"
  by (simp add: attempt_def)

lemma AuthenticateCredential_spec:
  "case AuthenticateCredential sha now token w of
     (Inl e, w') \<Rightarrow> e = ErrDriver \<and> w_db w' = w_db w \<and> True \<in> set (take 2 (w_faults w))
   | (Inr (r, cmps), w') \<Rightarrow> r = map_option principal_of (credential_for sha now token (w_db w))"
proof (cases "parseToken token")
  case (Some t)
  obtain r w1 where q: "pjr_FindByKeyPrefix (pt_lookup t) w = (r, w1)"
    by (cases "pjr_FindByKeyPrefix (pt_lookup t) w")
  show ?thesis
  proof (cases r)
    case (Inl e)
    with Some q FindByKeyPrefix_Inl [of "pt_lookup t" w e w1] read_onlyD [OF read_only_FindByKeyPrefix q]
    show ?thesis by (simp add: AuthenticateCredential_def andThen_def)
  next
    case (Inr row)
    note row = FindByKeyPrefix_Inr [OF q [unfolded Inr]]
    have res: "AuthenticateCredential sha now token w = (case row of
        None \<Rightarrow> (Inr (None, [compareAgainstDummy sha (pt_secret t)]), w1)
      | Some (c, p) \<Rightarrow>
          if hashSecret sha (pt_secret t) = cr_KeyHash c \<and> IsUsable now c \<and> \<not> pj_IsArchived p
          then (Inr (Some (principal_of (c, p)), [(hashSecret sha (pt_secret t), cr_KeyHash c)]),
            if NeedsLastUsedTouch now c then snd (pjr_TouchLastUsed (cr_ID c) now w1) else w1)
          else (Inr (None, [(hashSecret sha (pt_secret t), cr_KeyHash c)]), w1))"
      by (cases row) (auto simp: Some q Inr AuthenticateCredential_def andThen_def ret_def secretMatches_def
          Let_def principal_of_def)
    have spec: "credential_for sha now token (w_db w) = (case row of None \<Rightarrow> None
      | Some (c, p) \<Rightarrow>
          if hashSecret sha (pt_secret t) = cr_KeyHash c \<and> IsUsable now c \<and> \<not> pj_IsArchived p
          then Some (c, p) else None)"
    proof (cases "find (\<lambda>c. cr_KeyPrefix c = pt_lookup t) (db_credentials (w_db w))")
      case None
      with Some row show ?thesis by (simp add: credential_for_def)
    next
      case c: (Some c)
      with Some row show ?thesis
        by (cases "find (\<lambda>p. pj_ID p = cr_ProjectID c) (db_projects (w_db w))")
          (auto simp: credential_for_def)
    qed
    show ?thesis unfolding res spec by (auto split: option.split if_split)
  qed
qed (simp add: AuthenticateCredential_def credential_for_def ret_def)


text \<open>The authenticator decides exactly the specification on the rows: it fails
  only when the database did not answer the two lookups (never because
  \<^verbatim>\<open>last_used_at\<close> could not be written), it then leaves the rows alone, and
  otherwise returns the principal of the credential the token stands for, or
  nothing.\<close>

theorem authenticate_decides:
  "case AuthenticateCredential sha now token w of
     (Inl e, w') \<Rightarrow> e = ErrDriver \<and> w_db w' = w_db w \<and> True \<in> set (take 2 (w_faults w))
   | (Inr (r, cmps), w') \<Rightarrow> r = map_option principal_of (credential_for sha now token (w_db w))"
  by (rule AuthenticateCredential_spec)

text \<open>The work done does not depend on what the database holds: a malformed token
  never reaches it (no statement is consumed), and every other token that is
  answered costs exactly one comparison of the digest of the presented secret,
  whether the prefix is unknown, the secret wrong, the key revoked or the key
  good.\<close>

theorem one_comparison:
  "if parseToken token = None then AuthenticateCredential sha now token w = (Inr (None, []), w)
   else (case fst (AuthenticateCredential sha now token w) of
      Inl e \<Rightarrow> e = ErrDriver
    | Inr (r, cmps) \<Rightarrow> map fst cmps = presented sha token)"
proof (cases "parseToken token")
  case (Some t)
  obtain r w1 where q: "pjr_FindByKeyPrefix (pt_lookup t) w = (r, w1)"
    by (cases "pjr_FindByKeyPrefix (pt_lookup t) w")
  show ?thesis
  proof (cases r)
    case (Inl e)
    with Some q FindByKeyPrefix_Inl show ?thesis
      by (fastforce simp: AuthenticateCredential_def andThen_def)
  next
    case (Inr row)
    with Some q show ?thesis
      by (cases row) (auto simp: AuthenticateCredential_def andThen_def ret_def secretMatches_def Let_def
        presented_def compareAgainstDummy_def split: prod.splits)
  qed
qed (simp add: AuthenticateCredential_def ret_def)

lemma distinct_same: "distinct (map k xs) \<Longrightarrow> a \<in> set xs \<Longrightarrow> b \<in> set xs \<Longrightarrow> k a = k b \<Longrightarrow> a = b"
  by (simp add: distinct_map inj_on_def)

lemma credential_for_Some:
  assumes "credential_for sha now token d = Some (c, p)"
  shows "c \<in> set (db_credentials d)" "p \<in> set (db_projects d)" "cr_ProjectID c = pj_ID p"
    "IsUsable now c" "\<not> pj_IsArchived p"
    "map_option pt_lookup (parseToken token) = Some (cr_KeyPrefix c)"
proof -
  from assms obtain t where "parseToken token = Some t"
    and c: "find (\<lambda>c. cr_KeyPrefix c = pt_lookup t) (db_credentials d) = Some c"
    and p: "find (\<lambda>p. pj_ID p = cr_ProjectID c) (db_projects d) = Some p"
    and "IsUsable now c" "\<not> pj_IsArchived p"
    by (auto simp: credential_for_def split: option.split_asm if_split_asm)
  with find_Some [OF c] find_Some [OF p]
  show "c \<in> set (db_credentials d)" "p \<in> set (db_projects d)" "cr_ProjectID c = pj_ID p"
    "IsUsable now c" "\<not> pj_IsArchived p"
    "map_option pt_lookup (parseToken token) = Some (cr_KeyPrefix c)"
    by auto
qed

text \<open>What ends a credential: its revocation, its expiry, its project's archiving.\<close>

definition ended :: "int \<Rightarrow> db \<Rightarrow> credential \<Rightarrow> bool" where
  "ended now d c \<longleftrightarrow> IsRevoked c \<or> IsExpired now c \<or>
     list_ex (\<lambda>p. pj_ID p = cr_ProjectID c \<and> pj_IsArchived p) (db_projects d)"

lemma ended_stays:
  assumes ok: "pj_tables_ok lower d'" and g: "tables_grow d d'" and c: "c \<in> set (db_credentials d)"
    and e: "ended t d c" and t: "t \<le> now" and c': "c' \<in> set (db_credentials d')"
    and k: "cr_KeyPrefix c' = cr_KeyPrefix c"
  shows "ended now d' c'"
proof -
  from g c obtain b where b: "b \<in> set (db_credentials d')" and ev: "cr_row_evolves c b"
    using cr_row.grows_row by blast
  note f = cr_row_evolves_fields [OF ev]
  from ok b c' f(2) k have "c' = b"
    using distinct_same [of cr_KeyPrefix "db_credentials d'" c' b] by (simp add: pj_tables_ok_def)
  moreover have "ended now d' b"
  proof (cases "IsRevoked c \<or> IsExpired t c")
    case True
    with f(6,7) t show ?thesis by (auto simp: ended_def IsExpired_def split: option.splits)
  next
    case False
    with e obtain p where "p \<in> set (db_projects d)" "pj_ID p = cr_ProjectID c" "pj_IsArchived p"
      by (auto simp: ended_def list_ex_iff)
    moreover from g this(1) obtain q where "q \<in> set (db_projects d')" "pj_row_evolves p q"
      using pj_row.grows_row by blast
    with \<open>pj_IsArchived p\<close> have "p \<in> set (db_projects d')" by (simp add: pj_row_evolves_def)
    ultimately show ?thesis using f(4) by (auto simp: ended_def list_ex_iff)
  qed
  ultimately show ?thesis by simp
qed

lemma ended_refused:
  assumes ok: "pj_tables_ok lower d" and e: "\<And>c. c \<in> set (db_credentials d) \<Longrightarrow>
      map_option pt_lookup (parseToken token) = Some (cr_KeyPrefix c) \<Longrightarrow> ended now d c"
  shows "credential_for sha now token d = None"
proof (rule ccontr)
  assume "credential_for sha now token d \<noteq> None"
  then obtain c p where s: "credential_for sha now token d = Some (c, p)" by auto
  note f = credential_for_Some [OF s]
  from e [OF f(1,6)] f(4) obtain q where "q \<in> set (db_projects d)" "pj_ID q = pj_ID p" "pj_IsArchived q"
    using f(3) by (auto simp: ended_def list_ex_iff IsUsable_def)
  with ok f(2) have "q = p"
    using distinct_same [of pj_ID "db_projects d" q p] by (simp add: pj_tables_ok_def)
  with \<open>pj_IsArchived q\<close> f(5) show False by simp
qed

text \<open>C7: a revoked, expired or archived credential never authenticates again: after
  any sequence of project and credential requests and authentications, whatever
  failed, every token with its prefix is refused (or the database did not
  answer) at that time and later.\<close>

theorem ended_credential_is_final:
  assumes "pj_tables_ok lower (w_db w)" and "list_all (same_lower lower) rs"
    and "c \<in> set (db_credentials (w_db w))" and "ended t (w_db w) c" and "t \<le> now"
    and "map_option pt_lookup (parseToken token) = Some (cr_KeyPrefix c)"
  shows "case fst (AuthenticateCredential sha now token (pj_requests rs w)) of
      Inl e \<Rightarrow> e = ErrDriver | Inr (r, cmps) \<Rightarrow> r = None"
proof -
  from pj_requests_keep [OF assms(1,2)] have ok: "pj_tables_ok lower (w_db (pj_requests rs w))"
    and g: "tables_grow (w_db w) (w_db (pj_requests rs w))" by auto
  have "credential_for sha now token (w_db (pj_requests rs w)) = None"
    by (rule ended_refused [OF ok])
      (use ended_stays [OF ok g assms(3,4,5)] assms(6) in auto)
  with AuthenticateCredential_spec [where sha = sha and now = now and token = token and w = "pj_requests rs w"] show ?thesis
    by (auto split: prod.splits sum.splits)
qed

lemma cr_Create_token:
  assumes "cr_Create wid pid inp ev se w = (Inr (c, token), w')"
  shows "\<exists>m. MintCredential (se_sha se) (se_rnd_lookup se) (se_rnd_secret se) = Inr m \<and>
     token = mc_Token m \<and> cr_KeyPrefix c = mc_KeyPrefix m \<and> cr_KeyHash c = mc_KeyHash m \<and>
     cr_RevokedAt c = None \<and> cr_ExpiresAt c = ci_ExpiresAt inp"
proof (cases "NormalizeScopes (se_u se) (ci_Scopes inp)")
  case (Inr scopes)
  with assms show ?thesis
    by (auto simp: cr_Create_def Let_def elim!: InTx_Inr)
qed (use assms in \<open>auto simp: cr_Create_def Let_def\<close>)

lemma minted_parses:
  assumes "MintCredential sha (Inr l) (Inr s) = Inr m" and "length l = 10" and "length s = 32"
  shows "\<exists>t. parseToken (mc_Token m) = Some t \<and> pt_lookup t = mc_KeyPrefix m \<and>
     hashSecret sha (pt_secret t) = mc_KeyHash m"
  using parseToken_built [OF _ _ Encode_alphabet Encode_alphabet, of l s] assms
  by (auto simp: MintCredential_def Let_def Encode_length)

lemma find_append_fresh:
  "k x \<notin> k ` set xs \<Longrightarrow> find (\<lambda>y. k y = k x) (xs @ [x]) = Some x"
  by (induction xs) auto

lemma find_distinct:
  "distinct (map k xs) \<Longrightarrow> x \<in> set xs \<Longrightarrow> v = k x \<Longrightarrow> find (\<lambda>y. k y = v) xs = Some x"
  by (induction xs) auto

text \<open>C38: the token handed out when a credential is created authenticates, until its
  expiry, as the project it was created for, with exactly the normalised scopes
  asked for, in the workspace of the request's path.\<close>

theorem minted_authenticates:
  assumes "pj_tables_ok (se_lower se) (w_db w)"
    and "cr_Create wid pid inp ev se w = (Inr (c, token), w')"
    and "se_rnd_lookup se = Inr l" and "length l = 10" and "se_rnd_secret se = Inr s" and "length s = 32"
    and "case ci_ExpiresAt inp of None \<Rightarrow> True | Some t \<Rightarrow> now < t" and "w_faults w' = []"
  shows "\<exists>pp cmps. fst (AuthenticateCredential (se_sha se) now token w') = Inr (Some pp, cmps) \<and>
     NormalizeScopes (se_u se) (ci_Scopes inp) = Inr (pp_Scopes pp) \<and>
     map_sum id (Format WorkspacePrefix) (Parse WorkspacePrefix wid) = Inr (pp_WorkspaceID pp) \<and>
     pp_CredentialID pp = cr_PublicID c"
proof -
  from cr_Create_token [OF assms(2)] obtain m where
    m: "MintCredential (se_sha se) (se_rnd_lookup se) (se_rnd_secret se) = Inr m"
    and c: "token = mc_Token m" "cr_KeyPrefix c = mc_KeyPrefix m" "cr_KeyHash c = mc_KeyHash m"
      "cr_RevokedAt c = None" "cr_ExpiresAt c = ci_ExpiresAt inp" by blast
  from m assms(3-6) obtain t where t: "parseToken token = Some t" "pt_lookup t = cr_KeyPrefix c"
    "hashSecret (se_sha se) (pt_secret t) = cr_KeyHash c"
    using minted_parses c by metis
  from cr_Create_audited [of se wid pid inp ev w] assms(2) obtain d1 row where
    eff: "pj_effect se (CrCreate wid pid inp) (CredentialResult c) (w_db w) d1" and w': "w_db w' = with_audit row d1"
    by (auto simp: audited_def atomic_outcome_def pj_outcome_def minted_result_def)
  have fp: "find (\<lambda>c'. cr_KeyPrefix c' = pt_lookup t) (db_credentials (w_db w')) = Some c"
    using eff by (cases rule: pj_effect.cases) (auto simp: w' with_audit_def t find_append_fresh)
  from eff obtain q where q: "q \<in> set (db_projects (w_db w'))" "cr_ProjectID c = pj_ID q" "\<not> pj_IsArchived q"
    "Parse WorkspacePrefix wid = Inr (pj_WorkspaceID q)"
    "NormalizeScopes (se_u se) (ci_Scopes inp) = Inr (cr_Scopes c)"
    by (cases rule: pj_effect.cases) (auto simp: w' with_audit_def)
  from pj_effect_keeps [OF eff assms(1)] have "distinct (map pj_ID (db_projects (w_db w')))"
    by (simp add: pj_tables_ok_def w' with_audit_def)
  then have fq: "find (\<lambda>p. pj_ID p = cr_ProjectID c) (db_projects (w_db w')) = Some q"
    using q(1,2) by (simp add: find_distinct)
  have "credential_for (se_sha se) now token (w_db w') = Some (c, q)"
    using t fp fq q(3) c(4,5) assms(7)
    by (simp add: credential_for_def IsUsable_def IsRevoked_def IsExpired_def split: option.splits)
  with AuthenticateCredential_spec [where sha = "se_sha se" and now = now and token = token and w = w'] assms(8)
  obtain cmps where "fst (AuthenticateCredential (se_sha se) now token w') = Inr (Some (principal_of (c, q)), cmps)"
    by (auto split: prod.splits sum.splits)
  with q(4,5) show ?thesis
    by (auto simp: principal_of_def pj_WorkspacePublicID_def)
qed

text \<open>The demonstration row, revoked, and a mint in its project.\<close>

definition demo_revoked :: credential where
  "demo_revoked = demo_credential\<lparr> cr_RevokedAt := Some 5, cr_RevokedBy := Some ''op2'' \<rparr>"

definition demo_revoked_world :: world where
  "demo_revoked_world = demo_project_world\<lparr> w_db :=
     (w_db demo_project_world)\<lparr> db_credentials := [demo_revoked] \<rparr> \<rparr>"

definition demo_input :: create_credential_input where
  "demo_input = \<lparr> ci_Label = '' deploy '', ci_Scopes = ['' users:write'', ''users:read'', ''users:write''],
     ci_ExpiresAt = Some 50, ci_CreatedBy = ''op'' \<rparr>"

theorem ended_credential_is_final_witness:
  "\<exists>e. fst (AuthenticateCredential demo_sha 9 (mc_Token demo_minted)
     (pj_requests [Mutate demo_revoke demo_event demo_svc] demo_revoked_world)) = e \<and>
   (case e of Inl x \<Rightarrow> x = ErrDriver | Inr (r, cmps) \<Rightarrow> r = None)"
proof -
  have ok: "pj_tables_ok id (w_db demo_revoked_world)" by code_simp
  have l: "list_all (same_lower id) [Mutate demo_revoke demo_event demo_svc]" by (simp add: demo_svc_def)
  have m: "demo_revoked \<in> set (db_credentials (w_db demo_revoked_world))"
    and e: "ended 6 (w_db demo_revoked_world) demo_revoked"
    by (simp_all add: demo_revoked_world_def demo_revoked_def ended_def IsRevoked_def)
  have t: "map_option pt_lookup (parseToken (mc_Token demo_minted)) = Some (cr_KeyPrefix demo_revoked)"
    by code_simp
  show ?thesis
    using ended_credential_is_final [OF ok l m e _ t, of 9 demo_sha] by simp
qed

theorem minted_authenticates_witness:
  "\<exists>token w' pp cmps. fst (AuthenticateCredential demo_sha 6 token w') = Inr (Some pp, cmps) \<and>
     pp_Scopes pp = [''users:write'', ''users:read'']"
proof -
  let ?m = "cr_Create (''ws_'' @ demo_ws_id) (''prj_'' @ demo_uuid) demo_input demo_event demo_svc demo_project_world"
  have ok: "pj_tables_ok (se_lower demo_svc) (w_db demo_project_world)" by code_simp
  have "(case ?m of (r, w') \<Rightarrow> if is_ok r then w_faults w' = [] else False)" by code_simp
  then obtain c token w' where m: "?m = (Inr (c, token), w')" and f: "w_faults w' = []"
    by (cases ?m) (auto simp: is_ok_iff split: if_splits)
  have n: "NormalizeScopes (se_u demo_svc) (ci_Scopes demo_input) = Inr [''users:write'', ''users:read'']"
    by code_simp
  from minted_authenticates [OF ok m _ _ _ _ _ f, of "replicate 10 4" "replicate 32 5" 6] n
  show ?thesis by (force simp: demo_svc_def demo_input_def)
qed

end
