(* ===== verification/AuditQuery.thy ===== *)
theory AuditQuery
  imports AuditLog Encoding "HOL-Library.List_Lexorder" "HOL-Library.Product_Lexorder"
begin

text \<open>
  The read side of the audit trail: the query service with its cursor
  (\<^verbatim>\<open>internal/auditlog/service.go\<close>), the paged query and the retention delete
  (\<^verbatim>\<open>repository.go\<close>), the wire types (\<^verbatim>\<open>dto.go\<close>), the endpoint
  \<^verbatim>\<open>GET /v1/workspaces/{workspace_id}/audit\<close> (\<^verbatim>\<open>handler.go\<close>) and the sweep
  (\<^verbatim>\<open>internal/server/audit_retention.go\<close>).

  Parameters: what PostgreSQL accepts as a uuid, with its canonical form, and as
  a text value. Timestamps are those the table returns; the rounding of a bound
  to microseconds by the driver is left out. The locale states what a client that
  follows cursors needs of a paged store, and is interpreted on the repository.
\<close>

section \<open>Queries and pages\<close>

record audit_cursor =
  cu_OccurredAt :: int
  cu_ID :: string

record audit_query =
  aq_WorkspaceID :: string
  aq_EventType :: string
  aq_ActorType :: string
  aq_Outcome :: string
  aq_From :: int
  aq_To :: int
  aq_After :: "audit_cursor option"
  aq_Limit :: int

record audit_page =
  ap_Items :: "audit_record list"
  ap_NextCursor :: "audit_cursor option"

record list_params =
  lp_EventType :: string
  lp_ActorType :: string
  lp_Outcome :: string
  lp_From :: string
  lp_To :: string
  lp_Cursor :: string
  lp_Limit :: string

record audit_error =
  ae_Code :: string
  ae_Message :: string
  ae_Status :: nat
  ae_Field :: string

definition AqErrInvalidFilter :: audit_error where
  "AqErrInvalidFilter =
     \<lparr> ae_Code = ''invalid_request'', ae_Message = ''Request is invalid'', ae_Status = 400, ae_Field = [] \<rparr>"

definition AqErrAuditUnavailable :: audit_error where
  "AqErrAuditUnavailable =
     \<lparr> ae_Code = ''audit_unavailable'', ae_Message = ''Audit history is temporarily unavailable'',
       ae_Status = 503, ae_Field = [] \<rparr>"

definition AqErrInvalidWorkspaceID :: audit_error where
  "AqErrInvalidWorkspaceID =
     \<lparr> ae_Code = ''invalid_workspace_id'', ae_Message = ''Workspace id must be in the form ws_<uuid>'',
       ae_Status = 400, ae_Field = [] \<rparr>"

definition WithField :: "string \<Rightarrow> audit_error \<Rightarrow> audit_error" where
  "WithField f e = e\<lparr> ae_Field := f \<rparr>"

section \<open>The cursor\<close>

definition cursorSeparator :: char where "cursorSeparator = CHR ''.''"

definition UnixNano :: "int \<Rightarrow> int" where "UnixNano t = wrap64 t"

definition encodeCursor :: "audit_cursor \<Rightarrow> string" where
  "encodeCursor c = RawURLEncode (FormatInt (UnixNano (cu_OccurredAt c)) @ cursorSeparator # cu_ID c)"

text \<open>The caller treats every error of it alike.\<close>

definition decodeCursor :: "string \<Rightarrow> audit_cursor option" where
  "decodeCursor encoded = do {
     decoded \<leftarrow> RawURLDecode encoded;
     (nanos, i) \<leftarrow> cut_at cursorSeparator decoded;
     n \<leftarrow> ParseInt nanos;
     if i = [] \<or> length i > 64 then None
     else Some \<lparr> cu_OccurredAt = n, cu_ID = i \<rparr> }"

section \<open>The service\<close>

definition defaultPageSize :: int where "defaultPageSize = 50"
definition maxPageSize :: int where "maxPageSize = 200"

definition parseLimit :: "string \<Rightarrow> audit_error + int" where
  "parseLimit raw =
     (if raw = [] then Inr defaultPageSize
      else case ParseInt (trim_space raw) of
        None \<Rightarrow> Inl (WithField ''limit'' AqErrInvalidFilter)
      | Some n \<Rightarrow>
          if n < 1 \<or> n > maxPageSize then Inl (WithField ''limit'' AqErrInvalidFilter) else Inr n)"

definition parseTime :: "string \<Rightarrow> int option" where
  "parseTime raw = ParseRFC3339 (trim_space raw)"

text \<open>An absent bound is the zero time.\<close>

definition time_bound :: "string \<Rightarrow> string \<Rightarrow> audit_error + int" where
  "time_bound field raw =
     (if raw = [] then Inr zero_time
      else case parseTime raw of
        None \<Rightarrow> Inl (WithField field AqErrInvalidFilter)
      | Some t \<Rightarrow> Inr t)"

definition cursor_param :: "string \<Rightarrow> audit_error + audit_cursor option" where
  "cursor_param raw =
     (if raw = [] then Inr None
      else case decodeCursor raw of
        None \<Rightarrow> Inl (WithField ''cursor'' AqErrInvalidFilter)
      | Some c \<Rightarrow> Inr (Some c))"

definition allowed_value :: "string \<Rightarrow> string list \<Rightarrow> string \<Rightarrow> audit_error + unit" where
  "allowed_value field vocabulary v =
     guard (v = [] \<or> v \<in> set vocabulary) (WithField field AqErrInvalidFilter)"

text \<open>Service.List up to the call of the store.\<close>

definition list_query :: "string \<Rightarrow> list_params \<Rightarrow> audit_error + audit_query" where
  "list_query ws p =
     bind_result (parseLimit (lp_Limit p)) (\<lambda>limit.
     bind_result (guard (length (lp_EventType p) \<le> 100) (WithField ''event'' AqErrInvalidFilter)) (\<lambda>_.
     bind_result (allowed_value ''actor_type'' [''operator'', ''project''] (lp_ActorType p)) (\<lambda>_.
     bind_result (allowed_value ''outcome'' [''success'', ''failure''] (lp_Outcome p)) (\<lambda>_.
     bind_result (time_bound ''from'' (lp_From p)) (\<lambda>from.
     bind_result (time_bound ''to'' (lp_To p)) (\<lambda>upto.
     bind_result (guard (\<not> (from \<noteq> zero_time \<and> upto \<noteq> zero_time \<and> from > upto))
                    (WithField ''from'' AqErrInvalidFilter)) (\<lambda>_.
     bind_result (cursor_param (lp_Cursor p)) (\<lambda>cursor.
     Inr \<lparr> aq_WorkspaceID = ws, aq_EventType = lp_EventType p, aq_ActorType = lp_ActorType p,
           aq_Outcome = lp_Outcome p, aq_From = from, aq_To = upto, aq_After = cursor,
           aq_Limit = limit \<rparr>))))))))"

section \<open>The repository\<close>

fun actor_text :: "actor_type \<Rightarrow> string" where
  "actor_text ActorOperator = ''operator''"
| "actor_text ActorProject = ''project''"

fun outcome_text :: "outcome \<Rightarrow> string" where
  "outcome_text OutcomeSuccess = ''success''"
| "outcome_text OutcomeFailure = ''failure''"

text \<open>What PostgreSQL makes of a parameter: \<open>pgt_uuid\<close> is its canonical form when it
  is a uuid, \<open>pgt_text\<close> whether it is a text value.\<close>

record pg_types =
  pgt_uuid :: "string \<Rightarrow> string option"
  pgt_text :: "string \<Rightarrow> bool"

definition filters_match :: "audit_query \<Rightarrow> audit_record \<Rightarrow> bool" where
  "filters_match q r \<longleftrightarrow>
     au_WorkspaceID r = aq_WorkspaceID q \<and>
     (aq_EventType q \<noteq> [] \<longrightarrow> au_EventType r = aq_EventType q) \<and>
     (aq_ActorType q \<noteq> [] \<longrightarrow> actor_text (au_ActorType r) = aq_ActorType q) \<and>
     (aq_Outcome q \<noteq> [] \<longrightarrow> outcome_text (au_Outcome r) = aq_Outcome q) \<and>
     (aq_From q \<noteq> zero_time \<longrightarrow> aq_From q \<le> au_OccurredAt r) \<and>
     (aq_To q \<noteq> zero_time \<longrightarrow> au_OccurredAt r \<le> aq_To q)"

definition after_match :: "int \<Rightarrow> string \<Rightarrow> audit_record \<Rightarrow> bool" where
  "after_match at i r \<longleftrightarrow> au_OccurredAt r \<le> at \<and> (au_OccurredAt r < at \<or> au_ID r < i)"

definition row_key :: "audit_record \<Rightarrow> int \<times> string" where
  "row_key r = (au_OccurredAt r, au_ID r)"

text \<open>\<^verbatim>\<open>ORDER BY occurred_at DESC, id DESC\<close>: a uuid compares as its canonical
  text.\<close>

definition newest_first :: "audit_record list \<Rightarrow> audit_record list" where
  "newest_first rows = rev (sort_key row_key rows)"

text \<open>\<^const>\<open>None\<close> when a parameter is not a value of its column.\<close>

definition listQuery :: "pg_types \<Rightarrow> audit_query \<Rightarrow> db \<Rightarrow> audit_record list option" where
  "listQuery pg q d =
     (if aq_EventType q \<noteq> [] \<and> \<not> pgt_text pg (aq_EventType q) then None
      else case aq_After q of
        None \<Rightarrow> Some (filter (filters_match q) (db_audit d))
      | Some c \<Rightarrow>
          (case pgt_uuid pg (cu_ID c) of
             None \<Rightarrow> None
           | Some i \<Rightarrow>
               Some (filter (\<lambda>r. filters_match q r \<and> after_match (cu_OccurredAt c) i r) (db_audit d))))"

definition page_of :: "nat \<Rightarrow> audit_record list \<Rightarrow> audit_page" where
  "page_of limit rows =
     (let hasMore = length rows > limit; items = (if hasMore then take limit rows else rows) in
      \<lparr> ap_Items = items,
        ap_NextCursor =
          (if hasMore \<and> items \<noteq> []
           then Some \<lparr> cu_OccurredAt = au_OccurredAt (last items), cu_ID = au_ID (last items) \<rparr>
           else None) \<rparr>)"

definition aur_List :: "pg_types \<Rightarrow> audit_query \<Rightarrow> audit_page act" where
  "aur_List pg q =
     (if aq_WorkspaceID q = [] then ret \<lparr> ap_Items = [], ap_NextCursor = None \<rparr>
      else let limit = nat (if aq_Limit q \<le> 0 then defaultPageSize else aq_Limit q) in
        andThen (stmt (\<lambda>d. case listQuery pg q d of
                    None \<Rightarrow> Inl ErrDriver
                  | Some rows \<Rightarrow> Inr (take (limit + 1) (newest_first rows), d)))
          (\<lambda>rows. ret (page_of limit rows)))"

definition DeleteOlderThan :: "int \<Rightarrow> nat act" where
  "DeleteOlderThan cutoff = stmt (\<lambda>d.
     Inr (length (filter (\<lambda>r. au_OccurredAt r < cutoff) (db_audit d)),
          d\<lparr> db_audit := filter (\<lambda>r. \<not> au_OccurredAt r < cutoff) (db_audit d) \<rparr>))"

definition Purge :: "int \<Rightarrow> int \<Rightarrow> nat act" where
  "Purge now retention =
     (if retention \<le> 0 then ret 0 else DeleteOlderThan (now - retention))"

text \<open>A sweep logs its outcome and goes on; the loop runs one per tick.\<close>

definition sweepAudit :: "int \<Rightarrow> int \<Rightarrow> world \<Rightarrow> world" where
  "sweepAudit retention now w = snd (Purge now retention w)"

definition StartAuditRetention :: "int \<Rightarrow> int list \<Rightarrow> world \<Rightarrow> world" where
  "StartAuditRetention retention ticks w =
     (if retention \<le> 0 then w else fold (sweepAudit retention) ticks w)"

section \<open>The endpoint\<close>

record actor_response =
  rp_Type :: string
  rp_Subject :: string
  rp_Email :: string
  rp_ProjectID :: string
  rp_CredentialID :: string

record event_response =
  rp_ID :: string
  rp_Event :: string
  rp_Outcome :: string
  rp_Actor :: actor_response
  rp_Resource :: "(string \<times> string) option"
  rp_ReasonCode :: string
  rp_Metadata :: "(string \<times> meta) list"
  rp_RequestID :: string
  rp_OccurredAt :: int

record list_body =
  lb_Items :: "event_response list"
  lb_Count :: nat
  lb_Limit :: int
  lb_NextCursor :: string

datatype list_response = Listed list_body | Refused nat string string string string

definition EventPrefix :: string where "EventPrefix = ''evt''"

definition publicEventID :: "string \<Rightarrow> string" where
  "publicEventID uuid = (if uuid = [] then [] else Format EventPrefix uuid)"

definition newEventResponse :: "audit_record \<Rightarrow> event_response" where
  "newEventResponse r =
     \<lparr> rp_ID = publicEventID (au_ID r), rp_Event = au_EventType r,
       rp_Outcome = outcome_text (au_Outcome r),
       rp_Actor = \<lparr> rp_Type = actor_text (au_ActorType r), rp_Subject = au_ActorSubject r,
                    rp_Email = au_ActorEmail r, rp_ProjectID = au_ActorProjectID r,
                    rp_CredentialID = au_ActorCredentialID r \<rparr>,
       rp_Resource = (if au_ResourceType r \<noteq> [] \<or> au_ResourceID r \<noteq> []
                      then Some (au_ResourceType r, au_ResourceID r) else None),
       rp_ReasonCode = au_ReasonCode r, rp_Metadata = au_Metadata r,
       rp_RequestID = au_RequestID r, rp_OccurredAt = au_OccurredAt r \<rparr>"

definition newListEventsResponse :: "audit_page \<Rightarrow> int \<Rightarrow> list_body" where
  "newListEventsResponse page limit =
     \<lparr> lb_Items = map newEventResponse (ap_Items page), lb_Count = length (ap_Items page),
       lb_Limit = limit,
       lb_NextCursor = (case ap_NextCursor page of None \<Rightarrow> [] | Some c \<Rightarrow> encodeCursor c) \<rparr>"

definition appliedLimit :: "string \<Rightarrow> int" where
  "appliedLimit raw =
     (if raw = [] then defaultPageSize
      else case parseLimit raw of Inl _ \<Rightarrow> defaultPageSize | Inr n \<Rightarrow> n)"

definition aq_respondError :: "string \<Rightarrow> audit_error \<Rightarrow> list_response" where
  "aq_respondError rid e = Refused (ae_Status e) (ae_Code e) (ae_Message e) (ae_Field e) rid"

definition ListAudit :: "pg_types \<Rightarrow> string \<Rightarrow> string \<Rightarrow> list_params \<Rightarrow> world \<Rightarrow> list_response \<times> world" where
  "ListAudit pg rid workspace_id p w =
     (case Parse WorkspacePrefix workspace_id of
        Inl _ \<Rightarrow> (aq_respondError rid AqErrInvalidWorkspaceID, w)
      | Inr ws \<Rightarrow>
          (case list_query ws p of
             Inl e \<Rightarrow> (aq_respondError rid e, w)
           | Inr q \<Rightarrow>
               (case aur_List pg q w of
                  (Inl _, w') \<Rightarrow> (aq_respondError rid AqErrAuditUnavailable, w')
                | (Inr page, w') \<Rightarrow>
                    (Listed (newListEventsResponse page (appliedLimit (lp_Limit p))), w'))))"

end
