(* ===== verification/AuditPages.thy ===== *)
theory AuditPages
  imports AuditQuery
begin

text \<open>
  Following cursors. The locale \<open>cursor_store\<close> is the contract of a store that is
  read page by page behind a descending key; inside it, a client that follows
  cursors while rows come and go is shown to return, in order and without
  repetition, every row that was there all along. It is interpreted on the
  repository of \<^verbatim>\<open>internal/auditlog\<close> and carried to the endpoint.
\<close>

section \<open>The contract of a paged store\<close>

definition beyond :: "'k :: linorder option \<Rightarrow> 'k \<Rightarrow> bool" where
  "beyond k x \<longleftrightarrow> (case k of None \<Rightarrow> True | Some b \<Rightarrow> x < b)"

text \<open>The client: request \<open>i\<close> is answered from the state \<open>h i\<close>.\<close>

fun walk :: "('d \<Rightarrow> 'k option \<Rightarrow> 'r list \<times> bool) \<Rightarrow> ('r \<Rightarrow> 'k) \<Rightarrow> nat \<Rightarrow> (nat \<Rightarrow> 'd) \<Rightarrow> nat \<Rightarrow> 'k option \<Rightarrow> 'r list option" where
  "walk fetch key 0 h i k = None"
| "walk fetch key (Suc n) h i k =
     (let (items, more) = fetch (h i) k in
      if more then map_option ((@) items) (walk fetch key n h (Suc i) (Some (key (last items))))
      else Some items)"

locale cursor_store =
  fixes fetch :: "'d \<Rightarrow> ('k :: linorder) option \<Rightarrow> 'r list \<times> bool"
    and key :: "'r \<Rightarrow> 'k"
    and rows :: "'d \<Rightarrow> 'r set"
    and valid :: "'d \<Rightarrow> bool"
  assumes items_sorted: "valid d \<Longrightarrow> sorted_wrt (\<lambda>a b. key b < key a) (fst (fetch d k))"
    and items_rows: "valid d \<Longrightarrow> r \<in> set (fst (fetch d k)) \<Longrightarrow> r \<in> rows d \<and> beyond k (key r)"
    and items_complete: "valid d \<Longrightarrow> r \<in> rows d \<Longrightarrow> beyond k (key r) \<Longrightarrow> r \<notin> set (fst (fetch d k)) \<Longrightarrow>
      snd (fetch d k) \<and> key r < key (last (fst (fetch d k)))"
    and more_items: "valid d \<Longrightarrow> snd (fetch d k) \<Longrightarrow> fst (fetch d k) \<noteq> []"
begin

lemma fetch_last:
  assumes "valid d" and "snd (fetch d k)" and "r \<in> set (fst (fetch d k))"
  shows "key (last (fst (fetch d k))) \<le> key r"
proof -
  define items where "items = fst (fetch d k)"
  have "items \<noteq> []" using more_items assms(1,2) by (simp add: items_def)
  then obtain ys y where "items = ys @ [y]" by (metis append_butlast_last_id)
  with items_sorted [OF assms(1), of k] assms(3) show ?thesis
    by (auto simp: items_def [symmetric] sorted_wrt_append less_imp_le)
qed

lemma walk_spec:
  assumes valid: "\<And>i. valid (h i)" and "walk fetch key n h i k = Some out"
  shows "sorted_wrt (\<lambda>a b. key b < key a) out \<and>
    (\<forall>r \<in> set out. beyond k (key r) \<and> (\<exists>j \<ge> i. r \<in> rows (h j))) \<and>
    (\<forall>r. beyond k (key r) \<and> (\<forall>j \<ge> i. r \<in> rows (h j)) \<longrightarrow> r \<in> set out)"
  using assms(2)
proof (induction n arbitrary: i k out)
  case (Suc n)
  define items more where "items = fst (fetch (h i) k)" and "more = snd (fetch (h i) k)"
  have fetch: "fetch (h i) k = (items, more)" by (simp add: items_def more_def)
  have sorted: "sorted_wrt (\<lambda>a b. key b < key a) items"
    using items_sorted [OF valid] by (simp add: items_def)
  have rows: "\<And>r. r \<in> set items \<Longrightarrow> r \<in> rows (h i) \<and> beyond k (key r)"
    using items_rows [OF valid] by (simp add: items_def)
  have complete: "\<And>r. r \<in> rows (h i) \<Longrightarrow> beyond k (key r) \<Longrightarrow> r \<notin> set items \<Longrightarrow> more \<and> key r < key (last items)"
    using items_complete [OF valid] by (simp add: items_def more_def)
  show ?case
  proof (cases more)
    case False
    with Suc.prems fetch have "out = items" by simp
    with sorted rows complete False show ?thesis by auto
  next
    case True
    with Suc.prems fetch obtain rest where
      rest: "walk fetch key n h (Suc i) (Some (key (last items))) = Some rest" and out: "out = items @ rest"
      by auto
    note IH = Suc.IH [OF rest]
    have nonempty: "items \<noteq> []" using more_items [OF valid] True by (simp add: items_def more_def)
    have last: "\<And>r. r \<in> set items \<Longrightarrow> key (last items) \<le> key r"
      using fetch_last [OF valid] True by (simp add: items_def more_def)
    have later: "key r < key a" if "r \<in> set rest" "a \<in> set items" for r a
    proof -
      from IH that(1) have "key r < key (last items)" by (auto simp: beyond_def)
      with last [OF that(2)] show ?thesis by simp
    qed
    have deep: "beyond k (key r)" if "r \<in> set rest" for r
    proof -
      from later [OF that last_in_set [OF nonempty]] rows [OF last_in_set [OF nonempty]]
      show ?thesis by (auto simp: beyond_def split: option.splits)
    qed
    have all: "r \<in> set out" if "beyond k (key r)" and there: "\<And>j. j \<ge> i \<Longrightarrow> r \<in> rows (h j)" for r
    proof (cases "r \<in> set items")
      case False
      with complete [of r] that have "key r < key (last items)" by simp
      with IH there show ?thesis by (simp add: out beyond_def)
    qed (simp add: out)
    have "\<exists>j \<ge> i. r \<in> rows (h j)" if "r \<in> set out" for r
    proof (cases "r \<in> set items")
      case True
      with rows show ?thesis by blast
    next
      case False
      with that IH obtain j where "j \<ge> Suc i" "r \<in> rows (h j)" by (auto simp: out)
      then show ?thesis by (meson Suc_leD)
    qed
    with IH sorted rows later deep all show ?thesis
      by (auto simp: out sorted_wrt_append)
  qed
qed simp

lemma walk_returns:
  assumes valid: "\<And>i. valid (h i)" and bounded: "\<And>i. rows (h i) \<subseteq> D" and fin: "finite D"
    and "card {r \<in> D. beyond k (key r)} < n"
  shows "\<exists>out. walk fetch key n h i k = Some out"
  using assms(4)
proof (induction n arbitrary: i k)
  case (Suc n)
  define items more where "items = fst (fetch (h i) k)" and "more = snd (fetch (h i) k)"
  have fetch: "fetch (h i) k = (items, more)" by (simp add: items_def more_def)
  show ?case
  proof (cases more)
    case True
    then have "last items \<in> set items"
      using more_items [OF valid] by (simp add: items_def more_def)
    then have l: "last items \<in> D" "beyond k (key (last items))"
      using items_rows [OF valid] bounded by (fastforce simp: items_def)+
    then have "{r \<in> D. beyond (Some (key (last items))) (key r)} \<subset> {r \<in> D. beyond k (key r)}"
      by (auto simp: beyond_def split: option.splits)
    then have "card {r \<in> D. beyond (Some (key (last items))) (key r)} < card {r \<in> D. beyond k (key r)}"
      using fin by (intro psubset_card_mono) auto
    with Suc.prems have "card {r \<in> D. beyond (Some (key (last items))) (key r)} < n" by simp
    from Suc.IH [OF this] True show ?thesis by (auto simp: fetch)
  qed (simp add: fetch)
qed simp

end

section \<open>The repository as a paged store\<close>

definition repo_fetch :: "audit_query \<Rightarrow> nat \<Rightarrow> db \<Rightarrow> (int \<times> string) option \<Rightarrow> audit_record list \<times> bool" where
  "repo_fetch q limit d k =
     (let rows = newest_first (filter (\<lambda>r. filters_match q r \<and> beyond k (row_key r)) (db_audit d));
          page = page_of limit (take (limit + 1) rows)
      in (ap_Items page, ap_NextCursor page \<noteq> None))"

definition distinct_event_ids :: "db \<Rightarrow> bool" where
  "distinct_event_ids d \<longleftrightarrow> distinct (map au_ID (db_audit d))"

lemma set_newest_first [simp]: "set (newest_first rows) = set rows"
  by (simp add: newest_first_def)

lemma length_newest_first [simp]: "length (newest_first rows) = length rows"
  by (simp add: newest_first_def)

lemma row_key_less: "row_key a < row_key b \<longleftrightarrow>
    au_OccurredAt a < au_OccurredAt b \<or> au_OccurredAt a = au_OccurredAt b \<and> au_ID a < au_ID b"
  by (auto simp: row_key_def less_prod_def)

lemma sorted_wrt_weaken:
  assumes "sorted_wrt P xs" and "distinct xs" and "\<And>a b. a \<in> set xs \<Longrightarrow> b \<in> set xs \<Longrightarrow> a \<noteq> b \<Longrightarrow> P a b \<Longrightarrow> Q a b"
  shows "sorted_wrt Q xs"
  using assms by (induction xs) auto

lemma newest_first_strict:
  assumes "distinct (map au_ID rows)"
  shows "sorted_wrt (\<lambda>a b. row_key b < row_key a) (newest_first rows)"
proof (rule sorted_wrt_weaken)
  have "sorted (map row_key (sort_key row_key rows))" by simp
  then show "sorted_wrt (\<lambda>a b. row_key b \<le> row_key a) (newest_first rows)"
    by (simp add: newest_first_def sorted_wrt_rev sorted_map)
  show "distinct (newest_first rows)"
    using assms by (simp add: newest_first_def distinct_map)
  fix a b assume "a \<in> set (newest_first rows)" "b \<in> set (newest_first rows)" "a \<noteq> b" "row_key b \<le> row_key a"
  moreover from this assms have "au_ID a \<noteq> au_ID b" by (auto simp: distinct_map inj_on_def)
  ultimately show "row_key b < row_key a" by (metis order_le_less row_key_def prod.inject)
qed

lemma page_take:
  "ap_Items (page_of (Suc n) (take (Suc n + 1) rows)) = take (Suc n) rows"
  "ap_NextCursor (page_of (Suc n) (take (Suc n + 1) rows)) =
     (if length rows > Suc n
      then Some \<lparr> cu_OccurredAt = au_OccurredAt (last (take (Suc n) rows)), cu_ID = au_ID (last (take (Suc n) rows)) \<rparr>
      else None)"
  by (auto simp: page_of_def Let_def min_def not_less)

interpretation audit_pages: cursor_store "repo_fetch q (Suc n)" row_key
    "\<lambda>d. {r \<in> set (db_audit d). filters_match q r}" distinct_event_ids for q n
proof
  fix d k r
  assume valid: "distinct_event_ids d"
  define rows where "rows = newest_first (filter (\<lambda>r. filters_match q r \<and> beyond k (row_key r)) (db_audit d))"
  have fetch: "fst (repo_fetch q (Suc n) d k) = take (Suc n) rows"
    "snd (repo_fetch q (Suc n) d k) \<longleftrightarrow> length rows > Suc n"
    using page_take [of n rows] by (simp_all add: repo_fetch_def rows_def [symmetric] Let_def)
  have sorted: "sorted_wrt (\<lambda>a b. row_key b < row_key a) rows"
    using valid by (simp add: rows_def distinct_event_ids_def newest_first_strict distinct_map_filter)
  have split: "sorted_wrt (\<lambda>a b. row_key b < row_key a) (take (Suc n) rows @ drop (Suc n) rows)"
    using sorted by simp
  show "sorted_wrt (\<lambda>a b. row_key b < row_key a) (fst (repo_fetch q (Suc n) d k))"
    using sorted by (simp add: fetch sorted_wrt_take)
  show "r \<in> {r \<in> set (db_audit d). filters_match q r} \<and> beyond k (row_key r)"
    if "r \<in> set (fst (repo_fetch q (Suc n) d k))"
    using that in_set_takeD [of r "Suc n" rows] by (simp add: fetch rows_def)
  show "fst (repo_fetch q (Suc n) d k) \<noteq> []" if "snd (repo_fetch q (Suc n) d k)"
    using that by (auto simp: fetch)
  show "snd (repo_fetch q (Suc n) d k) \<and> row_key r < row_key (last (fst (repo_fetch q (Suc n) d k)))"
    if "r \<in> {r \<in> set (db_audit d). filters_match q r}" and "beyond k (row_key r)"
      and out: "r \<notin> set (fst (repo_fetch q (Suc n) d k))"
  proof -
    from that have "r \<in> set rows" by (simp add: rows_def)
    then have "r \<in> set (take (Suc n) rows) \<union> set (drop (Suc n) rows)"
      by (metis append_take_drop_id set_append)
    with out have r: "r \<in> set (drop (Suc n) rows)" by (simp add: fetch)
    then have long: "length rows > Suc n" by (metis drop_all empty_iff list.set(1) not_less)
    then have "last (take (Suc n) rows) \<in> set (take (Suc n) rows)" by (intro last_in_set) auto
    with split r have "row_key r < row_key (last (take (Suc n) rows))" unfolding sorted_wrt_append by blast
    with long show ?thesis by (simp add: fetch)
  qed
qed


section \<open>Following the cursors of the endpoint\<close>

text \<open>What the table always holds, and that the write side keeps it so.\<close>

definition audit_table_ok :: "db \<Rightarrow> bool" where
  "audit_table_ok d \<longleftrightarrow> distinct_event_ids d \<and>
     (\<forall>r \<in> set (db_audit d). canonical (au_ID r) \<and>
        - (2 ^ 63) \<le> au_OccurredAt r \<and> au_OccurredAt r < 2 ^ 63)"

lemma toRecord_facts:
  "toRecord u is_ip rnd now e = Some r \<Longrightarrow>
     New rnd = Inr (au_ID r) \<and> au_OccurredAt r = (case ea_Timestamp e of None \<Rightarrow> now | Some t \<Rightarrow> t)"
  by (auto simp: toRecord_def split: sum.splits option.splits)

lemma RecordTx_audit_table_ok:
  assumes "audit_table_ok (w_db w)" and "RecordTx en e w = (Inr x, w')" and "\<And>bs. en_rnd en = Inr bs \<Longrightarrow> length bs = 16"
    and "\<And>t. t = (case ea_Timestamp e of None \<Rightarrow> en_now en | Some t \<Rightarrow> t) \<Longrightarrow> - (2 ^ 63) \<le> t \<and> t < 2 ^ 63"
  shows "audit_table_ok (w_db w')"
proof -
  from assms(2) obtain r where r: "toRecord (en_u en) (en_is_ip en) (en_rnd en) (en_now en) e = Some r"
    and ins: "insert_audit r w = (Inr x, w')"
    by (auto simp: RecordTx_def fail_def split: option.splits)
  note db = insert_audit_Inr [OF ins]
  from toRecord_facts [OF r] have new: "New (en_rnd en) = Inr (au_ID r)" by simp
  then obtain bs where "en_rnd en = Inr bs" by (cases "en_rnd en") (auto simp: New_def)
  with new have "au_ID r = uuid_of_bytes (stamp_v4 bs)" by (simp add: New_eq)
  moreover have "length (stamp_v4 bs) = 16"
    using assms(3) \<open>en_rnd en = Inr bs\<close> by (simp add: stamp_v4_def)
  ultimately have "canonical (au_ID r)" by (simp add: uuid_of_bytes_canonical)
  with assms(1,4) db toRecord_facts [OF r] show ?thesis
    by (simp add: audit_table_ok_def distinct_event_ids_def audit_constraints_def)
qed

text \<open>A client asks again with the cursor of the last answer until there is none.
  Request \<open>i\<close> may find the world changed.\<close>

fun follow :: "nat \<Rightarrow> (nat \<Rightarrow> string \<Rightarrow> list_response) \<Rightarrow> nat \<Rightarrow> string \<Rightarrow> event_response list option" where
  "follow 0 req i cur = None"
| "follow (Suc n) req i cur =
     (case req i cur of
        Refused _ _ _ _ _ \<Rightarrow> None
      | Listed b \<Rightarrow>
          if lb_NextCursor b = [] then Some (lb_Items b)
          else map_option ((@) (lb_Items b)) (follow n req (Suc i) (lb_NextCursor b)))"

definition list_request ::
  "pg_types \<Rightarrow> string \<Rightarrow> string \<Rightarrow> list_params \<Rightarrow> (nat \<Rightarrow> world) \<Rightarrow> nat \<Rightarrow> string \<Rightarrow> list_response" where
  "list_request pg rid workspace_id p h i cur =
     fst (ListAudit pg rid workspace_id (p\<lparr> lp_Cursor := cur \<rparr>) (h i))"

definition key_cursor :: "int \<times> string \<Rightarrow> audit_cursor" where
  "key_cursor k = \<lparr> cu_OccurredAt = fst k, cu_ID = snd k \<rparr>"

definition cursor_text :: "(int \<times> string) option \<Rightarrow> string" where
  "cursor_text k = (case k of None \<Rightarrow> [] | Some b \<Rightarrow> encodeCursor (key_cursor b))"

lemma encodeCursor_Nil [simp]: "encodeCursor c \<noteq> []"
  by (simp add: encodeCursor_def)

lemma decode_encode:
  assumes "- (2 ^ 63) \<le> cu_OccurredAt c" and "cu_OccurredAt c < 2 ^ 63" and "cu_ID c \<noteq> []" and "length (cu_ID c) \<le> 64"
  shows "decodeCursor (encodeCursor c) = Some c"
proof -
  have "cut_at cursorSeparator (FormatInt (UnixNano (cu_OccurredAt c)) @ cursorSeparator # cu_ID c)
      = Some (FormatInt (UnixNano (cu_OccurredAt c)), cu_ID c)"
    using FormatInt_no_dot by (intro cut_append) (simp add: cursorSeparator_def)
  moreover have "ParseInt (FormatInt (UnixNano (cu_OccurredAt c))) = Some (cu_OccurredAt c)"
    unfolding UnixNano_def wrap64_id [OF assms(1,2)] by (rule ParseInt_FormatInt [OF assms(1,2)])
  ultimately show ?thesis
    using assms(3,4) by (simp add: decodeCursor_def encodeCursor_def RawURL_round_trip)
qed

lemma after_match_beyond:
  "after_match (fst b) (snd b) r \<longleftrightarrow> beyond (Some b) (row_key r)"
  by (cases b) (auto simp: after_match_def beyond_def row_key_def less_prod_def)

lemma list_query_cursor:
  assumes "list_query ws (p\<lparr> lp_Cursor := [] \<rparr>) = Inr q" and "cursor_param cur = Inr c"
  shows "list_query ws (p\<lparr> lp_Cursor := cur \<rparr>) = Inr (q\<lparr> aq_After := c \<rparr>)"
  using assms unfolding list_query_def by (auto simp: cursor_param_def)

lemma filters_match_after [simp]: "filters_match (q\<lparr> aq_After := c \<rparr>) = filters_match q"
  by (rule ext) (simp add: filters_match_def)

definition good_key :: "(int \<times> string) option \<Rightarrow> bool" where
  "good_key k \<longleftrightarrow> (\<forall>b. k = Some b \<longrightarrow> - (2 ^ 63) \<le> fst b \<and> fst b < 2 ^ 63 \<and> canonical (snd b))"

lemma cursor_param_text:
  assumes "good_key k"
  shows "cursor_param (cursor_text k) = Inr (map_option key_cursor k)"
proof (cases k)
  case (Some b)
  with assms have "decodeCursor (encodeCursor (key_cursor b)) = Some (key_cursor b)"
    by (intro decode_encode) (auto simp: good_key_def key_cursor_def canonical_def)
  with Some show ?thesis by (simp add: cursor_param_def cursor_text_def)
qed (simp add: cursor_param_def cursor_text_def)

text \<open>One request is one page of the repository.\<close>

lemma listQuery_key:
  assumes "aq_EventType q \<noteq> [] \<Longrightarrow> pgt_text pg (aq_EventType q)"
    and "\<And>i. canonical i \<Longrightarrow> pgt_uuid pg i = Some i" and "good_key k"
  shows "listQuery pg (q\<lparr> aq_After := map_option key_cursor k \<rparr>) d =
     Some (filter (\<lambda>r. filters_match q r \<and> beyond k (row_key r)) (db_audit d))"
proof (cases k)
  case (Some b)
  with assms have "pgt_uuid pg (snd b) = Some (snd b)" by (simp add: good_key_def)
  with assms(1) Some show ?thesis
    by (auto simp: listQuery_def key_cursor_def after_match_beyond)
qed (use assms(1) in \<open>auto simp: listQuery_def beyond_def\<close>)

lemma list_query_fields:
  assumes "list_query ws p = Inr q"
  shows "aq_WorkspaceID q = ws \<and> aq_EventType q = lp_EventType p \<and> aq_Limit q = appliedLimit (lp_Limit p) \<and>
    1 \<le> aq_Limit q \<and> aq_Limit q \<le> 200"
  using assms unfolding list_query_def
  by (auto simp: appliedLimit_def parseLimit_def defaultPageSize_def maxPageSize_def
      split: if_splits option.splits)

lemma aur_List_key:
  assumes "aq_WorkspaceID q \<noteq> []" and "aq_Limit q = int (Suc n)" and "w_faults w = []"
    and "listQuery pg q (w_db w) = Some (filter (\<lambda>r. filters_match q r \<and> beyond k (row_key r)) (db_audit (w_db w)))"
  shows "\<exists>page. aur_List pg q w = (Inr page, w) \<and> repo_fetch q (Suc n) (w_db w) k = (ap_Items page, ap_NextCursor page \<noteq> None) \<and>
    (ap_NextCursor page \<noteq> None \<longrightarrow> ap_NextCursor page = Some (key_cursor (row_key (last (ap_Items page)))))"
proof -
  define rows where "rows = newest_first (filter (\<lambda>r. filters_match q r \<and> beyond k (row_key r)) (db_audit (w_db w)))"
  define page where "page = page_of (Suc n) (take (Suc n + 1) rows)"
  have "aur_List pg q w = (Inr page, w)"
    using assms
    by (simp add: aur_List_def andThen_def stmt_no_faults ret_def page_def rows_def Let_def nat_add_distrib
        del: of_nat_Suc)
  moreover have "repo_fetch q (Suc n) (w_db w) k = (ap_Items page, ap_NextCursor page \<noteq> None)"
    by (simp add: repo_fetch_def Let_def page_def rows_def)
  moreover have "ap_NextCursor page \<noteq> None \<longrightarrow> ap_NextCursor page = Some (key_cursor (row_key (last (ap_Items page))))"
    unfolding page_def page_take by (simp add: key_cursor_def row_key_def)
  ultimately show ?thesis by blast
qed

text \<open>What a listing needs: a parsable workspace and query, parameters the database
  takes, and a database that answers.\<close>

definition listing_ready :: "pg_types \<Rightarrow> string \<Rightarrow> list_params \<Rightarrow> audit_query \<Rightarrow> (nat \<Rightarrow> world) \<Rightarrow> bool" where
  "listing_ready pg workspace_id p q h \<longleftrightarrow>
     (\<exists>ws. Parse WorkspacePrefix workspace_id = Inr ws \<and> ws \<noteq> [] \<and> list_query ws (p\<lparr> lp_Cursor := [] \<rparr>) = Inr q) \<and>
     (lp_EventType p \<noteq> [] \<longrightarrow> pgt_text pg (lp_EventType p)) \<and>
     (\<forall>i. canonical i \<longrightarrow> pgt_uuid pg i = Some i) \<and>
     (\<forall>i. w_faults (h i) = [] \<and> audit_table_ok (w_db (h i)))"

lemma repo_fetch_key:
  assumes "audit_table_ok d" and "repo_fetch q (Suc n) d k = (items, True)"
  shows "good_key (Some (row_key (last items)))"
proof -
  have "distinct_event_ids d" using assms(1) by (simp add: audit_table_ok_def)
  then have "last items \<in> set items"
    using audit_pages.more_items [of d q n k] assms(2) by simp
  then have "last items \<in> set (db_audit d)"
    using audit_pages.items_rows [OF \<open>distinct_event_ids d\<close>, of "last items" q n k] assms(2) by simp
  with assms(1) show ?thesis by (simp add: audit_table_ok_def good_key_def row_key_def)
qed

lemma follow_walk:
  assumes ready: "listing_ready pg workspace_id p q h" and n: "aq_Limit q = int (Suc n)" and "good_key k"
  shows "follow m (list_request pg rid workspace_id p h) i (cursor_text k) =
     map_option (map newEventResponse) (walk (repo_fetch q (Suc n)) row_key m (\<lambda>i. w_db (h i)) i k)"
  using assms(3)
proof (induction m arbitrary: i k)
  case (Suc m)
  from ready obtain ws where ws: "Parse WorkspacePrefix workspace_id = Inr ws" "ws \<noteq> []"
    "list_query ws (p\<lparr> lp_Cursor := [] \<rparr>) = Inr q"
    and typed: "lp_EventType p \<noteq> [] \<Longrightarrow> pgt_text pg (lp_EventType p)"
    and uuid: "\<And>i. canonical i \<Longrightarrow> pgt_uuid pg i = Some i"
    and h: "w_faults (h i) = []" "audit_table_ok (w_db (h i))"
    unfolding listing_ready_def by blast
  define q' where "q' = q\<lparr> aq_After := map_option key_cursor k \<rparr>"
  have q': "list_query ws (p\<lparr> lp_Cursor := cursor_text k \<rparr>) = Inr q'"
    unfolding q'_def by (rule list_query_cursor [OF ws(3) cursor_param_text [OF Suc.prems]])
  note f = list_query_fields [OF q']
  have "listQuery pg q' (w_db (h i)) = Some (filter (\<lambda>r. filters_match q' r \<and> beyond k (row_key r)) (db_audit (w_db (h i))))"
    using listQuery_key [OF _ uuid Suc.prems, of q "w_db (h i)"] typed f by (simp add: q'_def)
  from aur_List_key [OF _ _ h(1) this] f ws(2) n obtain page where
    page: "aur_List pg q' (h i) = (Inr page, h i)"
    and fetch: "repo_fetch q' (Suc n) (w_db (h i)) k = (ap_Items page, ap_NextCursor page \<noteq> None)"
    and cur: "ap_NextCursor page \<noteq> None \<longrightarrow> ap_NextCursor page = Some (key_cursor (row_key (last (ap_Items page))))"
    by (auto simp: q'_def)
  have fetch': "repo_fetch q (Suc n) (w_db (h i)) k = (ap_Items page, ap_NextCursor page \<noteq> None)"
    using fetch by (simp add: q'_def repo_fetch_def)
  have req: "list_request pg rid workspace_id p h i (cursor_text k) =
      Listed (newListEventsResponse page (appliedLimit (lp_Limit p)))"
    using page by (simp add: list_request_def ListAudit_def ws(1) q')
  show ?case
  proof (cases "ap_NextCursor page")
    case None
    with req fetch' show ?thesis by (simp add: newListEventsResponse_def)
  next
    case (Some c)
    define k' where "k' = Some (row_key (last (ap_Items page)))"
    have "lb_NextCursor (newListEventsResponse page (appliedLimit (lp_Limit p))) = cursor_text k'"
      using Some cur by (simp add: newListEventsResponse_def cursor_text_def k'_def)
    moreover have "good_key k'"
      using repo_fetch_key [OF h(2)] fetch' Some by (simp add: k'_def)
    ultimately show ?thesis
      using req fetch' Some Suc.IH [of k' "Suc i"]
      by (simp add: newListEventsResponse_def k'_def cursor_text_def option.map_comp comp_def)
  qed
qed simp

section \<open>What a reader can see\<close>

lemma sort_key_map:
  assumes "\<And>x. k (f x) = k x" shows "sort_key k (map f xs) = map f (sort_key k xs)"
proof -
  have "insort_key k (f x) (map f ys) = map f (insort_key k x ys)" for x ys
    by (induction ys) (simp_all add: assms)
  then show ?thesis by (induction xs) simp_all
qed

definition without_ip :: "audit_record \<Rightarrow> audit_record" where
  "without_ip r = r\<lparr> au_SourceIP := [] \<rparr>"

definition visible_rows :: "string \<Rightarrow> db \<Rightarrow> audit_record list" where
  "visible_rows ws d = map without_ip (filter (\<lambda>r. au_WorkspaceID r = ws) (db_audit d))"

lemma without_ip_facts [simp]:
  "row_key (without_ip r) = row_key r"
  "filters_match q (without_ip r) = filters_match q r"
  "after_match at i (without_ip r) = after_match at i r"
  "newEventResponse (without_ip r) = newEventResponse r"
  "au_OccurredAt (without_ip r) = au_OccurredAt r" "au_ID (without_ip r) = au_ID r"
  "au_WorkspaceID (without_ip r) = au_WorkspaceID r"
  by (simp_all add: without_ip_def row_key_def filters_match_def after_match_def newEventResponse_def)

lemma newest_first_without_ip: "newest_first (map without_ip rows) = map without_ip (newest_first rows)"
  by (simp add: newest_first_def sort_key_map rev_map)

lemma page_of_without_ip:
  "newListEventsResponse (page_of n (map without_ip rows)) l = newListEventsResponse (page_of n rows) l"
  by (auto simp: page_of_def Let_def newListEventsResponse_def take_map last_map comp_def)

lemma filter_visible:
  assumes "\<And>r. P r \<Longrightarrow> au_WorkspaceID r = ws" and "\<And>r. P (without_ip r) = P r"
  shows "filter P (visible_rows ws d) = map without_ip (filter P (db_audit d))"
proof -
  have "filter P (filter (\<lambda>r. au_WorkspaceID r = ws) rows) = filter P rows" for rows
    using assms(1) by (induction rows) auto
  then show ?thesis by (simp add: visible_rows_def filter_map comp_def assms(2))
qed

text \<open>The query over the visible rows in place of the table.\<close>

lemma listQuery_visible:
  "listQuery pg q (d\<lparr> db_audit := visible_rows (aq_WorkspaceID q) d \<rparr>) =
     map_option (map without_ip) (listQuery pg q d)"
proof -
  have ws: "\<And>r. filters_match q r \<Longrightarrow> au_WorkspaceID r = aq_WorkspaceID q" by (simp add: filters_match_def)
  note a = filter_visible [of "filters_match q" "aq_WorkspaceID q" d, OF ws without_ip_facts(2)]
  have "filter (\<lambda>r. filters_match q r \<and> after_match at i r) (visible_rows (aq_WorkspaceID q) d) =
      map without_ip (filter (\<lambda>r. filters_match q r \<and> after_match at i r) (db_audit d))" for at i
    by (rule filter_visible) (simp_all add: ws)
  with a show ?thesis by (auto simp: listQuery_def split: option.splits)
qed

lemma listQuery_same:
  assumes "visible_rows (aq_WorkspaceID q) d1 = visible_rows (aq_WorkspaceID q) d2"
  shows "map_option (map without_ip) (listQuery pg q d1) = map_option (map without_ip) (listQuery pg q d2)"
proof -
  have "listQuery pg q (d\<lparr> db_audit := x \<rparr>) = listQuery pg q (d'\<lparr> db_audit := x \<rparr>)" for d d' :: db and x
    by (auto simp: listQuery_def split: option.splits)
  then show ?thesis by (metis assms listQuery_visible)
qed

text \<open>What the endpoint answers, as a function of the statement's result.\<close>

definition answer :: "string \<Rightarrow> list_params \<Rightarrow> audit_query \<Rightarrow> audit_record list option \<Rightarrow> list_response" where
  "answer rid p q result =
     (case result of
        None \<Rightarrow> aq_respondError rid AqErrAuditUnavailable
      | Some rows \<Rightarrow>
          Listed (newListEventsResponse (page_of (nat (aq_Limit q)) (take (nat (aq_Limit q) + 1) (newest_first rows)))
            (appliedLimit (lp_Limit p))))"

lemma answer_without_ip: "answer rid p q (map_option (map without_ip) r) = answer rid p q r"
  by (auto simp: answer_def newest_first_without_ip take_map page_of_without_ip split: option.splits)

lemma ListAudit_answer:
  assumes "Parse WorkspacePrefix workspace_id = Inr ws" and "ws \<noteq> []" and "list_query ws p = Inr q"
  shows "ListAudit pg rid workspace_id p w =
    (if fst (next_fault w) then aq_respondError rid AqErrAuditUnavailable
     else answer rid p q (listQuery pg q (w_db w)), snd (next_fault w))"
proof -
  note f = list_query_fields [OF assms(3)]
  obtain b w1 where nf: "next_fault w = (b, w1)" by fastforce
  then have "w_db w1 = w_db w" by simp
  with nf f assms show ?thesis
    by (cases b) (auto simp: ListAudit_def aur_List_def answer_def andThen_def stmt_def ret_def Let_def
        split: option.splits)
qed

section \<open>Retention\<close>

lemma Purge_spec:
  assumes "Purge now retention w = (r, w')"
  shows "\<exists>kept. w_db w' = w_db w\<lparr> db_audit := kept \<rparr> \<and>
    (kept = db_audit (w_db w) \<or> 0 < retention \<and> kept = filter (\<lambda>a. now - retention \<le> au_OccurredAt a) (db_audit (w_db w)))"
proof (cases "retention \<le> 0")
  case False
  with assms have s: "DeleteOlderThan (now - retention) w = (r, w')" by (simp add: Purge_def)
  show ?thesis
  proof (cases r)
    case (Inl e)
    with s have "w_db w' = w_db w" unfolding DeleteOlderThan_def by (auto dest: stmt_Inl)
    then show ?thesis by (intro exI [of _ "db_audit (w_db w)"]) simp
  next
    case (Inr x)
    with s have "w_db w' = w_db w\<lparr> db_audit := filter (\<lambda>a. now - retention \<le> au_OccurredAt a) (db_audit (w_db w)) \<rparr>"
      unfolding DeleteOlderThan_def by (auto simp: not_less dest!: stmt_Inr)
    with False show ?thesis by auto
  qed
qed (use assms in \<open>auto simp: Purge_def ret_def intro: exI [of _ "db_audit (w_db w)"]\<close>)

lemma Purge_no_faults:
  assumes "w_faults w = []" and "0 < retention"
  shows "snd (Purge now retention w) = w\<lparr> w_db := w_db w\<lparr> db_audit := filter (\<lambda>a. now - retention \<le> au_OccurredAt a) (db_audit (w_db w)) \<rparr> \<rparr>"
  using assms by (simp add: Purge_def DeleteOlderThan_def stmt_no_faults not_less)

lemma sweeps_spec:
  "\<exists>kept. w_db (fold (sweepAudit retention) ticks w) = w_db w\<lparr> db_audit := kept \<rparr> \<and> set kept \<subseteq> set (db_audit (w_db w)) \<and>
     (\<forall>a \<in> set (db_audit (w_db w)). a \<in> set kept \<or> (\<exists>t \<in> set ticks. 0 < retention \<and> au_OccurredAt a < t - retention))"
proof (induction ticks arbitrary: w)
  case (Cons t ticks)
  define w1 where "w1 = sweepAudit retention t w"
  then have "Purge t retention w = (fst (Purge t retention w), w1)" by (simp add: sweepAudit_def)
  from Purge_spec [OF this] obtain kept1 where 1: "w_db w1 = w_db w\<lparr> db_audit := kept1 \<rparr>"
    "kept1 = db_audit (w_db w) \<or> 0 < retention \<and> kept1 = filter (\<lambda>a. t - retention \<le> au_OccurredAt a) (db_audit (w_db w))"
    by blast
  from Cons [of w1] 1(1) obtain kept where 2: "w_db (fold (sweepAudit retention) ticks w1) = w_db w\<lparr> db_audit := kept \<rparr>"
    "set kept \<subseteq> set kept1"
    "\<forall>a \<in> set kept1. a \<in> set kept \<or> (\<exists>t \<in> set ticks. 0 < retention \<and> au_OccurredAt a < t - retention)"
    by auto
  have "set kept \<subseteq> set (db_audit (w_db w))" using 1(2) 2(2) by auto
  moreover have "\<forall>a \<in> set (db_audit (w_db w)). a \<in> set kept \<or> (\<exists>s \<in> set (t # ticks). 0 < retention \<and> au_OccurredAt a < s - retention)"
    using 1(2) 2(3) by (auto simp: not_le)
  ultimately show ?case using 2(1) by (auto simp: w1_def)
next
  case Nil
  show ?case by (rule exI [of _ "db_audit (w_db w)"]) simp
qed

lemma sweeps_no_faults:
  assumes "w_faults w = []" and "0 < retention"
  shows "db_audit (w_db (fold (sweepAudit retention) ticks w)) =
    filter (\<lambda>a. \<forall>t \<in> set ticks. t - retention \<le> au_OccurredAt a) (db_audit (w_db w))"
  using assms(1)
proof (induction ticks arbitrary: w)
  case (Cons t ticks)
  from Purge_no_faults [OF Cons.prems assms(2)] Cons.prems Cons.IH show ?case
    by (simp add: sweepAudit_def conj_commute)
qed simp

definition inverted_range :: "list_params \<Rightarrow> bool" where
  "inverted_range p =
     (case (parseTime (lp_From p), parseTime (lp_To p)) of
        (Some a, Some b) \<Rightarrow> lp_From p \<noteq> [] \<and> lp_To p \<noteq> [] \<and> a \<noteq> zero_time \<and> b \<noteq> zero_time \<and> b < a
      | _ \<Rightarrow> False)"

text \<open>The parameters that are out of their domain, in the order they are looked at.\<close>

definition offences :: "list_params \<Rightarrow> string list" where
  "offences p =
     map fst (filter snd
       [(''limit'', lp_Limit p \<noteq> [] \<and> (case ParseInt (trim_space (lp_Limit p)) of None \<Rightarrow> True | Some n \<Rightarrow> n < 1 \<or> n > 200)),
        (''event'', length (lp_EventType p) > 100),
        (''actor_type'', lp_ActorType p \<notin> set [[], ''operator'', ''project'']),
        (''outcome'', lp_Outcome p \<notin> set [[], ''success'', ''failure'']),
        (''from'', lp_From p \<noteq> [] \<and> parseTime (lp_From p) = None),
        (''to'', lp_To p \<noteq> [] \<and> parseTime (lp_To p) = None),
        (''from'', inverted_range p),
        (''cursor'', lp_Cursor p \<noteq> [] \<and> decodeCursor (lp_Cursor p) = None)])"

text \<open>Each check as a conditional.\<close>

lemma parseLimit_check:
  "parseLimit raw =
     (if raw \<noteq> [] \<and> (case ParseInt (trim_space raw) of None \<Rightarrow> True | Some n \<Rightarrow> n < 1 \<or> n > 200)
      then Inl (WithField ''limit'' AqErrInvalidFilter) else Inr (appliedLimit raw))"
  by (auto simp: parseLimit_def appliedLimit_def maxPageSize_def split: option.splits)

definition bound_value :: "string \<Rightarrow> int" where
  "bound_value raw = (if raw = [] then zero_time else the (parseTime raw))"

lemma time_bound_check:
  "time_bound field raw =
     (if raw \<noteq> [] \<and> parseTime raw = None then Inl (WithField field AqErrInvalidFilter) else Inr (bound_value raw))"
  by (auto simp: time_bound_def bound_value_def split: option.splits)

lemma cursor_param_check:
  "cursor_param raw =
     (if raw \<noteq> [] \<and> decodeCursor raw = None then Inl (WithField ''cursor'' AqErrInvalidFilter)
      else Inr (if raw = [] then None else decodeCursor raw))"
  by (auto simp: cursor_param_def split: option.splits)

lemma allowed_value_check:
  "allowed_value field vs v =
     (if v \<notin> set ([] # vs) then Inl (WithField field AqErrInvalidFilter) else Inr ())"
  by (auto simp: allowed_value_def guard_def)

lemma bind_check: "bind_result (if b then Inl e else Inr x) f = (if b then Inl e else f x)"
  by simp

lemma inverted_range_iff:
  "\<lbrakk>\<not> (lp_From p \<noteq> [] \<and> parseTime (lp_From p) = None); \<not> (lp_To p \<noteq> [] \<and> parseTime (lp_To p) = None)\<rbrakk> \<Longrightarrow>
     bound_value (lp_From p) \<noteq> zero_time \<and> bound_value (lp_To p) \<noteq> zero_time \<and> bound_value (lp_From p) > bound_value (lp_To p)
     \<longleftrightarrow> inverted_range p"
  by (auto simp: bound_value_def inverted_range_def split: option.splits)

lemma appliedLimit_range: "1 \<le> appliedLimit raw \<and> appliedLimit raw \<le> 200"
  by (auto simp: appliedLimit_def parseLimit_def defaultPageSize_def maxPageSize_def split: option.splits if_splits)

section \<open>Properties\<close>

text \<open>C10: A client that asks for a listing and follows the cursors it is given gets,
  newest first and without repetition, every matching row that was in the table
  throughout, and nothing but matching rows, however rows are added or purged
  between its requests; when the rows that ever match are fewer than the requests
  it is ready to make, it comes to an end.\<close>

theorem audit_history_enumerated:
  assumes "listing_ready pg workspace_id p q h"
    and "finite D" and "\<And>i. {r \<in> set (db_audit (w_db (h i))). filters_match q r} \<subseteq> D" and "card D < n"
  shows "\<exists>rows. follow n (list_request pg rid workspace_id p h) 0 [] = Some (map newEventResponse rows) \<and>
    sorted_wrt (\<lambda>a b. row_key b < row_key a) rows \<and>
    (\<forall>r \<in> set rows. filters_match q r \<and> (\<exists>i. r \<in> set (db_audit (w_db (h i))))) \<and>
    (\<forall>r. filters_match q r \<and> (\<forall>i. r \<in> set (db_audit (w_db (h i)))) \<longrightarrow> r \<in> set rows)"
proof -
  from assms(1) obtain ws where "list_query ws (p\<lparr> lp_Cursor := [] \<rparr>) = Inr q"
    and valid: "\<And>i. distinct_event_ids (w_db (h i))"
    unfolding listing_ready_def audit_table_ok_def by blast
  from list_query_fields [OF this(1)] obtain l where l: "aq_Limit q = int (Suc l)"
    by (metis Suc_pred' nat_0_le of_nat_0_less_iff zero_less_one order_less_le_trans less_le)
  have "card {r \<in> D. beyond None (row_key r)} < n" using assms(4) by (simp add: beyond_def)
  then obtain rows where w: "walk (repo_fetch q (Suc l)) row_key n (\<lambda>i. w_db (h i)) 0 None = Some rows"
    using audit_pages.walk_returns [of "\<lambda>i. w_db (h i)" q D None n l 0, OF valid assms(3,2)] by blast
  have "follow n (list_request pg rid workspace_id p h) 0 (cursor_text None) = Some (map newEventResponse rows)"
    using follow_walk [OF assms(1) l, of None] w by (simp add: good_key_def)
  with audit_pages.walk_spec [of "\<lambda>i. w_db (h i)", OF valid w] show ?thesis
    by (auto simp: cursor_text_def beyond_def)
qed

text \<open>C11: The answer to a listing depends only on the rows of the workspace named in
  the path, and on those only up to their source addresses: two databases that
  agree on them give the same response, and reading changes nothing.\<close>

theorem audit_list_isolated:
  assumes "Parse WorkspacePrefix workspace_id = Inr ws"
    and "visible_rows ws (w_db w1) = visible_rows ws (w_db w2)" and "w_faults w1 = w_faults w2"
  shows "fst (ListAudit pg rid workspace_id p w1) = fst (ListAudit pg rid workspace_id p w2) \<and>
    w_db (snd (ListAudit pg rid workspace_id p w1)) = w_db w1"
proof (cases "list_query ws p")
  case (Inl e)
  with assms(1) show ?thesis by (simp add: ListAudit_def)
next
  case (Inr q)
  have "ws \<noteq> []" using Parse_result(1) [OF assms(1)] canonical_nonempty by blast
  note a = ListAudit_answer [OF assms(1) this Inr]
  have "aq_WorkspaceID q = ws" using list_query_fields [OF Inr] by simp
  with assms(2) have "map_option (map without_ip) (listQuery pg q (w_db w1)) = map_option (map without_ip) (listQuery pg q (w_db w2))"
    by (intro listQuery_same) simp
  then have "answer rid p q (listQuery pg q (w_db w1)) = answer rid p q (listQuery pg q (w_db w2))"
    by (metis answer_without_ip)
  moreover have "fst (next_fault w1) = fst (next_fault w2)"
    using assms(3) by (simp add: next_fault_def split: list.splits)
  moreover have "w_db (snd (next_fault w1)) = w_db w1"
    by (metis next_fault_db prod.collapse)
  ultimately show ?thesis by (simp add: a)
qed

text \<open>A cursor the service writes for an event of the nanosecond range is read
  back as the same position, and every text it accepts as a cursor names an
  instant of that range and an id of 1 to 64 bytes.\<close>

theorem cursor_round_trip:
  "(- (2 ^ 63) \<le> cu_OccurredAt c \<and> cu_OccurredAt c < 2 ^ 63 \<and> cu_ID c \<noteq> [] \<and> length (cu_ID c) \<le> 64
      \<longrightarrow> decodeCursor (encodeCursor c) = Some c) \<and>
   (decodeCursor s = Some c' \<longrightarrow> - (2 ^ 63) \<le> cu_OccurredAt c' \<and> cu_OccurredAt c' < 2 ^ 63 \<and>
      cu_ID c' \<noteq> [] \<and> length (cu_ID c') \<le> 64)"
proof -
  have "- (2 ^ 63) \<le> n \<and> n < 2 ^ 63" if "ParseInt t = Some n" for t n
    using that by (auto simp: ParseInt_def Let_def split: prod.splits if_splits)
  then show ?thesis
    using decode_encode [of c]
    by (fastforce simp: decodeCursor_def split: if_splits Option.bind_splits)
qed

text \<open>The retention loop removes an event only when some sweep found it older
  than the window, touches no other table, and without failures removes every
  such event; a window that is not positive removes nothing.\<close>

theorem audit_retention_exact:
  "\<exists>kept. w_db (StartAuditRetention retention ticks w) = w_db w\<lparr> db_audit := kept \<rparr> \<and>
     set kept \<subseteq> set (db_audit (w_db w)) \<and>
     (\<forall>a \<in> set (db_audit (w_db w)). a \<in> set kept \<or>
        (\<exists>t \<in> set ticks. 0 < retention \<and> au_OccurredAt a < t - retention)) \<and>
     (w_faults w = [] \<and> 0 < retention \<longrightarrow>
        kept = filter (\<lambda>a. \<forall>t \<in> set ticks. t - retention \<le> au_OccurredAt a) (db_audit (w_db w)))"
proof (cases "retention \<le> 0")
  case True
  then show ?thesis by (intro exI [of _ "db_audit (w_db w)"]) (auto simp: StartAuditRetention_def)
next
  case False
  from sweeps_spec [of retention ticks w] obtain kept where
    k: "w_db (fold (sweepAudit retention) ticks w) = w_db w\<lparr> db_audit := kept \<rparr>"
    "set kept \<subseteq> set (db_audit (w_db w))"
    "\<forall>a \<in> set (db_audit (w_db w)). a \<in> set kept \<or> (\<exists>t \<in> set ticks. 0 < retention \<and> au_OccurredAt a < t - retention)"
    by blast
  moreover have "kept = filter (\<lambda>a. \<forall>t \<in> set ticks. t - retention \<le> au_OccurredAt a) (db_audit (w_db w))"
    if "w_faults w = []" "0 < retention"
    using sweeps_no_faults [OF that, of ticks] k(1) by simp
  ultimately show ?thesis using False by (auto simp: StartAuditRetention_def)
qed

text \<open>The service refuses a query exactly when a parameter is out of its domain,
  with the invalid_request error naming the first such parameter in the order
  limit, event, actor_type, outcome, from, to, an inverted range (from), cursor.\<close>

theorem list_query_refusal:
  "(case list_query ws p of
      Inl e \<Rightarrow> offences p \<noteq> [] \<and> e = WithField (hd (offences p)) AqErrInvalidFilter
    | Inr q \<Rightarrow> offences p = [] \<and> aq_WorkspaceID q = ws \<and> 1 \<le> aq_Limit q \<and> aq_Limit q \<le> 200)"
proof -
  define b1 b2 b3 b4 b5 b6 b7 b8 n where
    "b1 \<longleftrightarrow> lp_Limit p \<noteq> [] \<and> (case ParseInt (trim_space (lp_Limit p)) of None \<Rightarrow> True | Some n \<Rightarrow> n < 1 \<or> n > 200)"
    and "b2 \<longleftrightarrow> length (lp_EventType p) > 100"
    and "b3 \<longleftrightarrow> lp_ActorType p \<notin> set [[], ''operator'', ''project'']"
    and "b4 \<longleftrightarrow> lp_Outcome p \<notin> set [[], ''success'', ''failure'']"
    and "b5 \<longleftrightarrow> lp_From p \<noteq> [] \<and> parseTime (lp_From p) = None"
    and "b6 \<longleftrightarrow> lp_To p \<noteq> [] \<and> parseTime (lp_To p) = None"
    and "b7 \<longleftrightarrow> inverted_range p"
    and "b8 \<longleftrightarrow> lp_Cursor p \<noteq> [] \<and> decodeCursor (lp_Cursor p) = None"
    and "n = appliedLimit (lp_Limit p)"
  note defs = this
  have n: "1 \<le> n \<and> n \<le> 200" using appliedLimit_range by (simp add: defs)
  have 7: "\<not> b5 \<Longrightarrow> \<not> b6 \<Longrightarrow> (bound_value (lp_From p) \<noteq> zero_time \<and> bound_value (lp_To p) \<noteq> zero_time \<and>
      bound_value (lp_From p) > bound_value (lp_To p)) = b7"
    unfolding defs by (rule inverted_range_iff)
  show ?thesis
    unfolding list_query_def offences_def parseLimit_check time_bound_check cursor_param_check
      allowed_value_check guard_def bind_check not_less [symmetric] defs [symmetric]
    by (insert n 7) (cases b1, simp, cases b2, simp, cases b3, simp, cases b4, simp, cases b5, simp,
        cases b6, simp, cases b7, simp, cases b8, simp_all)
qed

text \<open>The zero time stands for an absent bound, so asking for the events up to the
  first instant of the year 1 asks for all of them.\<close>

lemma zero_upper_bound_ignored:
  "list_query ws (p\<lparr> lp_To := ''0001-01-01T00:00:00Z'' \<rparr>) = list_query ws (p\<lparr> lp_To := [] \<rparr>)"
proof -
  have "list_all is_graph ''0001-01-01T00:00:00Z''" by (simp add: is_graph_def in_range_def less_eq_char_def)
  then have "parseTime ''0001-01-01T00:00:00Z'' = Some zero_time"
    unfolding parseTime_def by (simp only: trim_space_graph ParseRFC3339_zero)
  then have "time_bound ''to'' ''0001-01-01T00:00:00Z'' = time_bound ''to'' []"
    by (simp add: time_bound_def)
  then show ?thesis unfolding list_query_def by simp
qed

section \<open>Witnesses\<close>

definition demo_audit_event :: "string \<Rightarrow> int \<Rightarrow> audit_record" where
  "demo_audit_event i t =
     \<lparr> au_ID = i, au_WorkspaceID = ''0f8fad5b-d9cb-469f-a165-70867728950e'', au_EventType = ''user.created'',
       au_Outcome = OutcomeSuccess, au_ActorType = ActorOperator, au_ActorSubject = ''op'',
       au_ActorEmail = [], au_ActorProjectID = [], au_ActorCredentialID = [],
       au_ResourceType = ''user'', au_ResourceID = ''u1'', au_RequestID = ''r1'', au_SourceIP = ''10.0.0.1'',
       au_ReasonCode = [], au_Metadata = [], au_OccurredAt = t \<rparr>"

definition demo_events :: "audit_record list" where
  "demo_events =
     [demo_audit_event ''00000000-0000-4000-8000-000000000001'' 5,
      demo_audit_event ''00000000-0000-4000-8000-000000000002'' 5]"

definition demo_audit_world :: world where
  "demo_audit_world =
     \<lparr> w_db = \<lparr> db_workspaces = [], db_projects = [], db_credentials = [], db_connections = [],
                db_audit = demo_events \<rparr>, w_faults = [] \<rparr>"

definition demo_params :: list_params where
  "demo_params = \<lparr> lp_EventType = [], lp_ActorType = ''operator'', lp_Outcome = [], lp_From = [], lp_To = [],
     lp_Cursor = [], lp_Limit = ''1'' \<rparr>"

definition demo_query :: audit_query where
  "demo_query = \<lparr> aq_WorkspaceID = ''0f8fad5b-d9cb-469f-a165-70867728950e'', aq_EventType = [],
     aq_ActorType = ''operator'', aq_Outcome = [], aq_From = zero_time, aq_To = zero_time, aq_After = None,
     aq_Limit = 1 \<rparr>"

definition demo_pg :: pg_types where
  "demo_pg = \<lparr> pgt_uuid = Some, pgt_text = (\<lambda>_. True) \<rparr>"

lemmas canonical_simps = canonical_def upt_rec hyphen_positions_def is_lower_hex_def is_digit_def in_range_def
  less_eq_char_def

lemma demo_ws_canonical: "canonical ''0f8fad5b-d9cb-469f-a165-70867728950e''"
  by (simp add: canonical_simps)

lemma demo_list_query: "list_query ''0f8fad5b-d9cb-469f-a165-70867728950e'' demo_params = Inr demo_query"
  by code_simp

lemma demo_events_ok: "audit_table_ok (w_db demo_audit_world)"
  by (simp add: audit_table_ok_def distinct_event_ids_def demo_audit_world_def demo_events_def demo_audit_event_def canonical_simps)

lemma demo_ready:
  "listing_ready demo_pg ''0f8fad5b-d9cb-469f-a165-70867728950e'' demo_params demo_query (\<lambda>_. demo_audit_world)"
proof -
  have "demo_params\<lparr> lp_Cursor := [] \<rparr> = demo_params" by (simp add: demo_params_def)
  then show ?thesis
    using demo_list_query demo_events_ok Parse_canonical [OF demo_ws_canonical]
    by (simp add: listing_ready_def demo_pg_def) (simp add: demo_params_def demo_audit_world_def)
qed

theorem audit_history_enumerated_witness:
  "\<exists>rows. follow 3 (list_request demo_pg ''r'' ''0f8fad5b-d9cb-469f-a165-70867728950e'' demo_params (\<lambda>_. demo_audit_world)) 0 []
     = Some (map newEventResponse rows) \<and> set rows = set demo_events"
proof -
  have match: "\<forall>r \<in> set demo_events. filters_match demo_query r"
    by (simp add: demo_events_def demo_audit_event_def filters_match_def demo_query_def)
  have rows: "db_audit (w_db demo_audit_world) = demo_events" by (simp add: demo_audit_world_def)
  have "card (set demo_events) < 3" using card_length [of demo_events] by (simp add: demo_events_def)
  from audit_history_enumerated [OF demo_ready, of "set demo_events" 3 "''r''"] this match
  show ?thesis by (auto simp: rows)
qed

theorem audit_list_isolated_witness:
  "fst (ListAudit demo_pg ''r'' ''0f8fad5b-d9cb-469f-a165-70867728950e'' demo_params demo_audit_world) =
   fst (ListAudit demo_pg ''r'' ''0f8fad5b-d9cb-469f-a165-70867728950e'' demo_params
     (demo_audit_world\<lparr> w_db := (w_db demo_audit_world)\<lparr> db_audit :=
        demo_events @ [(demo_audit_event ''x'' 9)\<lparr> au_WorkspaceID := ''other'' \<rparr>] \<rparr> \<rparr>))"
proof -
  have "visible_rows ''0f8fad5b-d9cb-469f-a165-70867728950e'' (w_db demo_audit_world) =
    visible_rows ''0f8fad5b-d9cb-469f-a165-70867728950e'' ((w_db demo_audit_world)\<lparr> db_audit :=
        demo_events @ [(demo_audit_event ''x'' 9)\<lparr> au_WorkspaceID := ''other'' \<rparr>] \<rparr>)"
    by (simp add: visible_rows_def demo_audit_world_def demo_audit_event_def)
  with audit_list_isolated [OF Parse_canonical [OF demo_ws_canonical], of demo_audit_world] show ?thesis
    by simp
qed

theorem cursor_round_trip_witness:
  "decodeCursor (encodeCursor \<lparr> cu_OccurredAt = -7, cu_ID = ''a'' \<rparr>) = Some \<lparr> cu_OccurredAt = -7, cu_ID = ''a'' \<rparr>"
  using cursor_round_trip [of "\<lparr> cu_OccurredAt = -7, cu_ID = ''a'' \<rparr>"] by simp

theorem audit_retention_exact_witness:
  "db_audit (w_db (StartAuditRetention 3 [6, 9] demo_audit_world)) = []"
proof -
  have "w_faults demo_audit_world = []" by (simp add: demo_audit_world_def)
  with audit_retention_exact [of 3 "[6, 9]" demo_audit_world] show ?thesis
    by (auto simp: demo_audit_world_def demo_events_def demo_audit_event_def)
qed

end
