(* ===== verification/Float64.thy ===== *)
theory Float64
  imports Complex_Main "HOL-Library.Log_Nat"
begin

text \<open>
  Go's \<^verbatim>\<open>float64\<close>, as far as the rate limiter computes with it: a finite value is the
  rational it stands for, and an operation is the exact one followed by \<open>fl\<close>, the
  rounding to 53 significant bits, to nearest with ties to even. The range of the
  exponent is not bounded here: what would overflow is a value above every burst, and
  what would underflow needs a rate below ten to the minus two hundred.
\<close>

text \<open>The exponent of the leading bit.\<close>

definition lead :: "rat \<Rightarrow> int" where
  "lead x = (let (n, d) = quotient_of x; e = int (floorlog 2 (nat n)) - int (floorlog 2 (nat d))
     in if 2 powi e \<le> x then e else e - 1)"

definition round_even :: "rat \<Rightarrow> int" where
  "round_even y = (let n = \<lfloor>y\<rfloor>; r = y - of_int n in if r < 1 / 2 \<or> r = 1 / 2 \<and> even n then n else n + 1)"

definition fl :: "rat \<Rightarrow> rat" where
  "fl x = (if x = 0 then 0
     else let e = lead \<bar>x\<bar> - 52 in of_int (round_even (x / 2 powi e)) * 2 powi e)"

definition float64 :: "rat \<Rightarrow> bool" where
  "float64 x \<longleftrightarrow> (\<exists>m e. \<bar>m\<bar> < 2 ^ 53 \<and> x = of_int m * 2 powi e)"

lemma bits_bounds:
  assumes "0 < n"
  shows "2 powi (int (floorlog 2 (nat n)) - 1) \<le> (of_int n :: rat)" and "(of_int n :: rat) < 2 powi int (floorlog 2 (nat n))"
proof -
  define b where "b = floorlog 2 (nat n)"
  have b: "2 ^ (b - 1) \<le> nat n" "nat n < 2 ^ b"
    using floorlog_bounds [of "nat n" 2] assms by (simp_all add: b_def)
  have "b \<noteq> 0" using b(2) assms by (cases b) auto
  then obtain c where c: "b = Suc c" by (cases b) auto
  have "int (2 ^ c) \<le> n" "n < int (2 ^ b)" using b c assms by (simp_all add: le_nat_iff nat_less_iff)
  then have "(of_int (int (2 ^ c)) :: rat) \<le> of_int n" "(of_int n :: rat) < of_int (int (2 ^ b))"
    by (simp_all only: of_int_le_iff of_int_less_iff)
  then show "2 powi (int (floorlog 2 (nat n)) - 1) \<le> (of_int n :: rat)" "(of_int n :: rat) < 2 powi int (floorlog 2 (nat n))"
    by (simp_all flip: b_def) (simp_all add: c)
qed

lemma lead_bounds:
  assumes "0 < x"
  shows "2 powi lead x \<le> x" and "x < 2 powi (lead x + 1)"
proof -
  obtain n d where q: "quotient_of x = (n, d)" by (cases "quotient_of x")
  have d: "0 < d" and x: "x = of_int n / of_int d" by (rule quotient_of_denom_pos [OF q], rule quotient_of_div [OF q])
  with assms have n: "0 < n" by (simp add: zero_less_divide_iff)
  define a b where "a = int (floorlog 2 (nat n))" and "b = int (floorlog 2 (nat d))"
  note bn = bits_bounds [OF n, folded a_def] and bd = bits_bounds [OF d, folded b_def]
  have low: "2 powi (a - 1) / 2 powi b \<le> x"
    unfolding x by (rule frac_le) (use bn bd n d in simp_all)
  have high: "x < 2 powi a / 2 powi (b - 1)"
    unfolding x by (rule frac_less) (use bn bd n d in simp_all)
  have "2 powi (a - b - 1) \<le> x" using low by (simp add: power_int_diff)
  moreover have "x < 2 powi (a - b + 1)" using high by (simp add: power_int_diff power_int_add)
  ultimately show "2 powi lead x \<le> x" "x < 2 powi (lead x + 1)"
    by (auto simp: lead_def q Let_def simp flip: a_def b_def)
qed

lemma round_even_int [simp]: "round_even (of_int n) = n"
  by (simp add: round_even_def)

lemma round_even_error: "\<bar>of_int (round_even y) - y\<bar> \<le> 1 / 2"
proof -
  have "of_int \<lfloor>y\<rfloor> \<le> y" "y < of_int \<lfloor>y\<rfloor> + 1" by linarith+
  then show ?thesis by (auto simp: round_even_def Let_def)
qed

lemma round_even_nonneg: "0 \<le> y \<Longrightarrow> 0 \<le> round_even y"
  by (simp add: round_even_def Let_def)

lemma fl_0 [simp]: "fl 0 = 0"
  by (simp add: fl_def)

text \<open>Rounding is off by at most half a unit in the last place.\<close>

lemma fl_error: "\<bar>fl x - x\<bar> \<le> \<bar>x\<bar> / 2 ^ 53"
proof (cases "x = 0")
  case False
  define e where "e = lead \<bar>x\<bar> - 52"
  have p: "(0 :: rat) < 2 powi e" by simp
  have "fl x - x = (of_int (round_even (x / 2 powi e)) - x / 2 powi e) * 2 powi e"
    using False p by (simp add: fl_def Let_def e_def algebra_simps)
  then have "\<bar>fl x - x\<bar> = \<bar>of_int (round_even (x / 2 powi e)) - x / 2 powi e\<bar> * 2 powi e"
    using p by (simp add: abs_mult)
  also have "\<dots> \<le> 1 / 2 * 2 powi e"
    by (rule mult_right_mono [OF round_even_error]) (use p in simp)
  also have "1 / 2 * 2 powi e = 2 powi lead \<bar>x\<bar> / (2 ^ 53 :: rat)"
    by (simp add: e_def power_int_diff)
  also have "\<dots> \<le> \<bar>x\<bar> / 2 ^ 53" using lead_bounds(1) [of "\<bar>x\<bar>"] False by (simp add: divide_right_mono)
  finally show ?thesis .
qed simp

lemma fl_nonneg: "0 \<le> x \<Longrightarrow> 0 \<le> fl x"
  by (simp add: fl_def Let_def round_even_nonneg)

lemma fl_upper: "0 \<le> x \<Longrightarrow> fl x \<le> x * (1 + 1 / 2 ^ 53)"
  using abs_le_D1 [OF fl_error [of x]] by (simp add: distrib_left)

lemma fl_lower: "0 \<le> x \<Longrightarrow> x * (1 - 1 / 2 ^ 53) \<le> fl x"
  using abs_le_D2 [OF fl_error [of x]] by (simp add: right_diff_distrib)

text \<open>What 53 bits can hold is not changed.\<close>

lemma fl_float64:
  assumes "float64 x" shows "fl x = x"
proof (cases "x = 0")
  case False
  from assms obtain m e where m: "\<bar>m\<bar> < 2 ^ 53" "x = of_int m * 2 powi e" unfolding float64_def by blast
  define k where "k = lead \<bar>x\<bar> - 52"
  have "\<bar>x\<bar> < 2 powi (e + 53)"
  proof -
    have "(of_int \<bar>m\<bar> :: rat) < of_int (2 ^ 53)" using m(1) by (simp only: of_int_less_iff)
    then have "\<bar>of_int m\<bar> * 2 powi e < (2 ^ 53 :: rat) * 2 powi e" by (intro mult_strict_right_mono) simp_all
    then show ?thesis using m(2) by (simp add: abs_mult power_int_add)
  qed
  with lead_bounds(1) [of "\<bar>x\<bar>"] False have "(2 :: rat) powi lead \<bar>x\<bar> < 2 powi (e + 53)" by simp
  then have "lead \<bar>x\<bar> < e + 53" by (meson not_le one_le_numeral power_int_increasing)
  then have le: "k \<le> e" by (simp add: k_def)
  have "x / 2 powi k = of_int m * 2 powi (e - k)" using m(2) by (simp add: power_int_diff)
  also have "\<dots> = of_int (m * 2 ^ nat (e - k))" using le by (simp add: power_int_def)
  finally have "round_even (x / 2 powi k) = m * 2 ^ nat (e - k)" by (simp only: round_even_int)
  then have "fl x = of_int (m * 2 ^ nat (e - k)) * 2 powi k" using False by (simp add: fl_def Let_def k_def)
  also have "\<dots> = of_int m * 2 powi (e - k) * 2 powi k" using le by (simp add: power_int_def)
  also have "\<dots> = x" using m(2) by (simp add: power_int_diff)
  finally show ?thesis .
qed simp

lemma float64_fl: "float64 (fl x)"
proof (cases "x = 0")
  case False
  define e where "e = lead \<bar>x\<bar> - 52"
  define r where "r = round_even (x / 2 powi e)"
  have fl: "fl x = of_int r * 2 powi e" using False by (simp add: fl_def Let_def e_def r_def)
  have "\<bar>x\<bar> < 2 powi (e + 53)" using lead_bounds(2) [of "\<bar>x\<bar>"] False by (simp add: e_def add.commute)
  then have "\<bar>x / 2 powi e\<bar> < 2 ^ 53" by (simp add: power_int_add divide_less_eq)
  moreover have "\<bar>of_int r - x / 2 powi e\<bar> \<le> 1 / 2" unfolding r_def by (rule round_even_error)
  ultimately have "\<bar>of_int r\<bar> < (2 ^ 53 + 1 :: rat)" by linarith
  then have "of_int \<bar>r\<bar> < (of_int (2 ^ 53 + 1) :: rat)" by simp
  then have le: "\<bar>r\<bar> \<le> 2 ^ 53" unfolding of_int_less_iff by simp
  show ?thesis
  proof (cases "\<bar>r\<bar> = 2 ^ 53")
    case True
    then have "r = sgn r * 2 ^ 53" by (metis sgn_mult_abs)
    then have "(of_int r :: rat) = of_int (sgn r) * 2 ^ 53" by (metis of_int_mult of_int_numeral of_int_power)
    then have "fl x = of_int (sgn r) * 2 powi (e + 53)" using fl by (simp add: power_int_add)
    moreover have "\<bar>sgn r\<bar> < 2 ^ 53" by (simp add: sgn_if)
    ultimately show ?thesis unfolding float64_def by blast
  next
    case False
    with le fl show ?thesis unfolding float64_def by (intro exI [of _ r] exI [of _ e]) simp
  qed
qed (auto simp: float64_def intro: exI [of _ 0])

lemma float64_int: "\<bar>n\<bar> \<le> 2 ^ 53 \<Longrightarrow> float64 (of_int n)"
proof (cases "\<bar>n\<bar> = 2 ^ 53")
  case True
  then have "n = sgn n * 2 ^ 53" by (metis sgn_mult_abs)
  then have "(of_int n :: rat) = of_int (sgn n) * 2 powi 53" by (metis of_int_mult of_int_numeral of_int_power power_int_numeral)
  moreover have "\<bar>sgn n\<bar> < 2 ^ 53" by (simp add: sgn_if)
  ultimately show ?thesis unfolding float64_def by blast
next
  case False
  assume "\<bar>n\<bar> \<le> 2 ^ 53"
  with False show ?thesis unfolding float64_def by (intro exI [of _ n] exI [of _ 0]) simp
qed

text \<open>Taking one from what is at least one is exact.\<close>

lemma float64_take:
  assumes "float64 x" and "1 \<le> x" and "x \<le> 2 ^ 53"
  shows "float64 (x - 1)"
proof -
  from assms(1) obtain m e where m: "\<bar>m\<bar> < 2 ^ 53" and x: "x = of_int m * 2 powi e" unfolding float64_def by blast
  show ?thesis
  proof (cases "0 \<le> e")
    case True
    define n where "n = m * 2 ^ nat e"
    have n: "x = of_int n" using x True by (simp add: n_def power_int_def)
    with assms(2,3) have "1 \<le> n" "of_int n \<le> (of_int (2 ^ 53) :: rat)" by simp_all
    then have "\<bar>n - 1\<bar> \<le> 2 ^ 53" unfolding of_int_le_iff by simp
    from float64_int [OF this] n show ?thesis by simp
  next
    case False
    define k where "k = nat (- e)"
    have "e = - int k" using False by (simp add: k_def)
    then have e: "2 powi e = 1 / (2 ^ k :: rat)" by (simp only: power_int_minus power_int_of_nat inverse_eq_divide)
    have "(2 ^ k :: rat) \<le> of_int m" using assms(2) unfolding x e by (simp add: le_divide_eq)
    then have "of_int (2 ^ k) \<le> (of_int m :: rat)" by simp
    then have "2 ^ k \<le> m" by (simp only: of_int_le_iff)
    moreover have "(0 :: int) < 2 ^ k" by simp
    ultimately have "\<bar>m - 2 ^ k\<bar> < 2 ^ 53" using m by linarith
    moreover have "x - 1 = of_int (m - 2 ^ k) * 2 powi e" unfolding x e by (simp add: diff_divide_distrib)
    ultimately show ?thesis unfolding float64_def by blast
  qed
qed

lemma fl_int [simp]: "\<bar>n\<bar> \<le> 2 ^ 53 \<Longrightarrow> fl (of_int n) = of_int n"
  by (rule fl_float64 [OF float64_int])

lemma fl_numeral [simp]: "(numeral n :: int) \<le> 2 ^ 53 \<Longrightarrow> fl (numeral n) = numeral n"
  using fl_int [of "numeral n"] by simp

lemma fl_1 [simp]: "fl 1 = 1" using fl_int [of 1] by simp

end
