(* ===== verification/Registry.thy ===== *)
theory Registry
  imports Scopes "HOL-Library.List_Lexorder"
begin

text \<open>
  \<^verbatim>\<open>internal/authz/registry.go\<close> and \<^verbatim>\<open>matrix.go\<close>: the authorization table of
  every \<^verbatim>\<open>/v1\<close> route, the boot-time completeness check, and the route sets
  derived from it; with the two route declarations it is checked against,
  \<^verbatim>\<open>internal/identityruntime/routes.go\<close> and the routes
  \<^verbatim>\<open>internal/server/router.go\<close> mounts. The Go map literal is an
  association list in source order (a duplicate key would not compile).
\<close>

record requirement =
  rq_OperatorOnly :: bool
  rq_Scope :: string

definition operatorOnly :: requirement where
  "operatorOnly = \<lparr> rq_OperatorOnly = True, rq_Scope = [] \<rparr>"

definition scoped :: "string \<Rightarrow> requirement" where
  "scoped s = \<lparr> rq_OperatorOnly = False, rq_Scope = s \<rparr>"

definition routeKey :: "string \<Rightarrow> string \<Rightarrow> string" where
  "routeKey method full_path = method @ '' '' @ full_path"

definition v1Workspaces :: string where "v1Workspaces = ''/v1/workspaces''"
definition v1Workspace :: string where "v1Workspace = ''/v1/workspaces/:workspace_id''"
definition v1Project :: string where "v1Project = v1Workspace @ ''/projects/:project_id''"

definition registry :: "(string \<times> requirement) list" where
  "registry =
     [(routeKey ''GET'' v1Workspaces, operatorOnly),
      (routeKey ''POST'' v1Workspaces, operatorOnly),
      (routeKey ''GET'' v1Workspace, operatorOnly),
      (routeKey ''PATCH'' v1Workspace, operatorOnly),
      (routeKey ''POST'' (v1Workspace @ ''/archive''), operatorOnly),
      (routeKey ''GET'' (v1Workspace @ ''/connections''), operatorOnly),
      (routeKey ''POST'' (v1Workspace @ ''/connections''), operatorOnly),
      (routeKey ''GET'' (v1Workspace @ ''/connections/:connection_id''), operatorOnly),
      (routeKey ''PATCH'' (v1Workspace @ ''/connections/:connection_id''), operatorOnly),
      (routeKey ''DELETE'' (v1Workspace @ ''/connections/:connection_id''), operatorOnly),
      (routeKey ''POST'' (v1Workspace @ ''/connections/:connection_id/verify''), operatorOnly),
      (routeKey ''POST'' (v1Workspace @ ''/connections/:connection_id/activate''), operatorOnly),
      (routeKey ''POST'' (v1Workspace @ ''/connections/:connection_id/retire''), operatorOnly),
      (routeKey ''GET'' (v1Workspace @ ''/projects''), operatorOnly),
      (routeKey ''POST'' (v1Workspace @ ''/projects''), operatorOnly),
      (routeKey ''GET'' v1Project, operatorOnly),
      (routeKey ''PATCH'' v1Project, operatorOnly),
      (routeKey ''POST'' (v1Project @ ''/archive''), operatorOnly),
      (routeKey ''GET'' (v1Project @ ''/credentials''), operatorOnly),
      (routeKey ''POST'' (v1Project @ ''/credentials''), operatorOnly),
      (routeKey ''POST'' (v1Project @ ''/credentials/:credential_id/revoke''), operatorOnly),
      (routeKey ''GET'' ''/v1/project-scopes'', operatorOnly),
      (routeKey ''GET'' (v1Workspace @ ''/users''), scoped ScopeUsersRead),
      (routeKey ''POST'' (v1Workspace @ ''/users''), scoped ScopeUsersWrite),
      (routeKey ''GET'' (v1Workspace @ ''/users/:user_id''), scoped ScopeUsersRead),
      (routeKey ''PATCH'' (v1Workspace @ ''/users/:user_id''), scoped ScopeUsersWrite),
      (routeKey ''DELETE'' (v1Workspace @ ''/users/:user_id''), scoped ScopeUsersWrite),
      (routeKey ''POST'' (v1Workspace @ ''/users/:user_id/reset-password''), scoped ScopeUsersWrite),
      (routeKey ''PUT'' (v1Workspace @ ''/users/:user_id/password''), operatorOnly),
      (routeKey ''GET'' (v1Workspace @ ''/users/:user_id/roles''), scoped ScopeRolesRead),
      (routeKey ''POST'' (v1Workspace @ ''/users/:user_id/roles''), scoped ScopeRolesWrite),
      (routeKey ''DELETE'' (v1Workspace @ ''/users/:user_id/roles/:role_name''), scoped ScopeRolesWrite),
      (routeKey ''GET'' (v1Workspace @ ''/users/:user_id/sessions''), scoped ScopeSessionsRead),
      (routeKey ''DELETE'' (v1Workspace @ ''/users/:user_id/sessions''), scoped ScopeSessionsRevoke),
      (routeKey ''GET'' (v1Workspace @ ''/sessions''), scoped ScopeSessionsRead),
      (routeKey ''DELETE'' (v1Workspace @ ''/sessions/:session_id''), scoped ScopeSessionsRevoke),
      (routeKey ''GET'' (v1Workspace @ ''/roles''), scoped ScopeRolesRead),
      (routeKey ''POST'' (v1Workspace @ ''/roles''), scoped ScopeRolesWrite),
      (routeKey ''GET'' (v1Workspace @ ''/roles/:role_name''), scoped ScopeRolesRead),
      (routeKey ''PATCH'' (v1Workspace @ ''/roles/:role_name''), scoped ScopeRolesWrite),
      (routeKey ''DELETE'' (v1Workspace @ ''/roles/:role_name''), scoped ScopeRolesWrite),
      (routeKey ''GET'' (v1Workspace @ ''/roles/:role_name/users''), scoped ScopeRolesRead),
      (routeKey ''GET'' (v1Workspace @ ''/audit''), scoped ScopeAuditRead),
      (routeKey ''GET'' (v1Workspace @ ''/invitations''), scoped ScopeInvitationsRead),
      (routeKey ''POST'' (v1Workspace @ ''/invitations''), scoped ScopeInvitationsWrite),
      (routeKey ''DELETE'' (v1Workspace @ ''/invitations/:invitation_id''), scoped ScopeInvitationsWrite),
      (routeKey ''POST'' (v1Workspace @ ''/invitations/:invitation_id/resend''), scoped ScopeInvitationsWrite)]"

definition RequirementFor :: "string \<Rightarrow> string \<Rightarrow> requirement option" where
  "RequirementFor method full_path = map_of registry (routeKey method full_path)"

definition RegisteredRoutes :: "string list" where
  "RegisteredRoutes = sort (map fst registry)"

text \<open>The error of ValidateRegistry carries the sorted unclassified routes.\<close>

definition ValidateRegistry :: "string list \<Rightarrow> string list + unit" where
  "ValidateRegistry mounted =
     (let missing = filter (\<lambda>r. map_of registry r = None) mounted in
      if length missing > 0 then Inl (sort missing) else Inr ())"

section \<open>The derived matrix\<close>

record route_requirement = requirement +
  rr_Method :: string
  rr_Path :: string

definition Key :: "route_requirement \<Rightarrow> string" where
  "Key r = routeKey (rr_Method r) (rr_Path r)"

definition route_of :: "string \<times> requirement \<Rightarrow> route_requirement" where
  "route_of e =
     (let (method, path) = (case cut_at CHR '' '' (fst e) of None \<Rightarrow> (fst e, []) | Some mp \<Rightarrow> mp) in
      \<lparr> rq_OperatorOnly = rq_OperatorOnly (snd e), rq_Scope = rq_Scope (snd e),
         rr_Method = method, rr_Path = path \<rparr>)"

definition allRoutes :: "route_requirement list" where
  "allRoutes = sort_key Key (map route_of registry)"

definition ProjectReachableRoutes :: "route_requirement list" where
  "ProjectReachableRoutes = filter (\<lambda>r. \<not> rq_OperatorOnly r) allRoutes"

definition OperatorOnlyRoutes :: "route_requirement list" where
  "OperatorOnlyRoutes = filter (\<lambda>r. rq_OperatorOnly r) allRoutes"

definition FamilyOfRoute :: "route_requirement \<Rightarrow> string" where
  "FamilyOfRoute r = (if rq_OperatorOnly r then [] else Family (rq_Scope r))"

fun families_loop :: "string list \<Rightarrow> string set \<Rightarrow> string list \<Rightarrow> string list" where
  "families_loop [] seen out = out"
| "families_loop (s # ss) seen out =
     (let f = Family s in
      if f \<in> seen then families_loop ss seen out
      else families_loop ss (insert f seen) (out @ [f]))"

definition Families :: "string list" where
  "Families = sort (families_loop AllScopes {} [])"

section \<open>The mounted routes\<close>

definition MountedWorkspaceIdentityRoutes :: "string list" where
  "MountedWorkspaceIdentityRoutes =
     [''GET '' @ v1Workspace @ ''/users'',
      ''POST '' @ v1Workspace @ ''/users'',
      ''GET '' @ v1Workspace @ ''/users/:user_id'',
      ''PATCH '' @ v1Workspace @ ''/users/:user_id'',
      ''DELETE '' @ v1Workspace @ ''/users/:user_id'',
      ''GET '' @ v1Workspace @ ''/users/:user_id/roles'',
      ''POST '' @ v1Workspace @ ''/users/:user_id/roles'',
      ''DELETE '' @ v1Workspace @ ''/users/:user_id/roles/:role_name'',
      ''POST '' @ v1Workspace @ ''/users/:user_id/reset-password'',
      ''PUT '' @ v1Workspace @ ''/users/:user_id/password'',
      ''GET '' @ v1Workspace @ ''/users/:user_id/sessions'',
      ''DELETE '' @ v1Workspace @ ''/users/:user_id/sessions'',
      ''GET '' @ v1Workspace @ ''/sessions'',
      ''DELETE '' @ v1Workspace @ ''/sessions/:session_id'',
      ''GET '' @ v1Workspace @ ''/roles'',
      ''POST '' @ v1Workspace @ ''/roles'',
      ''GET '' @ v1Workspace @ ''/roles/:role_name'',
      ''PATCH '' @ v1Workspace @ ''/roles/:role_name'',
      ''DELETE '' @ v1Workspace @ ''/roles/:role_name'',
      ''GET '' @ v1Workspace @ ''/roles/:role_name/users'',
      ''GET '' @ v1Workspace @ ''/invitations'',
      ''POST '' @ v1Workspace @ ''/invitations'',
      ''DELETE '' @ v1Workspace @ ''/invitations/:invitation_id'',
      ''POST '' @ v1Workspace @ ''/invitations/:invitation_id/resend'']"

text \<open>Which optional handlers are wired (\<^verbatim>\<open>RouterDeps\<close>; a nil handler mounts
  nothing).\<close>

record router_deps =
  has_Workspace :: bool
  has_Connection :: bool
  has_Project :: bool
  has_WorkspaceAudit :: bool
  has_WorkspaceIdentity :: bool

definition mount :: "string \<Rightarrow> string \<Rightarrow> string" where
  "mount method path = method @ '' '' @ ''/v1'' @ path"

definition scope_routes :: "string list" where
  "scope_routes =
     [mount ''GET'' ''/project-scopes'']"

definition workspace_routes :: "string list" where
  "workspace_routes =
     [mount ''GET'' ''/workspaces'',
      mount ''POST'' ''/workspaces'',
      mount ''GET'' ''/workspaces/:workspace_id'',
      mount ''PATCH'' ''/workspaces/:workspace_id'',
      mount ''POST'' ''/workspaces/:workspace_id/archive'']"

definition connection_routes :: "string list" where
  "connection_routes =
     [mount ''GET'' ''/workspaces/:workspace_id/connections'',
      mount ''POST'' ''/workspaces/:workspace_id/connections'',
      mount ''GET'' ''/workspaces/:workspace_id/connections/:connection_id'',
      mount ''PATCH'' ''/workspaces/:workspace_id/connections/:connection_id'',
      mount ''DELETE'' ''/workspaces/:workspace_id/connections/:connection_id'',
      mount ''POST'' ''/workspaces/:workspace_id/connections/:connection_id/verify'',
      mount ''POST'' ''/workspaces/:workspace_id/connections/:connection_id/activate'',
      mount ''POST'' ''/workspaces/:workspace_id/connections/:connection_id/retire'']"

definition project_routes :: "string list" where
  "project_routes =
     [mount ''GET'' ''/workspaces/:workspace_id/projects'',
      mount ''POST'' ''/workspaces/:workspace_id/projects'',
      mount ''GET'' ''/workspaces/:workspace_id/projects/:project_id'',
      mount ''PATCH'' ''/workspaces/:workspace_id/projects/:project_id'',
      mount ''POST'' ''/workspaces/:workspace_id/projects/:project_id/archive'',
      mount ''GET'' ''/workspaces/:workspace_id/projects/:project_id/credentials'',
      mount ''POST'' ''/workspaces/:workspace_id/projects/:project_id/credentials'',
      mount ''POST'' ''/workspaces/:workspace_id/projects/:project_id/credentials/:credential_id/revoke'']"

definition audit_routes :: "string list" where
  "audit_routes =
     [mount ''GET'' ''/workspaces/:workspace_id/audit'']"

definition identity_routes :: "string list" where
  "identity_routes =
     [mount ''GET'' ''/workspaces/:workspace_id/users'',
      mount ''POST'' ''/workspaces/:workspace_id/users'',
      mount ''GET'' ''/workspaces/:workspace_id/users/:user_id'',
      mount ''PATCH'' ''/workspaces/:workspace_id/users/:user_id'',
      mount ''DELETE'' ''/workspaces/:workspace_id/users/:user_id'',
      mount ''GET'' ''/workspaces/:workspace_id/users/:user_id/roles'',
      mount ''POST'' ''/workspaces/:workspace_id/users/:user_id/roles'',
      mount ''DELETE'' ''/workspaces/:workspace_id/users/:user_id/roles/:role_name'',
      mount ''POST'' ''/workspaces/:workspace_id/users/:user_id/reset-password'',
      mount ''PUT'' ''/workspaces/:workspace_id/users/:user_id/password'',
      mount ''GET'' ''/workspaces/:workspace_id/users/:user_id/sessions'',
      mount ''DELETE'' ''/workspaces/:workspace_id/users/:user_id/sessions'',
      mount ''GET'' ''/workspaces/:workspace_id/sessions'',
      mount ''DELETE'' ''/workspaces/:workspace_id/sessions/:session_id'',
      mount ''GET'' ''/workspaces/:workspace_id/roles'',
      mount ''POST'' ''/workspaces/:workspace_id/roles'',
      mount ''GET'' ''/workspaces/:workspace_id/roles/:role_name'',
      mount ''PATCH'' ''/workspaces/:workspace_id/roles/:role_name'',
      mount ''DELETE'' ''/workspaces/:workspace_id/roles/:role_name'',
      mount ''GET'' ''/workspaces/:workspace_id/roles/:role_name/users'',
      mount ''GET'' ''/workspaces/:workspace_id/invitations'',
      mount ''POST'' ''/workspaces/:workspace_id/invitations'',
      mount ''DELETE'' ''/workspaces/:workspace_id/invitations/:invitation_id'',
      mount ''POST'' ''/workspaces/:workspace_id/invitations/:invitation_id/resend'']"

definition mountV1 :: "router_deps \<Rightarrow> string list" where
  "mountV1 deps =
     (if \<not> has_Workspace deps then []
      else (if has_Project deps then scope_routes else []) @
        workspace_routes @
        (if has_Connection deps then connection_routes else []) @
        (if has_Project deps then project_routes else []) @
        (if has_WorkspaceAudit deps then audit_routes else []) @
        (if has_WorkspaceIdentity deps then identity_routes else []))"

section \<open>Lemmas\<close>

text \<open>A list of routes is classified when each is a named row of the table; giving the
  row numbers avoids comparing every route with every other.\<close>

lemma rows_subset:
  assumes "xs = map ((!) ys) rows" and "list_all (\<lambda>i. i < length ys) rows"
  shows "set xs \<subseteq> set ys"
  using assms by (auto simp: list_all_iff)

lemmas route_defs = registry_def routeKey_def mount_def v1Workspaces_def v1Workspace_def
  v1Project_def

lemma set_allRoutes: "set allRoutes = route_of ` set registry"
  by (simp add: allRoutes_def)

lemma ValidateRegistry_iff:
  "ValidateRegistry mounted = Inr () \<longleftrightarrow> set mounted \<subseteq> fst ` set registry"
  by (auto simp: ValidateRegistry_def Let_def filter_empty_conv map_of_eq_None_iff)

lemma scope_routes_classified: "set scope_routes \<subseteq> set (map fst registry)"
  by (rule rows_subset [where rows = "[21]"])
    (simp_all add: scope_routes_def route_defs)

lemma workspace_routes_classified: "set workspace_routes \<subseteq> set (map fst registry)"
  by (rule rows_subset [where rows = "[0, 1, 2, 3, 4]"])
    (simp_all add: workspace_routes_def route_defs)

lemma connection_routes_classified: "set connection_routes \<subseteq> set (map fst registry)"
  by (rule rows_subset [where rows = "[5, 6, 7, 8, 9, 10, 11, 12]"])
    (simp_all add: connection_routes_def route_defs)

lemma project_routes_classified: "set project_routes \<subseteq> set (map fst registry)"
  by (rule rows_subset [where rows = "[13, 14, 15, 16, 17, 18, 19, 20]"])
    (simp_all add: project_routes_def route_defs)

lemma audit_routes_classified: "set audit_routes \<subseteq> set (map fst registry)"
  by (rule rows_subset [where rows = "[42]"])
    (simp_all add: audit_routes_def route_defs)

lemma identity_routes_classified: "set identity_routes \<subseteq> set (map fst registry)"
  by (rule rows_subset [where rows = "[22, 23, 24, 25, 26, 29, 30, 31, 27, 28, 32, 33, 34, 35, 36, 37, 38, 39, 40, 41, 43, 44, 45, 46]"])
    (simp_all add: identity_routes_def route_defs)

lemma identity_routes_declared: "identity_routes = MountedWorkspaceIdentityRoutes"
  by (simp add: MountedWorkspaceIdentityRoutes_def identity_routes_def mount_def v1Workspace_def)

text \<open>The boot check accepts a route set exactly when every route in it has
  an entry, and otherwise names all and only the routes that have none.\<close>

theorem ValidateRegistry_exact:
  "(ValidateRegistry mounted = Inr () \<longleftrightarrow> set mounted \<subseteq> set RegisteredRoutes) \<and>
   (case ValidateRegistry mounted of
      Inl missing \<Rightarrow> set missing = set mounted - set RegisteredRoutes \<and> missing \<noteq> [] \<and> sorted missing
    | Inr _ \<Rightarrow> set mounted \<subseteq> set RegisteredRoutes)"
proof -
  have r: "set RegisteredRoutes = fst ` set registry" by (simp add: RegisteredRoutes_def)
  have f: "filter (\<lambda>r. map_of registry r = None) mounted = [] \<longleftrightarrow> set mounted \<subseteq> fst ` set registry"
    by (auto simp: filter_empty_conv map_of_eq_None_iff)
  have s: "set (filter (\<lambda>r. map_of registry r = None) mounted) = set mounted - fst ` set registry"
    by (auto simp: map_of_eq_None_iff)
  have n: "sort xs = [] \<longleftrightarrow> xs = []" for xs :: "string list"
    by (metis length_0_conv length_sort)
  show ?thesis using f s by (auto simp: ValidateRegistry_def Let_def r n)
qed

text \<open>Whatever subset of the optional handlers is wired, every route the router
  mounts under /v1 is classified, and the declared workspace-identity routes are
  exactly those mounted by that handler.\<close>

theorem mountV1_classified:
  "ValidateRegistry (mountV1 deps) = Inr () \<and>
   ValidateRegistry MountedWorkspaceIdentityRoutes = Inr () \<and>
   identity_routes = MountedWorkspaceIdentityRoutes"
proof -
  have "set (mountV1 deps) \<subseteq> fst ` set registry"
    using scope_routes_classified workspace_routes_classified connection_routes_classified
      project_routes_classified audit_routes_classified identity_routes_classified
    unfolding mountV1_def by auto
  with identity_routes_classified identity_routes_declared show ?thesis
    unfolding ValidateRegistry_iff by auto
qed

text \<open>A route a project credential can reach lies inside a workspace path,
  demands a scope of the vocabulary, and demands a read scope exactly when it is
  a GET; every other route demands none.\<close>

theorem reachable_routes_scoped:
  "list_all (\<lambda>r. has_prefix v1Workspace (rr_Path r) \<and> IsKnownScope (rq_Scope r) \<and>
       (rr_Method r = ''GET'') = (\<not> IsWrite (rq_Scope r))) ProjectReachableRoutes \<and>
   list_all (\<lambda>r. rq_Scope r = []) OperatorOnlyRoutes"
proof -
  have "list_all (\<lambda>e. let r = route_of e in if rq_OperatorOnly r then rq_Scope r = [] else
      has_prefix v1Workspace (rr_Path r) \<and> IsKnownScope (rq_Scope r) \<and>
       (rr_Method r = ''GET'') = (\<not> IsWrite (rq_Scope r))) registry"
    by code_simp
  then show ?thesis
    by (auto simp: list_all_iff ProjectReachableRoutes_def OperatorOnlyRoutes_def set_allRoutes
        Let_def split: if_splits)
qed

end
