(* ===== verification/Authorize.thy ===== *)
theory Authorize
  imports Authn Registry
begin

text \<open>
  \<^verbatim>\<open>internal/authz/authorize.go\<close> and \<^verbatim>\<open>errors.go\<close>: the single
  authorization boundary of \<^verbatim>\<open>/v1\<close>. A principal and a route give a
  decision; the middleware writes the denial (and its security event) or lets
  the request continue.

  Lemmas: the exact condition under which each kind of caller is admitted, the
  order of the checks, and that a project's decision calls nothing.
\<close>

record authz_error =
  az_Code :: string
  az_Message :: string
  az_Status :: nat

definition ErrUnauthenticated :: authz_error where
  "ErrUnauthenticated = \<lparr> az_Code = ''credential_invalid'',
     az_Message = ''The provided credential is not valid'', az_Status = 401 \<rparr>"

definition ErrWorkspaceMismatch :: authz_error where
  "ErrWorkspaceMismatch = \<lparr> az_Code = ''workspace_mismatch'',
     az_Message = ''This credential is not authorized for the requested workspace'',
     az_Status = 403 \<rparr>"

definition ErrInsufficientScope :: authz_error where
  "ErrInsufficientScope = \<lparr> az_Code = ''insufficient_scope'',
     az_Message = ''This credential does not carry the scope required for this operation'',
     az_Status = 403 \<rparr>"

definition ErrOperatorOnly :: authz_error where
  "ErrOperatorOnly = \<lparr> az_Code = ''operator_only'',
     az_Message = ''This operation is restricted to console operators and is not available to project credentials'',
     az_Status = 403 \<rparr>"

definition ErrForbidden :: authz_error where
  "ErrForbidden = \<lparr> az_Code = ''forbidden'', az_Message = ''Forbidden'', az_Status = 403 \<rparr>"

definition ErrAuthorizationUnavailable :: authz_error where
  "ErrAuthorizationUnavailable = \<lparr> az_Code = ''authorization_unavailable'',
     az_Message = ''Authorization check unavailable'', az_Status = 503 \<rparr>"

definition ErrRateLimited :: authz_error where
  "ErrRateLimited = \<lparr> az_Code = ''rate_limit_exceeded'',
     az_Message = ''Rate limit exceeded for this credential'', az_Status = 429 \<rparr>"

section \<open>Decisions\<close>

definition deny :: "authz_error \<Rightarrow> http_ctx \<Rightarrow> http_ctx" where
  "deny e c = abort_with (az_Status e) (Envelope (az_Code e) (az_Message e) (FromContext c)) c"

definition denyProject :: "project_principal \<Rightarrow> authz_error \<Rightarrow> http_ctx \<Rightarrow> http_ctx" where
  "denyProject p e c =
     deny e (EmitEvent EventForbidden (pp_ProjectID p)
       (az_Code e @ '' (credential='' @ pp_CredentialID p @ '', bound='' @ pp_WorkspaceID p @ '')'') c)"

definition sameWorkspace :: "string \<Rightarrow> string \<Rightarrow> bool" where
  "sameWorkspace bound from_path =
     (case Parse WorkspacePrefix bound of
        Inl _ \<Rightarrow> False
      | Inr a \<Rightarrow>
          (case Parse WorkspacePrefix from_path of
             Inl _ \<Rightarrow> False
           | Inr b \<Rightarrow> a = b))"

definition operatorRole :: string where "operatorRole = ''admin''"

definition authorizeOperator :: "'s admin_checker option \<Rightarrow> identity \<Rightarrow> 's middleware" where
  "authorizeOperator checker i sc =
     (let (s, c) = sc in
      if \<not> HasRole i operatorRole
      then (s, deny ErrForbidden
                 (EmitEvent EventForbidden (id_Subject i) (''missing role: '' @ operatorRole) c))
      else case checker of
        None \<Rightarrow> (s, c)
      | Some isAdmin \<Rightarrow>
          (case isAdmin (id_Subject i) s of
             (Inl err, s') \<Rightarrow>
               (s', deny ErrAuthorizationUnavailable
                      (EmitEvent EventForbidden (id_Subject i)
                        (''live admin check failed: '' @ err) c))
           | (Inr admin, s') \<Rightarrow>
               if \<not> admin
               then (s', deny ErrForbidden
                      (EmitEvent EventForbidden (id_Subject i)
                        ''live admin check denied: token role no longer present server-side'' c))
               else (s', c)))"

definition scope_challenge :: "string \<Rightarrow> string" where
  "scope_challenge s = ''Bearer error=\"insufficient_scope\", scope=\"'' @ s @ ''\"''"

definition authorizeProject :: "requirement \<Rightarrow> project_principal \<Rightarrow> http_ctx \<Rightarrow> http_ctx" where
  "authorizeProject req p c =
     (if rq_OperatorOnly req then denyProject p ErrOperatorOnly c
      else let pathWorkspace = Param c ''workspace_id'' in
        if pathWorkspace = [] then denyProject p ErrForbidden c
        else if \<not> sameWorkspace (pp_WorkspaceID p) pathWorkspace
        then denyProject p ErrWorkspaceMismatch c
        else if \<not> HasScope (pp_Scopes p) (rq_Scope req)
        then denyProject p ErrInsufficientScope
               (set_header ''WWW-Authenticate'' (scope_challenge (rq_Scope req)) c)
        else c)"

definition Authorize :: "'s admin_checker option \<Rightarrow> 's middleware" where
  "Authorize checker sc =
     (let (s, c) = sc in
      case PrincipalFrom c of
        None \<Rightarrow> (s, deny ErrUnauthenticated c)
      | Some who \<Rightarrow>
          (case RequirementFor (rq_method c) (rq_route c) of
             None \<Rightarrow> (s, deny ErrForbidden c)
           | Some req \<Rightarrow>
               if IsOperator who
               then authorizeOperator checker (the (pr_Operator who)) (s, c)
               else if IsProject who
               then (s, authorizeProject req (the (pr_Project who)) c)
               else (s, deny ErrUnauthenticated c)))"

definition RequireOperator :: "http_ctx \<Rightarrow> http_ctx" where
  "RequireOperator c =
     (case PrincipalFrom c of
        None \<Rightarrow> deny ErrUnauthenticated c
      | Some p \<Rightarrow> if \<not> IsOperator p then deny ErrOperatorOnly c else c)"

section \<open>Lemmas\<close>

lemma deny_rs [simp]:
  "rs_abort (deny e c) = Some (az_Status e, Envelope (az_Code e) (az_Message e) (FromContext c))"
  by (simp add: deny_def)

lemma denyProject_rs [simp]:
  "rs_abort (denyProject p e c) =
     Some (az_Status e, Envelope (az_Code e) (az_Message e) (FromContext c))"
  by (simp add: denyProject_def FromContext_def EmitEvent_def)

lemma sameWorkspace_iff:
  "sameWorkspace a b \<longleftrightarrow>
     (\<exists>u. Parse WorkspacePrefix a = Inr u \<and> Parse WorkspacePrefix b = Inr u)"
  by (auto simp: sameWorkspace_def split: sum.splits)

lemma sameWorkspace_formatted:
  "canonical u \<Longrightarrow> canonical v \<Longrightarrow>
     sameWorkspace (Format WorkspacePrefix u) (Format WorkspacePrefix v) \<longleftrightarrow> u = v"
  using Parse_Format_aux [of u WorkspacePrefix] Parse_Format_aux [of v WorkspacePrefix]
    id_prefixes_ok [of WorkspacePrefix]
  by (auto simp: sameWorkspace_iff id_prefixes_def)

text \<open>The first refusal of the project path, or none.\<close>

definition project_verdict :: "requirement \<Rightarrow> project_principal \<Rightarrow> string \<Rightarrow> authz_error option" where
  "project_verdict req p ws =
     (if rq_OperatorOnly req then Some ErrOperatorOnly
      else if ws = [] then Some ErrForbidden
      else if \<not> sameWorkspace (pp_WorkspaceID p) ws then Some ErrWorkspaceMismatch
      else if rq_Scope req \<notin> set (pp_Scopes p) then Some ErrInsufficientScope
      else None)"

lemma authorizeProject_verdict:
  "rs_abort c = None \<Longrightarrow>
   rs_abort (authorizeProject req p c) =
     map_option (\<lambda>e. (az_Status e, Envelope (az_Code e) (az_Message e) (FromContext c)))
       (project_verdict req p (Param c ''workspace_id''))"
  by (simp add: authorizeProject_def project_verdict_def Let_def FromContext_def set_header_def)

lemma Authorize_project:
  assumes "cx_principal c = Some (NewProjectPrincipal p)"
    and "RequirementFor (rq_method c) (rq_route c) = Some req"
  shows "Authorize checker (s, c) = (s, authorizeProject req p c)"
  using assms by (simp add: Authorize_def PrincipalFrom_def)

lemma Authorize_operator:
  assumes "cx_principal c = Some (NewOperatorPrincipal i)"
    and "RequirementFor (rq_method c) (rq_route c) = Some req"
  shows "Authorize checker (s, c) = authorizeOperator checker i (s, c)"
  using assms by (simp add: Authorize_def PrincipalFrom_def)

section \<open>Properties\<close>

text \<open>A machine credential passes exactly when the route is scoped, the path
  names the very workspace the credential is bound to and the credential holds
  the route's scope; and for every checker the decision leaves the checker's
  state alone, so it is taken without a lookup of any kind.\<close>

theorem project_admitted_iff:
  assumes "cx_principal c = Some (NewProjectPrincipal p)" and "rs_abort c = None"
  shows "(rs_abort (snd (Authorize checker (s, c))) = None \<longleftrightarrow>
     (\<exists>req u. RequirementFor (rq_method c) (rq_route c) = Some req \<and> \<not> rq_OperatorOnly req \<and>
        Param c ''workspace_id'' \<noteq> [] \<and>
        Parse WorkspacePrefix (pp_WorkspaceID p) = Inr u \<and>
        Parse WorkspacePrefix (Param c ''workspace_id'') = Inr u \<and>
        rq_Scope req \<in> set (pp_Scopes p))) \<and>
     fst (Authorize checker (s, c)) = s"
proof (cases "RequirementFor (rq_method c) (rq_route c)")
  case None
  with assms show ?thesis by (simp add: Authorize_def PrincipalFrom_def)
next
  case (Some req)
  with assms show ?thesis
    by (auto simp: Authorize_project authorizeProject_verdict project_verdict_def sameWorkspace_iff)
qed

definition users_request :: "string \<Rightarrow> http_ctx" where
  "users_request ws = empty_ctx\<lparr> rq_method := ''GET'', rq_route := v1Workspace @ ''/users'',
     rq_params := [(''workspace_id'', ws)],
     cx_principal := Some (NewProjectPrincipal demo_project) \<rparr>"

lemma users_route: "RequirementFor ''GET'' (v1Workspace @ ''/users'') = Some (scoped ScopeUsersRead)"
  by code_simp

theorem project_admitted_iff_witness:
  "rs_abort (snd (Authorize (Some (\<lambda>_ n. (Inl ''down'', n + 1)))
     (0 :: nat, users_request ''0F8FAD5B-D9CB-469F-A165-70867728950E''))) = None"
proof -
  let ?c = "users_request ''0F8FAD5B-D9CB-469F-A165-70867728950E''"
  have "Parse WorkspacePrefix (pp_WorkspaceID demo_project) =
          Inr ''0f8fad5b-d9cb-469f-a165-70867728950e''"
    "Parse WorkspacePrefix ''0F8FAD5B-D9CB-469F-A165-70867728950E'' =
          Inr ''0f8fad5b-d9cb-469f-a165-70867728950e''" by code_simp+
  then show ?thesis
    using project_admitted_iff [of ?c demo_project "Some (\<lambda>_ n. (Inl ''down'', n + 1))" "0 :: nat"]
    by (simp add: users_request_def empty_ctx_def users_route scoped_def Param_def
        lookup_or_empty_def demo_project_def ScopeUsersRead_def)
qed

text \<open>A credential addressing a workspace other than its own is told only that:
  the refusal is workspace_mismatch whatever scopes it holds, whichever scoped
  route it calls and whether or not that workspace exists, and no header names
  a scope.\<close>

theorem foreign_workspace_refused:
  assumes "cx_principal c = Some (NewProjectPrincipal p)" and "rs_abort c = None"
    and "RequirementFor (rq_method c) (rq_route c) = Some req" and "\<not> rq_OperatorOnly req"
    and "pp_WorkspaceID p = Format WorkspacePrefix u" and "canonical u"
    and "Param c ''workspace_id'' = Format WorkspacePrefix v" and "canonical v" and "u \<noteq> v"
  shows "rs_abort (snd (Authorize checker (s, c))) =
     Some (403, Envelope ''workspace_mismatch''
       ''This credential is not authorized for the requested workspace'' (FromContext c)) \<and>
     rs_headers (snd (Authorize checker (s, c))) = rs_headers c"
proof -
  have ne: "Format WorkspacePrefix v \<noteq> []" by (simp add: Format_def)
  have "\<not> sameWorkspace (Format WorkspacePrefix u) (Format WorkspacePrefix v)"
    using sameWorkspace_formatted [OF assms(6,8)] assms(9) by simp
  with assms ne show ?thesis
    by (simp add: Authorize_project authorizeProject_def Let_def ErrWorkspaceMismatch_def
        FromContext_def) (simp add: denyProject_def deny_def ctx_defs)
qed

theorem foreign_workspace_refused_witness:
  "fst (the (rs_abort (snd (Authorize None
     ((), users_request ''ws_11111111-d9cb-469f-a165-70867728950e''))))) = 403"
proof -
  let ?c = "users_request ''ws_11111111-d9cb-469f-a165-70867728950e''"
  have "canonical ''0f8fad5b-d9cb-469f-a165-70867728950e''"
    "canonical ''11111111-d9cb-469f-a165-70867728950e''" by code_simp+
  then show ?thesis
    using foreign_workspace_refused [of ?c demo_project "scoped ScopeUsersRead"
        "''0f8fad5b-d9cb-469f-a165-70867728950e''" "''11111111-d9cb-469f-a165-70867728950e''" None "()"]
    by (simp add: users_request_def empty_ctx_def users_route Param_def lookup_or_empty_def
        demo_project_def Format_def WorkspacePrefix_def separator_def scoped_def)
qed

text \<open>An operator passes a classified route exactly with the realm admin role in
  the token and, when a checker is wired, its live confirmation; without the
  role the checker is never called (its state is kept for every checker), and a
  checker that cannot answer is a 503, never an admission.\<close>

theorem operator_admitted_iff:
  assumes "cx_principal c = Some (NewOperatorPrincipal i)" and "rs_abort c = None"
    and "RequirementFor (rq_method c) (rq_route c) = Some req"
  shows "let r = Authorize checker (s, c) in
     (rs_abort (snd r) = None \<longleftrightarrow> ''admin'' \<in> set (id_Roles i) \<and>
        (checker = None \<or> fst (the checker (id_Subject i) s) = Inr True)) \<and>
     (if ''admin'' \<notin> set (id_Roles i) \<or> checker = None then fst r = s
      else fst r = snd (the checker (id_Subject i) s) \<and>
        (case fst (the checker (id_Subject i) s) of
           Inl _ \<Rightarrow> (\<exists>b. rs_abort (snd r) = Some (503, b))
         | Inr ok \<Rightarrow> ok \<or> (\<exists>b. rs_abort (snd r) = Some (403, b))))"
  using assms
  by (auto simp: Authorize_operator authorizeOperator_def operatorRole_def Let_def
      ErrAuthorizationUnavailable_def ErrForbidden_def split: option.splits prod.splits sum.splits)

definition demo_operator :: identity where
  "demo_operator = \<lparr> id_Subject = ''u1'', id_Email = [], id_Username = [],
     id_Roles = [''admin''], id_ExpiresAt = 0 \<rparr>"

definition operator_request :: http_ctx where
  "operator_request =
     (users_request ''x'')\<lparr> cx_principal := Some (NewOperatorPrincipal demo_operator) \<rparr>"

theorem operator_admitted_iff_witness:
  "\<exists>b. rs_abort (snd (Authorize (Some (\<lambda>_ n. (Inl ''down'', n + 1))) (0 :: nat, operator_request)))
     = Some (503, b)"
proof -
  have "cx_principal operator_request = Some (NewOperatorPrincipal demo_operator)"
    "rs_abort operator_request = None"
    "RequirementFor (rq_method operator_request) (rq_route operator_request) =
       Some (scoped ScopeUsersRead)"
    by (simp_all add: operator_request_def users_request_def empty_ctx_def users_route)
  from operator_admitted_iff [OF this, of "Some (\<lambda>_ n. (Inl ''down'', n + 1))" "0 :: nat"]
  show ?thesis by (simp add: demo_operator_def Let_def)
qed

text \<open>A route with no entry in the table, and a request with no principal, are
  refused for every caller without calling the checker.\<close>

theorem unclassified_denied:
  assumes "RequirementFor (rq_method c) (rq_route c) = None \<or> cx_principal c = None"
  shows "fst (Authorize checker (s, c)) = s \<and>
     (\<exists>st m. rs_abort (snd (Authorize checker (s, c))) = Some (st, m) \<and>
        st = (if cx_principal c = None then 401 else 403))"
  using assms by (auto simp: Authorize_def PrincipalFrom_def ErrForbidden_def ErrUnauthenticated_def
      split: option.splits)

theorem unclassified_denied_witness:
  "rs_abort (snd (Authorize (None :: unit admin_checker option)
     ((), (users_request ''x'')\<lparr> rq_method := ''TRACE'' \<rparr>))) \<noteq> None"
proof -
  have "RequirementFor ''TRACE'' (v1Workspace @ ''/users'') = None" by code_simp
  then show ?thesis
    using unclassified_denied [of "(users_request ''x'')\<lparr> rq_method := ''TRACE'' \<rparr>"
        "None :: unit admin_checker option" "()"]
    by (auto simp: users_request_def)
qed

end
