(* ===== verification/RateLimit.thy ===== *)
theory RateLimit
  imports Complex_Main Float64 Authorize Text
begin

text \<open>
  The rate limiters of \<^verbatim>\<open>internal/server/ratelimit.go\<close>: the lazily refilled token
  bucket per key (allow, refund, the sweeper), the client address, and the three
  middlewares. Tokens are \<^verbatim>\<open>float64\<close> values and every operation on them rounds, as
  compiled for amd64 (a target that fuses the multiplication into the addition rounds
  once less). A call carries the time it reads; \<open>l.mu\<close> makes each of them one step.

  Lemmas: the level \<open>allow\<close> decides on, what the three operations do to the levels,
  and how far the rounded refill is from the exact one; from them the bound on what a
  key is admitted, the time after which it is admitted again, and what the edge
  limiter charges.
\<close>

section \<open>The token bucket\<close>

record ip_bucket =
  bk_tokens :: rat
  bk_last :: int
  bk_lastSeen :: int

record rate_limiter =
  rl_buckets :: "string \<Rightarrow> ip_bucket option"
  rl_rate :: rat
  rl_burst :: rat

definition rateLimitDefaultRate :: rat where "rateLimitDefaultRate = 10"
definition rateLimitDefaultBurst :: int where "rateLimitDefaultBurst = 20"
definition rateLimitStaleAfter :: int where "rateLimitStaleAfter = 600 * 1000000000"

definition newRateLimiter :: "rat \<Rightarrow> int \<Rightarrow> rate_limiter" where
  "newRateLimiter rate burst =
     \<lparr> rl_buckets = (\<lambda>_. None),
       rl_rate = (if rate \<le> 0 then rateLimitDefaultRate else rate),
       rl_burst = fl (of_int (if burst \<le> 0 then rateLimitDefaultBurst else burst)) \<rparr>"

text \<open>\<^verbatim>\<open>Duration.Seconds\<close> of nanoseconds: the whole seconds plus the rest over 1e9,
  both divisions of the integer towards zero.\<close>

definition seconds :: "int \<Rightarrow> rat" where
  "seconds ns =
     (let sec = (if ns < 0 then - (- ns div 1000000000) else ns div 1000000000);
          nsec = ns - sec * 1000000000
      in fl (fl (of_int sec) + fl (fl (of_int nsec) / 1000000000)))"

definition allow :: "int \<Rightarrow> string \<Rightarrow> rate_limiter \<Rightarrow> (bool \<times> int) \<times> rate_limiter" where
  "allow now k l =
     (let b = (case rl_buckets l k of
                 None \<Rightarrow> \<lparr> bk_tokens = rl_burst l, bk_last = now, bk_lastSeen = now \<rparr>
               | Some b \<Rightarrow>
                   (let t = fl (bk_tokens b + fl (seconds (now - bk_last b) * rl_rate l)) in
                    b\<lparr> bk_tokens := (if t > rl_burst l then rl_burst l else t) \<rparr>));
          b = b\<lparr> bk_last := now, bk_lastSeen := now \<rparr>
      in if bk_tokens b < 1 then ((False, 0), l\<lparr> rl_buckets := (rl_buckets l)(k \<mapsto> b) \<rparr>)
         else let b = b\<lparr> bk_tokens := fl (bk_tokens b - 1) \<rparr> in
           ((True, \<lfloor>bk_tokens b\<rfloor>), l\<lparr> rl_buckets := (rl_buckets l)(k \<mapsto> b) \<rparr>))"

definition refund :: "string \<Rightarrow> rate_limiter \<Rightarrow> rate_limiter" where
  "refund k l =
     (case rl_buckets l k of
        None \<Rightarrow> l
      | Some b \<Rightarrow>
          (let t = fl (bk_tokens b + 1) in
           l\<lparr> rl_buckets := (rl_buckets l)(k \<mapsto> b\<lparr> bk_tokens := (if t > rl_burst l then rl_burst l else t) \<rparr>) \<rparr>))"

definition sweep :: "int \<Rightarrow> rate_limiter \<Rightarrow> rate_limiter" where
  "sweep now l =
     l\<lparr> rl_buckets := (\<lambda>k. case rl_buckets l k of
          None \<Rightarrow> None
        | Some b \<Rightarrow> if bk_lastSeen b < now - rateLimitStaleAfter then None else Some b) \<rparr>"

text \<open>The settings: the burst is twice the rate, or a default.\<close>

definition burstFor :: "rat \<Rightarrow> int \<Rightarrow> int" where
  "burstFor rate fallback = (if rate \<le> 0 then fallback else \<lfloor>fl (rate * 2)\<rfloor>)"

section \<open>The client address\<close>

definition last_index :: "char \<Rightarrow> string \<Rightarrow> nat option" where
  "last_index c s =
     (case cut_at c (rev s) of None \<Rightarrow> None | Some (after, _) \<Rightarrow> Some (length s - length after - 1))"

text \<open>\<^verbatim>\<open>net.SplitHostPort\<close>: the host, or \<^const>\<open>None\<close> for any of its errors.\<close>

definition split_host :: "string \<Rightarrow> string option" where
  "split_host hp =
     (case last_index CHR '':'' hp of
        None \<Rightarrow> None
      | Some i \<Rightarrow>
          if hd hp = CHR ''[''
          then (case cut_at CHR '']'' hp of
                  None \<Rightarrow> None
                | Some (before, after) \<Rightarrow>
                    if length before + 1 \<noteq> i then None
                    else if CHR ''['' \<in> set (tl hp) \<or> CHR '']'' \<in> set after then None
                    else Some (tl before))
          else if CHR '':'' \<in> set (take i hp) \<or> CHR ''['' \<in> set hp \<or> CHR '']'' \<in> set hp then None
          else Some (take i hp))"

definition clientIP :: "string \<Rightarrow> http_ctx \<Rightarrow> string" where
  "clientIP remote c =
     (if GetHeader c ''X-Forwarded-For'' \<noteq> [] then
        (case cut_at CHR '','' (GetHeader c ''X-Forwarded-For'') of
           Some (first, _) \<Rightarrow> trim_space first
         | None \<Rightarrow> trim_space (GetHeader c ''X-Forwarded-For''))
      else if GetHeader c ''X-Real-IP'' \<noteq> [] then trim_space (GetHeader c ''X-Real-IP'')
      else case split_host remote of Some host \<Rightarrow> host | None \<Rightarrow> remote)"

section \<open>The middlewares\<close>

definition abortRateLimited :: "http_ctx \<Rightarrow> http_ctx" where
  "abortRateLimited c =
     abort_with (az_Status ErrRateLimited)
       (Envelope (az_Code ErrRateLimited) (az_Message ErrRateLimited) (FromContext c)) c"

definition RateLimitPerIP :: "int \<Rightarrow> string \<Rightarrow> rate_limiter middleware" where
  "RateLimitPerIP now remote lc =
     (let ((ok, _), l) = allow now (clientIP remote (snd lc)) (fst lc) in
      if \<not> ok
      then (l, abort_with 429 (Legacy ''rate limit exceeded'') (set_header ''Retry-After'' ''1'' (snd lc)))
      else (l, snd lc))"

text \<open>The edge limiter goes on after the rest of the chain has returned, so the
  rest is an argument; it runs at most once.\<close>

definition RateLimitEdge ::
  "int \<Rightarrow> string \<Rightarrow> 's middleware \<Rightarrow> (rate_limiter \<times> 's) middleware" where
  "RateLimitEdge now remote rest lsc =
     (let ((l, s), c) = lsc; ip = clientIP remote c; ((ok, _), l) = allow now ip l in
      if \<not> ok then ((l, s), abortRateLimited (set_header ''Retry-After'' ''1'' c))
      else let (s, c) = rest (s, c) in
        (case PrincipalFrom c of
           Some p \<Rightarrow> if IsProject p then ((refund ip l, s), c) else ((l, s), c)
         | None \<Rightarrow> ((l, s), c)))"

definition credentialRateLimitRate :: rat where "credentialRateLimitRate = 20"
definition credentialRateLimitBurst :: int where "credentialRateLimitBurst = 40"

definition newCredentialLimiter :: "rat \<Rightarrow> int \<Rightarrow> rate_limiter" where
  "newCredentialLimiter rate burst =
     newRateLimiter (if rate \<le> 0 then credentialRateLimitRate else rate)
       (if burst \<le> 0 then credentialRateLimitBurst else burst)"

definition RateLimitPerCredential :: "int \<Rightarrow> rate_limiter middleware" where
  "RateLimitPerCredential now lc =
     (let (l, c) = lc; quota = \<lfloor>rl_rate l\<rfloor> in
      case PrincipalFrom c of
        None \<Rightarrow> (l, c)
      | Some p \<Rightarrow>
          if \<not> IsProject p then (l, c)
          else let ((allowed, remaining), l) = allow now (pp_CredentialID (the (pr_Project p))) l;
                   c = set_header ''RateLimit-Limit'' (Itoa (nat quota)) c
            in if \<not> allowed
               then (l, abortRateLimited (set_header ''RateLimit-Remaining'' ''0'' (set_header ''Retry-After'' ''1'' c)))
               else (l, set_header ''RateLimit-Remaining'' (Itoa (nat (if remaining > quota then quota else remaining))) c))"

text \<open>The limiters the router mounts on \<open>/v1\<close> for the configured rates; the one on
  \<open>/admin\<close> is the first of them for the rate 0.\<close>

definition edge_limiter :: "rat \<Rightarrow> rate_limiter" where
  "edge_limiter rate = newRateLimiter rate (burstFor rate rateLimitDefaultBurst)"

definition credential_limiter :: "rat \<Rightarrow> rate_limiter" where
  "credential_limiter rate = newCredentialLimiter rate (burstFor rate credentialRateLimitBurst)"

section \<open>Levels\<close>

text \<open>What \<open>allow\<close> decides on: the bucket of the key refilled, or the full bucket of a
  key that has none.\<close>

definition level :: "int \<Rightarrow> rate_limiter \<Rightarrow> string \<Rightarrow> rat" where
  "level now l k =
     (case rl_buckets l k of
        None \<Rightarrow> rl_burst l
      | Some b \<Rightarrow> min (rl_burst l) (fl (bk_tokens b + fl (seconds (now - bk_last b) * rl_rate l))))"

definition bucket_ok :: "int \<Rightarrow> rate_limiter \<Rightarrow> ip_bucket \<Rightarrow> bool" where
  "bucket_ok now l b \<longleftrightarrow>
     0 \<le> bk_tokens b \<and> bk_tokens b \<le> rl_burst l \<and> float64 (bk_tokens b) \<and> bk_last b = bk_lastSeen b \<and> bk_last b \<le> now"

definition limiter_ok :: "int \<Rightarrow> rate_limiter \<Rightarrow> bool" where
  "limiter_ok now l \<longleftrightarrow> 0 < rl_rate l \<and> 1 \<le> rl_burst l \<and> rl_burst l \<le> 2 ^ 53 \<and> float64 (rl_burst l) \<and>
     (\<forall>k b. rl_buckets l k = Some b \<longrightarrow> bucket_ok now l b)"

lemma seconds_0 [simp]: "seconds 0 = 0" by (simp add: seconds_def)

lemma seconds_nonneg: "0 \<le> d \<Longrightarrow> 0 \<le> seconds d"
  by (simp add: seconds_def Let_def fl_nonneg minus_div_mult_eq_mod)

lemma bucket_okD:
  assumes "limiter_ok t l" and "rl_buckets l k = Some b"
  shows "0 \<le> bk_tokens b" "bk_tokens b \<le> rl_burst l" "float64 (bk_tokens b)" "bk_last b = bk_lastSeen b" "bk_last b \<le> t"
  using assms by (fastforce simp: limiter_ok_def bucket_ok_def)+

lemma limiter_okD:
  assumes "limiter_ok t l"
  shows "0 < rl_rate l" "1 \<le> rl_burst l" "rl_burst l \<le> 2 ^ 53" "float64 (rl_burst l)"
  using assms by (auto simp: limiter_ok_def)

lemma level_burst: "level now l k \<le> rl_burst l"
  by (simp add: level_def split: option.splits)

lemma level_nonneg:
  assumes "limiter_ok now l" shows "0 \<le> level now l k"
proof (cases "rl_buckets l k")
  case (Some b)
  note b = bucket_okD [OF assms Some] and l = limiter_okD [OF assms]
  have "0 \<le> fl (bk_tokens b + fl (seconds (now - bk_last b) * rl_rate l))"
    using b l by (intro fl_nonneg add_nonneg_nonneg mult_nonneg_nonneg seconds_nonneg) simp_all
  with Some l show ?thesis by (simp add: level_def)
qed (use assms in \<open>simp add: level_def limiter_ok_def\<close>)

lemma level_float64:
  assumes "limiter_ok now l" shows "float64 (level now l k)"
  using limiter_okD(4) [OF assms] by (auto simp: level_def min_def float64_fl split: option.splits)

lemma limiter_ok_later: "limiter_ok t l \<Longrightarrow> t \<le> t' \<Longrightarrow> limiter_ok t' l"
  by (fastforce simp: limiter_ok_def bucket_ok_def)

text \<open>The three operations on the levels.\<close>

lemma allow_frame [simp]:
  "rl_rate (snd (allow now k l)) = rl_rate l" "rl_burst (snd (allow now k l)) = rl_burst l"
  by (simp_all add: allow_def Let_def)

lemma refund_frame [simp]: "rl_rate (refund k l) = rl_rate l" "rl_burst (refund k l) = rl_burst l"
  by (simp_all add: refund_def Let_def split: option.splits)

lemma sweep_frame [simp]: "rl_rate (sweep now l) = rl_rate l" "rl_burst (sweep now l) = rl_burst l"
  by (simp_all add: sweep_def)

lemma level_update:
  "level t (l\<lparr> rl_buckets := f \<rparr>) k =
     (case f k of None \<Rightarrow> rl_burst l
      | Some b \<Rightarrow> min (rl_burst l) (fl (bk_tokens b + fl (seconds (t - bk_last b) * rl_rate l))))"
  by (simp add: level_def split: option.splits)

text \<open>The bucket \<open>allow\<close> decides on holds the level of the key; taking a token from
  it is exact.\<close>

lemma level_take:
  assumes "limiter_ok t l" and "1 \<le> level t l k"
  shows "fl (level t l k - 1) = level t l k - 1"
proof -
  have "level t l k \<le> 2 ^ 53" using level_burst [of t l k] limiter_okD(3) [OF assms(1)] by simp
  with assms show ?thesis by (intro fl_float64 float64_take level_float64)
qed

lemma allow_level_form:
  assumes "limiter_ok now l"
  shows "allow now k l =
     ((\<not> level now l k < 1, if level now l k < 1 then 0 else \<lfloor>level now l k - 1\<rfloor>),
      l\<lparr> rl_buckets := (rl_buckets l)(k \<mapsto>
        \<lparr> bk_tokens = (if level now l k < 1 then level now l k else level now l k - 1),
           bk_last = now, bk_lastSeen = now \<rparr>) \<rparr>)"
proof -
  have "fl (level now l k - 1) = level now l k - 1" if "\<not> level now l k < 1"
    using level_take [OF assms, of k] that by simp
  then show ?thesis
  proof (cases "rl_buckets l k")
    case (Some b)
    then show ?thesis using \<open>\<not> level now l k < 1 \<Longrightarrow> fl (level now l k - 1) = level now l k - 1\<close>
      by (cases b) (auto simp: allow_def level_def Let_def min_def)
  qed (auto simp: allow_def level_def Let_def)
qed

lemma bucket_ok_update [simp]: "bucket_ok t (l\<lparr> rl_buckets := f \<rparr>) b = bucket_ok t l b"
  by (simp add: bucket_ok_def)

lemma limiter_ok_update:
  "limiter_ok t l \<Longrightarrow> bucket_ok t l b \<Longrightarrow> limiter_ok t (l\<lparr> rl_buckets := (rl_buckets l)(k \<mapsto> b) \<rparr>)"
  by (simp add: limiter_ok_def)

lemma allow_spec:
  assumes "limiter_ok t l"
  shows "fst (fst (allow t k l)) \<longleftrightarrow> 1 \<le> level t l k"
    and "level t (snd (allow t k l)) j = (if j = k \<and> 1 \<le> level t l k then level t l j - 1 else level t l j)"
    and "limiter_ok t (snd (allow t k l))"
    and "1 \<le> level t l k \<Longrightarrow> snd (fst (allow t k l)) = \<lfloor>level t l k - 1\<rfloor>"
proof -
  note n = level_nonneg [OF assms, of k] level_burst [of t l k] and form = allow_level_form [OF assms]
  define v where "v = (if level t l k < 1 then level t l k else level t l k - 1)"
  have "level t l k \<le> 2 ^ 53" using n limiter_okD(3) [OF assms] by simp
  then have f: "float64 v" using float64_take level_float64 [OF assms, of k] by (simp add: v_def)
  show "fst (fst (allow t k l)) \<longleftrightarrow> 1 \<le> level t l k" by (auto simp: form)
  show "level t (snd (allow t k l)) j = (if j = k \<and> 1 \<le> level t l k then level t l j - 1 else level t l j)"
  proof (cases "j = k")
    case True
    have "v \<le> rl_burst l" using n by (simp add: v_def)
    with True fl_float64 [OF f] show ?thesis
      by (simp add: form level_update flip: v_def) (simp add: v_def)
  qed (simp add: form level_update level_def [of t l j] split: option.splits)
  show "1 \<le> level t l k \<Longrightarrow> snd (fst (allow t k l)) = \<lfloor>level t l k - 1\<rfloor>" by (simp add: form)
  have "bucket_ok t l \<lparr> bk_tokens = v, bk_last = t, bk_lastSeen = t \<rparr>"
    using n f by (simp add: bucket_ok_def v_def)
  from limiter_ok_update [OF assms this, of k] show "limiter_ok t (snd (allow t k l))"
    by (simp add: form v_def)
qed

lemma refund_ok:
  assumes "limiter_ok t l" shows "limiter_ok t (refund k l)"
proof (cases "rl_buckets l k")
  case None
  with assms show ?thesis by (simp add: refund_def)
next
  case (Some b)
  note b = bucket_okD [OF assms Some] and l = limiter_okD [OF assms]
  define v where "v = (if fl (bk_tokens b + 1) > rl_burst l then rl_burst l else fl (bk_tokens b + 1))"
  have "0 \<le> fl (bk_tokens b + 1)" using b by (intro fl_nonneg) simp
  with b l have "bucket_ok t l (b\<lparr> bk_tokens := v \<rparr>)" by (simp add: bucket_ok_def v_def float64_fl)
  from limiter_ok_update [OF assms this, of k] Some show ?thesis by (simp add: refund_def Let_def v_def)
qed

text \<open>Giving the token back right away restores the level exactly.\<close>

lemma refund_taken:
  assumes "limiter_ok t l" and "1 \<le> level t l k"
  shows "level t (refund k (snd (allow t k l))) = level t l"
proof
  fix j
  have v: "float64 (level t l k)" "level t l k \<le> rl_burst l"
    using level_float64 [OF assms(1)] level_burst by simp_all
  show "level t (refund k (snd (allow t k l))) j = level t l j"
    using assms v fl_float64 [OF v(1)]
    by (cases "j = k")
      (simp_all add: allow_level_form refund_def level_update Let_def level_def [of t l j] split: option.splits)
qed

lemma sweep_ok: "limiter_ok t l \<Longrightarrow> limiter_ok t (sweep t l)"
  by (fastforce simp: limiter_ok_def sweep_def split: option.splits if_splits)

section \<open>How far rounding goes\<close>

definition exact_seconds :: "int \<Rightarrow> rat" where "exact_seconds ns = of_int ns / 1000000000"

text \<open>A part in two to the fiftieth of the bucket: what one refill can be off.\<close>

definition slack :: "rate_limiter \<Rightarrow> rat" where "slack l = rl_burst l / 2 ^ 50"

lemma exact_seconds_add: "exact_seconds (a + b) = exact_seconds a + exact_seconds b"
  by (simp add: exact_seconds_def add_divide_distrib)

lemma exact_seconds_0 [simp]: "exact_seconds 0 = 0" by (simp add: exact_seconds_def)

lemma exact_seconds_nonneg [simp]: "0 \<le> exact_seconds d \<longleftrightarrow> 0 \<le> d"
  by (simp add: exact_seconds_def)

lemma exact_seconds_split:
  "exact_seconds d = of_int (d div 1000000000) + of_int (d mod 1000000000) / 1000000000"
proof -
  have "(of_int d :: rat) = of_int (d div 1000000000 * 1000000000 + d mod 1000000000)" by simp
  then show ?thesis unfolding exact_seconds_def of_int_add by (simp add: add_divide_distrib)
qed

lemma seconds_within:
  assumes "0 \<le> d"
  defines "u \<equiv> 1 / 2 ^ 53 :: rat"
  shows "seconds d \<le> exact_seconds d * (1 + u) ^ 3" and "exact_seconds d * (1 - u) ^ 3 \<le> seconds d"
proof -
  define s n :: rat where "s = of_int (d div 1000000000)" and "n = of_int (d mod 1000000000)"
  have nn: "0 \<le> s" "0 \<le> n" using assms(1) by (simp_all add: s_def n_def pos_imp_zdiv_nonneg_iff)
  have u: "0 \<le> u" "u \<le> 1" by (simp_all add: u_def)
  have sec: "seconds d = fl (fl s + fl (fl n / 1000000000))"
    unfolding s_def n_def using assms(1) by (simp only: seconds_def Let_def minus_div_mult_eq_mod not_le [symmetric] not_True_eq_False if_False)
  have ex: "exact_seconds d = s + n / 1000000000" by (simp add: exact_seconds_split s_def n_def)
  have pos: "0 \<le> fl n / 1000000000" using fl_nonneg [OF nn(2)] by simp
  have sum: "0 \<le> fl s + fl (fl n / 1000000000)" using fl_nonneg [OF nn(1)] fl_nonneg [OF pos] by simp
  have "fl s \<le> s * (1 + u)" using fl_upper [OF nn(1)] by (simp add: u_def)
  also have "\<dots> \<le> s * (1 + u) ^ 2" using nn u by (intro mult_left_mono) (simp_all add: power2_eq_square algebra_simps)
  finally have 1: "fl s \<le> s * (1 + u) ^ 2" .
  have "fl (fl n / 1000000000) \<le> fl n / 1000000000 * (1 + u)" using fl_upper [OF pos] by (simp add: u_def)
  also have "\<dots> \<le> n * (1 + u) / 1000000000 * (1 + u)"
    using fl_upper [OF nn(2)] u by (intro mult_right_mono divide_right_mono) (simp_all add: u_def)
  finally have 2: "fl (fl n / 1000000000) \<le> n / 1000000000 * (1 + u) ^ 2" by (simp add: power2_eq_square)
  have "seconds d \<le> (fl s + fl (fl n / 1000000000)) * (1 + u)" unfolding sec using fl_upper [OF sum] by (simp add: u_def)
  also have "\<dots> \<le> (s * (1 + u) ^ 2 + n / 1000000000 * (1 + u) ^ 2) * (1 + u)"
    using 1 2 u by (intro mult_right_mono add_mono) simp_all
  also have "\<dots> = exact_seconds d * (1 + u) ^ 3" unfolding ex by (simp add: power2_eq_square power3_eq_cube algebra_simps)
  finally show "seconds d \<le> exact_seconds d * (1 + u) ^ 3" .
  have "s * (1 - u) ^ 2 \<le> s * (1 - u)" using nn u
    by (intro mult_left_mono) (simp_all add: power2_eq_square mult_left_le)
  also have "\<dots> \<le> fl s" using fl_lower [OF nn(1)] by (simp add: u_def)
  finally have 1: "s * (1 - u) ^ 2 \<le> fl s" .
  have "n / 1000000000 * (1 - u) ^ 2 = n * (1 - u) / 1000000000 * (1 - u)" by (simp add: power2_eq_square)
  also have "\<dots> \<le> fl n / 1000000000 * (1 - u)"
    using fl_lower [OF nn(2)] u by (intro mult_right_mono divide_right_mono) (simp_all add: u_def)
  also have "\<dots> \<le> fl (fl n / 1000000000)" using fl_lower [OF pos] by (simp add: u_def)
  finally have 2: "n / 1000000000 * (1 - u) ^ 2 \<le> fl (fl n / 1000000000)" .
  have "exact_seconds d * (1 - u) ^ 3 = (s * (1 - u) ^ 2 + n / 1000000000 * (1 - u) ^ 2) * (1 - u)"
    unfolding ex by (simp add: power2_eq_square power3_eq_cube algebra_simps)
  also have "\<dots> \<le> (fl s + fl (fl n / 1000000000)) * (1 - u)"
    using 1 2 u by (intro mult_right_mono add_mono) simp_all
  also have "\<dots> \<le> seconds d" unfolding sec using fl_lower [OF sum] by (simp add: u_def)
  finally show "exact_seconds d * (1 - u) ^ 3 \<le> seconds d" .
qed

lemma refill_within:
  assumes "0 \<le> tokens" and "0 \<le> d" and "0 < rate"
  defines "u \<equiv> 1 / 2 ^ 53 :: rat"
  shows "fl (tokens + fl (seconds d * rate)) \<le> (tokens + exact_seconds d * rate) * (1 + 1 / 2 ^ 50)"
    and "exact_seconds d * rate * (1 - u) ^ 5 \<le> fl (tokens + fl (seconds d * rate))"
proof -
  have u: "0 \<le> u" "u \<le> 1" by (simp_all add: u_def)
  have s: "0 \<le> seconds d" "0 \<le> exact_seconds d" using assms(2) by (simp_all add: seconds_nonneg)
  then have sr: "0 \<le> seconds d * rate" using assms(3) by simp
  have sum: "0 \<le> tokens + fl (seconds d * rate)" using assms(1) fl_nonneg [OF sr] by simp
  have "fl (seconds d * rate) \<le> seconds d * rate * (1 + u)" using fl_upper [OF sr] by (simp add: u_def)
  also have "\<dots> \<le> exact_seconds d * (1 + u) ^ 3 * rate * (1 + u)"
    using seconds_within(1) [OF assms(2)] assms(3) u by (intro mult_right_mono) (simp_all add: u_def)
  also have "\<dots> = exact_seconds d * rate * (1 + u) ^ 4" by (simp add: power3_eq_cube power4_eq_xxxx)
  finally have g: "fl (seconds d * rate) \<le> exact_seconds d * rate * (1 + u) ^ 4" .
  have one: "1 \<le> (1 + u) ^ 4" using u by simp
  have "fl (tokens + fl (seconds d * rate)) \<le> (tokens + fl (seconds d * rate)) * (1 + u)"
    using fl_upper [OF sum] by (simp add: u_def)
  also have "\<dots> \<le> (tokens * (1 + u) ^ 4 + exact_seconds d * rate * (1 + u) ^ 4) * (1 + u)"
    using g u mult_left_mono [OF one assms(1)] by (intro mult_right_mono add_mono) simp_all
  also have "\<dots> = (tokens + exact_seconds d * rate) * (1 + u) ^ 5"
    by (simp add: numeral_eq_Suc algebra_simps)
  also have "\<dots> \<le> (tokens + exact_seconds d * rate) * (1 + 1 / 2 ^ 50)"
    using assms(1,3) s by (intro mult_left_mono) (simp_all add: u_def field_simps)
  finally show "fl (tokens + fl (seconds d * rate)) \<le> (tokens + exact_seconds d * rate) * (1 + 1 / 2 ^ 50)" .
  have "exact_seconds d * rate * (1 - u) ^ 5 = exact_seconds d * (1 - u) ^ 3 * rate * (1 - u) * (1 - u)"
    by (simp add: numeral_eq_Suc)
  also have "\<dots> \<le> seconds d * rate * (1 - u) * (1 - u)"
    using seconds_within(2) [OF assms(2)] assms(3) u by (intro mult_right_mono) (simp_all add: u_def)
  also have "\<dots> \<le> fl (seconds d * rate) * (1 - u)"
    using fl_lower [OF sr] u by (intro mult_right_mono) (simp_all add: u_def)
  also have "\<dots> \<le> (tokens + fl (seconds d * rate)) * (1 - u)" using assms(1) u by (intro mult_right_mono) simp_all
  also have "\<dots> \<le> fl (tokens + fl (seconds d * rate))" using fl_lower [OF sum] by (simp add: u_def)
  finally show "exact_seconds d * rate * (1 - u) ^ 5 \<le> fl (tokens + fl (seconds d * rate))" .
qed

text \<open>On the levels.\<close>

lemma level_le_exact:
  assumes "limiter_ok t l" and "rl_buckets l k = Some b"
  shows "level t l k \<le> bk_tokens b + exact_seconds (t - bk_last b) * rl_rate l + slack l"
proof -
  define x where "x = bk_tokens b + exact_seconds (t - bk_last b) * rl_rate l"
  note b = bucket_okD [OF assms] and l = limiter_okD [OF assms(1)]
  have slack: "0 \<le> slack l" using l by (simp add: slack_def)
  show ?thesis
  proof (cases "rl_burst l \<le> x")
    case True
    with level_burst [of t l k] slack show ?thesis by (simp flip: x_def)
  next
    case False
    have "level t l k \<le> fl (bk_tokens b + fl (seconds (t - bk_last b) * rl_rate l))"
      by (simp add: level_def assms(2))
    also have "\<dots> \<le> x * (1 + 1 / 2 ^ 50)" unfolding x_def using b l by (intro refill_within(1)) simp_all
    also have "\<dots> = x + x / 2 ^ 50" by (simp add: algebra_simps)
    also have "\<dots> \<le> x + slack l" using False unfolding slack_def by (intro add_left_mono divide_right_mono) simp_all
    finally show ?thesis by (simp add: x_def)
  qed
qed

lemma level_one:
  assumes "limiter_ok t l" and "rl_buckets l k = Some b"
    and "1 + 1 / 2 ^ 50 \<le> exact_seconds (t - bk_last b) * rl_rate l"
  shows "1 \<le> level t l k"
proof -
  note b = bucket_okD [OF assms(1,2)] and l = limiter_okD [OF assms(1)]
  have "(1 :: rat) \<le> (1 + 1 / 2 ^ 50) * (1 - 1 / 2 ^ 53) ^ 5" by (simp add: field_simps)
  also have "\<dots> \<le> exact_seconds (t - bk_last b) * rl_rate l * (1 - 1 / 2 ^ 53) ^ 5"
    by (rule mult_right_mono [OF assms(3)]) simp
  also have "\<dots> \<le> fl (bk_tokens b + fl (seconds (t - bk_last b) * rl_rate l))"
    using b l by (intro refill_within(2)) simp_all
  finally show ?thesis using l by (simp add: level_def assms(2))
qed

section \<open>Allowances\<close>

text \<open>What a key has left by exact arithmetic.\<close>

definition allowance :: "int \<Rightarrow> rate_limiter \<Rightarrow> string \<Rightarrow> rat" where
  "allowance now l k =
     (case rl_buckets l k of
        None \<Rightarrow> rl_burst l
      | Some b \<Rightarrow> bk_tokens b + exact_seconds (now - bk_last b) * rl_rate l)"

lemma allowance_nonneg: "limiter_ok t l \<Longrightarrow> 0 \<le> allowance t l k"
  using bucket_okD [of t l k] limiter_okD [of t l] by (simp add: allowance_def split: option.split)

lemma level_le_allowance: "limiter_ok t l \<Longrightarrow> level t l k \<le> allowance t l k + slack l"
  using level_le_exact [of t l k] limiter_okD(2) [of t l]
  by (cases "rl_buckets l k") (simp_all add: allowance_def level_def slack_def)

lemma allowance_later:
  assumes "limiter_ok t l" and "t \<le> t'"
  shows "allowance t' l k \<le> allowance t l k + exact_seconds (t' - t) * rl_rate l"
proof (cases "rl_buckets l k")
  case None
  then show ?thesis using limiter_okD(1) [OF assms(1)] assms(2) by (simp add: allowance_def)
next
  case (Some b)
  have "exact_seconds (t' - bk_last b) = exact_seconds (t - bk_last b) + exact_seconds (t' - t)"
    using exact_seconds_add [of "t - bk_last b" "t' - t"] by simp
  with Some show ?thesis by (simp add: allowance_def distrib_right)
qed

lemma allowance_allow:
  assumes "limiter_ok t l"
  shows "allowance t (snd (allow t j l)) k + (if j = k \<and> fst (fst (allow t j l)) then 1 else 0)
     \<le> allowance t l k + (if j = k then slack l else 0)"
proof (cases "j = k")
  case True
  then have "allowance t (snd (allow t j l)) k + (if j = k \<and> fst (fst (allow t j l)) then 1 else 0) = level t l k"
    by (simp add: allow_level_form [OF assms] allowance_def)
  with level_le_allowance [OF assms, of k] True show ?thesis by simp
qed (simp add: allow_level_form [OF assms] allowance_def split: option.split)

lemma allowance_refund:
  assumes "limiter_ok t l"
  shows "allowance t (refund j l) k \<le> allowance t l k + (if j = k then 1 + slack l else 0)"
proof (cases "rl_buckets l j")
  case None
  then show ?thesis using limiter_okD(2) [OF assms] by (simp add: refund_def slack_def)
next
  case (Some b)
  note b = bucket_okD [OF assms Some] and l = limiter_okD [OF assms]
  have "min (rl_burst l) (fl (bk_tokens b + 1)) \<le> bk_tokens b + 1 + slack l"
  proof (cases "rl_burst l \<le> bk_tokens b + 1")
    case True
    then show ?thesis using l by (simp add: slack_def min.coboundedI1 add_increasing2)
  next
    case False
    have "fl (bk_tokens b + 1) \<le> (bk_tokens b + 1) * (1 + 1 / 2 ^ 53)" using b by (intro fl_upper) simp
    also have "\<dots> = bk_tokens b + 1 + (bk_tokens b + 1) / 2 ^ 53" by (simp add: algebra_simps)
    also have "\<dots> \<le> bk_tokens b + 1 + slack l"
    proof (intro add_left_mono)
      have "(bk_tokens b + 1) / 2 ^ 53 \<le> (bk_tokens b + 1) / 2 ^ 50" using b by (simp add: field_simps)
      also have "\<dots> \<le> slack l" unfolding slack_def using False by (intro divide_right_mono) simp_all
      finally show "(bk_tokens b + 1) / 2 ^ 53 \<le> slack l" .
    qed
    finally show ?thesis by (simp add: min.coboundedI2)
  qed
  moreover have "(if fl (bk_tokens b + 1) > rl_burst l then rl_burst l else fl (bk_tokens b + 1)) =
      min (rl_burst l) (fl (bk_tokens b + 1))" by (simp add: min_def)
  then have "refund j l = l\<lparr> rl_buckets := (rl_buckets l)(j \<mapsto> b\<lparr> bk_tokens := min (rl_burst l) (fl (bk_tokens b + 1)) \<rparr>) \<rparr>"
    by (simp add: refund_def Some Let_def)
  ultimately show ?thesis using Some by (cases "j = k") (simp_all add: allowance_def split: option.split)
qed

lemma allowance_sweep:
  assumes "limiter_ok t l" and "rl_burst l \<le> 600 * rl_rate l"
  shows "allowance t (sweep t l) k \<le> allowance t l k"
proof (cases "\<exists>b. rl_buckets l k = Some b \<and> bk_lastSeen b < t - rateLimitStaleAfter")
  case True
  then obtain b where Some: "rl_buckets l k = Some b" and stale: "bk_lastSeen b < t - rateLimitStaleAfter" by blast
  note b = bucket_okD [OF assms(1) Some] and l = limiter_okD [OF assms(1)]
  have "600 * 1000000000 \<le> t - bk_last b" using stale b by (simp add: rateLimitStaleAfter_def)
  then have "(of_int (600 * 1000000000) :: rat) \<le> of_int (t - bk_last b)" by (simp only: of_int_le_iff)
  then have "600 \<le> exact_seconds (t - bk_last b)" by (simp add: exact_seconds_def)
  then have "600 * rl_rate l \<le> exact_seconds (t - bk_last b) * rl_rate l" using l by (intro mult_right_mono) simp_all
  with b assms(2) have "rl_burst l \<le> bk_tokens b + exact_seconds (t - bk_last b) * rl_rate l" by linarith
  with Some stale show ?thesis by (simp add: allowance_def sweep_def)
qed (auto simp: allowance_def sweep_def split: option.split)

section \<open>Runs\<close>

datatype limiter_op = OpAllow string | OpRefund string | OpSweep

fun limiter_run :: "(int \<times> limiter_op) list \<Rightarrow> rate_limiter \<Rightarrow> (string \<times> bool) list" where
  "limiter_run [] l = []"
| "limiter_run ((t, op) # ops) l =
     (case op of
        OpAllow k \<Rightarrow> (let ((ok, _), l) = allow t k l in (k, ok) # limiter_run ops l)
      | OpRefund k \<Rightarrow> limiter_run ops (refund k l)
      | OpSweep \<Rightarrow> limiter_run ops (sweep t l))"

definition admitted :: "string \<Rightarrow> (string \<times> bool) list \<Rightarrow> nat" where
  "admitted k res = length (filter (\<lambda>(j, ok). j = k \<and> ok) res)"

definition refunded :: "string \<Rightarrow> (int \<times> limiter_op) list \<Rightarrow> nat" where
  "refunded k ops = length (filter (\<lambda>(t, op). op = OpRefund k) ops)"

definition uses :: "string \<Rightarrow> (int \<times> limiter_op) list \<Rightarrow> nat" where
  "uses k ops = length (filter (\<lambda>(t, op). op = OpAllow k \<or> op = OpRefund k) ops)"

lemma slack_frame [simp]:
  "slack (snd (allow t k l)) = slack l" "slack (refund k l) = slack l" "slack (sweep t l) = slack l"
  by (simp_all add: slack_def)

lemma limiter_run_bound:
  assumes "limiter_ok now l" and "rl_burst l \<le> 600 * rl_rate l" and "sorted (now # map fst ops)"
  shows "of_nat (admitted k (limiter_run ops l)) \<le>
    allowance now l k + of_nat (refunded k ops) + exact_seconds (last (now # map fst ops) - now) * rl_rate l
    + of_nat (uses k ops) * slack l"
  using assms
proof (induction ops arbitrary: now l)
  case Nil
  then show ?case by (simp add: admitted_def refunded_def uses_def allowance_nonneg)
next
  case (Cons x ops)
  obtain t op where x: "x = (t, op)" by fastforce
  with Cons.prems have t: "now \<le> t" and s: "sorted (t # map fst ops)" by auto
  have ok: "limiter_ok t l" using limiter_ok_later [OF Cons.prems(1) t] .
  note later = allowance_later [OF Cons.prems(1) t, of k]
  have time: "exact_seconds (last (now # map fst (x # ops)) - now) * rl_rate l =
      exact_seconds (t - now) * rl_rate l + exact_seconds (last (t # map fst ops) - t) * rl_rate l"
    using exact_seconds_add [of "t - now" "last (t # map fst ops) - t"] by (simp add: x distrib_right flip: add_divide_distrib)
  show ?case
  proof (cases op)
    case (OpAllow j)
    define l' where "l' = snd (allow t j l)"
    define a where "a = (if j = k \<and> fst (fst (allow t j l)) then 1 else 0 :: rat)"
    have "(of_nat (admitted k (limiter_run (x # ops) l)) :: rat) = a + of_nat (admitted k (limiter_run ops l'))"
      by (simp add: x OpAllow admitted_def a_def l'_def split: prod.split)
    moreover have "of_nat (admitted k (limiter_run ops l')) \<le>
        allowance t l' k + of_nat (refunded k ops) + exact_seconds (last (t # map fst ops) - t) * rl_rate l
        + of_nat (uses k ops) * slack l"
      using Cons.IH [OF allow_spec(3) [OF ok, of j]] s Cons.prems(2) by (simp add: l'_def)
    moreover have "refunded k (x # ops) = refunded k ops" by (simp add: refunded_def x OpAllow)
    moreover have "of_nat (uses k (x # ops)) * slack l = (if j = k then slack l else 0) + of_nat (uses k ops) * slack l"
      by (simp add: uses_def x OpAllow algebra_simps)
    ultimately show ?thesis
      using allowance_allow [OF ok, of j k, folded l'_def a_def] later unfolding time by linarith
  next
    case (OpRefund j)
    have "limiter_run (x # ops) l = limiter_run ops (refund j l)" by (simp add: x OpRefund)
    moreover have "of_nat (refunded k (x # ops)) = (if j = k then 1 else 0) + (of_nat (refunded k ops) :: rat)"
      by (simp add: refunded_def x OpRefund)
    moreover have "of_nat (uses k (x # ops)) * slack l = (if j = k then slack l else 0) + of_nat (uses k ops) * slack l"
      by (simp add: uses_def x OpRefund algebra_simps)
    ultimately show ?thesis
      using Cons.IH [OF refund_ok [OF ok], of j] allowance_refund [OF ok, of j k] later s Cons.prems(2)
      unfolding time by (simp split: if_splits)
  next
    case OpSweep
    have "limiter_run (x # ops) l = limiter_run ops (sweep t l)" by (simp add: x OpSweep)
    moreover have "refunded k (x # ops) = refunded k ops" "uses k (x # ops) = uses k ops"
      by (simp_all add: refunded_def uses_def x OpSweep)
    ultimately show ?thesis
      using Cons.IH [OF sweep_ok [OF ok]] allowance_sweep [OF ok Cons.prems(2), of k] later s Cons.prems(2)
      unfolding time by simp
  qed
qed

text \<open>A key whose last request is far enough back is admitted.\<close>

definition rested :: "int \<Rightarrow> rate_limiter \<Rightarrow> int \<Rightarrow> bool" where
  "rested t l s \<longleftrightarrow> 1 + 1 / 2 ^ 50 \<le> exact_seconds (t - s) * rl_rate l"

lemma rested_frame [simp]:
  "rested t (snd (allow s k l)) = rested t l" "rested t (refund k l) = rested t l" "rested t (sweep s l) = rested t l"
  by (simp_all add: rested_def fun_eq_iff)

lemma limiter_run_recovers:
  assumes "limiter_ok now l" and "sorted (now # map fst ops @ [t])"
    and "\<And>b. rl_buckets l k = Some b \<Longrightarrow> rested t l (bk_last b)"
    and "\<And>s. (s, OpAllow k) \<in> set ops \<Longrightarrow> rested t l s"
  shows "last (limiter_run (ops @ [(t, OpAllow k)]) l) = (k, True)"
  using assms
proof (induction ops arbitrary: now l)
  case Nil
  then have ok: "limiter_ok t l" using limiter_ok_later by simp
  have "1 \<le> level t l k"
    using level_one [OF ok, of k] limiter_okD(2) [OF ok] Nil.prems(3)
    by (cases "rl_buckets l k") (simp_all add: level_def rested_def)
  with allow_spec(1) [OF ok, of k] show ?case by (cases "allow t k l") auto
next
  case (Cons x ops)
  obtain s op where x: "x = (s, op)" by fastforce
  with Cons.prems(2) have s: "now \<le> s" and sd: "sorted (s # map fst ops @ [t])" by auto
  have ok: "limiter_ok s l" using limiter_ok_later [OF Cons.prems(1) s] .
  have ne: "limiter_run (ops @ [(t, OpAllow k)]) l' \<noteq> []" for l'
    by (induction ops arbitrary: l') (auto split: limiter_op.splits prod.splits)
  note rest = Cons.prems(4) [unfolded x]
  show ?case
  proof (cases op)
    case (OpAllow j)
    have "last (limiter_run (ops @ [(t, OpAllow k)]) (snd (allow s j l))) = (k, True)"
    proof (rule Cons.IH [OF allow_spec(3) [OF ok] sd])
      fix b assume "rl_buckets (snd (allow s j l)) k = Some b"
      then show "rested t (snd (allow s j l)) (bk_last b)"
        using Cons.prems(3) rest by (cases "j = k") (auto simp: allow_level_form [OF ok] OpAllow rested_def)
    qed (simp add: rest)
    with ne show ?thesis by (cases "allow s j l") (auto simp: x OpAllow)
  next
    case (OpRefund j)
    have "last (limiter_run (ops @ [(t, OpAllow k)]) (refund j l)) = (k, True)"
    proof (rule Cons.IH [OF refund_ok [OF ok] sd])
      fix b assume "rl_buckets (refund j l) k = Some b"
      then obtain b' where "rl_buckets l k = Some b'" "bk_last b' = bk_last b"
        by (auto simp: refund_def Let_def split: option.splits if_splits)
      then show "rested t (refund j l) (bk_last b)" using Cons.prems(3) by force
    qed (simp add: rest)
    then show ?thesis by (simp add: x OpRefund)
  next
    case OpSweep
    have "last (limiter_run (ops @ [(t, OpAllow k)]) (sweep s l)) = (k, True)"
    proof (rule Cons.IH [OF sweep_ok [OF ok] sd])
      fix b assume "rl_buckets (sweep s l) k = Some b"
      then have "rl_buckets l k = Some b" by (simp add: sweep_def split: option.splits if_splits)
      then show "rested t (sweep s l) (bk_last b)" using Cons.prems(3) by simp
    qed (simp add: rest)
    then show ?thesis by (simp add: x OpSweep)
  qed
qed

text \<open>Fresh limiters.\<close>

lemma newRateLimiter_ok:
  assumes "burst \<le> 2 ^ 53"
  shows "limiter_ok t (newRateLimiter rate burst)"
    and "rl_burst (newRateLimiter rate burst) = of_int (if burst \<le> 0 then 20 else burst)"
proof -
  show "rl_burst (newRateLimiter rate burst) = of_int (if burst \<le> 0 then 20 else burst)"
    using assms by (simp add: newRateLimiter_def rateLimitDefaultBurst_def)
  moreover have "of_int (if burst \<le> 0 then 20 else burst) \<le> (of_int (2 ^ 53) :: rat)"
    using assms unfolding of_int_le_iff by simp
  ultimately show "limiter_ok t (newRateLimiter rate burst)"
    using assms float64_int [of "if burst \<le> 0 then 20 else burst"]
    by (auto simp: limiter_ok_def newRateLimiter_def rateLimitDefaultRate_def)
qed

lemma burstFor_le:
  assumes "rate \<le> 2 ^ 50" and "fallback \<le> 100"
  shows "burstFor rate fallback \<le> 2 ^ 53" and "0 < rate \<Longrightarrow> of_int (burstFor rate fallback) \<le> 3 * rate"
proof -
  have up: "of_int \<lfloor>fl (rate * 2)\<rfloor> \<le> 3 * rate" if "0 < rate"
  proof -
    have "of_int \<lfloor>fl (rate * 2)\<rfloor> \<le> fl (rate * 2)" by (rule of_int_floor_le)
    also have "\<dots> \<le> rate * 2 * (1 + 1 / 2 ^ 53)" using that by (intro fl_upper) simp
    also have "\<dots> \<le> 3 * rate" using that by simp
    finally show ?thesis .
  qed
  then show "0 < rate \<Longrightarrow> of_int (burstFor rate fallback) \<le> 3 * rate" by (simp add: burstFor_def)
  have "\<lfloor>fl (rate * 2)\<rfloor> \<le> 2 ^ 53" if "0 < rate"
  proof -
    have "3 * rate \<le> of_int (2 ^ 53)" using assms(1) by simp
    with up [OF that] have "of_int \<lfloor>fl (rate * 2)\<rfloor> \<le> (of_int (2 ^ 53) :: rat)" by (rule order_trans)
    then show ?thesis unfolding of_int_le_iff .
  qed
  then show "burstFor rate fallback \<le> 2 ^ 53"
    using assms(2) by (auto simp: burstFor_def)
qed

lemma edge_limiter_ok: "rate \<le> 2 ^ 50 \<Longrightarrow> limiter_ok t (edge_limiter rate)"
  unfolding edge_limiter_def
  by (intro newRateLimiter_ok burstFor_le) (simp_all add: rateLimitDefaultBurst_def)

lemma credential_limiter_ok: "rate \<le> 2 ^ 50 \<Longrightarrow> limiter_ok t (credential_limiter rate)"
  unfolding credential_limiter_def newCredentialLimiter_def
  using burstFor_le(1) [of rate 40] by (intro newRateLimiter_ok) (simp add: credentialRateLimitBurst_def)

lemma fresh_buckets [simp]: "rl_buckets (edge_limiter rate) = (\<lambda>_. None)" "rl_buckets (credential_limiter rate) = (\<lambda>_. None)"
  by (simp_all add: edge_limiter_def credential_limiter_def newCredentialLimiter_def newRateLimiter_def)

text \<open>From which rate on a bucket refills within the ten minutes after which it is
  swept.\<close>

lemma refills_before_swept:
  shows "rate \<le> 0 \<or> 1 / 30 \<le> rate \<and> rate \<le> 2 ^ 50 \<Longrightarrow> rl_burst (edge_limiter rate) \<le> 600 * rl_rate (edge_limiter rate)"
    and "rate \<le> 0 \<or> 1 / 15 \<le> rate \<and> rate \<le> 2 ^ 50 \<Longrightarrow>
      rl_burst (credential_limiter rate) \<le> 600 * rl_rate (credential_limiter rate)"
proof -
  have b: "burstFor rate fb \<le> 2 ^ 53" "0 < rate \<Longrightarrow> of_int (burstFor rate fb) \<le> 3 * rate"
    if "rate \<le> 0 \<or> rate \<le> 2 ^ 50" "fb \<le> 100" for fb
    using that burstFor_le [of rate fb] by (auto simp: burstFor_def)
  show "rl_burst (edge_limiter rate) \<le> 600 * rl_rate (edge_limiter rate)" if "rate \<le> 0 \<or> 1 / 30 \<le> rate \<and> rate \<le> 2 ^ 50"
    using that b [of rateLimitDefaultBurst] unfolding edge_limiter_def
    by (subst newRateLimiter_ok(2))
      (auto simp: newRateLimiter_def rateLimitDefaultRate_def rateLimitDefaultBurst_def burstFor_def split: if_splits)
  show "rl_burst (credential_limiter rate) \<le> 600 * rl_rate (credential_limiter rate)"
    if "rate \<le> 0 \<or> 1 / 15 \<le> rate \<and> rate \<le> 2 ^ 50"
    using that b [of credentialRateLimitBurst] unfolding credential_limiter_def newCredentialLimiter_def
    by (subst newRateLimiter_ok(2))
      (auto simp: newRateLimiter_def credentialRateLimitRate_def credentialRateLimitBurst_def burstFor_def split: if_splits)
qed

text \<open>Below it the sweeper gives a drained key its whole bucket back: at one request in
  a hundred seconds the burst is the default 20, and a key drained at the second 0 has
  all 20 again at the second 601, where the rate gave it six.\<close>

lemma slow_rate_swept_full:
  fixes l :: rate_limiter
  assumes "l = (edge_limiter (1 / 100))\<lparr> rl_buckets := [''k'' \<mapsto> \<lparr> bk_tokens = 0, bk_last = 0, bk_lastSeen = 0 \<rparr>] \<rparr>"
  shows "level 601000000000 (sweep 601000000000 l) ''k'' = 20" and "allowance 601000000000 l ''k'' = 601 / 100"
proof -
  have "fl (1 / 100 * 2) \<le> 1 / 100 * 2 * (1 + 1 / 2 ^ 53)" "0 \<le> fl (1 / 100 * 2)"
    by (rule fl_upper, simp, rule fl_nonneg, simp)
  then have "\<lfloor>fl (1 / 100 * 2)\<rfloor> = 0" by (intro floor_unique) simp_all
  then have "burstFor (1 / 100) 20 = 0" by (simp add: burstFor_def)
  then have e: "rl_burst (edge_limiter (1 / 100)) = 20" "rl_rate (edge_limiter (1 / 100)) = 1 / 100"
    by (simp_all add: edge_limiter_def newRateLimiter_def rateLimitDefaultBurst_def)
  show "level 601000000000 (sweep 601000000000 l) ''k'' = 20"
    by (simp add: assms level_def sweep_def rateLimitStaleAfter_def e)
  show "allowance 601000000000 l ''k'' = 601 / 100"
    by (simp add: assms allowance_def exact_seconds_def e)
qed

section \<open>Properties\<close>

text \<open>C31: Of a limiter whose bucket refills within the ten minutes after which an idle
  bucket is swept (any rate of a fifteenth of a request per second and up, and the
  defaults), over any sequence of requests, refunds and sweeps on any keys in the order
  of their times, a key is admitted at most its burst, plus what its rate gives for the
  time that passed, plus what was refunded to it; rounding adds at most one part in
  two to the fiftieth of the burst for each request or refund of the key.\<close>

theorem rate_limit_bound:
  assumes "rate \<le> 2 ^ 50" and "l \<in> {edge_limiter rate, credential_limiter rate}"
    and "rl_burst l \<le> 600 * rl_rate l" and "sorted (t0 # map fst ops)"
  shows "of_nat (admitted k (limiter_run ops l)) \<le>
    rl_burst l + exact_seconds (last (t0 # map fst ops) - t0) * rl_rate l + of_nat (refunded k ops)
    + of_nat (uses k ops) * (rl_burst l / 2 ^ 50)"
proof -
  have ok: "limiter_ok t0 l" using assms(1,2) edge_limiter_ok credential_limiter_ok by blast
  have "allowance t0 l k = rl_burst l" using assms(2) by (auto simp: allowance_def)
  with limiter_run_bound [OF ok assms(3,4), of k] show ?thesis by (simp add: slack_def)
qed

text \<open>C32: A key is never locked out: when its last request lies one token's time back
  (one second over the rate, and a part in two to the fiftieth more for rounding), its
  next request is admitted, whatever was asked, refunded and swept in between and
  however often it had been refused before.\<close>

theorem rate_limit_recovers:
  assumes "rate \<le> 2 ^ 50" and "l \<in> {edge_limiter rate, credential_limiter rate}"
    and "sorted (t0 # map fst ops @ [t])"
    and "\<forall>(s, op) \<in> set ops. op = OpAllow k \<longrightarrow> 1 + 1 / 2 ^ 50 \<le> exact_seconds (t - s) * rl_rate l"
  shows "last (limiter_run (ops @ [(t, OpAllow k)]) l) = (k, True)"
proof -
  have ok: "limiter_ok t0 l" using assms(1,2) edge_limiter_ok credential_limiter_ok by blast
  have "rl_buckets l k = None" using assms(2) by auto
  with assms(4) show ?thesis by (intro limiter_run_recovers [OF ok assms(3)]) (auto simp: rested_def)
qed

text \<open>C33: The edge limiter runs the rest of the chain exactly when the client
  address has a token, answers 429 in the envelope otherwise, and charges the
  address one token, which a request that turns out to carry a project credential
  gets back.\<close>

theorem edge_charges_unproven:
  fixes remote :: string and c :: http_ctx
  assumes "limiter_ok now l"
  defines "ip \<equiv> clientIP remote c"
  shows "(if 1 \<le> level now l ip
     then (\<exists>l'. RateLimitEdge now remote rest ((l, s), c) = ((l', fst (rest (s, c))), snd (rest (s, c))) \<and> limiter_ok now l' \<and>
            level now l' = (if \<exists>p. PrincipalFrom (snd (rest (s, c))) = Some p \<and> IsProject p
                            then level now l else (level now l)(ip := level now l ip - 1)))
     else (\<exists>l' c'. RateLimitEdge now remote rest ((l, s), c) = ((l', s), c') \<and> level now l' = level now l \<and>
            limiter_ok now l' \<and> (\<exists>b. rs_abort c' = Some (429, b))))"
proof -
  obtain b r l1 where al: "allow now ip l = ((b, r), l1)" by (metis prod.collapse)
  note a = allow_spec [OF assms(1), of ip, unfolded al]
  obtain s' c' where rest: "rest (s, c) = (s', c')" by fastforce
  show ?thesis
  proof (cases "1 \<le> level now l ip")
    case False
    then have "level now l1 = level now l" using a(2) by (intro ext) simp
    with False a al show ?thesis
      by (auto simp: RateLimitEdge_def Let_def ip_def [symmetric] abortRateLimited_def ErrRateLimited_def)
  next
    case True
    then have l1: "level now l1 = (level now l)(ip := level now l ip - 1)" using a(2) by (intro ext) simp
    have ok1: "limiter_ok now l1" using a(3) by simp
    have "level now (refund ip l1) = level now l" using refund_taken [OF assms(1) True] al by simp
    with True a al rest l1 ok1 refund_ok [OF ok1, of ip] show ?thesis
      by (auto simp: RateLimitEdge_def Let_def ip_def [symmetric] split: option.splits)
  qed
qed

section \<open>Witnesses\<close>

lemma default_limiter: "rl_burst (edge_limiter 0) = 20" "rl_rate (edge_limiter 0) = 10"
  by (simp_all add: edge_limiter_def newRateLimiter_def burstFor_def rateLimitDefaultBurst_def rateLimitDefaultRate_def)

theorem rate_limit_bound_witness:
  "of_nat (admitted ''a'' (limiter_run [(0, OpAllow ''a''), (5, OpSweep), (7, OpAllow ''a'')] (edge_limiter 0))) \<le> (21 :: rat)"
  using rate_limit_bound [of 0 "edge_limiter 0" 0 "[(0, OpAllow ''a''), (5, OpSweep), (7, OpAllow ''a'')]" "''a''"]
  by (simp add: default_limiter exact_seconds_def refunded_def uses_def)

theorem rate_limit_recovers_witness:
  "last (limiter_run [(0, OpAllow ''a''), (150000000, OpAllow ''b''), (200000000, OpAllow ''a'')] (edge_limiter 0)) = (''a'', True)"
  using rate_limit_recovers [of 0 "edge_limiter 0" 0 "[(0, OpAllow ''a''), (150000000, OpAllow ''b'')]" 200000000 "''a''"]
  by (simp add: default_limiter exact_seconds_def)

theorem edge_charges_unproven_witness:
  "\<exists>l' c'. RateLimitEdge 0 ''10.0.0.1:5'' (\<lambda>(s, c). (s + 1, c)) ((newRateLimiter 0 0, 0 :: nat), empty_ctx) = ((l', 1), c') \<and>
     level 0 l' ''10.0.0.1'' = 19"
proof -
  have ok: "limiter_ok 0 (newRateLimiter 0 0)" by (rule newRateLimiter_ok) simp
  have ip: "clientIP ''10.0.0.1:5'' empty_ctx = ''10.0.0.1''" by code_simp
  have lv: "level 0 (newRateLimiter 0 0) k = 20" for k
    by (simp add: level_def newRateLimiter_def rateLimitDefaultBurst_def)
  show ?thesis
    using edge_charges_unproven [OF ok, of "''10.0.0.1:5''" empty_ctx "\<lambda>(s, c). (s + 1, c)" "0 :: nat"]
    unfolding ip lv by (auto simp: lv PrincipalFrom_def) (simp add: empty_ctx_def)
qed

end
