(* ===== verification/IdentityGuards.thy ===== *)
theory IdentityGuards
  imports IdentityService "HOL-Library.AList"
begin

text \<open>
  What the guards of \<^verbatim>\<open>internal/identity/service.go\<close> give: a realm that has an
  enabled admin keeps one unless the revocation of an invitation, which has no guard,
  names the last one, callers cannot end their own access, protected role
  names never reach the provider. The realm is any provider that meets
  \<open>realm_contract\<close>, the documented effect of the admin API on its enabled admins.
\<close>

section \<open>The realm\<close>

definition grows_only :: "('s \<Rightarrow> string set) \<Rightarrow> ('s, 'a) idp_call \<Rightarrow> bool" where
  "grows_only admins m \<longleftrightarrow> (\<forall>s. admins s \<subseteq> admins (snd (m s)))"

definition realm_contract :: "'s identity_provider \<Rightarrow> ('s \<Rightarrow> string set) \<Rightarrow> bool" where
  "realm_contract P admins \<longleftrightarrow>
     (\<forall>s. case ip_ListUsersByRole P adminRoleName s of
            (Inr us, s') \<Rightarrow> admins s' = admins s \<and> distinct (map us_ID us) \<and>
              us_ID ` set (filter us_Enabled us) = admins s
          | (Inl e, s') \<Rightarrow> admins s' = admins s \<and> (e = IdNotFound \<longrightarrow> admins s = {})) \<and>
     (\<forall>i s. admins s - {i} \<subseteq> admins (snd (ip_DeleteUser P i s))) \<and>
     (\<forall>i req s. (if uur_Enabled req = Some False then admins s - {i} else admins s)
        \<subseteq> admins (snd (ip_UpdateUser P i req s))) \<and>
     (\<forall>i roles s. (if adminRoleName \<in> set roles then admins s - {i} else admins s)
        \<subseteq> admins (snd (ip_UnassignRolesFromUser P i roles s))) \<and>
     (\<forall>n. n \<noteq> adminRoleName \<longrightarrow> grows_only admins (ip_DeleteRole P n)) \<and>
     (\<forall>req. grows_only admins (ip_CreateUser P req)) \<and>
     (\<forall>req. grows_only admins (ip_CreateRole P req)) \<and>
     (\<forall>req. grows_only admins (ip_CreateInvitation P req)) \<and>
     (\<forall>n req. grows_only admins (ip_UpdateRole P n req)) \<and>
     (\<forall>i roles. grows_only admins (ip_AssignRolesToUser P i roles)) \<and>
     (\<forall>i. grows_only admins (ip_SendResetPasswordEmail P i)) \<and>
     (\<forall>i pw b. grows_only admins (ip_SetUserPassword P i pw b)) \<and>
     (\<forall>i. grows_only admins (ip_ResendInvitation P i)) \<and>
     (\<forall>i. grows_only admins (ip_DeleteSession P i)) \<and>
     (\<forall>i. grows_only admins (ip_LogoutUserSessions P i))"

lemma realm_list:
  "realm_contract P admins \<Longrightarrow>
     (case ip_ListUsersByRole P adminRoleName s of
        (Inr us, s') \<Rightarrow> admins s' = admins s \<and> distinct (map us_ID us) \<and> us_ID ` set (filter us_Enabled us) = admins s
      | (Inl e, s') \<Rightarrow> admins s' = admins s \<and> (e = IdNotFound \<longrightarrow> admins s = {}))"
  unfolding realm_contract_def by (drule conjunct1) (erule spec)

lemma realm_shrinks:
  assumes "realm_contract P admins"
  shows "admins s - {i} \<subseteq> admins (snd (ip_DeleteUser P i s))"
    and "(if uur_Enabled req = Some False then admins s - {i} else admins s) \<subseteq> admins (snd (ip_UpdateUser P i req s))"
    and "(if adminRoleName \<in> set roles then admins s - {i} else admins s) \<subseteq> admins (snd (ip_UnassignRolesFromUser P i roles s))"
  using assms unfolding realm_contract_def by simp_all

lemma realm_grows:
  assumes "realm_contract P admins"
  shows "n \<noteq> adminRoleName \<Longrightarrow> grows_only admins (ip_DeleteRole P n)"
    and "grows_only admins (ip_CreateUser P cu)" and "grows_only admins (ip_CreateRole P cr)"
    and "grows_only admins (ip_CreateInvitation P ci)" and "grows_only admins (ip_UpdateRole P n ur)"
    and "grows_only admins (ip_AssignRolesToUser P i roles)" and "grows_only admins (ip_SendResetPasswordEmail P i)"
    and "grows_only admins (ip_SetUserPassword P i pw b)" and "grows_only admins (ip_ResendInvitation P i)"
    and "grows_only admins (ip_DeleteSession P i)" and "grows_only admins (ip_LogoutUserSessions P i)"
  using assms unfolding realm_contract_def by simp_all

section \<open>Requests\<close>

text \<open>The mutations of the service; \<open>c\<close> is the caller.\<close>

datatype id_request =
    RqCreateRole create_role_request
  | RqCreateInvitation create_invitation_request string
  | RqCreateUser create_user_request
  | RqUpdateUser string string update_user_request
  | RqUpdateRole string update_role_request
  | RqAssignRoles string "string list"
  | RqUnassignRoles string string "string list"
  | RqResetPassword string
  | RqSetPassword string string bool
  | RqResendInvitation string
  | RqDeleteUser string string
  | RqDeleteInvitation string string
  | RqDeleteRole string
  | RqDeleteSession string
  | RqLogout string

fun serve :: "service_env \<Rightarrow> 's identity_provider \<Rightarrow> id_request \<Rightarrow> 's \<Rightarrow> 's" where
  "serve en P (RqCreateRole req) s = snd (sv_CreateRole en P req s)"
| "serve en P (RqCreateInvitation req by) s = snd (sv_CreateInvitation en P req by s)"
| "serve en P (RqCreateUser req) s = snd (sv_CreateUser en P req s)"
| "serve en P (RqUpdateUser c i req) s = snd (sv_UpdateUser en P c i req s)"
| "serve en P (RqUpdateRole n req) s = snd (sv_UpdateRole en P n req s)"
| "serve en P (RqAssignRoles i roles) s = snd (sv_AssignRolesToUser en P i roles s)"
| "serve en P (RqUnassignRoles c i roles) s = snd (sv_UnassignRolesFromUser en P c i roles s)"
| "serve en P (RqResetPassword i) s = snd (sv_SendResetPasswordEmail P i s)"
| "serve en P (RqSetPassword i pw b) s = snd (sv_SetUserPassword P i pw b s)"
| "serve en P (RqResendInvitation i) s = snd (sv_ResendInvitation P i s)"
| "serve en P (RqDeleteUser c i) s = snd (sv_DeleteUser P c i s)"
| "serve en P (RqDeleteInvitation c i) s = snd (sv_DeleteInvitation P c i s)"
| "serve en P (RqDeleteRole n) s = snd (sv_DeleteRole en P n s)"
| "serve en P (RqDeleteSession i) s = snd (sv_DeleteSession P i s)"
| "serve en P (RqLogout i) s = snd (sv_LogoutUserSessions P i s)"

section \<open>Lemmas\<close>

named_theorems calls \<open>what a step of the service does to the enabled admins\<close>

lemma grows_only_refuse [calls]: "grows_only admins (refuse e)"
  by (simp add: grows_only_def refuse_def)

lemma grows_only_from_result [calls]: "grows_only admins (from_result r)"
  by (simp add: grows_only_def from_result_def)

lemma grows_only_needs [calls]: "grows_only admins m \<Longrightarrow> grows_only admins (needs b e m)"
  by (simp add: needs_def grows_only_refuse)

lemma grows_only_after [calls]:
  assumes "grows_only admins m" and "\<And>x. grows_only admins (f x)"
  shows "grows_only admins (after m f)"
  unfolding grows_only_def
proof
  fix s
  obtain r s' where m: "m s = (r, s')" by fastforce
  with assms(1) have a: "admins s \<subseteq> admins s'" unfolding grows_only_def by (metis snd_conv)
  show "admins s \<subseteq> admins (snd (after m f s))"
  proof (cases r)
    case (Inl e)
    with m a show ?thesis by (simp add: after_def)
  next
    case (Inr x)
    have "admins s' \<subseteq> admins (snd (f x s'))" using assms(2) by (simp add: grows_only_def)
    with m a Inr show ?thesis by (simp add: after_def)
  qed
qed

lemma grows_onlyD: "grows_only admins m \<Longrightarrow> admins s \<noteq> {} \<Longrightarrow> admins (snd (m s)) \<noteq> {}"
  by (auto simp: grows_only_def)

text \<open>The guard lets a request through only when another enabled admin remains.\<close>

lemma assertNotLastAdmin_keeps:
  assumes "realm_contract P admins" and "assertNotLastAdmin P i s = (r, s')"
  shows "admins s' = admins s \<and> (r = Inr () \<and> admins s \<noteq> {} \<longrightarrow> admins s - {i} \<noteq> {})"
proof (cases "ip_ListUsersByRole P adminRoleName s")
  case (Pair q s1)
  have law: "case (q, s1) of
      (Inr us, s') \<Rightarrow> admins s' = admins s \<and> distinct (map us_ID us) \<and> us_ID ` set (filter us_Enabled us) = admins s
    | (Inl e, s') \<Rightarrow> admins s' = admins s \<and> (e = IdNotFound \<longrightarrow> admins s = {})"
    using realm_list [OF assms(1), of s] by (simp only: Pair)
  show ?thesis
  proof (cases q)
    case (Inl e)
    with law assms(2) Pair show ?thesis by (auto simp: assertNotLastAdmin_def split: if_splits)
  next
    case (Inr us)
    define enabled where "enabled = filter us_Enabled us"
    from law Inr have a: "admins s1 = admins s" "distinct (map us_ID enabled)" "us_ID ` set enabled = admins s"
      by (auto simp: enabled_def distinct_map_filter)
    then have card: "card (admins s) = length enabled" by (metis distinct_card length_map set_map)
    have ex: "list_ex (\<lambda>u. us_ID u = i) enabled \<longleftrightarrow> i \<in> admins s"
      unfolding a(3) [symmetric] by (auto simp: list_ex_iff)
    have res: "s' = s1" "r = Inr () \<longleftrightarrow> \<not> (i \<in> admins s \<and> length enabled \<le> 1)"
      using assms(2) Pair Inr by (auto simp: assertNotLastAdmin_def enabled_def [symmetric] ex Let_def split: if_splits)
    have "admins s - {i} \<noteq> {}" if "r = Inr ()" "admins s \<noteq> {}"
    proof
      assume "admins s - {i} = {}"
      with that(2) have "admins s = {i}" by blast
      with card res(2) that(1) show False by simp
    qed
    with res a(1) show ?thesis by simp
  qed
qed

definition keeps_one :: "('s \<Rightarrow> string set) \<Rightarrow> ('s, 'a) idp_call \<Rightarrow> bool" where
  "keeps_one admins m \<longleftrightarrow> (\<forall>s. admins s \<noteq> {} \<longrightarrow> admins (snd (m s)) \<noteq> {})"

named_theorems keeps \<open>steps after which an enabled admin remains\<close>

lemma keeps_one_grows [keeps]: "grows_only admins m \<Longrightarrow> keeps_one admins m"
  by (auto simp: grows_only_def keeps_one_def)

lemma keeps_one_needs: "(b \<Longrightarrow> keeps_one admins m) \<Longrightarrow> keeps_one admins (needs b e m)"
  by (simp add: keeps_one_def needs_def refuse_def)

lemma keeps_one_after_result:
  "(\<And>x. r = Inr x \<Longrightarrow> keeps_one admins (f x)) \<Longrightarrow> keeps_one admins (after (from_result r) f)"
  by (cases r) (simp_all add: keeps_one_def after_def from_result_def)

lemma keeps_one_guarded:
  assumes P: "realm_contract P admins" and m: "\<And>s. admins s - {i} \<subseteq> admins (snd (m s))"
  shows "keeps_one admins (after (assertNotLastAdmin P i) (\<lambda>_. m))"
  unfolding keeps_one_def
proof (intro allI impI)
  fix s
  assume s: "admins s \<noteq> {}"
  obtain r s' where a: "assertNotLastAdmin P i s = (r, s')" by fastforce
  note k = assertNotLastAdmin_keeps [OF P a]
  show "admins (snd (after (assertNotLastAdmin P i) (\<lambda>_. m) s)) \<noteq> {}"
  proof (cases r)
    case (Inl e)
    with a k s show ?thesis by (simp add: after_def)
  next
    case (Inr u)
    with k s have "admins s' - {i} \<noteq> {}" by auto
    with m [of s'] a Inr show ?thesis by (auto simp: after_def)
  qed
qed

text \<open>A role name the service deletes is not the admin role, whatever its case.\<close>

lemma admin_lower: "to_lower u (trim_space adminRoleName) = adminRoleName"
proof -
  have g: "list_all is_graph ''admin''" by (simp add: is_graph_def in_range_def less_eq_char_def)
  show ?thesis
    unfolding adminRoleName_def trim_space_graph [OF g]
    by (simp add: to_lower_def is_ascii_def less_char_def ascii_lower_def is_upper_def in_range_def less_eq_char_def)
qed

lemma admin_protected: "isProtectedRoleName (to_lower u (trim_space adminRoleName))"
  unfolding admin_lower by (simp add: isProtectedRoleName_def reservedRoleNames_def adminRoleName_def)

lemma keeps_UpdateUser:
  assumes P: "realm_contract P admins"
  shows "keeps_one admins (sv_UpdateUser en P c i r)"
proof -
  have free: "keeps_one admins (ip_UpdateUser P i q)" if "uur_Enabled q \<noteq> Some False" for q
    using realm_shrinks(2) [OF P, of q _ i] that by (intro keeps_one_grows) (simp add: grows_only_def)
  have dis: "keeps_one admins (after (assertNotLastAdmin P i) (\<lambda>_. ip_UpdateUser P i q))"
    if "uur_Enabled q = Some False" for q
    using realm_shrinks(2) [OF P, of q _ i] that by (intro keeps_one_guarded [OF P]) simp
  show ?thesis
    unfolding sv_UpdateUser_def Let_def
    by (rule keeps_one_needs, rule keeps_one_after_result)
      (auto intro!: keeps_one_needs intro: free dis)
qed

lemma keeps_Unassign:
  assumes P: "realm_contract P admins"
  shows "keeps_one admins (sv_UnassignRolesFromUser en P c i roles)"
proof -
  have free: "keeps_one admins (ip_UnassignRolesFromUser P i q)" if "adminRoleName \<notin> set q" for q
    using realm_shrinks(3) [OF P, of q _ i] that by (intro keeps_one_grows) (simp add: grows_only_def)
  have strip: "keeps_one admins (after (assertNotLastAdmin P i) (\<lambda>_. ip_UnassignRolesFromUser P i q))"
    if "adminRoleName \<in> set q" for q
    using realm_shrinks(3) [OF P, of q _ i] that by (intro keeps_one_guarded [OF P]) simp
  show ?thesis
    unfolding sv_UnassignRolesFromUser_def
    by (rule keeps_one_needs, rule keeps_one_after_result)
      (auto intro!: keeps_one_needs intro: free strip)
qed

lemma keeps_DeleteUser:
  "realm_contract P admins \<Longrightarrow> keeps_one admins (sv_DeleteUser P c i)"
  unfolding sv_DeleteUser_def
  by (intro keeps_one_needs keeps_one_guarded) (auto dest: realm_shrinks(1))

lemma keeps_DeleteRole:
  assumes P: "realm_contract P admins"
  shows "keeps_one admins (sv_DeleteRole en P n)"
proof -
  have "keeps_one admins (ip_DeleteRole P n)" if "\<not> isProtectedRoleName (to_lower (sv_u en) (trim_space n))"
  proof -
    from that admin_protected [of "sv_u en"] have "n \<noteq> adminRoleName" by blast
    then show ?thesis by (rule keeps_one_grows [OF realm_grows(1) [OF P]])
  qed
  then show ?thesis unfolding sv_DeleteRole_def Let_def by (intro keeps_one_needs)
qed

lemma keeps_others:
  assumes P: "realm_contract P admins"
  shows "keeps_one admins (sv_CreateRole en P cr)" and "keeps_one admins (sv_CreateInvitation en P ci dflt)"
    and "keeps_one admins (sv_CreateUser en P cu)" and "keeps_one admins (sv_UpdateRole en P n ur)"
    and "keeps_one admins (sv_AssignRolesToUser en P i roles)" and "keeps_one admins (sv_SendResetPasswordEmail P i)"
    and "keeps_one admins (sv_SetUserPassword P i pw b)" and "keeps_one admins (sv_ResendInvitation P i)"
    and "keeps_one admins (sv_DeleteSession P i)" and "keeps_one admins (sv_LogoutUserSessions P i)"
  unfolding sv_CreateRole_def sv_CreateInvitation_def sv_CreateUser_def
    sv_UpdateRole_def sv_AssignRolesToUser_def sv_SendResetPasswordEmail_def sv_SetUserPassword_def
    sv_ResendInvitation_def sv_DeleteSession_def sv_LogoutUserSessions_def Let_def
  by (rule keeps_one_grows, intro calls realm_grows [OF P])+

text \<open>Revoking an invitation deletes the account it names, and the guard is not asked.\<close>

lemma delete_invitation_takes_one:
  assumes P: "realm_contract P admins"
  shows "admins s - {i} \<subseteq> admins (snd (sv_DeleteInvitation P c i s))"
    and "is_self c i \<Longrightarrow> admins (snd (sv_DeleteInvitation P c i s)) = admins s"
  using realm_shrinks(1) [OF P, of s i] by (auto simp: sv_DeleteInvitation_def needs_def refuse_def)

definition takes_last :: "('s \<Rightarrow> string set) \<Rightarrow> id_request \<Rightarrow> 's \<Rightarrow> bool" where
  "takes_last admins req s \<longleftrightarrow> (\<exists>c i. req = RqDeleteInvitation c i \<and> \<not> is_self c i \<and> admins s = {i})"

lemma serve_keeps:
  assumes P: "realm_contract P admins" and s: "admins s \<noteq> {}" and spared: "\<not> takes_last admins req s"
  shows "admins (serve en P req s) \<noteq> {}"
proof (cases "\<exists>c i. req = RqDeleteInvitation c i")
  case True
  then obtain c i where req: "req = RqDeleteInvitation c i" by blast
  show ?thesis
  proof (cases "is_self c i")
    case True
    with req delete_invitation_takes_one(2) [OF P] s show ?thesis by simp
  next
    case False
    with req spared have "admins s \<noteq> {i}" by (auto simp: takes_last_def)
    with s have "admins s - {i} \<noteq> {}" by blast
    with req delete_invitation_takes_one(1) [OF P, of s i c] show ?thesis by auto
  qed
next
  case False
  note k = keeps_UpdateUser [OF P] keeps_Unassign [OF P] keeps_DeleteUser [OF P] keeps_DeleteRole [OF P]
    keeps_others [OF P]
  show ?thesis
    using k [unfolded keeps_one_def] s False by (cases req) simp_all
qed

section \<open>A concrete realm\<close>

text \<open>Users with their enabled flag and whether they hold the admin role, the first
  entry of an identifier counting.\<close>

type_synonym toy_realm = "(string \<times> bool \<times> bool) list"

definition toy_admins :: "toy_realm \<Rightarrow> string set" where
  "toy_admins s = {i. map_of s i = Some (True, True)}"

definition toy_user :: "string \<Rightarrow> bool \<Rightarrow> idp_user" where
  "toy_user i en = \<lparr> us_ID = i, us_Username = i, us_Email = [], us_FirstName = [], us_LastName = [],
     us_Enabled = en, us_EmailVerified = False, us_CreatedAt = 0, us_Attributes = [] \<rparr>"

definition toy_change :: "string \<Rightarrow> (bool \<times> bool \<Rightarrow> bool \<times> bool) \<Rightarrow> toy_realm \<Rightarrow> toy_realm" where
  "toy_change i f s = map (\<lambda>(k, v). (k, if k = i then f v else v)) s"

definition toy_list :: "toy_realm \<Rightarrow> idp_user list" where
  "toy_list s = map (\<lambda>(i, en, _). toy_user i en) (filter (\<lambda>(_, _, adm). adm) (AList.clearjunk s))"

definition toy_provider :: "toy_realm identity_provider" where
  "toy_provider =
     \<lparr> ip_ListUsers = \<lambda>q. refuse IdNotFound, ip_GetUser = \<lambda>i. refuse IdNotFound, ip_ListRoles = refuse IdNotFound,
       ip_GetRole = \<lambda>n. refuse IdNotFound,
       ip_ListUsersByRole = \<lambda>n s. (Inr (toy_list s), s),
       ip_ListUserRoles = \<lambda>i. refuse IdNotFound, ip_ListUserSessions = \<lambda>i. refuse IdNotFound,
       ip_ListSessions = refuse IdNotFound, ip_ListInvitations = refuse IdNotFound,
       ip_CreateUser = \<lambda>q. refuse IdNotFound, ip_CreateRole = \<lambda>q. refuse IdNotFound,
       ip_CreateInvitation = \<lambda>q. refuse IdNotFound,
       ip_UpdateUser = \<lambda>i q s. (Inr (toy_user i True),
         toy_change i (\<lambda>(en, adm). (case uur_Enabled q of None \<Rightarrow> en | Some b \<Rightarrow> b, adm)) s),
       ip_UpdateRole = \<lambda>n q. refuse IdNotFound,
       ip_AssignRolesToUser = \<lambda>i rs. refuse IdNotFound,
       ip_UnassignRolesFromUser = \<lambda>i rs s. (Inr (),
         toy_change i (\<lambda>(en, adm). (en, adm \<and> adminRoleName \<notin> set rs)) s),
       ip_SendResetPasswordEmail = \<lambda>i. refuse IdNotFound, ip_SetUserPassword = \<lambda>i pw b. refuse IdNotFound,
       ip_ResendInvitation = \<lambda>i. refuse IdNotFound,
       ip_DeleteUser = \<lambda>i s. (Inr (), AList.delete i s),
       ip_DeleteRole = \<lambda>n. refuse IdNotFound, ip_DeleteSession = \<lambda>i. refuse IdNotFound,
       ip_LogoutUserSessions = \<lambda>i. refuse IdNotFound \<rparr>"

lemma map_of_toy_change:
  "map_of (toy_change i f s) k = (if k = i then map_option f (map_of s k) else map_of s k)"
  by (induction s) (auto simp: toy_change_def)

lemma toy_listing:
  "us_ID ` set (filter us_Enabled (toy_list s)) = toy_admins s"
  "distinct (map us_ID (toy_list s))"
proof -
  have "us_ID ` set (filter us_Enabled (toy_list s)) = {i. (i, True, True) \<in> set (AList.clearjunk s)}"
    by (force simp: toy_list_def toy_user_def image_iff)
  also have "\<dots> = toy_admins s"
    using map_of_eq_Some_iff [OF distinct_clearjunk, of s] by (simp add: toy_admins_def map_of_clearjunk)
  finally show "us_ID ` set (filter us_Enabled (toy_list s)) = toy_admins s" .
  have "map us_ID (toy_list s) = map fst (filter (\<lambda>(_, _, adm). adm) (AList.clearjunk s))"
    by (simp add: toy_list_def toy_user_def case_prod_beta comp_def)
  then show "distinct (map us_ID (toy_list s))" by (simp add: distinct_map_filter distinct_clearjunk)
qed

lemma toy_contract: "realm_contract toy_provider toy_admins"
proof -
  have d: "toy_admins s - {i} \<subseteq> toy_admins (AList.delete i s)" for s i
    by (auto simp: toy_admins_def delete_conv)
  have u: "(if e = Some False then toy_admins s - {i} else toy_admins s)
      \<subseteq> toy_admins (toy_change i (\<lambda>(en, adm). (case e of None \<Rightarrow> en | Some b \<Rightarrow> b, adm)) s)" for s i e
    by (cases e) (auto simp: toy_admins_def map_of_toy_change)
  have r: "(if adminRoleName \<in> set rs then toy_admins s - {i} else toy_admins s)
      \<subseteq> toy_admins (toy_change i (\<lambda>(en, adm). (en, adm \<and> adminRoleName \<notin> set rs)) s)" for s i rs
    by (auto simp: toy_admins_def map_of_toy_change)
  show ?thesis
    unfolding realm_contract_def
    using d u r toy_listing
    by (simp add: toy_provider_def grows_only_refuse)
qed

section \<open>Properties\<close>

text \<open>C3: Whatever mutations of users, roles, invitations and sessions a realm is asked
  for through the service, in whatever order and by whichever callers, a realm
  that has an enabled admin keeps one, with one exception: the revocation of an
  invitation deletes the account it names without asking the last-admin guard, so a run
  ends without an admin only if some revocation in it named the one enabled admin left
  and did not come from that admin.\<close>

theorem last_admin_kept:
  assumes "realm_contract P admins" and "admins s \<noteq> {}"
  shows "admins (fold (serve en P) reqs s) \<noteq> {} \<or>
    (\<exists>before c i rest. reqs = before @ RqDeleteInvitation c i # rest \<and> \<not> is_self c i \<and>
       admins (fold (serve en P) before s) = {i})"
  using assms(2)
proof (induction reqs arbitrary: s)
  case (Cons req reqs)
  show ?case
  proof (cases "takes_last admins req s")
    case True
    then show ?thesis unfolding takes_last_def by (metis append_Nil fold_simps(1))
  next
    case False
    then have "admins (serve en P req s) \<noteq> {}" by (rule serve_keeps [OF assms(1) Cons.prems])
    from Cons.IH [OF this] consider "admins (fold (serve en P) (req # reqs) s) \<noteq> {}"
      | before c i rest where "req # reqs = (req # before) @ RqDeleteInvitation c i # rest" "\<not> is_self c i"
          "admins (fold (serve en P) (req # before) s) = {i}" by auto
    then show ?thesis by cases blast+
  qed
qed simp

theorem last_admin_kept_witness:
  "toy_admins (fold (serve \<lparr> sv_u = id, sv_quote = id, sv_now = 0 \<rparr> toy_provider)
       [RqDeleteUser [] ''11111111-1111-1111-1111-111111111111'',
        RqDeleteUser [] ''22222222-2222-2222-2222-222222222222'']
       [(''11111111-1111-1111-1111-111111111111'', True, True),
        (''22222222-2222-2222-2222-222222222222'', True, True)]) \<noteq> {}"
proof -
  let ?reqs = "[RqDeleteUser [] ''11111111-1111-1111-1111-111111111111'', RqDeleteUser [] ''22222222-2222-2222-2222-222222222222'']"
  let ?s = "[(''11111111-1111-1111-1111-111111111111'', True, True), (''22222222-2222-2222-2222-222222222222'', True, True)]"
  have "toy_admins ?s \<noteq> {}" by (auto simp: toy_admins_def)
  moreover have "?reqs \<noteq> before @ RqDeleteInvitation c i # rest" for before c i rest
    by (auto simp: append_eq_Cons_conv Cons_eq_append_conv)
  ultimately show ?thesis using last_admin_kept [OF toy_contract, of ?s "\<lparr> sv_u = id, sv_quote = id, sv_now = 0 \<rparr>" ?reqs] by blast
qed

definition refused :: "('s, 'a) idp_call \<Rightarrow> bool" where
  "refused m \<longleftrightarrow> (\<exists>e. \<forall>s. m s = (Inl e, s))"

lemma refused_refuse [simp]: "refused (refuse e)"
  by (auto simp: refused_def refuse_def)

lemma refused_needs: "(b \<Longrightarrow> refused m) \<Longrightarrow> refused (needs b e m)"
  by (simp add: needs_def)

lemma refused_after_result: "(\<And>x. r = Inr x \<Longrightarrow> refused (f x)) \<Longrightarrow> refused (after (from_result r) f)"
  by (cases r) (auto simp: refused_def after_def from_result_def)

lemma normalize_roles_Inr:
  "normalize_roles en i rs = Inr vs \<Longrightarrow>
     vs = map (\<lambda>n. to_lower (sv_u en) (trim_space n)) rs \<and> [] \<notin> set vs"
  by (induction rs arbitrary: i vs) (auto simp: Let_def split: if_splits sum.splits)

lemma normalizeRoleList_Inr:
  "normalizeRoleList en rs = Inr vs \<Longrightarrow>
     vs \<noteq> [] \<and> vs = map (\<lambda>n. to_lower (sv_u en) (trim_space n)) rs \<and> [] \<notin> set vs"
  using normalize_roles_Inr [of en 0 rs vs] by (auto simp: normalizeRoleList_def split: if_splits)

text \<open>C34: A caller cannot end their own access: deleting or disabling themselves,
  deleting the invitation that is their account, and taking the admin role from
  themselves, under any spelling, are refused before the provider is asked
  anything.\<close>

theorem caller_keeps_own_access:
  assumes "c \<noteq> []" and "adminRoleName \<in> set (map (\<lambda>n. to_lower (sv_u en) (trim_space n)) roles)"
  shows "refused (sv_DeleteUser P c c) \<and> refused (sv_DeleteInvitation P c c) \<and>
    refused (sv_UpdateUser en P c c (r\<lparr> uur_Enabled := Some False \<rparr>)) \<and>
    refused (sv_UnassignRolesFromUser en P c c roles)"
proof -
  have s: "is_self c c" using assms(1) by (simp add: is_self_def)
  have "refused (sv_UnassignRolesFromUser en P c c roles)"
    unfolding sv_UnassignRolesFromUser_def
  proof (rule refused_needs, rule refused_after_result)
    fix x
    assume "normalizeRoleList en roles = Inr x"
    from normalizeRoleList_Inr [OF this] assms(2) have "adminRoleName \<in> set x" by simp
    then show "refused (if adminRoleName \<in> set x
        then needs (\<not> is_self c c) (IdForbidden ''cannot remove your own admin role'')
          (after (assertNotLastAdmin P c) (\<lambda>_. ip_UnassignRolesFromUser P c x))
        else ip_UnassignRolesFromUser P c x)"
      by (simp add: needs_def s)
  qed
  moreover have "refused (sv_UpdateUser en P c c (r\<lparr> uur_Enabled := Some False \<rparr>))"
    unfolding sv_UpdateUser_def Let_def
    by (rule refused_needs, rule refused_after_result) (simp add: needs_def s)
  moreover have "refused (sv_DeleteUser P c c)" "refused (sv_DeleteInvitation P c c)"
    unfolding sv_DeleteUser_def sv_DeleteInvitation_def
    by (intro refused_needs, simp add: s)+
  ultimately show ?thesis by simp
qed

theorem caller_keeps_own_access_witness:
  "refused (sv_UnassignRolesFromUser \<lparr> sv_u = id, sv_quote = id, sv_now = 0 \<rparr> toy_provider ''a'' ''a'' [''admin''])"
  by (rule caller_keeps_own_access [where r = "\<lparr> uur_FirstName = None, uur_LastName = None, uur_Email = None,
        uur_Enabled = None, uur_EmailVerified = None \<rparr>" and roles = "[''admin'']" and c = "''a''" and
        P = toy_provider and en = "\<lparr> sv_u = id, sv_quote = id, sv_now = 0 \<rparr>", THEN conjunct2, THEN conjunct2,
        THEN conjunct2])
    (simp_all add: adminRoleName_def to_lower_def trim_space_graph is_graph_def in_range_def less_eq_char_def
      is_ascii_def less_char_def ascii_lower_def is_upper_def)

definition wf_create_user :: "create_user_request \<Rightarrow> bool" where
  "wf_create_user q \<longleftrightarrow> emailPattern (cur_Email q) \<and> minPasswordLength \<le> length (cur_TemporaryPassword q) \<and>
     [] \<notin> set (cur_Roles q)"

definition wf_create_invitation :: "int \<Rightarrow> create_invitation_request \<Rightarrow> bool" where
  "wf_create_invitation now q \<longleftrightarrow> emailPattern (cir_Email q) \<and> cir_Roles q \<noteq> [] \<and> [] \<notin> set (cir_Roles q) \<and>
     (cir_ExpiresAt q = [] \<or> (\<exists>t. now < t \<and> cir_ExpiresAt q = FormatRFC3339 t))"

definition wf_create_role :: "create_role_request \<Rightarrow> bool" where
  "wf_create_role q \<longleftrightarrow> roleCreatePattern (crr_Name q) \<and> \<not> isProtectedRoleName (crr_Name q)"

definition refused_or_sent :: "('q \<Rightarrow> bool) \<Rightarrow> ('q \<Rightarrow> ('s, 'a) idp_call) \<Rightarrow> ('s, 'a) idp_call \<Rightarrow> bool" where
  "refused_or_sent ok send m \<longleftrightarrow> refused m \<or> (\<exists>q. ok q \<and> m = send q)"

lemma sent: "ok q \<Longrightarrow> refused_or_sent ok send (send q)"
  by (auto simp: refused_or_sent_def)

lemma sent_needs: "(b \<Longrightarrow> refused_or_sent ok send m) \<Longrightarrow> refused_or_sent ok send (needs b e m)"
  by (simp add: refused_or_sent_def needs_def)

lemma sent_after_result:
  assumes "\<And>x. r = Inr x \<Longrightarrow> refused_or_sent ok send (f x)"
  shows "refused_or_sent ok send (after (from_result r) f)"
proof (cases r)
  case (Inl e)
  then have "refused (after (from_result r) f)" by (auto simp: refused_def after_def from_result_def)
  then show ?thesis by (simp add: refused_or_sent_def)
next
  case (Inr x)
  then have "after (from_result r) f = f x" by (simp add: after_def from_result_def fun_eq_iff)
  with assms Inr show ?thesis by simp
qed

lemma invitation_expiry_Inr:
  "invitation_expiry en s = Inr x \<Longrightarrow> x = [] \<or> (\<exists>t. sv_now en < t \<and> x = FormatRFC3339 t)"
  by (auto simp: invitation_expiry_def split: if_splits option.splits)

text \<open>C35: Whatever is asked, what reaches the provider is well formed: a created user
  has an address of the right shape, a password of at least eight bytes and no empty
  role; an invitation names at least one role and expires in the future, if ever; a
  created role has a name of the permitted shape that the platform does not reserve.
  Anything else is refused with the realm untouched.\<close>

theorem provider_sees_well_formed:
  "refused_or_sent wf_create_user (ip_CreateUser P) (sv_CreateUser en P cu) \<and>
   refused_or_sent (wf_create_invitation (sv_now en)) (ip_CreateInvitation P) (sv_CreateInvitation en P ci by_default) \<and>
   refused_or_sent wf_create_role (ip_CreateRole P) (sv_CreateRole en P cr)"
proof (intro conjI)
  show "refused_or_sent wf_create_user (ip_CreateUser P) (sv_CreateUser en P cu)"
    unfolding sv_CreateUser_def Let_def
    by (intro sent_needs sent_after_result sent)
      (auto simp: wf_create_user_def dest: normalizeRoleList_Inr split: if_splits)
  show "refused_or_sent (wf_create_invitation (sv_now en)) (ip_CreateInvitation P) (sv_CreateInvitation en P ci by_default)"
    unfolding sv_CreateInvitation_def Let_def
    by (intro sent_needs sent_after_result sent)
      (auto simp: wf_create_invitation_def dest!: normalizeRoleList_Inr invitation_expiry_Inr)
  show "refused_or_sent wf_create_role (ip_CreateRole P) (sv_CreateRole en P cr)"
    unfolding sv_CreateRole_def Let_def
    by (intro sent_needs sent) (auto simp: wf_create_role_def isProtectedRoleName_def)
qed

text \<open>The invitation route is outside the guard: it deletes the target, whoever that is,
  and the exception of the theorem above does happen.\<close>

lemma delete_invitation_unguarded:
  assumes "uuidPattern i" and "c \<noteq> i"
  shows "sv_DeleteInvitation P c i = ip_DeleteUser P i"
  using assms by (simp add: sv_DeleteInvitation_def needs_def is_self_def)

lemma last_admin_revoked:
  assumes "uuidPattern i" and "c \<noteq> i"
  shows "toy_admins (serve en toy_provider (RqDeleteInvitation c i) [(i, True, True)]) = {}"
  by (simp add: delete_invitation_unguarded [OF assms] toy_provider_def toy_admins_def)

end
