(* ===== verification/IdentityBoundary.thy ===== *)
theory IdentityBoundary
  imports IdentityRuntime IdentityGuards Authn
begin

text \<open>
  What the workspace-scoped identity API guarantees, over every request of
  \<^verbatim>\<open>internal/identityruntime\<close>: a realm is only touched through the client built for
  the active connection of the live workspace in the path, which may write, with an
  audit event for it; a machine cannot name a protected role in a grant or a revoke; the client only ever sees the errors
  of the catalogue.
\<close>

section \<open>The resolved workspace\<close>

text \<open>\<open>routed c d x r\<close>: the workspace in the path is live, \<open>x\<close> is its active
  connection and \<open>r\<close> the row of it; \<open>live_route\<close> leaves the row out.\<close>

definition routed :: "http_ctx \<Rightarrow> db \<Rightarrow> resolved \<Rightarrow> connection_row \<Rightarrow> bool" where
  "routed c d x r \<longleftrightarrow> (\<exists>ws. ws \<in> set (db_workspaces d) \<and> \<not> ws_IsArchived ws \<and>
     Parse WorkspacePrefix (Param c ''workspace_id'') = Inr (ws_ID ws) \<and>
     r \<in> set (db_connections d) \<and> active_in (ws_ID ws) r \<and>
     rd_WorkspacePublicID x = ws_PublicID ws \<and> rd_ConnectionPublicID x = cn_PublicID r \<and>
     rd_AccessMode x = cn_AccessMode r)"

definition live_route :: "http_ctx \<Rightarrow> db \<Rightarrow> resolved \<Rightarrow> bool" where
  "live_route c d x \<longleftrightarrow> (\<exists>ws r. ws \<in> set (db_workspaces d) \<and> \<not> ws_IsArchived ws \<and>
     Parse WorkspacePrefix (Param c ''workspace_id'') = Inr (ws_ID ws) \<and>
     r \<in> set (db_connections d) \<and> active_in (ws_ID ws) r \<and>
     rd_WorkspacePublicID x = ws_PublicID ws \<and> rd_AccessMode x = cn_AccessMode r)"

lemma rt_read_live:
  assumes "rt_read h c s = (Inr x, s')"
  shows "live_route c (w_db (rt_db s)) x \<and> rt_realm s' = rt_realm s \<and> rt_events s' = rt_events s"
proof -
  from assms obtain cache w where
    f: "ForWorkspace (he_resolver h) (Param c ''workspace_id'') (rt_cache s) (rt_db s) = (Inr x, cache, w)"
    and s': "s' = s\<lparr> rt_cache := cache, rt_db := w \<rparr>"
    by (auto simp: rt_read_def split: prod.splits sum.splits)
  from f obtain ws conn w1 p where l: "live_connection (Param c ''workspace_id'') (rt_db s) = (Inr (ws, conn), w1)"
    and x: "x = resolved_with ws conn p"
    by (auto simp: ForWorkspace_def split: prod.splits sum.splits option.splits)
  have "live_route c (w_db (rt_db s)) x"
  proof (rule live_connection_Inr [OF l])
    fix r
    assume "r \<in> set (db_connections (w_db (rt_db s)))" "conn = toDomain r" "cn_Status r = StatusLive"
      "cn_WorkspaceID r = ws_ID ws" "Parse WorkspacePrefix (Param c ''workspace_id'') = Inr (ws_ID ws)"
      "\<not> ws_IsArchived ws" "ws \<in> set (db_workspaces (w_db (rt_db s)))"
    then show ?thesis
      unfolding live_route_def x
      by (intro exI [of _ ws] exI [of _ r]) (simp add: resolved_with_def active_in_def)
  qed
  with s' show ?thesis by simp
qed

lemma rt_read_routed:
  assumes "rt_read h c s = (Inr x, s')" and inv: "rt_inv (he_resolver h) (rt_cache s, rt_db s)"
  obtains r where "routed c (w_db (rt_db s)) x r" and "serves (he_resolver h) (rd_Provider x) r"
proof -
  from assms(1) obtain cw where f: "ForWorkspace (he_resolver h) (Param c ''workspace_id'') (rt_cache s) (rt_db s) = (Inr x, cw)"
    by (auto simp: rt_read_def split: prod.splits sum.splits)
  from inv have "rows_ok (db_connections (w_db (rt_db s)))"
    "cache_inv (he_resolver h) (db_connections (w_db (rt_db s))) (rt_cache s)" by (simp_all add: rt_inv_def)
  from ForWorkspace_Inr [OF f this] obtain ws r p where
    "ws \<in> set (db_workspaces (w_db (rt_db s)))" "\<not> ws_IsArchived ws"
    "Parse WorkspacePrefix (Param c ''workspace_id'') = Inr (ws_ID ws)"
    "r \<in> set (db_connections (w_db (rt_db s)))" "active_in (ws_ID ws) r"
    and x: "x = resolved_with ws (toDomain r) p" "serves (he_resolver h) p r" by metis
  then have "routed c (w_db (rt_db s)) x r"
    unfolding routed_def by (intro exI [of _ ws]) (simp add: resolved_with_def cn_PublicID_def)
  with x that show thesis by (simp add: resolved_with_def)
qed

lemma rt_read_Inl:
  "rt_read h c s = (Inl e, s') \<Longrightarrow> rt_realm s' = rt_realm s \<and> rt_events s' = rt_events s"
  by (auto simp: rt_read_def split: prod.splits sum.splits)

section \<open>What a mutation does\<close>

text \<open>\<open>untouched s s'\<close>: neither a realm nor the trail changed.\<close>

definition untouched :: "'s rt_state \<Rightarrow> 's rt_state \<Rightarrow> bool" where
  "untouched s s' \<longleftrightarrow> rt_realm s' = rt_realm s \<and> rt_events s' = rt_events s"

text \<open>The events of one attempt: who, on which request and workspace, and a reason
  exactly when it failed.\<close>

definition attempt_event :: "'s handler_env \<Rightarrow> http_ctx \<Rightarrow> string \<Rightarrow> bool \<Rightarrow> audit_event \<Rightarrow> bool" where
  "attempt_event h c wid failed e \<longleftrightarrow>
     ea_Actor e = ActorFromGin c \<and> ea_Workspace e = wid \<and> ea_RequestID e = FromContext c \<and>
     ea_IP e = he_ip h \<and> (if failed then \<exists>err. ea_Reason e = he_text h err else ea_Reason e = [])"

definition recorded :: "'s handler_env \<Rightarrow> http_ctx \<Rightarrow> string \<Rightarrow> bool \<Rightarrow> 's rt_state \<Rightarrow> 's rt_state \<Rightarrow> bool" where
  "recorded h c wid failed s s' \<longleftrightarrow>
     (\<exists>evs. evs \<noteq> [] \<and> rt_events s' = rt_events s @ evs \<and> list_all (attempt_event h c wid failed) evs)"

fun is_error :: "reply \<Rightarrow> bool" where
  "is_error (RpError _ _) = True"
| "is_error _ = False"

definition one_mutation :: "'s handler_env \<Rightarrow> http_ctx \<Rightarrow> string \<Rightarrow> ('s, reply) hd \<Rightarrow> bool" where
  "one_mutation h c wid m \<longleftrightarrow>
     (\<forall>s. case m s of
        (Inl e, s') \<Rightarrow> untouched s s' \<or> recorded h c wid True s s'
      | (Inr r, s') \<Rightarrow> \<not> is_error r \<and> recorded h c wid False s s')"

lemma record_attempt:
  "attempt_event h c wid False (RecordWorkspaceMutation (he_ip h) c wid a t None)"
  "attempt_event h c wid True (RecordWorkspaceMutation (he_ip h) c wid a t (Some (he_text h e)))"
  by (auto simp: attempt_event_def RecordWorkspaceMutation_def EventFromGin_def Let_def)

lemma one_mutation_fail: "one_mutation h c wid (hd_fail e)"
  by (simp add: one_mutation_def hd_fail_def untouched_def)

lemma one_mutation_call:
  fixes h :: "'s handler_env"
  assumes "\<And>x. evs x \<noteq> []" and "\<And>x. \<not> is_error (g x)"
  shows "one_mutation h c (rd_WorkspacePublicID sc) (hd_then (rt_mutate h c sc k evs svc) (\<lambda>x. hd_ret (g x)))"
  unfolding one_mutation_def
proof
  fix s :: "'s rt_state"
  obtain r realm where "svc (he_remote h (rd_Provider sc)) (rt_realm s) = (r, realm)" by fastforce
  with assms show "case hd_then (rt_mutate h c sc k evs svc) (\<lambda>x. hd_ret (g x)) s of
      (Inl e, s') \<Rightarrow> untouched s s' \<or> recorded h c (rd_WorkspacePublicID sc) True s s'
    | (Inr r, s') \<Rightarrow> \<not> is_error r \<and> recorded h c (rd_WorkspacePublicID sc) False s s'"
    by (cases r)
      (auto simp: recorded_def hd_then_def hd_ret_def rt_mutate_def Let_def list_all_iff record_attempt)
qed

text \<open>Steps that only look.\<close>

definition looks :: "('s, 'a) hd \<Rightarrow> bool" where
  "looks m \<longleftrightarrow> (\<exists>x. m = hd_ret x) \<or> (\<exists>e. m = hd_fail e)"

named_theorems looking \<open>steps that only look\<close>

lemma looks_ret_fail [looking]: "looks (hd_ret x)" "looks (hd_fail e)"
  unfolding looks_def by blast+

lemma looks_bind [looking]: "looks (rt_bind b)"
  by (auto simp: rt_bind_def intro!: looking split: sum.split option.split)

lemma looks_path [looking]:
  "looks (pathUserID c)" "looks (pathRoleName c)" "looks (pathSessionID c)" "looks (pathInvitationID c)"
  by (auto simp: pathUserID_def pathRoleName_def pathSessionID_def pathInvitationID_def path_checked_def
      intro!: looking)

lemma looks_guard [looking]: "looks (guardPrivilegedRoles h c ns)"
  by (auto simp: guardPrivilegedRoles_def intro!: looking split: option.split)

lemma then_ret [simp]: "hd_then (hd_ret x) f = f x" "hd_then (hd_fail e) f = hd_fail e"
  by (simp_all add: hd_then_def hd_ret_def hd_fail_def fun_eq_iff)

lemma one_mutation_then:
  "looks m \<Longrightarrow> (\<And>x. one_mutation h c wid (f x)) \<Longrightarrow> one_mutation h c wid (hd_then m f)"
  by (auto simp: looks_def one_mutation_fail)

text \<open>What a step does depends on the remote side through the resolved provider alone.\<close>

lemma rt_write_remote: "rt_write (h\<lparr> he_remote := remote \<rparr>) c = rt_write h c"
  by (simp add: rt_write_def rt_read_def hd_then_def fun_eq_iff)

lemma rt_mutate_remote:
  "remote (rd_Provider sc) = he_remote h (rd_Provider sc) \<Longrightarrow>
     rt_mutate (h\<lparr> he_remote := remote \<rparr>) c sc k evs svc = rt_mutate h c sc k evs svc"
  by (simp add: rt_mutate_def fun_eq_iff split: prod.split sum.split)

lemma guard_remote: "guardPrivilegedRoles (h\<lparr> he_remote := remote \<rparr>) c ns = guardPrivilegedRoles h c ns"
  by (simp add: guardPrivilegedRoles_def)

text \<open>Every mutation is the write seam followed by at most one attempt, on the provider
  the seam resolved.\<close>

lemma mutating_shape:
  fixes h :: "'s handler_env"
  assumes "mutating rq"
  obtains k :: "'s handler_env \<Rightarrow> resolved \<Rightarrow> ('s, reply) hd"
    where "\<And>h. handler_of h c rq = hd_then (rt_write h c) (k h)"
    and "\<And>h sc. one_mutation h c (rd_WorkspacePublicID sc) (k h sc)"
    and "\<And>h sc remote. remote (rd_Provider sc) = he_remote h (rd_Provider sc) \<Longrightarrow> k (h\<lparr> he_remote := remote \<rparr>) sc = k h sc"
proof -
  note rules = one_mutation_then one_mutation_call looking
  have "\<exists>k :: 's handler_env \<Rightarrow> resolved \<Rightarrow> ('s, reply) hd.
      (\<forall>h. handler_of h c rq = hd_then (rt_write h c) (k h)) \<and>
      (\<forall>h sc remote. remote (rd_Provider sc) = he_remote h (rd_Provider sc) \<longrightarrow> k (h\<lparr> he_remote := remote \<rparr>) sc = k h sc) \<and>
      (\<forall>h sc. one_mutation h c (rd_WorkspacePublicID sc) (k h sc))"
    using assms
    by (cases rq; (simp add: mutating_def; fail)?)
      (simp only: handler_of.simps hd_CreateUser_def hd_UpdateUser_def hd_DeleteUser_def hd_CreateRole_def
          hd_UpdateRole_def hd_DeleteRole_def hd_AssignRolesToUser_def hd_UnassignRoleFromUser_def
          hd_CreateInvitation_def hd_ResendInvitation_def hd_DeleteInvitation_def hd_DeleteSession_def
          hd_LogoutUserSessions_def hd_ResetUserPassword_def hd_SetUserPassword_def case_prod_unfold,
        rule exI, rule conjI, rule allI, rule refl, rule conjI,
        simp add: rt_mutate_remote guard_remote Let_def, intro allI rules, simp_all add: Let_def)+
  with that show thesis by blast
qed

section \<open>Errors\<close>

definition catalogue :: "go_error list" where
  "catalogue =
     [RtErrInvalidWorkspaceID, RtErrWorkspaceNotFound, RtErrWorkspaceArchived, RtErrConnectionMissing,
      RtErrConnectionUnusable, RtErrCredentialsUnavailable, RtErrInternal, RtErrConnectionReadOnly,
      RtErrProviderUnavailable, RtErrRolePrivileged, RtErrInvalidRequest, RtErrInvalidUserID,
      RtErrInvalidRoleName, RtErrInvalidSessionID, RtErrUserNotFound, RtErrRoleNotFound,
      RtErrSessionNotFound, RtErrInvitationNotFound, RtErrRoleAlreadyExists, RtErrRoleReserved,
      RtErrConflict, RtErrCallerForbidden, RtErrProviderForbidden]"

definition failure_ok :: "rt_failure \<Rightarrow> bool" where
  "failure_ok f \<longleftrightarrow> (case fst f of
       AppError _ _ _ \<Rightarrow> fst f \<in> set catalogue \<and>
         (snd f = [] \<or> fst f = RtErrInvalidRequest \<and> isKnownFieldName (snd f))
     | _ \<Rightarrow> True)"

definition step_ok :: "('s, 'a) hd \<Rightarrow> bool" where
  "step_ok m \<longleftrightarrow> (\<forall>s f s'. m s = (Inl f, s') \<longrightarrow> failure_ok f)"

definition replies_ok :: "('s, reply) hd \<Rightarrow> bool" where
  "replies_ok m \<longleftrightarrow> (\<forall>s r s'. m s = (Inr r, s') \<longrightarrow> \<not> is_error r)"

lemmas catalogue_defs = RtErrInvalidWorkspaceID_def RtErrWorkspaceNotFound_def RtErrWorkspaceArchived_def
  RtErrConnectionMissing_def RtErrConnectionUnusable_def RtErrCredentialsUnavailable_def RtErrInternal_def
  RtErrConnectionReadOnly_def RtErrProviderUnavailable_def RtErrRolePrivileged_def RtErrInvalidRequest_def
  RtErrInvalidUserID_def RtErrInvalidRoleName_def RtErrInvalidSessionID_def RtErrUserNotFound_def
  RtErrRoleNotFound_def RtErrSessionNotFound_def RtErrInvitationNotFound_def RtErrRoleAlreadyExists_def
  RtErrRoleReserved_def RtErrConflict_def RtErrCallerForbidden_def RtErrProviderForbidden_def

lemma catalogue_ok: "list_all (\<lambda>e. failure_ok (e, [])) catalogue"
  unfolding list_all_iff by (auto simp: failure_ok_def split: go_error.split)

lemmas in_catalogue = catalogue_ok [unfolded catalogue_def, simplified]

lemma with_field_ok: "failure_ok (rt_WithField RtErrInvalidRequest f)"
  unfolding rt_WithField_def failure_ok_def RtErrInvalidRequest_def catalogue_def by simp

lemma translate_ok: "failure_ok (translateIdentityError k e)"
  unfolding translateIdentityError_def
  by (simp add: in_catalogue with_field_ok notFoundFor_def conflictFor_def split: resource_kind.split)
    (simp add: failure_ok_def)

lemma live_connection_Inl:
  "live_connection wid w = (Inl e, w') \<Longrightarrow> e \<in> set catalogue"
  unfolding live_connection_def requireLiveWorkspace_def internal_on_error_def usable_def
  by (auto simp: andThen_def catch_def fail_def ret_def lift_result_def catalogue_def
      split: sum.splits prod.splits option.splits if_splits)

lemma buildProvider_Inl:
  "buildProvider re c w = (Inl e, w') \<Longrightarrow> e \<in> set catalogue"
  unfolding buildProvider_def internal_on_error_def
  by (auto simp: andThen_def catch_def fail_def ret_def catalogue_def
      split: sum.splits prod.splits option.splits if_splits)

lemma catalogued: "e \<in> set catalogue \<Longrightarrow> failure_ok (e, [])"
  using catalogue_ok by (simp add: list_all_iff)

lemma step_ok_read: "step_ok (rt_read h c)"
proof -
  have "failure_ok (e, [])" if "ForWorkspace re wid cache w = (Inl e, cw)" for re wid cache w e cw
    using that
    by (auto simp: ForWorkspace_def intro!: catalogued dest: live_connection_Inl buildProvider_Inl
        split: prod.splits sum.splits option.splits)
  then show ?thesis
    unfolding step_ok_def rt_read_def by (auto split: prod.splits sum.splits)
qed

named_theorems stepping \<open>steps that fail with catalogued errors\<close>

lemma step_ok_basic [stepping]: "step_ok (hd_ret x)" "failure_ok e \<Longrightarrow> step_ok (hd_fail e)"
  by (simp_all add: step_ok_def hd_ret_def hd_fail_def)

lemma step_ok_then [stepping]: "step_ok m \<Longrightarrow> (\<And>x. step_ok (f x)) \<Longrightarrow> step_ok (hd_then m f)"
  unfolding step_ok_def hd_then_def by (simp split: prod.splits sum.splits) blast

lemma step_ok_calls [stepping]:
  "step_ok (rt_call h sc k svc)" "step_ok (rt_mutate h c sc k evs svc2)"
  using translate_ok [of k]
  by (auto simp: step_ok_def rt_call_def rt_mutate_def Let_def split: prod.splits sum.splits) metis+

lemma step_ok_seams [stepping]:
  "step_ok (rt_read h c)" "step_ok (rt_write h c)" "step_ok (rt_bind b)"
  "step_ok (guardPrivilegedRoles h c ns)"
  "step_ok (pathUserID c)" "step_ok (pathRoleName c)" "step_ok (pathSessionID c)" "step_ok (pathInvitationID c)"
  unfolding rt_write_def rt_bind_def guardPrivilegedRoles_def pathUserID_def pathRoleName_def
    pathSessionID_def pathInvitationID_def path_checked_def
  by (auto simp: in_catalogue intro!: stepping step_ok_read with_field_ok split: sum.split option.split)

lemma replies_ok_then: "(\<And>x. replies_ok (f x)) \<Longrightarrow> replies_ok (hd_then m f)"
  unfolding replies_ok_def hd_then_def by (simp split: prod.splits sum.splits)

lemma replies_ok_ret: "\<not> is_error r \<Longrightarrow> replies_ok (hd_ret r)"
  by (simp add: replies_ok_def hd_ret_def)

lemmas handler_defs = hd_CreateUser_def hd_UpdateUser_def hd_DeleteUser_def hd_CreateRole_def
  hd_UpdateRole_def hd_DeleteRole_def hd_AssignRolesToUser_def hd_UnassignRoleFromUser_def
  hd_CreateInvitation_def hd_ResendInvitation_def hd_DeleteInvitation_def hd_DeleteSession_def
  hd_LogoutUserSessions_def hd_ResetUserPassword_def hd_SetUserPassword_def case_prod_unfold
  hd_ListUsers_def hd_GetUser_def hd_ListRoles_def hd_GetRole_def hd_ListRoleUsers_def
  hd_ListUserRoles_def hd_ListInvitations_def hd_ListSessions_def hd_ListUserSessions_def Let_def
  users_reply_def roles_reply_def sessionsResponse_def

lemma handlers_step_ok: "step_ok (handler_of h c rq)"
  by (cases rq) (simp only: handler_of.simps handler_defs, intro step_ok_then step_ok_basic step_ok_seams step_ok_calls)+

lemma handlers_replies_ok: "replies_ok (handler_of h c rq)"
  by (cases rq) (simp only: handler_of.simps handler_defs, intro replies_ok_then replies_ok_ret, simp)+

text \<open>Which provider a mutation went through, and what it left.\<close>

lemma mutation_route:
  fixes h :: "'s handler_env"
  assumes "mutating rq" and "rt_handle h c rq s = (rep, s')"
  shows "is_error rep \<and> untouched s s' \<or>
    (\<exists>x s1. rt_read h c s = (Inr x, s1) \<and> rd_CanWrite x \<and>
       recorded h c (rd_WorkspacePublicID x) (is_error rep) s s' \<and>
       (\<forall>remote. remote (rd_Provider x) = he_remote h (rd_Provider x) \<longrightarrow>
          rt_handle (h\<lparr> he_remote := remote \<rparr>) c rq s = (rep, s')))"
proof -
  obtain k :: "'s handler_env \<Rightarrow> resolved \<Rightarrow> ('s, reply) hd" where k: "\<And>h. handler_of h c rq = hd_then (rt_write h c) (k h)"
    and one: "\<And>h sc. one_mutation h c (rd_WorkspacePublicID sc) (k h sc)"
    and same: "\<And>h sc remote. remote (rd_Provider sc) = he_remote h (rd_Provider sc) \<Longrightarrow> k (h\<lparr> he_remote := remote \<rparr>) sc = k h sc"
    by (rule mutating_shape [OF assms(1), where c = c]) blast
  have err: "is_error (respondError c f)" for f
    by (auto simp: respondError_def split: go_error.split prod.split)
  obtain r s1 where rd: "rt_read h c s = (r, s1)" by fastforce
  show ?thesis
  proof (cases r)
    case (Inl f)
    with rd rt_read_Inl [of h c s f s1] assms(2) k [of h] err [of f] show ?thesis
      by (simp add: rt_handle_def respond_with_def hd_then_def rt_write_def untouched_def)
  next
    case (Inr x)
    with rd rt_read_live have x: "rt_realm s1 = rt_realm s" "rt_events s1 = rt_events s" by metis+
    show ?thesis
    proof (cases "rd_CanWrite x")
      case False
      with Inr rd x assms(2) k [of h] err show ?thesis
        by (auto simp: rt_handle_def respond_with_def hd_then_def rt_write_def hd_fail_def untouched_def)
    next
      case True
      with rd Inr have w: "rt_write h c s = (Inr x, s1)" by (simp add: rt_write_def hd_then_def hd_ret_def)
      have to_k: "rt_handle g c rq s = respond_with c (k g x) s1" if "rt_write g c s = (Inr x, s1)" for g
        using that by (simp add: rt_handle_def k respond_with_def hd_then_def)
      have through: "rt_handle (h\<lparr> he_remote := remote \<rparr>) c rq s = (rep, s')"
        if "remote (rd_Provider x) = he_remote h (rd_Provider x)" for remote
        using to_k [of "h\<lparr> he_remote := remote \<rparr>"] to_k [of h] w assms(2) by (simp add: rt_write_remote same [where h = h and sc = x and remote = remote, OF that])
      obtain q s2 where q: "k h x s1 = (q, s2)" by fastforce
      from one [of h x] have "case (q, s2) of
          (Inl e, s') \<Rightarrow> untouched s1 s' \<or> recorded h c (rd_WorkspacePublicID x) True s1 s'
        | (Inr r, s') \<Rightarrow> \<not> is_error r \<and> recorded h c (rd_WorkspacePublicID x) False s1 s'"
        unfolding one_mutation_def q [symmetric] ..
      moreover have "rep = (case q of Inl e \<Rightarrow> respondError c e | Inr r \<Rightarrow> r)" "s' = s2"
        using assms(2) to_k [OF w] q by (auto simp: respond_with_def split: sum.splits)
      moreover have "untouched s1 s2 \<Longrightarrow> untouched s s2" "recorded h c i b s1 s2 \<Longrightarrow> recorded h c i b s s2" for i b
        using x by (simp_all add: untouched_def recorded_def)
      ultimately have "is_error rep \<and> untouched s s' \<or> recorded h c (rd_WorkspacePublicID x) (is_error rep) s s'"
        using err by (cases q) auto
      with rd Inr True through show ?thesis by blast
    qed
  qed
qed

lemma effects_audited:
  assumes "mutating rq" and "rt_handle h c rq s = (rep, s')"
  shows "is_error rep \<and> untouched s s' \<or>
    (\<exists>x. live_route c (w_db (rt_db s)) x \<and> rd_CanWrite x \<and>
       recorded h c (rd_WorkspacePublicID x) (is_error rep) s s')"
  using mutation_route [OF assms] rt_read_live by blast

section \<open>Properties\<close>

text \<open>C4: A mutating request touches a realm or the trail only through the client built
  from the row, and the secret sealed in it, of the active connection of the live
  workspace its path names, only when that connection is not known to be
  under-privileged, and then leaves events that name the caller, the request and that
  workspace, with a reason exactly when the client is answered an error: were every
  other provider replaced, the reply and the state would be the same. Otherwise it is
  answered an error and nothing changes. The cache and the rows are as any sequence of
  mutations, rotations and resolutions leaves them.\<close>

theorem identity_effects_audited:
  assumes "mutating rq" and "rt_handle h c rq s = (rep, s')" and "rt_inv (he_resolver h) (rt_cache s, rt_db s)"
  shows "is_error rep \<and> untouched s s' \<or>
    (\<exists>x r. routed c (w_db (rt_db s)) x r \<and> serves (he_resolver h) (rd_Provider x) r \<and> rd_CanWrite x \<and>
       recorded h c (rd_WorkspacePublicID x) (is_error rep) s s' \<and>
       (\<forall>remote. remote (rd_Provider x) = he_remote h (rd_Provider x) \<longrightarrow>
          rt_handle (h\<lparr> he_remote := remote \<rparr>) c rq s = (rep, s')))"
  using mutation_route [OF assms(1,2)]
proof (elim disjE exE conjE)
  fix x s1
  assume rd: "rt_read h c s = (Inr x, s1)" and rest: "rd_CanWrite x" "recorded h c (rd_WorkspacePublicID x) (is_error rep) s s'"
    "\<forall>remote. remote (rd_Provider x) = he_remote h (rd_Provider x) \<longrightarrow> rt_handle (h\<lparr> he_remote := remote \<rparr>) c rq s = (rep, s')"
  obtain r where "routed c (w_db (rt_db s)) x r" "serves (he_resolver h) (rd_Provider x) r"
    by (rule rt_read_routed [OF rd assms(3)])
  with rest show ?thesis by blast
qed simp

text \<open>C37: Whatever the request and whatever the database, the cache or the provider
  answers, an error the client sees is an entry of the catalogue with that entry's
  status and message, and names a field only on an invalid request, by a name that
  has the shape of a field name.\<close>

theorem replies_catalogued:
  "case fst (rt_handle h c rq s) of
     RpError st b \<Rightarrow> AppError (eb_Code b) (eb_Message b) st \<in> set catalogue \<and> eb_RequestID b = FromContext c \<and>
       (eb_Field b = [] \<or> eb_Code b = ''invalid_request'' \<and> isKnownFieldName (eb_Field b))
   | _ \<Rightarrow> True"
proof -
  have ok: "case respondError c f of
     RpError st b \<Rightarrow> AppError (eb_Code b) (eb_Message b) st \<in> set catalogue \<and> eb_RequestID b = FromContext c \<and>
       (eb_Field b = [] \<or> eb_Code b = ''invalid_request'' \<and> isKnownFieldName (eb_Field b))
   | _ \<Rightarrow> True" if "failure_ok f" for f
  proof (cases "\<exists>a b n. fst f = AppError a b n")
    case True
    with that show ?thesis by (auto simp: respondError_def failure_ok_def RtErrInvalidRequest_def)
  next
    case False
    moreover have "RtErrInternal \<in> set catalogue" by (simp add: catalogue_def)
    ultimately show ?thesis
      by (cases "fst f") (auto simp: respondError_def RtErrInternal_def)
  qed
  obtain r s' where m: "handler_of h c rq s = (r, s')" by fastforce
  show ?thesis
  proof (cases r)
    case (Inl f)
    with m handlers_step_ok [of h c rq] have "failure_ok f" unfolding step_ok_def by blast
    from ok [OF this] m Inl show ?thesis by (simp add: rt_handle_def respond_with_def)
  next
    case (Inr rep)
    with m handlers_replies_ok [of h c rq] have "\<not> is_error rep" by (auto simp: replies_ok_def)
    with m Inr show ?thesis by (cases rep) (simp_all add: rt_handle_def respond_with_def)
  qed
qed

text \<open>A handler that stops before its call.\<close>

definition stops :: "('s, reply) hd \<Rightarrow> bool" where
  "stops m \<longleftrightarrow> (\<forall>s. \<exists>f s'. m s = (Inl f, s') \<and> untouched s s')"

lemma stops_fail: "stops (hd_fail e)"
  by (simp add: stops_def hd_fail_def untouched_def)

lemma stops_looks: "looks m \<Longrightarrow> (\<And>x. stops (f x)) \<Longrightarrow> stops (hd_then m f)"
  by (auto simp: looks_def stops_fail)

lemma stops_write: "(\<And>x. stops (f x)) \<Longrightarrow> stops (hd_then (rt_write h c) f)"
  unfolding stops_def
proof
  fix s
  assume f: "\<And>x. \<forall>s. \<exists>e s'. f x s = (Inl e, s') \<and> untouched s s'"
  obtain r s1 where rd: "rt_read h c s = (r, s1)" by fastforce
  have u: "untouched s s1"
  proof (cases r)
    case (Inl e)
    with rd rt_read_Inl [of h c s e s1] show ?thesis by (simp add: untouched_def)
  next
    case (Inr x)
    with rd rt_read_live [of h c s x s1] show ?thesis by (simp add: untouched_def)
  qed
  show "\<exists>e s'. hd_then (rt_write h c) f s = (Inl e, s') \<and> untouched s s'"
  proof (cases "\<exists>x. r = Inr x \<and> rd_CanWrite x")
    case True
    then obtain x where x: "r = Inr x" "rd_CanWrite x" by blast
    from f [of x] obtain e s' where "f x s1 = (Inl e, s')" "untouched s1 s'" by blast
    with x rd u show ?thesis by (auto simp: rt_write_def hd_then_def hd_ret_def untouched_def)
  next
    case False
    with rd u show ?thesis
      by (cases r) (auto simp: rt_write_def hd_then_def hd_fail_def)
  qed
qed

lemma stops_answer: "stops m \<Longrightarrow> is_error (fst (respond_with c m s)) \<and> untouched s (snd (respond_with c m s))"
proof -
  assume "stops m"
  then obtain f s' where m: "m s = (Inl f, s')" "untouched s s'" unfolding stops_def by blast
  have "is_error (respondError c f)" by (auto simp: respondError_def split: go_error.split prod.split)
  with m show ?thesis by (simp add: respond_with_def)
qed

lemma guard_refuses:
  assumes "PrincipalFrom c = Some p" and "IsProject p"
    and "list_ex (IsProtectedRoleName (sv_u (he_service h))) names"
  shows "guardPrivilegedRoles h c names = hd_fail (RtErrRolePrivileged, [])"
  using assms by (simp add: guardPrivilegedRoles_def)

text \<open>C5: On the two role-mapping routes of a user, a request with a project credential
  that names a protected role, in whatever case or spacing, is answered an error, the
  realm is not asked and nothing is recorded. The routes that create a user or an
  invitation do not have this guard: \<open>privileged_role_at_creation\<close> below.\<close>

theorem machine_cannot_move_protected_roles:
  assumes "PrincipalFrom c = Some p" and "IsProject p"
    and "rq = PostUserRoles (Inr roles) \<and> list_ex (IsProtectedRoleName (sv_u (he_service h))) roles \<or>
      rq = DeleteUserRole \<and> IsProtectedRoleName (sv_u (he_service h)) (Param c ''role_name'')"
  shows "is_error (fst (rt_handle h c rq s)) \<and> untouched s (snd (rt_handle h c rq s))"
  using assms(3) unfolding rt_handle_def
proof (elim disjE conjE)
  assume rq: "rq = PostUserRoles (Inr roles)" "list_ex (IsProtectedRoleName (sv_u (he_service h))) roles"
  show "is_error (fst (respond_with c (handler_of h c rq) s)) \<and> untouched s (snd (respond_with c (handler_of h c rq) s))"
    unfolding rq(1) handler_of.simps hd_AssignRolesToUser_def rt_bind_def
    by (rule stops_answer, rule stops_write, rule stops_looks [OF looks_path(1)])
      (simp add: guard_refuses [OF assms(1,2) rq(2)] stops_fail)
next
  assume rq: "rq = DeleteUserRole" "IsProtectedRoleName (sv_u (he_service h)) (Param c ''role_name'')"
  have g: "guardPrivilegedRoles h c [Param c ''role_name''] = hd_fail (RtErrRolePrivileged, [])"
    by (rule guard_refuses [OF assms(1,2)]) (simp add: rq(2))
  show "is_error (fst (respond_with c (handler_of h c rq) s)) \<and> untouched s (snd (respond_with c (handler_of h c rq) s))"
    unfolding rq(1) handler_of.simps hd_UnassignRoleFromUser_def
    by (rule stops_answer, rule stops_write, rule stops_looks [OF looks_path(1)])
      (simp add: pathRoleName_def path_checked_def g stops_fail)
qed

text \<open>The guard covers the grant and the revoke, not creation: who asks for a user with
  the admin role makes no difference to what the provider is sent.\<close>

lemma privileged_role_at_creation:
  assumes "rt_write h c s = (Inr sc, s1)" and "emailPattern (to_lower (sv_u (he_service h)) (trim_space (cur_Email q)))"
    and "to_lower (sv_u (he_service h)) (trim_space (cur_Email q)) \<noteq> []"
    and "minPasswordLength \<le> length (cur_TemporaryPassword q)" and "cur_Roles q = [adminRoleName]"
  shows "\<exists>q'. cur_Roles q' = [adminRoleName] \<and> cur_TemporaryPassword q' = cur_TemporaryPassword q \<and>
    rt_realm (snd (rt_handle h c (PostUser (Inr q)) s)) = snd (ip_CreateUser (he_remote h (rd_Provider sc)) q' (rt_realm s1))"
proof -
  let ?en = "he_service h" and ?P = "he_remote h (rd_Provider sc)"
  let ?q = "q\<lparr> cur_Email := to_lower (sv_u ?en) (trim_space (cur_Email q)), cur_FirstName := trim_space (cur_FirstName q),
    cur_LastName := trim_space (cur_LastName q), cur_Roles := [adminRoleName] \<rparr>"
  have "to_lower (sv_u ?en) (trim_space adminRoleName) = adminRoleName" by (rule admin_lower)
  then have n: "normalizeRoleList ?en [adminRoleName] = Inr [adminRoleName]"
    by (simp add: normalizeRoleList_def adminRoleName_def)
  have "cur_TemporaryPassword q \<noteq> []" using assms(4) by (auto simp: minPasswordLength_def)
  then have sv: "sv_CreateUser ?en ?P q = ip_CreateUser ?P ?q"
    using assms(2-5) n
    by (simp add: sv_CreateUser_def needs_def Let_def after_def from_result_def fun_eq_iff adminRoleName_def)
  have "rt_realm (snd (rt_handle h c (PostUser (Inr q)) s)) = snd (ip_CreateUser ?P ?q (rt_realm s1))"
    using assms(1)
    by (simp add: rt_handle_def respond_with_def hd_CreateUser_def rt_bind_def hd_then_def hd_ret_def rt_mutate_def sv
        Let_def split: prod.split sum.split)
  then show ?thesis by (intro exI [of _ ?q]) simp
qed

section \<open>Concrete requests\<close>

definition demo_handler_env :: "toy_realm handler_env" where
  "demo_handler_env =
     \<lparr> he_resolver = demo_resolver_env, he_service = \<lparr> sv_u = id, sv_quote = id, sv_now = 0 \<rparr>,
       he_remote = (\<lambda>_. toy_provider), he_text = (\<lambda>_. ''failed''), he_ip = ''10.0.0.1'', he_query = (\<lambda>_. []) \<rparr>"

definition demo_rt_state :: "toy_realm rt_state" where
  "demo_rt_state =
     \<lparr> rt_cache = newProviderCache demo_client 0, rt_db = demo_live_world,
       rt_realm = [(''11111111-1111-1111-1111-111111111111'', True, True),
                   (''22222222-2222-2222-2222-222222222222'', True, True)],
       rt_events = [] \<rparr>"

definition demo_rt_ctx :: http_ctx where
  "demo_rt_ctx = empty_ctx\<lparr> rq_params := [(''workspace_id'', demo_wid),
     (''user_id'', ''11111111-1111-1111-1111-111111111111'')] \<rparr>"

lemma demo_delete_ok: "fst (rt_handle demo_handler_env demo_rt_ctx DeleteUser demo_rt_state) = RpStatus 204"
  by code_simp

lemma demo_rt_inv: "rt_inv (he_resolver demo_handler_env) (rt_cache demo_rt_state, rt_db demo_rt_state)"
proof -
  have "rows_ok (db_connections (w_db demo_live_world))" by code_simp
  then show ?thesis
    using new_wf [of demo_client 0] by (simp add: rt_inv_def demo_rt_state_def cache_inv_def entries_def newProviderCache_def)
qed

theorem identity_effects_audited_witness:
  "\<exists>x r. routed demo_rt_ctx (w_db demo_live_world) x r \<and> serves demo_resolver_env (rd_Provider x) r \<and>
     recorded demo_handler_env demo_rt_ctx (rd_WorkspacePublicID x) False demo_rt_state
       (snd (rt_handle demo_handler_env demo_rt_ctx DeleteUser demo_rt_state))"
proof -
  have "mutating DeleteUser" by (simp add: mutating_def)
  from identity_effects_audited [OF this prod.collapse [symmetric] demo_rt_inv, of demo_rt_ctx] demo_delete_ok
  show ?thesis by (auto simp: demo_rt_state_def demo_handler_env_def)
qed

theorem machine_cannot_move_protected_roles_witness:
  "is_error (fst (rt_handle demo_handler_env (demo_rt_ctx\<lparr> cx_principal := Some (NewProjectPrincipal demo_project) \<rparr>)
     (PostUserRoles (Inr [''support'', ''admin''])) demo_rt_state))"
proof -
  let ?c = "demo_rt_ctx\<lparr> cx_principal := Some (NewProjectPrincipal demo_project) \<rparr>"
  have p: "PrincipalFrom ?c = Some (NewProjectPrincipal demo_project)" by (simp add: PrincipalFrom_def)
  have i: "IsProject (NewProjectPrincipal demo_project)" by (simp add: IsProject_def NewProjectPrincipal_def)
  have "IsProtectedRoleName u adminRoleName" for u by (simp add: IsProtectedRoleName_def admin_protected)
  then have "list_ex (IsProtectedRoleName (sv_u (he_service demo_handler_env))) [''support'', ''admin'']"
    by (simp add: adminRoleName_def)
  with machine_cannot_move_protected_roles [OF p i,
      of "PostUserRoles (Inr [''support'', ''admin''])" "[''support'', ''admin'']" demo_handler_env demo_rt_state]
  show ?thesis by simp
qed

end
