(* ===== verification/KeycloakFlows.thy ===== *)
theory KeycloakFlows
  imports KeycloakProvider
begin

text \<open>
  What the provider's methods do to Keycloak, call by call. An event is one call of
  the client with its outcome; \<open>kc_trace\<close> relates two states by the events between
  them, and a trace never hides a request: what the log gains is the traffic of its
  events. A method is bound to its traces by \<open>calls\<close>, with one rule per combinator,
  so that each protocol is read off the definition of its method.
\<close>

section \<open>Traces\<close>

datatype kc_event = KcEvent (ke_method: string) (ke_path: string) (ke_body: string) (ke_outcome: "provider_error + string")

text \<open>A call's effect does not depend on the type it decodes into.\<close>

definition forget :: "(string \<Rightarrow> 'a option) \<Rightarrow> string \<Rightarrow> unit option" where
  "forget dec b = map_option (\<lambda>_. ()) (dec b)"

lemma doJSON_forget:
  assumes "doJSON ev c meth path params body (Some dec) w = (r, w1)"
  shows "doJSON ev c meth path params body (Some (forget dec)) w = (map_sum id (map_option (\<lambda>_. ())) r, w1)"
proof -
  obtain x w2 where s: "send_once ev c meth (path @ (if params = [] then [] else ''?'' @ params)) body True w = (x, w2)"
    by (cases "send_once ev c meth (path @ (if params = [] then [] else ''?'' @ params)) body True w")
  show ?thesis
  proof (cases x)
    case (Inl e)
    with assms s show ?thesis by (auto simp: doJSON_def)
  next
    case (Inr rs)
    with assms s show ?thesis
      by (cases "admin_status_error rs"; cases "rs_status rs = 204"; cases "dec (rs_body rs)")
        (auto simp: doJSON_def forget_def)
  qed
qed

definition json_outcome :: "provider_error + 'a option \<Rightarrow> provider_error + string" where
  "json_outcome r = (case r of Inl e \<Rightarrow> Inl e | Inr _ \<Rightarrow> Inr [])"

definition with_params :: "string \<Rightarrow> string \<Rightarrow> string" where
  "with_params path params = path @ (if params = [] then [] else ''?'' @ params)"

inductive kc_trace :: "kc_provider \<Rightarrow> client_world \<Rightarrow> kc_event list \<Rightarrow> client_world \<Rightarrow> bool" for p where
  kc_idle: "kc_trace p w [] w"
| kc_json: "doJSON (kp_env p) (kp_client p) meth path params body (out :: (string \<Rightarrow> unit option) option) w = (r, w1) \<Longrightarrow> kc_trace p w1 es w2 \<Longrightarrow>
    kc_trace p w (KcEvent meth (with_params path params) body (json_outcome r) # es) w2"
| kc_new: "doCreate (kp_env p) (kp_client p) path body w = (r, w1) \<Longrightarrow> kc_trace p w1 es w2 \<Longrightarrow>
    kc_trace p w (KcEvent ''POST'' path body r # es) w2"

inductive_cases kc_trace_Nil: "kc_trace p w [] w'"
inductive_cases kc_trace_Cons: "kc_trace p w (e # es) w'"

lemma kc_trace_append: "kc_trace p w es w1 \<Longrightarrow> kc_trace p w1 es' w2 \<Longrightarrow> kc_trace p w (es @ es') w2"
  by (induction rule: kc_trace.induct) (auto intro: kc_trace.intros)

text \<open>Every request sent belongs to an event.\<close>

fun traffic_of :: "admin_client \<Rightarrow> kc_event list \<Rightarrow> request list \<Rightarrow> bool" where
  "traffic_of c [] rqs \<longleftrightarrow> rqs = []"
| "traffic_of c (e # es) rqs \<longleftrightarrow> (\<exists>r1 r2. rqs = r1 @ r2 \<and>
     traffic c (ke_method e) (ke_path e) (ke_body e) r1 \<and> traffic_of c es r2)"

lemma doCreate_sends: "\<exists>r1. send_once ev c ''POST'' path body True w = (r1, snd (doCreate ev c path body w))"
  by (auto simp: doCreate_def split: prod.splits sum.splits option.splits)

lemma kc_trace_sent:
  "kc_trace p w es w' \<Longrightarrow> \<exists>rqs. cw_sent w' = cw_sent w @ rqs \<and> traffic_of (kp_client p) es rqs"
proof (induction rule: kc_trace.induct)
  case (kc_idle w)
  then show ?case by simp
next
  case (kc_json meth path params body out w r w1 es w2)
  obtain r1 where "send_once (kp_env p) (kp_client p) meth (with_params path params) body True w = (r1, w1)"
    using doJSON_sends [of "kp_env p" "kp_client p" meth path params body w out] kc_json.hyps(1) by (auto simp: with_params_def)
  from send_traffic [OF this] obtain rqs where
    "sends w w1 rqs" "traffic (kp_client p) meth (with_params path params) body rqs" by blast
  with kc_json.IH show ?case by (auto simp: sends_def)
next
  case (kc_new path body w r w1 es w2)
  obtain r1 where "send_once (kp_env p) (kp_client p) ''POST'' path body True w = (r1, w1)"
    using doCreate_sends [of "kp_env p" "kp_client p" path body w] kc_new.hyps(1) by auto
  from send_traffic [OF this] obtain rqs where
    "sends w w1 rqs" "traffic (kp_client p) ''POST'' path body rqs" by blast
  with kc_new.IH show ?case by (auto simp: sends_def)
qed

section \<open>Methods and their traces\<close>

definition calls :: "kc_provider \<Rightarrow> 'a call \<Rightarrow> (kc_event list \<Rightarrow> provider_error + 'a \<Rightarrow> bool) \<Rightarrow> bool" where
  "calls p m Q \<longleftrightarrow> (\<forall>w r w'. m w = (r, w') \<longrightarrow> (\<exists>es. kc_trace p w es w' \<and> Q es r))"

lemma callsD: "calls p m Q \<Longrightarrow> m w = (r, w') \<Longrightarrow> \<exists>es. kc_trace p w es w' \<and> Q es r"
  by (simp add: calls_def)

lemma calls_weaken: "calls p m Q \<Longrightarrow> (\<And>es r. Q es r \<Longrightarrow> Q' es r) \<Longrightarrow> calls p m Q'"
  unfolding calls_def by blast

lemma calls_return: "Q [] (Inr x) \<Longrightarrow> calls p (kc_return x) Q"
  by (auto simp: calls_def kc_return_def intro: kc_idle)

lemma after_return: "after (kc_return x) f = f x"
  by (rule ext) (simp add: after_def kc_return_def)

lemma calls_refuse: "Q [] (Inl e) \<Longrightarrow> calls p (refuse e) Q"
  by (auto simp: calls_def refuse_def intro: kc_idle)

lemma calls_after:
  assumes "calls p m Q1" and "\<And>x. calls p (f x) (R x)"
    and "\<And>es e. Q1 es (Inl e) \<Longrightarrow> Q es (Inl e)"
    and "\<And>es x es' r. Q1 es (Inr x) \<Longrightarrow> R x es' r \<Longrightarrow> Q (es @ es') r"
  shows "calls p (after m f) Q"
  unfolding calls_def
proof (intro allI impI)
  fix w r w' assume run: "after m f w = (r, w')"
  obtain x w1 where m: "m w = (x, w1)" by (cases "m w")
  from callsD [OF assms(1) m] obtain es where es: "kc_trace p w es w1" "Q1 es x" by blast
  show "\<exists>es. kc_trace p w es w' \<and> Q es r"
  proof (cases x)
    case (Inl e)
    with run m es assms(3) show ?thesis by (auto simp: after_def)
  next
    case (Inr y)
    with run m have "f y w1 = (r, w')" by (simp add: after_def)
    from callsD [OF assms(2) this] obtain es' where "kc_trace p w1 es' w'" "R y es' r" by blast
    with es Inr assms(4) show ?thesis by (blast intro: kc_trace_append)
  qed
qed

lemma calls_on_failure:
  assumes "calls p m Q1" and "calls p c Qc"
    and "\<And>es e es' r'. Q1 es (Inl e) \<Longrightarrow> Qc es' r' \<Longrightarrow> Q (es @ es') (Inl e)"
    and "\<And>es x. Q1 es (Inr x) \<Longrightarrow> Q es (Inr x)"
  shows "calls p (on_failure m c) Q"
  unfolding calls_def
proof (intro allI impI)
  fix w r w' assume run: "on_failure m c w = (r, w')"
  obtain x w1 where m: "m w = (x, w1)" by (cases "m w")
  from callsD [OF assms(1) m] obtain es where es: "kc_trace p w es w1" "Q1 es x" by blast
  show "\<exists>es. kc_trace p w es w' \<and> Q es r"
  proof (cases x)
    case (Inr y)
    with run m es assms(4) show ?thesis by (auto simp: on_failure_def)
  next
    case (Inl e)
    obtain y w2 where c: "c w1 = (y, w2)" by (cases "c w1")
    from callsD [OF assms(2) c] obtain es' where "kc_trace p w1 es' w2" "Qc es' y" by blast
    with es Inl c run m assms(3) show ?thesis by (auto simp: on_failure_def intro: kc_trace_append)
  qed
qed

lemma calls_or_instead:
  assumes "calls p m Q1" and "\<And>es r. Q1 es r \<Longrightarrow> (case r of Inl e \<Rightarrow> \<forall>x. Q es (Inr x) | Inr x \<Rightarrow> Q es (Inr x))"
  shows "calls p (or_instead m d) Q"
  unfolding calls_def
proof (intro allI impI)
  fix w r w' assume run: "or_instead m d w = (r, w')"
  obtain x w1 where m: "m w = (x, w1)" by (cases "m w")
  from callsD [OF assms(1) m] obtain es where "kc_trace p w es w1" "Q1 es x" by blast
  with run m assms(2) show "\<exists>es. kc_trace p w es w' \<and> Q es r"
    by (fastforce simp: or_instead_def split: sum.splits)
qed

text \<open>One call: its event says whether it failed, and how.\<close>

definition failed_as :: "provider_error + 'a \<Rightarrow> provider_error + string \<Rightarrow> bool" where
  "failed_as r out \<longleftrightarrow> out = (case r of Inl e \<Rightarrow> Inl e | Inr _ \<Rightarrow> Inr [])"

lemma failed_as_simps [simp]:
  "failed_as (Inl e) out \<longleftrightarrow> out = Inl e" "failed_as (Inr x) out \<longleftrightarrow> out = Inr []"
  by (simp_all add: failed_as_def)

lemma calls_get:
  "calls p (kc_get p path params dec zero)
     (\<lambda>es r. \<exists>out. es = [KcEvent ''GET'' (with_params path params) [] out] \<and> failed_as r out)"
  unfolding calls_def
proof (intro allI impI)
  fix w r w' assume run: "kc_get p path params dec zero w = (r, w')"
  obtain x w1 where d: "doJSON (kp_env p) (kp_client p) ''GET'' path params [] (Some (dec (kp_codec p))) w = (x, w1)"
    by (cases "doJSON (kp_env p) (kp_client p) ''GET'' path params [] (Some (dec (kp_codec p))) w")
  from kc_json [OF doJSON_forget [OF d] kc_idle] run d
  show "\<exists>es. kc_trace p w es w' \<and> (\<exists>out. es = [KcEvent ''GET'' (with_params path params) [] out] \<and> failed_as r out)"
    by (auto simp: kc_get_def json_outcome_def split: sum.splits)
qed

lemma calls_send:
  "calls p (kc_send p meth path body)
     (\<lambda>es r. \<exists>out. es = [KcEvent meth path (case body of None \<Rightarrow> [] | Some j \<Rightarrow> render j) out] \<and> failed_as r out)"
  unfolding calls_def
proof (intro allI impI)
  fix w r w' assume run: "kc_send p meth path body w = (r, w')"
  define b where "b = (case body of None \<Rightarrow> [] | Some j \<Rightarrow> render j)"
  obtain x w1 where d: "doJSON (kp_env p) (kp_client p) meth path [] b (None :: (string \<Rightarrow> unit option) option) w = (x, w1)"
    by (cases "doJSON (kp_env p) (kp_client p) meth path [] b (None :: (string \<Rightarrow> unit option) option) w")
  from kc_json [OF d kc_idle] run d
  show "\<exists>es. kc_trace p w es w' \<and> (\<exists>out. es = [KcEvent meth path b out] \<and> failed_as r out)"
    by (auto simp: kc_send_def b_def with_params_def json_outcome_def split: sum.splits)
qed

lemma calls_create:
  "calls p (kc_create p path body) (\<lambda>es r. es = [KcEvent ''POST'' path (render body) r])"
  unfolding calls_def kc_create_def by (blast intro: kc_new kc_idle)

section \<open>Plans\<close>

text \<open>A plan is the list of requests a method wants to make. Running it stops at the
  first that fails, and the method fails with that call's error.\<close>

type_synonym kc_request = "string \<times> string \<times> string"

fun did :: "provider_error + string \<Rightarrow> kc_request \<Rightarrow> kc_event" where
  "did out (meth, path, body) = KcEvent meth path body out"

definition runs :: "kc_request list \<Rightarrow> kc_event list \<Rightarrow> provider_error + 'a \<Rightarrow> bool" where
  "runs plan es r \<longleftrightarrow>
     (case r of
        Inr _ \<Rightarrow> es = map (did (Inr [])) plan
      | Inl e \<Rightarrow> (\<exists>before q later. plan = before @ q # later \<and> es = map (did (Inr [])) before @ [did (Inl e) q]))"

lemma runs_one: "failed_as r out \<Longrightarrow> runs [(meth, path, body)] [KcEvent meth path body out] r"
  by (cases r) (auto simp: runs_def)

lemma runs_Inr [simp]: "runs plan es (Inr x) \<longleftrightarrow> es = map (did (Inr [])) plan"
  by (simp add: runs_def)

lemma runs_InlI:
  "plan = before @ q # later \<Longrightarrow> es = map (did (Inr [])) before @ [did (Inl e) q] \<Longrightarrow> runs plan es (Inl e)"
  unfolding runs_def sum.case by blast

lemma runs_InlE:
  assumes "runs plan es (Inl e)"
  obtains before q later where "plan = before @ q # later" "es = map (did (Inr [])) before @ [did (Inl e) q]"
  using assms unfolding runs_def sum.case by blast

lemma runs_extend:
  assumes "runs plan es (Inl e)" shows "runs (plan @ plan') es (Inl e)"
proof -
  from assms obtain before q later where "plan = before @ q # later" "es = map (did (Inr [])) before @ [did (Inl e) q]"
    by (rule runs_InlE)
  then show ?thesis by (intro runs_InlI [of _ before q "later @ plan'"]) simp_all
qed

lemma runs_append:
  assumes "runs plan es (Inr x)" and "runs plan' es' r" shows "runs (plan @ plan') (es @ es') r"
proof (cases r)
  case (Inl e)
  from assms(2) [unfolded Inl] obtain before q later where
    "plan' = before @ q # later" "es' = map (did (Inr [])) before @ [did (Inl e) q]" by (rule runs_InlE)
  with assms(1) show ?thesis unfolding Inl by (intro runs_InlI [of _ "plan @ before" q later]) simp_all
qed (use assms in simp)

lemma runs_result: "runs plan es (Inl e :: provider_error + 'a) \<Longrightarrow> runs plan es (Inl e :: provider_error + 'b)"
  by (simp add: runs_def)

lemma calls_get_runs: "calls p (kc_get p path [] dec zero) (runs [(''GET'', path, [])])"
  by (rule calls_weaken [OF calls_get]) (auto simp: with_params_def intro: runs_one)

lemma calls_send_runs: "calls p (kc_send p meth path (Some j)) (runs [(meth, path, render j)])"
  by (rule calls_weaken [OF calls_send]) (auto intro: runs_one)

lemma calls_delete_runs: "calls p (kc_send p meth path None) (runs [(meth, path, [])])"
  by (rule calls_weaken [OF calls_send]) (auto intro: runs_one)

lemma calls_after_runs:
  assumes "calls p m (runs plan)" and "\<And>x. calls p (f x) (runs plan')"
  shows "calls p (after m f) (runs (plan @ plan'))"
  by (rule calls_after [OF assms]) (auto intro: runs_extend runs_append dest: runs_result)

lemma calls_after_return:
  assumes "calls p m (runs plan)" shows "calls p (after m (\<lambda>x. kc_return (f x))) (runs plan)"
proof (rule calls_after [OF assms])
  show "calls p (kc_return (f x)) (\<lambda>es r. es = [] \<and> r = Inr (f x))" for x by (simp add: calls_return)
qed (auto dest: runs_result)

lemma calls_get_then:
  assumes "calls p m (runs plan)" and "\<And>x w. snd (f x w) = w \<and> (\<exists>y. fst (f x w) = Inr y)"
  shows "calls p (after m f) (runs plan)"
proof (rule calls_after [OF assms(1)])
  have "\<exists>y. r = Inr y \<and> w' = w" if "f x w = (r, w')" for x w r w' using assms(2) [of x w] that by auto
  then have "\<exists>es. kc_trace p w es w' \<and> es = [] \<and> (\<exists>y. r = Inr y)" if "f x w = (r, w')" for x w r w'
    using that kc_idle by metis
  then show "calls p (f x) (\<lambda>es r. es = [] \<and> (\<exists>y. r = Inr y))" for x
    unfolding calls_def by simp
qed (auto dest: runs_result)

text \<open>Role names are looked up one by one, the first missing one ends it.\<close>

definition look_up :: "string \<Rightarrow> kc_request" where "look_up n = (''GET'', role_path n, [])"

lemma calls_GetRole: "calls p (kp_GetRole p n) (runs [look_up n])"
  unfolding kp_GetRole_def look_up_def by (intro calls_after_return calls_get_runs)

lemma calls_resolve:
  "calls p (resolveRoles p ns) (\<lambda>es r. runs (map look_up ns) es r \<and> (case r of Inl _ \<Rightarrow> True | Inr rs \<Rightarrow> length rs = length ns))"
proof (induction ns)
  case Nil
  show ?case by (simp add: calls_return)
next
  case (Cons n ns)
  show ?case unfolding resolveRoles.simps
  proof (rule calls_after [OF calls_GetRole])
    show "calls p (after (resolveRoles p ns) (\<lambda>rest. kc_return (\<lparr> rb_ID = ir_ID r, rb_Name = ir_Name r \<rparr> # rest)))
        (\<lambda>es r. runs (map look_up ns) es r \<and> (case r of Inl _ \<Rightarrow> True | Inr rs \<Rightarrow> length rs = Suc (length ns)))" for r
      by (rule calls_after [OF Cons.IH, where R = "\<lambda>rest es r. es = [] \<and> (\<exists>b. r = Inr (b # rest))"])
        (auto intro: calls_return dest: runs_result)
  next
    fix es e assume "runs [look_up n] es (Inl e :: provider_error + idp_role)"
    then show "runs (map look_up (n # ns)) es (Inl e :: provider_error + kc_role_brief list) \<and>
        (case Inl e :: provider_error + kc_role_brief list of Inl _ \<Rightarrow> True | Inr rs \<Rightarrow> length rs = length (n # ns))"
      using runs_extend [of "[look_up n]" es e "map look_up ns"] by (simp add: runs_def)
  next
    fix es x es' r
    assume "runs [look_up n] es (Inr (x :: idp_role))"
      and "runs (map look_up ns) es' r \<and> (case r of Inl _ \<Rightarrow> True | Inr rs \<Rightarrow> length rs = Suc (length ns))"
    then show "runs (map look_up (n # ns)) (es @ es') r \<and> (case r of Inl _ \<Rightarrow> True | Inr rs \<Rightarrow> length rs = length (n # ns))"
      using runs_append [of "[look_up n]" es x "map look_up ns" es' r] by (cases r) (simp_all del: runs_Inr)
  qed
qed

text \<open>The plan of a change of roles: every name looked up, then one request for all.\<close>

definition mapping_path :: "string \<Rightarrow> string" where "mapping_path i = user_path i @ ''/role-mappings/realm''"

definition role_plan :: "string \<Rightarrow> string \<Rightarrow> string list \<Rightarrow> kc_role_brief list \<Rightarrow> kc_request list" where
  "role_plan meth i roles briefs =
     (if roles = [] then [] else map look_up roles @ [(meth, mapping_path i, render (role_briefs briefs))])"

definition changes_roles :: "string \<Rightarrow> string \<Rightarrow> string list \<Rightarrow> kc_event list \<Rightarrow> provider_error + unit \<Rightarrow> bool" where
  "changes_roles meth i roles es r \<longleftrightarrow>
     (\<exists>briefs. length briefs = length roles \<and> runs (role_plan meth i roles briefs) es r)"

lemma calls_change:
  "calls p (if roles = [] then kc_return ()
     else after (resolveRoles p roles) (\<lambda>resolved. kc_send p meth (mapping_path i) (Some (role_briefs resolved))))
     (changes_roles meth i roles)"
proof (cases "roles = []")
  case True
  then show ?thesis by (simp add: calls_return changes_roles_def role_plan_def)
next
  case False
  have "calls p (after (resolveRoles p roles) (\<lambda>resolved. kc_send p meth (mapping_path i) (Some (role_briefs resolved))))
      (changes_roles meth i roles)"
  proof (rule calls_after [OF calls_resolve calls_send_runs])
    fix es e
    assume "runs (map look_up roles) es (Inl e :: provider_error + kc_role_brief list) \<and>
      (case Inl e :: provider_error + kc_role_brief list of Inl _ \<Rightarrow> True | Inr rs \<Rightarrow> length rs = length roles)"
    then have "runs (role_plan meth i roles briefs) es (Inl e :: provider_error + unit)" for briefs
      using False runs_extend [of "map look_up roles" es e] by (simp add: role_plan_def runs_def)
    then show "changes_roles meth i roles es (Inl e)"
      unfolding changes_roles_def by (metis length_replicate)
  next
    fix es x es' r
    assume *: "runs (map look_up roles) es (Inr x) \<and> (case Inr x of Inl _ \<Rightarrow> True | Inr rs \<Rightarrow> length rs = length roles)"
      and r: "runs [(meth, mapping_path i, render (role_briefs x))] es' (r :: provider_error + unit)"
    from runs_append [OF conjunct1 [OF *] r] * False show "changes_roles meth i roles (es @ es') r"
      unfolding changes_roles_def role_plan_def by (intro exI [of _ x]) simp
  qed
  with False show ?thesis by simp
qed

lemma calls_Assign: "calls p (kp_AssignRolesToUser p i roles) (changes_roles ''POST'' i roles)"
  using calls_change unfolding kp_AssignRolesToUser_def mapping_path_def .

lemma calls_Unassign: "calls p (kp_UnassignRolesFromUser p i roles) (changes_roles ''DELETE'' i roles)"
  using calls_change unfolding kp_UnassignRolesFromUser_def mapping_path_def .

section \<open>Provisioning\<close>

text \<open>After a user \<open>i\<close> was created: one of the plans runs; if it fails the user is
  deleted, if it succeeds the user is read back, and the outcome of either call
  changes nothing.\<close>

definition finishes :: "string \<Rightarrow> kc_request list set \<Rightarrow> kc_event list \<Rightarrow> provider_error + 'a \<Rightarrow> bool" where
  "finishes i plans es r \<longleftrightarrow>
     (\<exists>plan steps out. plan \<in> plans \<and> runs plan steps r \<and>
        es = steps @ [did out (case r of Inl _ \<Rightarrow> (''DELETE'', user_path i, []) | Inr _ \<Rightarrow> (''GET'', user_path i, []))])"

text \<open>\<open>lookups\<close>, then the request that creates, then a plan for what was created.\<close>

definition provisions ::
  "kc_request list \<Rightarrow> kc_request \<Rightarrow> (string \<Rightarrow> kc_request list set) \<Rightarrow> kc_event list \<Rightarrow> provider_error + 'a \<Rightarrow> bool" where
  "provisions lookups create plans es r \<longleftrightarrow>
     (\<exists>e. r = Inl e \<and> runs (lookups @ [create]) es (Inl e :: provider_error + unit)) \<or>
     (\<exists>i rest. es = map (did (Inr [])) lookups @ did (Inr i) create # rest \<and> finishes i (plans i) rest r)"

lemma finishes_mono: "plans \<subseteq> plans' \<Longrightarrow> finishes i plans es r \<Longrightarrow> finishes i plans' es r"
  unfolding finishes_def by blast

definition user_plans :: "create_user_request \<Rightarrow> string \<Rightarrow> kc_request list set" where
  "user_plans req i =
     {(''PUT'', user_path i @ ''/reset-password'', render (password_body (cur_TemporaryPassword req))) #
        role_plan ''POST'' i (cur_Roles req) briefs | briefs. length briefs = length (cur_Roles req)}"

definition invite_plans :: "create_invitation_request \<Rightarrow> string \<Rightarrow> kc_request list set" where
  "invite_plans req i =
     {(if cir_Roles req = [] then [] else [(''POST'', mapping_path i, render (role_briefs briefs))]) @
        [(''PUT'', user_path i @ ''/execute-actions-email'', render (JStrings requiredActionsForInvite))]
      | briefs. length briefs = length (cir_Roles req)}"

lemma calls_read_back:
  assumes "calls p m (runs [(''GET'', user_path i, [])])"
  shows "calls p (or_instead m d) (finishes i {[]})"
proof (rule calls_or_instead [OF assms])
  fix es and r :: "provider_error + 'a"
  assume r: "runs [(''GET'', user_path i, [])] es r"
  have "\<exists>out. es = [did out (''GET'', user_path i, [])]"
  proof (cases r)
    case (Inl e)
    with r [unfolded Inl] show ?thesis by (elim runs_InlE) (auto simp: Cons_eq_append_conv)
  qed (use r in auto)
  then show "case r of Inl e \<Rightarrow> \<forall>x. finishes i {[]} es (Inr x) | Inr x \<Rightarrow> finishes i {[]} es (Inr x)"
    by (cases r) (auto simp: finishes_def)
qed

lemma calls_step:
  assumes "calls p m (\<lambda>es r. \<exists>plan \<in> plans. runs plan es r)" and "calls p k (finishes i plans')" and "b0 \<in> plans'"
  shows "calls p (after (on_failure m (kc_send p ''DELETE'' (user_path i) None)) (\<lambda>_. k))
    (finishes i {a @ b | a b. a \<in> plans \<and> b \<in> plans'})"
proof (rule calls_after [where R = "\<lambda>_. finishes i plans'"])
  let ?D = "\<lambda>out. did out (''DELETE'', user_path i, [])"
  let ?Q = "\<lambda>es (r :: provider_error + 'a). case r of
    Inl e \<Rightarrow> \<exists>plan \<in> plans. \<exists>steps out. runs plan steps r \<and> es = steps @ [?D out]
  | Inr x \<Rightarrow> \<exists>plan \<in> plans. runs plan es r"
  show "calls p (on_failure m (kc_send p ''DELETE'' (user_path i) None)) ?Q"
    by (rule calls_on_failure [OF assms(1) calls_send]) (force simp: failed_as_def)+
  show "calls p k (finishes i plans')" by (rule assms(2))
next
  fix es e
  assume "case Inl e :: provider_error + 'a of
      Inl e' \<Rightarrow> \<exists>plan \<in> plans. \<exists>steps out. runs plan steps (Inl e :: provider_error + 'a) \<and> es = steps @ [did out (''DELETE'', user_path i, [])]
    | Inr x \<Rightarrow> \<exists>plan \<in> plans. runs plan es (Inl e :: provider_error + 'a)"
  then obtain plan steps out where s: "plan \<in> plans" "runs plan steps (Inl e :: provider_error + 'b)"
    "es = steps @ [did out (''DELETE'', user_path i, [])]" by (auto dest: runs_result)
  show "finishes i {a @ b |a b. a \<in> plans \<and> b \<in> plans'} es (Inl e :: provider_error + 'b)"
    unfolding finishes_def using s assms(3) runs_extend [OF s(2), of b0]
    by (intro exI [of _ "plan @ b0"] exI [of _ steps] exI [of _ out]) auto
next
  fix es x es' r
  assume "case Inr x :: provider_error + 'a of
      Inl e' \<Rightarrow> \<exists>plan \<in> plans. \<exists>steps out. runs plan steps (Inr x :: provider_error + 'a) \<and> es = steps @ [did out (''DELETE'', user_path i, [])]
    | Inr x' \<Rightarrow> \<exists>plan \<in> plans. runs plan es (Inr x :: provider_error + 'a)"
    and "finishes i plans' es' r"
  then obtain a b steps out where "a \<in> plans" "runs a es (Inr x)" "b \<in> plans'" "runs b steps r"
    "es' = steps @ [did out (case r of Inl _ \<Rightarrow> (''DELETE'', user_path i, []) | Inr _ \<Rightarrow> (''GET'', user_path i, []))]"
    unfolding finishes_def by auto
  moreover from this have "runs (a @ b) (es @ steps) r" by (blast intro: runs_append)
  ultimately show "finishes i {a @ b |a b. a \<in> plans \<and> b \<in> plans'} (es @ es') r"
    unfolding finishes_def by (intro exI [of _ "a @ b"] exI [of _ "es @ steps"] exI [of _ out]) auto
qed

lemma calls_CreateUser:
  "calls p (kp_CreateUser p req) (provisions [] (''POST'', ''/users'', render (new_user_body req)) (user_plans req))"
  unfolding kp_CreateUser_def kp_CreateUserWithPassword_def
proof (rule calls_after [OF calls_create, where R = "\<lambda>i. finishes i (user_plans req i)"])
  fix i
  let ?del = "kc_send p ''DELETE'' (user_path i) None"
  let ?read = "or_instead (kp_GetUser p i) (\<lambda>_. provisioned_user i req)"
  let ?pw = "[(''PUT'', user_path i @ ''/reset-password'', render (password_body (cur_TemporaryPassword req)))]"
  let ?roles = "{role_plan ''POST'' i (cur_Roles req) briefs | briefs. length briefs = length (cur_Roles req)}"
  have read: "calls p ?read (finishes i {[]})"
    unfolding kp_GetUser_def by (intro calls_read_back calls_after_return calls_get_runs)
  have some: "role_plan ''POST'' i (cur_Roles req) (replicate (length (cur_Roles req)) undefined) \<in> ?roles" by auto
  have "calls p (after (if cur_Roles req = [] then kc_return () else on_failure (kp_AssignRolesToUser p i (cur_Roles req)) ?del)
      (\<lambda>_. ?read)) (finishes i ?roles)"
  proof (cases "cur_Roles req = []")
    case True
    with read show ?thesis by (simp add: role_plan_def after_return)
  next
    case False
    have "calls p (kp_AssignRolesToUser p i (cur_Roles req)) (\<lambda>es r. \<exists>plan \<in> ?roles. runs plan es r)"
      by (rule calls_weaken [OF calls_Assign]) (auto simp: changes_roles_def)
    from calls_step [OF this read, of "[]"] False show ?thesis by (simp add: Collect_conj_eq)
  qed
  note rest = this
  have pw: "calls p (kc_send p ''PUT'' (user_path i @ ''/reset-password'') (Some (password_body (cur_TemporaryPassword req))))
      (\<lambda>es r. \<exists>plan \<in> {?pw}. runs plan es r)" by (simp add: calls_send_runs)
  have plans: "{a @ b | a b. a \<in> {?pw} \<and> b \<in> ?roles} = user_plans req i" by (auto simp: user_plans_def)
  show "calls p (after (on_failure (kc_send p ''PUT'' (user_path i @ ''/reset-password'')
        (Some (password_body (cur_TemporaryPassword req)))) ?del) (\<lambda>_.
      after (if cur_Roles req = [] then kc_return () else on_failure (kp_AssignRolesToUser p i (cur_Roles req)) ?del)
      (\<lambda>_. ?read))) (finishes i (user_plans req i))"
    using calls_step [OF pw rest some] unfolding plans .
qed (auto simp: provisions_def intro!: runs_one)

lemma calls_CreateInvitation:
  "calls p (kp_CreateInvitation p req)
     (provisions (map look_up (cir_Roles req)) (''POST'', ''/users'', render (invite_body req)) (invite_plans req))"
  unfolding kp_CreateInvitation_def
proof (rule calls_after [OF calls_resolve])
  fix briefs :: "kc_role_brief list"
  let ?Q = "\<lambda>es r. length briefs = length (cir_Roles req) \<longrightarrow>
    provisions [] (''POST'', ''/users'', render (invite_body req)) (invite_plans req) es r"
  show "calls p (after (kc_create p ''/users'' (invite_body req)) (\<lambda>i.
      after (on_failure (after (if briefs = [] then kc_return ()
          else kc_send p ''POST'' (user_path i @ ''/role-mappings/realm'') (Some (role_briefs briefs))) (\<lambda>_.
        kc_send p ''PUT'' (user_path i @ ''/execute-actions-email'') (Some (JStrings requiredActionsForInvite))))
        (compensateInvitationCreate p i)) (\<lambda>_.
      or_instead (kc_read_invitation p i) (\<lambda>_. synthesizeFreshInvitation i req)))) ?Q"
  proof (rule calls_after [OF calls_create, where R = "\<lambda>i es r. length briefs = length (cir_Roles req) \<longrightarrow> finishes i (invite_plans req i) es r"])
    fix i
    let ?plan = "(if briefs = [] then [] else [(''POST'', mapping_path i, render (role_briefs briefs))]) @
      [(''PUT'', user_path i @ ''/execute-actions-email'', render (JStrings requiredActionsForInvite))]"
    have read: "calls p (or_instead (kc_read_invitation p i) (\<lambda>_. synthesizeFreshInvitation i req)) (finishes i {[]})"
      unfolding kc_read_invitation_def by (rule calls_read_back, rule calls_get_then [OF calls_get_runs]) auto
    have plan: "calls p (after (if briefs = [] then kc_return ()
          else kc_send p ''POST'' (user_path i @ ''/role-mappings/realm'') (Some (role_briefs briefs))) (\<lambda>_.
        kc_send p ''PUT'' (user_path i @ ''/execute-actions-email'') (Some (JStrings requiredActionsForInvite))))
        (\<lambda>es r. \<exists>plan \<in> {?plan}. runs plan es r)"
      using calls_after_runs [OF calls_send_runs calls_send_runs] by (auto simp: after_return calls_send_runs mapping_path_def)
    have "length briefs = length (cir_Roles req) \<Longrightarrow> {a @ b | a b. a \<in> {?plan} \<and> b \<in> {[]}} \<subseteq> invite_plans req i"
      unfolding invite_plans_def by auto
    note sub = finishes_mono [OF this]
    show "calls p (after (on_failure (after (if briefs = [] then kc_return ()
          else kc_send p ''POST'' (user_path i @ ''/role-mappings/realm'') (Some (role_briefs briefs))) (\<lambda>_.
        kc_send p ''PUT'' (user_path i @ ''/execute-actions-email'') (Some (JStrings requiredActionsForInvite))))
        (compensateInvitationCreate p i)) (\<lambda>_.
      or_instead (kc_read_invitation p i) (\<lambda>_. synthesizeFreshInvitation i req)))
      (\<lambda>es r. length briefs = length (cir_Roles req) \<longrightarrow> finishes i (invite_plans req i) es r)"
      unfolding compensateInvitationCreate_def
      by (rule calls_weaken [OF calls_step [OF plan read, of "[]"]]) (simp, rule impI, rule sub, assumption, assumption)
  qed (auto simp: provisions_def intro!: runs_one)
next
  fix es e
  assume "runs (map look_up (cir_Roles req)) es (Inl e :: provider_error + kc_role_brief list) \<and>
    (case Inl e :: provider_error + kc_role_brief list of Inl _ \<Rightarrow> True | Inr rs \<Rightarrow> length rs = length (cir_Roles req))"
  then show "provisions (map look_up (cir_Roles req)) (''POST'', ''/users'', render (invite_body req)) (invite_plans req) es
      (Inl e :: provider_error + idp_invitation)"
    unfolding provisions_def by (blast dest: runs_result intro: runs_extend)
next
  fix es es' and briefs :: "kc_role_brief list" and r :: "provider_error + idp_invitation"
  let ?lookups = "map look_up (cir_Roles req)"
  let ?create = "(''POST'', ''/users'', render (invite_body req))"
  assume look: "runs ?lookups es (Inr briefs) \<and> (case Inr briefs of Inl _ \<Rightarrow> True | Inr rs \<Rightarrow> length rs = length (cir_Roles req))"
    and "length briefs = length (cir_Roles req) \<longrightarrow> provisions [] ?create (invite_plans req) es' r"
  then have "provisions [] ?create (invite_plans req) es' r" by simp
  then show "provisions ?lookups ?create (invite_plans req) (es @ es') r"
    unfolding provisions_def
  proof (elim disjE exE conjE)
    fix e assume "r = Inl e" and "runs ([] @ [?create]) es' (Inl e :: provider_error + unit)"
    with runs_append [OF conjunct1 [OF look], of "[?create]" es' "Inl e :: provider_error + unit"]
    show "(\<exists>e. r = Inl e \<and> runs (?lookups @ [?create]) (es @ es') (Inl e :: provider_error + unit)) \<or>
        (\<exists>i rest. es @ es' = map (did (Inr [])) ?lookups @ did (Inr i) ?create # rest \<and> finishes i (invite_plans req i) rest r)"
      by auto
  qed (use look in auto)
qed

section \<open>Reads\<close>

definition only_gets :: "kc_event list \<Rightarrow> 'r \<Rightarrow> bool" where
  "only_gets es r \<longleftrightarrow> list_all (\<lambda>e. ke_method e = ''GET'') es"

lemma gets_get: "calls p (kc_get p path params dec zero) only_gets"
  by (rule calls_weaken [OF calls_get]) (auto simp: only_gets_def)

lemma gets_return: "calls p (kc_return x) only_gets"
  by (rule calls_return) (simp add: only_gets_def)

lemma gets_after: "calls p m only_gets \<Longrightarrow> (\<And>x. calls p (f x) only_gets) \<Longrightarrow> calls p (after m f) only_gets"
  by (erule calls_after [where R = "\<lambda>_. only_gets"]) (assumption | simp add: only_gets_def)+

lemma gets_loop:
  assumes "\<And>first. calls p (fetch first) only_gets" shows "calls p (page_loop fetch emit page cap first) only_gets"
proof (induction "cap - first" arbitrary: first rule: less_induct)
  case less
  show ?case unfolding calls_def
  proof (intro allI impI)
    fix w r w' assume run: "page_loop fetch emit page cap first w = (r, w')"
    show "\<exists>es. kc_trace p w es w' \<and> only_gets es r"
    proof (cases "first < cap \<and> 0 < page")
      case False
      with run have "w' = w" by (auto simp: page_loop.simps [of fetch])
      then show ?thesis by (auto simp: only_gets_def intro: kc_idle)
    next
      case go: True
      obtain x w1 where f: "fetch first w = (x, w1)" by (cases "fetch first w")
      from callsD [OF assms f] obtain es where es: "kc_trace p w es w1" "only_gets es x" by blast
      show ?thesis
      proof (cases "\<exists>raw. x = Inr raw \<and> raw \<noteq> [] \<and> \<not> length raw < page")
        case False
        with run go f have "w' = w1" by (auto simp: page_loop.simps [of fetch] Let_def split: sum.splits if_splits)
        with es show ?thesis by (auto simp: only_gets_def)
      next
        case True
        obtain y w2 where rest: "page_loop fetch emit page cap (first + page) w1 = (y, w2)"
          by (cases "page_loop fetch emit page cap (first + page) w1")
        from True run go f rest have "w' = w2"
          by (auto simp: page_loop.simps [of fetch emit page cap first] Let_def split: sum.splits if_splits)
        moreover have "calls p (page_loop fetch emit page cap (first + page)) only_gets" using go by (intro less) arith
        from callsD [OF this, of w1, OF rest] obtain es' where "kc_trace p w1 es' w2" "only_gets es' y" by blast
        ultimately show ?thesis using es by (intro exI [of _ "es @ es'"]) (auto simp: only_gets_def intro: kc_trace_append)
      qed
    qed
  qed
qed

lemma gets_sessions: "calls p (session_loop p cs seen) only_gets"
proof (induction cs arbitrary: seen)
  case Nil
  show ?case by (auto simp: calls_def only_gets_def intro!: exI [of _ "[]"] kc_idle)
next
  case (Cons c cs)
  show ?case
  proof (cases "kb_Enabled c")
    case False
    with Cons.IH show ?thesis by (simp add: calls_def)
  next
    case True
    show ?thesis unfolding calls_def
    proof (intro allI impI)
      fix w r w' assume run: "session_loop p (c # cs) seen w = (r, w')"
      let ?get = "kc_get p (''/clients/'' @ PathEscape (kb_ID c) @ ''/user-sessions'') [] kd_sessions []"
      obtain x w1 where g: "?get w = (x, w1)" by (cases "?get w")
      from callsD [OF gets_get g] obtain es where es: "kc_trace p w es w1" "only_gets es x" by blast
      from run True g obtain seen' where "session_loop p cs seen' w1 = (r, w')" by (auto split: sum.splits)
      from callsD [OF Cons.IH this] obtain es' where "kc_trace p w1 es' w'" "only_gets es' r" by blast
      with es show "\<exists>es. kc_trace p w es w' \<and> only_gets es r"
        by (intro exI [of _ "es @ es'"]) (auto simp: only_gets_def intro: kc_trace_append)
    qed
  qed
qed

lemmas gets_intros = gets_after gets_get gets_return gets_loop gets_sessions

lemma gets_reads:
  "calls p (kp_ListUsers p q) only_gets" "calls p (kp_GetUser p i) only_gets" "calls p (kp_ListRoles p) only_gets"
  "calls p (kp_GetRole p n) only_gets" "calls p (kp_ListUsersByRole p n) only_gets"
  "calls p (kp_ListUserRoles p i) only_gets" "calls p (kp_ListUserSessions p i) only_gets"
  "calls p (kp_ListSessions p) only_gets" "calls p (kp_ListInvitations p) only_gets"
  unfolding kp_ListUsers_def kp_GetUser_def kp_ListRoles_def kp_GetRole_def kp_ListUsersByRole_def
    kp_ListUserRoles_def kp_ListUserSessions_def kp_ListSessions_def kp_ListInvitations_def
  by (intro gets_intros)+

section \<open>Properties\<close>

lemma calls_run: "calls p m Q \<Longrightarrow> \<exists>es. kc_trace p w es (snd (m w)) \<and> Q es (fst (m w))"
  unfolding calls_def by (metis prod.collapse)

text \<open>C12: creating a user and inviting one are all or nothing. The roles of an
  invitation are looked up before anything is created. Once the user exists, the
  password or the roles and the e-mail follow in order and the first failure ends
  the sequence with the deletion of exactly that user and the failure's error; on
  success nothing is deleted, and reading the user back cannot fail the call.\<close>

theorem provisioning_compensated:
  "(\<exists>es. kc_trace p w es (snd (kp_CreateUser p req w)) \<and>
     provisions [] (''POST'', ''/users'', render (new_user_body req)) (user_plans req) es (fst (kp_CreateUser p req w))) \<and>
   (\<exists>es. kc_trace p w es (snd (kp_CreateInvitation p invitee w)) \<and>
     provisions (map look_up (cir_Roles invitee)) (''POST'', ''/users'', render (invite_body invitee)) (invite_plans invitee) es
       (fst (kp_CreateInvitation p invitee w)))"
  by (intro conjI calls_run calls_CreateUser calls_CreateInvitation)

text \<open>Roles are granted or revoked in one request that names them all, sent only
  after every name was looked up; an empty list sends nothing.\<close>

theorem role_changes_planned:
  "(\<exists>es. kc_trace p w es (snd (kp_AssignRolesToUser p i roles w)) \<and>
     changes_roles ''POST'' i roles es (fst (kp_AssignRolesToUser p i roles w))) \<and>
   (\<exists>es. kc_trace p w es (snd (kp_UnassignRolesFromUser p i roles w)) \<and>
     changes_roles ''DELETE'' i roles es (fst (kp_UnassignRolesFromUser p i roles w)))"
  by (intro conjI calls_run calls_Assign calls_Unassign)

text \<open>The requests of a read: the token's, and \<^verbatim>\<open>GET\<close>s.\<close>

definition read_traffic :: "kc_provider \<Rightarrow> 'a call \<Rightarrow> client_world \<Rightarrow> bool" where
  "read_traffic p m w \<longleftrightarrow> (\<exists>rqs. cw_sent (snd (m w)) = cw_sent w @ rqs \<and>
     list_all (\<lambda>rq. rq = mint_request (kp_client p) \<or> hr_method rq = ''GET'') rqs)"

lemma traffic_methods:
  "traffic c meth path body rqs \<Longrightarrow> rq \<in> set rqs \<Longrightarrow> rq = mint_request c \<or> hr_method rq = meth"
  unfolding traffic_def admin_request_def by (elim exE conjE) auto

lemma traffic_of_methods:
  "traffic_of c es rqs \<Longrightarrow> list_all (\<lambda>e. ke_method e = meth) es \<Longrightarrow>
   list_all (\<lambda>rq. rq = mint_request c \<or> hr_method rq = meth) rqs"
proof (induction es arbitrary: rqs)
  case (Cons e es)
  from Cons.prems(1) obtain r1 r2 where r: "rqs = r1 @ r2" "traffic c (ke_method e) (ke_path e) (ke_body e) r1"
    "traffic_of c es r2" by auto
  with Cons.prems(2) Cons.IH [OF r(3)] show ?case
    by (auto simp: list_all_iff dest: traffic_methods)
qed simp

lemma read_only_traffic: "calls p m only_gets \<Longrightarrow> read_traffic p m w"
  unfolding read_traffic_def using calls_run [of p m only_gets w]
  by (auto simp: only_gets_def dest!: kc_trace_sent intro: traffic_of_methods)

text \<open>The reads of the provider the service is wired to send nothing but \<^verbatim>\<open>GET\<close>s
  and the requests for the client's own token, whatever Keycloak answers.\<close>

theorem reads_send_only_gets:
  "read_traffic p (ip_ListUsers (keycloak_provider p) q) w \<and> read_traffic p (ip_GetUser (keycloak_provider p) i) w \<and>
   read_traffic p (ip_ListRoles (keycloak_provider p)) w \<and> read_traffic p (ip_GetRole (keycloak_provider p) n) w \<and>
   read_traffic p (ip_ListUsersByRole (keycloak_provider p) n) w \<and>
   read_traffic p (ip_ListUserRoles (keycloak_provider p) i) w \<and>
   read_traffic p (ip_ListUserSessions (keycloak_provider p) i) w \<and>
   read_traffic p (ip_ListSessions (keycloak_provider p)) w \<and>
   read_traffic p (ip_ListInvitations (keycloak_provider p)) w"
  by (simp add: keycloak_provider_def read_only_traffic gets_reads)

end
