(* ===== verification/KeycloakPages.thy ===== *)
theory KeycloakPages
  imports KeycloakFlows "HOL-Library.Multiset"
begin

text \<open>
  The listings of the provider: the loop over pages ends within its cap whatever is
  answered and returns every entry when each request is answered by the page its query
  asks for; the
  last-admin guard of the service on top of it; the sessions merged over clients.
\<close>

section \<open>The loop ends\<close>






section \<open>Pages of members\<close>

text \<open>What Keycloak's listings promise: a page is the part of the whole that the request
  asks for, \<open>first\<close> entries in and at most \<open>max\<close> of them, with its defaults of 0 and 100
  for what the query does not say.\<close>

definition query_param :: "string \<Rightarrow> string \<Rightarrow> string option" where
  "query_param k url =
     (case cut_at CHR ''?'' url of
        None \<Rightarrow> None
      | Some (_, q) \<Rightarrow>
          map_of (map (\<lambda>kv. case cut_at CHR ''='' kv of None \<Rightarrow> (kv, []) | Some ab \<Rightarrow> ab) (split_at CHR ''&'' q)) k)"

definition asked_for :: "string \<Rightarrow> nat \<Rightarrow> string \<Rightarrow> nat" where
  "asked_for k dflt url = (case query_param k url of None \<Rightarrow> dflt | Some v \<Rightarrow> decimal_value v)"

definition asked_path :: "string \<Rightarrow> string" where
  "asked_path url = (case cut_at CHR ''?'' url of None \<Rightarrow> url | Some (path, _) \<Rightarrow> path)"

definition page_asked :: "(string \<Rightarrow> kc_user list) \<Rightarrow> string \<Rightarrow> kc_user list" where
  "page_asked ms url = take (asked_for ''max'' 100 url) (drop (asked_for ''first'' 0 url) (ms (asked_path url)))"

text \<open>\<open>rs\<close> is a right answer to \<open>rq\<close> of a server whose listing at \<open>url\<close> is \<open>ms url\<close>: the
  page that was asked for, or a token.\<close>

definition right_answer :: "kc_provider \<Rightarrow> (string \<Rightarrow> kc_user list) \<Rightarrow> request \<Rightarrow> response \<Rightarrow> bool" where
  "right_answer p ms rq rs \<longleftrightarrow> rs_status rs = 200 \<and>
     (if hr_method rq = ''GET'' then kd_users (kp_codec p) (rs_body rs) = Some (page_asked ms (hr_url rq))
      else \<exists>token n. ev_token (kp_env p) (rs_body rs) = Some (token, n) \<and> token \<noteq> [])"

text \<open>Every request sent between \<open>w\<close> and \<open>w'\<close> was answered, and rightly.\<close>

definition served :: "kc_provider \<Rightarrow> (string \<Rightarrow> kc_user list) \<Rightarrow> client_world \<Rightarrow> client_world \<Rightarrow> bool" where
  "served p ms w w' \<longleftrightarrow> (\<exists>rqs as. cw_sent w' = cw_sent w @ rqs \<and>
     take (length rqs) (cw_answers w) = map Inr as \<and> list_all2 (right_answer p ms) rqs as)"

definition consumes :: "client_world \<Rightarrow> client_world \<Rightarrow> bool" where
  "consumes w w' \<longleftrightarrow> (\<exists>rqs. cw_sent w' = cw_sent w @ rqs \<and> cw_answers w' = drop (length rqs) (cw_answers w))"

named_theorems consuming \<open>steps of the client that use up one answer per request\<close>

lemma consumes_refl: "consumes w w"
  by (simp add: consumes_def)

lemma consumes_trans: "consumes w w1 \<Longrightarrow> consumes w1 w2 \<Longrightarrow> consumes w w2"
  unfolding consumes_def by (auto simp: add.commute)

lemma consumes_same: "consumes w w1 \<Longrightarrow> cw_sent w2 = cw_sent w1 \<Longrightarrow> cw_answers w2 = cw_answers w1 \<Longrightarrow> consumes w w2"
  by (simp add: consumes_def)

lemma http_Do_consumes [consuming]: "http_Do rq w = (r, w') \<Longrightarrow> consumes w w'"
  by (auto simp: http_Do_def consumes_def Let_def split: list.splits sum.splits)

lemma mint_consumes [consuming]: "mint_token ev c w = (r, w') \<Longrightarrow> consumes w w'"
  by (auto simp: mint_token_def consumes_refl split: option.splits prod.splits sum.splits if_splits
      dest!: http_Do_consumes elim: consumes_same)

lemma acquire_consumes [consuming]: "acquireToken ev c w = (r, w') \<Longrightarrow> consumes w w'"
  by (auto simp: acquireToken_def consumes_refl split: option.splits if_splits dest: mint_consumes)

lemma forget_consumes: "consumes (w\<lparr> cw_token := t \<rparr>) w' \<longleftrightarrow> consumes w w'"
  by (simp add: consumes_def)

lemma attempt_consumes:
  assumes "send_once ev c meth path body allow w = (r, w')"
  shows "consumes w w' \<or>
    (\<exists>w2. allow \<and> consumes w w2 \<and> send_once ev c meth path body False (w2\<lparr> cw_token := None \<rparr>) = (r, w'))"
proof -
  obtain x w1 where a: "acquireToken ev c w = (x, w1)" by (cases "acquireToken ev c w")
  note c1 = acquire_consumes [OF a]
  show ?thesis
  proof (cases x)
    case (Inl e)
    with assms a c1 show ?thesis by (simp add: send_once.simps [of ev c meth path body allow])
  next
    case token: (Inr token)
    obtain y w2 where d: "http_Do (admin_request c meth path token body) w1 = (y, w2)"
      by (cases "http_Do (admin_request c meth path token body) w1")
    have "consumes w w2" by (rule consumes_trans [OF c1 http_Do_consumes [OF d]])
    with assms a token d c1 show ?thesis
      by (auto simp: send_once.simps [of ev c meth path body allow] Let_def split: option.splits sum.splits if_splits)
  qed
qed

lemma send_consumes [consuming]: "send_once ev c meth path body allow w = (r, w') \<Longrightarrow> consumes w w'"
proof -
  have once: "consumes w w'" if "send_once ev c meth path body False w = (r, w')" for w
    using attempt_consumes [OF that] by simp
  assume "send_once ev c meth path body allow w = (r, w')"
  from attempt_consumes [OF this] once show ?thesis by (metis consumes_trans forget_consumes)
qed

lemma get_consumes [consuming]: "kc_get p path params dec zero w = (r, w') \<Longrightarrow> consumes w w'"
  by (auto simp: kc_get_def doJSON_def split: prod.splits sum.splits option.splits if_splits dest!: send_consumes)

lemma served_split:
  assumes "served p ms w w'" and "consumes w w1" and "consumes w1 w'"
  shows "served p ms w w1" and "served p ms w1 w'"
proof -
  from assms(1) obtain rqs as where s: "cw_sent w' = cw_sent w @ rqs" "take (length rqs) (cw_answers w) = map Inr as"
    "list_all2 (right_answer p ms) rqs as" unfolding served_def by blast
  from assms(2,3) obtain r1 r2 where r: "cw_sent w1 = cw_sent w @ r1" "cw_answers w1 = drop (length r1) (cw_answers w)"
    "cw_sent w' = cw_sent w1 @ r2" unfolding consumes_def by blast
  from s(1) r have rqs: "rqs = r1 @ r2" by simp
  with s(3) obtain a1 a2 where as: "as = a1 @ a2" "list_all2 (right_answer p ms) r1 a1" "list_all2 (right_answer p ms) r2 a2"
    by (auto simp: list_all2_append1)
  then have len: "length a1 = length r1" "length a2 = length r2" by (simp_all add: list_all2_lengthD)
  let ?A = "cw_answers w"
  from s(2) rqs as(1) have A: "take (length r1 + length r2) ?A = map Inr a1 @ map Inr a2" by simp
  from arg_cong [OF A, of "take (length r1)"] arg_cong [OF A, of "drop (length r1)"] len
  have "take (length r1) ?A = map Inr a1" "take (length r2) (drop (length r1) ?A) = map Inr a2"
    by (simp_all add: take_drop add.commute)
  with r as show "served p ms w w1" "served p ms w1 w'" unfolding served_def by auto
qed

text \<open>When the answers are right the steps return what was answered.\<close>

lemma served_same: "cw_sent w2 = cw_sent w1 \<Longrightarrow> served p ms w w2 = served p ms w w1"
  by (simp add: served_def)

lemma http_Do_right:
  assumes "http_Do rq w = (y, w1)" and "served p ms w w1"
  obtains rs where "y = Inr rs" and "right_answer p ms rq rs"
proof -
  from assms(1) http_Do_sends [OF assms(1)] assms(2) obtain a where
    "take 1 (cw_answers w) = [Inr a]" "right_answer p ms rq a"
    by (auto simp: served_def sends_def list_all2_Cons1)
  moreover from this(1) obtain rest where "cw_answers w = Inr a # rest" by (cases "cw_answers w") auto
  ultimately show thesis using assms(1) that [of a] by (auto simp: http_Do_def Let_def)
qed

lemma acquire_right:
  assumes "\<And>rq. ev_build (kp_env p) rq = None" and a: "acquireToken (kp_env p) c w = (x, w1)" and "served p ms w w1"
  obtains token where "x = Inr token"
proof (cases "\<exists>t. x = Inr t")
  case False
  obtain y w2 where d: "http_Do (mint_request c) w = (y, w2)" by (cases "http_Do (mint_request c) w")
  from False a d assms(1) have m: "mint_token (kp_env p) c w = (x, w1)" "cw_sent w1 = cw_sent w2"
    by (auto simp: acquireToken_def mint_token_def split: option.splits sum.splits if_splits)
  with assms(3) have "served p ms w w2" using served_same by metis
  from http_Do_right [OF d this] obtain rs where "y = Inr rs" "right_answer p ms (mint_request c) rs" by blast
  with m(1) d assms(1) have "\<exists>t. x = Inr t"
    by (auto simp: mint_token_def right_answer_def mint_request_def)
  with False show thesis by blast
qed (use that in blast)

lemma get_right:
  assumes build: "\<And>rq. ev_build (kp_env p) rq = None"
    and run: "kc_get p path params kd_users [] w = (x, w')" and ok: "served p ms w w'"
  shows "x = Inr (page_asked ms (kc_adminBase (kp_client p) @ with_params path params))"
proof -
  let ?url = "with_params path params"
  obtain y w1 where s: "send_once (kp_env p) (kp_client p) ''GET'' ?url [] True w = (y, w1)"
    by (cases "send_once (kp_env p) (kp_client p) ''GET'' ?url [] True w")
  with run have w1: "w1 = w'"
    by (auto simp: kc_get_def doJSON_def with_params_def split: sum.splits option.splits if_splits)
  obtain t w2 where a: "acquireToken (kp_env p) (kp_client p) w = (t, w2)" by (cases "acquireToken (kp_env p) (kp_client p) w")
  have c2: "consumes w2 w'"
  proof (cases t)
    case (Inl e)
    with s a w1 show ?thesis by (simp add: send_once.simps [of _ _ _ _ _ True] consumes_refl)
  next
    case (Inr token)
    let ?rq = "admin_request (kp_client p) ''GET'' ?url token []"
    obtain z w3 where d: "http_Do ?rq w2 = (z, w3)" by (cases "http_Do ?rq w2")
    have "consumes w3 w'"
      using s a d Inr w1 build
      by (auto simp: send_once.simps [of _ _ _ _ _ True] Let_def consumes_refl forget_consumes
          split: sum.splits if_splits dest!: send_consumes)
    with http_Do_consumes [OF d] show ?thesis by (rule consumes_trans)
  qed
  note parts = served_split [OF ok acquire_consumes [OF a] c2]
  obtain token where token: "t = Inr token" by (rule acquire_right [OF build a parts(1)])
  let ?rq = "admin_request (kp_client p) ''GET'' ?url token []"
  obtain z w3 where d: "http_Do ?rq w2 = (z, w3)" by (cases "http_Do ?rq w2")
  have c3: "consumes w3 w'"
    using s a d token w1 build
    by (auto simp: send_once.simps [of _ _ _ _ _ True] Let_def consumes_refl forget_consumes
        split: sum.splits if_splits dest!: send_consumes)
  from http_Do_right [OF d served_split(1) [OF parts(2) http_Do_consumes [OF d] c3]]
  obtain rs where z: "z = Inr rs" "right_answer p ms ?rq rs" by blast
  with s a d token build have "y = Inr rs"
    by (auto simp: send_once.simps [of _ _ _ _ _ True] Let_def right_answer_def)
  with run s z(2) show ?thesis
    by (auto simp: kc_get_def doJSON_def with_params_def admin_status_error_def right_answer_def admin_request_def)
qed

text \<open>The URL of a page says which page.\<close>

lemma digits_plain: "list_all is_digit s \<Longrightarrow> QueryEscape s = s \<and> CHR ''='' \<notin> set s \<and> CHR ''&'' \<notin> set s \<and> CHR ''?'' \<notin> set s"
proof (induction s)
  case (Cons c s)
  have "is_digit c \<Longrightarrow> url_plain c" by (simp add: url_plain_def)
  moreover have "\<not> is_digit CHR ''=''" "\<not> is_digit CHR ''&''" "\<not> is_digit CHR ''?''" by code_simp+
  ultimately show ?case using Cons by (auto simp: QueryEscape_def)
qed (simp add: QueryEscape_def)

lemma page_url:
  assumes "CHR ''?'' \<notin> set base"
  shows "page_asked ms (base @ with_params (role_path role @ ''/users'') (page_params first n)) =
    take n (drop first (ms (base @ role_path role @ ''/users'')))"
proof -
  have words: "QueryEscape ''first'' = ''first''" "QueryEscape ''max'' = ''max''" by code_simp+
  have params: "page_params first n = ''first='' @ Itoa first @ CHR ''&'' # ''max='' @ Itoa n"
    using digits_plain [OF Itoa_digits] by (simp add: page_params_def words)
  have path: "CHR ''?'' \<notin> set (base @ role_path role @ ''/users'')"
    using assms PathEscape_segment [of role] by (simp add: role_path_def)
  have url: "cut_at CHR ''?'' (base @ with_params (role_path role @ ''/users'') (page_params first n)) =
      Some (base @ role_path role @ ''/users'', page_params first n)"
    using cut_append [OF path, of "page_params first n"] by (simp add: with_params_def params)
  have "split_at CHR ''&'' (page_params first n) = [''first='' @ Itoa first, ''max='' @ Itoa n]"
    using split_at_append [of "CHR ''&''" "''first='' @ Itoa first" "''max='' @ Itoa n"]
      split_at_absent [of "CHR ''&''" "''max='' @ Itoa n"] digits_plain [OF Itoa_digits]
    by (simp add: params)
  moreover have "cut_at CHR ''='' (''first='' @ Itoa first) = Some (''first'', Itoa first)"
    "cut_at CHR ''='' (''max='' @ Itoa n) = Some (''max'', Itoa n)" by simp_all
  ultimately show ?thesis
    by (simp add: page_asked_def asked_for_def query_param_def asked_path_def url)
qed

text \<open>The loop, whatever it fetches, returns the whole up to the cap.\<close>

lemma loop_enumerates:
  assumes fetch: "\<And>first w x w1. fetch first w = (x, w1) \<Longrightarrow>
      consumes w w1 \<and> (served p ms w w1 \<longrightarrow> x = Inr (take page (drop first xs)))"
    and page: "0 < page"
  shows "page_loop fetch (\<lambda>_. f) page cap first w = (r, w') \<Longrightarrow> cap = first + k * page \<Longrightarrow>
    consumes w w' \<and> (served p ms w w' \<longrightarrow> r = Inr (concat (map f (take (k * page) (drop first xs)))))"
proof (induction k arbitrary: first w r w')
  case 0
  then show ?case by (simp add: page_loop.simps [of fetch] consumes_refl)
next
  case (Suc k)
  define d where "d = drop first xs"
  have lt: "first < cap" using Suc.prems(2) page by simp
  obtain x w1 where g: "fetch first w = (x, w1)" by (cases "fetch first w")
  note step = fetch [OF g]
  show ?case
  proof (cases "\<exists>raw. x = Inr raw \<and> raw \<noteq> [] \<and> \<not> length raw < page")
    case False
    with Suc.prems(1) g lt page have w1: "w' = w1"
      by (auto simp: page_loop.simps [of fetch _ page cap first] Let_def split: sum.splits if_splits)
    have "r = Inr (concat (map f (take (Suc k * page) d)))" if "served p ms w w'"
    proof -
      have x: "x = Inr (take page d)" using step that w1 by (simp add: d_def)
      with False page have "length d < page" by (auto simp: not_less)
      then have "take page d = d" "take (Suc k * page) d = d" by simp_all
      with x Suc.prems(1) g lt page \<open>length d < page\<close> show ?thesis
        by (auto simp: page_loop.simps [of fetch _ page cap first] Let_def split: if_splits)
    qed
    with step w1 show ?thesis by (simp add: d_def)
  next
    case True
    then obtain raw where raw: "x = Inr raw" "raw \<noteq> []" "\<not> length raw < page" by blast
    obtain y w2 where rest: "page_loop fetch (\<lambda>_. f) page cap (first + page) w1 = (y, w2)"
      by (cases "page_loop fetch (\<lambda>_. f) page cap (first + page) w1")
    have run: "w' = w2" "r = (case y of Inl e \<Rightarrow> Inl e | Inr out \<Rightarrow> Inr (concat (map f raw) @ out))"
      using Suc.prems(1) g lt page raw rest
      by (auto simp: page_loop.simps [of fetch _ page cap first] Let_def split: sum.splits)
    have later: "consumes w1 w2 \<and> (served p ms w1 w2 \<longrightarrow> y = Inr (concat (map f (take (k * page) (drop (first + page) xs)))))"
      using Suc.IH [OF rest] Suc.prems(2) by simp
    have "r = Inr (concat (map f (take (Suc k * page) d)))" if "served p ms w w'"
    proof -
      have parts: "served p ms w w1" "served p ms w1 w2"
        using served_split [of p ms w w' w1] that step later run(1) by auto
      with step raw(1) later have "raw = take page d" "y = Inr (concat (map f (take (k * page) (drop page d))))"
        by (simp_all add: d_def add.commute)
      with run(2) show ?thesis by (simp add: take_add)
    qed
    with step later run(1) show ?thesis by (auto simp: d_def intro: consumes_trans)
  qed
qed

definition role_url :: "kc_provider \<Rightarrow> string \<Rightarrow> string" where
  "role_url p role = kc_adminBase (kp_client p) @ role_path role @ ''/users''"

text \<open>The URLs parse, and the base of the API has no query of its own.\<close>

definition plain_urls :: "kc_provider \<Rightarrow> bool" where
  "plain_urls p \<longleftrightarrow> (\<forall>rq. ev_build (kp_env p) rq = None) \<and> CHR ''?'' \<notin> set (kc_adminBase (kp_client p))"

lemma members_listed:
  assumes "plain_urls p" and "served p ms w (snd (kp_ListUsersByRole p role w))"
  shows "fst (kp_ListUsersByRole p role w) = Inr (map ku_toIdentity (take usersByRoleHardCap (ms (role_url p role))))"
proof -
  let ?xs = "ms (role_url p role)" and ?n = usersByRolePageSize
  obtain r w' where run: "kp_ListUsersByRole p role w = (r, w')" by fastforce
  have "r = Inr (concat (map (\<lambda>u. [ku_toIdentity u]) (take (50 * ?n) (drop 0 ?xs))))"
  proof (rule loop_enumerates [where p = p and ms = ms, THEN conjunct2, THEN mp])
    show "page_loop (\<lambda>first. kc_get p (role_path role @ ''/users'') (page_params first ?n) kd_users [])
        (\<lambda>_ u. [ku_toIdentity u]) ?n usersByRoleHardCap 0 w = (r, w')" using run by (simp add: kp_ListUsersByRole_def)
    fix first w x w1
    assume g: "kc_get p (role_path role @ ''/users'') (page_params first ?n) kd_users [] w = (x, w1)"
    have "x = Inr (take ?n (drop first ?xs))" if "served p ms w w1"
    proof -
      from assms(1) have build: "ev_build (kp_env p) rq = None" for rq by (simp add: plain_urls_def)
      show ?thesis using get_right [OF build g that] page_url [of "kc_adminBase (kp_client p)" ms role first ?n] assms(1)
        by (simp add: plain_urls_def role_url_def)
    qed
    with get_consumes [OF g] show "consumes w w1 \<and> (served p ms w w1 \<longrightarrow> x = Inr (take ?n (drop first ?xs)))" by blast
  qed (use assms(2) run in \<open>simp_all add: usersByRoleHardCap_def usersByRolePageSize_def\<close>)
  with run show ?thesis by (simp add: usersByRoleHardCap_def usersByRolePageSize_def)
qed

lemma guard_over_keycloak:
  assumes "plain_urls p" and "served p ms w (snd (kp_ListUsersByRole p adminRoleName w))"
  shows "fst (assertNotLastAdmin (keycloak_provider p) target w) =
    (let enabled = filter ku_Enabled (take usersByRoleHardCap (ms (role_url p adminRoleName))) in
     if target \<in> set (map ku_ID enabled) \<and> length enabled \<le> 1
     then Inl (IdForbidden ''cannot remove the last enabled admin from the realm'') else Inr ())"
proof -
  let ?xs = "ms (role_url p adminRoleName)"
  obtain w1 where "kp_ListUsersByRole p adminRoleName w = (Inr (map ku_toIdentity (take usersByRoleHardCap ?xs)), w1)"
    using members_listed [OF assms]
    by (cases "kp_ListUsersByRole p adminRoleName w") simp
  moreover have "filter us_Enabled (map ku_toIdentity ys) = map ku_toIdentity (filter ku_Enabled ys)" for ys :: "kc_user list"
    by (induction ys) (auto simp: ku_toIdentity_def)
  ultimately show ?thesis
    by (auto simp: assertNotLastAdmin_def keycloak_provider_def Let_def list_ex_iff ku_toIdentity_def)
qed

text \<open>C13: against a Keycloak that answers every page request with the page it asks for, a
  role's members are listed completely and in order up to the cap, and the service's
  last-admin guard over this provider refuses exactly when the target is the one enabled
  member: no admin on a later page is missed.\<close>

theorem role_members_enumerated:
  assumes "plain_urls p" and "served p ms w (snd (kp_ListUsersByRole p role w))"
    and "length (ms (role_url p role)) \<le> usersByRoleHardCap"
  shows "fst (kp_ListUsersByRole p role w) = Inr (map ku_toIdentity (ms (role_url p role))) \<and>
    (role = adminRoleName \<and> distinct (map ku_ID (ms (role_url p role))) \<longrightarrow>
      (fst (assertNotLastAdmin (keycloak_provider p) target w) = Inr () \<longleftrightarrow>
        map ku_ID (filter ku_Enabled (ms (role_url p role))) \<noteq> [target]))"
proof -
  have one: "target \<in> set ids \<and> length ids \<le> 1 \<longleftrightarrow> ids = [target]" for ids :: "string list"
    by (cases ids) auto
  have "fst (assertNotLastAdmin (keycloak_provider p) target w) = Inr () \<longleftrightarrow>
      map ku_ID (filter ku_Enabled (ms (role_url p role))) \<noteq> [target]" if "role = adminRoleName"
    using guard_over_keycloak [OF assms(1,2) [unfolded that], of target] assms(3) that
      one [of "map ku_ID (filter ku_Enabled (ms (role_url p role)))"] by (auto simp: Let_def)
  with members_listed [OF assms(1,2)] assms(3) show ?thesis by simp
qed

text \<open>Beyond the cap the guard sees nothing: when the first ten thousand members of the
  admin role are disabled, the one enabled admin after them may be removed.\<close>

lemma last_admin_beyond_cap:
  assumes "plain_urls p" and "served p ms w (snd (kp_ListUsersByRole p adminRoleName w))"
    and "filter ku_Enabled (take usersByRoleHardCap (ms (role_url p adminRoleName))) = []"
  shows "fst (assertNotLastAdmin (keycloak_provider p) target w) = Inr ()"
  using guard_over_keycloak [OF assms(1,2)] assms(3) by (simp add: Let_def)

definition demo_member :: "string \<Rightarrow> bool \<Rightarrow> kc_user" where
  "demo_member i enabled = zero_user\<lparr> ku_ID := i, ku_Enabled := enabled \<rparr>"

definition demo_members :: "kc_user list" where
  "demo_members = [demo_member ''u1'' False, demo_member ''u2'' True]"

definition demo_codec :: kc_codec where
  "demo_codec = \<lparr> kd_user = (\<lambda>_. None), kd_users = (\<lambda>_. Some demo_members), kd_invitee = (\<lambda>_. None),
     kd_invitees = (\<lambda>_. None), kd_role = (\<lambda>_. None), kd_roles = (\<lambda>_. None), kd_sessions = (\<lambda>_. None),
     kd_clients = (\<lambda>_. None), kd_smtp = (\<lambda>_. None), kd_languages = (\<lambda>_. None), kd_messages = (\<lambda>_. None) \<rparr>"

definition demo_kc :: kc_provider where
  "demo_kc = \<lparr> kp_env = demo_client_env, kp_client = demo_client, kp_codec = demo_codec, kp_iteration = (\<lambda>ss. ss) \<rparr>"

definition demo_members_world :: client_world where
  "demo_members_world = \<lparr> cw_token = Some \<lparr> ct_value = ''t'', ct_expiresAt = 10 ^ 12 \<rparr>, cw_now = 0,
     cw_answers = [demo_answer 200 ''members''], cw_sent = [] \<rparr>"

text \<open>The role of two members, served in one short page.\<close>

definition demo_listing :: "string \<Rightarrow> kc_user list" where "demo_listing url = demo_members"

lemma demo_plain_urls: "plain_urls demo_kc"
proof -
  have "CHR ''?'' \<notin> set (kc_adminBase demo_client)" by code_simp
  then show ?thesis by (simp add: plain_urls_def demo_kc_def demo_client_env_def)
qed

lemma demo_served: "served demo_kc demo_listing demo_members_world
    (snd (kp_ListUsersByRole demo_kc adminRoleName demo_members_world))"
proof -
  let ?rq = "admin_request demo_client ''GET'' (with_params (role_path adminRoleName @ ''/users'') (page_params 0 usersByRolePageSize)) ''t'' []"
  have sent: "cw_sent (snd (kp_ListUsersByRole demo_kc adminRoleName demo_members_world)) = [?rq]"
    by code_simp
  have "page_asked demo_listing (hr_url ?rq) = demo_members" by code_simp
  then have "right_answer demo_kc demo_listing ?rq \<lparr> rs_status = 200, rs_body = ''members'', rs_location = [], rs_at = 1 \<rparr>"
    by (simp add: right_answer_def admin_request_def demo_kc_def demo_codec_def)
  with sent show ?thesis
    unfolding served_def
    by (intro exI [of _ "[?rq]"] exI [of _ "[\<lparr> rs_status = 200, rs_body = ''members'', rs_location = [], rs_at = 1 \<rparr>]"])
      (simp add: demo_members_world_def demo_answer_def)
qed

theorem role_members_enumerated_witness:
  "fst (assertNotLastAdmin (keycloak_provider demo_kc) ''u2'' demo_members_world) \<noteq> Inr () \<and>
   fst (assertNotLastAdmin (keycloak_provider demo_kc) ''u1'' demo_members_world) = Inr ()"
proof -
  let ?xs = "demo_listing (role_url demo_kc adminRoleName)"
  have xs: "length ?xs \<le> usersByRoleHardCap" "distinct (map ku_ID ?xs)" "map ku_ID (filter ku_Enabled ?xs) = [''u2'']"
    by (simp_all add: demo_listing_def demo_members_def demo_member_def usersByRoleHardCap_def zero_user_def)
  note t = role_members_enumerated [OF demo_plain_urls demo_served xs(1)]
  show ?thesis using t [of "''u1''"] t [of "''u2''"] xs by simp
qed

section \<open>Sessions\<close>

text \<open>The map of sessions: keyed by the session's own id.\<close>

definition seen_ok :: "(string \<times> idp_session) list \<Rightarrow> bool" where
  "seen_ok seen \<longleftrightarrow> distinct (map fst seen) \<and> list_all (\<lambda>(k, s). sn_ID s = k) seen"

lemma see_session_ok:
  assumes "seen_ok seen" shows "seen_ok (see_session c s seen)"
proof -
  define s1 where "s1 = (case map_of seen (ks_ID s) of None \<Rightarrow> ks_toIdentity s | Some existing \<Rightarrow> existing)"
  have "sn_ID s1 = ks_ID s"
    using assms by (auto simp: s1_def seen_ok_def ks_toIdentity_def list_all_iff split: option.splits dest!: map_of_SomeD)
  moreover have "list_all (\<lambda>(k, s). sn_ID s = k) al \<Longrightarrow> sn_ID v = k \<Longrightarrow> list_all (\<lambda>(k, s). sn_ID s = k) (AList.update k v al)"
    for k v and al :: "(string \<times> idp_session) list" by (induction al) auto
  ultimately show ?thesis using assms
    by (auto simp: seen_ok_def see_session_def Let_def distinct_update simp flip: s1_def)
qed

lemma session_loop_ok: "seen_ok seen \<Longrightarrow> session_loop p cs seen w = (Inr seen', w') \<Longrightarrow> seen_ok seen'"
proof (induction cs arbitrary: seen w)
  case (Cons c cs)
  have "seen_ok (fold (see_session c) ss seen)" for ss
    using Cons.prems(1) by (induction ss arbitrary: seen) (auto intro: see_session_ok)
  with Cons show ?case by (auto split: if_splits sum.splits prod.splits)
qed simp

text \<open>A session that several clients report is listed once.\<close>

lemma sessions_listed_once:
  assumes "kp_ListSessions p w = (Inr ss, w')" and "\<And>xs. mset (kp_iteration p xs) = mset xs"
  shows "distinct (map sn_ID ss)"
proof -
  from assms(1) obtain seen clients w1 w2 where seen: "session_loop p clients [] w1 = (Inr seen, w2)"
    and ss: "ss = kp_iteration p (map snd seen)"
    by (auto simp: kp_ListSessions_def after_def kc_return_def split: prod.splits sum.splits)
  from session_loop_ok [OF _ seen] have ok: "seen_ok seen" by (simp add: seen_ok_def)
  then have "map sn_ID (map snd seen) = map fst seen" by (auto simp: seen_ok_def list_all_iff)
  with ok have "distinct (map sn_ID (map snd seen))" by (simp only: seen_ok_def)
  moreover have "mset (map sn_ID ss) = mset (map sn_ID (map snd seen))" using ss assms(2) by (simp add: multiset.map_comp)
  ultimately show ?thesis by (metis distinct_count_atmost_1 set_mset_mset)
qed

section \<open>Bodies\<close>

text \<open>The password set is the password given, byte for byte, whatever it contains.\<close>

lemma password_transmitted:
  assumes "valid_utf8 pw"
  shows "\<exists>before. render (password_body pw) = before @ escape_string pw @ [quote, CHR ''}''] \<and>
    read_string (escape_string pw @ [quote, CHR ''}'']) = Some (pw, [CHR ''}''])"
proof -
  have "sort_key fst [(''type'', JString ''password''), (''value'', JString pw), (''temporary'', JBool True)] =
      [(''temporary'', JBool True), (''type'', JString ''password''), (''value'', JString pw)]" by code_simp
  then show ?thesis using read_escaped [OF assms, of "[CHR ''}'']"]
    by (simp add: password_body_def JMap_def render_string_def)
qed

end
