(* ===== verification/ConfigKeys.thy ===== *)
theory ConfigKeys
  imports Secrets Encoding
begin

text \<open>
  \<^verbatim>\<open>internal/config/secrets.go\<close>: how the three environment variables
  \<^verbatim>\<open>SECRETS_KEYRING\<close>, \<^verbatim>\<open>SECRETS_KEY_CURRENT\<close> and the legacy \<^verbatim>\<open>SECRETS_MASTER_KEY\<close>
  become the keyring of \<open>Secrets\<close>: parsing, the legacy bridge, the choice of the
  version that seals, and the messages of every refusal. The base64 decoders are an
  argument, as in \<open>Secrets\<close>; \<open>u\<close> is \<^verbatim>\<open>strconv.Quote\<close> on a string with non-ASCII
  bytes.

  Lemmas: what parses is accepted by the keyring itself, the legacy variable means
  version 1, and of a key a refusal says only why it was refused, except that it quotes
  what stands before the colon of an entry.
\<close>

section \<open>Text\<close>

text \<open>The UTF-8 bytes of the dash that the messages use.\<close>

definition em_dash :: string where "em_dash = [CHR 0xE2, CHR 0x80, CHR 0x94]"

definition dquote :: char where "dquote = CHR 0x22"

definition quote_hex :: "nat \<Rightarrow> char" where "quote_hex n = ''0123456789abcdef'' ! (n mod 16)"

definition quote_byte :: "char \<Rightarrow> string" where
  "quote_byte c =
     (if c = dquote \<or> c = CHR 0x5C then [CHR 0x5C, c]
      else if c = CHR 0x07 then [CHR 0x5C, CHR ''a''] else if c = CHR 0x08 then [CHR 0x5C, CHR ''b'']
      else if c = CHR 0x0C then [CHR 0x5C, CHR ''f''] else if c = CHR 0x0A then [CHR 0x5C, CHR ''n'']
      else if c = CHR 0x0D then [CHR 0x5C, CHR ''r''] else if c = CHR 0x09 then [CHR 0x5C, CHR ''t'']
      else if c = CHR 0x0B then [CHR 0x5C, CHR ''v'']
      else if c < CHR 0x20 \<or> c = CHR 0x7F
        then [CHR 0x5C, CHR ''x'', quote_hex (of_char c div 16), quote_hex (of_char c)]
      else [c])"

text \<open>\<^verbatim>\<open>strconv.Quote\<close>, the verb \<^verbatim>\<open>%q\<close>.\<close>

definition Quote :: "(string \<Rightarrow> string) \<Rightarrow> string \<Rightarrow> string" where
  "Quote u s = (if list_all is_ascii s then dquote # concat (map quote_byte s) @ [dquote] else u s)"

text \<open>\<^verbatim>\<open>strings.Join\<close>, and the text after the last occurrence of a string, which is
  what the callers of \<^verbatim>\<open>strings.LastIndex\<close> take.\<close>

fun Join :: "string \<Rightarrow> string list \<Rightarrow> string" where
  "Join sep [] = []"
| "Join sep [s] = s"
| "Join sep (s # t # ts) = s @ sep @ Join sep (t # ts)"

fun after_last :: "string \<Rightarrow> string \<Rightarrow> string option" where
  "after_last sub [] = (if sub = [] then Some [] else None)"
| "after_last sub (c # cs) =
     (case after_last sub cs of
        Some r \<Rightarrow> Some r
      | None \<Rightarrow> if has_prefix sub (c # cs) then Some (drop (length sub) (c # cs)) else None)"

section \<open>The contract\<close>

definition EnvKeyring :: string where "EnvKeyring = ''SECRETS_KEYRING''"
definition EnvKeyCurrent :: string where "EnvKeyCurrent = ''SECRETS_KEY_CURRENT''"
definition EnvMasterKey :: string where "EnvMasterKey = ''SECRETS_MASTER_KEY''"
definition LegacyKeyVersion :: int where "LegacyKeyVersion = 1"

record keyring_config =
  kc_Keys :: "(int \<times> string) list"
  kc_Current :: int

definition no_keyring :: keyring_config where "no_keyring = \<lparr> kc_Keys = [], kc_Current = 0 \<rparr>"

definition Configured :: "keyring_config \<Rightarrow> bool" where
  "Configured k \<longleftrightarrow> 0 < length (kc_Keys k)"

text \<open>The text of a size error, as \<^verbatim>\<open>secrets.DecodeKey\<close> writes it.\<close>

definition key_size_text :: "nat option \<Rightarrow> string" where
  "key_size_text d = ''secrets: master key must be exactly 32 bytes'' @
     (case d of None \<Rightarrow> '': value is not valid base64'' | Some n \<Rightarrow> '': got '' @ Itoa n)"

definition keySizeDetail :: "string \<Rightarrow> string" where
  "keySizeDetail msg =
     (case after_last ''got '' msg of
        Some r \<Rightarrow> ''the key decodes to '' @ r @ '' bytes, need exactly '' @ Itoa KeySize
      | None \<Rightarrow> ''the key is not valid base64'')"

definition remedy :: string where
  "remedy = '' '' @ em_dash @ '' generate one with: openssl rand -base64 32''"

definition redactKeyError :: "secret_error \<Rightarrow> string" where
  "redactKeyError e =
     (case e of
        ErrNoKey \<Rightarrow> ''the key is empty'' @ remedy
      | ErrKeySize d \<Rightarrow> keySizeDetail (key_size_text d) @ '' (value withheld)'' @ remedy
      | _ \<Rightarrow> ''the key could not be read (value withheld)'' @ remedy)"

section \<open>Parsing\<close>

definition no_prefix_message :: string where
  "no_prefix_message = EnvKeyring @ '' has an entry with no version prefix '' @ em_dash @
     '' every entry must be `<version>:<base64 key>`, e.g. `1:$(openssl rand -base64 32)` (value withheld)''"

definition repeated_message :: "int \<Rightarrow> string" where
  "repeated_message n = EnvKeyring @ '' configures version '' @ FormatInt n @ '' more than once '' @ em_dash @
     '' which key an installation encrypts with must not depend on the order of a variable''"

text \<open>One entry: a blank one is skipped.\<close>

definition parse_entry ::
  "(string \<Rightarrow> bytes option) list \<Rightarrow> (string \<Rightarrow> string) \<Rightarrow> int list \<Rightarrow> string \<Rightarrow> string + (int \<times> string) option" where
  "parse_entry dec u seen entry =
     (let entry = trim_space entry in
      if entry = [] then Inr None
      else case cut_at CHR '':'' entry of
        None \<Rightarrow> Inl no_prefix_message
      | Some (version, material) \<Rightarrow>
          (case ParseInt (trim_space version) of
             None \<Rightarrow> Inl (EnvKeyring @ '' has an entry whose version '' @ Quote u (trim_space version) @
                 '' is not a whole number'')
           | Some n \<Rightarrow>
               if n < 1 then Inl (EnvKeyring @ '' has version '' @ FormatInt n @
                 ''; versions start at 1 (the schema CHECKs it)'')
               else if n \<in> set seen then Inl (repeated_message n)
               else let material = trim_space material in
                 (case DecodeKey dec material of
                    Inl e \<Rightarrow> Inl (EnvKeyring @ '' version '' @ FormatInt n @ '': '' @ redactKeyError e)
                  | Inr _ \<Rightarrow> Inr (Some (n, material)))))"

fun spec_loop ::
  "(string \<Rightarrow> bytes option) list \<Rightarrow> (string \<Rightarrow> string) \<Rightarrow> string list \<Rightarrow> (int \<times> string) list \<Rightarrow>
   string + (int \<times> string) list" where
  "spec_loop dec u [] keys = Inr keys"
| "spec_loop dec u (entry # es) keys =
     bind_result (parse_entry dec u (map fst keys) entry) (\<lambda>r.
       case r of
         None \<Rightarrow> spec_loop dec u es keys
       | Some k \<Rightarrow> spec_loop dec u es (keys @ [k]))"

definition parseKeyringSpec ::
  "(string \<Rightarrow> bytes option) list \<Rightarrow> (string \<Rightarrow> string) \<Rightarrow> string \<Rightarrow> string + (int \<times> string) list" where
  "parseKeyringSpec dec u spec =
     bind_result (spec_loop dec u (split_at CHR '','' spec) []) (\<lambda>keys.
       if keys = [] then Inl (EnvKeyring @ '' is set but contains no keys'')
       else Inr (sort_key fst keys))"

definition versionList :: "(int \<times> string) list \<Rightarrow> string" where
  "versionList keys = Join '', '' (map (\<lambda>k. FormatInt (fst k)) keys)"

definition chooseCurrent :: "(string \<Rightarrow> string) \<Rightarrow> (int \<times> string) list \<Rightarrow> string \<Rightarrow> string + int" where
  "chooseCurrent u keys current =
     (if current = [] then
        if length keys = 1 then Inr (fst (hd keys))
        else Inl (EnvKeyring @ '' configures '' @ FormatInt (int (length keys)) @ '' versions but '' @
          EnvKeyCurrent @ '' is unset '' @ em_dash @ '' with more than one key, which one new secrets '' @
          ''are sealed under has to be stated, not inferred'')
      else case ParseInt current of
        None \<Rightarrow> Inl (EnvKeyCurrent @ '' must be a whole number (got '' @ Quote u current @ '')'')
      | Some n \<Rightarrow>
          if list_ex (\<lambda>k. fst k = n) keys then Inr n
          else Inl (EnvKeyCurrent @ ''='' @ FormatInt n @ '', but '' @ EnvKeyring @ '' configures '' @
            versionList keys @ '' '' @ em_dash @
            '' new secrets would be sealed with a key this process does not hold''))"

text \<open>\<^verbatim>\<open>parseKeyring\<close>: the legacy bridge, then the keyring.\<close>

definition legacy_bridge ::
  "(string \<Rightarrow> bytes option) list \<Rightarrow> string \<Rightarrow> string \<Rightarrow> string + keyring_config" where
  "legacy_bridge dec current legacy =
     (if legacy = [] then
        if current \<noteq> [] then Inl (EnvKeyCurrent @ '' is set but no keys are configured '' @ em_dash @
          '' set '' @ EnvKeyring @ '' (or '' @ EnvMasterKey @ '')'')
        else Inr no_keyring
      else if current \<noteq> [] \<and> current \<noteq> FormatInt LegacyKeyVersion then
        Inl (EnvKeyCurrent @ ''='' @ current @ '' but the only configured key is the legacy '' @
          EnvMasterKey @ '', which is version '' @ FormatInt LegacyKeyVersion @
          ''. To seal under a different version, move to '' @ EnvKeyring)
      else case DecodeKey dec legacy of
        Inl e \<Rightarrow> Inl (EnvMasterKey @ '': '' @ redactKeyError e)
      | Inr _ \<Rightarrow> Inr \<lparr> kc_Keys = [(LegacyKeyVersion, legacy)], kc_Current = LegacyKeyVersion \<rparr>)"

definition parseKeyring ::
  "(string \<Rightarrow> bytes option) list \<Rightarrow> (string \<Rightarrow> string) \<Rightarrow> string \<Rightarrow> string \<Rightarrow> string \<Rightarrow> string + keyring_config" where
  "parseKeyring dec u spec current legacy =
     (let spec = trim_space spec; current = trim_space current; legacy = trim_space legacy in
      if spec \<noteq> [] \<and> legacy \<noteq> [] then
        Inl (EnvKeyring @ '' and '' @ EnvMasterKey @ '' are both set '' @ em_dash @
          '' they are two answers to the same question and there is no safe order to apply them in. '' @
          ''Move the legacy key into the keyring as version '' @ FormatInt LegacyKeyVersion @
          '' and unset '' @ EnvMasterKey)
      else if spec = [] then legacy_bridge dec current legacy
      else bind_result (parseKeyringSpec dec u spec) (\<lambda>keys.
        bind_result (chooseCurrent u keys current) (\<lambda>chosen.
          Inr \<lparr> kc_Keys = keys, kc_Current = chosen \<rparr>)))"

section \<open>What parses\<close>

text \<open>An entry that is accepted: a new version of at least 1 whose material decodes.\<close>

lemma parse_entry_Some:
  assumes "parse_entry dec u seen entry = Inr (Some (n, m))"
  shows "1 \<le> n" and "n \<notin> set seen" and "\<exists>raw. DecodeKey dec m = Inr raw"
  using assms unfolding parse_entry_def Let_def
  by (auto split: if_splits option.splits prod.splits sum.splits)

lemma spec_loop_Inr:
  assumes "spec_loop dec u es keys = Inr keys'"
    and "distinct (map fst keys)" and "\<forall>(n, m) \<in> set keys. 1 \<le> n \<and> (\<exists>raw. DecodeKey dec m = Inr raw)"
  shows "distinct (map fst keys') \<and> (\<forall>(n, m) \<in> set keys'. 1 \<le> n \<and> (\<exists>raw. DecodeKey dec m = Inr raw))"
  using assms
proof (induction es arbitrary: keys)
  case (Cons entry es)
  from Cons.prems(1) obtain r where r: "parse_entry dec u (map fst keys) entry = Inr r"
    and l: "(case r of None \<Rightarrow> spec_loop dec u es keys | Some k \<Rightarrow> spec_loop dec u es (keys @ [k])) = Inr keys'"
    by auto
  show ?case
  proof (cases r)
    case None
    with l Cons.IH [of keys] Cons.prems(2,3) show ?thesis by simp
  next
    case (Some k)
    obtain n m where k: "k = (n, m)" by (cases k)
    note e = parse_entry_Some [OF r [unfolded Some k]]
    from Some l have "spec_loop dec u es (keys @ [(n, m)]) = Inr keys'" by (simp add: k)
    moreover have "distinct (map fst (keys @ [(n, m)]))" using e(2) Cons.prems(2) by simp
    moreover have "\<forall>(n, m) \<in> set (keys @ [(n, m)]). 1 \<le> n \<and> (\<exists>raw. DecodeKey dec m = Inr raw)"
      using e(1,3) Cons.prems(3) by simp
    ultimately show ?thesis by (rule Cons.IH)
  qed
qed simp

definition kc_ok :: "(string \<Rightarrow> bytes option) list \<Rightarrow> keyring_config \<Rightarrow> bool" where
  "kc_ok dec k \<longleftrightarrow>
     sorted (map fst (kc_Keys k)) \<and> distinct (map fst (kc_Keys k)) \<and>
     list_all (\<lambda>(n, m). 1 \<le> n \<and> is_ok (DecodeKey dec m)) (kc_Keys k) \<and>
     kc_Current k \<in> fst ` set (kc_Keys k)"

lemma is_ok_Inr: "is_ok r \<longleftrightarrow> (\<exists>x. r = Inr x)"
  by (cases r) auto

lemma parseKeyringSpec_Inr:
  assumes "parseKeyringSpec dec u spec = Inr keys"
  shows "keys \<noteq> []" and "sorted (map fst keys)" and "distinct (map fst keys)"
    and "list_all (\<lambda>(n, m). 1 \<le> n \<and> is_ok (DecodeKey dec m)) keys"
proof -
  from assms obtain keys0 where l: "spec_loop dec u (split_at CHR '','' spec) [] = Inr keys0"
    and k: "keys0 \<noteq> []" "keys = sort_key fst keys0"
    by (auto simp: parseKeyringSpec_def split: if_splits)
  from spec_loop_Inr [OF l] have "distinct (map fst keys0)"
    "\<forall>(n, m) \<in> set keys0. 1 \<le> n \<and> (\<exists>raw. DecodeKey dec m = Inr raw)" by simp_all
  with k show "keys \<noteq> []" "sorted (map fst keys)" "distinct (map fst keys)"
    "list_all (\<lambda>(n, m). 1 \<le> n \<and> is_ok (DecodeKey dec m)) keys"
    by (auto simp: distinct_map list_all_iff is_ok_Inr simp flip: set_empty)
qed

lemma chooseCurrent_Inr:
  "chooseCurrent u keys current = Inr n \<Longrightarrow> keys \<noteq> [] \<Longrightarrow> n \<in> fst ` set keys"
  by (cases keys) (auto simp: chooseCurrent_def list_ex_iff split: if_splits option.splits)

lemma parseKeyring_Inr:
  assumes "parseKeyring dec u spec current legacy = Inr k" and "Configured k"
  shows "kc_ok dec k"
proof (cases "trim_space spec = []")
  case True
  with assms show ?thesis
    by (auto simp: parseKeyring_def Let_def legacy_bridge_def kc_ok_def no_keyring_def Configured_def
      LegacyKeyVersion_def split: if_splits sum.splits)
next
  case False
  with assms obtain keys n where p: "parseKeyringSpec dec u (trim_space spec) = Inr keys"
    and c: "chooseCurrent u keys (trim_space current) = Inr n"
    and k: "k = \<lparr> kc_Keys = keys, kc_Current = n \<rparr>"
    by (auto simp: parseKeyring_def Let_def split: if_splits)
  note s = parseKeyringSpec_Inr [OF p]
  from s(2-4) chooseCurrent_Inr [OF c s(1)] show ?thesis by (simp add: kc_ok_def k)
qed

text \<open>The key that the text \<open>t\<close> names for version \<open>v\<close>.\<close>

definition named_key :: "(string \<Rightarrow> bytes option) list \<Rightarrow> int \<Rightarrow> string \<Rightarrow> key option" where
  "named_key dec v t =
     (case DecodeKey dec t of Inl _ \<Rightarrow> None | Inr m \<Rightarrow> Some \<lparr> ky_version = v, ky_material = m \<rparr>)"

lemma decode_materials_ok:
  "list_all (\<lambda>(n, m). 1 \<le> n \<and> is_ok (DecodeKey dec m)) ks \<Longrightarrow>
   \<exists>ms. decode_materials dec ks = Inr ms \<and> map fst ms = map fst ks \<and>
     list_all (\<lambda>(n, m). 1 \<le> n \<and> length m = KeySize) ms \<and>
     (\<forall>v. map_option (\<lambda>m. \<lparr> ky_version = v, ky_material = m \<rparr>) (map_of ms v) = Option.bind (map_of ks v) (named_key dec v))"
proof (induction ks)
  case (Cons k ks)
  obtain n m where k: "k = (n, m)" by (cases k)
  from Cons k obtain raw ms where d: "DecodeKey dec m = Inr raw" "decode_materials dec ks = Inr ms"
    "map fst ms = map fst ks" "list_all (\<lambda>(n, m). 1 \<le> n \<and> length m = KeySize) ms"
    "\<And>v. map_option (\<lambda>m. \<lparr> ky_version = v, ky_material = m \<rparr>) (map_of ms v) = Option.bind (map_of ks v) (named_key dec v)"
    by (auto simp: is_ok_Inr)
  have "decode_loop decs m = Inr raw \<Longrightarrow> length raw = KeySize" for decs
    by (induction decs) (auto split: option.splits if_splits)
  with d(1) have "length raw = KeySize" by (auto simp: DecodeKey_def split: if_splits)
  moreover have "named_key dec n m = Some \<lparr> ky_version = n, ky_material = raw \<rparr>" using d(1) by (simp add: named_key_def)
  ultimately show ?case using d k Cons.prems by simp
qed simp

lemma named_key_ok: "kc_ok dec k \<Longrightarrow> (v, t) \<in> set (kc_Keys k) \<Longrightarrow> named_key dec v t \<noteq> None"
  by (auto simp: kc_ok_def list_all_iff named_key_def is_ok_Inr)

lemma keyring_loop_ok:
  "list_all (\<lambda>(n, m). 1 \<le> n \<and> length m = KeySize) ms \<Longrightarrow> distinct (map fst ms) \<Longrightarrow>
   fst ` set ms \<inter> fst ` set keys = {} \<Longrightarrow>
   is_ok (keyring_loop ms keys vs)"
proof (induction ms arbitrary: keys vs)
  case (Cons x ms)
  obtain n m where x: "x = (n, m)" by (cases x)
  from Cons.prems x have "newKey n m = Inr \<lparr> ky_version = n, ky_material = m \<rparr>" "map_of keys n = None"
    by (auto simp: newKey_Inr map_of_eq_None_iff)
  with Cons x show ?case by auto
qed simp

text \<open>So \<^verbatim>\<open>Keyring()\<close> never yields what \<^verbatim>\<open>NewKeyringFromBase64\<close> refuses.\<close>

lemma kc_ok_builds:
  assumes "kc_ok dec k"
  obtains r where "NewKeyringFromBase64 dec (kc_Keys k) (kc_Current k) = Inr r" and "keyring_ok r"
    and "kr_current r = kc_Current k" and "kr_versions r = map fst (kc_Keys k)"
    and "\<And>v. map_of (kr_keys r) v = Option.bind (map_of (kc_Keys k) v) (named_key dec v)"
proof -
  note a = assms [unfolded kc_ok_def]
  from a decode_materials_ok obtain ms where ms: "decode_materials dec (kc_Keys k) = Inr ms"
    "map fst ms = map fst (kc_Keys k)" "list_all (\<lambda>(n, m). 1 \<le> n \<and> length m = KeySize) ms"
    "\<And>v. map_option (\<lambda>m. \<lparr> ky_version = v, ky_material = m \<rparr>) (map_of ms v) =
      Option.bind (map_of (kc_Keys k) v) (named_key dec v)" by blast
  from keyring_loop_ok [OF ms(3), of "[]" "[]"] a ms(2) obtain keys vs where
    l: "keyring_loop ms [] [] = Inr (keys, vs)" by (auto simp: is_ok_Inr)
  from keyring_loop_Inr [OF l] have ks: "fst ` set keys = fst ` set ms" by force
  have "ms \<noteq> []" using a ms(2) by auto
  moreover have "map_of keys (kc_Current k) \<noteq> None"
    using a ms(2) ks by (metis map_of_eq_None_iff list.set_map)
  ultimately obtain r where r: "NewKeyring ms (kc_Current k) = Inr r"
    using l by (auto simp: NewKeyring_def)
  show ?thesis
  proof (rule that)
    show "NewKeyringFromBase64 dec (kc_Keys k) (kc_Current k) = Inr r"
      using ms(1) r by (simp add: NewKeyringFromBase64_def)
    show "kr_versions r = map fst (kc_Keys k)"
      using NewKeyring_Inr(5) [OF r] ms(2) a by (simp add: sorted_sort_id)
  qed (use NewKeyring_Inr(1-3) [OF r] ms(4) in simp_all)
qed

section \<open>Two ways to write one key\<close>

lemma ParseInt_one: "ParseInt ''1'' = Some 1"
  by code_simp

lemma FormatInt_one: "FormatInt 1 = ''1''"
  by code_simp

text \<open>An entry of visible characters, without a comma, is read as it stands.\<close>

lemma parse_entry_plain:
  assumes "list_all is_graph v" and "list_all is_graph m" and "CHR '':'' \<notin> set v"
  shows "parse_entry dec u seen (v @ CHR '':'' # m) =
     (case ParseInt v of
        None \<Rightarrow> Inl (EnvKeyring @ '' has an entry whose version '' @ Quote u v @ '' is not a whole number'')
      | Some n \<Rightarrow>
          if n < 1 then Inl (EnvKeyring @ '' has version '' @ FormatInt n @
            ''; versions start at 1 (the schema CHECKs it)'')
          else if n \<in> set seen then Inl (repeated_message n)
          else (case DecodeKey dec m of
              Inl e \<Rightarrow> Inl (EnvKeyring @ '' version '' @ FormatInt n @ '': '' @ redactKeyError e)
            | Inr _ \<Rightarrow> Inr (Some (n, m))))"
proof -
  have "list_all is_graph (v @ CHR '':'' # m)"
    using assms(1,2) by (simp add: is_graph_def in_range_def less_eq_char_def)
  from trim_space_graph [OF this] trim_space_graph [OF assms(1)] trim_space_graph [OF assms(2)]
    cut_append [OF assms(3), of m]
  show ?thesis unfolding parse_entry_def Let_def by (simp split: option.split sum.split)
qed

lemma split_entry:
  "CHR '','' \<notin> set v \<Longrightarrow> CHR '','' \<notin> set m \<Longrightarrow> split_at CHR '','' (v @ CHR '':'' # m) = [v @ CHR '':'' # m]"
  by (rule split_at_absent) simp

lemma parseKeyringSpec_one:
  assumes "list_all is_graph m" and "CHR '','' \<notin> set m"
  shows "parseKeyringSpec dec u (''1:'' @ m) =
    (case DecodeKey dec m of
       Inl e \<Rightarrow> Inl (EnvKeyring @ '' version '' @ FormatInt 1 @ '': '' @ redactKeyError e)
     | Inr _ \<Rightarrow> Inr [(1, m)])"
proof -
  have g: "list_all is_graph ''1''" by code_simp
  have c: "CHR '','' \<notin> set ''1''" and d: "CHR '':'' \<notin> set ''1''" by simp_all
  have "spec_loop dec u (split_at CHR '','' (''1'' @ CHR '':'' # m)) [] =
    (case DecodeKey dec m of
       Inl e \<Rightarrow> Inl (EnvKeyring @ '' version '' @ FormatInt 1 @ '': '' @ redactKeyError e)
     | Inr _ \<Rightarrow> Inr [(1, m)])"
    unfolding split_entry [OF c assms(2)] spec_loop.simps list.map
      parse_entry_plain [OF g assms(1) d] ParseInt_one
    by (simp split: sum.split)
  moreover have "''1:'' @ m = ''1'' @ CHR '':'' # m" by simp
  ultimately show ?thesis unfolding parseKeyringSpec_def by (simp only:) (simp split: sum.split)
qed

text \<open>The legacy variable is exactly the keyring \<^verbatim>\<open>1:<key>\<close>: an installation that
  moves its key from \<^verbatim>\<open>SECRETS_MASTER_KEY\<close> into \<^verbatim>\<open>SECRETS_KEYRING\<close> as version 1 keeps the
  same normalised keyring, or is refused both times; and with the legacy variable the
  only version is 1.\<close>

theorem legacy_key_is_version_one:
  assumes "list_all is_graph legacy" and "CHR '','' \<notin> set legacy" and "legacy \<noteq> []"
    and "trim_space current \<in> {[], ''1''}"
  shows "(parseKeyring dec u [] current legacy = Inr k \<longleftrightarrow>
      parseKeyring dec u (''1:'' @ legacy) current [] = Inr k) \<and>
    (parseKeyring dec u [] current legacy = Inr k \<longrightarrow> k = \<lparr> kc_Keys = [(1, legacy)], kc_Current = 1 \<rparr>)"
proof -
  have g: "list_all is_graph (''1:'' @ legacy)"
    using assms(1) by (simp add: is_graph_def in_range_def less_eq_char_def)
  have e: "trim_space [] = []" by (rule trim_space_graph) simp
  have c: "chooseCurrent u [(1, legacy)] (trim_space current) = Inr 1"
    using assms(4) by (auto simp: chooseCurrent_def ParseInt_one)
  have l: "parseKeyring dec u [] current legacy =
     (case DecodeKey dec legacy of
        Inl e \<Rightarrow> Inl (EnvMasterKey @ '': '' @ redactKeyError e)
      | Inr _ \<Rightarrow> Inr \<lparr> kc_Keys = [(1, legacy)], kc_Current = 1 \<rparr>)"
    using assms(3,4) trim_space_graph [OF assms(1)]
    by (auto simp: parseKeyring_def Let_def e legacy_bridge_def LegacyKeyVersion_def FormatInt_one split: sum.split)
  have r: "parseKeyring dec u (''1:'' @ legacy) current [] =
     (case DecodeKey dec legacy of
        Inl e \<Rightarrow> Inl (EnvKeyring @ '' version '' @ FormatInt 1 @ '': '' @ redactKeyError e)
      | Inr _ \<Rightarrow> Inr \<lparr> kc_Keys = [(1, legacy)], kc_Current = 1 \<rparr>)"
    unfolding parseKeyring_def Let_def e trim_space_graph [OF g] parseKeyringSpec_one [OF assms(1,2)]
    by (simp add: c split: sum.split)
  show ?thesis unfolding l r by (auto split: sum.split)
qed

section \<open>What a refusal says\<close>

text \<open>Two entries that agree on everything but the key: both blank, both without a
  version, or with the same version and material that is refused for the same reason,
  or not at all.\<close>

definition material_error :: "(string \<Rightarrow> bytes option) list \<Rightarrow> string \<Rightarrow> secret_error option" where
  "material_error dec m = (case DecodeKey dec m of Inl e \<Rightarrow> Some e | Inr _ \<Rightarrow> None)"

definition same_but_key :: "(string \<Rightarrow> bytes option) list \<Rightarrow> string \<Rightarrow> string \<Rightarrow> bool" where
  "same_but_key dec e e' \<longleftrightarrow>
     (trim_space e = [] \<and> trim_space e' = []) \<or>
     (trim_space e \<noteq> [] \<and> trim_space e' \<noteq> [] \<and>
      (case (cut_at CHR '':'' (trim_space e), cut_at CHR '':'' (trim_space e')) of
         (None, None) \<Rightarrow> True
       | (Some (v, m), Some (v', m')) \<Rightarrow>
           trim_space v = trim_space v' \<and>
           material_error dec (trim_space m) = material_error dec (trim_space m')
       | _ \<Rightarrow> False))"

fun same_parse :: "'e + 'a \<Rightarrow> 'e + 'b \<Rightarrow> ('a \<Rightarrow> 'b \<Rightarrow> bool) \<Rightarrow> bool" where
  "same_parse (Inl e) (Inl e') P = (e = e')"
| "same_parse (Inr x) (Inr y) P = P x y"
| "same_parse _ _ P = False"

lemma same_parse_entry:
  assumes "same_but_key dec e e'"
  shows "same_parse (parse_entry dec u seen e) (parse_entry dec u seen e')
    (\<lambda>r r'. map_option fst r = map_option fst r')"
proof (cases "trim_space e = []")
  case True
  with assms show ?thesis by (simp add: same_but_key_def parse_entry_def)
next
  case ne: False
  with assms have ne': "trim_space e' \<noteq> []" by (simp add: same_but_key_def)
  show ?thesis
  proof (cases "cut_at CHR '':'' (trim_space e)")
    case None
    with assms ne ne' have "cut_at CHR '':'' (trim_space e') = None"
      by (auto simp: same_but_key_def split: option.splits)
    with None ne ne' show ?thesis by (simp add: parse_entry_def Let_def del: cut_None_iff)
  next
    case (Some p)
    obtain v m where p: "p = (v, m)" by (cases p)
    with Some assms ne ne' obtain v' m' where s: "cut_at CHR '':'' (trim_space e') = Some (v', m')"
      "trim_space v' = trim_space v" "material_error dec (trim_space m) = material_error dec (trim_space m')"
      by (auto simp: same_but_key_def split: option.splits)
    from s(3) have d: "same_parse (DecodeKey dec (trim_space m)) (DecodeKey dec (trim_space m')) (\<lambda>_ _. True)"
      by (cases "DecodeKey dec (trim_space m)"; cases "DecodeKey dec (trim_space m')")
        (simp_all add: material_error_def)
    show ?thesis
      using d s(2) unfolding parse_entry_def Let_def Some p s(1)
      by (cases "DecodeKey dec (trim_space m)"; cases "DecodeKey dec (trim_space m')")
        (auto simp: ne ne' split: option.split)
  qed
qed

lemma same_spec_loop:
  assumes "list_all2 (same_but_key dec) es es'" and "map fst keys = map fst keys'"
  shows "same_parse (spec_loop dec u es keys) (spec_loop dec u es' keys') (\<lambda>k k'. map fst k = map fst k')"
  using assms
proof (induction es es' arbitrary: keys keys' rule: list_all2_induct)
  case (Cons e es e' es')
  from same_parse_entry [OF Cons.hyps(1), of u "map fst keys"] Cons.prems
  show ?case
    by (cases "parse_entry dec u (map fst keys) e"; cases "parse_entry dec u (map fst keys) e'")
      (auto split: option.split intro!: Cons.IH)
qed simp

lemma same_parse_bind:
  assumes "same_parse r r' P" and "\<And>x y. P x y \<Longrightarrow> same_parse (f x) (g y) Q"
  shows "same_parse (bind_result r f) (bind_result r' g) Q"
  using assms by (cases r; cases r') auto

lemma map_insort_key: "map f (insort_key f x xs) = insort (f x) (map f xs)"
  by (induction xs) auto

lemma map_fst_sort_key: "map fst (sort_key fst ks) = sort (map fst ks)" for ks :: "(int \<times> string) list"
  by (induction ks) (simp_all add: sort_key_def map_insort_key)

lemma same_choice:
  assumes "map fst ks = map fst ks'"
  shows "chooseCurrent u ks current = chooseCurrent u ks' current"
proof -
  have l: "length ks = length ks'" and i: "fst ` set ks = fst ` set ks'"
    using arg_cong [OF assms, of length] arg_cong [OF assms, of set] by simp_all
  have "list_ex (\<lambda>k. fst k = n) ks \<longleftrightarrow> n \<in> set (map fst ks)" for n and ks :: "(int \<times> string) list"
    by (auto simp: list_ex_iff)
  moreover have "versionList ks = Join '', '' (map FormatInt (map fst ks))" for ks
    by (simp add: versionList_def comp_def)
  moreover have "ks \<noteq> [] \<Longrightarrow> fst (hd ks) = fst (hd ks')"
    using assms by (cases ks; cases ks') auto
  moreover have "length ks = 1 \<Longrightarrow> ks \<noteq> []" by auto
  ultimately show ?thesis using assms l i by (simp add: chooseCurrent_def del: map_map split: option.split)
qed

text \<open>The refusals withhold key material: two configurations that differ only in
  their keys (entry by entry the same version text, and material that is refused for
  the same reason or accepted both times) are refused with the very same message, or
  are both accepted with the same versions and the same current one. Of a key, only
  why it was refused reaches the log: that it is empty, that it is not base64, or the
  number of bytes it decodes to.\<close>

theorem key_errors_withhold_material:
  assumes "list_all2 (same_but_key dec) (split_at CHR '','' (trim_space spec)) (split_at CHR '','' (trim_space spec'))"
    and "trim_space spec = [] \<longleftrightarrow> trim_space spec' = []"
    and "trim_space legacy = [] \<longleftrightarrow> trim_space legacy' = []"
    and "material_error dec (trim_space legacy) = material_error dec (trim_space legacy')"
  shows "same_parse (parseKeyring dec u spec current legacy) (parseKeyring dec u spec' current legacy')
    (\<lambda>k k'. map fst (kc_Keys k) = map fst (kc_Keys k') \<and> kc_Current k = kc_Current k')"
proof -
  let ?c = "trim_space current"
  have s: "same_parse (parseKeyringSpec dec u (trim_space spec)) (parseKeyringSpec dec u (trim_space spec'))
      (\<lambda>k k'. map fst k = map fst k')"
    unfolding parseKeyringSpec_def
  proof (rule same_parse_bind [OF same_spec_loop [OF assms(1)]])
    fix k k' :: "(int \<times> string) list" assume m: "map fst k = map fst k'"
    then have "(k = []) = (k' = [])" by (metis map_is_Nil_conv)
    with m show "same_parse (if k = [] then Inl (EnvKeyring @ '' is set but contains no keys'') else Inr (sort_key fst k))
        (if k' = [] then Inl (EnvKeyring @ '' is set but contains no keys'') else Inr (sort_key fst k'))
        (\<lambda>k k'. map fst k = map fst k')"
      by (simp add: map_fst_sort_key)
  qed simp
  have l: "same_parse (legacy_bridge dec ?c (trim_space legacy)) (legacy_bridge dec ?c (trim_space legacy'))
      (\<lambda>k k'. map fst (kc_Keys k) = map fst (kc_Keys k') \<and> kc_Current k = kc_Current k')"
    using assms(3,4) unfolding legacy_bridge_def material_error_def
    by (auto split: sum.splits)
  have k: "same_parse
      (bind_result (parseKeyringSpec dec u (trim_space spec)) (\<lambda>keys. bind_result (chooseCurrent u keys ?c)
        (\<lambda>chosen. Inr \<lparr> kc_Keys = keys, kc_Current = chosen \<rparr>)))
      (bind_result (parseKeyringSpec dec u (trim_space spec')) (\<lambda>keys. bind_result (chooseCurrent u keys ?c)
        (\<lambda>chosen. Inr \<lparr> kc_Keys = keys, kc_Current = chosen \<rparr>)))
      (\<lambda>k k'. map fst (kc_Keys k) = map fst (kc_Keys k') \<and> kc_Current k = kc_Current k')"
  proof (rule same_parse_bind [OF s])
    fix ks ks' :: "(int \<times> string) list" assume m: "map fst ks = map fst ks'"
    from same_choice [OF m, of u ?c] m
    show "same_parse (bind_result (chooseCurrent u ks ?c) (\<lambda>chosen. Inr \<lparr> kc_Keys = ks, kc_Current = chosen \<rparr>))
      (bind_result (chooseCurrent u ks' ?c) (\<lambda>chosen. Inr \<lparr> kc_Keys = ks', kc_Current = chosen \<rparr>))
      (\<lambda>k k'. map fst (kc_Keys k) = map fst (kc_Keys k') \<and> kc_Current k = kc_Current k')"
      by (cases "chooseCurrent u ks' ?c") simp_all
  qed
  show ?thesis
    using assms(2,3) k l unfolding parseKeyring_def Let_def
    by (cases "trim_space spec' = []"; cases "trim_space legacy' = []") simp_all
qed

text \<open>But what stands before the colon is quoted. An operator who writes an entry the
  wrong way round, \<^verbatim>\<open><base64 key>:<version>\<close>, finds the key in the log.\<close>

definition plain :: "char \<Rightarrow> bool" where
  "plain c \<longleftrightarrow> is_graph c \<and> c \<noteq> dquote \<and> c \<noteq> CHR 0x5C"

lemma quote_byte_plain: "plain c \<Longrightarrow> quote_byte c = [c]"
proof -
  assume "plain c"
  then have "is_graph c" "c \<noteq> dquote" "c \<noteq> CHR 0x5C" by (simp_all add: plain_def)
  moreover from this(1) have "\<not> c < CHR 0x20" "c \<noteq> CHR 0x7F" "c \<noteq> CHR 0x07" "c \<noteq> CHR 0x08" "c \<noteq> CHR 0x0C"
    "c \<noteq> CHR 0x0A" "c \<noteq> CHR 0x0D" "c \<noteq> CHR 0x09" "c \<noteq> CHR 0x0B"
    by (auto simp: is_graph_def in_range_def less_eq_char_def less_char_def)
  ultimately show "quote_byte c = [c]" by (simp add: quote_byte_def)
qed

lemma Quote_plain: "list_all plain s \<Longrightarrow> Quote u s = dquote # s @ [dquote]"
proof -
  assume p: "list_all plain s"
  then have "list_all is_ascii s"
    by (auto simp: list_all_iff plain_def intro: graph_ascii)
  moreover have "concat (map quote_byte s) = s"
    using p by (induction s) (simp_all add: quote_byte_plain)
  ultimately show ?thesis by (simp add: Quote_def)
qed

lemma swapped_entry_leaks:
  assumes "list_all plain k" and "CHR '':'' \<notin> set k" and "CHR '','' \<notin> set k" and "ParseInt k = None"
    and "list_all is_graph v" and "CHR '','' \<notin> set v"
  shows "parseKeyring dec u (k @ CHR '':'' # v) current [] =
    Inl (''SECRETS_KEYRING has an entry whose version '' @ dquote # k @ dquote # '' is not a whole number'')"
proof -
  have k: "list_all is_graph k" using assms(1) by (auto simp: list_all_iff plain_def)
  have "list_all is_graph (k @ CHR '':'' # v)"
    using k assms(5) by (simp add: is_graph_def in_range_def less_eq_char_def)
  note t = trim_space_graph [OF this]
  have e: "trim_space [] = []" by (rule trim_space_graph) simp
  show ?thesis
    unfolding parseKeyring_def Let_def t e parseKeyringSpec_def split_entry [OF assms(3,6)] spec_loop.simps
      parse_entry_plain [OF k assms(5,2)] assms(4) Quote_plain [OF assms(1)]
    by (simp add: EnvKeyring_def)
qed

section \<open>Examples\<close>

text \<open>A decoder that reads 32 characters as 32 bytes stands for base64.\<close>

definition demo_decoders :: "(string \<Rightarrow> bytes option) list" where
  "demo_decoders = [\<lambda>s. if list_all is_graph s then Some (map of_char s) else None]"

definition demo_key :: "char \<Rightarrow> string" where "demo_key c = replicate 32 c"

lemma demo_legacy:
  "parseKeyring demo_decoders id (''1:'' @ demo_key CHR ''A'') '' 1 '' [] =
   Inr \<lparr> kc_Keys = [(1, demo_key CHR ''A'')], kc_Current = 1 \<rparr>"
proof -
  have l: "parseKeyring demo_decoders id [] '' 1 '' (demo_key CHR ''A'') =
    Inr \<lparr> kc_Keys = [(1, demo_key CHR ''A'')], kc_Current = 1 \<rparr>" by code_simp
  have g: "list_all is_graph (demo_key CHR ''A'')" "CHR '','' \<notin> set (demo_key CHR ''A'')"
    "demo_key CHR ''A'' \<noteq> []" by code_simp+
  have c: "trim_space '' 1 '' \<in> {[], ''1''}" by code_simp
  from legacy_key_is_version_one [OF g c, of demo_decoders id "\<lparr> kc_Keys = [(1, demo_key CHR ''A'')], kc_Current = 1 \<rparr>"] l
  show ?thesis by blast
qed

lemma demo_withheld:
  "parseKeyring demo_decoders id ''1:AAA,2:BB'' [] [] = parseKeyring demo_decoders id ''1:ZZZ,2:YY'' [] []"
proof -
  have a: "list_all2 (same_but_key demo_decoders) (split_at CHR '','' (trim_space ''1:AAA,2:BB''))
      (split_at CHR '','' (trim_space ''1:ZZZ,2:YY''))" by code_simp
  have b: "trim_space ''1:AAA,2:BB'' = [] \<longleftrightarrow> trim_space ''1:ZZZ,2:YY'' = []" by code_simp
  have l: "is_ok (parseKeyring demo_decoders id ''1:AAA,2:BB'' [] []) = False" by code_simp
  from key_errors_withhold_material [OF a b, of "[]" "[]" id "[]"] l
  show ?thesis
    by (cases "parseKeyring demo_decoders id ''1:AAA,2:BB'' [] []";
        cases "parseKeyring demo_decoders id ''1:ZZZ,2:YY'' [] []") simp_all
qed

end
