(* ===== verification/Contract.thy ===== *)
theory Contract
  imports ConfigKeys "HOL-Library.List_Lexorder"
begin

text \<open>
  \<^verbatim>\<open>internal/config/contract.go\<close>: the table of every environment variable of the
  installation, with who reads it, whether it is required, its default, whether it
  is secret and what it is for; and the functions that read the table. Strings are
  ordered by their bytes, as in Go.

  Lemmas: the names are distinct, sorting and lookup agree with the table, and the
  required variables of the process are the four it says.
\<close>

datatype consumer = ConsumerProcess | ConsumerCompose | ConsumerBootstrap

datatype requirement_level = RequirementRequired | RequirementOptional | RequirementDevOnly

fun consumer_text :: "consumer \<Rightarrow> string" where
  "consumer_text ConsumerProcess = ''process''"
| "consumer_text ConsumerCompose = ''compose''"
| "consumer_text ConsumerBootstrap = ''bootstrap''"

fun requirement_text :: "requirement_level \<Rightarrow> string" where
  "requirement_text RequirementRequired = ''required''"
| "requirement_text RequirementOptional = ''optional''"
| "requirement_text RequirementDevOnly = ''dev-only''"

record setting =
  st_Name :: string
  st_Consumer :: consumer
  st_Requirement :: requirement_level
  st_Default :: string
  st_Secret :: bool
  st_Purpose :: string

definition settings :: "setting list" where
  "settings =
     [
      \<lparr> st_Name = ''PORT'', st_Consumer = ConsumerProcess, st_Requirement = RequirementOptional,
        st_Default = ''8080'', st_Secret = False,
        st_Purpose = ''TCP port the API listens on'' \<rparr>,
      \<lparr> st_Name = ''GIN_LOG_ENABLED'', st_Consumer = ConsumerProcess, st_Requirement = RequirementOptional,
        st_Default = ''true'', st_Secret = False,
        st_Purpose = ''Gin framework debug logs; false switches Gin to release mode'' \<rparr>,
      \<lparr> st_Name = ''GIN_ACCESS_LOG_ENABLED'', st_Consumer = ConsumerProcess, st_Requirement = RequirementOptional,
        st_Default = ''true'', st_Secret = False,
        st_Purpose = ''per-request access log lines'' \<rparr>,
      \<lparr> st_Name = ''SHUTDOWN_TIMEOUT_SECONDS'', st_Consumer = ConsumerProcess, st_Requirement = RequirementOptional,
        st_Default = ''20'', st_Secret = False,
        st_Purpose = ''how long in-flight requests may finish after SIGTERM before the process exits anyway'' \<rparr>,
      \<lparr> st_Name = ''DB_URL'', st_Consumer = ConsumerProcess, st_Requirement = RequirementRequired,
        st_Default = [], st_Secret = True,
        st_Purpose = ''PostgreSQL connection string (contains the password)'' \<rparr>,
      \<lparr> st_Name = ''DB_MIGRATE_ON_BOOT'', st_Consumer = ConsumerProcess, st_Requirement = RequirementOptional,
        st_Default = ''true'', st_Secret = False,
        st_Purpose = ''apply pending SQL migrations at startup; false hands them to a separate deploy step'' \<rparr>,
      \<lparr> st_Name = ''KEYCLOAK_URL'', st_Consumer = ConsumerProcess, st_Requirement = RequirementRequired,
        st_Default = [], st_Secret = False,
        st_Purpose = ''issuer base URL as CLIENTS see it '' @ em_dash @ '' drives the expected `iss` claim'' \<rparr>,
      \<lparr> st_Name = ''KEYCLOAK_REALM'', st_Consumer = ConsumerProcess, st_Requirement = RequirementRequired,
        st_Default = [], st_Secret = False,
        st_Purpose = ''realm operators authenticate against (the installation realm, not a workspace's)'' \<rparr>,
      \<lparr> st_Name = ''KEYCLOAK_CLIENT_ID'', st_Consumer = ConsumerProcess, st_Requirement = RequirementRequired,
        st_Default = [], st_Secret = False,
        st_Purpose = ''OIDC client id the console logs in with'' \<rparr>,
      \<lparr> st_Name = ''KEYCLOAK_CLIENT_SECRET'', st_Consumer = ConsumerProcess, st_Requirement = RequirementOptional,
        st_Default = [], st_Secret = True,
        st_Purpose = ''only for a confidential client; a public PKCE client needs none'' \<rparr>,
      \<lparr> st_Name = ''KEYCLOAK_JWKS_URL'', st_Consumer = ConsumerProcess, st_Requirement = RequirementOptional,
        st_Default = ''derived from KEYCLOAK_URL + KEYCLOAK_REALM'', st_Secret = False,
        st_Purpose = ''override when the API reaches Keycloak on a different address than clients do'' \<rparr>,
      \<lparr> st_Name = ''KEYCLOAK_ALLOWED_CLIENT_IDS'', st_Consumer = ConsumerProcess, st_Requirement = RequirementOptional,
        st_Default = [], st_Secret = False,
        st_Purpose = ''comma-separated client ids accepted in the token's azp/aud; empty accepts any'' \<rparr>,
      \<lparr> st_Name = ''KEYCLOAK_ADMIN_CLIENT_ID'', st_Consumer = ConsumerProcess, st_Requirement = RequirementOptional,
        st_Default = [], st_Secret = False,
        st_Purpose = ''service-account client for /admin/*; unset omits the whole /admin surface'' \<rparr>,
      \<lparr> st_Name = ''KEYCLOAK_ADMIN_CLIENT_SECRET'', st_Consumer = ConsumerProcess, st_Requirement = RequirementOptional,
        st_Default = [], st_Secret = True,
        st_Purpose = ''secret for the above; both must be set or neither'' \<rparr>,
      \<lparr> st_Name = ''KEYCLOAK_ADMIN_BASE_URL'', st_Consumer = ConsumerProcess, st_Requirement = RequirementOptional,
        st_Default = ''KEYCLOAK_URL'', st_Secret = False,
        st_Purpose = ''where the API reaches the Keycloak admin API '' @ em_dash @ '' often an internal address'' \<rparr>,
      \<lparr> st_Name = ''ADMIN_LIVE_CHECK_TTL_SECONDS'', st_Consumer = ConsumerProcess, st_Requirement = RequirementOptional,
        st_Default = ''30'', st_Secret = False,
        st_Purpose = ''how long a live-admin check is cached; bounds the out-of-band revocation window'' \<rparr>,
      \<lparr> st_Name = ''SECRETS_KEYRING'', st_Consumer = ConsumerProcess, st_Requirement = RequirementOptional,
        st_Default = [], st_Secret = True,
        st_Purpose = ''versioned keys `1:<base64>,2:<base64>`; every version can decrypt. Unset omits connections AND workspace identity'' \<rparr>,
      \<lparr> st_Name = ''SECRETS_KEY_CURRENT'', st_Consumer = ConsumerProcess, st_Requirement = RequirementOptional,
        st_Default = [], st_Secret = False,
        st_Purpose = ''which SECRETS_KEYRING version seals NEW secrets. Optional with a single key, required with more than one'' \<rparr>,
      \<lparr> st_Name = ''SECRETS_MASTER_KEY'', st_Consumer = ConsumerProcess, st_Requirement = RequirementOptional,
        st_Default = [], st_Secret = True,
        st_Purpose = ''LEGACY single key; equivalent to SECRETS_KEYRING=1:<base64>. Cannot be combined with SECRETS_KEYRING'' \<rparr>,
      \<lparr> st_Name = ''ADMIN_CONSOLE_ENABLED'', st_Consumer = ConsumerProcess, st_Requirement = RequirementOptional,
        st_Default = ''false'', st_Secret = False,
        st_Purpose = ''serve the admin console SPA at /admin'' \<rparr>,
      \<lparr> st_Name = ''ADMIN_CONSOLE_CLIENT_ID'', st_Consumer = ConsumerProcess, st_Requirement = RequirementOptional,
        st_Default = ''DEV_PLAYGROUND_CLIENT_ID'', st_Secret = False,
        st_Purpose = ''public PKCE client the console logs in with'' \<rparr>,
      \<lparr> st_Name = ''CORS_ALLOWED_ORIGINS'', st_Consumer = ConsumerProcess, st_Requirement = RequirementOptional,
        st_Default = [], st_Secret = False,
        st_Purpose = ''comma-separated browser origins allowed to call the API; empty disables CORS'' \<rparr>,
      \<lparr> st_Name = ''RATE_LIMIT_EDGE_RPS'', st_Consumer = ConsumerProcess, st_Requirement = RequirementOptional,
        st_Default = ''10'', st_Secret = False,
        st_Purpose = ''per-IP allowance before authentication; meters anonymous and operator traffic'' \<rparr>,
      \<lparr> st_Name = ''RATE_LIMIT_CREDENTIAL_RPS'', st_Consumer = ConsumerProcess, st_Requirement = RequirementOptional,
        st_Default = ''20'', st_Secret = False,
        st_Purpose = ''per-credential allowance '' @ em_dash @ '' the number a machine consumer can actually reach'' \<rparr>,
      \<lparr> st_Name = ''AUDIT_RETENTION_DAYS'', st_Consumer = ConsumerProcess, st_Requirement = RequirementOptional,
        st_Default = ''90'', st_Secret = False,
        st_Purpose = ''how long durable audit history is kept before a daily sweep deletes it'' \<rparr>,
      \<lparr> st_Name = ''METRICS_ENABLED'', st_Consumer = ConsumerProcess, st_Requirement = RequirementOptional,
        st_Default = ''false'', st_Secret = False,
        st_Purpose = ''expose Prometheus metrics at /metrics'' \<rparr>,
      \<lparr> st_Name = ''METRICS_TOKEN'', st_Consumer = ConsumerProcess, st_Requirement = RequirementOptional,
        st_Default = [], st_Secret = True,
        st_Purpose = ''bearer token a scraper must present; empty serves /metrics to loopback only'' \<rparr>,
      \<lparr> st_Name = ''DEV_PLAYGROUND_ENABLED'', st_Consumer = ConsumerProcess, st_Requirement = RequirementDevOnly,
        st_Default = ''false'', st_Secret = False,
        st_Purpose = ''exposes an unauthenticated login playground at /dev/auth. NEVER true in production'' \<rparr>,
      \<lparr> st_Name = ''DEV_PLAYGROUND_CLIENT_ID'', st_Consumer = ConsumerProcess, st_Requirement = RequirementDevOnly,
        st_Default = ''saas-dev-playground'', st_Secret = False,
        st_Purpose = ''client id the playground uses'' \<rparr>,
      \<lparr> st_Name = ''POSTGRES_USER'', st_Consumer = ConsumerCompose, st_Requirement = RequirementRequired,
        st_Default = [], st_Secret = False,
        st_Purpose = ''application database user; compose builds DB_URL from this'' \<rparr>,
      \<lparr> st_Name = ''POSTGRES_PASSWORD'', st_Consumer = ConsumerCompose, st_Requirement = RequirementRequired,
        st_Default = [], st_Secret = True,
        st_Purpose = ''application database password'' \<rparr>,
      \<lparr> st_Name = ''POSTGRES_DB'', st_Consumer = ConsumerCompose, st_Requirement = RequirementRequired,
        st_Default = [], st_Secret = False,
        st_Purpose = ''application database name'' \<rparr>,
      \<lparr> st_Name = ''KC_DB_USER'', st_Consumer = ConsumerCompose, st_Requirement = RequirementOptional,
        st_Default = [], st_Secret = False,
        st_Purpose = ''database user for the bundled dev Keycloak (profile `dev-idp`)'' \<rparr>,
      \<lparr> st_Name = ''KC_DB_PASSWORD'', st_Consumer = ConsumerCompose, st_Requirement = RequirementOptional,
        st_Default = [], st_Secret = True,
        st_Purpose = ''database password for the bundled dev Keycloak'' \<rparr>,
      \<lparr> st_Name = ''KC_DB_NAME'', st_Consumer = ConsumerCompose, st_Requirement = RequirementOptional,
        st_Default = [], st_Secret = False,
        st_Purpose = ''database name for the bundled dev Keycloak'' \<rparr>,
      \<lparr> st_Name = ''KEYCLOAK_ADMIN'', st_Consumer = ConsumerCompose, st_Requirement = RequirementDevOnly,
        st_Default = [], st_Secret = False,
        st_Purpose = ''bootstrap admin username for the bundled dev Keycloak'' \<rparr>,
      \<lparr> st_Name = ''KEYCLOAK_ADMIN_PASSWORD'', st_Consumer = ConsumerCompose, st_Requirement = RequirementDevOnly,
        st_Default = [], st_Secret = True,
        st_Purpose = ''bootstrap admin password for the bundled dev Keycloak'' \<rparr>,
      \<lparr> st_Name = ''KC_HOST_PORT'', st_Consumer = ConsumerCompose, st_Requirement = RequirementOptional,
        st_Default = ''8081'', st_Secret = False,
        st_Purpose = ''host port the bundled dev Keycloak is published on'' \<rparr>,
      \<lparr> st_Name = ''API_HOST_PORT'', st_Consumer = ConsumerCompose, st_Requirement = RequirementOptional,
        st_Default = ''8080'', st_Secret = False,
        st_Purpose = ''host port the API is published on; PORT is the port inside the container'' \<rparr>,
      \<lparr> st_Name = ''POSTGRES_HOST_PORT'', st_Consumer = ConsumerCompose, st_Requirement = RequirementOptional,
        st_Default = ''5432'', st_Secret = False,
        st_Purpose = ''host port the application database is published on; change when 5432 is taken'' \<rparr>,
      \<lparr> st_Name = ''SEED_USER_PASSWORD'', st_Consumer = ConsumerBootstrap, st_Requirement = RequirementDevOnly,
        st_Default = [], st_Secret = True,
        st_Purpose = ''password given to seed users by the bootstrap CLI'' \<rparr>]"

definition Settings :: "setting list" where
  "Settings = sort_key st_Name settings"

definition SettingsFor :: "consumer \<Rightarrow> setting list" where
  "SettingsFor c = filter (\<lambda>s. st_Consumer s = c) Settings"

definition SettingByName :: "string \<Rightarrow> setting option" where
  "SettingByName name = find (\<lambda>s. st_Name s = name) settings"

definition IsSecret :: "string \<Rightarrow> bool" where
  "IsSecret name = (case SettingByName name of Some s \<Rightarrow> st_Secret s | None \<Rightarrow> False)"

definition RequiredProcessVars :: "string list" where
  "RequiredProcessVars = map st_Name
     (filter (\<lambda>s. st_Consumer s = ConsumerProcess \<and> st_Requirement s = RequirementRequired) Settings)"

definition contract_row :: "setting \<Rightarrow> string" where
  "contract_row s =
     ''| `'' @ st_Name s @ ''` | '' @ consumer_text (st_Consumer s) @ '' | '' @
     requirement_text (st_Requirement s) @ '' | '' @
     (if st_Default s = [] then em_dash else st_Default s) @ '' | '' @
     (if st_Secret s then ''yes'' else []) @ '' | '' @ st_Purpose s @ '' |'' @ [CHR 0x0A]"

definition RenderContractTable :: string where
  "RenderContractTable =
     ''| Variable | Consumer | Required | Default | Secret | Purpose |'' @ [CHR 0x0A] @
     ''|---|---|---|---|:--:|---|'' @ [CHR 0x0A] @ concat (map contract_row Settings)"

definition purposeOf :: "string \<Rightarrow> string" where
  "purposeOf name = (case SettingByName name of Some s \<Rightarrow> st_Purpose s | None \<Rightarrow> ''see .env.example'')"

section \<open>Lemmas\<close>

lemma setting_names_distinct: "distinct (map st_Name settings)"
  by code_simp

lemma Settings_set [simp]: "set Settings = set settings"
  by (simp add: Settings_def)

lemma SettingByName_iff: "SettingByName name = Some s \<longleftrightarrow> s \<in> set settings \<and> st_Name s = name"
proof -
  have "distinct (map st_Name xs) \<Longrightarrow> find (\<lambda>s. st_Name s = name) xs = Some s \<longleftrightarrow> s \<in> set xs \<and> st_Name s = name"
    for xs :: "setting list"
    by (induction xs) force+
  from this [OF setting_names_distinct] show ?thesis unfolding SettingByName_def .
qed

lemma RequiredProcessVars_eq:
  "RequiredProcessVars = [''DB_URL'', ''KEYCLOAK_CLIENT_ID'', ''KEYCLOAK_REALM'', ''KEYCLOAK_URL'']"
proof -
  have "map st_Name (sort_key st_Name xs) = sort (map st_Name xs)" for xs :: "setting list"
    by (induction xs) (simp_all add: sort_key_def map_insort_key)
  then have "RequiredProcessVars = sort (map st_Name
      (filter (\<lambda>s. st_Consumer s = ConsumerProcess \<and> st_Requirement s = RequirementRequired) settings))"
    by (simp add: RequiredProcessVars_def Settings_def filter_sort)
  also have "map st_Name
      (filter (\<lambda>s. st_Consumer s = ConsumerProcess \<and> st_Requirement s = RequirementRequired) settings) =
    [''DB_URL'', ''KEYCLOAK_URL'', ''KEYCLOAK_REALM'', ''KEYCLOAK_CLIENT_ID'']"
    by code_simp
  finally show ?thesis by code_simp
qed

end
