(* ===== verification/SecretsCLI.thy ===== *)
theory SecretsCLI
  imports Rotation Config
begin

text \<open>
  \<^verbatim>\<open>internal/connection/secretscli.go\<close>, \<^verbatim>\<open>cmd/secrets\<close> and the census of
  \<^verbatim>\<open>internal/server/keycensus.go\<close>: the command that inspects and rotates the master
  keys, from its arguments to its exit code and what it prints on the two streams.
  The texts of errors other components produce are arguments.

  Lemmas: the exit code means what its documentation says, and status, dry run and
  refused invocations write nothing.
\<close>

record cli_texts =
  ct_run :: "run_error \<Rightarrow> string"
  ct_store :: "go_error \<Rightarrow> string"
  ct_secret :: "secret_error \<Rightarrow> string"
  ct_quote :: "string \<Rightarrow> string"

record cli_result =
  co_code :: int
  co_out :: string
  co_err :: string

section \<open>Printing\<close>

definition newline :: string where "newline = [CHR 0x0A]"

definition printed :: "string list \<Rightarrow> string" where
  "printed ls = concat (map (\<lambda>l. l @ newline) ls)"

definition backquote :: char where "backquote = CHR 0x60"

text \<open>The verbs \<^verbatim>\<open>%-4d\<close> and \<^verbatim>\<open>%6d\<close>, and the bytes of the arrow.\<close>

definition pad_right :: "nat \<Rightarrow> string \<Rightarrow> string" where
  "pad_right n s = s @ replicate (n - length s) CHR '' ''"

definition pad_left :: "nat \<Rightarrow> string \<Rightarrow> string" where
  "pad_left n s = replicate (n - length s) CHR '' '' @ s"

definition left_arrow :: string where "left_arrow = [CHR 0xE2, CHR 0x86, CHR 0x90]"

definition secretsUsage :: string where
  "secretsUsage = printed
     [''Usage: secrets <command> [flags]'',
      [],
      ''Inspect and rotate the master keys sealing provider credentials at rest.'',
      [],
      ''Commands:'',
      ''  status              Report which key versions persisted secrets use, and'',
      ''                      which configured keys are safe to remove.'',
      ''  rotate              Re-seal every persisted secret under the current key.'',
      ''                      Idempotent: rows already current are left untouched.'',
      ''  rotate --dry-run    Report what rotate would do. Reads metadata only; it'',
      ''                      decrypts nothing, so it cannot detect wrong key material.'',
      ''  help                This message.'',
      [],
      ''Environment:'',
      ''  DB_URL              PostgreSQL DSN.'',
      ''  SECRETS_KEYRING     1:<base64>,2:<base64> '' @ em_dash @ '' every key this process can'',
      ''                      decrypt with.'',
      ''  SECRETS_KEY_CURRENT Which of those versions seals new secrets. Optional with'',
      ''                      a single key.'',
      ''  SECRETS_MASTER_KEY  Legacy single key; equivalent to SECRETS_KEYRING=1:<key>.'',
      [],
      ''Exit codes:'',
      ''  0  success (including nothing to do)'',
      ''  1  a row failed to rotate, or a persisted key version is not configured'',
      ''  2  bad invocation or bad configuration'']"

definition joinVersions :: "int list \<Rightarrow> string" where
  "joinVersions vs = Join '', '' (map (\<lambda>v. ''v'' @ FormatInt v) (sort vs))"

definition versionsWithCurrent :: "keyring \<Rightarrow> string" where
  "versionsWithCurrent ring = Join '', '' (map (\<lambda>v. ''v'' @ FormatInt v @
     (if v = kr_current ring then '' (current)'' else [])) (kr_versions ring))"

definition failure_line :: "rotation_failure \<Rightarrow> string" where
  "failure_line f = rf_ConnectionPublicID f @ '' (sealed under v'' @ FormatInt (rf_KeyVersion f) @ ''): '' @ rf_Reason f"

section \<open>The reports\<close>

definition census_line :: "census \<Rightarrow> keyring \<Rightarrow> int \<Rightarrow> string" where
  "census_line c ring v =
     ''  v'' @ pad_right 4 (FormatInt v) @ '' '' @ pad_left 6 (Itoa (census_rows c v)) @
     (if v = kr_current ring then ''  '' @ left_arrow @ '' current''
      else if \<not> kr_Has ring v then ''  '' @ left_arrow @ '' NOT CONFIGURED: these connections cannot be opened''
      else [])"

definition RenderStatus :: "census \<Rightarrow> keyring \<Rightarrow> cli_result" where
  "RenderStatus c ring =
     (let missing = Unopenable c ring; safe = SafeToRemove c ring;
          out = printed
            ([''Keyring versions:  '' @ versionsWithCurrent ring,
              ''Current key:       v'' @ FormatInt (kr_current ring), [],
              ''Persisted connection secrets by key version:''] @
             (if census_total c = 0 then [''  (none)''] else []) @
             map (census_line c ring) (Versions c) @ [[]] @
             (if length safe = 0 then [''Safe to remove:    (none)'']
              else [''Safe to remove:    '' @ joinVersions safe,
                ''                   No persisted secret needs these. Removing them from'',
                ''                   SECRETS_KEYRING is safe '' @ em_dash @ '' AFTER they are out of your backups'' @ [CHR 0x27],
                ''                   recovery window, since an older dump may still need them.'']))
      in if 0 < length missing then
           \<lparr> co_code = 1, co_out = out, co_err = printed
             [[], ''PROBLEM: '' @ Itoa (length missing) @
                '' key version(s) used by persisted secrets are not configured: '' @ joinVersions missing,
              ''Those connections cannot be opened, so the workspaces routing through them'',
              ''will answer credentials_unavailable. Restore the key material into'',
              ''SECRETS_KEYRING and re-run `secrets rotate`.''] \<rparr>
         else \<lparr> co_code = 0, co_out = out, co_err = [] \<rparr>)"

definition RenderPlan :: "rotation_plan \<Rightarrow> cli_result" where
  "RenderPlan plan =
     \<lparr> co_code = (if 0 < pl_Blocked plan then 1 else 0),
       co_out = printed
         ([''Dry run. Nothing was decrypted and nothing was written.'', [],
           ''Current key:       v'' @ FormatInt (pl_Current plan),
           ''Total secrets:     '' @ Itoa (census_total (pl_Census plan)),
           ''Already current:   '' @ Itoa (pl_AlreadyCurrent plan),
           ''Would rotate:      '' @ FormatInt (int (pl_NeedRotation plan) - int (pl_Blocked plan))] @
          (if 0 < pl_Blocked plan then
             [''Blocked:           '' @ Itoa (pl_Blocked plan) @ '' (key versions '' @
              joinVersions (pl_MissingVersions plan) @ '' are not configured)''] else []) @
          [[], ''A dry run reads the stored key VERSION of each row and nothing else. It'',
           ''cannot tell you that the key configured for a version is the right one '' @ em_dash,
           ''proving that means running AES-GCM over the row, which is the real run.'']),
       co_err = [] \<rparr>"

definition RenderRotation :: "cli_texts \<Rightarrow> rotation_report \<Rightarrow> int \<Rightarrow> run_error option \<Rightarrow> cli_result" where
  "RenderRotation tx rep current runErr =
     \<lparr> co_code = (if runErr \<noteq> None then 1 else if \<not> rp_Complete rep then 1 else 0),
       co_out = printed
         [''Current key:       v'' @ FormatInt current,
          ''total:             '' @ Itoa (rp_Total rep),
          ''already_current:   '' @ Itoa (rp_AlreadyCurrent rep),
          ''rotated:           '' @ Itoa (rp_Rotated rep),
          ''failed:            '' @ Itoa (length (rp_Failures rep))],
       co_err = printed
         ((if 0 < length (rp_Failures rep) then
             [[], ''These connections were NOT rotated and still hold their previous ciphertext:''] @
             map (\<lambda>f. ''  '' @ failure_line f) (rp_Failures rep) @
             [[], ''  missing_key_version '' @ em_dash @ '' the key for that version is not in SECRETS_KEYRING.'',
              ''                        Restore it and re-run; rotated rows are skipped.'',
              ''  cannot_open         '' @ em_dash @ '' the configured key does not open the row. Wrong key'',
              ''                        material for that version, or the row was altered.'']
           else []) @
          (case runErr of None \<Rightarrow> []
           | Some e \<Rightarrow> [[], ''run did not finish: '' @ ct_run tx e,
               ''Rows already rotated are committed. Re-run to resume.''])) \<rparr>"

section \<open>The command\<close>

record cli_deps =
  sd_DB :: bool
  sd_Keyring :: "keyring option"
  sd_Configured :: bool
  sd_ConfigError :: "keyring_failure option"

definition keyring_failure_text :: "cli_texts \<Rightarrow> keyring_failure \<Rightarrow> string" where
  "keyring_failure_text tx e = (case e of ConfigFailure s \<Rightarrow> s | KeyringFailure s \<Rightarrow> ct_secret tx s)"

definition NewRotator :: "bool \<Rightarrow> keyring option \<Rightarrow> keyring option" where
  "NewRotator db ring = (if \<not> db \<or> ring = None then None else ring)"

definition invocation :: "string \<Rightarrow> cli_result" where
  "invocation msg = \<lparr> co_code = 2, co_out = [], co_err = msg \<rparr>"

fun parse_flags :: "cli_texts \<Rightarrow> string \<Rightarrow> string list \<Rightarrow> bool \<Rightarrow> cli_result + bool" where
  "parse_flags tx command [] dryRun = Inr dryRun"
| "parse_flags tx command (flag # flags) dryRun =
     (if flag = ''--dry-run'' then
        if command \<noteq> ''rotate''
        then Inl (invocation (printed [''--dry-run applies to `rotate`, not to '' @ Quote (ct_quote tx) command]))
        else parse_flags tx command flags True
      else Inl (invocation (printed [''unknown flag '' @ Quote (ct_quote tx) flag, []] @ secretsUsage)))"

definition secretsStatus :: "cli_texts \<Rightarrow> keyring \<Rightarrow> world \<Rightarrow> cli_result \<times> world" where
  "secretsStatus tx ring w =
     (case Census w of
        (Inl e, w') \<Rightarrow> (\<lparr> co_code = 1, co_out = [], co_err = printed [''error: '' @ ct_store tx e] \<rparr>, w')
      | (Inr c, w') \<Rightarrow> (RenderStatus c ring, w'))"

definition secretsDryRun :: "cli_texts \<Rightarrow> keyring \<Rightarrow> world \<Rightarrow> cli_result \<times> world" where
  "secretsDryRun tx ring w =
     (case Plan ring w of
        (Inl e, w') \<Rightarrow> (\<lparr> co_code = 1, co_out = [], co_err = printed [''error: '' @ ct_store tx e] \<rparr>, w')
      | (Inr p, w') \<Rightarrow> (RenderPlan p, w'))"

definition secretsRotate :: "cli_texts \<Rightarrow> rot_env \<Rightarrow> world \<Rightarrow> cli_result \<times> world" where
  "secretsRotate tx ro w =
     (case Rotate ro w of
        ((rep, err), w') \<Rightarrow> (RenderRotation tx rep (kr_current (ro_ring ro)) err, w'))"

text \<open>The checks of the configuration, in their order.\<close>

definition checked_deps :: "cli_texts \<Rightarrow> cli_deps \<Rightarrow> cli_result + keyring" where
  "checked_deps tx deps =
     (case sd_ConfigError deps of
        Some e \<Rightarrow> Inl (invocation (printed [''configuration: '' @ keyring_failure_text tx e]))
      | None \<Rightarrow>
          if \<not> sd_Configured deps \<or> sd_Keyring deps = None then
            Inl (invocation (printed [''no secret keyring configured '' @ em_dash @
              '' set SECRETS_KEYRING (or the legacy SECRETS_MASTER_KEY). Without one there are '' @
              ''no sealed credentials to rotate.'']))
          else if \<not> sd_DB deps then Inl (invocation (printed [''DB_URL is not set'']))
          else case NewRotator (sd_DB deps) (sd_Keyring deps) of
            None \<Rightarrow> Inl (invocation (printed [''cannot build a rotator from the given database and keyring'']))
          | Some ring \<Rightarrow> Inr ring)"

text \<open>\<open>ro\<close> gives the cipher, the nonces and the cancellation; its keyring is the one
  of the invocation.\<close>

definition RunSecretsCLI ::
  "cli_texts \<Rightarrow> rot_env \<Rightarrow> string list \<Rightarrow> cli_deps \<Rightarrow> world \<Rightarrow> cli_result \<times> world" where
  "RunSecretsCLI tx ro args deps w =
     (case args of
        [] \<Rightarrow> (invocation secretsUsage, w)
      | command # flags \<Rightarrow>
          if command \<in> set [''help'', ''-h'', ''--help''] then
            (\<lparr> co_code = 0, co_out = secretsUsage, co_err = [] \<rparr>, w)
          else if command \<notin> set [''status'', ''rotate''] then
            (invocation (printed [''unknown command '' @ Quote (ct_quote tx) command, []] @ secretsUsage), w)
          else case parse_flags tx command flags False of
            Inl r \<Rightarrow> (r, w)
          | Inr dryRun \<Rightarrow>
              (case checked_deps tx deps of
                 Inl r \<Rightarrow> (r, w)
               | Inr ring \<Rightarrow>
                   if command = ''status'' then secretsStatus tx ring w
                   else if dryRun then secretsDryRun tx ring w
                   else secretsRotate tx (ro\<lparr> ro_ring := ring \<rparr>) w))"

text \<open>\<^verbatim>\<open>main\<close> of \<^verbatim>\<open>cmd/secrets\<close>: the keyring of the environment, the database only when
  there is one, then the command. A database that does not connect ends the process
  with 2.\<close>

definition cli_environment :: "golib \<Rightarrow> environment \<Rightarrow> cli_deps" where
  "cli_environment L env =
     (let deps = \<lparr> sd_DB = False, sd_Keyring = None, sd_Configured = False, sd_ConfigError = None \<rparr> in
      case LoadSecretsKeyring L env of
        Inl e \<Rightarrow> deps\<lparr> sd_ConfigError := Some (ConfigFailure e) \<rparr>
      | Inr kc \<Rightarrow>
          if Configured kc then
            (case NewKeyringFromBase64 (gl_Base64 L) (kc_Keys kc) (kc_Current kc) of
               Inl e \<Rightarrow> deps\<lparr> sd_ConfigError := Some (KeyringFailure e) \<rparr>
             | Inr ring \<Rightarrow> deps\<lparr> sd_Keyring := Some ring, sd_Configured := True \<rparr>)
          else deps)"

definition secrets_main ::
  "golib \<Rightarrow> (string \<Rightarrow> string option) \<Rightarrow> cli_texts \<Rightarrow> rot_env \<Rightarrow> environment \<Rightarrow> string list \<Rightarrow> world \<Rightarrow>
   cli_result \<times> world" where
  "secrets_main L connect tx ro env args w =
     (let deps = cli_environment L env; dsn = getEnv env ''DB_URL'' [] in
      if sd_ConfigError deps = None \<and> sd_Configured deps then
        if dsn = [] then RunSecretsCLI tx ro args deps w
        else case connect dsn of
          Some e \<Rightarrow> (invocation (printed [''database: '' @ e]), w)
        | None \<Rightarrow> RunSecretsCLI tx ro args (deps\<lparr> sd_DB := True \<rparr>) w
      else RunSecretsCLI tx ro args deps w)"

section \<open>Lemmas\<close>

lemma invocation_code [simp]: "co_code (invocation m) = 2"
  by (simp add: invocation_def)

lemma RenderPlan_code: "co_code (RenderPlan p) \<in> {0, 1}"
  by (simp add: RenderPlan_def)

lemma parse_flags_Inl: "parse_flags tx command flags d = Inl r \<Longrightarrow> co_code r = 2"
  by (induction flags arbitrary: d) (auto split: if_splits)

lemma parse_flags_Inr:
  "parse_flags tx command flags d = Inr d' \<Longrightarrow>
     set flags \<subseteq> {''--dry-run''} \<and> (flags \<noteq> [] \<longrightarrow> command = ''rotate'') \<and> (d' \<longleftrightarrow> d \<or> flags \<noteq> [])"
  by (induction flags arbitrary: d) (auto split: if_splits)

lemma checked_deps_Inl: "checked_deps tx deps = Inl r \<Longrightarrow> co_code r = 2"
  by (auto simp: checked_deps_def split: option.splits if_splits)

lemma checked_deps_Inr: "checked_deps tx deps = Inr ring \<Longrightarrow> sd_Keyring deps = Some ring"
  by (auto simp: checked_deps_def NewRotator_def split: option.splits if_splits)

lemma secretsStatus_cases:
  assumes "secretsStatus tx ring w = (r, w')"
  shows "w_db w' = w_db w \<and> co_code r \<in> {0, 1} \<and>
    (co_code r = 0 \<longrightarrow> (\<forall>q \<in> set (db_connections (w_db w)). kr_Has ring (row_version q)))"
proof (cases "Census w")
  case (Pair a w1)
  show ?thesis
  proof (cases a)
    case (Inl e)
    with Pair assms query_db [OF Pair [unfolded Census_def]] show ?thesis by (auto simp: secretsStatus_def)
  next
    case (Inr c)
    with Census_Inr Pair have c: "c = group_versions (db_connections (w_db w))" "w_db w1 = w_db w" by auto
    have r: "r = RenderStatus c ring" "w' = w1" using assms Pair Inr by (simp_all add: secretsStatus_def)
    have "Unopenable c ring = [] \<longleftrightarrow> (\<forall>q \<in> set (db_connections (w_db w)). kr_Has ring (row_version q))"
      unfolding Unopenable_def c(1) filter_empty_conv Versions_group(1) by auto
    then show ?thesis using c r by (simp add: RenderStatus_def Let_def)
  qed
qed

lemma secretsDryRun_cases:
  assumes "secretsDryRun tx ring w = (r, w')"
  shows "w_db w' = w_db w \<and> co_code r \<in> {0, 1}"
proof (cases "Census w")
  case (Pair a w1)
  from assms Pair query_db [OF Pair [unfolded Census_def]] RenderPlan_code show ?thesis
    by (cases a) (auto simp: secretsDryRun_def Plan_def andThen_def ret_def)
qed

text \<open>What an invocation does is decided before the database is touched.\<close>

lemma RunSecretsCLI_cases:
  assumes "RunSecretsCLI tx ro args deps w = (r, w')"
  obtains (refused) "co_code r = 2" and "w' = w"
  | (usage) "co_code r = 0" and "w' = w" and "hd args \<in> {''help'', ''-h'', ''--help''}"
  | (status) ring where "sd_Keyring deps = Some ring" and "args = [''status'']" and "secretsStatus tx ring w = (r, w')"
  | (dry) ring where "sd_Keyring deps = Some ring" and "hd args = ''rotate''" and "''--dry-run'' \<in> set args"
    and "secretsDryRun tx ring w = (r, w')"
  | (rotate) ring where "sd_Keyring deps = Some ring" and "args = [''rotate'']"
    and "secretsRotate tx (ro\<lparr> ro_ring := ring \<rparr>) w = (r, w')"
proof (cases args)
  case Nil
  with assms show thesis by (intro refused) (auto simp: RunSecretsCLI_def)
next
  case (Cons command flags)
  note run = assms [unfolded RunSecretsCLI_def Cons list.case]
  show thesis
  proof (cases "command \<in> set [''help'', ''-h'', ''--help'']")
    case True
    with run have "r = \<lparr> co_code = 0, co_out = secretsUsage, co_err = [] \<rparr>" "w' = w" by simp_all
    with True Cons show thesis by (intro usage) simp_all
  next
    case no_help: False
    show thesis
    proof (cases "command \<in> set [''status'', ''rotate'']")
      case False
      with run no_help show thesis by (intro refused) auto
    next
      case command: True
      show thesis
      proof (cases "parse_flags tx command flags False")
        case (Inl r1)
        with run no_help command parse_flags_Inl [OF Inl] show thesis by (intro refused) simp_all
      next
        case flags: (Inr dryRun)
        note f = parse_flags_Inr [OF flags]
        show thesis
        proof (cases "checked_deps tx deps")
          case (Inl r1)
          with run no_help command flags checked_deps_Inl [OF Inl] show thesis by (intro refused) simp_all
        next
          case (Inr ring)
          note k = checked_deps_Inr [OF Inr]
          have go: "(if command = ''status'' then secretsStatus tx ring w
              else if dryRun then secretsDryRun tx ring w
              else secretsRotate tx (ro\<lparr> ro_ring := ring \<rparr>) w) = (r, w')"
            using run no_help command flags Inr by simp
          show thesis
          proof (cases "command = ''status''")
            case True
            with f have "flags = []" by auto
            with go True k Cons show thesis by (intro status [of ring]) simp_all
          next
            case False
            with command have c: "command = ''rotate''" by simp
            show thesis
            proof (cases dryRun)
              case True
              with f have "''--dry-run'' \<in> set flags" by (cases flags) auto
              with go True c k Cons show thesis by (intro dry [of ring]) simp_all
            next
              case False
              with f have "flags = []" by simp
              with go False c k Cons show thesis by (intro rotate [of ring]) simp_all
            qed
          qed
        qed
      qed
    qed
  qed
qed

lemma secretsRotate_code:
  assumes "secretsRotate tx ro w = (r, w')"
  obtains rep err where "Rotate ro w = ((rep, err), w')" and
    "co_code r = (if err \<noteq> None \<or> \<not> rp_Complete rep then 1 else 0)"
  using assms by (cases "Rotate ro w") (auto simp: secretsRotate_def RenderRotation_def)

text \<open>The keyring of the command is the keyring of the server.\<close>

lemma cli_keyring:
  assumes "LoadConfig L env = Inr c" and "buildKeyring L c = Inr k"
  shows "cli_environment L env =
    \<lparr> sd_DB = False, sd_Keyring = k, sd_Configured = (k \<noteq> None), sd_ConfigError = None \<rparr>"
proof -
  from assms(1) have "Keyring L c = LoadSecretsKeyring L env"
    by (simp add: LoadConfig_Inr Keyring_environment)
  with assms(2) show ?thesis
    by (auto simp: buildKeyring_def cli_environment_def Let_def split: sum.splits if_splits)
qed

section \<open>Properties\<close>

text \<open>C22: the exit codes of the command mean what its documentation says. A 2 is an
  invocation or a configuration that was refused: nothing was asked of the database.
  Only \<^verbatim>\<open>rotate\<close> without \<^verbatim>\<open>--dry-run\<close> writes, and whatever it exits with, every secret
  that could be opened still opens to the same plaintext and no other column moved.
  After \<^verbatim>\<open>rotate\<close> exits with 0 every stored secret is under the current key; when
  \<^verbatim>\<open>status\<close> exits with 0 the keyring holds a key for every stored secret.\<close>

theorem secrets_cli_exit_codes:
  assumes "RunSecretsCLI tx ro args deps w = (r, w')" and "sd_Keyring deps = Some ring"
    and "nonces_ok (ro\<lparr> ro_ring := ring \<rparr>)" and "distinct_ids w"
  shows "co_code r \<in> {0, 1, 2} \<and> (co_code r = 2 \<longrightarrow> w' = w) \<and>
    (args \<noteq> [''rotate''] \<longrightarrow> w_db w' = w_db w) \<and>
    list_all2 (resealed (ro_aead ro) ring) (db_connections (w_db w)) (db_connections (w_db w')) \<and>
    w_db w' = (w_db w)\<lparr> db_connections := db_connections (w_db w') \<rparr> \<and>
    (args = [''rotate''] \<and> co_code r = 0 \<longrightarrow>
      list_all (\<lambda>q. row_version q = kr_current ring) (db_connections (w_db w'))) \<and>
    (args = [''status''] \<and> co_code r = 0 \<longrightarrow>
      list_all (\<lambda>q. kr_Has ring (row_version q)) (db_connections (w_db w')))"
  using assms(1)
proof (cases rule: RunSecretsCLI_cases)
  case refused
  then show ?thesis by (simp add: list_all2_refl resealed_refl)
next
  case usage
  then show ?thesis by (auto simp: list_all2_refl resealed_refl)
next
  case (status ring')
  then have ring: "ring' = ring" using assms(2) by simp
  note s = secretsStatus_cases [OF status(3), unfolded ring]
  have code: "co_code r \<in> {0, 1}" and db: "w_db w' = w_db w"
    by (rule s [THEN conjunct2, THEN conjunct1], rule s [THEN conjunct1])
  from code have "co_code r \<in> {0, 1, 2}" "co_code r \<noteq> 2" by auto
  moreover have "list_all (\<lambda>q. kr_Has ring (row_version q)) (db_connections (w_db w'))" if "co_code r = 0"
    unfolding list_all_iff db using s [THEN conjunct2, THEN conjunct2] that by (rule mp)
  moreover have "args \<noteq> [''rotate'']" using status(2) by simp
  ultimately show ?thesis by (simp add: db list_all2_refl resealed_refl)
next
  case (dry ring')
  from dry(3) have "args \<noteq> [''rotate'']" "args \<noteq> [''status'']" by auto
  moreover note s = secretsDryRun_cases [OF dry(4)]
  from s [THEN conjunct2] have "co_code r \<in> {0, 1, 2}" "co_code r \<noteq> 2" by auto
  ultimately show ?thesis by (simp add: s [THEN conjunct1] list_all2_refl resealed_refl)
next
  case (rotate ring')
  then have ring: "ring' = ring" using assms(2) by simp
  from rotate(3) obtain rep err where run: "Rotate (ro\<lparr> ro_ring := ring \<rparr>) w = ((rep, err), w')"
    and code: "co_code r = (if err \<noteq> None \<or> \<not> rp_Complete rep then 1 else 0)"
    unfolding ring by (rule secretsRotate_code)
  have step: "list_all2 (resealed (ro_aead ro) ring) (db_connections (w_db w)) (db_connections (w_db w'))"
    "w_db w' = (w_db w)\<lparr> db_connections := db_connections (w_db w') \<rparr>"
    using Rotate_step [OF assms(3,4) run] by simp_all
  from code have c: "co_code r \<in> {0, 1}" by simp
  have cur: "list_all (\<lambda>q. row_version q = kr_current ring) (db_connections (w_db w'))" if "co_code r = 0"
  proof -
    from that code have "err = None" "rp_Complete rep" by (auto split: if_splits)
    with rotation_complete [OF assms(3,4), of rep w'] run show ?thesis by simp
  qed
  have "args = [''rotate'']" by (fact rotate(2))
  moreover from this have "args \<noteq> [''status'']" by simp
  moreover have "co_code r \<in> {0, 1, 2}" "co_code r \<noteq> 2" using c by auto
  ultimately show ?thesis using step cur by blast
qed

section \<open>Examples\<close>

definition demo_texts :: cli_texts where
  "demo_texts = \<lparr> ct_run = (\<lambda>_. ''run''), ct_store = (\<lambda>_. ''store''), ct_secret = (\<lambda>_. ''secret''), ct_quote = id \<rparr>"

definition demo_cli_deps :: cli_deps where
  "demo_cli_deps = \<lparr> sd_DB = True, sd_Keyring = Some demo_keyring', sd_Configured = True, sd_ConfigError = None \<rparr>"

theorem secrets_cli_exit_codes_witness:
  "co_code (fst (RunSecretsCLI demo_texts demo_rot_env [''rotate''] demo_cli_deps demo_cn_world)) = 0 \<and>
   list_all (\<lambda>q. row_version q = 2)
     (db_connections (w_db (snd (RunSecretsCLI demo_texts demo_rot_env [''rotate''] demo_cli_deps demo_cn_world))))"
proof -
  obtain r w' where run: "RunSecretsCLI demo_texts demo_rot_env [''rotate''] demo_cli_deps demo_cn_world = (r, w')"
    by (cases "RunSecretsCLI demo_texts demo_rot_env [''rotate''] demo_cli_deps demo_cn_world")
  have env: "demo_rot_env\<lparr> ro_ring := demo_keyring' \<rparr> = demo_rot_env" by (simp add: demo_rot_env_def)
  have k: "sd_Keyring demo_cli_deps = Some demo_keyring'" by (simp add: demo_cli_deps_def)
  have "RunSecretsCLI demo_texts demo_rot_env [''rotate''] demo_cli_deps demo_cn_world =
    secretsRotate demo_texts demo_rot_env demo_cn_world"
    by (simp add: RunSecretsCLI_def checked_deps_def demo_cli_deps_def NewRotator_def env)
  with run have rotate: "secretsRotate demo_texts demo_rot_env demo_cn_world = (r, w')" by simp
  obtain rep err where rot: "Rotate demo_rot_env demo_cn_world = ((rep, err), w')"
    and code: "co_code r = (if err \<noteq> None \<or> \<not> rp_Complete rep then 1 else 0)"
    by (rule secretsRotate_code [OF rotate])
  from rot demo_rotated have "err = None" "rp_Complete rep" by (simp_all add: demo_rotated_def rp_Complete_def)
  with code have "co_code r = 0" by simp
  have "nonces_ok (demo_rot_env\<lparr> ro_ring := demo_keyring' \<rparr>)" unfolding env by (rule demo_rot_ok(1))
  note res = secrets_cli_exit_codes [OF run k this demo_rot_ok(2)]
  have "kr_current demo_keyring' = 2" by (rule NewKeyring_Inr(2) [OF demo_keyrings(2)])
  moreover have "list_all (\<lambda>q. row_version q = kr_current demo_keyring') (db_connections (w_db w'))"
    using res \<open>co_code r = 0\<close> by blast
  ultimately show ?thesis using \<open>co_code r = 0\<close> by (simp add: run)
qed

end
