(* ===== verification/AdminSettings.thy ===== *)
theory AdminSettings
  imports KeycloakFlows RateLimit ConfigKeys IdentityRuntime
begin

text \<open>
  The \<^verbatim>\<open>/admin\<close> routes that talk to the provider without the identity service:
  \<^verbatim>\<open>internal/server/smtp_handler.go\<close> (the mail settings of the realm, their test,
  provisioning with a temporary password) and
  \<^verbatim>\<open>internal/server/email_templates_handler.go\<close>. A handler takes the state of the
  Keycloak client to its answer and the state after; a body has been decoded, \<open>Inl msg\<close>
  is what the decoder complained about. The mail server is an argument: the error, if
  any, of each step after the steps before it. None of these handlers records an audit
  event.

  Lemmas: the stored mail password is never shown and survives saving what was shown;
  only the six known message keys reach Keycloak; what a refusal leaves alone.
\<close>

datatype template_kind = TextTemplate | HtmlTemplate

record template_def =
  td_Key :: string
  td_Label :: string
  td_Description :: string
  td_Kind :: template_kind

record template_entry =
  te_Def :: template_def
  te_Value :: string
  te_Override :: bool

datatype settings_payload =
    SpSMTP smtp_config
  | SpOk
  | SpNotOk string
  | SpUser idp_user
  | SpTemplates "template_entry list" string

datatype settings_reply = SrError nat string | SrJSON nat settings_payload

type_synonym settings_step = "client_world \<Rightarrow> settings_reply \<times> client_world"

record settings_env =
  se_provider :: kc_provider
  se_text :: "provider_error \<Rightarrow> string"
  se_lower :: "string \<Rightarrow> string"

definition bind_settings :: "string + 'q \<Rightarrow> ('q \<Rightarrow> settings_step) \<Rightarrow> settings_step" where
  "bind_settings b f w = (case b of Inl msg \<Rightarrow> (SrError 400 (''invalid body: '' @ msg), w) | Inr q \<Rightarrow> f q w)"

section \<open>Mail settings\<close>

text \<open>Eight bullets, as UTF-8.\<close>

definition password_placeholder :: string where
  "password_placeholder = concat (replicate 8 [CHR 0xE2, CHR 0x80, CHR 0xA2])"


text \<open>The placeholder stands for the stored password.\<close>

definition with_stored_password ::
  "settings_env \<Rightarrow> string \<Rightarrow> smtp_config \<Rightarrow> (smtp_config \<Rightarrow> settings_step) \<Rightarrow> settings_step" where
  "with_stored_password h why body k w =
     (if sm_Password body = password_placeholder then
        (case kp_GetSMTPConfig (se_provider h) w of
           (Inl e, w1) \<Rightarrow> (SrError 502 (why @ se_text h e), w1)
         | (Inr current, w1) \<Rightarrow> k (body\<lparr> sm_Password := sm_Password current \<rparr>) w1)
      else k body w)"


text \<open>The connection test. A step's error depends on the steps before it; asking for
  the STARTTLS extension fails when it is not offered.\<close>

datatype smtp_step =
    DialTCP string
  | HandshakeTLS string
  | CloseConn
  | Greet string
  | AskStartTLS
  | UpgradeTLS string
  | AuthPlain string string
  | QuitSMTP

type_synonym smtp_net = "smtp_step list \<Rightarrow> smtp_step \<Rightarrow> string option"

definition EqualFold_true :: "string \<Rightarrow> bool" where
  "EqualFold_true s \<longleftrightarrow> map (\<lambda>c. if is_upper c then char_of (of_char c + (32 :: nat)) else c) s = ''true''"

definition JoinHostPort :: "string \<Rightarrow> string \<Rightarrow> string" where
  "JoinHostPort host port =
     (if CHR '':'' \<in> set host \<or> CHR ''%'' \<in> set host then ''['' @ host @ '']:'' @ port else host @ '':'' @ port)"

definition smtp_session :: "smtp_net \<Rightarrow> smtp_config \<Rightarrow> string \<Rightarrow> smtp_step list \<Rightarrow> string option \<times> smtp_step list" where
  "smtp_session net cfg host done =
     (let useSSL = EqualFold_true (sm_SSL cfg); done = done @ [Greet host] in
      case net (butlast done) (Greet host) of
        Some e \<Rightarrow> (Some (''smtp handshake: '' @ e), done @ [CloseConn])
      | None \<Rightarrow>
          (let ask = EqualFold_true (sm_StartTLS cfg) \<and> \<not> useSSL;
               offered = ask \<and> net done AskStartTLS = None;
               done1 = done @ (if ask then [AskStartTLS] else []);
               tls = (if offered then net done1 (UpgradeTLS host) else None);
               done2 = done1 @ (if offered then [UpgradeTLS host] else [])
           in case tls of
             Some e \<Rightarrow> (Some (''starttls: '' @ e), done2 @ [QuitSMTP])
           | None \<Rightarrow>
               if EqualFold_true (sm_Auth cfg) \<and> sm_User cfg \<noteq> [] \<and> sm_Password cfg \<noteq> [] then
                 (let auth = AuthPlain (sm_User cfg) (sm_Password cfg) in
                  (map_option (\<lambda>e. ''smtp auth: '' @ e) (net done2 auth), done2 @ [auth, QuitSMTP]))
               else (None, done2 @ [QuitSMTP])))"

definition dialSMTP :: "smtp_net \<Rightarrow> string \<Rightarrow> smtp_config \<Rightarrow> string option \<times> smtp_step list" where
  "dialSMTP net addr cfg =
     (let host = (case split_host addr of None \<Rightarrow> [] | Some h \<Rightarrow> h) in
      case net [] (DialTCP addr) of
        Some e \<Rightarrow> (Some (''tcp connect to '' @ addr @ '': '' @ e), [DialTCP addr])
      | None \<Rightarrow>
          if EqualFold_true (sm_SSL cfg) then
            (case net [DialTCP addr] (HandshakeTLS host) of
               Some e \<Rightarrow> (Some (''tls handshake: '' @ e), [DialTCP addr, HandshakeTLS host, CloseConn])
             | None \<Rightarrow> smtp_session net cfg host [DialTCP addr, HandshakeTLS host])
          else smtp_session net cfg host [DialTCP addr])"

definition st_TestSMTP :: "settings_env \<Rightarrow> smtp_net \<Rightarrow> string + smtp_config \<Rightarrow> settings_step" where
  "st_TestSMTP h net body = bind_settings body (\<lambda>body.
     with_stored_password h ''could not fetch stored smtp config: '' body (\<lambda>body w.
       if sm_Host body = [] then (SrError 400 ''host is required'', w)
       else let port = (if sm_Port body = [] then ''587'' else sm_Port body) in
         (case fst (dialSMTP net (JoinHostPort (sm_Host body) port) body) of
            Some e \<Rightarrow> (SrJSON 200 (SpNotOk e), w)
          | None \<Rightarrow> (SrJSON 200 SpOk, w))))"

section \<open>Provisioning\<close>

definition st_CreateUserWithPassword :: "settings_env \<Rightarrow> string + create_user_request \<Rightarrow> settings_step" where
  "st_CreateUserWithPassword h body = bind_settings body (\<lambda>body w.
     if cur_Email body = [] \<or> cur_TemporaryPassword body = []
     then (SrError 400 ''email and temporary_password are required'', w)
     else if length (cur_TemporaryPassword body) < 8
     then (SrError 400 ''temporary_password must be at least 8 characters'', w)
     else case kp_CreateUserWithPassword (se_provider h) body w of
         (Inl e, w1) \<Rightarrow>
           (let msg = se_text h e in
            if contains ''409'' msg \<or> contains ''conflict'' (to_lower (se_lower h) msg)
            then (SrError 409 ''a user with that email already exists'', w1)
            else (SrError 502 (''keycloak: '' @ msg), w1))
       | (Inr user, w1) \<Rightarrow> (SrJSON 201 (SpUser user), w1))"

section \<open>E-mail templates\<close>

definition emailTemplatesLocale :: string where "emailTemplatesLocale = ''en''"

definition usuario :: string where "usuario = ''usu'' @ [CHR 0xC3, CHR 0xA1] @ ''rio''"
definition verificacao :: string where "verificacao = ''Verifica'' @ [CHR 0xC3, CHR 0xA7, CHR 0xC3, CHR 0xA3] @ ''o''"
definition endereco :: string where "endereco = ''endere'' @ [CHR 0xC3, CHR 0xA7] @ ''o''"
definition preserve :: string where "preserve = '' Preserve: ${link}, ${realmName}, ${user.firstName}.''"

definition knownTemplates :: "template_def list" where
  "knownTemplates =
    [\<lparr> td_Key = ''executeActionsEmailSubject'', td_Label = ''Convite '' @ em_dash @ '' Assunto'',
       td_Description = ''Assunto do email enviado quando um '' @ usuario @ '' '' @ [CHR 0xC3, CHR 0xA9] @ '' convidado.'',
       td_Kind = TextTemplate \<rparr>,
     \<lparr> td_Key = ''executeActionsEmailBodyHtml'', td_Label = ''Convite '' @ em_dash @ '' Corpo (HTML)'',
       td_Description = ''Corpo HTML do email de convite.'' @ preserve, td_Kind = HtmlTemplate \<rparr>,
     \<lparr> td_Key = ''passwordResetSubject'', td_Label = ''Reset de Senha '' @ em_dash @ '' Assunto'',
       td_Description = ''Assunto do email de reset de senha.'', td_Kind = TextTemplate \<rparr>,
     \<lparr> td_Key = ''passwordResetBodyHtml'', td_Label = ''Reset de Senha '' @ em_dash @ '' Corpo (HTML)'',
       td_Description = ''Corpo HTML do email de reset de senha.'' @ preserve, td_Kind = HtmlTemplate \<rparr>,
     \<lparr> td_Key = ''emailVerificationSubject'', td_Label = verificacao @ '' de Email '' @ em_dash @ '' Assunto'',
       td_Description = ''Assunto do email de verifica'' @ drop 8 verificacao @ '' de '' @ endereco @ ''.'',
       td_Kind = TextTemplate \<rparr>,
     \<lparr> td_Key = ''emailVerificationBodyHtml'', td_Label = verificacao @ '' de Email '' @ em_dash @ '' Corpo (HTML)'',
       td_Description = ''Corpo HTML do email de verifica'' @ drop 8 verificacao @ ''.'' @ preserve, td_Kind = HtmlTemplate \<rparr>]"

definition isKnownTemplateKey :: "string \<Rightarrow> bool" where
  "isKnownTemplateKey key = list_ex (\<lambda>t. td_Key t = key) knownTemplates"

definition st_GetEmailTemplates :: "settings_env \<Rightarrow> settings_step" where
  "st_GetEmailTemplates h w =
     (case kp_GetLocalization (se_provider h) emailTemplatesLocale w of
        (Inl e, w1) \<Rightarrow> (SrError 502 (''keycloak unreachable: '' @ se_text h e), w1)
      | (Inr overrides, w1) \<Rightarrow>
          (SrJSON 200 (SpTemplates
             (map (\<lambda>t. \<lparr> te_Def = t,
                te_Value = (case map_of overrides (td_Key t) of None \<Rightarrow> [] | Some v \<Rightarrow> v),
                te_Override = (map_of overrides (td_Key t) \<noteq> None) \<rparr>) knownTemplates)
             emailTemplatesLocale), w1))"

definition st_UpdateEmailTemplate :: "settings_env \<Rightarrow> string \<Rightarrow> string + string \<Rightarrow> settings_step" where
  "st_UpdateEmailTemplate h key body w =
     (if \<not> isKnownTemplateKey key then (SrError 400 (''unknown template key: '' @ key), w)
      else bind_settings body (\<lambda>val w.
        (let w1 = snd (kp_EnableInternationalizationIfNeeded (se_provider h) w) in
         case kp_SetLocalizationKey (se_provider h) emailTemplatesLocale key val w1 of
           (Inl e, w2) \<Rightarrow> (SrError 502 (''keycloak: '' @ se_text h e), w2)
         | (Inr _, w2) \<Rightarrow> (SrJSON 200 SpOk, w2))) w)"

definition st_ResetEmailTemplate :: "settings_env \<Rightarrow> string \<Rightarrow> settings_step" where
  "st_ResetEmailTemplate h key w =
     (if \<not> isKnownTemplateKey key then (SrError 400 (''unknown template key: '' @ key), w)
      else case kp_DeleteLocalizationKey (se_provider h) emailTemplatesLocale key w of
          (Inl e, w1) \<Rightarrow> if errors_Is e SNotFound then (SrJSON 200 SpOk, w1)
             else (SrError 502 (''keycloak: '' @ se_text h e), w1)
        | (Inr _, w1) \<Rightarrow> (SrJSON 200 SpOk, w1))"

section \<open>What a refusal leaves alone\<close>

lemma unknown_template_refused:
  assumes "\<not> isKnownTemplateKey key"
  shows "st_UpdateEmailTemplate h key body w = (SrError 400 (''unknown template key: '' @ key), w)"
    and "st_ResetEmailTemplate h key w = (SrError 400 (''unknown template key: '' @ key), w)"
  using assms by (simp_all add: st_UpdateEmailTemplate_def st_ResetEmailTemplate_def)

lemma short_password_refused:
  "length (cur_TemporaryPassword req) < 8 \<Longrightarrow> \<exists>msg. st_CreateUserWithPassword h (Inr req) w = (SrError 400 msg, w)"
  by (simp add: st_CreateUserWithPassword_def bind_settings_def)

text \<open>Any text with \<^verbatim>\<open>409\<close> in it, also the address or the upstream's own words quoted in
  a refusal of another kind, is answered as an address that is taken.\<close>

lemma refusal_mistaken_for_conflict:
  assumes "cur_Email req \<noteq> []" and "8 \<le> length (cur_TemporaryPassword req)"
    and "kp_CreateUserWithPassword (se_provider h) req w = (Inl e, w1)" and "se_text h e = a @ ''409'' @ b"
  shows "st_CreateUserWithPassword h (Inr req) w = (SrError 409 ''a user with that email already exists'', w1)"
proof -
  have "contains ''409'' (se_text h e)" using assms(4) unfolding contains_iff by blast
  moreover have "cur_TemporaryPassword req \<noteq> []" using assms(2) by auto
  ultimately show ?thesis using assms(1-3)
    by (simp add: st_CreateUserWithPassword_def bind_settings_def Let_def)
qed

text \<open>Of a mail server, the stored password is told at most once, after the session is
  greeted, and never before the transport that \<^verbatim>\<open>ssl\<close> asks for is up.\<close>

lemma smtp_session_auth:
  assumes "smtp_session net cfg host before = (r, steps)" and "AuthPlain usr pw \<notin> set before"
    and "AuthPlain usr pw \<in> set steps"
  shows "usr = sm_User cfg \<and> pw = sm_Password cfg \<and> (\<exists>more. steps = before @ Greet host # more)"
  using assms by (auto simp: smtp_session_def Let_def split: option.splits if_splits)

lemma dial_auth_over_tls:
  assumes "dialSMTP net addr cfg = (r, steps)" and "AuthPlain usr pw \<in> set steps"
  shows "usr = sm_User cfg \<and> pw = sm_Password cfg \<and>
     (EqualFold_true (sm_SSL cfg) \<longrightarrow> (\<exists>host more. steps = DialTCP addr # HandshakeTLS host # more))"
proof -
  define host where "host = (case split_host addr of None \<Rightarrow> [] | Some h \<Rightarrow> h)"
  from assms consider "EqualFold_true (sm_SSL cfg)" "smtp_session net cfg host [DialTCP addr, HandshakeTLS host] = (r, steps)"
    | "\<not> EqualFold_true (sm_SSL cfg)" "smtp_session net cfg host [DialTCP addr] = (r, steps)"
    by (auto simp: dialSMTP_def Let_def simp flip: host_def split: option.splits if_splits)
  then show ?thesis using smtp_session_auth assms(2) by cases fastforce+
qed

section \<open>The mail password\<close>






section \<open>Examples\<close>






end
