(* ===== verification/Spec2Isabelle.thy ===== *)
theory Spec2Isabelle
  imports ControlTrail AdminHandlers Authenticator AuditPages AuditMemory RateLimit IdentityBoundary KeycloakPages Config SecretsCLI AdminSettings
begin

text \<open>
  Verification development for the LIGHTWEIGHT control plane (Go, under
  \<^verbatim>\<open>src/internal\<close>): an HTTP service that authenticates operators and machine
  credentials, keeps workspaces, projects, credentials and provider connections in
  PostgreSQL with an audit trail, and manages the users and roles of the Keycloak
  realm a workspace is connected to.

  \<^bold>\<open>How a request runs.\<close> The edge limiter (RateLimit) charges the client address; the
  request id is set (HttpContext); AuthenticatePrincipal (Authn) sends a bearer with the
  project prefix to the project authenticator (Authenticator, over Project and Token) and
  any other to the OIDC provider; Authorize decides with the route table (Registry,
  Scopes) and, for operators, the live-admin cache (AdminCache); the handler calls a
  service (Workspace, Project, ConnectionService, AuditQuery, IdentityRuntime), which
  runs repository statements on the database (Store), inside one transaction with the
  audit row of a mutation (AuditLog). An identity request resolves the workspace's
  active connection to a provider (Resolver, ProviderCache, Secrets, KeycloakClient) and
  calls the identity service on it (IdentityService), which sends the provider's requests
  (KeycloakProvider). The older \<^verbatim>\<open>/admin\<close> group runs the same service on the one realm of
  the process (AdminHandlers), and a few of its routes drive the provider directly
  (AdminSettings).

  \<^bold>\<open>Theories.\<close>
  \<^item> Prelude, Text, Encoding: bytes, \<^verbatim>\<open>strings\<close>, \<^verbatim>\<open>strconv\<close>, escaping, base64,
    RFC 3339; their lemmas are the hints the rest uses.
  \<^item> PublicId (\<^verbatim>\<open>publicid\<close>), HttpContext (\<^verbatim>\<open>requestid\<close>, \<^verbatim>\<open>auth/identity.go\<close>,
    \<^verbatim>\<open>principal.go\<close>, \<^verbatim>\<open>events.go\<close>), Authn (\<^verbatim>\<open>auth/middleware.go\<close>,
    \<^verbatim>\<open>principal.go\<close>), AdminCache (\<^verbatim>\<open>auth/admin_check.go\<close>).
  \<^item> Scopes, Registry, Authorize (\<^verbatim>\<open>authz\<close>, \<^verbatim>\<open>server/router.go\<close>): the vocabulary,
    the route table and what is mounted, the decision.
  \<^item> Store (\<^verbatim>\<open>database/tx.go\<close>): the tables, statements that may fail, InTx.
  \<^item> AuditLog, AuditQuery, AuditPages (\<^verbatim>\<open>auditlog\<close>, \<^verbatim>\<open>server/audit_retention.go\<close>):
    redaction and insertion, the filtered query and its cursors, paging and retention.
    AuditMemory (\<^verbatim>\<open>audit\<close>, \<^verbatim>\<open>server/audit_handler.go\<close>): the ring buffer.
  \<^item> Workspace; Token, Project, ProjectLife, Authenticator (\<^verbatim>\<open>workspace\<close>, \<^verbatim>\<open>project\<close>).
  \<^item> Secrets (\<^verbatim>\<open>secrets\<close>); Connection, ConnectionService, ConnectionLife,
    ConnectionInvariant, Rotation, Verifier (\<^verbatim>\<open>connection\<close>).
  \<^item> KeycloakClient (\<^verbatim>\<open>identity/keycloak/admin.go\<close>), ProviderCache, Resolver
    (\<^verbatim>\<open>identityruntime/cache.go\<close>, \<^verbatim>\<open>resolver.go\<close>), IdentityService, IdentityGuards
    (\<^verbatim>\<open>identity/service.go\<close>), IdentityRuntime, IdentityBoundary
    (\<^verbatim>\<open>identityruntime/handler*.go\<close>, \<^verbatim>\<open>role_guard.go\<close>).
  \<^item> GoJson (the JSON text Go writes), KeycloakProvider, KeycloakFlows, KeycloakPages
    (\<^verbatim>\<open>identity/keycloak\<close>: users, roles, sessions, invitations, realm); AdminHandlers
    (\<^verbatim>\<open>identity/handler.go\<close>), AdminSettings (\<^verbatim>\<open>server/smtp_handler.go\<close>,
    \<^verbatim>\<open>server/email_templates_handler.go\<close>).
  \<^item> ControlPlane, ControlHandlers, ControlErrors, ControlTrail (\<^verbatim>\<open>handler.go\<close> and
    \<^verbatim>\<open>dto.go\<close> of \<^verbatim>\<open>workspace\<close>, \<^verbatim>\<open>project\<close> and \<^verbatim>\<open>connection\<close>, \<^verbatim>\<open>logging/gin_helpers.go\<close>,
    \<^verbatim>\<open>audit_sink.go\<close>): the handlers over the services, the recorder after them, which
    errors they raise and what a request leaves behind.
  \<^item> Float64 (the rounding of Go's \<^verbatim>\<open>float64\<close>), RateLimit (\<^verbatim>\<open>server/ratelimit.go\<close>).
  \<^item> ConfigKeys, Contract, Config (\<^verbatim>\<open>config\<close>): the keyring variables, the table of all
    variables, reading and validating the environment. SecretsCLI
    (\<^verbatim>\<open>connection/secretscli.go\<close>, \<^verbatim>\<open>cmd/secrets\<close>): the rotation command.
  \<^item> This theory composes the chain with the database and with the identity handlers.

  \<^bold>\<open>State and errors.\<close> The database is a record of row lists; a statement is a function
  on the database and a list of faults that says which statements fail, so every theorem
  about an operation covers a failure of the driver or of COMMIT at every point. Errors
  are values (\<open>go_error\<close>, \<open>provider_error\<close>, records per catalogue) on the left of a sum.
  A handler's context and a provider's realm are states of their own. Clocks, random
  bytes and identifiers are arguments.

  \<^bold>\<open>What is shown.\<close> Admission: exactly which credentials pass which routes, and that a
  machine's effects on a realm stay in its workspace, within its scopes and on the trail.
  Atomicity: a mutation of workspaces, projects, credentials or connections happens with
  its audit row or not at all. Life cycles: what rows may become, over every sequence of
  requests. Secrets: rotation keeps every plaintext, no cached provider outlives its
  connection. Realms: an enabled admin remains unless the revocation of an invitation,
  which no guard looks at, names the last one; guards cannot be turned against their
  caller, what reaches the provider is well formed, a request acts through the client of
  its path's live active connection and no other, clients see catalogued errors only.
  Keycloak: the traffic of every method follows its plan (KeycloakFlows: reads only read,
  a half-made user is deleted, roles are resolved before they are mapped), page loops end
  and list a role's members completely up to their cap, which makes the last-admin guard
  exact over this provider (KeycloakPages: against a server that answers each request by
  the page it asks for). Admin group: one trail per mutation of its identity handlers, and
  a changed user is asked for again (AdminHandlers); the mail password is never shown and
  survives an edit, and these routes record nothing (AdminSettings). Control plane:
  through the handlers too, a change is answered, recorded and announced once, or is not
  made and announced once as a failure, unless its audit row is what failed; its error
  messages are the listed ones (ControlErrors, ControlTrail).
  Audit: pages enumerate the history while it grows, stay in their workspace, and
  retention removes exactly the old rows. Limits: what a key is admitted over any run of
  requests, refunds and sweeps, rounding included, and when it is admitted again.
  Start: a process that starts is configured within its bounds and holds the keys it
  was given, an unreadable value stops it, and what its messages tell of the secrets is
  said exactly, with the one way a key gets into them (Config, ConfigKeys); the
  exit codes of the rotation command say what happened to the secrets (SecretsCLI).

  \<^bold>\<open>Interfaces.\<close> Locales state what a client needs of its provider: \<open>audited_store\<close>
  (Store: a transaction and a recorder, for the services whose mutations carry an audit
  row; interpreted in AuditLog), \<open>evolving\<close> (Store: rows along a life cycle, in Workspace
  and ProjectLife), \<open>row_law\<close> (ConnectionInvariant: a law of connection rows that every
  request keeps; interpreted there and in Resolver) and \<open>cursor_store\<close> (AuditPages: pages
  by cursor over a growing table; interpreted on the repository).

  \<^bold>\<open>Parameters and bounds.\<close> SHA-256, AES-GCM (with the hypothesis that it opens what it
  sealed and nothing else), the Unicode case tables, \<^verbatim>\<open>net.ParseIP\<close>, \<^verbatim>\<open>ParseFloat\<close>, URL
  and JSON decoding, the OIDC provider, the realm behind the identity provider (with the
  hypothesis \<open>realm_contract\<close> on its enabled admins) and the network are arguments. No
  definition uses fuel: loops whose end is not structural have termination proofs. A
  panic (the verifier's \<^verbatim>\<open>itoa\<close> writes eight digits) is the value \<^const>\<open>None\<close>. Tokens
  of the rate limiter are the rationals that \<^verbatim>\<open>float64\<close> values stand for, every
  operation rounded to 53 bits as on amd64; rates are finite, and those above
  two to the fiftieth are left out of its theorems.

  \<^bold>\<open>Concurrency.\<close> Requests are steps of sequences; where the code interleaves (a verdict
  recorded after an update, an answer cached after an invalidation) the steps are
  separate and the theorem is about the interleaving.

  \<^bold>\<open>Not modelled.\<close> Contexts with their deadlines, and log lines; a null slice inside the
  attributes of a Keycloak user, written back as an empty one; process wiring, health probes, metrics and log
  formatting, the bootstrap generator, the other commands and the Go SDK.
\<close>

section \<open>A machine request from the wire to the rows\<close>

text \<open>The authenticator of internal/project as the ProjectAuthenticator the
  middleware is given; the state is the database.\<close>

definition pg_authenticator ::
  "(string \<Rightarrow> 8 word list) \<Rightarrow> int \<Rightarrow> world project_authenticator" where
  "pg_authenticator sha now token w =
     (case AuthenticateCredential sha now token w of
        (Inl _, w') \<Rightarrow> (Inl ''lookup failed'', w')
      | (Inr (r, _), w') \<Rightarrow> (Inr r, w'))"

definition machine_chain ::
  "(string \<Rightarrow> 8 word list) \<Rightarrow> int \<Rightarrow> world auth_provider option \<Rightarrow> world admin_checker option \<Rightarrow>
   world middleware list" where
  "machine_chain sha now prov checker =
     [AuthenticatePrincipal \<lparr> cfg_Provider = prov, cfg_Projects = Some (pg_authenticator sha now) \<rparr>,
      Authorize checker]"

text \<open>What the rows must say for a token to be allowed a route of a workspace.\<close>

definition machine_grant ::
  "(string \<Rightarrow> 8 word list) \<Rightarrow> int \<Rightarrow> string \<Rightarrow> db \<Rightarrow> http_ctx \<Rightarrow> bool" where
  "machine_grant sha now token d c =
     (case credential_for sha now token d of
        None \<Rightarrow> False
      | Some (cred, p) \<Rightarrow>
          (case RequirementFor (rq_method c) (rq_route c) of
             None \<Rightarrow> False
           | Some req \<Rightarrow> \<not> rq_OperatorOnly req \<and>
               Parse WorkspacePrefix (Param c ''workspace_id'') = Inr (pj_WorkspaceID p) \<and>
               rq_Scope req \<in> set (cr_Scopes cred)))"

lemma pg_authenticator_Some:
  "pg_authenticator sha now token w = (Inr r, w') \<Longrightarrow>
     r = map_option principal_of (credential_for sha now token (w_db w))"
  using AuthenticateCredential_spec [where sha = sha and now = now and token = token and w = w]
  by (auto simp: pg_authenticator_def split: prod.splits sum.splits)

lemma pg_authenticator_no_faults:
  "w_faults w = [] \<Longrightarrow> \<exists>w'. pg_authenticator sha now token w =
     (Inr (map_option principal_of (credential_for sha now token (w_db w))), w')"
  using AuthenticateCredential_spec [where sha = sha and now = now and token = token and w = w]
  by (auto simp: pg_authenticator_def split: prod.splits sum.splits)

lemma stored_ctx [simp]:
  "rq_method (EmitEvent k x r (StorePrincipal p c)) = rq_method c"
  "rq_route (EmitEvent k x r (StorePrincipal p c)) = rq_route c"
  "Param (EmitEvent k x r (StorePrincipal p c)) n = Param c n"
  "rs_abort (EmitEvent k x r (StorePrincipal p c)) = rs_abort c"
  "cx_principal (EmitEvent k x r (StorePrincipal p c)) = Some p"
  by (simp_all add: EmitEvent_def StorePrincipal_def Param_def)

lemma Parse_Nil: "Parse p [] \<noteq> Inr u"
proof -
  have "trim_space [] = []" by (rule trim_space_graph) simp
  then show ?thesis by (simp add: Parse_def)
qed

lemma sameWorkspace_row:
  assumes "canonical u"
  shows "sameWorkspace (Format WorkspacePrefix u) path = (Parse WorkspacePrefix path = Inr u)"
  using Parse_Format_aux [OF assms, of WorkspacePrefix] id_prefixes_ok [of WorkspacePrefix]
  by (auto simp: sameWorkspace_iff id_prefixes_def)

lemma machine_decision:
  assumes "extractBearer c = Inr token" and "has_prefix ProjectTokenPrefix token"
    and "rs_abort c = None"
  shows "rs_abort (snd (run_chain (machine_chain sha now prov checker) (w, c))) = None \<longleftrightarrow>
     (case pg_authenticator sha now token w of
        (Inr (Some pp), w') \<Rightarrow>
          (case RequirementFor (rq_method c) (rq_route c) of
             None \<Rightarrow> False
           | Some req \<Rightarrow> project_verdict req pp (Param c ''workspace_id'') = None)
      | _ \<Rightarrow> False)"
proof (cases "pg_authenticator sha now token w")
  case (Pair r w')
  note step = assms Pair AuthenticatePrincipal_def authenticateProject_def machine_chain_def Let_def
  show ?thesis
  proof (cases r)
    case (Inl e)
    then show ?thesis by (simp add: step)
  next
    case (Inr ans)
    show ?thesis
    proof (cases ans)
      case (Some pp)
      let ?c = "EmitEvent EventTokenValidated (pp_ProjectID pp) [] (StorePrincipal (NewProjectPrincipal pp) c)"
      have "rs_abort (snd (Authorize checker (w', ?c))) = None \<longleftrightarrow>
          (case RequirementFor (rq_method c) (rq_route c) of None \<Rightarrow> False
           | Some req \<Rightarrow> project_verdict req pp (Param c ''workspace_id'') = None)"
        by (cases "RequirementFor (rq_method c) (rq_route c)")
          (simp_all add: assms Authorize_project authorizeProject_verdict Authorize_def PrincipalFrom_def)
      with Some Inr show ?thesis by (simp add: step)
    qed (use Inr in \<open>simp add: step\<close>)
  qed
qed

lemma principal_verdict:
  assumes "canonical (pj_WorkspaceID p)"
  shows "project_verdict req (principal_of (cred, p)) path = None \<longleftrightarrow>
     \<not> rq_OperatorOnly req \<and> Parse WorkspacePrefix path = Inr (pj_WorkspaceID p) \<and>
     rq_Scope req \<in> set (cr_Scopes cred)"
  using sameWorkspace_row [OF assms, of path] Parse_Nil
  by (auto simp: project_verdict_def principal_of_def pj_WorkspacePublicID_def)

lemma granted_principal:
  assumes "list_all (\<lambda>p. canonical (pj_WorkspaceID p)) (db_projects d)"
  shows "(case map_option principal_of (credential_for sha now token d) of
       None \<Rightarrow> False
     | Some pp \<Rightarrow>
         (case RequirementFor (rq_method c) (rq_route c) of
            None \<Rightarrow> False
          | Some req \<Rightarrow> project_verdict req pp (Param c ''workspace_id'') = None)) \<longleftrightarrow>
     machine_grant sha now token d c"
proof (cases "credential_for sha now token d")
  case (Some cp)
  obtain cred p where cp: "cp = (cred, p)" by (cases cp)
  with credential_for_Some(2) Some assms have "canonical (pj_WorkspaceID p)"
    by (auto simp: list_all_iff)
  with Some cp show ?thesis
    by (simp add: machine_grant_def principal_verdict split: option.split)
qed (simp add: machine_grant_def)

section \<open>A machine request from the wire to a realm\<close>

text \<open>The identity routes as \<^verbatim>\<open>mountV1\<close> mounts them: method, path and handler.\<close>

fun identity_route :: "rt_request \<Rightarrow> string \<times> string" where
  "identity_route GetUsers = (''GET'', v1Workspace @ ''/users'')"
| "identity_route (PostUser _) = (''POST'', v1Workspace @ ''/users'')"
| "identity_route GetUser = (''GET'', v1Workspace @ ''/users/:user_id'')"
| "identity_route (PatchUser _) = (''PATCH'', v1Workspace @ ''/users/:user_id'')"
| "identity_route DeleteUser = (''DELETE'', v1Workspace @ ''/users/:user_id'')"
| "identity_route GetUserRoles = (''GET'', v1Workspace @ ''/users/:user_id/roles'')"
| "identity_route (PostUserRoles _) = (''POST'', v1Workspace @ ''/users/:user_id/roles'')"
| "identity_route DeleteUserRole = (''DELETE'', v1Workspace @ ''/users/:user_id/roles/:role_name'')"
| "identity_route PostResetPassword = (''POST'', v1Workspace @ ''/users/:user_id/reset-password'')"
| "identity_route (PutPassword _) = (''PUT'', v1Workspace @ ''/users/:user_id/password'')"
| "identity_route GetUserSessions = (''GET'', v1Workspace @ ''/users/:user_id/sessions'')"
| "identity_route DeleteUserSessions = (''DELETE'', v1Workspace @ ''/users/:user_id/sessions'')"
| "identity_route GetSessions = (''GET'', v1Workspace @ ''/sessions'')"
| "identity_route DeleteSession = (''DELETE'', v1Workspace @ ''/sessions/:session_id'')"
| "identity_route GetRoles = (''GET'', v1Workspace @ ''/roles'')"
| "identity_route (PostRole _) = (''POST'', v1Workspace @ ''/roles'')"
| "identity_route GetRole = (''GET'', v1Workspace @ ''/roles/:role_name'')"
| "identity_route (PatchRole _) = (''PATCH'', v1Workspace @ ''/roles/:role_name'')"
| "identity_route DeleteRole = (''DELETE'', v1Workspace @ ''/roles/:role_name'')"
| "identity_route GetRoleUsers = (''GET'', v1Workspace @ ''/roles/:role_name/users'')"
| "identity_route GetInvitations = (''GET'', v1Workspace @ ''/invitations'')"
| "identity_route (PostInvitation _) = (''POST'', v1Workspace @ ''/invitations'')"
| "identity_route DeleteInvitation = (''DELETE'', v1Workspace @ ''/invitations/:invitation_id'')"
| "identity_route PostResend = (''POST'', v1Workspace @ ''/invitations/:invitation_id/resend'')"

text \<open>The chain, then the handler when nothing aborted; the answer is \<^const>\<open>None\<close>
  when the chain wrote it.\<close>

definition identity_endpoint ::
  "(string \<Rightarrow> 8 word list) \<Rightarrow> int \<Rightarrow> world auth_provider option \<Rightarrow> world admin_checker option \<Rightarrow>
   's handler_env \<Rightarrow> rt_request \<Rightarrow> http_ctx \<Rightarrow> 's rt_state \<Rightarrow> reply option \<times> 's rt_state" where
  "identity_endpoint sha now prov checker h rq c s =
     (let (w, c') = run_chain (machine_chain sha now prov checker) (rt_db s, c); s = s\<lparr> rt_db := w \<rparr> in
      if rs_abort c' \<noteq> None then (None, s)
      else let (rep, s) = rt_handle h c' rq s in (Some rep, s))"

text \<open>The scope each mutation demands; a password is set by operators only.\<close>

fun write_scope :: "rt_request \<Rightarrow> string option" where
  "write_scope (PutPassword _) = None"
| "write_scope rq =
     (if rq \<in> {DeleteSession, DeleteUserSessions} then Some ScopeSessionsRevoke
      else case rq of
        PostUser _ \<Rightarrow> Some ScopeUsersWrite | PatchUser _ \<Rightarrow> Some ScopeUsersWrite
      | DeleteUser \<Rightarrow> Some ScopeUsersWrite | PostResetPassword \<Rightarrow> Some ScopeUsersWrite
      | PostInvitation _ \<Rightarrow> Some ScopeInvitationsWrite | DeleteInvitation \<Rightarrow> Some ScopeInvitationsWrite
      | PostResend \<Rightarrow> Some ScopeInvitationsWrite
      | _ \<Rightarrow> Some ScopeRolesWrite)"

lemma mutation_scopes:
  "RequirementFor ''POST'' (v1Workspace @ ''/users'') = Some (scoped ScopeUsersWrite)"
  "RequirementFor ''PATCH'' (v1Workspace @ ''/users/:user_id'') = Some (scoped ScopeUsersWrite)"
  "RequirementFor ''DELETE'' (v1Workspace @ ''/users/:user_id'') = Some (scoped ScopeUsersWrite)"
  "RequirementFor ''POST'' (v1Workspace @ ''/users/:user_id/roles'') = Some (scoped ScopeRolesWrite)"
  "RequirementFor ''DELETE'' (v1Workspace @ ''/users/:user_id/roles/:role_name'') = Some (scoped ScopeRolesWrite)"
  "RequirementFor ''POST'' (v1Workspace @ ''/users/:user_id/reset-password'') = Some (scoped ScopeUsersWrite)"
  "RequirementFor ''PUT'' (v1Workspace @ ''/users/:user_id/password'') = Some operatorOnly"
  "RequirementFor ''DELETE'' (v1Workspace @ ''/users/:user_id/sessions'') = Some (scoped ScopeSessionsRevoke)"
  "RequirementFor ''DELETE'' (v1Workspace @ ''/sessions/:session_id'') = Some (scoped ScopeSessionsRevoke)"
  "RequirementFor ''POST'' (v1Workspace @ ''/roles'') = Some (scoped ScopeRolesWrite)"
  "RequirementFor ''PATCH'' (v1Workspace @ ''/roles/:role_name'') = Some (scoped ScopeRolesWrite)"
  "RequirementFor ''DELETE'' (v1Workspace @ ''/roles/:role_name'') = Some (scoped ScopeRolesWrite)"
  "RequirementFor ''POST'' (v1Workspace @ ''/invitations'') = Some (scoped ScopeInvitationsWrite)"
  "RequirementFor ''DELETE'' (v1Workspace @ ''/invitations/:invitation_id'') = Some (scoped ScopeInvitationsWrite)"
  "RequirementFor ''POST'' (v1Workspace @ ''/invitations/:invitation_id/resend'') = Some (scoped ScopeInvitationsWrite)"
  by code_simp+

lemma mutation_requirement:
  assumes "mutating rq"
  shows "RequirementFor (fst (identity_route rq)) (snd (identity_route rq)) =
    Some (case write_scope rq of None \<Rightarrow> operatorOnly | Some sc \<Rightarrow> scoped sc)"
  using assms by (cases rq) (simp_all add: mutation_scopes mutating_def)

text \<open>Behind the chain the caller is the project of the token, and nothing else of the
  request has changed.\<close>

lemma chain_admits:
  assumes "extractBearer c = Inr token" and "has_prefix ProjectTokenPrefix token" and "rs_abort c = None"
    and "list_all (\<lambda>p. canonical (pj_WorkspaceID p)) (db_projects (w_db w))"
    and "run_chain (machine_chain sha now prov checker) (w, c) = (w', c')" and "rs_abort c' = None"
  obtains cred p where "credential_for sha now token (w_db w) = Some (cred, p)"
    and "machine_grant sha now token (w_db w) c"
    and "PrincipalFrom c' = Some (NewProjectPrincipal (principal_of (cred, p)))"
    and "Param c' ''workspace_id'' = Param c ''workspace_id''"
proof -
  note d = machine_decision [OF assms(1-3), where sha = sha and now = now and prov = prov and checker = checker and w = w]
  obtain r w1 where a: "pg_authenticator sha now token w = (r, w1)" by fastforce
  from d assms(5,6) a obtain pp req where r: "r = Inr (Some pp)"
    and req: "RequirementFor (rq_method c) (rq_route c) = Some req"
    and v: "project_verdict req pp (Param c ''workspace_id'') = None"
    by (auto split: sum.splits option.splits)
  from pg_authenticator_Some [OF a [unfolded r]]
  have "map_option principal_of (credential_for sha now token (w_db w)) = Some pp" ..
  then obtain cred p where
    cp: "credential_for sha now token (w_db w) = Some (cred, p)" "pp = principal_of (cred, p)"
    by (cases "credential_for sha now token (w_db w)") auto
  have g: "machine_grant sha now token (w_db w) c"
    using granted_principal [OF assms(4), where sha = sha and now = now and token = token and c = c] cp req v by simp
  let ?c = "EmitEvent EventTokenValidated (pp_ProjectID pp) [] (StorePrincipal (NewProjectPrincipal pp) c)"
  have "run_chain (machine_chain sha now prov checker) (w, c) = Authorize checker (w1, ?c)"
    by (simp add: assms(1-3) a r AuthenticatePrincipal_def authenticateProject_def machine_chain_def Let_def
        split: prod.split)
  also have "\<dots> = (w1, authorizeProject req pp ?c)" using req by (simp add: Authorize_project)
  finally have c': "c' = authorizeProject req pp ?c" using assms(5) by simp
  with assms(6) have "c' = ?c"
    by (simp add: authorizeProject_def Let_def split: if_splits)
  with that [OF cp(1) g] cp(2) show thesis by (simp add: PrincipalFrom_def)
qed

section \<open>Properties\<close>

text \<open>C1: a request bearing a project token gets through authentication and
  authorization only if the rows grant it: the token's digest matches an
  unrevoked, unexpired credential of an active project, the project lives in the
  workspace the path names, and the credential holds the scope the route table
  demands; when the database answers, this is also sufficient. The operator
  provider and the live-admin checker play no part.\<close>

theorem machine_request_admitted:
  assumes "extractBearer c = Inr token" and "has_prefix ProjectTokenPrefix token"
    and "rs_abort c = None"
    and "list_all (\<lambda>p. canonical (pj_WorkspaceID p)) (db_projects (w_db w))"
  shows "if w_faults w = []
     then (rs_abort (snd (run_chain (machine_chain sha now prov checker) (w, c))) = None \<longleftrightarrow>
           machine_grant sha now token (w_db w) c)
     else (rs_abort (snd (run_chain (machine_chain sha now prov checker) (w, c))) = None \<longrightarrow>
           machine_grant sha now token (w_db w) c)"
proof -
  note g = granted_principal [OF assms(4), where sha = sha and now = now and token = token and c = c, symmetric]
  note d = machine_decision [OF assms(1-3), where sha = sha and now = now and prov = prov and checker = checker and w = w]
  show ?thesis
  proof (cases "w_faults w = []")
    case True
    with pg_authenticator_no_faults obtain w' where
      "pg_authenticator sha now token w =
        (Inr (map_option principal_of (credential_for sha now token (w_db w))), w')" by blast
    with True show ?thesis unfolding d g by (auto split: option.split)
  next
    case False
    then show ?thesis unfolding d g
      by (auto split: prod.splits sum.splits option.splits dest!: pg_authenticator_Some)
  qed
qed

definition demo_request :: "string \<Rightarrow> http_ctx" where
  "demo_request token = empty_ctx\<lparr> rq_method := ''GET'', rq_route := v1Workspace @ ''/users'',
     rq_params := [(''workspace_id'', demo_ws_id)],
     rq_headers := [(''Authorization'', ''Bearer '' @ token)] \<rparr>"

theorem machine_request_admitted_witness:
  "rs_abort (snd (run_chain (machine_chain demo_sha 6 None None)
     (demo_project_world, demo_request (mc_Token demo_minted)))) = None"
proof -
  let ?t = "mc_Token demo_minted" and ?c = "demo_request (mc_Token demo_minted)"
  have "extractBearer ?c = Inr ?t" "has_prefix ProjectTokenPrefix ?t"
    "list_all (\<lambda>p. canonical (pj_WorkspaceID p)) (db_projects (w_db demo_project_world))"
    "machine_grant demo_sha 6 ?t (w_db demo_project_world) ?c"
    by code_simp+
  moreover have "rs_abort ?c = None" "w_faults demo_project_world = []"
    by (simp_all add: demo_request_def empty_ctx_def demo_project_world_def)
  ultimately show ?thesis
    using machine_request_admitted [where c = ?c and token = ?t and w = demo_project_world and sha = demo_sha and now = 6 and prov = None and checker = None] by simp
qed

text \<open>C2: Whatever a request that bears a project token does to a realm or to the trail
  through the identity routes, the rows allowed: the token's credential is usable and
  holds the write scope of the route (no credential sets a password), the path names
  the workspace its project lives in, and every event left names that project, that
  credential and that workspace.\<close>

theorem machine_identity_effects:
  assumes "extractBearer c = Inr token" and "has_prefix ProjectTokenPrefix token" and "rs_abort c = None"
    and "list_all (\<lambda>p. canonical (pj_WorkspaceID p)) (db_projects (w_db (rt_db s)))"
    and "mutating rq" and "(rq_method c, rq_route c) = identity_route rq"
    and "identity_endpoint sha now prov checker h rq c s = (out, s')" and "\<not> untouched s s'"
  shows "\<exists>cred p scope evs. credential_for sha now token (w_db (rt_db s)) = Some (cred, p) \<and>
    write_scope rq = Some scope \<and> scope \<in> set (cr_Scopes cred) \<and>
    Parse WorkspacePrefix (Param c ''workspace_id'') = Inr (pj_WorkspaceID p) \<and>
    evs \<noteq> [] \<and> rt_events s' = rt_events s @ evs \<and>
    list_all (\<lambda>e. ea_Workspace e = pj_WorkspacePublicID p \<and> at_Type (ea_Actor e) = Some ActorProject \<and>
      at_ProjectID (ea_Actor e) = pj_PublicID p \<and> at_CredentialID (ea_Actor e) = cr_PublicID cred) evs"
proof -
  obtain w c' where run: "run_chain (machine_chain sha now prov checker) (rt_db s, c) = (w, c')" by fastforce
  let ?s = "s\<lparr> rt_db := w \<rparr>"
  have ok: "rs_abort c' = None"
    using assms(7,8) run by (cases "rs_abort c'") (auto simp: identity_endpoint_def untouched_def Let_def)
  with assms(7) run obtain rep where rep: "rt_handle h c' rq ?s = (rep, s')"
    by (auto simp: identity_endpoint_def Let_def split: prod.splits)
  from chain_admits [OF assms(1-4) run ok] obtain cred p where
    cp: "credential_for sha now token (w_db (rt_db s)) = Some (cred, p)"
    and g: "machine_grant sha now token (w_db (rt_db s)) c"
    and pr: "PrincipalFrom c' = Some (NewProjectPrincipal (principal_of (cred, p)))"
    and wid: "Param c' ''workspace_id'' = Param c ''workspace_id''" .
  have "\<not> untouched ?s s'" using assms(8) by (simp add: untouched_def)
  with effects_audited [OF assms(5) rep] obtain x where live: "live_route c' (w_db w) x"
    and rec: "recorded h c' (rd_WorkspacePublicID x) (is_error rep) ?s s'" by auto
  have ws: "Parse WorkspacePrefix (Param c ''workspace_id'') = Inr (pj_WorkspaceID p)"
    using g cp by (auto simp: machine_grant_def split: option.splits)
  then have wsid: "rd_WorkspacePublicID x = pj_WorkspacePublicID p"
    using live wid by (auto simp: live_route_def ws_PublicID_def pj_WorkspacePublicID_def)
  have req: "RequirementFor (rq_method c) (rq_route c) =
      Some (case write_scope rq of None \<Rightarrow> operatorOnly | Some sc \<Rightarrow> scoped sc)"
    using mutation_requirement [OF assms(5)] assms(6) by (metis fst_conv snd_conv)
  have scope: "\<exists>scope. write_scope rq = Some scope \<and> scope \<in> set (cr_Scopes cred)"
    using g cp req by (cases "write_scope rq") (auto simp: machine_grant_def scoped_def operatorOnly_def)
  have actor: "ActorFromGin c' = no_actor\<lparr> at_Type := Some ActorProject, at_ProjectID := pj_PublicID p,
      at_CredentialID := cr_PublicID cred \<rparr>"
    using pr by (simp add: ActorFromGin_def IsProject_def NewProjectPrincipal_def principal_of_def)
  from rec obtain evs where "evs \<noteq> []" "rt_events s' = rt_events s @ evs"
    "list_all (attempt_event h c' (pj_WorkspacePublicID p) (is_error rep)) evs"
    unfolding recorded_def wsid by auto
  moreover from this(3) have "list_all (\<lambda>e. ea_Workspace e = pj_WorkspacePublicID p \<and>
      at_Type (ea_Actor e) = Some ActorProject \<and> at_ProjectID (ea_Actor e) = pj_PublicID p \<and>
      at_CredentialID (ea_Actor e) = cr_PublicID cred) evs"
    by (auto simp: list_all_iff attempt_event_def actor)
  ultimately show ?thesis using cp scope ws by blast
qed

text \<open>The demo project deletes one of the two admins of its workspace's realm.\<close>

definition demo_machine_state :: "toy_realm rt_state" where
  "demo_machine_state = demo_rt_state\<lparr> rt_db := demo_live_world\<lparr> w_db := (w_db demo_live_world)\<lparr>
     db_projects := [demo_pj], db_credentials := [demo_credential\<lparr> cr_Scopes := [ScopeUsersWrite] \<rparr>] \<rparr> \<rparr> \<rparr>"

definition demo_machine_ctx :: http_ctx where
  "demo_machine_ctx = demo_rt_ctx\<lparr> rq_method := ''DELETE'', rq_route := v1Workspace @ ''/users/:user_id'',
     rq_headers := [(''Authorization'', ''Bearer '' @ mc_Token demo_minted)] \<rparr>"

theorem machine_identity_effects_witness:
  "\<exists>cred p. credential_for demo_sha 6 (mc_Token demo_minted) (w_db (rt_db demo_machine_state)) = Some (cred, p) \<and>
     ScopeUsersWrite \<in> set (cr_Scopes cred) \<and>
     Parse WorkspacePrefix (Param demo_machine_ctx ''workspace_id'') = Inr (pj_WorkspaceID p)"
proof -
  let ?r = "identity_endpoint demo_sha 6 None None demo_handler_env DeleteUser demo_machine_ctx demo_machine_state"
  have "extractBearer demo_machine_ctx = Inr (mc_Token demo_minted)" "has_prefix ProjectTokenPrefix (mc_Token demo_minted)"
    "rs_abort demo_machine_ctx = None"
    "list_all (\<lambda>p. canonical (pj_WorkspaceID p)) (db_projects (w_db (rt_db demo_machine_state)))"
    "rt_events (snd ?r) \<noteq> rt_events demo_machine_state"
    by code_simp+
  moreover have "mutating DeleteUser" "(rq_method demo_machine_ctx, rq_route demo_machine_ctx) = identity_route DeleteUser"
    by (simp_all add: mutating_def demo_machine_ctx_def)
  moreover from calculation(5) have "\<not> untouched demo_machine_state (snd ?r)" by (simp add: untouched_def)
  ultimately have "\<exists>cred p scope evs. credential_for demo_sha 6 (mc_Token demo_minted) (w_db (rt_db demo_machine_state)) = Some (cred, p) \<and>
    write_scope DeleteUser = Some scope \<and> scope \<in> set (cr_Scopes cred) \<and>
    Parse WorkspacePrefix (Param demo_machine_ctx ''workspace_id'') = Inr (pj_WorkspaceID p) \<and>
    evs \<noteq> [] \<and> rt_events (snd ?r) = rt_events demo_machine_state @ evs \<and>
    list_all (\<lambda>e. ea_Workspace e = pj_WorkspacePublicID p \<and> at_Type (ea_Actor e) = Some ActorProject \<and>
      at_ProjectID (ea_Actor e) = pj_PublicID p \<and> at_CredentialID (ea_Actor e) = cr_PublicID cred) evs"
    by (intro machine_identity_effects [OF _ _ _ _ _ _ prod.collapse [symmetric]])
  then show ?thesis by auto
qed

end
